(* ===== verification/Prelude.thy ===== *)
theory Prelude
  imports Complex_Main "HOL-Library.Sublist"
begin

text \<open>
  Shared vocabulary of the development: the error values and the result combinators that
  stand for Python's \<open>raise\<close> and early \<open>return\<close>, the dynamic values a Python \<open>dict\<close> may
  hold, the few built-in operations on them that the scripts use (\<open>isinstance\<close>, \<open>==\<close>,
  \<open>is\<close>, \<open>dict.get\<close>), and the generic lemmas the component proofs rely on.

  A Python \<open>str\<close> is a \<^typ>\<open>string\<close> that holds its UTF-8 bytes, so \<open>encode\<close> is the identity
  and \<open>decode\<close> is a validity check.  A Python \<open>int\<close> is an \<^typ>\<open>int\<close>.  A formatted message
  \<open>"fmt" % args\<close> is the pair of its format string and its arguments.
\<close>

named_theorems model_defs \<open>definitions unfolded by the component proofs\<close>
named_theorems raises_intros \<open>which exceptions a computation can raise\<close>
named_theorems result_simps \<open>characterisations of successful results\<close>

section \<open>Python values\<close>

text \<open>
  A finite double is the rational it denotes; the two infinities and NaN are the values
  \<open>json.loads\<close> yields for the literals \<open>Infinity\<close>, \<open>-Infinity\<close> and \<open>NaN\<close>.
\<close>

datatype pyfloat = Fin rat | Inf bool | NaN

datatype pyval =
    PNone
  | PBool bool
  | PInt int
  | PFloat pyfloat
  | PStr string
  | PList "pyval list"
  | PDict "(string \<times> pyval) list"

type_synonym pydict = "(string \<times> pyval) list"

text \<open>\<open>isinstance (v, int)\<close> holds for booleans too; \<open>is_int\<close> is the stricter test.\<close>

fun isinstance_int :: "pyval \<Rightarrow> bool" where
  "isinstance_int (PInt _) = True"
| "isinstance_int (PBool _) = True"
| "isinstance_int _ = False"

fun isinstance_bool :: "pyval \<Rightarrow> bool" where
  "isinstance_bool (PBool _) = True"
| "isinstance_bool _ = False"

fun isinstance_str :: "pyval \<Rightarrow> bool" where
  "isinstance_str (PStr _) = True"
| "isinstance_str _ = False"

fun isinstance_dict :: "pyval \<Rightarrow> bool" where
  "isinstance_dict (PDict _) = True"
| "isinstance_dict _ = False"

fun isinstance_list :: "pyval \<Rightarrow> bool" where
  "isinstance_list (PList _) = True"
| "isinstance_list _ = False"

text \<open>The integer a value that passed \<open>isinstance (v, int)\<close> stands for.\<close>

fun int_value :: "pyval \<Rightarrow> int" where
  "int_value (PInt i) = i"
| "int_value (PBool b) = (if b then 1 else 0)"
| "int_value _ = 0"

text \<open>Numeric value for \<open>==\<close>: booleans, integers and finite floats compare by value.\<close>

fun num_value :: "pyval \<Rightarrow> rat option" where
  "num_value (PBool b) = Some (if b then 1 else 0)"
| "num_value (PInt i) = Some (of_int i)"
| "num_value (PFloat (Fin q)) = Some q"
| "num_value _ = None"

text \<open>Python's \<open>==\<close>.  Dictionaries compare as maps, lists elementwise.\<close>

function py_eq :: "pyval \<Rightarrow> pyval \<Rightarrow> bool" where
  "py_eq a b =
     (case (num_value a, num_value b) of
        (Some x, Some y) \<Rightarrow> x = y
      | (None, None) \<Rightarrow>
          (case (a, b) of
             (PNone, PNone) \<Rightarrow> True
           | (PStr s, PStr t) \<Rightarrow> s = t
           | (PFloat (Inf p), PFloat (Inf q)) \<Rightarrow> p = q
           | (PList xs, PList ys) \<Rightarrow>
               length xs = length ys \<and> (\<forall>(x, y) \<in> set (zip xs ys). py_eq x y)
           | (PDict d, PDict e) \<Rightarrow>
               length d = length e \<and>
               (\<forall>(k, v) \<in> set d. case map_of e k of None \<Rightarrow> False | Some w \<Rightarrow> py_eq v w)
           | _ \<Rightarrow> False)
      | _ \<Rightarrow> False)"
  by pat_completeness auto
termination
proof (relation "measure (\<lambda>(a, _). size a)", goal_cases)
  case 1
  show ?case by simp
next
  case 2
  then show ?case
    by (auto dest!: set_zip_leftD simp: less_Suc_eq_le size_list_estimation')
next
  case 3
  then show ?case
    by (auto simp: less_Suc_eq_le intro!: size_list_estimation')
qed

declare py_eq.simps [simp del]

lemma py_eq_PInt [simp]: "py_eq v (PInt i) \<longleftrightarrow> num_value v = Some (of_int i)"
  by (subst py_eq.simps) (auto split: option.splits pyval.splits pyfloat.splits)

lemma py_eq_PBool [simp]:
  "py_eq v (PBool b) \<longleftrightarrow> num_value v = Some (if b then 1 else 0)"
  by (subst py_eq.simps) (auto split: option.splits pyval.splits pyfloat.splits)

lemma py_eq_PStr [simp]: "py_eq v (PStr s) \<longleftrightarrow> v = PStr s"
  by (subst py_eq.simps) (auto split: option.splits pyval.splits pyfloat.splits)

lemma py_eq_PNone [simp]: "py_eq v PNone \<longleftrightarrow> v = PNone"
  by (subst py_eq.simps) (auto split: option.splits pyval.splits pyfloat.splits)

lemma num_value_PInt_conv [simp]:
  "num_value (PInt i) = Some q \<longleftrightarrow> q = of_int i"
  by auto

lemma isinstance_int_num_value:
  "isinstance_int v \<Longrightarrow> num_value v = Some (of_int (int_value v))"
  by (cases v) auto

lemma isinstance_int_py_eq [simp]:
  "isinstance_int v \<Longrightarrow> isinstance_int w \<Longrightarrow> py_eq v w \<longleftrightarrow> int_value v = int_value w"
  by (cases w) (auto simp: isinstance_int_num_value)

text \<open>\<open>v is True\<close> and \<open>v is False\<close> are identity tests on the two boolean objects.\<close>

abbreviation is_True :: "pyval \<Rightarrow> bool" where
  "is_True v \<equiv> v = PBool True"

abbreviation is_False :: "pyval \<Rightarrow> bool" where
  "is_False v \<equiv> v = PBool False"

text \<open>\<open>d.get (k)\<close> and \<open>d.get (k, default)\<close>; \<open>dict_set\<close> is \<open>d[k] = v\<close>, which keeps the
  position of an existing key.\<close>

definition dict_get :: "pydict \<Rightarrow> string \<Rightarrow> pyval" where
  "dict_get d k = (case map_of d k of None \<Rightarrow> PNone | Some v \<Rightarrow> v)"

definition dict_get_or :: "pydict \<Rightarrow> string \<Rightarrow> pyval \<Rightarrow> pyval" where
  "dict_get_or d k x = (case map_of d k of None \<Rightarrow> x | Some v \<Rightarrow> v)"

fun dict_set :: "pydict \<Rightarrow> string \<Rightarrow> pyval \<Rightarrow> pydict" where
  "dict_set [] k v = [(k, v)]"
| "dict_set ((k', v') # d) k v =
     (if k' = k then (k, v) # d else (k', v') # dict_set d k v)"

definition dict_keys :: "pydict \<Rightarrow> string list" where
  "dict_keys d = map fst d"

lemma map_of_dict_set [simp]: "map_of (dict_set d k v) = (map_of d)(k \<mapsto> v)"
  by (induction d k v rule: dict_set.induct) auto

lemma dict_get_set [simp]:
  "dict_get (dict_set d k v) k' = (if k' = k then v else dict_get d k')"
  by (simp add: dict_get_def)

lemma dict_keys_set:
  "set (dict_keys (dict_set d k v)) = insert k (set (dict_keys d))"
  by (induction d k v rule: dict_set.induct) (auto simp: dict_keys_def)

lemma distinct_dict_set:
  "distinct (dict_keys d) \<Longrightarrow> distinct (dict_keys (dict_set d k v))"
  using dict_keys_set
  by (induction d k v rule: dict_set.induct) (fastforce simp: dict_keys_def)+

section \<open>Messages and exceptions\<close>

text \<open>
  Every \<open>raise\<close> of the scripts is one constructor application: the class of the exception
  and its message.  A message argument is a value or, where the source interpolates a
  caught exception or an earlier text, that exception or text.
\<close>

datatype msg = Fmt string "marg list"
  and marg = AV pyval | AX exn | AM msg
  and exn =
    HilProtocolError msg
  | HilSchemaError msg
  | RowSpecError msg
  | HilLifecycleError msg
  | FixtureBusy string
  | LockReleaseError msg
  | CleanupFailure "(string \<times> exn) list"
  | ExceptionGroup msg "exn list"
  | BaseExceptionGroup msg "exn list"
  | KeyboardInterrupt
  | OSError msg
  | JSONDecodeError
  | DuplicateKeyError string
  | UnicodeDecodeError
  | TypeError msg
  | ValueError msg
  | KeyError pyval
  | IndexError
  | RuntimeError msg
  | SerialConsoleError msg
  | SerialConsoleCancelled msg
  | SourceClientError msg
  | SourceClientCancelled msg
  | ReceiverError msg
  | MatrixError msg
  | ArtifactError msg
  | BadZipFile msg
  | QualificationError msg
  | EvidenceError msg
  | HilSessionError msg
  | HilDiscoveryError msg
  | RunnerCancelled msg
  | HilRunnerError string msg
  | OtherException msg

abbreviation text_msg :: "string \<Rightarrow> msg" where
  "text_msg s \<equiv> Fmt s []"

abbreviation str_msg :: "string \<Rightarrow> string \<Rightarrow> msg" where
  "str_msg s a \<equiv> Fmt s [AV (PStr a)]"

abbreviation val_msg :: "string \<Rightarrow> pyval \<Rightarrow> msg" where
  "val_msg s v \<equiv> Fmt s [AV v]"

abbreviation exn_msg :: "string \<Rightarrow> exn \<Rightarrow> msg" where
  "exn_msg s e \<equiv> Fmt s [AX e]"

text \<open>\<open>isinstance (e, Exception)\<close>: everything but \<open>KeyboardInterrupt\<close> and groups of it.\<close>

fun is_Exception :: "exn \<Rightarrow> bool" where
  "is_Exception KeyboardInterrupt = False"
| "is_Exception (BaseExceptionGroup _ _) = False"
| "is_Exception _ = True"

fun is_OSError :: "exn \<Rightarrow> bool" where
  "is_OSError (OSError _) = True"
| "is_OSError _ = False"

section \<open>Results\<close>

text \<open>A computation that may raise returns \<^term>\<open>Inl e\<close> for the exception \<open>e\<close>.\<close>

type_synonym 'a result = "exn + 'a"

fun rbind :: "'e + 'a \<Rightarrow> ('a \<Rightarrow> 'e + 'b) \<Rightarrow> 'e + 'b" where
  "rbind (Inl e) f = Inl e"
| "rbind (Inr x) f = f x"

definition require :: "bool \<Rightarrow> 'e \<Rightarrow> 'e + unit" where
  "require c e = (if c then Inr () else Inl e)"

text \<open>A \<open>for\<close> loop whose body only checks, and one that collects a value per element.\<close>

fun rall :: "('a \<Rightarrow> 'e + unit) \<Rightarrow> 'a list \<Rightarrow> 'e + unit" where
  "rall f [] = Inr ()"
| "rall f (x # xs) = rbind (f x) (\<lambda>_. rall f xs)"

fun rmap :: "('a \<Rightarrow> 'e + 'b) \<Rightarrow> 'a list \<Rightarrow> 'e + 'b list" where
  "rmap f [] = Inr []"
| "rmap f (x # xs) = rbind (f x) (\<lambda>y. rbind (rmap f xs) (\<lambda>ys. Inr (y # ys)))"

text \<open>A \<open>for\<close> loop that threads a state and may raise.\<close>

fun rfold :: "('s \<Rightarrow> 'a \<Rightarrow> 'e + 's) \<Rightarrow> 's \<Rightarrow> 'a list \<Rightarrow> 'e + 's" where
  "rfold f s [] = Inr s"
| "rfold f s (x # xs) = rbind (f s x) (\<lambda>s'. rfold f s' xs)"

lemma rbind_eq_Inr [simp, result_simps]:
  "rbind m f = Inr y \<longleftrightarrow> (\<exists>x. m = Inr x \<and> f x = Inr y)"
  by (cases m) auto

lemma rbind_eq_Inl [simp]:
  "rbind m f = Inl e \<longleftrightarrow> m = Inl e \<or> (\<exists>x. m = Inr x \<and> f x = Inl e)"
  by (cases m) auto

lemma require_eq_Inr [simp, result_simps]: "require c e = Inr u \<longleftrightarrow> c"
  by (simp add: require_def)

lemma require_eq_Inl [simp]: "require c e = Inl e' \<longleftrightarrow> \<not> c \<and> e' = e"
  by (auto simp: require_def)

lemma require_True [simp]: "require True e = Inr ()"
  by (simp add: require_def)

lemma require_False [simp]: "require False e = Inl e"
  by (simp add: require_def)

lemma rall_eq_Inr [simp, result_simps]:
  "rall f xs = Inr u \<longleftrightarrow> (\<forall>x \<in> set xs. f x = Inr ())"
  by (induction xs) auto

lemma rmap_eq_Inr: "rmap f xs = Inr ys \<longleftrightarrow> list_all2 (\<lambda>x y. f x = Inr y) xs ys"
  by (induction xs arbitrary: ys) (auto simp: list_all2_Cons1)

lemma rfold_append:
  "rfold f s (xs @ ys) = rbind (rfold f s xs) (\<lambda>s'. rfold f s' ys)"
proof (induction xs arbitrary: s)
  case Nil
  then show ?case by simp
next
  case (Cons x xs)
  then show ?case by (cases "f s x") auto
qed

text \<open>An invariant kept by every step of a loop is kept by the loop.\<close>

lemma rfold_invariant:
  assumes "P s" and "rfold f s xs = Inr t"
    and "\<And>u x v. x \<in> set xs \<Longrightarrow> P u \<Longrightarrow> f u x = Inr v \<Longrightarrow> P v"
  shows "P t"
  using assms
proof (induction xs arbitrary: s)
  case Nil
  then show ?case by simp
next
  case (Cons x xs)
  then obtain v where v: "f s x = Inr v" "rfold f v xs = Inr t" by auto
  with Cons.prems have "P v" by auto
  with v Cons show ?case by auto
qed

text \<open>\<open>raises P m\<close>: every exception that \<open>m\<close> can raise satisfies \<open>P\<close>.\<close>

definition raises :: "('e \<Rightarrow> bool) \<Rightarrow> 'e + 'a \<Rightarrow> bool" where
  "raises P m \<longleftrightarrow> (\<forall>e. m = Inl e \<longrightarrow> P e)"

lemma raisesD: "raises P m \<Longrightarrow> m = Inl e \<Longrightarrow> P e"
  by (simp add: raises_def)

lemma raises_Inr [raises_intros]: "raises P (Inr x)"
  by (simp add: raises_def)

lemma raises_Inl [raises_intros]: "P e \<Longrightarrow> raises P (Inl e)"
  by (simp add: raises_def)

lemma raises_require [raises_intros]: "(\<not> c \<Longrightarrow> P e) \<Longrightarrow> raises P (require c e)"
  by (simp add: raises_def)

lemma raises_rbind [raises_intros]:
  "raises P m \<Longrightarrow> (\<And>x. m = Inr x \<Longrightarrow> raises P (f x)) \<Longrightarrow> raises P (rbind m f)"
  by (cases m) (auto simp: raises_def)

lemma raises_rall [raises_intros]: "(\<And>x. x \<in> set xs \<Longrightarrow> raises P (f x)) \<Longrightarrow> raises P (rall f xs)"
proof (induction xs)
  case (Cons x xs)
  then show ?case by (auto intro!: raises_rbind)
qed (simp add: raises_Inr)

lemma raises_rmap [raises_intros]: "(\<And>x. x \<in> set xs \<Longrightarrow> raises P (f x)) \<Longrightarrow> raises P (rmap f xs)"
proof (induction xs)
  case (Cons x xs)
  then show ?case by (auto intro!: raises_rbind raises_Inr)
qed (simp add: raises_Inr)

lemma raises_if [raises_intros]: "(c \<Longrightarrow> raises P a) \<Longrightarrow> (\<not> c \<Longrightarrow> raises P b) \<Longrightarrow> raises P (if c then a else b)"
  by simp

lemma raises_pyval [raises_intros]:
  "(v = PNone \<Longrightarrow> raises P a) \<Longrightarrow> (\<And>x. v = PBool x \<Longrightarrow> raises P (b x)) \<Longrightarrow> (\<And>x. v = PInt x \<Longrightarrow> raises P (c x)) \<Longrightarrow>
   (\<And>x. v = PFloat x \<Longrightarrow> raises P (d x)) \<Longrightarrow> (\<And>x. v = PStr x \<Longrightarrow> raises P (e x)) \<Longrightarrow>
   (\<And>x. v = PList x \<Longrightarrow> raises P (f x)) \<Longrightarrow> (\<And>x. v = PDict x \<Longrightarrow> raises P (g x)) \<Longrightarrow>
   raises P (case v of PNone \<Rightarrow> a | PBool x \<Rightarrow> b x | PInt x \<Rightarrow> c x | PFloat x \<Rightarrow> d x | PStr x \<Rightarrow> e x
     | PList x \<Rightarrow> f x | PDict x \<Rightarrow> g x)"
  by (cases v) auto

lemma raises_option [raises_intros]:
  "(v = None \<Longrightarrow> raises P a) \<Longrightarrow> (\<And>x. v = Some x \<Longrightarrow> raises P (b x)) \<Longrightarrow>
   raises P (case v of None \<Rightarrow> a | Some x \<Rightarrow> b x)"
  by (cases v) auto

end
