(* ===== verification/Py_Text.thy ===== *)
theory Py_Text
  imports Prelude
begin

text \<open>
  The part of Python's \<open>str\<close> and \<open>bytes\<close> interface the scripts use: strict UTF-8 decoding,
  \<open>startswith\<close>, \<open>endswith\<close>, the \<open>in\<close> operator, \<open>strip\<close>, \<open>splitlines (keepends=True)\<close>, decimal
  and hexadecimal numerals.  Text is kept as its UTF-8 bytes, so the characters beyond ASCII
  that these functions treat specially appear as byte sequences.
\<close>

section \<open>Prefixes, suffixes and substrings\<close>

definition startswith :: "string \<Rightarrow> string \<Rightarrow> bool" where
  "startswith s p \<longleftrightarrow> take (length p) s = p"

definition endswith :: "string \<Rightarrow> string \<Rightarrow> bool" where
  "endswith s p \<longleftrightarrow> length p \<le> length s \<and> drop (length s - length p) s = p"

text \<open>\<open>needle in s\<close>\<close>

fun contains :: "string \<Rightarrow> string \<Rightarrow> bool" where
  "contains [] p \<longleftrightarrow> p = []"
| "contains (c # s) p \<longleftrightarrow> startswith (c # s) p \<or> contains s p"

lemma startswith_iff: "startswith s p \<longleftrightarrow> (\<exists>r. s = p @ r)"
  unfolding startswith_def by (metis append_eq_conv_conj append_take_drop_id)

lemma startswith_append [simp]: "startswith (p @ r) p"
  by (simp add: startswith_def)

lemma endswith_iff: "endswith s p \<longleftrightarrow> (\<exists>r. s = r @ p)"
proof
  assume "endswith s p"
  then show "\<exists>r. s = r @ p"
    unfolding endswith_def by (metis append_take_drop_id)
qed (auto simp: endswith_def)

lemma contains_iff: "contains s p \<longleftrightarrow> (\<exists>a b. s = a @ p @ b)"
proof (induction s)
  case Nil
  show ?case by auto
next
  case (Cons c s)
  have "(\<exists>a b. c # s = a @ p @ b) \<longleftrightarrow> startswith (c # s) p \<or> (\<exists>a b. s = a @ p @ b)"
    by (auto simp: startswith_iff Cons_eq_append_conv)
  with Cons.IH show ?case by simp
qed

section \<open>UTF-8\<close>

definition cont_byte :: "char \<Rightarrow> bool" where
  "cont_byte c \<longleftrightarrow> 128 \<le> (of_char c :: nat) \<and> (of_char c :: nat) < 192"

definition byte_in :: "nat \<Rightarrow> nat \<Rightarrow> char \<Rightarrow> bool" where
  "byte_in lo hi c \<longleftrightarrow> lo \<le> of_char c \<and> of_char c \<le> hi"

text \<open>\<open>utf8_width s\<close>: the number of bytes of the well-formed UTF-8 sequence that \<open>s\<close> starts
  with, 0 if there is none (overlong forms, surrogates and values past U+10FFFF excluded).\<close>

definition utf8_width :: "string \<Rightarrow> nat" where
  "utf8_width s =
     (case s of
        [] \<Rightarrow> 0
      | a # r1 \<Rightarrow>
        if of_char a < (128 :: nat) then 1
        else (case r1 of
            [] \<Rightarrow> 0
          | b # r2 \<Rightarrow>
            if byte_in 194 223 a \<and> cont_byte b then 2
            else (case r2 of
                [] \<Rightarrow> 0
              | c # r3 \<Rightarrow>
                if cont_byte c \<and>
                   (of_char a = (224 :: nat) \<and> byte_in 160 191 b \<or>
                    (byte_in 225 236 a \<or> byte_in 238 239 a) \<and> cont_byte b \<or>
                    of_char a = (237 :: nat) \<and> byte_in 128 159 b) then 3
                else (case r3 of
                    [] \<Rightarrow> 0
                  | d # _ \<Rightarrow>
                    if cont_byte c \<and> cont_byte d \<and>
                       (of_char a = (240 :: nat) \<and> byte_in 144 191 b \<or>
                        byte_in 241 243 a \<and> cont_byte b \<or>
                        of_char a = (244 :: nat) \<and> byte_in 128 143 b) then 4
                    else 0))))"

lemma utf8_width_le: "utf8_width s \<le> length s"
  by (auto simp: utf8_width_def split: list.splits)

function utf8_valid :: "string \<Rightarrow> bool" where
  "utf8_valid s =
     (if s = [] then True
      else if utf8_width s = 0 then False
      else utf8_valid (drop (utf8_width s) s))"
  by pat_completeness auto
termination
  by (relation "measure length") (auto simp: diff_less)

declare utf8_valid.simps [simp del]

definition is_ascii :: "string \<Rightarrow> bool" where
  "is_ascii s \<longleftrightarrow> (\<forall>c \<in> set s. of_char c < (128 :: nat))"

lemma utf8_valid_Nil [simp]: "utf8_valid []"
  by (simp add: utf8_valid.simps)

lemma utf8_valid_ascii_Cons [simp]:
  "of_char c < (128 :: nat) \<Longrightarrow> utf8_valid (c # s) = utf8_valid s"
  by (subst utf8_valid.simps) (simp add: utf8_width_def)

lemma utf8_valid_ascii: "is_ascii s \<Longrightarrow> utf8_valid s"
  by (induction s) (auto simp: is_ascii_def)

text \<open>The bytes of one code point; lone surrogates take three bytes.\<close>

definition utf8_encode :: "nat \<Rightarrow> string" where
  "utf8_encode n =
     (if n < 128 then [char_of n]
      else if n < 2048 then [char_of (192 + n div 64), char_of (128 + n mod 64)]
      else if n < 65536 then
        [char_of (224 + n div 4096), char_of (128 + n div 64 mod 64), char_of (128 + n mod 64)]
      else
        [char_of (240 + n div 262144), char_of (128 + n div 4096 mod 64),
         char_of (128 + n div 64 mod 64), char_of (128 + n mod 64)])"

text \<open>The code points of a text, read by the length its lead bytes announce.\<close>

fun utf8_points :: "string \<Rightarrow> nat list" where
  "utf8_points [] = []"
| "utf8_points (a # s) =
     (let n = of_char a; k = (\<lambda>c. of_char c mod (64 :: nat)) in
      if n < 192 then n # utf8_points s
      else (case s of
          b # s1 \<Rightarrow>
            if n < 224 then (n mod 32 * 64 + k b) # utf8_points s1
            else (case s1 of
                c # s2 \<Rightarrow>
                  if n < 240 then (n mod 16 * 4096 + k b * 64 + k c) # utf8_points s2
                  else (case s2 of
                      d # s3 \<Rightarrow>
                        (n mod 8 * 262144 + k b * 4096 + k c * 64 + k d) # utf8_points s3
                    | [] \<Rightarrow> [])
              | [] \<Rightarrow> [])
        | [] \<Rightarrow> []))"

lemma utf8_points_ascii: "is_ascii s \<Longrightarrow> utf8_points s = map of_char s"
  by (induction s) (auto simp: is_ascii_def)

section \<open>White space and lines\<close>

text \<open>Some characters take several bytes.  \<open>match_width qs s\<close> is the length of the first
  byte sequence of \<open>qs\<close> that \<open>s\<close> starts with, 0 if there is none.\<close>

definition match_width :: "nat list list \<Rightarrow> string \<Rightarrow> nat" where
  "match_width qs s =
     (case find (\<lambda>q. map of_char (take (length q) s) = q) qs of None \<Rightarrow> 0 | Some q \<Rightarrow> length q)"

lemma match_width_le: "match_width qs s \<le> length s"
proof (cases "find (\<lambda>q. map of_char (take (length q) s) = q) qs")
  case (Some q)
  then have "map of_char (take (length q) s) = q"
    by (auto simp: find_Some_iff)
  then have "length (take (length q) s) = length q"
    by (metis length_map)
  with Some show ?thesis by (simp add: match_width_def)
qed (simp add: match_width_def)

text \<open>The characters \<open>str.isspace\<close> accepts, and the line boundaries of \<open>str.splitlines\<close>
  (\<open>\r\n\<close> is one boundary).\<close>

definition space_seqs :: "nat list list" where
  "space_seqs =
     [[9], [10], [11], [12], [13], [28], [29], [30], [31], [32],
      [194, 133], [194, 160], [225, 154, 128],
      [226, 128, 128], [226, 128, 129], [226, 128, 130], [226, 128, 131], [226, 128, 132],
      [226, 128, 133], [226, 128, 134], [226, 128, 135], [226, 128, 136], [226, 128, 137],
      [226, 128, 138], [226, 128, 168], [226, 128, 169], [226, 128, 175], [226, 129, 159],
      [227, 128, 128]]"

definition eol_seqs :: "nat list list" where
  "eol_seqs =
     [[13, 10], [13], [10], [11], [12], [28], [29], [30], [194, 133], [226, 128, 168],
      [226, 128, 169]]"

definition ws_width :: "string \<Rightarrow> nat" where
  "ws_width s = match_width space_seqs s"

lemma ws_width_le: "ws_width s \<le> length s"
  by (simp add: ws_width_def match_width_le)

function lstrip :: "string \<Rightarrow> string" where
  "lstrip s = (if ws_width s = 0 then s else lstrip (drop (ws_width s) s))"
  by pat_completeness auto
termination
proof (relation "measure length", goal_cases)
  case 1
  show ?case by simp
next
  case (2 s)
  then show ?case using ws_width_le [of s] by simp
qed

declare lstrip.simps [simp del]

text \<open>The same from the right: the last one, two or three bytes of the text.\<close>

function rstrip :: "string \<Rightarrow> string" where
  "rstrip s =
     (let n = length s in
      if 1 \<le> n \<and> ws_width (drop (n - 1) s) = 1 then rstrip (take (n - 1) s)
      else if 2 \<le> n \<and> ws_width (drop (n - 2) s) = 2 then rstrip (take (n - 2) s)
      else if 3 \<le> n \<and> ws_width (drop (n - 3) s) = 3 then rstrip (take (n - 3) s)
      else s)"
  by pat_completeness auto
termination
  by (relation "measure length") auto

declare rstrip.simps [simp del]

definition strip :: "string \<Rightarrow> string" where
  "strip s = rstrip (lstrip s)"

text \<open>A text that begins and ends with a printable ASCII character has nothing to strip.\<close>

definition visible :: "char \<Rightarrow> bool" where
  "visible c \<longleftrightarrow> of_char c \<in> {33 .. 126 :: nat}"

lemma match_width_pos:
  assumes "match_width qs s = n" and "n \<noteq> 0"
  shows "\<exists>q \<in> set qs. map of_char (take n s) = q \<and> length q = n"
proof -
  from assms obtain q where "find (\<lambda>q. map of_char (take (length q) s) = q) qs = Some q" "length q = n"
    by (auto simp: match_width_def split: option.splits)
  then show ?thesis by (intro bexI [of _ q]) (auto simp: find_Some_iff)
qed

lemma ws_width_hd:
  assumes "s \<noteq> []" and "visible (hd s)"
  shows "ws_width s = 0"
proof (rule ccontr)
  assume "ws_width s \<noteq> 0"
  then obtain q where q: "q \<in> set space_seqs" "map of_char (take (ws_width s) s) = q"
    "length q = ws_width s"
    using match_width_pos [of space_seqs s] by (auto simp: ws_width_def)
  from q(1) have "hd q \<notin> {33 .. 126}" "q \<noteq> []" by (auto simp: space_seqs_def)
  moreover from q(2) \<open>q \<noteq> []\<close> have "hd q = of_char (hd s)"
    using assms(1) by (cases s; cases "ws_width s") auto
  ultimately show False using assms(2) by (simp add: visible_def)
qed

lemma ws_width_last:
  assumes "ws_width t = length t" and "t \<noteq> []"
  shows "\<not> visible (last t)"
proof -
  from assms obtain q where q: "q \<in> set space_seqs" "map of_char t = q"
    using match_width_pos [of space_seqs t "length t"] by (auto simp: ws_width_def)
  from q(1) have "last q \<notin> {33 .. 126}" by (auto simp: space_seqs_def)
  moreover from q(2) assms(2) have "last q = of_char (last t)" by (auto simp: last_map)
  ultimately show ?thesis by (simp add: visible_def)
qed

lemma strip_visible:
  assumes "s \<noteq> []" and "visible (hd s)" and "visible (last s)"
  shows "strip s = s"
proof -
  have no: "ws_width (drop (length s - k) s) \<noteq> k" if "1 \<le> k" "k \<le> length s" for k
  proof -
    have "drop (length s - k) s \<noteq> []" and "length (drop (length s - k) s) = k" using that assms(1) by auto
    with ws_width_last [of "drop (length s - k) s"] assms(3) show ?thesis by (auto simp: last_drop)
  qed
  have "lstrip s = s" using ws_width_hd [OF assms(1,2)] by (simp add: lstrip.simps)
  moreover have "rstrip s = s"
    using no [of 1] no [of 2] no [of 3] by (subst rstrip.simps) (auto simp: Let_def)
  ultimately show ?thesis by (simp add: strip_def)
qed

definition eol_width :: "string \<Rightarrow> nat" where
  "eol_width s = match_width eol_seqs s"

lemma eol_width_le: "eol_width s \<le> length s"
  by (simp add: eol_width_def match_width_le)

lemma eol_width_Nil [simp]: "eol_width [] = 0"
  using eol_width_le [of "[]"] by simp

text \<open>The first line of a text, its line boundary and what follows.\<close>

fun split_line :: "string \<Rightarrow> string \<times> string \<times> string" where
  "split_line [] = ([], [], [])"
| "split_line (c # s) =
     (let n = eol_width (c # s) in
      if n = 0 then (case split_line s of (l, e, r) \<Rightarrow> (c # l, e, r))
      else ([], take n (c # s), drop n (c # s)))"

lemma split_line_concat: "split_line s = (l, e, r) \<Longrightarrow> s = l @ e @ r"
  by (induction s arbitrary: l e r) (auto simp: Let_def split: if_splits prod.splits)

lemma split_line_shorter:
  assumes "s \<noteq> []" and "split_line s = (l, e, r)"
  shows "length r < length s"
proof -
  have "l @ e \<noteq> []"
  proof (cases s)
    case (Cons c t)
    then show ?thesis
      using assms(2) by (auto simp: Let_def split: if_splits prod.splits)
  qed (use assms in simp)
  with split_line_concat [OF assms(2)] show ?thesis by (cases l; cases e) auto
qed

text \<open>\<open>s.splitlines (keepends=True)\<close>, each line as its text and its boundary.\<close>

function line_pairs :: "string \<Rightarrow> (string \<times> string) list" where
  "line_pairs s =
     (if s = [] then []
      else (case split_line s of (l, e, r) \<Rightarrow> (l, e) # line_pairs r))"
  by pat_completeness auto
termination
  by (relation "measure length") (auto dest: split_line_shorter [OF _ sym])

declare line_pairs.simps [simp del]

definition splitlines :: "string \<Rightarrow> string list" where
  "splitlines s = map fst (line_pairs s)"

lemma line_pairs_concat: "concat (map (\<lambda>(l, e). l @ e) (line_pairs s)) = s"
proof (induction s rule: line_pairs.induct)
  case (1 s)
  show ?case
  proof (cases "s = []")
    case False
    obtain l e r where sl: "split_line s = (l, e, r)" by (cases "split_line s")
    with False "1.IH" [OF False sl [symmetric]] show ?thesis
      by (subst line_pairs.simps) (simp add: split_line_concat [OF sl])
  qed (simp add: line_pairs.simps)
qed

section \<open>Numerals\<close>

definition is_digit :: "char \<Rightarrow> bool" where
  "is_digit c \<longleftrightarrow> byte_in 48 57 c"

definition digit_value :: "char \<Rightarrow> nat" where
  "digit_value c = of_char c - 48"

definition digit_char :: "nat \<Rightarrow> char" where
  "digit_char n = char_of (48 + n)"

text \<open>\<open>int (digits)\<close> for a string of decimal digits, and \<open>str (n)\<close>.\<close>

definition nat_of_dec :: "string \<Rightarrow> nat" where
  "nat_of_dec s = foldl (\<lambda>n c. n * 10 + digit_value c) 0 s"

fun dec_of_nat :: "nat \<Rightarrow> string" where
  "dec_of_nat n = (if n < 10 then [digit_char n] else dec_of_nat (n div 10) @ [digit_char (n mod 10)])"

declare dec_of_nat.simps [simp del]

definition dec_of_int :: "int \<Rightarrow> string" where
  "dec_of_int i = (if i < 0 then CHR ''-'' # dec_of_nat (nat (- i)) else dec_of_nat (nat i))"

lemma digit_char_props [simp]:
  assumes "n < 10"
  shows "is_digit (digit_char n)" and "digit_value (digit_char n) = n"
    and "of_char (digit_char n) = (48 + n)"
  using assms by (auto simp: is_digit_def byte_in_def digit_value_def digit_char_def)

lemma dec_of_nat_digits: "\<forall>c \<in> set (dec_of_nat n). is_digit c"
proof (induction n rule: dec_of_nat.induct)
  case (1 n)
  show ?case
    by (subst dec_of_nat.simps) (use 1 in auto)
qed

lemma dec_of_nat_not_Nil [simp]: "dec_of_nat n \<noteq> []"
  by (subst dec_of_nat.simps) simp

lemma nat_of_dec_snoc: "nat_of_dec (s @ [c]) = nat_of_dec s * 10 + digit_value c"
  by (simp add: nat_of_dec_def)

lemma nat_of_dec_of_nat [simp]: "nat_of_dec (dec_of_nat n) = n"
proof (induction n rule: dec_of_nat.induct)
  case (1 n)
  show ?case
  proof (cases "n < 10")
    case True
    then show ?thesis by (subst dec_of_nat.simps) (simp add: nat_of_dec_def)
  next
    case False
    with 1 show ?thesis by (subst dec_of_nat.simps) (simp add: nat_of_dec_snoc)
  qed
qed

lemma dec_of_nat_hd_zero: "hd (dec_of_nat n) = CHR ''0'' \<longleftrightarrow> n = 0"
proof (induction n rule: dec_of_nat.induct)
  case (1 n)
  show ?case
  proof (cases "n < 10")
    case True
    have "digit_char n = CHR ''0'' \<longleftrightarrow> of_char (digit_char n) = (of_char CHR ''0'' :: nat)"
      by (simp only: of_char_eq_iff)
    also have "\<dots> \<longleftrightarrow> n = 0"
      using True by simp
    finally have "digit_char n = CHR ''0'' \<longleftrightarrow> n = 0" .
    with True show ?thesis by (subst dec_of_nat.simps) simp
  next
    case False
    with 1 show ?thesis by (subst dec_of_nat.simps) simp
  qed
qed

lemma digit_char_0 [simp]: "digit_char 0 = CHR ''0''"
  using dec_of_nat_hd_zero [of 0] by (simp add: dec_of_nat.simps)

section \<open>Digests\<close>

text \<open>What \<open>hashlib\<close> documents of \<open>sha256 (x).hexdigest ()\<close>: 64 lower-case hexadecimal digits.\<close>

definition hex_digit :: "char \<Rightarrow> bool" where
  "hex_digit c \<longleftrightarrow> byte_in 48 57 c \<or> byte_in 97 102 c"

definition hexdigest :: "(string \<Rightarrow> string) \<Rightarrow> bool" where
  "hexdigest digest \<longleftrightarrow> (\<forall>x. length (digest x) = 64 \<and> list_all hex_digit (digest x))"

end
