(* ===== verification/Py_Json.thy ===== *)
theory Py_Json
  imports Py_Text
begin

text \<open>
  Python's \<open>json.loads\<close> (the strict scanner, with an \<open>object_pairs_hook\<close>) and \<open>json.dumps\<close>
  (\<open>ensure_ascii=True\<close>).  The scanner spends one unit of fuel per value, array element and
  object member; \<open>json_loads\<close> gives it more than twice the number of bytes of the text, and
  \<open>json_fuel_enough\<close> shows that more fuel never changes the result.  Nesting so deep that the
  interpreter's recursion limit is hit is not modelled.
\<close>

section \<open>Scanning strings and numbers\<close>

abbreviation quote_char :: char where
  "quote_char \<equiv> CHR 0x22"

abbreviation backslash :: char where
  "backslash \<equiv> CHR 0x5C"

definition hex_value :: "char \<Rightarrow> nat option" where
  "hex_value c =
     (if byte_in 48 57 c then Some (of_char c - 48)
      else if byte_in 65 70 c then Some (of_char c - 55)
      else if byte_in 97 102 c then Some (of_char c - 87)
      else None)"

fun hex4 :: "string \<Rightarrow> nat option" where
  "hex4 (a # b # c # d # _) =
     (case (hex_value a, hex_value b, hex_value c, hex_value d) of
        (Some i, Some j, Some k, Some l) \<Rightarrow> Some (i * 4096 + j * 256 + k * 16 + l)
      | _ \<Rightarrow> None)"
| "hex4 _ = None"

definition simple_escape :: "char \<Rightarrow> char option" where
  "simple_escape e =
     map_of [(quote_char, quote_char), (backslash, backslash), (CHR ''/'', CHR ''/''),
             (CHR ''b'', CHR 0x08), (CHR ''f'', CHR 0x0C), (CHR ''n'', CHR 0x0A),
             (CHR ''r'', CHR 0x0D), (CHR ''t'', CHR 0x09)] e"

definition prepend :: "string \<Rightarrow> (string \<times> string) option \<Rightarrow> (string \<times> string) option" where
  "prepend p m = map_option (\<lambda>(t, r). (p @ t, r)) m"

text \<open>\<open>scan_str s\<close>: the string literal whose text starts right after the opening quote, with
  the rest of the input after the closing quote; \<open>None\<close> is a decoding error.\<close>

function scan_str :: "string \<Rightarrow> (string \<times> string) option" where
  "scan_str s =
     (case s of
        [] \<Rightarrow> None
      | c # r \<Rightarrow>
        if c = quote_char then Some ([], r)
        else if c = backslash then
          (case r of
             [] \<Rightarrow> None
           | e # r1 \<Rightarrow>
             if e = CHR ''u'' then
               (case hex4 r1 of
                  None \<Rightarrow> None
                | Some u \<Rightarrow>
                  (let r2 = drop 4 r1 in
                   if 55296 \<le> u \<and> u < 56320 \<and> take 2 r2 = [backslash, CHR ''u''] then
                     (case hex4 (drop 2 r2) of
                        None \<Rightarrow> None
                      | Some v \<Rightarrow>
                        if 56320 \<le> v \<and> v < 57344
                        then prepend (utf8_encode (65536 + (u - 55296) * 1024 + (v - 56320)))
                               (scan_str (drop 6 r2))
                        else prepend (utf8_encode u) (scan_str r2))
                   else prepend (utf8_encode u) (scan_str r2)))
             else
               (case simple_escape e of
                  None \<Rightarrow> None
                | Some x \<Rightarrow> prepend [x] (scan_str r1)))
        else if of_char c < (32 :: nat) then None
        else prepend [c] (scan_str r))"
  by pat_completeness auto
termination
  by (relation "measure length") auto

declare scan_str.simps [simp del]

lemma scan_str_shorter: "scan_str s = Some (t, r) \<Longrightarrow> length r < length s"
proof (induction "length s" arbitrary: s t r rule: less_induct)
  case less
  have step: "length s' < length s \<longrightarrow> length r < length s'"
    if "prepend p (scan_str s') = Some (t, r)" for p s'
  proof -
    from that obtain t' where "scan_str s' = Some (t', r)"
      by (auto simp: prepend_def)
    with less(1) show ?thesis by blast
  qed
  show ?case
  proof (cases s)
    case Nil
    with less(2) show ?thesis by (simp add: scan_str.simps)
  next
    case (Cons c u)
    note eq = less(2) [unfolded Cons, unfolded scan_str.simps [of "c # u"] list.case]
    consider "c = quote_char" | "c = backslash" | "c \<noteq> quote_char" "c \<noteq> backslash" by blast
    then show ?thesis
    proof cases
      case 1
      with eq Cons show ?thesis by simp
    next
      case 2
      with eq Cons show ?thesis
        by (auto simp: Let_def split: list.splits if_splits option.splits dest!: step)
    next
      case 3
      with eq Cons show ?thesis
        by (auto split: if_splits dest!: step)
    qed
  qed
qed

fun take_digits :: "string \<Rightarrow> string \<times> string" where
  "take_digits [] = ([], [])"
| "take_digits (c # s) =
     (if is_digit c then (case take_digits s of (d, r) \<Rightarrow> (c # d, r)) else ([], c # s))"

lemma take_digits_concat: "take_digits s = (d, r) \<Longrightarrow> s = d @ r"
  by (induction s arbitrary: d r) (auto split: if_splits prod.splits)

text \<open>The integer part \<open>-?(0|[1-9]\d*)\<close>, and the optional fraction and exponent.\<close>

definition scan_int :: "string \<Rightarrow> (string \<times> string) option" where
  "scan_int s =
     (case s of
        [] \<Rightarrow> None
      | c # r \<Rightarrow>
        if c = CHR ''0'' then Some ([c], r)
        else if is_digit c then Some (take_digits s)
        else None)"

definition scan_frac :: "string \<Rightarrow> string \<times> string" where
  "scan_frac s =
     (case s of
        c # r \<Rightarrow>
          if c = CHR ''.'' then
            (case take_digits r of (d, r') \<Rightarrow> if d = [] then ([], s) else (d, r'))
          else ([], s)
      | [] \<Rightarrow> ([], s))"

text \<open>The exponent as its sign (\<open>True\<close> for minus) and digits.\<close>

definition scan_exp :: "string \<Rightarrow> (bool \<times> string) option \<times> string" where
  "scan_exp s =
     (case s of
        c # r \<Rightarrow>
          if c = CHR ''e'' \<or> c = CHR ''E'' then
            (let neg = (case r of x # _ \<Rightarrow> x = CHR ''-'' | [] \<Rightarrow> False);
                 r1 = (case r of x # t \<Rightarrow> if x = CHR ''-'' \<or> x = CHR ''+'' then t else r | [] \<Rightarrow> r)
             in case take_digits r1 of (d, r') \<Rightarrow> if d = [] then (None, s) else (Some (neg, d), r'))
          else (None, s)
      | [] \<Rightarrow> (None, s))"

section \<open>Decimal to binary64\<close>

fun bit_length :: "nat \<Rightarrow> nat" where
  "bit_length n = (if n = 0 then 0 else Suc (bit_length (n div 2)))"

declare bit_length.simps [simp del]

text \<open>Round half to even of the quotient of two naturals.\<close>

definition round_half_even :: "nat \<Rightarrow> nat \<Rightarrow> nat" where
  "round_half_even n d =
     (let q = n div d; r = n mod d in
      if 2 * r < d then q else if d < 2 * r then Suc q else if even q then q else Suc q)"

text \<open>The double nearest to \<open>n / d\<close>: a 53-bit significand, exponent at least \<open>-1074\<close>.\<close>

definition double_of_frac :: "bool \<Rightarrow> nat \<Rightarrow> nat \<Rightarrow> pyfloat" where
  "double_of_frac neg n d =
     (let k = int (bit_length n) - int (bit_length d);
          scaled = (\<lambda>e :: int. if 0 \<le> e then (n, d * 2 ^ nat e) else (n * 2 ^ nat (- e), d));
          e0 = k - 53;
          e1 = (case scaled e0 of (a, b) \<Rightarrow> if a < b * 2 ^ 53 then e0 else e0 + 1);
          e = max e1 (- 1074);
          m = (case scaled e of (a, b) \<Rightarrow> round_half_even a b);
          q = (of_nat m :: rat) * (if 0 \<le> e then 2 ^ nat e else 1 / 2 ^ nat (- e))
      in if 2 ^ 1024 \<le> q then Inf (\<not> neg) else Fin (if neg then - q else q))"

definition float_of_literal :: "bool \<Rightarrow> string \<Rightarrow> string \<Rightarrow> (bool \<times> string) option \<Rightarrow> pyfloat" where
  "float_of_literal neg i f x =
     (let n = nat_of_dec (i @ f);
          (up, down) = (case x of
             None \<Rightarrow> (0, length f)
           | Some (s, d) \<Rightarrow> if s then (0, length f + nat_of_dec d) else (nat_of_dec d, length f))
      in double_of_frac neg (n * 10 ^ up) (10 ^ down))"

text \<open>\<open>int (text)\<close> refuses more than 4300 digits with a \<open>ValueError\<close>.\<close>

definition max_int_digits :: nat where
  "max_int_digits = 4300"

definition scan_number :: "string \<Rightarrow> ((pyval \<times> string) result) option" where
  "scan_number s =
     (let neg = (case s of c # _ \<Rightarrow> c = CHR ''-'' | [] \<Rightarrow> False);
          body = (if neg then tl s else s)
      in case scan_int body of
           None \<Rightarrow> None
         | Some (i, r) \<Rightarrow>
           (case scan_frac r of (f, r1) \<Rightarrow>
            (case scan_exp r1 of (x, r2) \<Rightarrow>
              if f = [] \<and> x = None then
                (if max_int_digits < length i
                 then Some (Inl (ValueError (text_msg ''Exceeds the limit for integer string conversion'')))
                 else Some (Inr (PInt (if neg then - int (nat_of_dec i) else int (nat_of_dec i)), r2)))
              else Some (Inr (PFloat (float_of_literal neg i f x), r2)))))"

section \<open>The scanner\<close>

definition json_space :: "char \<Rightarrow> bool" where
  "json_space c \<longleftrightarrow> c = CHR '' '' \<or> c = CHR 0x09 \<or> c = CHR 0x0A \<or> c = CHR 0x0D"

definition skip_ws :: "string \<Rightarrow> string" where
  "skip_ws s = dropWhile json_space s"

definition json_literals :: "(string \<times> pyval) list" where
  "json_literals =
     [(''null'', PNone), (''true'', PBool True), (''false'', PBool False),
      (''NaN'', PFloat NaN), (''Infinity'', PFloat (Inf True)),
      (''-Infinity'', PFloat (Inf False))]"

fun isinstance_float :: "pyval \<Rightarrow> bool" where
  "isinstance_float (PFloat _) = True"
| "isinstance_float _ = False"

text \<open>With \<open>nf\<close> the constants that are no JSON are read; without it \<open>parse_constant\<close> refuses them.\<close>

definition scan_atom :: "bool \<Rightarrow> string \<Rightarrow> (pyval \<times> string) result" where
  "scan_atom nf s =
     (case scan_number s of
        Some m \<Rightarrow> m
      | None \<Rightarrow>
        (case find (\<lambda>(w, _). startswith s w) json_literals of
           Some (w, v) \<Rightarrow>
             if \<not> nf \<and> isinstance_float v then Inl (ValueError (str_msg ''non-finite JSON value %s'' w))
             else Inr (v, drop (length w) s)
         | None \<Rightarrow> Inl JSONDecodeError))"

fun json_val :: "bool \<Rightarrow> (pydict \<Rightarrow> pydict result) \<Rightarrow> nat \<Rightarrow> string \<Rightarrow> (pyval \<times> string) result"
and json_arr :: "bool \<Rightarrow> (pydict \<Rightarrow> pydict result) \<Rightarrow> nat \<Rightarrow> string \<Rightarrow> (pyval list \<times> string) result"
and json_obj :: "bool \<Rightarrow> (pydict \<Rightarrow> pydict result) \<Rightarrow> nat \<Rightarrow> string \<Rightarrow> (pydict \<times> string) result" where
  "json_val nf hook 0 s = Inl JSONDecodeError"
| "json_val nf hook (Suc n) s =
     (case s of
        [] \<Rightarrow> Inl JSONDecodeError
      | c # r \<Rightarrow>
        if c = quote_char then
          (case scan_str r of None \<Rightarrow> Inl JSONDecodeError | Some (t, r') \<Rightarrow> Inr (PStr t, r'))
        else if c = CHR ''{'' then
          (if take 1 (skip_ws r) = ''}''
           then rbind (hook []) (\<lambda>d. Inr (PDict d, tl (skip_ws r)))
           else rbind (json_obj nf hook n (skip_ws r))
                  (\<lambda>(ps, r'). rbind (hook ps) (\<lambda>d. Inr (PDict d, r'))))
        else if c = CHR ''['' then
          (if take 1 (skip_ws r) = '']'' then Inr (PList [], tl (skip_ws r))
           else rbind (json_arr nf hook n (skip_ws r)) (\<lambda>(vs, r'). Inr (PList vs, r')))
        else scan_atom nf s)"
| "json_arr nf hook 0 s = Inl JSONDecodeError"
| "json_arr nf hook (Suc n) s =
     rbind (json_val nf hook n s) (\<lambda>(v, r).
       (case skip_ws r of
          [] \<Rightarrow> Inl JSONDecodeError
        | c # r' \<Rightarrow>
          if c = CHR '','' then
            rbind (json_arr nf hook n (skip_ws r')) (\<lambda>(vs, r''). Inr (v # vs, r''))
          else if c = CHR '']'' then Inr ([v], r')
          else Inl JSONDecodeError))"
| "json_obj nf hook 0 s = Inl JSONDecodeError"
| "json_obj nf hook (Suc n) s =
     (if take 1 s \<noteq> [quote_char] then Inl JSONDecodeError
      else (case scan_str (tl s) of
          None \<Rightarrow> Inl JSONDecodeError
        | Some (k, r) \<Rightarrow>
          if take 1 (skip_ws r) \<noteq> '':'' then Inl JSONDecodeError
          else rbind (json_val nf hook n (skip_ws (tl (skip_ws r)))) (\<lambda>(v, r1).
            (case skip_ws r1 of
               [] \<Rightarrow> Inl JSONDecodeError
             | c # r2 \<Rightarrow>
               if c = CHR '','' then
                 rbind (json_obj nf hook n (skip_ws r2)) (\<lambda>(ps, r3). Inr ((k, v) # ps, r3))
               else if c = CHR ''}'' then Inr ([(k, v)], r2)
               else Inl JSONDecodeError))))"

lemmas json_steps = json_val.simps json_arr.simps json_obj.simps

declare json_steps [simp del]

definition json_loads_with :: "bool \<Rightarrow> (pydict \<Rightarrow> pydict result) \<Rightarrow> string \<Rightarrow> pyval result" where
  "json_loads_with nf hook s =
     rbind (json_val nf hook (Suc (2 * length s)) (skip_ws s)) (\<lambda>(v, r).
       if skip_ws r = [] then Inr v else Inl JSONDecodeError)"

abbreviation json_loads :: "(pydict \<Rightarrow> pydict result) \<Rightarrow> string \<Rightarrow> pyval result" where
  "json_loads \<equiv> json_loads_with True"

text \<open>The default hook builds a \<open>dict\<close>: the last of several equal keys wins.\<close>

definition dict_of_pairs :: "pydict \<Rightarrow> pydict result" where
  "dict_of_pairs ps = Inr (foldl (\<lambda>d (k, v). dict_set d k v) [] ps)"

text \<open>The hook of the strict readers: an object with a repeated key is refused.\<close>

fun reject_dup_loop :: "pydict \<Rightarrow> pydict \<Rightarrow> pydict result" where
  "reject_dup_loop out [] = Inr out"
| "reject_dup_loop out ((k, v) # ps) =
     (if k \<in> set (dict_keys out) then Inl (DuplicateKeyError k)
      else reject_dup_loop (dict_set out k v) ps)"

section \<open>Every step consumes input, and the fuel is enough\<close>

lemma skip_ws_le: "length (skip_ws s) \<le> length s"
  by (simp add: skip_ws_def length_dropWhile_le)

lemma scan_int_shorter: "scan_int s = Some (i, r) \<Longrightarrow> length r < length s"
  by (auto simp: scan_int_def split: list.splits if_splits prod.splits
      dest!: take_digits_concat [OF sym] take_digits_concat)

lemma scan_frac_le: "scan_frac s = (f, r) \<Longrightarrow> length r \<le> length s"
  by (auto simp: scan_frac_def split: list.splits if_splits prod.splits dest!: take_digits_concat)

lemma scan_exp_le: "scan_exp s = (x, r) \<Longrightarrow> length r \<le> length s"
  by (auto simp: scan_exp_def Let_def split: list.splits if_splits prod.splits
      dest!: take_digits_concat)

lemma scan_number_shorter:
  assumes "scan_number s = Some (Inr (v, r))"
  shows "length r < length s"
proof -
  define body where "body = (if (case s of c # _ \<Rightarrow> c = CHR ''-'' | [] \<Rightarrow> False) then tl s else s)"
  have "length body \<le> length s" by (simp add: body_def)
  moreover from assms obtain i r0 f r1 x where "scan_int body = Some (i, r0)"
    and "scan_frac r0 = (f, r1)" and "scan_exp r1 = (x, r)"
    unfolding scan_number_def body_def [symmetric] Let_def
    by (auto split: option.splits prod.splits if_splits)
  ultimately show ?thesis
    by (fastforce dest: scan_int_shorter scan_frac_le scan_exp_le)
qed

lemma scan_atom_shorter:
  assumes "scan_atom nf s = Inr (v, r)"
  shows "length r < length s"
proof (cases "scan_number s")
  case (Some m)
  with assms show ?thesis by (auto simp: scan_atom_def intro: scan_number_shorter)
next
  case None
  with assms obtain w where "find (\<lambda>(w, _). startswith s w) json_literals = Some (w, v)"
    and r: "r = drop (length w) s"
    by (auto simp: scan_atom_def split: option.splits if_splits)
  then have "startswith s w" and "(w, v) \<in> set json_literals"
    by (auto simp: find_Some_iff in_set_conv_nth)
  then have "w \<noteq> []" and "length w \<le> length s"
    by (auto simp: json_literals_def startswith_iff)
  with r show ?thesis by (cases w) auto
qed

lemma json_shorter:
  "json_val nf hook n s = Inr (v, r) \<Longrightarrow> length r < length s"
  "json_arr nf hook n s = Inr (vs, r) \<Longrightarrow> length r < length s"
  "json_obj nf hook n s = Inr (ps, r) \<Longrightarrow> length r < length s"
proof (induction nf hook n s and nf hook n s and nf hook n s arbitrary: v r and vs r and ps r
    rule: json_val_json_arr_json_obj.induct)
  case (2 nf hook n s)
  then obtain c u where s: "s = c # u" by (auto simp: json_steps split: list.splits)
  have "length (skip_ws u) \<le> length u" by (rule skip_ws_le)
  moreover from this have "length (tl (skip_ws u)) \<le> length u" by simp
  ultimately show ?case
    using 2(3) s 2(1) [OF s] 2(2) [OF s] scan_atom_shorter [of nf s v r]
    by (auto simp: json_steps split: if_splits option.splits dest: scan_str_shorter less_trans)
next
  case (4 nf hook n s)
  from 4(3) obtain w u where w: "json_val nf hook n s = Inr (w, u)"
    by (auto simp: json_steps)
  with 4(3) obtain c u' where u: "skip_ws u = c # u'"
    by (cases "skip_ws u") (auto simp: json_steps)
  from w have "length u < length s" by (rule 4(1))
  then have u': "length u' < length s" using skip_ws_le [of u] u by simp
  show ?case
  proof (cases "c = CHR '',''")
    case True
    with 4(3) w u obtain xs where "json_arr nf hook n (skip_ws u') = Inr (xs, r)"
      by (auto simp: json_steps)
    with 4(2) [OF u True] have "length r < length (skip_ws u')" by blast
    with u' skip_ws_le [of u'] show ?thesis by simp
  next
    case False
    with 4(3) w u u' show ?thesis by (auto simp: json_steps split: if_splits)
  qed
next
  case (6 nf hook n s)
  from 6(3) obtain k u w u1 where q: "take 1 s = [quote_char]"
    and k: "scan_str (tl s) = Some (k, u)" and colon: "take 1 (skip_ws u) = '':''"
    and w: "json_val nf hook n (skip_ws (tl (skip_ws u))) = Inr (w, u1)"
    by (auto simp: json_steps split: if_splits option.splits)
  with 6(3) obtain c u2 where u1: "skip_ws u1 = c # u2"
    by (cases "skip_ws u1") (auto simp: json_steps)
  from 6(1) [of "(k, u)" k u w u1] q k colon w
  have "length u1 < length (skip_ws (tl (skip_ws u)))" by simp
  then have u2: "length u2 < length s"
    using skip_ws_le [of u1] skip_ws_le [of "tl (skip_ws u)"] skip_ws_le [of u]
      scan_str_shorter [OF k] u1 by (simp del: One_nat_def)
  show ?case
  proof (cases "c = CHR '',''")
    case True
    with 6(3) q k colon w u1 obtain qs where "json_obj nf hook n (skip_ws u2) = Inr (qs, r)"
      by (auto simp: json_steps)
    with 6(2) [of "(k, u)" k u u1 c u2] q k colon w u1 True
    have "length r < length (skip_ws u2)" by simp
    with u2 skip_ws_le [of u2] show ?thesis by simp
  next
    case False
    with 6(3) q k colon w u1 u2 show ?thesis by (auto simp: json_steps split: if_splits)
  qed
qed (simp_all add: json_steps)

text \<open>With more than twice the length of the text as fuel, more fuel changes nothing.\<close>

lemma json_fuel_enough:
  "2 * length s < n \<Longrightarrow> json_val nf hook (Suc n) s = json_val nf hook n s"
  "Suc (2 * length s) < n \<Longrightarrow> json_arr nf hook (Suc n) s = json_arr nf hook n s"
  "2 * length s < n \<Longrightarrow> json_obj nf hook (Suc n) s = json_obj nf hook n s"
proof (induction n arbitrary: s)
  case (Suc n)
  {
    case 1
    show ?case
    proof (cases s)
      case (Cons c u)
      with 1 skip_ws_le [of u] have "Suc (2 * length (skip_ws u)) < n" by simp
      then have "json_arr nf hook (Suc n) (skip_ws u) = json_arr nf hook n (skip_ws u)"
        and "json_obj nf hook (Suc n) (skip_ws u) = json_obj nf hook n (skip_ws u)"
        by (auto intro: Suc.IH)
      with Cons show ?thesis by (simp add: json_val.simps(2))
    qed (simp add: json_steps)
  next
    case 2
    then have v: "json_val nf hook (Suc n) s = json_val nf hook n s" by (intro Suc.IH) simp
    have a: "json_arr nf hook (Suc n) (skip_ws u') = json_arr nf hook n (skip_ws u')"
      if "json_val nf hook n s = Inr (w, u)" and "skip_ws u = c # u'" for w u c u'
      using json_shorter(1) [OF that(1)] skip_ws_le [of u] skip_ws_le [of u'] that(2) 2
      by (intro Suc.IH) simp
    show ?case
      using a v by (cases "json_val nf hook n s")
        (auto simp: json_arr.simps(2) split: list.splits)
  next
    case 3
    have q: "length (tl s) < length s" if "take 1 s = [quote_char]"
      using that by (cases s) auto
    have v: "json_val nf hook (Suc n) (skip_ws (tl (skip_ws r))) = json_val nf hook n (skip_ws (tl (skip_ws r)))"
      if "take 1 s = [quote_char]" and "scan_str (tl s) = Some (k, r)" for k r
      using scan_str_shorter [OF that(2)] q [OF that(1)] skip_ws_le [of r]
        skip_ws_le [of "tl (skip_ws r)"] 3
      by (intro Suc.IH) simp
    have o: "json_obj nf hook (Suc n) (skip_ws r2) = json_obj nf hook n (skip_ws r2)"
      if "take 1 s = [quote_char]" and "scan_str (tl s) = Some (k, r)"
        and "json_val nf hook n (skip_ws (tl (skip_ws r))) = Inr (w, r1)"
        and "skip_ws r1 = c # r2" for k r w r1 c r2
      using scan_str_shorter [OF that(2)] q [OF that(1)] skip_ws_le [of r]
        skip_ws_le [of "tl (skip_ws r)"] json_shorter(1) [OF that(3)]
        skip_ws_le [of r1] skip_ws_le [of r2] that(4) 3
      by (intro Suc.IH) simp
    show ?case
    proof (cases "take 1 s = [quote_char] \<and> (\<exists>k r. scan_str (tl s) = Some (k, r))")
      case True
      then obtain k r where t: "take 1 s = [quote_char]" "scan_str (tl s) = Some (k, r)" by auto
      note o = o [OF t]
      show ?thesis
        using t v [OF t] o
        by (cases "json_val nf hook n (skip_ws (tl (skip_ws r)))")
          (auto simp: json_obj.simps(2) split: list.splits)
    qed (auto simp: json_obj.simps(2) split: option.splits)
  }
qed (simp_all add: json_steps)

lemma json_val_fuel_le:
  "2 * length s < n \<Longrightarrow> n \<le> m \<Longrightarrow> json_val nf hook m s = json_val nf hook n s"
  by (induction m rule: nat_induct) (auto simp: le_Suc_eq json_fuel_enough(1))

section \<open>Writing JSON\<close>

definition hex_char :: "nat \<Rightarrow> char" where
  "hex_char n = (if n < 10 then char_of (48 + n) else char_of (87 + n))"

definition hex4_of :: "nat \<Rightarrow> string" where
  "hex4_of n =
     [hex_char (n div 4096 mod 16), hex_char (n div 256 mod 16), hex_char (n div 16 mod 16),
      hex_char (n mod 16)]"

definition escape_point :: "nat \<Rightarrow> string" where
  "escape_point n =
     (if n = 34 then [backslash, quote_char]
      else if n = 92 then [backslash, backslash]
      else if n = 8 then [backslash, CHR ''b'']
      else if n = 12 then [backslash, CHR ''f'']
      else if n = 10 then [backslash, CHR ''n'']
      else if n = 13 then [backslash, CHR ''r'']
      else if n = 9 then [backslash, CHR ''t'']
      else if 32 \<le> n \<and> n \<le> 126 then [char_of n]
      else if n < 65536 then [backslash, CHR ''u''] @ hex4_of n
      else [backslash, CHR ''u''] @ hex4_of (55296 + (n - 65536) div 1024) @
           [backslash, CHR ''u''] @ hex4_of (56320 + (n - 65536) mod 1024))"

definition dumps_str :: "string \<Rightarrow> string" where
  "dumps_str s = [quote_char] @ concat (map escape_point (utf8_points s)) @ [quote_char]"

fun join_sep :: "string \<Rightarrow> string list \<Rightarrow> string" where
  "join_sep sep [] = []"
| "join_sep sep [x] = x"
| "join_sep sep (x # xs) = x @ sep @ join_sep sep xs"

text \<open>\<open>json.dumps (v, separators=(isep, ksep))\<close>; \<open>frepr\<close> stands for \<open>float.__repr__\<close>.\<close>

fun json_dumps :: "(pyfloat \<Rightarrow> string) \<Rightarrow> string \<Rightarrow> string \<Rightarrow> pyval \<Rightarrow> string" where
  "json_dumps frepr isep ksep PNone = ''null''"
| "json_dumps frepr isep ksep (PBool b) = (if b then ''true'' else ''false'')"
| "json_dumps frepr isep ksep (PInt i) = dec_of_int i"
| "json_dumps frepr isep ksep (PFloat x) = frepr x"
| "json_dumps frepr isep ksep (PStr s) = dumps_str s"
| "json_dumps frepr isep ksep (PList vs) =
     ''['' @ join_sep isep (map (json_dumps frepr isep ksep) vs) @ '']''"
| "json_dumps frepr isep ksep (PDict d) =
     ''{'' @ join_sep isep (map (\<lambda>kv. dumps_str (fst kv) @ ksep @ json_dumps frepr isep ksep (snd kv)) d) @ ''}''"

text \<open>The values the scripts write: no floats, ASCII text, distinct keys, integers short
  enough to be read back.\<close>

fun plain_json :: "pyval \<Rightarrow> bool" where
  "plain_json PNone = True"
| "plain_json (PBool _) = True"
| "plain_json (PInt i) = (length (dec_of_nat (nat \<bar>i\<bar>)) \<le> max_int_digits)"
| "plain_json (PFloat _) = False"
| "plain_json (PStr s) = is_ascii s"
| "plain_json (PList vs) = (\<forall>v \<in> set vs. plain_json v)"
| "plain_json (PDict d) =
     (distinct (dict_keys d) \<and> (\<forall>kv \<in> set d. is_ascii (fst kv) \<and> plain_json (snd kv)))"

section \<open>Reading back what was written\<close>

lemma hex_value_hex_char: "n < 16 \<Longrightarrow> hex_value (hex_char n) = Some n"
  by (auto simp: hex_value_def hex_char_def byte_in_def)

lemma hex_digits_sum:
  "(n :: nat) div 4096 * 4096 + n div 256 mod 16 * 256 + n div 16 mod 16 * 16 + n mod 16 = n"
proof -
  have sum: "c * 4096 + z * 256 + y * 16 + x = n"
    if "n = 16 * a + x" "a = 16 * b + y" "b = 16 * c + z" for n a b c x y z :: nat
    using that by simp
  have "n div 256 = n div 16 div 16" and "n div 4096 = n div 16 div 16 div 16"
    by (simp_all add: div_mult2_eq [symmetric])
  then show ?thesis
    by (simp only:) (rule sum [of n "n div 16" _ "n div 16 div 16"]; simp)
qed

lemma hex4_hex4_of: "n < 65536 \<Longrightarrow> hex4 (hex4_of n @ r) = Some n"
  by (simp add: hex4_of_def hex_value_hex_char hex_digits_sum)

lemma prepend_Some [simp]: "prepend p (Some (t, r)) = Some (p @ t, r)"
  by (simp add: prepend_def)

lemma scan_str_simple_escape:
  "simple_escape e = Some x \<Longrightarrow> e \<noteq> CHR ''u'' \<Longrightarrow> scan_str (backslash # e # r) = prepend [x] (scan_str r)"
  by (subst scan_str.simps) simp

lemma scan_str_plain:
  "c \<noteq> quote_char \<Longrightarrow> c \<noteq> backslash \<Longrightarrow> 32 \<le> (of_char c :: nat) \<Longrightarrow>
     scan_str (c # r) = prepend [c] (scan_str r)"
  by (subst scan_str.simps) simp

lemma scan_str_u_escape:
  assumes "n < 128"
  shows "scan_str (backslash # CHR ''u'' # hex4_of n @ r) = prepend [char_of n] (scan_str r)"
proof -
  have "drop 4 (hex4_of n @ r) = r" by (simp add: hex4_of_def)
  moreover have "hex4 (hex4_of n @ r) = Some n" using assms by (simp add: hex4_hex4_of)
  ultimately show ?thesis
    using assms by (subst scan_str.simps) (simp add: utf8_encode_def)
qed

lemma scan_str_escape_point:
  assumes "of_char c < (128 :: nat)"
  shows "scan_str (escape_point (of_char c) @ r) = prepend [c] (scan_str r)"
proof -
  have nums: "(34 :: nat) = of_char quote_char" "(92 :: nat) = of_char backslash"
    "(8 :: nat) = of_char CHR 0x08" "(12 :: nat) = of_char CHR 0x0C"
    "(10 :: nat) = of_char CHR 0x0A" "(13 :: nat) = of_char CHR 0x0D"
    "(9 :: nat) = of_char CHR 0x09"
    by simp_all
  have codes: "of_char c = (34 :: nat) \<longleftrightarrow> c = quote_char"
    "of_char c = (92 :: nat) \<longleftrightarrow> c = backslash" "of_char c = (8 :: nat) \<longleftrightarrow> c = CHR 0x08"
    "of_char c = (12 :: nat) \<longleftrightarrow> c = CHR 0x0C" "of_char c = (10 :: nat) \<longleftrightarrow> c = CHR 0x0A"
    "of_char c = (13 :: nat) \<longleftrightarrow> c = CHR 0x0D" "of_char c = (9 :: nat) \<longleftrightarrow> c = CHR 0x09"
    by (simp_all only: nums of_char_eq_iff)
  consider "c \<in> {quote_char, backslash, CHR 0x08, CHR 0x0C, CHR 0x0A, CHR 0x0D, CHR 0x09}"
    | "c \<notin> {quote_char, backslash, CHR 0x08, CHR 0x0C, CHR 0x0A, CHR 0x0D, CHR 0x09}"
      "32 \<le> (of_char c :: nat)" "of_char c \<le> (126 :: nat)"
    | "c \<notin> {quote_char, backslash, CHR 0x08, CHR 0x0C, CHR 0x0A, CHR 0x0D, CHR 0x09}"
      "\<not> (32 \<le> (of_char c :: nat) \<and> of_char c \<le> (126 :: nat))"
    by blast
  then show ?thesis
  proof cases
    case 1
    then show ?thesis
      by (auto simp: escape_point_def simple_escape_def scan_str_simple_escape)
  next
    case 2
    then show ?thesis
      by (simp add: escape_point_def codes scan_str_plain)
  next
    case 3
    then show ?thesis
      using assms by (auto simp: escape_point_def codes scan_str_u_escape)
  qed
qed

lemma scan_str_dumps:
  assumes "is_ascii s"
  shows "scan_str (tl (dumps_str s) @ r) = Some (s, r)"
proof -
  have "scan_str (concat (map escape_point (map of_char s)) @ quote_char # r) = Some (s, r)"
    using assms
  proof (induction s)
    case Nil
    show ?case by (subst scan_str.simps) simp
  next
    case (Cons c s)
    then show ?case by (simp add: is_ascii_def scan_str_escape_point)
  qed
  with assms show ?thesis by (simp add: dumps_str_def utf8_points_ascii)
qed

text \<open>What may follow a number without being read as part of it.\<close>

definition ends_number :: "string \<Rightarrow> bool" where
  "ends_number r \<longleftrightarrow>
     (case r of [] \<Rightarrow> True | c # _ \<Rightarrow> \<not> is_digit c \<and> c \<notin> {CHR ''.'', CHR ''e'', CHR ''E''})"

lemma take_digits_append:
  assumes "\<forall>c \<in> set d. is_digit c" and "ends_number r"
  shows "take_digits (d @ r) = (d, r)"
  using assms by (induction d) (auto simp: ends_number_def split: list.splits)

lemma scan_int_dec_of_nat:
  assumes "ends_number r"
  shows "scan_int (dec_of_nat n @ r) = Some (dec_of_nat n, r)"
proof (cases "n = 0")
  case True
  then show ?thesis by (simp add: dec_of_nat.simps scan_int_def)
next
  case False
  then obtain c d where cd: "dec_of_nat n = c # d" by (cases "dec_of_nat n") auto
  with False dec_of_nat_hd_zero [of n] dec_of_nat_digits [of n]
  have "c \<noteq> CHR ''0''" and "is_digit c" by auto
  with cd take_digits_append [OF dec_of_nat_digits assms, of n] show ?thesis
    by (simp add: scan_int_def)
qed

lemma scan_number_dec_of_int:
  assumes "ends_number r" and "length (dec_of_nat (nat \<bar>i\<bar>)) \<le> max_int_digits"
  shows "scan_number (dec_of_int i @ r) = Some (Inr (PInt i, r))"
proof -
  have frac: "scan_frac r = ([], r)" and ex: "scan_exp r = (None, r)"
    using assms(1) by (auto simp: scan_frac_def scan_exp_def ends_number_def split: list.splits)
  obtain c d where cd: "dec_of_nat (nat \<bar>i\<bar>) = c # d" by (cases "dec_of_nat (nat \<bar>i\<bar>)") auto
  with dec_of_nat_digits [of "nat \<bar>i\<bar>"] have "c \<noteq> CHR ''-''"
    by (auto simp: is_digit_def byte_in_def)
  moreover from cd have "nat_of_dec (c # d) = nat \<bar>i\<bar>"
    by (metis nat_of_dec_of_nat)
  ultimately show ?thesis
    using cd assms(2) frac ex scan_int_dec_of_nat [OF assms(1), of "nat \<bar>i\<bar>"]
    by (auto simp: scan_number_def dec_of_int_def Let_def split: if_splits)
qed

definition reads :: "bool \<Rightarrow> (pydict \<Rightarrow> pydict result) \<Rightarrow> string \<Rightarrow> pyval \<Rightarrow> bool" where
  "reads nf hook s v \<longleftrightarrow>
     (\<forall>r. ends_number r \<longrightarrow> (\<exists>N. \<forall>n \<ge> N. json_val nf hook n (s @ r) = Inr (v, r)))"

lemma reads_atom:
  assumes "\<And>r. ends_number r \<Longrightarrow> scan_atom nf (s @ r) = Inr (v, r)"
    and "s \<noteq> []" and "hd s \<notin> {quote_char, CHR ''{'', CHR ''[''}"
  shows "reads nf hook s v"
  unfolding reads_def
proof (intro allI impI exI)
  fix r n
  assume "ends_number r" and "Suc 0 \<le> n"
  then show "json_val nf hook n (s @ r) = Inr (v, r)"
    using assms(1) [of r] assms(2,3) by (cases n; cases s) (auto simp: json_steps)
qed

lemma reads_int:
  assumes "length (dec_of_nat (nat \<bar>i\<bar>)) \<le> max_int_digits"
  shows "reads nf hook (dec_of_int i) (PInt i)"
proof (rule reads_atom)
  show "scan_atom nf (dec_of_int i @ r) = Inr (PInt i, r)" if "ends_number r" for r
    by (simp add: scan_atom_def scan_number_dec_of_int [OF that assms])
  show "dec_of_int i \<noteq> []" by (simp add: dec_of_int_def)
  have "hd (dec_of_nat n) \<notin> {quote_char, CHR ''{'', CHR ''[''}" for n
    using dec_of_nat_digits [of n] by (cases "dec_of_nat n") (auto simp: is_digit_def byte_in_def)
  then show "hd (dec_of_int i) \<notin> {quote_char, CHR ''{'', CHR ''[''}"
    by (auto simp: dec_of_int_def)
qed

lemma reads_literals:
  "reads nf hook ''null'' PNone" "reads nf hook ''true'' (PBool True)" "reads nf hook ''false'' (PBool False)"
  by (rule reads_atom;
      simp add: scan_atom_def scan_number_def scan_int_def is_digit_def byte_in_def
        json_literals_def startswith_def)+

lemma reads_str:
  assumes "is_ascii t"
  shows "reads nf hook (dumps_str t) (PStr t)"
proof -
  have "json_val nf hook n (dumps_str t @ r) = Inr (PStr t, r)" if "Suc 0 \<le> n" for n r
    using that scan_str_dumps [OF assms, of r]
    by (cases n) (auto simp: json_steps dumps_str_def)
  then show ?thesis unfolding reads_def by blast
qed

text \<open>The separators in use: a comma and a colon, each with optional blanks after it.\<close>

definition separators :: "string \<Rightarrow> string \<Rightarrow> bool" where
  "separators isep ksep \<longleftrightarrow>
     (\<exists>a b. isep = CHR '','' # a \<and> ksep = CHR '':'' # b \<and> (\<forall>c \<in> set (a @ b). json_space c))"

definition starts_token :: "string \<Rightarrow> bool" where
  "starts_token s \<longleftrightarrow> s \<noteq> [] \<and> \<not> json_space (hd s) \<and> hd s \<noteq> CHR '']'' \<and> hd s \<noteq> CHR ''}''"

lemma starts_token_append [simp]: "starts_token s \<Longrightarrow> starts_token (s @ r)"
  by (cases s) (auto simp: starts_token_def)

lemma skip_ws_token [simp]: "starts_token s \<Longrightarrow> skip_ws s = s"
  by (cases s) (auto simp: starts_token_def skip_ws_def)

lemma skip_ws_Nil [simp]: "skip_ws [] = []"
  by (simp add: skip_ws_def)

lemma skip_ws_blanks: "\<forall>c \<in> set a. json_space c \<Longrightarrow> skip_ws (a @ s) = skip_ws s"
  by (induction a) (auto simp: skip_ws_def)

lemma skip_ws_punct [simp]:
  "skip_ws (CHR '','' # s) = CHR '','' # s" "skip_ws (CHR '']'' # s) = CHR '']'' # s"
  "skip_ws (CHR ''}'' # s) = CHR ''}'' # s" "skip_ws (CHR '':'' # s) = CHR '':'' # s"
  by (simp_all add: skip_ws_def json_space_def)

lemma ends_number_punct [simp]:
  "ends_number (CHR '','' # s)" "ends_number (CHR '']'' # s)" "ends_number (CHR ''}'' # s)"
  by (simp_all add: ends_number_def is_digit_def byte_in_def)

lemma starts_token_join:
  "xs \<noteq> [] \<Longrightarrow> starts_token (hd xs) \<Longrightarrow> starts_token (join_sep sep xs)"
  by (induction sep xs rule: join_sep.induct) auto

lemma readsD:
  "reads nf hook s v \<Longrightarrow> ends_number r \<Longrightarrow> \<exists>N. \<forall>n \<ge> N. json_val nf hook n (s @ r) = Inr (v, r)"
  by (simp add: reads_def)

lemma closing_blanks:
  assumes "\<forall>x \<in> set z. json_space x"
  shows "ends_number (z @ CHR '']'' # r)" "ends_number (z @ CHR ''}'' # r)"
    and "skip_ws (z @ CHR '']'' # r) = CHR '']'' # r" "skip_ws (z @ CHR ''}'' # r) = CHR ''}'' # r"
proof -
  show "ends_number (z @ CHR '']'' # r)" "ends_number (z @ CHR ''}'' # r)"
    using assms by (cases z; force simp: ends_number_def json_space_def is_digit_def byte_in_def)+
qed (use assms in \<open>simp_all add: skip_ws_blanks\<close>)

lemma json_arr_reads:
  assumes "vs \<noteq> []" and "\<forall>v \<in> set vs. reads nf hook (f v) v \<and> starts_token (f v)"
    and "isep = CHR '','' # a" and "\<forall>c \<in> set a. json_space c"
    and z: "\<forall>x \<in> set z. json_space x"
  shows "\<exists>N. \<forall>n \<ge> N. json_arr nf hook n (join_sep isep (map f vs) @ z @ CHR '']'' # r) = Inr (vs, r)"
  using assms(1,2)
proof (induction vs rule: list_nonempty_induct)
  case (single v)
  then obtain N where N: "\<And>n. N \<le> n \<Longrightarrow>
      json_val nf hook n (f v @ z @ CHR '']'' # r) = Inr (v, z @ CHR '']'' # r)"
    using readsD [of nf hook "f v" v "z @ CHR '']'' # r"] closing_blanks(1) [OF z] by auto
  have "json_arr nf hook n (f v @ z @ CHR '']'' # r) = Inr ([v], r)" if "Suc N \<le> n" for n
    using that N closing_blanks(3) [OF z] by (cases n) (auto simp: json_steps)
  then show ?case by auto
next
  case (cons v vs)
  define rest where "rest = join_sep isep (map f vs) @ z @ CHR '']'' # r"
  from cons obtain M where M: "\<And>n. M \<le> n \<Longrightarrow> json_arr nf hook n rest = Inr (vs, r)"
    by (auto simp: rest_def)
  have "starts_token rest"
    using cons unfolding rest_def by (intro starts_token_append starts_token_join) (auto simp: hd_map)
  then have skip: "skip_ws (a @ rest) = rest"
    using assms(4) by (simp add: skip_ws_blanks)
  have join: "join_sep isep (map f (v # vs)) @ z @ CHR '']'' # r = f v @ CHR '','' # a @ rest"
    using cons assms(3) by (cases vs) (auto simp: rest_def)
  from cons obtain N where N: "\<And>n. N \<le> n \<Longrightarrow>
      json_val nf hook n (f v @ CHR '','' # a @ rest) = Inr (v, CHR '','' # a @ rest)"
    using readsD [of nf hook "f v" v "CHR '','' # a @ rest"] by auto
  have "json_arr nf hook n (f v @ CHR '','' # a @ rest) = Inr (v # vs, r)" if "Suc (max N M) \<le> n" for n
    using that N M skip by (cases n) (auto simp: json_steps)
  then show ?case unfolding join by blast
qed

lemma json_obj_reads:
  assumes "d \<noteq> []" and "\<forall>kv \<in> set d. is_ascii (fst kv) \<and> reads nf hook (f (snd kv)) (snd kv) \<and> starts_token (f (snd kv))"
    and "isep = CHR '','' # a" and "\<forall>c \<in> set a. json_space c"
    and "ksep = CHR '':'' # b" and "\<forall>c \<in> set b. json_space c"
    and z: "\<forall>x \<in> set z. json_space x"
  shows "\<exists>N. \<forall>n \<ge> N.
    json_obj nf hook n (join_sep isep (map (\<lambda>kv. dumps_str (fst kv) @ ksep @ f (snd kv)) d) @ z @ CHR ''}'' # r)
      = Inr (d, r)"
  using assms(1,2)
proof (induction d rule: list_nonempty_induct)
  case (single kv)
  obtain k v where kv: "kv = (k, v)" by (cases kv)
  with single obtain N where N: "\<And>n. N \<le> n \<Longrightarrow>
      json_val nf hook n (f v @ z @ CHR ''}'' # r) = Inr (v, z @ CHR ''}'' # r)"
    using readsD [of nf hook "f v" v "z @ CHR ''}'' # r"] closing_blanks(2) [OF z] by auto
  have scan: "scan_str (tl (dumps_str k) @ ksep @ f v @ z @ CHR ''}'' # r) = Some (k, ksep @ f v @ z @ CHR ''}'' # r)"
    using single kv by (intro scan_str_dumps) auto
  have skip: "skip_ws (b @ f v @ z @ CHR ''}'' # r) = f v @ z @ CHR ''}'' # r"
    using assms(6) single kv by (simp add: skip_ws_blanks)
  have "json_obj nf hook n (dumps_str k @ ksep @ f v @ z @ CHR ''}'' # r) = Inr ([(k, v)], r)"
    if "Suc N \<le> n" for n
    using that N scan skip assms(5) closing_blanks(4) [OF z] by (cases n) (auto simp: json_steps dumps_str_def)
  with kv show ?case by auto
next
  case (cons kv d)
  obtain k v where kv: "kv = (k, v)" by (cases kv)
  let ?g = "\<lambda>kv. dumps_str (fst kv) @ ksep @ f (snd kv)"
  define rest where "rest = join_sep isep (map ?g d) @ z @ CHR ''}'' # r"
  from cons obtain M where M: "\<And>n. M \<le> n \<Longrightarrow> json_obj nf hook n rest = Inr (d, r)"
    by (auto simp: rest_def)
  have "starts_token rest"
    using cons unfolding rest_def
    by (intro starts_token_append starts_token_join)
       (auto simp: hd_map starts_token_def dumps_str_def json_space_def)
  then have skip: "skip_ws (a @ rest) = rest"
    using assms(4) by (simp add: skip_ws_blanks)
  have join: "join_sep isep (map ?g (kv # d)) @ z @ CHR ''}'' # r = dumps_str k @ ksep @ f v @ CHR '','' # a @ rest"
    using cons assms(3) kv by (cases d) (auto simp: rest_def)
  from cons kv obtain N where N: "\<And>n. N \<le> n \<Longrightarrow>
      json_val nf hook n (f v @ CHR '','' # a @ rest) = Inr (v, CHR '','' # a @ rest)"
    using readsD [of nf hook "f v" v "CHR '','' # a @ rest"] by auto
  have scan: "scan_str (tl (dumps_str k) @ ksep @ f v @ CHR '','' # a @ rest)
      = Some (k, ksep @ f v @ CHR '','' # a @ rest)"
    using cons kv by (intro scan_str_dumps) auto
  have skip': "skip_ws (b @ f v @ CHR '','' # a @ rest) = f v @ CHR '','' # a @ rest"
    using assms(6) cons kv by (simp add: skip_ws_blanks)
  have obj: "json_obj nf hook n (dumps_str k @ ksep @ f v @ CHR '','' # a @ rest) = Inr ((k, v) # d, r)"
    if "Suc (max N M) \<le> n" for n
  proof -
    from that obtain m where m: "n = Suc m" "N \<le> m" "M \<le> m" by (cases n) auto
    show ?thesis
      using N [OF m(2)] M [OF m(3)] scan skip skip' assms(5)
      by (simp add: m(1) json_steps dumps_str_def)
  qed
  show ?case
    unfolding kv join [unfolded kv] by (intro exI [of _ "Suc (max N M)"] allI impI obj)
qed

lemma starts_token_dumps:
  assumes "plain_json v"
  shows "starts_token (json_dumps frepr isep ksep v)"
proof (cases v)
  case (PInt i)
  have "starts_token (dec_of_nat n)" for n
    using dec_of_nat_digits [of n]
    by (cases "dec_of_nat n") (auto simp: starts_token_def is_digit_def byte_in_def json_space_def)
  with PInt show ?thesis
    by (auto simp: dec_of_int_def starts_token_def json_space_def)
qed (use assms in \<open>auto simp: starts_token_def json_space_def dumps_str_def\<close>)

lemma reads_list:
  assumes "\<forall>v \<in> set vs. reads nf hook (f v) v \<and> starts_token (f v)" and "separators isep ksep"
    and pre: "\<forall>x \<in> set pre. json_space x" and z: "\<forall>x \<in> set z. json_space x"
  shows "reads nf hook (CHR ''['' # pre @ join_sep isep (map f vs) @ z @ '']'') (PList vs)"
  unfolding reads_def
proof (intro allI impI)
  fix r
  assume "ends_number r"
  show "\<exists>N. \<forall>n\<ge>N. json_val nf hook n ((CHR ''['' # pre @ join_sep isep (map f vs) @ z @ '']'') @ r) = Inr (PList vs, r)"
  proof (cases "vs = []")
    case True
    have skip: "skip_ws (pre @ z @ CHR '']'' # r) = CHR '']'' # r"
      using closing_blanks(3) [of "pre @ z" r] pre z by auto
    have "json_val nf hook n (CHR ''['' # pre @ z @ CHR '']'' # r) = Inr (PList [], r)" if "Suc 0 \<le> n" for n
      using that skip by (cases n) (auto simp: json_steps)
    with True show ?thesis by auto
  next
    case False
    from assms(2) obtain a where a: "isep = CHR '','' # a" "\<forall>c \<in> set a. json_space c"
      by (auto simp: separators_def)
    define body where "body = join_sep isep (map f vs) @ z @ CHR '']'' # r"
    from json_arr_reads [OF False assms(1) a z, of r]
    obtain N where N: "\<And>n. N \<le> n \<Longrightarrow> json_arr nf hook n body = Inr (vs, r)"
      by (auto simp: body_def)
    have tok: "starts_token body"
      unfolding body_def using False assms(1)
      by (intro starts_token_append starts_token_join) (auto simp: hd_map)
    then have "take (Suc 0) body \<noteq> '']''" by (cases body) (auto simp: starts_token_def)
    with tok N have "json_val nf hook n (CHR ''['' # pre @ body) = Inr (PList vs, r)" if "Suc N \<le> n" for n
      using that pre by (cases n) (auto simp: json_steps skip_ws_blanks)
    then show ?thesis by (auto simp: body_def)
  qed
qed

lemma reads_dict:
  assumes "\<forall>kv \<in> set d. is_ascii (fst kv) \<and> reads nf hook (f (snd kv)) (snd kv) \<and> starts_token (f (snd kv))"
    and "separators isep ksep" and "hook d = Inr d"
    and pre: "\<forall>x \<in> set pre. json_space x" and z: "\<forall>x \<in> set z. json_space x"
  shows "reads nf hook
    (CHR ''{'' # pre @ join_sep isep (map (\<lambda>kv. dumps_str (fst kv) @ ksep @ f (snd kv)) d) @ z @ ''}'') (PDict d)"
  unfolding reads_def
proof (intro allI impI)
  fix r
  assume "ends_number r"
  let ?g = "\<lambda>kv. dumps_str (fst kv) @ ksep @ f (snd kv)"
  show "\<exists>N. \<forall>n\<ge>N. json_val nf hook n ((CHR ''{'' # pre @ join_sep isep (map ?g d) @ z @ ''}'') @ r) = Inr (PDict d, r)"
  proof (cases "d = []")
    case True
    have skip: "skip_ws (pre @ z @ CHR ''}'' # r) = CHR ''}'' # r"
      using closing_blanks(4) [of "pre @ z" r] pre z by auto
    have "json_val nf hook n (CHR ''{'' # pre @ z @ CHR ''}'' # r) = Inr (PDict [], r)" if "Suc 0 \<le> n" for n
      using that assms(3) True skip by (cases n) (auto simp: json_steps)
    with True show ?thesis by auto
  next
    case False
    from assms(2) obtain a b where a: "isep = CHR '','' # a" "\<forall>c \<in> set a. json_space c"
      and b: "ksep = CHR '':'' # b" "\<forall>c \<in> set b. json_space c"
      by (auto simp: separators_def)
    define body where "body = join_sep isep (map ?g d) @ z @ CHR ''}'' # r"
    from json_obj_reads [OF False assms(1) a b z, of r]
    obtain N where N: "\<And>n. N \<le> n \<Longrightarrow> json_obj nf hook n body = Inr (d, r)"
      by (auto simp: body_def)
    have tok: "starts_token body"
      unfolding body_def using False assms(1)
      by (intro starts_token_append starts_token_join)
         (auto simp: hd_map starts_token_def dumps_str_def json_space_def)
    then have "take (Suc 0) body \<noteq> ''}''" by (cases body) (auto simp: starts_token_def)
    with tok N assms(3) have "json_val nf hook n (CHR ''{'' # pre @ body) = Inr (PDict d, r)" if "Suc N \<le> n" for n
      using that pre by (cases n) (auto simp: json_steps skip_ws_blanks)
    then show ?thesis by (auto simp: body_def)
  qed
qed

lemma reads_dumps:
  assumes "plain_json v" and "separators isep ksep"
    and "\<And>d. distinct (dict_keys d) \<Longrightarrow> hook d = Inr d"
  shows "reads nf hook (json_dumps frepr isep ksep v) v"
  using assms(1)
proof (induction v rule: measure_induct_rule [of size])
  case (less v)
  show ?case
  proof (cases v)
    case (PList vs)
    have "reads nf hook (json_dumps frepr isep ksep w) w \<and> starts_token (json_dumps frepr isep ksep w)"
      if "w \<in> set vs" for w
      using that less PList
      by (auto intro!: less(1) starts_token_dumps simp: less_Suc_eq_le size_list_estimation')
    with PList reads_list [of vs nf hook "json_dumps frepr isep ksep" isep ksep "[]" "[]", OF _ assms(2)]
    show ?thesis by simp
  next
    case (PDict d)
    have "is_ascii (fst kv) \<and> reads nf hook (json_dumps frepr isep ksep (snd kv)) (snd kv)
        \<and> starts_token (json_dumps frepr isep ksep (snd kv))" if kv: "kv \<in> set d" for kv
    proof -
      have "size (snd kv) < size v"
        using PDict size_list_estimation' [OF kv, of "size (snd kv)" "size_prod (\<lambda>x. 0) size"]
        by (cases kv) auto
      with less kv PDict show ?thesis by (auto intro!: less(1) starts_token_dumps)
    qed
    moreover have "hook d = Inr d" using assms(3) less(2) PDict by simp
    ultimately show ?thesis
      using PDict reads_dict [of d nf hook "json_dumps frepr isep ksep" isep ksep "[]" "[]", OF _ assms(2)] by simp
  qed (use less(2) in \<open>auto intro: reads_literals reads_int reads_str\<close>)
qed

lemma json_space_ends_number: "\<forall>c \<in> set b. json_space c \<Longrightarrow> ends_number b"
proof (cases b)
  case (Cons c r)
  moreover assume "\<forall>c \<in> set b. json_space c"
  ultimately have "c = CHR '' '' \<or> c = CHR 0x09 \<or> c = CHR 0x0A \<or> c = CHR 0x0D" by (simp add: json_space_def)
  then show ?thesis by (elim disjE) (simp_all add: Cons ends_number_def is_digit_def byte_in_def)
qed (simp add: ends_number_def)

text \<open>What was written is read back, also with blanks after it.\<close>

lemma json_loads_reads:
  assumes "reads nf hook s v" and "starts_token s" and b: "\<forall>c \<in> set b. json_space c"
  shows "json_loads_with nf hook (s @ b) = Inr v"
proof -
  from readsD [OF assms(1), of b] json_space_ends_number [OF b]
  obtain N where "\<forall>n \<ge> N. json_val nf hook n (s @ b) = Inr (v, b)" by auto
  then have "json_val nf hook (max N (Suc (2 * length (s @ b)))) (s @ b) = Inr (v, b)" by simp
  then have "json_val nf hook (Suc (2 * length (s @ b))) (s @ b) = Inr (v, b)"
    using json_val_fuel_le [of "s @ b" "Suc (2 * length (s @ b))" "max N (Suc (2 * length (s @ b)))" nf hook] by simp
  with assms(2) skip_ws_blanks [OF b, of "[]"] show ?thesis
    by (simp add: json_loads_with_def)
qed

lemma json_loads_dumps_blanks:
  assumes "plain_json v" and "separators isep ksep"
    and "\<And>d. distinct (dict_keys d) \<Longrightarrow> hook d = Inr d" and b: "\<forall>c \<in> set b. json_space c"
  shows "json_loads_with nf hook (json_dumps frepr isep ksep v @ b) = Inr v"
  using json_loads_reads [OF reads_dumps [OF assms(1-3)] starts_token_dumps [OF assms(1)] b] .

lemmas json_loads_dumps = json_loads_dumps_blanks [where b = "[]", simplified]

lemma dict_of_pairs_distinct: "distinct (dict_keys d) \<Longrightarrow> dict_of_pairs d = Inr d"
proof -
  have set_new: "dict_set out k v = out @ [(k, v)]" if "k \<notin> set (dict_keys out)" for out k v
    using that by (induction out) (auto simp: dict_keys_def)
  have "foldl (\<lambda>d (k, v). dict_set d k v) out ps = out @ ps" if "distinct (dict_keys (out @ ps))" for out ps
    using that
  proof (induction ps arbitrary: out)
    case (Cons kv ps)
    obtain k v where kv: "kv = (k, v)" by (cases kv)
    with Cons.prems have "k \<notin> set (dict_keys out)" by (auto simp: dict_keys_def)
    with Cons kv show ?case by (simp add: set_new)
  qed simp
  from this [of "[]" d] show "distinct (dict_keys d) \<Longrightarrow> dict_of_pairs d = Inr d"
    by (simp add: dict_of_pairs_def)
qed

text \<open>Only printable ASCII is written.\<close>

definition printable :: "char \<Rightarrow> bool" where
  "printable c \<longleftrightarrow> of_char c \<in> {32 .. 126 :: nat}"

lemma printable_hex_char: "n < 16 \<Longrightarrow> printable (hex_char n)"
  by (simp add: hex_char_def printable_def of_char_of)

lemma printable_hex4_of: "list_all printable (hex4_of n)"
  by (simp add: hex4_of_def printable_hex_char)

lemma printable_escape_point: "list_all printable (escape_point n)"
  using printable_hex4_of by (simp add: escape_point_def printable_def of_char_of)

lemma printable_dumps_str: "list_all printable (dumps_str s)"
proof -
  have "list_all printable (concat (map escape_point ns))" for ns
    by (induction ns) (simp_all add: printable_escape_point)
  then show ?thesis by (simp add: dumps_str_def printable_def)
qed

lemma printable_join_sep:
  "list_all printable sep \<Longrightarrow> \<forall>x \<in> set xs. list_all printable x \<Longrightarrow> list_all printable (join_sep sep xs)"
  by (induction sep xs rule: join_sep.induct) simp_all

lemma printable_dec_of_int: "list_all printable (dec_of_int i)"
proof -
  have "list_all printable (dec_of_nat n)" for n
    using dec_of_nat_digits [of n] by (force simp: list_all_iff printable_def is_digit_def byte_in_def)
  then show ?thesis by (simp add: dec_of_int_def printable_def)
qed

lemma printable_dumps:
  assumes "plain_json v" and "list_all printable isep" and "list_all printable ksep"
  shows "list_all printable (json_dumps frepr isep ksep v)"
  using assms(1)
proof (induction v rule: measure_induct_rule [of size])
  case (less v)
  show ?case
  proof (cases v)
    case (PList vs)
    have "list_all printable (json_dumps frepr isep ksep w)" if "w \<in> set vs" for w
      using that less PList by (auto intro!: less(1) simp: less_Suc_eq_le size_list_estimation')
    with PList assms(2) show ?thesis by (simp add: printable_join_sep) (simp add: printable_def)
  next
    case (PDict d)
    have "list_all printable (json_dumps frepr isep ksep (snd kv))" if kv: "kv \<in> set d" for kv
    proof -
      have "size (snd kv) < size v"
        using PDict size_list_estimation' [OF kv, of "size (snd kv)" "size_prod (\<lambda>x. 0) size"]
        by (cases kv) auto
      with less kv PDict show ?thesis by (auto intro!: less(1))
    qed
    with PDict assms(2,3) show ?thesis
      by (simp add: printable_join_sep printable_dumps_str) (simp add: printable_def)
  next
    case (PInt i)
    then show ?thesis by (simp add: printable_dec_of_int)
  next
    case (PStr t)
    then show ?thesis by (simp add: printable_dumps_str)
  qed (use less(2) in \<open>auto simp: printable_def\<close>)
qed

lemma reject_dup_loop_distinct:
  "distinct (dict_keys out @ dict_keys ps) \<Longrightarrow> reject_dup_loop out ps = Inr (out @ ps)"
proof (induction out ps rule: reject_dup_loop.induct)
  case (2 out k v ps)
  have "dict_set out k v = out @ [(k, v)]" if "k \<notin> set (dict_keys out)"
    using that by (induction out) (auto simp: dict_keys_def)
  with 2 show ?case by (auto simp: dict_keys_def)
qed (simp add: dict_keys_def)

text \<open>The exceptions a reader can raise: its own, the int limit, or those of the hook.\<close>

lemma scan_atom_error:
  "scan_atom nf s = Inl e \<Longrightarrow> e = JSONDecodeError \<or> (\<exists>m. e = ValueError m)"
  by (auto simp: scan_atom_def scan_number_def Let_def split: option.splits prod.splits if_splits)

lemma json_val_error:
  assumes hook: "\<And>d e. hook d = Inl e \<Longrightarrow> P e"
    and P: "P JSONDecodeError" "\<And>m. P (ValueError m)"
  shows "json_val nf hook n s = Inl e \<Longrightarrow> P e"
    and "json_arr nf hook n s = Inl e \<Longrightarrow> P e"
    and "json_obj nf hook n s = Inl e \<Longrightarrow> P e"
proof (induction n arbitrary: s e)
  case (Suc n)
  { case 1
    then show ?case
    proof (cases s)
      case (Cons c r)
      note IH = Suc.IH(2) [of "skip_ws r" e] Suc.IH(3) [of "skip_ws r" e]
      consider "c = quote_char" | "c = CHR ''{''" | "c = CHR ''[''"
        | "c \<noteq> quote_char" "c \<noteq> CHR ''{''" "c \<noteq> CHR ''[''" by blast
      then show ?thesis
      proof cases
        case 4
        then show ?thesis using 1 Cons scan_atom_error [of nf s e] P by (auto simp: json_steps)
      qed (use 1 Cons IH P hook in \<open>auto simp: json_steps split: if_splits option.splits\<close>)
    qed (simp add: json_steps P) }
  { case 2
    show ?case
    proof (cases "json_val nf hook n s")
      case (Inl e')
      with 2 have "json_val nf hook n s = Inl e" by (simp add: json_steps)
      then show ?thesis by (rule Suc.IH)
    next
      case (Inr vr)
      obtain v r where [simp]: "vr = (v, r)" by (cases vr)
      show ?thesis
      proof (cases "skip_ws r")
        case (Cons c r')
        have "P e" if "json_arr nf hook n (skip_ws r') = Inl e" using that by (rule Suc.IH)
        with 2 Inr Cons P(1) show ?thesis by (auto simp: json_steps split: if_splits)
      qed (use 2 Inr P(1) in \<open>simp add: json_steps\<close>)
    qed }
  { case 3
    show ?case
    proof (cases "take 1 s = [quote_char]")
      case True
      show ?thesis
      proof (cases "scan_str (tl s)")
        case None
        with 3 True P(1) show ?thesis by (simp add: json_steps)
      next
        case (Some kr)
        obtain k r where [simp]: "kr = (k, r)" by (cases kr)
        let ?u = "skip_ws (tl (skip_ws r))"
        show ?thesis
        proof (cases "json_val nf hook n ?u")
          case (Inl e')
          then have "P e'" by (rule Suc.IH)
          with 3 True Some Inl P(1) show ?thesis by (auto simp: json_steps split: if_splits)
        next
          case (Inr vr)
          obtain v r1 where [simp]: "vr = (v, r1)" by (cases vr)
          show ?thesis
          proof (cases "skip_ws r1")
            case (Cons c r2)
            have "P e" if "json_obj nf hook n (skip_ws r2) = Inl e" using that by (rule Suc.IH)
            with 3 True Some Inr Cons P(1) show ?thesis by (auto simp: json_steps split: if_splits)
          qed (use 3 True Some Inr P(1) in \<open>auto simp: json_steps split: if_splits\<close>)
        qed
      qed
    next
      case False
      with 3 P(1) show ?thesis by (simp add: json_steps)
    qed }
qed (use P in \<open>simp_all add: json_steps\<close>)

lemma json_loads_error:
  assumes "\<And>d e. hook d = Inl e \<Longrightarrow> P e" and "P JSONDecodeError" and "\<And>m. P (ValueError m)"
    and "json_loads_with nf hook s = Inl e"
  shows "P e"
  using assms(4) json_val_error(1) [of hook P, OF assms(1-3)] assms(2)
  by (auto simp: json_loads_with_def split: if_splits)

lemma reject_dup_loop_error: "reject_dup_loop out ps = Inl e \<Longrightarrow> \<exists>k. e = DuplicateKeyError k"
  by (induction out ps rule: reject_dup_loop.induct) (auto split: if_splits)

text \<open>What holds of every atom, of every list of such values and of every object the hook builds from
  such values holds of whatever is read.\<close>

lemma scan_atom_cases: "scan_atom nf s = Inr (v, r) \<Longrightarrow> \<not> isinstance_list v \<and> \<not> isinstance_dict v"
  by (auto simp: scan_atom_def scan_number_def json_literals_def Let_def split: option.splits prod.splits if_splits)

lemma json_val_induct:
  assumes atom: "\<And>v. \<not> isinstance_list v \<Longrightarrow> \<not> isinstance_dict v \<Longrightarrow> P v"
    and lst: "\<And>vs. \<forall>v \<in> set vs. P v \<Longrightarrow> P (PList vs)"
    and dict: "\<And>ps d. \<forall>v \<in> snd ` set ps. P v \<Longrightarrow> hook ps = Inr d \<Longrightarrow> P (PDict d)"
  shows "json_val nf hook n s = Inr (v, r) \<Longrightarrow> P v"
    and "json_arr nf hook n s = Inr (vs, r) \<Longrightarrow> \<forall>v \<in> set vs. P v"
    and "json_obj nf hook n s = Inr (ps, r) \<Longrightarrow> \<forall>v \<in> snd ` set ps. P v"
proof (induction n arbitrary: s v vs ps r)
  case (Suc n)
  { case 1
    then show ?case
    proof (cases s)
      case (Cons c u)
      consider "c = quote_char" | "c = CHR ''{''" | "c = CHR ''[''"
        | "c \<noteq> quote_char" "c \<noteq> CHR ''{''" "c \<noteq> CHR ''[''" by blast
      then show ?thesis
      proof cases
        assume c: "c = quote_char"
        with 1 Cons show ?thesis by (auto simp: json_steps atom split: option.splits)
      next
        assume c: "c = CHR ''{''"
        show ?thesis
        proof (cases "take 1 (skip_ws u) = ''}''")
          case True
          with 1 Cons c obtain d where "hook [] = Inr d" "v = PDict d" by (auto simp: json_steps)
          with dict [of "[]" d] show ?thesis by simp
        next
          case False
          with 1 Cons c obtain qs r' d where "json_obj nf hook n (skip_ws u) = Inr (qs, r')" "hook qs = Inr d" "v = PDict d"
            by (auto simp: json_steps)
          with Suc.IH(3) [of "skip_ws u" qs r'] dict [of qs d] show ?thesis by simp
        qed
      next
        assume c: "c = CHR ''[''"
        show ?thesis
        proof (cases "take 1 (skip_ws u) = '']''")
          case True
          with 1 Cons c lst [of "[]"] show ?thesis by (auto simp: json_steps)
        next
          case False
          with 1 Cons c obtain ws r' where "json_arr nf hook n (skip_ws u) = Inr (ws, r')" "v = PList ws"
            by (auto simp: json_steps)
          with Suc.IH(2) [of "skip_ws u" ws r'] lst show ?thesis by simp
        qed
      next
        assume c: "c \<noteq> quote_char" "c \<noteq> CHR ''{''" "c \<noteq> CHR ''[''"
        with 1 Cons have "scan_atom nf s = Inr (v, r)" by (simp add: json_steps)
        then show ?thesis using atom scan_atom_cases by blast
      qed
    qed (simp add: json_steps) }
  { case 2
    then obtain w u where w: "json_val nf hook n s = Inr (w, u)" by (auto simp: json_steps)
    with 2 obtain c u' where u: "skip_ws u = c # u'" by (cases "skip_ws u") (auto simp: json_steps)
    have Pw: "P w" using w by (rule Suc.IH)
    show ?case
    proof (cases "c = CHR '',''")
      case True
      with 2 w u obtain xs where xs: "json_arr nf hook n (skip_ws u') = Inr (xs, r)" "vs = w # xs"
        by (auto simp: json_steps)
      from Suc.IH(2) [OF xs(1)] Pw xs(2) show ?thesis by simp
    next
      case False
      with 2 w u Pw show ?thesis by (auto simp: json_steps split: if_splits)
    qed }
  { case 3
    then obtain k u w u1 where k: "take 1 s = [quote_char]" "scan_str (tl s) = Some (k, u)"
      "take 1 (skip_ws u) = '':''" "json_val nf hook n (skip_ws (tl (skip_ws u))) = Inr (w, u1)"
      by (auto simp: json_steps split: if_splits option.splits)
    with 3 obtain c u2 where u1: "skip_ws u1 = c # u2" by (cases "skip_ws u1") (auto simp: json_steps)
    have Pw: "P w" using k(4) by (rule Suc.IH)
    show ?case
    proof (cases "c = CHR '',''")
      case True
      with 3 k u1 obtain qs where qs: "json_obj nf hook n (skip_ws u2) = Inr (qs, r)" "ps = (k, w) # qs"
        by (auto simp: json_steps)
      from Suc.IH(3) [OF qs(1)] Pw qs(2) show ?thesis by simp
    next
      case False
      with 3 k u1 Pw show ?thesis by (auto simp: json_steps split: if_splits)
    qed }
qed (simp_all add: json_steps)

lemma json_loads_induct:
  assumes "json_loads_with nf hook s = Inr v"
    and "\<And>v. \<not> isinstance_list v \<Longrightarrow> \<not> isinstance_dict v \<Longrightarrow> P v"
    and "\<And>vs. \<forall>v \<in> set vs. P v \<Longrightarrow> P (PList vs)"
    and "\<And>ps d. \<forall>v \<in> snd ` set ps. P v \<Longrightarrow> hook ps = Inr d \<Longrightarrow> P (PDict d)"
  shows "P v"
  using assms(1) json_val_induct(1) [of P hook, OF assms(2-4)]
  by (auto simp: json_loads_with_def split: if_splits)

text \<open>With the strict hook every object, at any depth, has distinct keys.\<close>

fun distinct_keys :: "pyval \<Rightarrow> bool" where
  "distinct_keys (PList vs) = (\<forall>v \<in> set vs. distinct_keys v)"
| "distinct_keys (PDict d) = (distinct (dict_keys d) \<and> (\<forall>kv \<in> set d. distinct_keys (snd kv)))"
| "distinct_keys _ = True"

lemma reject_dup_loop_Inr:
  "reject_dup_loop out ps = Inr d \<Longrightarrow> distinct (dict_keys out) \<Longrightarrow> d = out @ ps \<and> distinct (dict_keys d)"
proof (induction out ps arbitrary: d rule: reject_dup_loop.induct)
  case (2 out k v ps)
  then have k: "k \<notin> set (dict_keys out)" by (auto split: if_splits)
  have "dict_set out k v = out @ [(k, v)]"
    using k by (induction out) (auto simp: dict_keys_def)
  moreover from this 2(2) k have "reject_dup_loop (out @ [(k, v)]) ps = Inr d" by simp
  moreover have "distinct (dict_keys (out @ [(k, v)]))" using 2(3) k by (simp add: dict_keys_def)
  ultimately show ?case using 2(1) [OF k, of d] by auto
qed simp

lemma json_loads_distinct_keys:
  assumes "json_loads_with nf (reject_dup_loop []) s = Inr v"
  shows "distinct_keys v"
  using assms
proof (rule json_loads_induct)
  show "distinct_keys v" if "\<not> isinstance_list v" "\<not> isinstance_dict v" for v
    using that by (cases v) auto
  show "distinct_keys (PDict d)" if "\<forall>v \<in> snd ` set ps. distinct_keys v" "reject_dup_loop [] ps = Inr d" for ps d
  proof -
    from reject_dup_loop_Inr [OF that(2)] have "d = ps" "distinct (dict_keys d)" by (auto simp: dict_keys_def)
    with that(1) show ?thesis by simp
  qed
qed simp

lemma dec_of_nat_length: "n < 10 ^ Suc k \<Longrightarrow> length (dec_of_nat n) \<le> Suc k"
proof (induction k arbitrary: n)
  case 0
  then show ?case by (simp add: dec_of_nat.simps)
next
  case (Suc k)
  show ?case
  proof (cases "n < 10")
    case False
    have "n div 10 < 10 ^ Suc k" using Suc.prems by simp
    with Suc.IH [of "n div 10"] False show ?thesis by (subst dec_of_nat.simps) simp
  qed (simp add: dec_of_nat.simps)
qed

lemma plain_json_small_int: "\<bar>i\<bar> < 10 ^ 9 \<Longrightarrow> plain_json (PInt i)"
proof -
  assume "\<bar>i\<bar> < 10 ^ 9"
  then have "nat \<bar>i\<bar> < 10 ^ Suc 8" by (simp add: nat_less_iff)
  from dec_of_nat_length [OF this] show ?thesis by (simp add: max_int_digits_def)
qed

end
