(* ===== verification/Hil_Protocol.thy ===== *)
theory Hil_Protocol
  imports Py_Json
begin

text \<open>
  The HIL1 source-record protocol, \<open>scripts/hil/protocol.py\<close>: the strict line parser
  \<open>parse_hil1_line\<close> and the run-state tracker \<open>HilRunTracker\<close>.  A method that mutates the
  tracker and may raise returns the tracker together with its result, so that what a raised
  exception leaves behind is visible.
\<close>

section \<open>Constants\<close>

definition PROTOCOL_VERSION :: int where
  "PROTOCOL_VERSION = 1"

definition KINDS :: "string list" where
  "KINDS = [''ack'', ''state'', ''terminal'', ''status'']"

definition STATES :: "string list" where
  "STATES = [''idle'', ''configured'', ''connecting'', ''secured'', ''discovered'', ''qos'',
             ''streaming'', ''scored_complete'', ''teardown'']"

definition TERMINAL_VERDICTS :: "string list" where
  "TERMINAL_VERDICTS = [''pass'', ''fail'']"

definition ABORT_CAUSES :: "string list" where
  "ABORT_CAUSES = [''stop'', ''timeout'', ''error'']"

definition REQUIRED_KEYS :: "string list" where
  "REQUIRED_KEYS = [''protocol_version'', ''kind'', ''firmware_id'', ''monotonic_ms'',
                    ''command_id'', ''run_id'', ''segment'', ''data'']"

lemmas protocol_constants = PROTOCOL_VERSION_def KINDS_def STATES_def TERMINAL_VERDICTS_def
  ABORT_CAUSES_def REQUIRED_KEYS_def

section \<open>Records and the line parser\<close>

record hil_record =
  hr_protocol_version :: int
  hr_kind :: string
  hr_firmware_id :: string
  hr_monotonic_ms :: int
  hr_command_id :: string
  hr_run_id :: string
  hr_segment :: int
  hr_data :: pydict

definition reject_duplicate_keys :: "pydict \<Rightarrow> pydict result" where
  "reject_duplicate_keys pairs = reject_dup_loop [] pairs"

fun is_int :: "pyval \<Rightarrow> bool" where
  "is_int v = (isinstance_int v \<and> \<not> isinstance_bool v)"

text \<open>The argument of \<open>parse_hil1_line\<close>: \<open>bytes\<close>, \<open>str\<close> or some other object.\<close>

datatype raw_line = LBytes string | LStr string | LOther

abbreviation proto_err :: "msg \<Rightarrow> exn + 'a" where
  "proto_err m \<equiv> Inl (HilProtocolError m)"

text \<open>\<open>v in names\<close> for a tuple of strings.\<close>

definition str_in :: "pyval \<Rightarrow> string list \<Rightarrow> bool" where
  "str_in v names \<longleftrightarrow> (\<exists>s \<in> set names. py_eq v (PStr s))"

definition keys_are :: "pydict \<Rightarrow> string list \<Rightarrow> bool" where
  "keys_are d ks \<longleftrightarrow> set (dict_keys d) = set ks"

text \<open>Lines 146--169: the data of a state or terminal record.\<close>

definition check_data :: "string \<Rightarrow> pydict \<Rightarrow> unit result" where
  "check_data kind data =
     (if kind = ''state'' then
        (if keys_are data [''state'', ''cause''] then
           (if \<not> py_eq (dict_get data ''state'') (PStr ''teardown'')
            then proto_err (text_msg ''abort state must be teardown'')
            else if \<not> str_in (dict_get data ''cause'') ABORT_CAUSES
            then proto_err (text_msg ''abort cause must be stop, timeout or error'')
            else Inr ())
         else if \<not> keys_are data [''state'']
         then proto_err (text_msg ''state record data must contain only the state key'')
         else if \<not> isinstance_str (dict_get data ''state'') \<or> \<not> str_in (dict_get data ''state'') STATES
         then proto_err (val_msg ''unknown state %r in state record'' (dict_get data ''state''))
         else Inr ())
      else if kind = ''terminal'' \<and> \<not> str_in (dict_get data ''verdict'') TERMINAL_VERDICTS
      then proto_err (text_msg ''verdict must be pass or fail in terminal record'')
      else Inr ())"

fun str_value :: "pyval \<Rightarrow> string" where
  "str_value (PStr s) = s"
| "str_value _ = []"

fun dict_value :: "pyval \<Rightarrow> pydict" where
  "dict_value (PDict d) = d"
| "dict_value _ = []"

text \<open>Lines 121--179: the fields of the decoded object.\<close>

definition record_of_obj :: "pydict \<Rightarrow> hil_record result" where
  "record_of_obj obj =
     (let get = dict_get obj in
      if \<not> is_int (get ''protocol_version'') \<or> \<not> py_eq (get ''protocol_version'') (PInt PROTOCOL_VERSION)
      then proto_err (val_msg ''protocol_version must be %d'' (PInt PROTOCOL_VERSION))
      else if \<not> isinstance_str (get ''kind'') \<or> \<not> str_in (get ''kind'') KINDS
      then proto_err (val_msg ''unknown HIL1 kind %r'' (get ''kind''))
      else if \<not> isinstance_str (get ''firmware_id'') \<or> get ''firmware_id'' = PStr []
      then proto_err (text_msg ''firmware_id must be a nonempty string'')
      else if \<not> isinstance_str (get ''command_id'') \<or> get ''command_id'' = PStr []
      then proto_err (text_msg ''command_id must be a nonempty string'')
      else if \<not> isinstance_str (get ''run_id'') \<or> get ''run_id'' = PStr []
      then proto_err (text_msg ''run_id must be a nonempty string'')
      else if \<not> is_int (get ''monotonic_ms'') \<or> int_value (get ''monotonic_ms'') < 0
      then proto_err (text_msg ''monotonic_ms must be a nonnegative integer'')
      else if \<not> is_int (get ''segment'') \<or> int_value (get ''segment'') < 0
      then proto_err (text_msg ''segment must be a nonnegative integer'')
      else if \<not> isinstance_dict (get ''data'')
      then proto_err (text_msg ''data must be a JSON object'')
      else rbind (check_data (str_value (get ''kind'')) (dict_value (get ''data''))) (\<lambda>_.
        Inr \<lparr>hr_protocol_version = int_value (get ''protocol_version''),
             hr_kind = str_value (get ''kind''),
             hr_firmware_id = str_value (get ''firmware_id''),
             hr_monotonic_ms = int_value (get ''monotonic_ms''),
             hr_command_id = str_value (get ''command_id''),
             hr_run_id = str_value (get ''run_id''),
             hr_segment = int_value (get ''segment''),
             hr_data = dict_value (get ''data'')\<rparr>))"

text \<open>Lines 104--119: from the text after the prefix to the decoded object with exactly the
  required keys.\<close>

definition parse_hil1_body :: "string \<Rightarrow> hil_record result" where
  "parse_hil1_body body =
     (if strip body = [] then proto_err (text_msg ''empty HIL1 JSON object'')
      else case json_loads reject_duplicate_keys body of
        Inl (DuplicateKeyError k) \<Rightarrow> proto_err (str_msg ''duplicate key %r in HIL1 object'' k)
      | Inl JSONDecodeError \<Rightarrow> proto_err (exn_msg ''invalid HIL1 JSON: %s'' JSONDecodeError)
      | Inl e \<Rightarrow> Inl e
      | Inr (PDict obj) \<Rightarrow>
          rbind (rall (\<lambda>k. require (k \<in> set REQUIRED_KEYS)
                   (HilProtocolError (str_msg ''unknown key %r in HIL1 object'' k))) (dict_keys obj)) (\<lambda>_.
          rbind (rall (\<lambda>k. require (k \<in> set (dict_keys obj))
                   (HilProtocolError (str_msg ''missing key %r in HIL1 object'' k))) REQUIRED_KEYS) (\<lambda>_.
          record_of_obj obj))
      | Inr _ \<Rightarrow> proto_err (text_msg ''HIL1 object must be a JSON object''))"

definition HIL1_PREFIX :: string where
  "HIL1_PREFIX = ''HIL1 ''"

fun parse_hil1_line :: "raw_line \<Rightarrow> hil_record option result" where
  "parse_hil1_line (LBytes b) =
     (if \<not> startswith b HIL1_PREFIX then Inr None
      else if \<not> utf8_valid b then proto_err (text_msg ''HIL1 line is not valid UTF-8'')
      else rbind (parse_hil1_body (drop (length HIL1_PREFIX) b)) (\<lambda>r. Inr (Some r)))"
| "parse_hil1_line (LStr s) =
     (if \<not> startswith s HIL1_PREFIX then Inr None
      else rbind (parse_hil1_body (drop (length HIL1_PREFIX) s)) (\<lambda>r. Inr (Some r)))"
| "parse_hil1_line LOther = proto_err (text_msg ''HIL1 line must be text'')"

section \<open>The run tracker\<close>

record hil_tracker =
  ht_run_id :: string
  ht_command_id :: string
  ht_firmware_id :: "string option"
  ht_segment :: "int option"
  ht_state_index :: int
  ht_last_monotonic :: int
  ht_terminal :: "hil_record option"
  ht_aborted :: bool
  ht_abort_cause :: pyval

definition new_tracker :: "string \<Rightarrow> string \<Rightarrow> hil_tracker" where
  "new_tracker run_id command_id =
     \<lparr>ht_run_id = run_id, ht_command_id = command_id, ht_firmware_id = None, ht_segment = None,
      ht_state_index = -1, ht_last_monotonic = -1, ht_terminal = None, ht_aborted = False,
      ht_abort_cause = PNone\<rparr>"

definition TEARDOWN_INDEX :: int where
  "TEARDOWN_INDEX = int (length STATES) - 1"

text \<open>\<open>xs.index (x)\<close>, which raises \<open>ValueError\<close> when there is none.\<close>

fun list_index :: "string list \<Rightarrow> string \<Rightarrow> nat option" where
  "list_index [] x = None"
| "list_index (y # ys) x = (if y = x then Some 0 else map_option Suc (list_index ys x))"

definition is_abort_record :: "hil_record \<Rightarrow> bool" where
  "is_abort_record r = keys_are (hr_data r) [''state'', ''cause'']"

definition segment_order_err :: "int \<Rightarrow> int \<Rightarrow> exn" where
  "segment_order_err seg cur =
     (if seg < cur then HilProtocolError (text_msg ''segment regression'')
      else HilProtocolError (text_msg ''segment skip''))"

definition validate_abort :: "hil_tracker \<Rightarrow> hil_record \<Rightarrow> (int option \<times> int \<times> bool \<times> pyval) result" where
  "validate_abort t r =
     (case map_of (hr_data r) ''cause'' of
        None \<Rightarrow> Inl (KeyError (PStr ''cause''))
      | Some cause \<Rightarrow>
        (case ht_segment t of
           None \<Rightarrow> proto_err (text_msg ''abort before segment start'')
         | Some seg \<Rightarrow>
           if hr_segment r \<noteq> seg then Inl (segment_order_err (hr_segment r) seg)
           else if ht_state_index t = TEARDOWN_INDEX then proto_err (text_msg ''abort after teardown'')
           else if ht_aborted t then proto_err (text_msg ''repeat abort'')
           else Inr (Some seg, TEARDOWN_INDEX, True, cause)))"

definition state_index_of :: "hil_record \<Rightarrow> int result" where
  "state_index_of r =
     (case map_of (hr_data r) ''state'' of
        None \<Rightarrow> Inl (KeyError (PStr ''state''))
      | Some (PStr s) \<Rightarrow>
        (case list_index STATES s of
           None \<Rightarrow> Inl (ValueError (val_msg ''%r is not in tuple'' (PStr s)))
         | Some i \<Rightarrow> Inr (int i))
      | Some v \<Rightarrow> Inl (ValueError (val_msg ''%r is not in tuple'' v)))"

definition validate_state :: "hil_tracker \<Rightarrow> hil_record \<Rightarrow> (int option \<times> int) result" where
  "validate_state t r =
     rbind (state_index_of r) (\<lambda>index.
       (case ht_segment t of
          None \<Rightarrow>
            if hr_segment r \<noteq> 0 then proto_err (text_msg ''segment must start at 0'')
            else if dict_get (hr_data r) ''state'' \<noteq> PStr ''idle''
            then proto_err (text_msg ''first state must be idle'')
            else Inr (Some 0, index)
        | Some seg \<Rightarrow>
            if hr_segment r = seg then
              (if index = ht_state_index t then proto_err (text_msg ''state repeat'')
               else if index < ht_state_index t then proto_err (text_msg ''state regression'')
               else if index \<noteq> ht_state_index t + 1 then proto_err (text_msg ''state skip'')
               else Inr (Some seg, index))
            else if hr_segment r = seg + 1 then
              (if ht_state_index t \<noteq> TEARDOWN_INDEX
               then proto_err (text_msg ''new segment before previous segment teardown'')
               else if ht_aborted t then proto_err (text_msg ''reconnect after abort'')
               else if dict_get (hr_data r) ''state'' \<noteq> PStr ''connecting''
               then proto_err (text_msg ''new segment must start at connecting'')
               else Inr (Some (hr_segment r), index))
            else Inl (segment_order_err (hr_segment r) seg)))"

definition validate_terminal :: "hil_tracker \<Rightarrow> hil_record \<Rightarrow> unit result" where
  "validate_terminal t r =
     require (\<not> (ht_segment t = None \<or> ht_state_index t \<noteq> TEARDOWN_INDEX))
       (HilProtocolError (text_msg ''terminal before teardown''))"

text \<open>Lines 226--263: run id, firmware id, time, segment contract, command id and the
  post-terminal rule; the result is the proposed firmware id.\<close>

definition accept_guards :: "hil_tracker \<Rightarrow> hil_record \<Rightarrow> string result" where
  "accept_guards t r =
     (let kind = hr_kind r in
      if hr_run_id r \<noteq> ht_run_id t then proto_err (text_msg ''run id mismatch'')
      else if ht_firmware_id t \<noteq> None \<and> ht_firmware_id t \<noteq> Some (hr_firmware_id r)
      then proto_err (text_msg ''firmware id mismatch'')
      else if hr_monotonic_ms r < ht_last_monotonic t
      then proto_err (text_msg ''monotonic time regression'')
      else
        rbind (case ht_segment t of
                 None \<Rightarrow>
                   if kind \<in> {''ack'', ''status''} \<and> hr_segment r \<noteq> 0
                   then proto_err (text_msg ''segment must be 0 before first state'')
                   else if kind = ''terminal'' then proto_err (text_msg ''terminal before teardown'')
                   else Inr ()
               | Some seg \<Rightarrow>
                   if kind \<in> {''ack'', ''status'', ''terminal''} \<and> hr_segment r \<noteq> seg
                   then Inl (segment_order_err (hr_segment r) seg) else Inr ()) (\<lambda>_.
        if kind \<in> {''ack'', ''state'', ''terminal''} \<and> hr_command_id r \<noteq> ht_command_id t
        then proto_err (text_msg ''command id mismatch'')
        else if kind = ''status'' \<and> hr_command_id r = ht_command_id t
        then proto_err (text_msg ''status must use a different command id'')
        else if ht_terminal t \<noteq> None \<and> kind = ''terminal''
        then proto_err (text_msg ''duplicate terminal'')
        else if ht_terminal t \<noteq> None \<and> kind \<in> {''ack'', ''state''}
        then proto_err (text_msg ''post-terminal record'')
        else Inr (hr_firmware_id r)))"

text \<open>Lines 265--278: the proposed segment, state index, aborted flag and abort cause.\<close>

definition accept_proposal :: "hil_tracker \<Rightarrow> hil_record \<Rightarrow> (int option \<times> int \<times> bool \<times> pyval) result" where
  "accept_proposal t r =
     (let unchanged = (ht_segment t, ht_state_index t, ht_aborted t, ht_abort_cause t) in
      if hr_kind r = ''state'' then
        (if is_abort_record r then validate_abort t r
         else rbind (validate_state t r) (\<lambda>(seg, idx). Inr (seg, idx, ht_aborted t, ht_abort_cause t)))
      else if hr_kind r = ''terminal'' then
        rbind (validate_terminal t r) (\<lambda>_.
          if ht_aborted t \<and> py_eq (dict_get (hr_data r) ''verdict'') (PStr ''pass'')
          then proto_err (text_msg ''pass terminal after abort'')
          else Inr unchanged)
      else Inr unchanged)"

text \<open>Lines 280--290: the commit, assignment by assignment.\<close>

definition accept_commit :: "hil_tracker \<Rightarrow> hil_record \<Rightarrow> string \<Rightarrow> int option \<times> int \<times> bool \<times> pyval \<Rightarrow> hil_tracker" where
  "accept_commit t r fw p =
     (case p of (seg, idx, ab, cause) \<Rightarrow>
        let t1 = t\<lparr>ht_firmware_id := Some fw, ht_last_monotonic := hr_monotonic_ms r\<rparr> in
        if hr_kind r = ''state'' then
          (let t2 = t1\<lparr>ht_segment := seg, ht_state_index := idx\<rparr> in
           if is_abort_record r then t2\<lparr>ht_aborted := ab, ht_abort_cause := cause\<rparr> else t2)
        else if hr_kind r = ''terminal'' then t1\<lparr>ht_terminal := Some r\<rparr>
        else t1)"

definition accept :: "hil_tracker \<Rightarrow> hil_record \<Rightarrow> hil_tracker \<times> unit result" where
  "accept t r =
     (case accept_guards t r of
        Inl e \<Rightarrow> (t, Inl e)
      | Inr fw \<Rightarrow>
        (case accept_proposal t r of
           Inl e \<Rightarrow> (t, Inl e)
         | Inr p \<Rightarrow> (accept_commit t r fw p, Inr ())))"

text \<open>A whole run: every record accepted, stopping at the first exception.\<close>

fun accept_all :: "hil_tracker \<Rightarrow> hil_record list \<Rightarrow> hil_tracker \<times> unit result" where
  "accept_all t [] = (t, Inr ())"
| "accept_all t (r # rs) =
     (case accept t r of (t', Inr _) \<Rightarrow> accept_all t' rs | (t', Inl e) \<Rightarrow> (t', Inl e))"

section \<open>Well-formed records\<close>

text \<open>What the parser guarantees of every record it returns.\<close>

definition wf_state_data :: "pydict \<Rightarrow> bool" where
  "wf_state_data d \<longleftrightarrow>
     (keys_are d [''state'', ''cause''] \<and> dict_get d ''state'' = PStr ''teardown'' \<and>
        (\<exists>c \<in> set ABORT_CAUSES. dict_get d ''cause'' = PStr c)) \<or>
     (keys_are d [''state''] \<and> (\<exists>s \<in> set STATES. dict_get d ''state'' = PStr s))"

definition wf_record :: "hil_record \<Rightarrow> bool" where
  "wf_record r \<longleftrightarrow>
     hr_protocol_version r = PROTOCOL_VERSION \<and> hr_kind r \<in> set KINDS \<and>
     hr_firmware_id r \<noteq> [] \<and> hr_command_id r \<noteq> [] \<and> hr_run_id r \<noteq> [] \<and>
     0 \<le> hr_monotonic_ms r \<and> 0 \<le> hr_segment r \<and>
     (hr_kind r = ''state'' \<longrightarrow> wf_state_data (hr_data r)) \<and>
     (hr_kind r = ''terminal'' \<longrightarrow>
        (\<exists>v \<in> set TERMINAL_VERDICTS. dict_get (hr_data r) ''verdict'' = PStr v))"

lemma str_in_iff: "str_in v ns \<longleftrightarrow> (\<exists>s \<in> set ns. v = PStr s)"
  by (simp add: str_in_def)

lemma keys_are_disjoint: "keys_are d [''state''] \<Longrightarrow> \<not> keys_are d [''state'', ''cause'']"
proof
  assume one: "keys_are d [''state'']" and two: "keys_are d [''state'', ''cause'']"
  have eq: "set [''state'', ''cause''] = set [''state'']"
    by (rule trans [OF two [unfolded keys_are_def, symmetric] one [unfolded keys_are_def]])
  have "''cause'' \<in> set [''state'', ''cause'']" by simp
  then have "''cause'' \<in> set [''state'']" unfolding eq .
  then show False by simp
qed

lemma check_data_Inr:
  "check_data kind d = Inr u \<longleftrightarrow>
     (kind = ''state'' \<longrightarrow> wf_state_data d) \<and>
     (kind = ''terminal'' \<longrightarrow> (\<exists>v \<in> set TERMINAL_VERDICTS. dict_get d ''verdict'' = PStr v))"
proof (cases "kind = ''state''")
  case True
  have "check_data ''state'' d = Inr u \<longleftrightarrow> wf_state_data d"
    using keys_are_disjoint [of d]
    by (cases "keys_are d [''state'', ''cause'']"; cases "keys_are d [''state'']")
       (auto simp: check_data_def wf_state_data_def str_in_iff)
  with True show ?thesis by simp
next
  case False
  then show ?thesis by (simp add: check_data_def str_in_iff)
qed

lemma isinstance_conv:
  "isinstance_str v \<longleftrightarrow> (\<exists>s. v = PStr s)" "isinstance_dict v \<longleftrightarrow> (\<exists>d. v = PDict d)"
  "isinstance_list v \<longleftrightarrow> (\<exists>l. v = PList l)" "isinstance_bool v \<longleftrightarrow> (\<exists>b. v = PBool b)"
  by (cases v; simp)+

lemma is_int_iff: "is_int v \<longleftrightarrow> (\<exists>i. v = PInt i)"
  by (cases v) auto

declare is_int.simps [simp del]

lemma record_of_obj_wf: "record_of_obj obj = Inr r \<Longrightarrow> wf_record r"
  by (auto simp: record_of_obj_def wf_record_def Let_def check_data_Inr str_in_iff is_int_iff
      isinstance_conv split: if_splits)

lemma parse_hil1_body_wf: "parse_hil1_body b = Inr r \<Longrightarrow> wf_record r"
  by (auto simp: parse_hil1_body_def record_of_obj_wf split: if_splits sum.splits exn.splits pyval.splits)

lemma parse_hil1_line_wf: "parse_hil1_line l = Inr (Some r) \<Longrightarrow> wf_record r"
  by (cases l) (auto simp: parse_hil1_body_wf split: if_splits)

section \<open>One accepted record\<close>

lemma accept_Inr:
  "accept t r = (t', Inr u) \<longleftrightarrow>
     (\<exists>fw p. accept_guards t r = Inr fw \<and> accept_proposal t r = Inr p \<and> t' = accept_commit t r fw p)"
  by (auto simp: accept_def split: sum.splits)

lemma accept_Inl_unchanged: "accept t r = (t', Inl e) \<Longrightarrow> t' = t"
  by (auto simp: accept_def split: sum.splits)

text \<open>The contract of a machine that folds records one by one and refuses a record without
  changing its state: what its clients may conclude about a whole sequence.\<close>

locale atomic_acceptor =
  fixes step :: "'s \<Rightarrow> 'r \<Rightarrow> 's \<times> unit result"
    and run :: "'s \<Rightarrow> 'r list \<Rightarrow> 's \<times> unit result"
  assumes step_atomic: "step s r = (s', Inl e) \<Longrightarrow> s' = s"
    and run_Nil: "run s [] = (s, Inr ())"
    and run_Cons: "run s (r # rs) =
      (case step s r of (s', Inr _) \<Rightarrow> run s' rs | (s', Inl e) \<Rightarrow> (s', Inl e))"
begin

lemma run_append:
  "run s (rs @ qs) = (case run s rs of (s', Inr _) \<Rightarrow> run s' qs | (s', Inl e) \<Rightarrow> (s', Inl e))"
  by (induction rs arbitrary: s) (auto simp: run_Nil run_Cons split: prod.splits sum.splits)

lemma run_snoc:
  "run s (rs @ [r]) = (s', Inr u) \<longleftrightarrow> (\<exists>s1. run s rs = (s1, Inr ()) \<and> step s1 r = (s', Inr ()))"
  by (auto simp: run_append run_Nil run_Cons split: prod.splits sum.splits)

lemma run_induct:
  assumes "run s rs = (s', Inr u)" and "P [] s"
    and "\<And>rs s1 r s2. set (rs @ [r]) \<subseteq> set all \<Longrightarrow> P rs s1 \<Longrightarrow> run s rs = (s1, Inr ()) \<Longrightarrow>
           step s1 r = (s2, Inr ()) \<Longrightarrow> P (rs @ [r]) s2"
    and "set rs \<subseteq> set all"
  shows "P rs s'"
  using assms(1,4)
proof (induction rs arbitrary: s' u rule: rev_induct)
  case Nil
  then show ?case using assms(2) by (simp add: run_Nil)
next
  case (snoc r rs)
  then obtain s1 where "run s rs = (s1, Inr ())" "step s1 r = (s', Inr ())" by (auto simp: run_snoc)
  with snoc assms(3) [of rs r s1 s'] show ?case by auto
qed

text \<open>A run that fails has committed exactly the records before the refused one.\<close>

lemma run_error:
  assumes "run s rs = (s', Inl e)"
  shows "\<exists>ps r qs. rs = ps @ r # qs \<and> run s ps = (s', Inr ()) \<and> step s' r = (s', Inl e)"
  using assms
proof (induction rs arbitrary: s)
  case Nil
  then show ?case by (simp add: run_Nil)
next
  case (Cons r rs)
  show ?case
  proof (cases "step s r")
    case (Pair s1 x)
    show ?thesis
    proof (cases x)
      case (Inl e')
      with Pair Cons.prems step_atomic [of s r s1 e'] show ?thesis
        by (intro exI [of _ "[]"] exI [of _ r] exI [of _ rs]) (simp add: run_Nil run_Cons)
    next
      case (Inr u)
      with Pair Cons.prems have "run s1 rs = (s', Inl e)" by (simp add: run_Cons)
      from Cons.IH [OF this] obtain ps q qs where "rs = ps @ q # qs" "run s1 ps = (s', Inr ())"
        "step s' q = (s', Inl e)" by blast
      with Pair Inr show ?thesis
        by (intro exI [of _ "r # ps"] exI [of _ q] exI [of _ qs]) (simp add: run_Cons)
    qed
  qed
qed

end

interpretation trk: atomic_acceptor accept accept_all
  by unfold_locales (auto dest: accept_Inl_unchanged)

text \<open>The position of a state record: its segment and the index of its state.\<close>

definition state_entry :: "hil_record \<Rightarrow> int \<times> int" where
  "state_entry r = (hr_segment r, case state_index_of r of Inr i \<Rightarrow> i | Inl _ \<Rightarrow> -1)"

definition state_entries :: "hil_record list \<Rightarrow> (int \<times> int) list" where
  "state_entries rs = map state_entry (filter (\<lambda>r. hr_kind r = ''state'') rs)"

text \<open>The life cycle the protocol prescribes: the first segment runs through all nine states,
  every later segment starts again at \<open>connecting\<close>.\<close>

definition lifecycle_step :: "nat \<Rightarrow> int \<times> int" where
  "lifecycle_step k =
     (if k < 9 then (0, int k) else (1 + int ((k - 9) div 7), 2 + int ((k - 9) mod 7)))"

lemma lifecycle_step_0 [simp]: "lifecycle_step 0 = (0, 0)"
  by (simp add: lifecycle_step_def)

lemma lifecycle_step_index: "0 \<le> snd (lifecycle_step k) \<and> snd (lifecycle_step k) \<le> 8"
  by (simp add: lifecycle_step_def) presburger

lemma lifecycle_step_segment: "0 \<le> fst (lifecycle_step k)"
  by (simp add: lifecycle_step_def)

lemma lifecycle_step_Suc:
  "lifecycle_step (Suc k) =
     (if snd (lifecycle_step k) = 8 then (fst (lifecycle_step k) + 1, 2)
      else (fst (lifecycle_step k), snd (lifecycle_step k) + 1))"
proof -
  consider "k < 8" | "k = 8" | "9 \<le> k" by linarith
  then show ?thesis
  proof cases
    case 3
    then obtain m where "k = 9 + m" by (auto simp: le_iff_add)
    then have "lifecycle_step k = (1 + int (m div 7), 2 + int (m mod 7))"
      and "lifecycle_step (Suc k) = (1 + int (Suc m div 7), 2 + int (Suc m mod 7))"
      by (simp_all add: lifecycle_step_def)
    then show ?thesis by (simp add: div_Suc mod_Suc)
  qed (simp_all add: lifecycle_step_def)
qed

lemma TEARDOWN_INDEX_8: "TEARDOWN_INDEX = 8"
  by (simp add: TEARDOWN_INDEX_def STATES_def)

lemma dict_get_PStr: "dict_get d k = PStr s \<longleftrightarrow> map_of d k = Some (PStr s)"
  by (auto simp: dict_get_def split: option.splits)

lemma list_index_Some:
  "x \<in> set xs \<Longrightarrow> \<exists>i < length xs. list_index xs x = Some i \<and> xs ! i = x"
  by (induction xs) (force simp: nth_Cons')+

lemma state_index_wf:
  assumes "wf_state_data (hr_data r)"
  shows "\<exists>i. state_index_of r = Inr i \<and> 0 \<le> i \<and> i \<le> 8 \<and>
           dict_get (hr_data r) ''state'' = PStr (STATES ! nat i)"
proof -
  from assms obtain s where s: "s \<in> set STATES" "dict_get (hr_data r) ''state'' = PStr s"
    by (auto simp: wf_state_data_def STATES_def)
  from list_index_Some [OF s(1)] obtain i where "i < length STATES" "list_index STATES s = Some i" "STATES ! i = s"
    by blast
  with s(2) show ?thesis
    by (intro exI [of _ "int i"]) (auto simp: state_index_of_def dict_get_PStr STATES_def)
qed

lemma STATES_nth_conv:
  assumes "0 \<le> i" and "i \<le> (8 :: int)"
  shows "STATES ! nat i = ''idle'' \<longleftrightarrow> i = 0" and "STATES ! nat i = ''connecting'' \<longleftrightarrow> i = 2"
    and "STATES ! nat i = ''teardown'' \<longleftrightarrow> i = 8"
proof -
  from assms have "i = 0 \<or> i = 1 \<or> i = 2 \<or> i = 3 \<or> i = 4 \<or> i = 5 \<or> i = 6 \<or> i = 7 \<or> i = 8" by linarith
  then show "STATES ! nat i = ''idle'' \<longleftrightarrow> i = 0" and "STATES ! nat i = ''connecting'' \<longleftrightarrow> i = 2"
    and "STATES ! nat i = ''teardown'' \<longleftrightarrow> i = 8"
    by (auto simp: STATES_def)
qed

lemma abort_entry:
  assumes "wf_state_data (hr_data r)" and "is_abort_record r"
  shows "state_index_of r = Inr 8"
proof -
  from assms have "dict_get (hr_data r) ''state'' = PStr ''teardown''"
    using keys_are_disjoint [of "hr_data r"] by (auto simp: wf_state_data_def is_abort_record_def)
  with state_index_wf [OF assms(1)] obtain i where
    "state_index_of r = Inr i" "0 \<le> i" "i \<le> 8" "STATES ! nat i = ''teardown''" by auto
  with STATES_nth_conv(3) [of i] show ?thesis by simp
qed

lemma validate_abort_Inr:
  "validate_abort t r = Inr (seg', idx', ab, c) \<longleftrightarrow>
     map_of (hr_data r) ''cause'' = Some c \<and> ht_segment t = Some (hr_segment r) \<and>
     ht_state_index t \<noteq> 8 \<and> \<not> ht_aborted t \<and> seg' = ht_segment t \<and> idx' = 8 \<and> ab"
  by (auto simp: validate_abort_def TEARDOWN_INDEX_8 split: option.splits if_splits)

text \<open>The three ways an ordinary state record may be accepted.\<close>

lemma validate_state_Inr:
  assumes "validate_state t r = Inr (seg', idx')" and "wf_state_data (hr_data r)"
  shows "state_index_of r = Inr idx' \<and> seg' = Some (hr_segment r) \<and>
    (ht_segment t = None \<and> hr_segment r = 0 \<and> idx' = 0 \<or>
     ht_segment t = Some (hr_segment r) \<and> idx' = ht_state_index t + 1 \<or>
     ht_segment t = Some (hr_segment r - 1) \<and> ht_state_index t = 8 \<and> \<not> ht_aborted t \<and> idx' = 2)"
proof -
  from state_index_wf [OF assms(2)] obtain i where i: "state_index_of r = Inr i" "0 \<le> i" "i \<le> 8"
    "dict_get (hr_data r) ''state'' = PStr (STATES ! nat i)" by blast
  show ?thesis
    using assms(1) i STATES_nth_conv [OF i(2,3)]
    by (auto simp: validate_state_def TEARDOWN_INDEX_8 split: option.splits if_splits)
qed

section \<open>The life cycle of a run\<close>

text \<open>How a tracker stands to the state records it has accepted.\<close>

definition tracks :: "hil_tracker \<Rightarrow> (int \<times> int) list \<Rightarrow> bool" where
  "tracks t xs \<longleftrightarrow>
     (case ht_segment t of
        None \<Rightarrow> xs = [] \<and> ht_state_index t = -1 \<and> \<not> ht_aborted t \<and> ht_terminal t = None
      | Some seg \<Rightarrow>
        if ht_aborted t then
          ht_state_index t = 8 \<and>
          (\<exists>n. xs = map lifecycle_step [0..<Suc n] @ [(seg, 8)] \<and> seg = fst (lifecycle_step n) \<and>
               snd (lifecycle_step n) \<noteq> 8)
        else (\<exists>n. xs = map lifecycle_step [0..<Suc n] \<and> lifecycle_step n = (seg, ht_state_index t))) \<and>
     (\<forall>m. ht_terminal t = Some m \<longrightarrow>
        ht_state_index t = 8 \<and> (ht_aborted t \<longrightarrow> dict_get (hr_data m) ''verdict'' \<noteq> PStr ''pass''))"

lemma tracks_new: "tracks (new_tracker run_id cmd) []"
  by (simp add: tracks_def new_tracker_def)

lemma tracks_live:
  assumes "lifecycle_step n = (seg, ht_state_index t)" and "ht_segment t = Some seg"
    and "\<not> ht_aborted t" and "ht_terminal t = None"
  shows "tracks t (map lifecycle_step [0..<Suc n])"
  unfolding tracks_def using assms by (simp del: upt_Suc) blast

lemma tracks_aborted:
  assumes "seg = fst (lifecycle_step n)" and "snd (lifecycle_step n) \<noteq> 8"
    and "ht_segment t = Some seg" and "ht_state_index t = 8" and "ht_aborted t" and "ht_terminal t = None"
  shows "tracks t (map lifecycle_step [0..<Suc n] @ [(seg, 8)])"
  unfolding tracks_def using assms by (simp del: upt_Suc) blast

lemma tracks_index_range: "tracks t xs \<Longrightarrow> -1 \<le> ht_state_index t \<and> ht_state_index t \<le> 8"
  using lifecycle_step_index
  by (auto simp: tracks_def split: option.splits if_splits) (metis snd_conv order_trans zero_le_numeral
    dual_order.trans neg_le_0_iff_le zero_le_one)+

lemma guards_state_terminal:
  "accept_guards t r = Inr fw \<Longrightarrow> hr_kind r = ''state'' \<Longrightarrow> ht_terminal t = None"
  by (auto simp: accept_guards_def Let_def split: if_splits option.splits)

lemma tracks_state:
  assumes "tracks t xs" and "ht_terminal t = None" and "wf_state_data (hr_data r)"
    and "\<not> is_abort_record r" and "validate_state t r = Inr (seg', idx')"
    and "ht_segment t' = seg'" "ht_state_index t' = idx'" "ht_aborted t' = ht_aborted t"
      "ht_terminal t' = None"
  shows "tracks t' (xs @ [state_entry r])"
proof -
  note v = validate_state_Inr [OF assms(5,3)]
  from state_index_wf [OF assms(3)] v have idx': "idx' \<le> 8" by auto
  have e: "state_entry r = (hr_segment r, idx')" using v by (simp add: state_entry_def)
  consider "ht_segment t = None" "hr_segment r = 0" "idx' = 0"
    | "ht_segment t = Some (hr_segment r)" "idx' = ht_state_index t + 1"
    | "ht_segment t = Some (hr_segment r - 1)" "ht_state_index t = 8" "\<not> ht_aborted t" "idx' = 2"
    using v by metis
  then show ?thesis
  proof cases
    case 1
    have "xs = []" using assms(1) 1 by (simp add: tracks_def)
    moreover have "tracks t' (map lifecycle_step [0..<Suc 0])"
      using 1 v assms by (intro tracks_live [where seg = 0]) (auto simp: tracks_def)
    ultimately show ?thesis using e 1 by simp
  next
    case 2
    with assms(1) idx' obtain n where n: "\<not> ht_aborted t" "xs = map lifecycle_step [0..<Suc n]"
      "lifecycle_step n = (hr_segment r, ht_state_index t)"
      by (auto simp: tracks_def split: if_splits)
    with 2 idx' have s: "lifecycle_step (Suc n) = (hr_segment r, idx')"
      by (simp add: lifecycle_step_Suc)
    from s n(1) assms(6-9) v have "tracks t' (map lifecycle_step [0..<Suc (Suc n)])"
      by (intro tracks_live [where seg = "hr_segment r"]) auto
    with n(2) s e show ?thesis by simp
  next
    case 3
    with assms(1) obtain n where "xs = map lifecycle_step [0..<Suc n]"
      "lifecycle_step n = (hr_segment r - 1, 8)"
      by (auto simp: tracks_def)
    moreover from this 3 have "lifecycle_step (Suc n) = (hr_segment r, idx')"
      by (simp add: lifecycle_step_Suc)
    moreover from this assms(6-9) v 3(3) have "tracks t' (map lifecycle_step [0..<Suc (Suc n)])"
      by (intro tracks_live [where seg = "hr_segment r"]) auto
    ultimately show ?thesis using e by simp
  qed
qed

lemma tracks_abort:
  assumes "tracks t xs" and "ht_terminal t = None" and "wf_state_data (hr_data r)"
    and "is_abort_record r" and "validate_abort t r = Inr (seg', idx', ab, c)"
    and "ht_segment t' = seg'" "ht_state_index t' = idx'" "ht_aborted t' = ab" "ht_terminal t' = None"
  shows "tracks t' (xs @ [state_entry r])"
proof -
  from assms(5) have v: "ht_segment t = Some (hr_segment r)" "ht_state_index t \<noteq> 8" "\<not> ht_aborted t"
    "seg' = ht_segment t" "idx' = 8" ab by (auto simp: validate_abort_Inr)
  with assms(1) obtain n where "xs = map lifecycle_step [0..<Suc n]"
    "lifecycle_step n = (hr_segment r, ht_state_index t)"
    by (auto simp: tracks_def)
  moreover have "state_entry r = (hr_segment r, 8)"
    using abort_entry [OF assms(3,4)] by (simp add: state_entry_def)
  moreover have "tracks t' (map lifecycle_step [0..<Suc n] @ [(hr_segment r, 8)])"
    using calculation assms(6-9) v by (intro tracks_aborted) auto
  ultimately show ?thesis by simp
qed

lemma tracks_other:
  assumes "tracks t xs" and "ht_segment t' = ht_segment t" "ht_state_index t' = ht_state_index t"
    "ht_aborted t' = ht_aborted t" "ht_terminal t' = ht_terminal t"
  shows "tracks t' xs"
  using assms by (cases "ht_segment t"; cases "ht_aborted t") (simp_all add: tracks_def)

lemma tracks_terminal:
  assumes "tracks t xs" and "ht_segment t \<noteq> None" and "ht_state_index t = 8"
    and "ht_aborted t \<Longrightarrow> dict_get (hr_data r) ''verdict'' \<noteq> PStr ''pass''"
    and "ht_segment t' = ht_segment t" "ht_state_index t' = ht_state_index t"
      "ht_aborted t' = ht_aborted t" "ht_terminal t' = Some r"
  shows "tracks t' xs"
  using assms by (cases "ht_segment t"; cases "ht_aborted t") (simp_all add: tracks_def)

lemma accept_tracks:
  assumes t: "tracks t xs" and wf: "wf_record r" and a: "accept t r = (t', Inr ())"
  shows "tracks t' (if hr_kind r = ''state'' then xs @ [state_entry r] else xs)"
proof -
  from a obtain fw p where g: "accept_guards t r = Inr fw" and p: "accept_proposal t r = Inr p"
    and t': "t' = accept_commit t r fw p" by (auto simp: accept_Inr)
  obtain seg idx ab c where pp: "p = (seg, idx, ab, c)" by (cases p)
  consider (st) "hr_kind r = ''state''" "\<not> is_abort_record r" | (abort) "hr_kind r = ''state''" "is_abort_record r"
    | (tm) "hr_kind r = ''terminal''" | (ot) "hr_kind r \<noteq> ''state''" "hr_kind r \<noteq> ''terminal''" by blast
  then show ?thesis
  proof cases
    case st
    have "ht_terminal t = None" using guards_state_terminal [OF g st(1)] .
    moreover from st p pp have "validate_state t r = Inr (seg, idx)"
      by (auto simp: accept_proposal_def Let_def)
    moreover from st wf have "wf_state_data (hr_data r)" by (simp add: wf_record_def)
    ultimately have "tracks t' (xs @ [state_entry r])"
      using st by (intro tracks_state [OF t]) (simp_all add: t' pp accept_commit_def Let_def)
    with st show ?thesis by simp
  next
    case abort
    have "ht_terminal t = None" using guards_state_terminal [OF g abort(1)] .
    moreover from abort p pp have "validate_abort t r = Inr (seg, idx, ab, c)"
      by (simp add: accept_proposal_def Let_def)
    moreover from abort wf have "wf_state_data (hr_data r)" by (simp add: wf_record_def)
    ultimately have "tracks t' (xs @ [state_entry r])"
      using abort by (intro tracks_abort [OF t]) (simp_all add: t' pp accept_commit_def Let_def)
    with abort show ?thesis by simp
  next
    case tm
    with p have "ht_segment t \<noteq> None" "ht_state_index t = 8"
      "ht_aborted t \<Longrightarrow> dict_get (hr_data r) ''verdict'' \<noteq> PStr ''pass''"
      by (auto simp: accept_proposal_def validate_terminal_def TEARDOWN_INDEX_8 Let_def split: if_splits)
    with tm have "tracks t' xs"
      by (intro tracks_terminal [OF t]) (simp_all add: t' pp accept_commit_def Let_def)
    with tm show ?thesis by simp
  next
    case ot
    then have "tracks t' xs"
      by (intro tracks_other [OF t]) (simp_all add: t' pp accept_commit_def Let_def)
    with ot show ?thesis by simp
  qed
qed

lemma accept_all_tracks:
  assumes "\<forall>r \<in> set rs. wf_record r" and "accept_all (new_tracker run_id cmd) rs = (t, Inr u)"
  shows "tracks t (state_entries rs)"
  by (rule trk.run_induct [OF assms(2), where P = "\<lambda>rs t. tracks t (state_entries rs)" and all = rs])
     (use assms(1) tracks_new accept_tracks in \<open>fastforce simp: state_entries_def\<close>)+

section \<open>What an accepted record tells\<close>

lemma accept_guards_Inr:
  assumes "accept_guards t r = Inr fw"
  shows "hr_run_id r = ht_run_id t" and "fw = hr_firmware_id r"
    and "ht_firmware_id t = None \<or> ht_firmware_id t = Some (hr_firmware_id r)"
    and "ht_last_monotonic t \<le> hr_monotonic_ms r"
    and "hr_kind r \<in> {''ack'', ''state'', ''terminal''} \<Longrightarrow>
           hr_command_id r = ht_command_id t \<and> ht_terminal t = None"
    and "hr_kind r = ''status'' \<Longrightarrow> hr_command_id r \<noteq> ht_command_id t"
  using assms by (auto simp: accept_guards_def Let_def split: if_splits option.splits)

lemma accept_commit_fields:
  "ht_run_id (accept_commit t r fw p) = ht_run_id t"
  "ht_command_id (accept_commit t r fw p) = ht_command_id t"
  "ht_firmware_id (accept_commit t r fw p) = Some fw"
  "ht_last_monotonic (accept_commit t r fw p) = hr_monotonic_ms r"
  "ht_terminal (accept_commit t r fw p) = (if hr_kind r = ''terminal'' then Some r else ht_terminal t)"
  by (auto simp: accept_commit_def Let_def split: prod.splits)

text \<open>The identifiers and the time of the records accepted so far.\<close>

definition attributed :: "string \<Rightarrow> string \<Rightarrow> hil_record list \<Rightarrow> hil_tracker \<Rightarrow> bool" where
  "attributed run_id cmd rs t \<longleftrightarrow>
     ht_run_id t = run_id \<and> ht_command_id t = cmd \<and> sorted (map hr_monotonic_ms rs) \<and>
     (\<forall>r \<in> set rs. hr_run_id r = run_id \<and> ht_firmware_id t = Some (hr_firmware_id r) \<and>
        hr_monotonic_ms r \<le> ht_last_monotonic t \<and> (hr_command_id r = cmd \<longleftrightarrow> hr_kind r \<noteq> ''status'')) \<and>
     filter (\<lambda>r. hr_kind r = ''terminal'') rs = (case ht_terminal t of None \<Rightarrow> [] | Some m \<Rightarrow> [m])"

lemma accept_attributed:
  assumes "attributed run_id cmd rs t" and "wf_record r" and "accept t r = (t', Inr ())"
  shows "attributed run_id cmd (rs @ [r]) t'"
proof -
  from assms(3) obtain fw p where g: "accept_guards t r = Inr fw" and t': "t' = accept_commit t r fw p"
    by (auto simp: accept_Inr)
  from assms(2) have k: "hr_kind r \<in> {''ack'', ''state'', ''terminal''} \<or> hr_kind r = ''status''"
    by (auto simp: wf_record_def KINDS_def)
  note G = accept_guards_Inr [OF g]
  have mono: "hr_monotonic_ms x \<le> hr_monotonic_ms r" if "x \<in> set rs" for x
    using assms(1) that G(4) by (force simp: attributed_def)
  have fw: "Some (hr_firmware_id x) = Some fw" if "x \<in> set rs" for x
    using assms(1) that G(2,3) by (auto simp: attributed_def)
  have cmd: "hr_command_id r = cmd \<longleftrightarrow> hr_kind r \<noteq> ''status''"
    using k G(5,6) assms(1) by (auto simp: attributed_def)
  have single: "ht_terminal t = None" if "hr_kind r = ''terminal''" using G(5) that by simp
  show ?thesis
    using assms(1) mono fw cmd single G(1,2) unfolding attributed_def t' accept_commit_fields
    by (auto simp: sorted_append)
qed

lemma accept_all_attributed:
  assumes "\<forall>r \<in> set rs. wf_record r" and "accept_all (new_tracker run_id cmd) rs = (t, Inr u)"
  shows "attributed run_id cmd rs t"
proof (rule trk.run_induct [OF assms(2), where P = "attributed run_id cmd" and all = rs])
  show "attributed run_id cmd [] (new_tracker run_id cmd)"
    by (simp add: attributed_def new_tracker_def)
qed (use assms(1) accept_attributed in auto)

text \<open>A status record leaves the whole life cycle as it is.\<close>

definition lifecycle_of :: "hil_tracker \<Rightarrow> int option \<times> int \<times> bool \<times> pyval \<times> hil_record option" where
  "lifecycle_of t = (ht_segment t, ht_state_index t, ht_aborted t, ht_abort_cause t, ht_terminal t)"

lemma accept_status_lifecycle:
  "accept t r = (t', Inr u) \<Longrightarrow> hr_kind r \<notin> {''state'', ''terminal''} \<Longrightarrow> lifecycle_of t' = lifecycle_of t"
  by (auto simp: accept_Inr lifecycle_of_def accept_commit_def Let_def split: prod.splits)

text \<open>Whether a record is accepted, and what it does to the life cycle, depends on the life
  cycle, the identifiers and the time only.\<close>

lemma accept_cong:
  assumes "accept t r = (t', Inr u)" and "lifecycle_of s = lifecycle_of t"
    and "ht_run_id s = ht_run_id t" "ht_command_id s = ht_command_id t"
    and "ht_firmware_id s \<in> {None, ht_firmware_id t}" and "ht_last_monotonic s \<le> ht_last_monotonic t"
  shows "\<exists>s'. accept s r = (s', Inr ()) \<and> lifecycle_of s' = lifecycle_of t' \<and>
    ht_run_id s' = ht_run_id t' \<and> ht_command_id s' = ht_command_id t' \<and>
    ht_firmware_id s' = ht_firmware_id t' \<and> ht_last_monotonic s' = ht_last_monotonic t'"
proof -
  from assms(1) obtain fw p where g: "accept_guards t r = Inr fw" and p: "accept_proposal t r = Inr p"
    and t': "t' = accept_commit t r fw p" by (auto simp: accept_Inr)
  from assms(2) have L: "ht_segment s = ht_segment t" "ht_state_index s = ht_state_index t"
    "ht_aborted s = ht_aborted t" "ht_abort_cause s = ht_abort_cause t" "ht_terminal s = ht_terminal t"
    by (simp_all add: lifecycle_of_def)
  note G = accept_guards_Inr [OF g]
  have "accept_guards s r = accept_guards t r"
    using G(1,3,4) assms(3-6) unfolding accept_guards_def Let_def L
    by (intro if_cong refl) auto
  with g have "accept_guards s r = Inr fw" by simp
  moreover have "accept_proposal s r = Inr p"
    using p unfolding accept_proposal_def validate_abort_def validate_state_def validate_terminal_def L .
  moreover have "lifecycle_of (accept_commit s r fw p) = lifecycle_of (accept_commit t r fw p)"
    using L by (simp add: lifecycle_of_def accept_commit_def Let_def split: prod.splits)
  ultimately show ?thesis
    using t' assms(3,4) by (auto simp: accept_Inr accept_commit_fields)
qed

section \<open>Writing a record\<close>

text \<open>The object the source firmware writes for a record, in any key order.\<close>

definition record_dict :: "hil_record \<Rightarrow> pydict" where
  "record_dict r =
     [(''protocol_version'', PInt (hr_protocol_version r)), (''kind'', PStr (hr_kind r)),
      (''firmware_id'', PStr (hr_firmware_id r)), (''monotonic_ms'', PInt (hr_monotonic_ms r)),
      (''command_id'', PStr (hr_command_id r)), (''run_id'', PStr (hr_run_id r)),
      (''segment'', PInt (hr_segment r)), (''data'', PDict (hr_data r))]"

definition hil1_line :: "string \<Rightarrow> string \<Rightarrow> pydict \<Rightarrow> string" where
  "hil1_line isep ksep d = HIL1_PREFIX @ json_dumps (\<lambda>_. []) isep ksep (PDict d)"

lemma record_dict_keys: "dict_keys (record_dict r) = REQUIRED_KEYS"
  by (simp add: dict_keys_def record_dict_def REQUIRED_KEYS_def)

lemma record_of_obj_record_dict:
  assumes "wf_record r" and "map_of d = map_of (record_dict r)"
  shows "record_of_obj d = Inr r"
proof -
  have get: "dict_get d ''protocol_version'' = PInt (hr_protocol_version r)"
    "dict_get d ''kind'' = PStr (hr_kind r)" "dict_get d ''firmware_id'' = PStr (hr_firmware_id r)"
    "dict_get d ''monotonic_ms'' = PInt (hr_monotonic_ms r)"
    "dict_get d ''command_id'' = PStr (hr_command_id r)" "dict_get d ''run_id'' = PStr (hr_run_id r)"
    "dict_get d ''segment'' = PInt (hr_segment r)" "dict_get d ''data'' = PDict (hr_data r)"
    by (simp_all add: dict_get_def assms(2) record_dict_def)
  have "check_data (hr_kind r) (hr_data r) = Inr ()"
    using assms(1) by (simp add: check_data_Inr wf_record_def)
  with assms(1) show ?thesis
    unfolding record_of_obj_def Let_def get
    by (simp add: wf_record_def str_in_iff is_int.simps)
qed

lemma reject_duplicate_keys_distinct: "distinct (dict_keys d) \<Longrightarrow> reject_duplicate_keys d = Inr d"
  using reject_dup_loop_distinct [of "[]" d] by (simp add: reject_duplicate_keys_def dict_keys_def)

lemma strip_dumps_dict: "strip (json_dumps fr isep ksep (PDict d)) \<noteq> []"
proof -
  have "strip (''{'' @ x @ ''}'') = ''{'' @ x @ ''}''" for x
    by (rule strip_visible) (simp_all add: visible_def)
  then show ?thesis by simp
qed

lemma parse_record_dict:
  assumes wf: "wf_record r" and d: "distinct (dict_keys d)" "set d = set (record_dict r)"
    and plain: "plain_json (PDict d)" and sep: "separators isep ksep"
  shows "parse_hil1_line (LStr (hil1_line isep ksep d)) = Inr (Some r)"
proof -
  let ?body = "json_dumps (\<lambda>_. []) isep ksep (PDict d)"
  have loads: "json_loads reject_duplicate_keys ?body = Inr (PDict d)"
    using plain sep reject_duplicate_keys_distinct by (rule json_loads_dumps)
  have keys: "set (dict_keys d) = set REQUIRED_KEYS"
    unfolding record_dict_keys [of r, symmetric] using d(2) by (simp add: dict_keys_def)
  have "distinct (dict_keys (record_dict r))" unfolding record_dict_keys by (simp add: REQUIRED_KEYS_def)
  then have "map_of d = map_of (record_dict r)"
    using d by (simp add: dict_keys_def map_of_inject_set)
  from record_of_obj_record_dict [OF wf this] have "parse_hil1_body ?body = Inr r"
    using keys by (simp add: parse_hil1_body_def strip_dumps_dict loads del: json_dumps.simps)
  moreover have "startswith (hil1_line isep ksep d) HIL1_PREFIX"
    and "drop (length HIL1_PREFIX) (hil1_line isep ksep d) = ?body"
    by (simp_all add: hil1_line_def startswith_iff)
  ultimately show ?thesis by simp
qed

section \<open>Properties of the parser\<close>

lemma reject_duplicate_keys_error:
  "reject_duplicate_keys ps = Inl e \<Longrightarrow> \<exists>k. e = DuplicateKeyError k"
  by (auto simp: reject_duplicate_keys_def dest: reject_dup_loop_error)

lemma check_data_error: "check_data kind d = Inl e \<Longrightarrow> \<exists>m. e = HilProtocolError m"
  by (auto simp: check_data_def split: if_splits)

lemma record_of_obj_error: "record_of_obj obj = Inl e \<Longrightarrow> \<exists>m. e = HilProtocolError m"
  by (auto simp: record_of_obj_def Let_def split: if_splits dest: check_data_error)

lemma rall_require_error:
  "rall (\<lambda>k. require (P k) (HilProtocolError (m k))) ks = Inl e \<Longrightarrow> \<exists>m'. e = HilProtocolError m'"
  by (induction ks) auto

lemma parse_hil1_body_error:
  assumes "parse_hil1_body b = Inl e"
  shows "(\<exists>m. e = HilProtocolError m) \<or>
         (\<exists>m. e = ValueError m \<and> json_loads reject_duplicate_keys b = Inl e)"
proof (cases "json_loads reject_duplicate_keys b")
  case (Inl x)
  have "x = JSONDecodeError \<or> (\<exists>k. x = DuplicateKeyError k) \<or> (\<exists>m. x = ValueError m)"
    by (rule json_loads_error [OF _ _ _ Inl]) (auto dest: reject_duplicate_keys_error)
  with Inl assms show ?thesis by (auto simp: parse_hil1_body_def split: if_splits)
next
  case (Inr v)
  with assms show ?thesis
    by (auto simp: parse_hil1_body_def split: if_splits pyval.splits
        dest!: record_of_obj_error rall_require_error)
qed

lemma json_loads_huge_int:
  assumes "max_int_digits < k"
  shows "\<exists>m. json_loads hook (replicate k CHR ''1'') = Inl (ValueError m)"
proof -
  from assms obtain j where k: "k = Suc j" by (cases k) auto
  have "take_digits (replicate j CHR ''1'') = (replicate j CHR ''1'', [])" for j
    by (induction j) (simp_all add: is_digit_def byte_in_def)
  with assms k show ?thesis
    by (simp add: json_loads_with_def skip_ws_def json_space_def json_steps scan_atom_def scan_number_def
        scan_int_def scan_frac_def scan_exp_def is_digit_def byte_in_def)
qed

definition example_record :: hil_record where
  "example_record =
     \<lparr>hr_protocol_version = 1, hr_kind = ''state'', hr_firmware_id = ''fw'', hr_monotonic_ms = 12,
      hr_command_id = ''c0'', hr_run_id = ''r'', hr_segment = 0, hr_data = [(''state'', PStr ''idle'')]\<rparr>"

lemma example_record_wf: "wf_record example_record"
  by (simp add: example_record_def wf_record_def wf_state_data_def protocol_constants keys_are_def
      dict_keys_def dict_get_def)

lemma example_separators: "separators '','' '':''"
  by (simp add: separators_def)

lemma example_record_plain: "plain_json (PDict (record_dict example_record))"
  by code_simp

lemma example_record_parses:
  "parse_hil1_line (LStr (hil1_line '','' '':'' (record_dict example_record))) = Inr (Some example_record)"
  using example_record_wf _ refl example_record_plain example_separators
  by (rule parse_record_dict) (simp add: record_dict_keys REQUIRED_KEYS_def)

text \<open>every record that \<open>parse_hil1_line\<close> returns is well formed: protocol version 1, a known
  kind, nonempty firmware, command and run identifiers, nonnegative integer time and segment, and
  for state and terminal records the exact data shape that the tracker later relies on.\<close>

theorem parse_record_wf: "parse_hil1_line l = Inr (Some r) \<Longrightarrow> wf_record r"
  by (rule parse_hil1_line_wf)

theorem parse_record_wf_witness:
  "parse_hil1_line (LStr (hil1_line '','' '':'' (record_dict example_record))) = Inr (Some example_record)
   \<and> wf_record example_record"
  using parse_record_wf [OF example_record_parses] example_record_parses by simp

text \<open>a line with the prefix is never mistaken for a log line and one without it never for a
  record or an error, both for text and for bytes.\<close>

theorem parse_prefix_dispatch:
  "(parse_hil1_line (LStr s) = Inr None \<longleftrightarrow> \<not> startswith s HIL1_PREFIX) \<and>
   (parse_hil1_line (LBytes s) = Inr None \<longleftrightarrow> \<not> startswith s HIL1_PREFIX)"
  by simp

text \<open>a line that is refused is refused with \<open>HilProtocolError\<close>, with the single exception
  of the \<open>ValueError\<close> that the integer conversion of \<open>json.loads\<close> raises on its own.\<close>

theorem parse_error_kinds:
  assumes "parse_hil1_line l = Inl e"
  shows "(\<exists>m. e = HilProtocolError m) \<or>
    (\<exists>m s. e = ValueError m \<and> (l = LStr (HIL1_PREFIX @ s) \<or> l = LBytes (HIL1_PREFIX @ s)) \<and>
           json_loads reject_duplicate_keys s = Inl e)"
  using assms by (cases l) (auto simp: startswith_iff split: if_splits dest!: parse_hil1_body_error)

theorem parse_error_kinds_witness:
  "\<exists>e. parse_hil1_line (LStr ''HIL1 []'') = Inl e \<and> (\<exists>m. e = HilProtocolError m)"
proof -
  have "json_loads reject_duplicate_keys ''[]'' = Inr (PList [])" by code_simp
  moreover have "parse_hil1_line (LStr ''HIL1 []'') = proto_err (text_msg ''HIL1 object must be a JSON object'')"
    by code_simp
  ultimately show ?thesis
    using parse_error_kinds [of "LStr ''HIL1 []''"] by (auto simp: HIL1_PREFIX_def)
qed

text \<open>a HIL1 line whose JSON text is an integer with more than 4300 digits is refused with
  \<open>ValueError\<close> and not with the documented \<open>HilProtocolError\<close>.\<close>

theorem parse_huge_int_value_error:
  "\<exists>m. parse_hil1_line (LStr (HIL1_PREFIX @ replicate (4301 + n) CHR ''1'')) = Inl (ValueError m)"
proof -
  let ?s = "replicate (4301 + n) CHR ''1''"
  obtain m where "json_loads reject_duplicate_keys ?s = Inl (ValueError m)"
    using json_loads_huge_int [of "4301 + n"] by (auto simp: max_int_digits_def)
  moreover have "strip ?s \<noteq> []" using strip_visible [of ?s] by (simp add: visible_def)
  ultimately show ?thesis by (simp add: parse_hil1_body_def)
qed

text \<open>C14: what a writer that follows the protocol sends is read back unchanged: for every
  well-formed record with ASCII text and integers of at most 4300 digits, every key order and
  every JSON separator style, the line parses to that record.\<close>

theorem parse_hil1_round_trip:
  assumes "wf_record r" and "distinct (dict_keys d)" and "set d = set (record_dict r)"
    and "plain_json (PDict d)" and "separators isep ksep"
  shows "parse_hil1_line (LStr (hil1_line isep ksep d)) = Inr (Some r)"
  using assms by (rule parse_record_dict)

theorem parse_hil1_round_trip_witness:
  "parse_hil1_line (LStr (hil1_line '','' '':'' (record_dict example_record))) = Inr (Some example_record)"
  using example_record_wf _ refl example_record_plain example_separators
  by (rule parse_hil1_round_trip) (simp add: record_dict_keys REQUIRED_KEYS_def)

section \<open>Properties of the tracker\<close>

lemma tracks_entries:
  assumes "tracks t xs"
  shows "\<exists>n. xs = map lifecycle_step [0..<n] @ (if ht_aborted t then [(fst (lifecycle_step (n - 1)), 8)] else []) \<and>
    (ht_aborted t \<longrightarrow> 0 < n \<and> snd (lifecycle_step (n - 1)) \<noteq> 8)"
proof (cases "ht_segment t")
  case None
  with assms show ?thesis by (intro exI [of _ 0]) (simp add: tracks_def)
next
  case (Some seg)
  with assms obtain n where
    "if ht_aborted t then xs = map lifecycle_step [0..<Suc n] @ [(seg, 8)] \<and> seg = fst (lifecycle_step n) \<and>
       snd (lifecycle_step n) \<noteq> 8 else xs = map lifecycle_step [0..<Suc n]"
    by (auto simp: tracks_def simp del: upt_Suc split: if_splits)
  then show ?thesis by (intro exI [of _ "Suc n"]) (auto split: if_splits)
qed

lemma tracks_terminal_state:
  assumes "tracks t xs" and "ht_terminal t = Some m"
  shows "xs \<noteq> [] \<and> snd (last xs) = 8 \<and> (dict_get (hr_data m) ''verdict'' = PStr ''pass'' \<longrightarrow> \<not> ht_aborted t)"
  using assms by (cases "ht_segment t"; cases "ht_aborted t") (auto simp: tracks_def)

text \<open>Example records of a run and the whole example run.\<close>

definition state_record :: "nat \<Rightarrow> hil_record" where
  "state_record k = example_record\<lparr>hr_monotonic_ms := int k, hr_segment := fst (lifecycle_step k),
     hr_data := [(''state'', PStr (STATES ! nat (snd (lifecycle_step k))))]\<rparr>"

definition terminal_record :: "nat \<Rightarrow> string \<Rightarrow> hil_record" where
  "terminal_record k v = (state_record k)\<lparr>hr_kind := ''terminal'', hr_data := [(''verdict'', PStr v)]\<rparr>"

definition abort_record :: "nat \<Rightarrow> hil_record" where
  "abort_record k = (state_record k)\<lparr>hr_data := [(''state'', PStr ''teardown''), (''cause'', PStr ''stop'')]\<rparr>"

definition status_record :: "nat \<Rightarrow> hil_record" where
  "status_record k = (state_record k)\<lparr>hr_kind := ''status'', hr_command_id := ''c1'', hr_data := []\<rparr>"

definition example_run :: "hil_record list" where
  "example_run = map state_record [0..<3] @ [status_record 2] @ map state_record [3..<9] @ [terminal_record 8 ''pass'']"

lemma wf_record_code [code]:
  "wf_record r \<longleftrightarrow>
     hr_protocol_version r = PROTOCOL_VERSION \<and> hr_kind r \<in> set KINDS \<and>
     hr_firmware_id r \<noteq> [] \<and> hr_command_id r \<noteq> [] \<and> hr_run_id r \<noteq> [] \<and>
     0 \<le> hr_monotonic_ms r \<and> 0 \<le> hr_segment r \<and>
     check_data (hr_kind r) (hr_data r) = Inr ()"
  by (auto simp: wf_record_def check_data_Inr)

lemma example_run_wf: "\<forall>r \<in> set example_run. wf_record r"
  by code_simp

lemma example_run_result:
  "snd (accept_all (new_tracker ''r'' ''c0'') example_run) = Inr () \<and>
   ht_terminal (fst (accept_all (new_tracker ''r'' ''c0'') example_run)) = Some (terminal_record 8 ''pass'')"
  by code_simp

lemma example_run_accepted:
  obtains t where "accept_all (new_tracker ''r'' ''c0'') example_run = (t, Inr ())"
    and "ht_terminal t = Some (terminal_record 8 ''pass'')"
  using example_run_result by (cases "accept_all (new_tracker ''r'' ''c0'') example_run") auto

text \<open>C1: the state records of every accepted run are an initial piece of the canonical life
  cycle (the nine states of segment 0, then \<open>connecting\<close> to \<open>teardown\<close> of segments 1, 2, ...),
  with no state repeated, skipped or out of order; an abort adds exactly one teardown entry of
  the segment it interrupts, and nothing follows it.\<close>

theorem run_state_sequence:
  assumes "\<forall>r \<in> set rs. wf_record r" and "accept_all (new_tracker run_id cmd) rs = (t, Inr ())"
  shows "\<exists>n. state_entries rs =
       map lifecycle_step [0..<n] @ (if ht_aborted t then [(fst (lifecycle_step (n - 1)), 8)] else []) \<and>
     (ht_aborted t \<longrightarrow> 0 < n \<and> snd (lifecycle_step (n - 1)) \<noteq> 8)"
  using accept_all_tracks [OF assms] by (rule tracks_entries)

theorem run_state_sequence_witness:
  "\<exists>t n. accept_all (new_tracker ''r'' ''c0'') example_run = (t, Inr ()) \<and>
     state_entries example_run =
       map lifecycle_step [0..<n] @ (if ht_aborted t then [(fst (lifecycle_step (n - 1)), 8)] else [])"
  using run_state_sequence [OF example_run_wf] by (metis example_run_accepted)

text \<open>C5: a run has at most one terminal record, which comes after its last segment has reached
  \<open>teardown\<close>; a run that was aborted never ends with the verdict \<open>pass\<close>.\<close>

theorem run_terminal:
  assumes "\<forall>r \<in> set rs. wf_record r" and "accept_all (new_tracker run_id cmd) rs = (t, Inr ())"
    and "ht_terminal t = Some m"
  shows "filter (\<lambda>r. hr_kind r = ''terminal'') rs = [m] \<and> state_entries rs \<noteq> [] \<and>
    snd (last (state_entries rs)) = TEARDOWN_INDEX \<and>
    (dict_get (hr_data m) ''verdict'' = PStr ''pass'' \<longrightarrow> \<not> ht_aborted t)"
  using tracks_terminal_state [OF accept_all_tracks [OF assms(1,2)] assms(3)]
    accept_all_attributed [OF assms(1,2)] assms(3)
  by (simp add: attributed_def TEARDOWN_INDEX_8)

theorem run_terminal_witness:
  "filter (\<lambda>r. hr_kind r = ''terminal'') example_run = [terminal_record 8 ''pass''] \<and>
   snd (last (state_entries example_run)) = TEARDOWN_INDEX"
  by (rule example_run_accepted) (use run_terminal [OF example_run_wf] in blast)

text \<open>every record of an accepted run carries the run's id and one and the same firmware id,
  times never decrease, and the start command id is used by exactly the records that are not
  status replies.\<close>

theorem run_attribution:
  assumes "\<forall>r \<in> set rs. wf_record r" and "accept_all (new_tracker run_id cmd) rs = (t, Inr ())"
  shows "sorted (map hr_monotonic_ms rs) \<and>
    (\<forall>r \<in> set rs. hr_run_id r = run_id \<and> ht_firmware_id t = Some (hr_firmware_id r) \<and>
       (hr_command_id r = cmd \<longleftrightarrow> hr_kind r \<noteq> ''status''))"
  using accept_all_attributed [OF assms] by (simp add: attributed_def)

theorem run_attribution_witness:
  "sorted (map hr_monotonic_ms example_run) \<and>
   list_all (\<lambda>r. hr_command_id r = ''c0'' \<longleftrightarrow> hr_kind r \<noteq> ''status'') example_run"
  unfolding list_all_iff by (rule example_run_accepted) (use run_attribution [OF example_run_wf] in blast)

text \<open>Dropping the status records.\<close>

lemma accept_all_drop_status:
  assumes "accept_all t rs = (t', Inr u)" and "lifecycle_of s = lifecycle_of t"
    and "ht_run_id s = ht_run_id t" "ht_command_id s = ht_command_id t"
    and "ht_firmware_id s \<in> {None, ht_firmware_id t}" and "ht_last_monotonic s \<le> ht_last_monotonic t"
  shows "\<exists>s'. accept_all s (filter (\<lambda>r. hr_kind r \<noteq> ''status'') rs) = (s', Inr ()) \<and>
    lifecycle_of s' = lifecycle_of t'"
  using assms
proof (induction rs arbitrary: t s)
  case Nil
  then show ?case by simp
next
  case (Cons r rs)
  then obtain t1 where t1: "accept t r = (t1, Inr ())" "accept_all t1 rs = (t', Inr u)"
    by (auto split: prod.splits sum.splits)
  show ?case
  proof (cases "hr_kind r = ''status''")
    case True
    from t1(1) obtain fw p where "accept_guards t r = Inr fw" "t1 = accept_commit t r fw p"
      by (auto simp: accept_Inr)
    with accept_guards_Inr [of t r fw] Cons.prems(3-6) have "ht_run_id s = ht_run_id t1"
      "ht_command_id s = ht_command_id t1" "ht_firmware_id s \<in> {None, ht_firmware_id t1}"
      "ht_last_monotonic s \<le> ht_last_monotonic t1"
      by (auto simp: accept_commit_fields)
    with Cons.IH [OF t1(2), of s] accept_status_lifecycle [OF t1(1)] True Cons.prems(2) show ?thesis
      by simp
  next
    case False
    from accept_cong [OF t1(1) Cons.prems(2-6)] obtain s1 where "accept s r = (s1, Inr ())"
      "lifecycle_of s1 = lifecycle_of t1" "ht_run_id s1 = ht_run_id t1"
      "ht_command_id s1 = ht_command_id t1" "ht_firmware_id s1 = ht_firmware_id t1"
      "ht_last_monotonic s1 = ht_last_monotonic t1" by blast
    with Cons.IH [OF t1(2), of s1] False show ?thesis by simp
  qed
qed

text \<open>status replies are transparent: a run with all of them removed is accepted as well and
  ends in the same segment, state, abort flag and cause, and terminal record.\<close>

theorem status_transparent:
  assumes "accept_all (new_tracker run_id cmd) rs = (t, Inr ())"
  shows "\<exists>s. accept_all (new_tracker run_id cmd) (filter (\<lambda>r. hr_kind r \<noteq> ''status'') rs) = (s, Inr ()) \<and>
    lifecycle_of s = lifecycle_of t"
  using accept_all_drop_status [OF assms, of "new_tracker run_id cmd"] by simp

theorem status_transparent_witness:
  "\<exists>s t. accept_all (new_tracker ''r'' ''c0'') (filter (\<lambda>r. hr_kind r \<noteq> ''status'') example_run) = (s, Inr ()) \<and>
     lifecycle_of s = lifecycle_of t \<and> ht_terminal t = Some (terminal_record 8 ''pass'')"
  using status_transparent by (metis example_run_accepted)

lemma accept_wf_error:
  assumes "wf_record r" and "accept t r = (t', Inl e)"
  shows "\<exists>m. e = HilProtocolError m"
proof -
  from assms(2) consider "accept_guards t r = Inl e" | "accept_proposal t r = Inl e"
    by (auto simp: accept_def split: sum.splits)
  then show ?thesis
  proof cases
    case 1
    then show ?thesis
      by (auto simp: accept_guards_def segment_order_err_def Let_def split: if_splits option.splits)
  next
    case 2
    show ?thesis
    proof (cases "hr_kind r = ''state''")
      case True
      with assms(1) have wf: "wf_state_data (hr_data r)" by (simp add: wf_record_def)
      then have "is_abort_record r \<Longrightarrow> map_of (hr_data r) ''cause'' \<noteq> None"
        using keys_are_disjoint [of "hr_data r"]
        by (auto simp: wf_state_data_def is_abort_record_def dict_get_PStr)
      with 2 True state_index_wf [OF wf] show ?thesis
        by (auto simp: accept_proposal_def validate_abort_def validate_state_def segment_order_err_def Let_def
            split: if_splits option.splits)
    next
      case False
      with 2 show ?thesis
        by (auto simp: accept_proposal_def validate_terminal_def Let_def split: if_splits)
    qed
  qed
qed

text \<open>C12: \<open>accept\<close> is atomic and total on parsed records: over any sequence, either all records
  are committed, or the exception is a \<open>HilProtocolError\<close> for one record and the tracker is
  exactly what the records before it made of it.\<close>

theorem accept_run_atomic:
  assumes "\<forall>r \<in> set rs. wf_record r" and "accept_all t rs = (t', Inl e)"
  shows "(\<exists>m. e = HilProtocolError m) \<and>
    (\<exists>ps r qs. rs = ps @ r # qs \<and> accept_all t ps = (t', Inr ()) \<and> accept t' r = (t', Inl e))"
  using trk.run_error [OF assms(2)] accept_wf_error assms(1) by fastforce

theorem accept_run_atomic_witness:
  "\<exists>m t'. accept_all (new_tracker ''r'' ''c0'') [state_record 0, state_record 2] = (t', Inl (HilProtocolError m)) \<and>
     accept_all (new_tracker ''r'' ''c0'') [state_record 0] = (t', Inr ())"
proof -
  let ?rs = "[state_record 0, state_record 2]"
  have wf: "\<forall>r \<in> set ?rs. wf_record r" by code_simp
  have "isl (snd (accept_all (new_tracker ''r'' ''c0'') ?rs)) \<and>
    snd (accept_all (new_tracker ''r'' ''c0'') ?rs) \<noteq> snd (accept (new_tracker ''r'' ''c0'') (state_record 0))" by code_simp
  then obtain t' e where a: "accept_all (new_tracker ''r'' ''c0'') ?rs = (t', Inl e)"
    by (cases "accept_all (new_tracker ''r'' ''c0'') ?rs") (auto simp: isl_def)
  have "\<not> isl (snd (accept (new_tracker ''r'' ''c0'') (state_record 0)))" by code_simp
  with accept_run_atomic [OF wf a] a show ?thesis
    by (auto simp: Cons_eq_append_conv split: prod.splits sum.splits)
qed

lemma validate_state_lifecycle:
  assumes "tracks t (map lifecycle_step [0..<n])" and "\<not> ht_aborted t" and "wf_state_data (hr_data r)"
    and "state_entry r = lifecycle_step n"
  shows "\<exists>idx. validate_state t r = Inr (Some (hr_segment r), idx)"
proof -
  from state_index_wf [OF assms(3)] obtain i where i: "state_index_of r = Inr i" "0 \<le> i" "i \<le> 8"
    "dict_get (hr_data r) ''state'' = PStr (STATES ! nat i)" by blast
  with assms(4) have e: "lifecycle_step n = (hr_segment r, i)" by (simp add: state_entry_def)
  show ?thesis
  proof (cases n)
    case 0
    with e assms(1) i STATES_nth_conv(1) [of i] show ?thesis
      by (auto simp: tracks_def validate_state_def split: option.splits if_splits)
  next
    case (Suc m)
    obtain seg where seg: "ht_segment t = Some seg"
      using assms(1) Suc by (cases "ht_segment t") (auto simp: tracks_def)
    with assms(1,2) Suc have m: "lifecycle_step m = (seg, ht_state_index t)"
      by (auto simp: tracks_def dest: arg_cong [where f = last])
    with e Suc have "if ht_state_index t = 8 then hr_segment r = seg + 1 \<and> i = 2
      else hr_segment r = seg \<and> i = ht_state_index t + 1"
      by (simp add: lifecycle_step_Suc split: if_splits)
    with seg i assms(2) STATES_nth_conv(2) [of i] show ?thesis
      by (auto simp: validate_state_def TEARDOWN_INDEX_8 split: if_splits)
  qed
qed

lemma accept_lifecycle:
  assumes "tracks t (map lifecycle_step [0..<n])" and "\<not> ht_aborted t" and "ht_terminal t = None"
    and "wf_record r" and "hr_kind r = ''state''" and "\<not> is_abort_record r"
    and "state_entry r = lifecycle_step n" and "hr_run_id r = ht_run_id t"
    and "hr_command_id r = ht_command_id t" and "ht_last_monotonic t \<le> hr_monotonic_ms r"
    and "ht_firmware_id t \<in> {None, Some (hr_firmware_id r)}"
  shows "\<exists>t'. accept t r = (t', Inr ()) \<and> \<not> ht_aborted t'"
proof -
  from assms(4,5) have "wf_state_data (hr_data r)" by (simp add: wf_record_def)
  from validate_state_lifecycle [OF assms(1,2) this assms(7)] obtain idx where
    "validate_state t r = Inr (Some (hr_segment r), idx)" by blast
  then have "accept_proposal t r = Inr (Some (hr_segment r), idx, ht_aborted t, ht_abort_cause t)"
    using assms(5,6) by (simp add: accept_proposal_def Let_def)
  moreover have "accept_guards t r = Inr (hr_firmware_id r)"
    using assms by (auto simp: accept_guards_def Let_def split: option.splits)
  ultimately show ?thesis
    using assms(2,5,6) by (simp add: accept_def accept_commit_def Let_def)
qed

lemma accept_fields:
  "accept t r = (t', Inr u) \<Longrightarrow> ht_last_monotonic t' = hr_monotonic_ms r \<and>
     ht_firmware_id t' = Some (hr_firmware_id r) \<and> (hr_kind r \<noteq> ''terminal'' \<longrightarrow> ht_terminal t' = ht_terminal t)"
  using accept_guards_Inr(2) by (auto simp: accept_Inr accept_commit_fields)

text \<open>C36: nothing legal is refused: state records that go through the canonical life cycle, for
  any number of states and segments, with the run's identifiers, one firmware id and times that
  do not decrease, are all accepted.\<close>

theorem lifecycle_run_accepted:
  assumes "\<forall>r \<in> set rs. wf_record r \<and> hr_kind r = ''state'' \<and> \<not> is_abort_record r \<and> hr_run_id r = run_id \<and>
      hr_command_id r = cmd \<and> hr_firmware_id r = fw"
    and "sorted (map hr_monotonic_ms rs)" and "map state_entry rs = map lifecycle_step [0..<length rs]"
  shows "\<exists>t. accept_all (new_tracker run_id cmd) rs = (t, Inr ()) \<and> \<not> ht_aborted t \<and>
    ht_terminal t = None \<and> (rs \<noteq> [] \<longrightarrow> ht_last_monotonic t = hr_monotonic_ms (last rs) \<and> ht_firmware_id t = Some fw)"
  using assms
proof (induction rs rule: rev_induct)
  case Nil
  then show ?case by (simp add: new_tracker_def)
next
  case (snoc r rs)
  from snoc obtain t where t: "accept_all (new_tracker run_id cmd) rs = (t, Inr ())" "\<not> ht_aborted t"
    "ht_terminal t = None" "rs \<noteq> [] \<longrightarrow> ht_last_monotonic t = hr_monotonic_ms (last rs) \<and> ht_firmware_id t = Some fw"
    by (auto simp: sorted_append)
  have wf: "\<forall>r \<in> set rs. wf_record r" using snoc.prems(1) by simp
  have entries: "state_entries rs = map lifecycle_step [0..<length rs]"
    using snoc.prems(1,3) by (simp add: state_entries_def)
  note tr = accept_all_tracks [OF wf t(1), unfolded entries]
  note at = accept_all_attributed [OF wf t(1), unfolded attributed_def]
  have "rs = [] \<Longrightarrow> t = new_tracker run_id cmd" using t(1) by simp
  then have fw: "ht_firmware_id t \<in> {None, Some (hr_firmware_id r)}" and mono: "ht_last_monotonic t \<le> hr_monotonic_ms r"
    using t(4) snoc.prems(1,2)
    by (cases "rs = []"; auto simp: new_tracker_def wf_record_def sorted_append)+
  obtain t' where "accept t r = (t', Inr ())" "\<not> ht_aborted t'"
    using accept_lifecycle [OF tr t(2,3) _ _ _ _ _ _ mono fw, of] snoc.prems(1,3) at by auto
  with t accept_fields [of t r t'] snoc.prems(1) show ?case by (simp add: trk.run_snoc)
qed

theorem lifecycle_run_accepted_witness:
  "\<exists>t. accept_all (new_tracker ''r'' ''c0'') (map state_record [0..<16]) = (t, Inr ()) \<and> \<not> ht_aborted t"
proof -
  have "\<forall>r \<in> set (map state_record [0..<16]). wf_record r \<and> hr_kind r = ''state'' \<and> \<not> is_abort_record r \<and>
    hr_run_id r = ''r'' \<and> hr_command_id r = ''c0'' \<and> hr_firmware_id r = ''fw''"
    by code_simp
  moreover have "sorted (map hr_monotonic_ms (map state_record [0..<16])) \<and>
    map state_entry (map state_record [0..<16]) = map lifecycle_step [0..<length (map state_record [0..<16])]"
    by code_simp
  ultimately show ?thesis
    using lifecycle_run_accepted [of "map state_record [0..<16]" "''r''" "''c0''" "''fw''"] by blast
qed

end
