(* ===== verification/Hil_Rows.thy ===== *)
theory Hil_Rows
  imports Py_Json
begin

text \<open>
  The frozen HIL rows, \<open>scripts/hil/rows.py\<close>: the validated row specification, its derived
  counters, the checked-in rows, the two-pass schedule and the lookup by name.
\<close>

section \<open>Frozen contracts\<close>

definition SIGNAL_SEED :: int where
  "SIGNAL_SEED = 1218649181"

definition MODE_STREAM_COUNTS :: "(string \<times> int) list" where
  "MODE_STREAM_COUNTS = [(''mono'', 1), (''mode_a'', 2), (''mode_b'', 1)]"

definition PROFILE_FRAME_US :: "(string \<times> int) list" where
  "PROFILE_FRAME_US = [(''48_4_1'', 10000), (''48_3_1'', 7500)]"

definition PROFILE_PREAMBLE_SDUS :: "(string \<times> int) list" where
  "PROFILE_PREAMBLE_SDUS = [(''48_4_1'', 144), (''48_3_1'', 192)]"

definition PROFILE_TAIL_SDUS :: "(string \<times> int) list" where
  "PROFILE_TAIL_SDUS = [(''48_4_1'', 500), (''48_3_1'', 667)]"

lemmas row_tables = SIGNAL_SEED_def MODE_STREAM_COUNTS_def PROFILE_FRAME_US_def
  PROFILE_PREAMBLE_SDUS_def PROFILE_TAIL_SDUS_def

text \<open>\<open>key in table\<close> hashes the key first: lists and dictionaries raise \<open>TypeError\<close>.\<close>

definition in_table :: "pyval \<Rightarrow> (string \<times> int) list \<Rightarrow> bool result" where
  "in_table v tab =
     (case v of
        PList _ \<Rightarrow> Inl (TypeError (text_msg ''unhashable type: list''))
      | PDict _ \<Rightarrow> Inl (TypeError (text_msg ''unhashable type: dict''))
      | PStr s \<Rightarrow> Inr (map_of tab s \<noteq> None)
      | _ \<Rightarrow> Inr False)"

text \<open>\<open>table[key]\<close> for a text key.\<close>

definition table_at :: "(string \<times> int) list \<Rightarrow> string \<Rightarrow> int result" where
  "table_at tab k = (case map_of tab k of None \<Rightarrow> Inl (KeyError (PStr k)) | Some v \<Rightarrow> Inr v)"

section \<open>Row specifications\<close>

record row_spec =
  rs_name :: string
  rs_state :: string
  rs_mode :: string
  rs_profile :: string
  rs_scored_sdu_count :: int
  rs_signal_seed :: int
  rs_reconnect_policy :: string
  rs_fault :: "string option"

fun plain_int :: "pyval \<Rightarrow> bool" where
  "plain_int v = (isinstance_int v \<and> \<not> isinstance_bool v)"

fun text_of :: "pyval \<Rightarrow> string" where
  "text_of (PStr s) = s"
| "text_of _ = []"

definition one_of :: "pyval \<Rightarrow> string list \<Rightarrow> bool" where
  "one_of v names \<longleftrightarrow> (\<exists>s \<in> set names. py_eq v (PStr s))"

abbreviation row_err :: "msg \<Rightarrow> exn + 'a" where
  "row_err m \<equiv> Inl (RowSpecError m)"

text \<open>The generated initialiser followed by \<open>__post_init__\<close>, on arbitrary argument values.\<close>

definition row_post_init ::
  "pyval \<Rightarrow> pyval \<Rightarrow> pyval \<Rightarrow> pyval \<Rightarrow> pyval \<Rightarrow> pyval \<Rightarrow> pyval \<Rightarrow> pyval \<Rightarrow> row_spec result" where
  "row_post_init name state mode profile scored seed policy fault =
     (if \<not> isinstance_str name \<or> name = PStr []
      then row_err (text_msg ''row name must be a nonempty string'')
      else if \<not> one_of state [''fresh'', ''preserved'']
      then row_err (val_msg ''row %s state must be fresh or preserved'' name)
      else rbind (in_table mode MODE_STREAM_COUNTS) (\<lambda>known_mode.
        if \<not> known_mode then row_err (Fmt ''row %s has unsupported mode %r'' [AV name, AV mode])
        else rbind (in_table profile PROFILE_FRAME_US) (\<lambda>known_profile.
          if \<not> known_profile
          then row_err (Fmt ''row %s has unsupported profile %r'' [AV name, AV profile])
          else if \<not> plain_int scored \<or> \<not> (1 \<le> int_value scored \<and> int_value scored \<le> 20000)
          then row_err (val_msg ''row %s scored SDUs must be 1..20000'' name)
          else if \<not> plain_int seed \<or> \<not> (1 \<le> int_value seed \<and> int_value seed \<le> 0xFFFFFFFF)
          then row_err (val_msg ''row %s signal seed must be a nonzero uint32'' name)
          else if \<not> one_of policy [''none'', ''once'']
          then row_err (val_msg ''row %s reconnect policy must be none or once'' name)
          else if \<not> (fault = PNone \<or> one_of fault [''hang'', ''stall''])
          then row_err (val_msg ''row %s fault must be hang, stall, or None'' name)
          else if fault \<noteq> PNone \<and> \<not> py_eq profile (PStr ''48_4_1'')
          then row_err (val_msg ''row %s fault injection requires 48_4_1 FLPR offload'' name)
          else Inr \<lparr>rs_name = text_of name, rs_state = text_of state, rs_mode = text_of mode,
                    rs_profile = text_of profile, rs_scored_sdu_count = int_value scored,
                    rs_signal_seed = int_value seed, rs_reconnect_policy = text_of policy,
                    rs_fault = (if fault = PNone then None else Some (text_of fault))\<rparr>)))"

text \<open>The derived counters.\<close>

definition stream_count :: "row_spec \<Rightarrow> int result" where
  "stream_count r = table_at MODE_STREAM_COUNTS (rs_mode r)"

definition segment_count :: "row_spec \<Rightarrow> int" where
  "segment_count r = (if rs_reconnect_policy r = ''once'' then 2 else 1)"

definition expected_scored_per_stream :: "row_spec \<Rightarrow> int" where
  "expected_scored_per_stream r = rs_scored_sdu_count r * segment_count r"

definition expected_submitted_per_segment :: "row_spec \<Rightarrow> int result" where
  "expected_submitted_per_segment r =
     rbind (table_at PROFILE_PREAMBLE_SDUS (rs_profile r)) (\<lambda>pre.
     rbind (table_at PROFILE_TAIL_SDUS (rs_profile r)) (\<lambda>post.
       Inr (pre + rs_scored_sdu_count r + post)))"

definition expected_submitted_per_stream :: "row_spec \<Rightarrow> int result" where
  "expected_submitted_per_stream r =
     rbind (expected_submitted_per_segment r) (\<lambda>n. Inr (segment_count r * n))"

text \<open>True division of two integers: the double nearest to the quotient.\<close>

definition minimum_scored_interval_s :: "row_spec \<Rightarrow> pyfloat result" where
  "minimum_scored_interval_s r =
     rbind (table_at PROFILE_FRAME_US (rs_profile r)) (\<lambda>us.
       let n = rs_scored_sdu_count r * us in Inr (double_of_frac (n < 0) (nat \<bar>n\<bar>) 1000000))"

definition healthy :: "row_spec \<Rightarrow> bool" where
  "healthy r \<longleftrightarrow> rs_fault r = None"

section \<open>The checked-in rows\<close>

definition mk_row :: "string \<Rightarrow> string \<Rightarrow> string \<Rightarrow> string \<Rightarrow> int \<Rightarrow> string \<Rightarrow> string option \<Rightarrow> row_spec" where
  "mk_row name state mode profile scored policy fault =
     \<lparr>rs_name = name, rs_state = state, rs_mode = mode, rs_profile = profile,
      rs_scored_sdu_count = scored, rs_signal_seed = SIGNAL_SEED, rs_reconnect_policy = policy,
      rs_fault = fault\<rparr>"

definition RH2_ROW :: row_spec where
  "RH2_ROW = mk_row ''rh2.short_mono_48_4_1'' ''fresh'' ''mono'' ''48_4_1'' 120 ''none'' None"

definition RH3_HEALTHY_ROWS :: "row_spec list" where
  "RH3_HEALTHY_ROWS =
     [mk_row ''rh3.fresh_mono_48_4_1'' ''fresh'' ''mono'' ''48_4_1'' 12000 ''none'' None,
      mk_row ''rh3.fresh_mode_a_48_4_1'' ''fresh'' ''mode_a'' ''48_4_1'' 12000 ''none'' None,
      mk_row ''rh3.fresh_mode_b_48_4_1'' ''fresh'' ''mode_b'' ''48_4_1'' 12000 ''none'' None,
      mk_row ''rh3.preserved_mode_b_48_4_1'' ''preserved'' ''mode_b'' ''48_4_1'' 12000 ''none'' None,
      mk_row ''rh3.fresh_mono_48_3_1'' ''fresh'' ''mono'' ''48_3_1'' 16000 ''none'' None,
      mk_row ''rh3.fresh_mode_a_48_3_1'' ''fresh'' ''mode_a'' ''48_3_1'' 16000 ''none'' None,
      mk_row ''rh3.fresh_mode_b_48_3_1'' ''fresh'' ''mode_b'' ''48_3_1'' 16000 ''none'' None]"

definition RH3_7P5_DIAGNOSTIC_ROWS :: "row_spec list" where
  "RH3_7P5_DIAGNOSTIC_ROWS = take 3 (drop 4 RH3_HEALTHY_ROWS)"

definition RH3_RECONNECT_ROW :: row_spec where
  "RH3_RECONNECT_ROW =
     mk_row ''rh3.reconnect_mode_b_48_4_1'' ''preserved'' ''mode_b'' ''48_4_1'' 12000 ''once'' None"

definition RH3_HANG_ROW :: row_spec where
  "RH3_HANG_ROW =
     mk_row ''rh3.flpr_hang_mode_b_48_4_1'' ''preserved'' ''mode_b'' ''48_4_1'' 12000 ''none'' (Some ''hang'')"

definition RH3_STALL_ROW :: row_spec where
  "RH3_STALL_ROW =
     mk_row ''rh3.flpr_stall_mode_b_48_4_1'' ''preserved'' ''mode_b'' ''48_4_1'' 12000 ''none'' (Some ''stall'')"

definition RH3_PASS_ROWS :: "row_spec list" where
  "RH3_PASS_ROWS = RH3_HEALTHY_ROWS @ [RH3_RECONNECT_ROW, RH3_HANG_ROW, RH3_STALL_ROW]"

definition RH3_PASS_COUNT :: nat where
  "RH3_PASS_COUNT = 2"

lemmas row_constants = RH2_ROW_def RH3_HEALTHY_ROWS_def RH3_RECONNECT_ROW_def RH3_HANG_ROW_def
  RH3_STALL_ROW_def RH3_PASS_ROWS_def RH3_PASS_COUNT_def mk_row_def

definition rh3_schedule :: "(nat \<times> nat \<times> row_spec) list" where
  "rh3_schedule =
     concat (map (\<lambda>pass_index. map (\<lambda>(row_index, row). (pass_index, row_index, row)) (enumerate 1 RH3_PASS_ROWS))
       [1..<RH3_PASS_COUNT + 1])"

definition ALL_ROWS :: "row_spec list" where
  "ALL_ROWS = RH2_ROW # RH3_HEALTHY_ROWS @ [RH3_RECONNECT_ROW, RH3_HANG_ROW, RH3_STALL_ROW]"

text \<open>The dictionary comprehension: a later row replaces an earlier one of the same name.\<close>

definition ROW_BY_NAME :: "string \<rightharpoonup> row_spec" where
  "ROW_BY_NAME = map_of (rev (map (\<lambda>row. (rs_name row, row)) ALL_ROWS))"

definition get_row :: "pyval \<Rightarrow> row_spec result" where
  "get_row name =
     (case name of
        PStr s \<Rightarrow> (case ROW_BY_NAME s of
            Some row \<Rightarrow> Inr row | None \<Rightarrow> row_err (val_msg ''unknown HIL row %r'' name))
      | _ \<Rightarrow> row_err (val_msg ''unknown HIL row %r'' name))"

definition row_names :: "string list" where
  "row_names = map rs_name ALL_ROWS"

definition rh3_rows :: "bool \<Rightarrow> row_spec list" where
  "rh3_rows include_faults = (if include_faults then RH3_PASS_ROWS else RH3_HEALTHY_ROWS)"

section \<open>Valid rows\<close>

definition wf_row :: "row_spec \<Rightarrow> bool" where
  "wf_row r \<longleftrightarrow>
     rs_name r \<noteq> [] \<and> rs_state r \<in> {''fresh'', ''preserved''} \<and>
     rs_mode r \<in> {''mono'', ''mode_a'', ''mode_b''} \<and> rs_profile r \<in> {''48_4_1'', ''48_3_1''} \<and>
     1 \<le> rs_scored_sdu_count r \<and> rs_scored_sdu_count r \<le> 20000 \<and>
     1 \<le> rs_signal_seed r \<and> rs_signal_seed r < 2 ^ 32 \<and>
     rs_reconnect_policy r \<in> {''none'', ''once''} \<and>
     (rs_fault r = None \<or> rs_fault r \<in> {Some ''hang'', Some ''stall''} \<and> rs_profile r = ''48_4_1'')"

text \<open>The arguments that a row is built from.\<close>

definition opt_str :: "string option \<Rightarrow> pyval" where
  "opt_str s = (case s of None \<Rightarrow> PNone | Some t \<Rightarrow> PStr t)"

definition row_init :: "row_spec \<Rightarrow> row_spec result" where
  "row_init r =
     row_post_init (PStr (rs_name r)) (PStr (rs_state r)) (PStr (rs_mode r)) (PStr (rs_profile r))
       (PInt (rs_scored_sdu_count r)) (PInt (rs_signal_seed r)) (PStr (rs_reconnect_policy r))
       (opt_str (rs_fault r))"

lemma plain_int_iff: "plain_int v \<longleftrightarrow> (\<exists>i. v = PInt i)"
  by (cases v) auto

declare plain_int.simps [simp del]

lemma in_table_True:
  "in_table v tab = Inr True \<longleftrightarrow> (\<exists>s. v = PStr s \<and> map_of tab s \<noteq> None)"
  by (auto simp: in_table_def split: pyval.splits)

lemma one_of_iff: "one_of v names \<longleftrightarrow> (\<exists>s \<in> set names. v = PStr s)"
  by (simp add: one_of_def)

lemma table_keys:
  "(\<exists>y. map_of MODE_STREAM_COUNTS s = Some y) \<longleftrightarrow> s \<in> {''mono'', ''mode_a'', ''mode_b''}"
  "(\<exists>y. map_of PROFILE_FRAME_US s = Some y) \<longleftrightarrow> s \<in> {''48_4_1'', ''48_3_1''}"
  by (simp_all add: row_tables)

lemma opt_str_simps [simp]: "opt_str None = PNone" "opt_str (Some s) = PStr s"
  by (simp_all add: opt_str_def)

lemma row_post_init_wf:
  assumes "row_post_init name state mode profile scored seed policy fault = Inr r"
  shows "wf_row r"
    and "name = PStr (rs_name r) \<and> state = PStr (rs_state r) \<and> mode = PStr (rs_mode r) \<and>
      profile = PStr (rs_profile r) \<and> scored = PInt (rs_scored_sdu_count r) \<and>
      seed = PInt (rs_signal_seed r) \<and> policy = PStr (rs_reconnect_policy r) \<and> fault = opt_str (rs_fault r)"
proof -
  from assms have tests: "isinstance_str name" "name \<noteq> PStr []" "one_of state [''fresh'', ''preserved'']"
    "in_table mode MODE_STREAM_COUNTS = Inr True" "in_table profile PROFILE_FRAME_US = Inr True"
    "plain_int scored" "1 \<le> int_value scored" "int_value scored \<le> 20000"
    "plain_int seed" "1 \<le> int_value seed" "int_value seed \<le> 0xFFFFFFFF"
    "one_of policy [''none'', ''once'']" "fault = PNone \<or> one_of fault [''hang'', ''stall'']"
    "fault = PNone \<or> py_eq profile (PStr ''48_4_1'')"
    and r: "r = \<lparr>rs_name = text_of name, rs_state = text_of state, rs_mode = text_of mode,
                    rs_profile = text_of profile, rs_scored_sdu_count = int_value scored,
                    rs_signal_seed = int_value seed, rs_reconnect_policy = text_of policy,
                    rs_fault = (if fault = PNone then None else Some (text_of fault))\<rparr>"
    unfolding row_post_init_def by (simp_all split: if_splits)
  from tests(3,12) obtain st q where "state = PStr st" "policy = PStr q"
    unfolding one_of_iff by blast
  moreover from tests(4-6,9) obtain m p k j where "mode = PStr m" "profile = PStr p" "scored = PInt k" "seed = PInt j"
    unfolding in_table_True plain_int_iff by blast
  moreover from tests(1) obtain n where "name = PStr n" by (cases name) auto
  ultimately obtain n st m p k j q where
    v: "name = PStr n" "state = PStr st" "mode = PStr m" "profile = PStr p" "scored = PInt k"
      "seed = PInt j" "policy = PStr q" by blast
  from tests(13) obtain f where f: "fault = opt_str f" "f \<in> {None, Some ''hang'', Some ''stall''}"
    using that [of None] that [of "Some ''hang''"] that [of "Some ''stall''"] by (auto simp: one_of_iff)
  show "name = PStr (rs_name r) \<and> state = PStr (rs_state r) \<and> mode = PStr (rs_mode r) \<and>
      profile = PStr (rs_profile r) \<and> scored = PInt (rs_scored_sdu_count r) \<and>
      seed = PInt (rs_signal_seed r) \<and> policy = PStr (rs_reconnect_policy r) \<and> fault = opt_str (rs_fault r)"
    by (cases f) (simp_all add: r v f)
  show "wf_row r"
    using tests f v by (cases f) (simp_all add: wf_row_def r in_table_def table_keys one_of_iff)
qed

lemma row_init_wf:
  assumes "wf_row r"
  shows "row_init r = Inr r"
proof -
  note w = assms [unfolded wf_row_def]
  have "in_table (PStr (rs_mode r)) MODE_STREAM_COUNTS = Inr True"
    and "in_table (PStr (rs_profile r)) PROFILE_FRAME_US = Inr True"
    using w unfolding in_table_True by (simp_all add: table_keys)
  moreover have "one_of (PStr (rs_state r)) [''fresh'', ''preserved'']"
    and "one_of (PStr (rs_reconnect_policy r)) [''none'', ''once'']"
    and "rs_fault r = None \<or> one_of (opt_str (rs_fault r)) [''hang'', ''stall'']"
    using w by (auto simp: one_of_iff)
  moreover have "plain_int (PInt i)" for i by (simp add: plain_int.simps)
  ultimately show ?thesis
    using w by (cases "rs_fault r") (simp_all add: row_init_def row_post_init_def)
qed

section \<open>Properties\<close>

text \<open>\<open>RowSpec\<close> construction accepts exactly the valid rows: it succeeds with \<open>r\<close> if and only
  if \<open>r\<close> meets every frozen contract and the arguments are the fields of \<open>r\<close>, with a boolean
  never taken for a count or a seed.\<close>

theorem row_spec_contract:
  "row_post_init name state mode profile scored seed policy fault = Inr r \<longleftrightarrow>
     wf_row r \<and> name = PStr (rs_name r) \<and> state = PStr (rs_state r) \<and> mode = PStr (rs_mode r) \<and>
     profile = PStr (rs_profile r) \<and> scored = PInt (rs_scored_sdu_count r) \<and>
     seed = PInt (rs_signal_seed r) \<and> policy = PStr (rs_reconnect_policy r) \<and> fault = opt_str (rs_fault r)"
  using row_post_init_wf [of name state mode profile scored seed policy fault r] row_init_wf [of r]
  unfolding row_init_def by blast

lemma all_rows_wf: "\<forall>r \<in> set ALL_ROWS. wf_row r"
  by code_simp

lemma distinct_row_names: "distinct (map rs_name ALL_ROWS)"
  by code_simp

text \<open>every checked-in row passes its own construction checks, and \<open>get_row\<close> finds a row by a
  name exactly when it is the checked-in row of that name; any other argument is a
  \<open>RowSpecError\<close>.\<close>

theorem get_row_exact:
  "list_all (\<lambda>row. row_init row = Inr row \<and> get_row (PStr (rs_name row)) = Inr row) ALL_ROWS \<and>
   (case get_row name of
      Inr row \<Rightarrow> row \<in> set ALL_ROWS \<and> name = PStr (rs_name row)
    | Inl e \<Rightarrow> (\<exists>m. e = RowSpecError m) \<and> list_all (\<lambda>row. name \<noteq> PStr (rs_name row)) ALL_ROWS)"
proof
  have look: "ROW_BY_NAME s = Some row \<longleftrightarrow> row \<in> set ALL_ROWS \<and> s = rs_name row" for s row
    using distinct_row_names by (auto simp: ROW_BY_NAME_def comp_def rev_map [symmetric])
  then have none: "ROW_BY_NAME s = None \<longleftrightarrow> s \<notin> rs_name ` set ALL_ROWS" for s
    by (metis (no_types, lifting) imageE imageI not_None_eq)
  have "get_row (PStr (rs_name row)) = Inr row" if "row \<in> set ALL_ROWS" for row
    using look [of "rs_name row" row] that by (simp add: get_row_def)
  then show "list_all (\<lambda>row. row_init row = Inr row \<and> get_row (PStr (rs_name row)) = Inr row) ALL_ROWS"
    using all_rows_wf row_init_wf by (simp add: list_all_iff)
  show "case get_row name of
      Inr row \<Rightarrow> row \<in> set ALL_ROWS \<and> name = PStr (rs_name row)
    | Inl e \<Rightarrow> (\<exists>m. e = RowSpecError m) \<and> list_all (\<lambda>row. name \<noteq> PStr (rs_name row)) ALL_ROWS"
    using look none by (cases name) (auto simp: get_row_def list_all_iff split: option.splits)
qed

text \<open>the counters derived from a valid row are defined and in range: one or two streams and
  segments, and a submitted count that exceeds the scored count by exactly the preamble and tail
  of every segment and fits an unsigned 16-bit counter.\<close>

theorem row_counters:
  assumes "wf_row r"
  shows "\<exists>n seg sub. stream_count r = Inr n \<and> n \<in> {1, 2} \<and>
    expected_submitted_per_segment r = Inr seg \<and> expected_submitted_per_stream r = Inr sub \<and>
    seg = rs_scored_sdu_count r + (if rs_profile r = ''48_4_1'' then 644 else 859) \<and>
    sub = seg * segment_count r \<and>
    expected_scored_per_stream r < sub \<and> sub < 2 ^ 16"
proof -
  have "rs_profile r = ''48_4_1'' \<or> rs_profile r = ''48_3_1''"
    and "rs_mode r = ''mono'' \<or> rs_mode r = ''mode_a'' \<or> rs_mode r = ''mode_b''"
    using assms by (auto simp: wf_row_def)
  moreover have "rs_scored_sdu_count r \<le> 20000" using assms by (simp add: wf_row_def)
  ultimately show ?thesis
    by (elim disjE)
       (simp_all add: stream_count_def expected_submitted_per_segment_def expected_submitted_per_stream_def
         expected_scored_per_stream_def segment_count_def table_at_def row_tables algebra_simps)
qed

theorem row_counters_witness:
  "\<exists>sub. expected_submitted_per_stream RH3_RECONNECT_ROW = Inr sub \<and> sub < 2 ^ 16 \<and>
     expected_scored_per_stream RH3_RECONNECT_ROW < sub"
  using row_counters [of RH3_RECONNECT_ROW] all_rows_wf by (auto simp: ALL_ROWS_def)

lemma double_120: "double_of_frac False 120000000 1000000 = Fin 120"
  by (simp add: double_of_frac_def bit_length.simps Let_def round_half_even_def)

text \<open>the RH3 schedule is the ten pass rows, in order and numbered from 1, once per pass; in
  each pass a row that needs a preserved bond comes after a fresh row, the reconnect and fault rows
  come after all healthy ones, and every scheduled row scores exactly 120 seconds per segment.\<close>

theorem schedule_shape:
  "rh3_schedule = map (\<lambda>k. (Suc (k div 10), Suc (k mod 10), RH3_PASS_ROWS ! (k mod 10))) [0..<20] \<and>
   rs_state (hd RH3_PASS_ROWS) = ''fresh'' \<and>
   dropWhile (\<lambda>r. healthy r \<and> segment_count r = 1) RH3_PASS_ROWS = [RH3_RECONNECT_ROW, RH3_HANG_ROW, RH3_STALL_ROW] \<and>
   set RH3_PASS_ROWS = set ALL_ROWS - {RH2_ROW} \<and>
   list_all (\<lambda>r. minimum_scored_interval_s r = Inr (Fin 120)) RH3_PASS_ROWS"
proof (intro conjI)
  show "rh3_schedule = map (\<lambda>k. (Suc (k div 10), Suc (k mod 10), RH3_PASS_ROWS ! (k mod 10))) [0..<20]"
    by code_simp
  show "dropWhile (\<lambda>r. healthy r \<and> segment_count r = 1) RH3_PASS_ROWS = [RH3_RECONNECT_ROW, RH3_HANG_ROW, RH3_STALL_ROW]"
    by code_simp
  show "set RH3_PASS_ROWS = set ALL_ROWS - {RH2_ROW}" by code_simp
  show "list_all (\<lambda>r. minimum_scored_interval_s r = Inr (Fin 120)) RH3_PASS_ROWS"
    by (simp add: row_constants minimum_scored_interval_s_def table_at_def row_tables double_120)
  show "rs_state (hd RH3_PASS_ROWS) = ''fresh''" by code_simp
qed

end
