(* ===== verification/Hil_SourceClient.thy ===== *)
theory Hil_SourceClient
  imports Hil_Protocol Hil_Rows
begin

text \<open>
  The HIL1 source client, \<open>scripts/hil/source_client.py\<close>.  A method is a function on the client's state
  that returns the new state and its result; the result is \<open>None\<close> when a waiting loop has not come to
  an end within its fuel.  The console, the clock and the cancel flag are streams: the \<open>n\<close>-th call of
  \<open>next_line\<close>, \<open>clock\<close>, \<open>cancel\<close> and \<open>write\<close> has the outcome the stream gives for \<open>n\<close>.  Clock
  readings and timeouts are exact rationals.  A cleanup callback is a tag, because the stack holds bound
  methods of the client itself.
\<close>

section \<open>Constants\<close>

definition FIRMWARE_ID :: string where
  "FIRMWARE_ID = ''le-audio-hil-source-rh1''"

definition SOURCE_PROTOCOL_VERSION :: int where
  "SOURCE_PROTOCOL_VERSION = 1"

definition SAMPLE_RATE_HZ :: int where
  "SAMPLE_RATE_HZ = 48000"

definition HELLO_CONSTANTS :: "(string \<times> int) list" where
  "HELLO_CONSTANTS =
     [(''sample_rate'', SAMPLE_RATE_HZ), (''frame_samples_48_3_1'', 360), (''octets_48_3_1'', 90),
      (''sdu_mono_48_3_1'', 90), (''sdu_modeb_48_3_1'', 180), (''frame_samples_48_4_1'', 480),
      (''octets_48_4_1'', 120), (''sdu_mono_48_4_1'', 120), (''sdu_modeb_48_4_1'', 240),
      (''preamble_samples'', 69120), (''tail_frames_48_3_1'', 667), (''tail_frames_48_4_1'', 500),
      (''left_carrier_hz'', 997), (''right_carrier_hz'', 1601), (''default_seed'', 1218649181)]"

definition ACK_TIMEOUT :: rat where "ACK_TIMEOUT = 5"

definition SYNC_TIMEOUT :: rat where "SYNC_TIMEOUT = 15"

definition SCORED_TIMEOUT :: rat where "SCORED_TIMEOUT = 90"

definition TERMINAL_TIMEOUT :: rat where "TERMINAL_TIMEOUT = 120"

definition STATUS_TIMEOUT :: rat where "STATUS_TIMEOUT = 15"

definition STOP_TIMEOUT :: rat where "STOP_TIMEOUT = 10"

definition ABORT_TERMINAL_TIMEOUT :: rat where "ABORT_TERMINAL_TIMEOUT = 30"

definition IDLE_TIMEOUT :: rat where "IDLE_TIMEOUT = 30"

definition MAX_COMMAND_LINE :: nat where "MAX_COMMAND_LINE = 512"

text \<open>\<open>IDENTITY_RE.match\<close>: six upper-case hexadecimal pairs; \<open>$\<close> also matches before a final line feed.\<close>

definition upper_hex :: "char \<Rightarrow> bool" where
  "upper_hex c \<longleftrightarrow> byte_in 48 57 c \<or> byte_in 65 70 c"

fun hex_pairs :: "nat \<Rightarrow> string \<Rightarrow> bool" where
  "hex_pairs 0 s \<longleftrightarrow> s = [] \<or> s = [CHR 0x0A]"
| "hex_pairs (Suc n) s \<longleftrightarrow>
     (case s of
        c # a # b # r \<Rightarrow> c = CHR '':'' \<and> upper_hex a \<and> upper_hex b \<and> hex_pairs n r
      | _ \<Rightarrow> False)"

definition identity_match :: "string \<Rightarrow> bool" where
  "identity_match s \<longleftrightarrow> (case s of a # b # r \<Rightarrow> upper_hex a \<and> upper_hex b \<and> hex_pairs 5 r | _ \<Rightarrow> False)"

section \<open>State\<close>

datatype cleanup_tag = PrestartIdle | StopIdle

record console_env =
  ce_lines :: "nat \<Rightarrow> string option result"
  ce_clock :: "nat \<Rightarrow> rat"
  ce_cancel :: "nat \<Rightarrow> bool"
  ce_write :: "nat \<Rightarrow> unit result"

record source_client =
  sc_run_id :: string
  sc_cleanup :: "(cleanup_tag list \<times> bool) option"
  sc_cmd_seq :: nat
  sc_tracker :: "hil_tracker option"
  sc_pending_status :: "string option"
  sc_ack_seen :: bool
  sc_records :: "string list"
  sc_stop_cleanup_registered :: bool
  sc_idle_complete :: bool
  sc_prestart_cleanup_registered :: bool
  sc_env :: console_env
  sc_line_calls :: nat
  sc_clock_calls :: nat
  sc_cancel_calls :: nat
  sc_written :: "string list"

definition new_client :: "string \<Rightarrow> (cleanup_tag list \<times> bool) option \<Rightarrow> console_env \<Rightarrow> source_client" where
  "new_client run_id cleanup env =
     \<lparr>sc_run_id = run_id, sc_cleanup = cleanup, sc_cmd_seq = 0, sc_tracker = None, sc_pending_status = None,
      sc_ack_seen = False, sc_records = [], sc_stop_cleanup_registered = False, sc_idle_complete = False,
      sc_prestart_cleanup_registered = False, sc_env = env, sc_line_calls = 0, sc_clock_calls = 0,
      sc_cancel_calls = 0, sc_written = []\<rparr>"

definition record_lines :: "source_client \<Rightarrow> string list" where
  "record_lines s = sc_records s"

type_synonym 'a act = "source_client \<Rightarrow> source_client \<times> 'a result option"

definition sreturn :: "'a \<Rightarrow> 'a act" where
  "sreturn x s = (s, Some (Inr x))"

definition sraise :: "exn \<Rightarrow> 'a act" where
  "sraise e s = (s, Some (Inl e))"

definition sbind :: "'a act \<Rightarrow> ('a \<Rightarrow> 'b act) \<Rightarrow> 'b act" where
  "sbind m f s =
     (case m s of
        (s', Some (Inr x)) \<Rightarrow> f x s'
      | (s', Some (Inl e)) \<Rightarrow> (s', Some (Inl e))
      | (s', None) \<Rightarrow> (s', None))"

text \<open>\<open>try: m except \<dots>: h\<close>, where \<open>h\<close> tells which exceptions it handles.\<close>

definition scatch :: "'a act \<Rightarrow> (exn \<Rightarrow> 'a act option) \<Rightarrow> 'a act" where
  "scatch m h s =
     (case m s of
        (s', Some (Inl e)) \<Rightarrow> (case h e of Some k \<Rightarrow> k s' | None \<Rightarrow> (s', Some (Inl e)))
      | r \<Rightarrow> r)"

definition sget :: "(source_client \<Rightarrow> 'a) \<Rightarrow> 'a act" where
  "sget f s = (s, Some (Inr (f s)))"

definition smod :: "(source_client \<Rightarrow> source_client) \<Rightarrow> unit act" where
  "smod f s = (f s, Some (Inr ()))"

definition slift :: "'a result \<Rightarrow> 'a act" where
  "slift r s = (s, Some r)"

abbreviation client_err :: "msg \<Rightarrow> 'a act" where
  "client_err m \<equiv> sraise (SourceClientError m)"

fun is_client_error :: "exn \<Rightarrow> bool" where
  "is_client_error (SourceClientError _) = True"
| "is_client_error _ = False"

section \<open>Hooks\<close>

text \<open>A lifecycle hook by what \<open>inspect.signature\<close> tells of it: none at all, a callable without a
  signature, one that accepts the segment, one that accepts no argument, or neither.\<close>

datatype hook = NoHook | HookUnknown "nat \<Rightarrow> unit act" | HookSegment "nat \<Rightarrow> unit act" | HookPlain "unit act" | HookBad

fun invoke_segment_hook :: "hook \<Rightarrow> nat \<Rightarrow> unit act" where
  "invoke_segment_hook NoHook segment = sreturn ()"
| "invoke_segment_hook (HookUnknown h) segment = h segment"
| "invoke_segment_hook (HookSegment h) segment = h segment"
| "invoke_segment_hook (HookPlain h) segment = h"
| "invoke_segment_hook HookBad segment =
     client_err (text_msg ''lifecycle hook must accept zero arguments or one segment argument'')"

definition is_diagnostic_record :: "hil_record \<Rightarrow> bool" where
  "is_diagnostic_record r \<longleftrightarrow>
     hr_command_id r = ''boot'' \<and> hr_run_id r = ''boot'' \<or>
     hr_command_id r = ''parse-error'' \<and> hr_run_id r = ''unbound''"

section \<open>Commands\<close>

definition pad4 :: "nat \<Rightarrow> string" where
  "pad4 n = (let d = dec_of_nat n in replicate (4 - length d) CHR ''0'' @ d)"

definition command_id_text :: "nat \<Rightarrow> string" where
  "command_id_text n = ''cmd-'' @ pad4 n"

definition next_command_id :: "string act" where
  "next_command_id =
     sbind (smod (\<lambda>s. s\<lparr>sc_cmd_seq := Suc (sc_cmd_seq s)\<rparr>)) (\<lambda>_.
     sget (\<lambda>s. command_id_text (sc_cmd_seq s)))"

definition command_payload :: "string \<Rightarrow> string \<Rightarrow> string \<Rightarrow> pydict \<Rightarrow> pydict" where
  "command_payload run_id command command_id extra =
     foldl (\<lambda>d (k, v). dict_set d k v)
       [(''protocol_version'', PInt SOURCE_PROTOCOL_VERSION), (''command'', PStr command),
        (''command_id'', PStr command_id), (''run_id'', PStr run_id)] extra"

text \<open>The payload holds strings and integers only, so no float is ever printed.\<close>

definition command_line :: "string \<Rightarrow> string \<Rightarrow> string \<Rightarrow> pydict \<Rightarrow> string result" where
  "command_line run_id command command_id extra =
     (let body = json_dumps (\<lambda>_. []) '','' '':'' (PDict (command_payload run_id command command_id extra));
          line = ''hil '' @ body
      in if MAX_COMMAND_LINE \<le> length line
         then Inl (SourceClientError (val_msg ''source command line exceeds shell capacity (%d bytes)'' (PInt (int (length line)))))
         else Inr line)"

definition send :: "string \<Rightarrow> unit act" where
  "send line =
     sbind (sget (\<lambda>s. ce_write (sc_env s) (length (sc_written s)))) (\<lambda>r.
     sbind (smod (\<lambda>s. s\<lparr>sc_written := sc_written s @ [line @ [CHR 0x0A]]\<rparr>)) (\<lambda>_.
     slift r))"

definition check_cancel :: "bool \<Rightarrow> unit act" where
  "check_cancel enabled =
     (if enabled then
        sbind (sget (\<lambda>s. ce_cancel (sc_env s) (sc_cancel_calls s))) (\<lambda>c.
        sbind (smod (\<lambda>s. s\<lparr>sc_cancel_calls := Suc (sc_cancel_calls s)\<rparr>)) (\<lambda>_.
        if c then sraise (SourceClientCancelled (text_msg ''cancelled during source operation'')) else sreturn ()))
      else sreturn ())"

definition read_clock :: "rat act" where
  "read_clock =
     sbind (sget (\<lambda>s. ce_clock (sc_env s) (sc_clock_calls s))) (\<lambda>t.
     sbind (smod (\<lambda>s. s\<lparr>sc_clock_calls := Suc (sc_clock_calls s)\<rparr>)) (\<lambda>_. sreturn t))"

definition console_next_line :: "string option act" where
  "console_next_line =
     sbind (sget (\<lambda>s. ce_lines (sc_env s) (sc_line_calls s))) (\<lambda>r.
     sbind (smod (\<lambda>s. s\<lparr>sc_line_calls := Suc (sc_line_calls s)\<rparr>)) (\<lambda>_. slift r))"

section \<open>Records\<close>

definition parse_client_line :: "string \<Rightarrow> hil_record option result" where
  "parse_client_line line =
     (case parse_hil1_line (LStr line) of
        Inl (HilProtocolError m) \<Rightarrow> Inl (SourceClientError (exn_msg ''malformed HIL1 line: %s'' (HilProtocolError m)))
      | Inl e \<Rightarrow> Inl e
      | Inr (Some r) \<Rightarrow>
          if is_diagnostic_record r
          then Inl (SourceClientError (Fmt ''source diagnostic HIL1 record: command_id=%r run_id=%r''
                 [AV (PStr (hr_command_id r)), AV (PStr (hr_run_id r))]))
          else Inr (Some r)
      | Inr None \<Rightarrow> Inr None)"

definition next_record :: "bool \<Rightarrow> (hil_record option \<times> string option) act" where
  "next_record cc =
     sbind (check_cancel cc) (\<lambda>_.
     sbind console_next_line (\<lambda>line.
     sbind (check_cancel cc) (\<lambda>_.
     case line of
       None \<Rightarrow> sreturn (None, None)
     | Some l \<Rightarrow>
         sbind (smod (\<lambda>s. s\<lparr>sc_records := sc_records s @ [l]\<rparr>)) (\<lambda>_.
         sbind (slift (parse_client_line l)) (\<lambda>r. sreturn (r, Some l))))))"

definition tracker_accept :: "hil_record \<Rightarrow> unit act" where
  "tracker_accept r s =
     (case sc_tracker s of
        None \<Rightarrow> (s, Some (Inl (SourceClientError (text_msg ''source record without an active run''))))
      | Some t \<Rightarrow> (case accept t r of (t', res) \<Rightarrow> (s\<lparr>sc_tracker := Some t'\<rparr>, Some res)))"

definition dispatch :: "hil_record \<Rightarrow> hil_record option act" where
  "dispatch r =
     sbind (sget sc_tracker) (\<lambda>tracker.
     case tracker of
       None \<Rightarrow> client_err (text_msg ''source record without an active run'')
     | Some t \<Rightarrow>
         if hr_kind r = ''status'' then
           sbind (sget sc_pending_status) (\<lambda>pending.
             if pending = Some (hr_command_id r)
             then sbind (smod (\<lambda>s. s\<lparr>sc_pending_status := None\<rparr>)) (\<lambda>_. sreturn (Some r))
             else client_err (text_msg ''unsolicited source status record''))
         else
           sbind (smod (\<lambda>s. if hr_kind r = ''ack'' \<and> hr_command_id r = ht_command_id t
                           then s\<lparr>sc_ack_seen := True\<rparr> else s)) (\<lambda>_.
           sbind (tracker_accept r) (\<lambda>_. sreturn None)))"

definition require_status_ok :: "hil_record \<Rightarrow> string \<Rightarrow> unit result" where
  "require_status_ok r expected =
     (let data = hr_data r in
      if \<not> py_eq (dict_get data ''command'') (PStr expected)
      then Inl (SourceClientError (Fmt ''status command mismatch: expected %r, got %r''
             [AV (PStr expected), AV (dict_get data ''command'')]))
      else if \<not> is_True (dict_get data ''ok'')
      then Inl (SourceClientError (val_msg ''status not ok: %r'' (dict_get data ''error'')))
      else if \<not> py_eq (dict_get data ''error'') (PStr ''ok'')
      then Inl (SourceClientError (val_msg ''status error not ok: %r'' (dict_get data ''error'')))
      else Inr ())"

text \<open>The common head of every waiting loop: cancel check, remaining time, one record.\<close>

definition poll :: "bool \<Rightarrow> rat \<Rightarrow> (hil_record option \<times> rat) act" where
  "poll cc deadline =
     sbind (check_cancel cc) (\<lambda>_.
     sbind read_clock (\<lambda>now.
     sbind (next_record cc) (\<lambda>(record, line). sreturn (record, deadline - now))))"

fun wait_status_loop :: "nat \<Rightarrow> string \<Rightarrow> bool \<Rightarrow> rat \<Rightarrow> hil_record option act" where
  "wait_status_loop 0 command_id cc deadline = (\<lambda>s. (s, None))"
| "wait_status_loop (Suc n) command_id cc deadline =
     sbind (poll cc deadline) (\<lambda>(record, remaining).
       case record of
         None \<Rightarrow> if remaining \<le> 0 then sreturn None else wait_status_loop n command_id cc deadline
       | Some r \<Rightarrow>
           if hr_kind r = ''status'' \<and> hr_command_id r = command_id then sreturn (Some r)
           else sbind (dispatch r) (\<lambda>_. wait_status_loop n command_id cc deadline))"

definition wait_status :: "nat \<Rightarrow> string \<Rightarrow> string \<Rightarrow> rat \<Rightarrow> bool \<Rightarrow> hil_record act" where
  "wait_status n command_id expected timeout cc =
     sbind read_clock (\<lambda>now.
     sbind (wait_status_loop n command_id cc (now + timeout)) (\<lambda>got.
     case got of
       None \<Rightarrow> client_err (str_msg ''no status response for command %s'' command_id)
     | Some r \<Rightarrow> sbind (slift (require_status_ok r expected)) (\<lambda>_. sreturn r)))"

definition send_command :: "string \<Rightarrow> string \<Rightarrow> pydict \<Rightarrow> unit act" where
  "send_command command command_id extra =
     sbind (sget sc_run_id) (\<lambda>run_id.
     sbind (slift (command_line run_id command command_id extra)) send)"

text \<open>A fresh command id, a change of the state that may depend on it, and the command line.\<close>

definition issue_command :: "(string \<Rightarrow> source_client \<Rightarrow> source_client) \<Rightarrow> string \<Rightarrow> pydict \<Rightarrow> string act" where
  "issue_command prepare command extra =
     sbind next_command_id (\<lambda>command_id.
     sbind (smod (prepare command_id)) (\<lambda>_.
     sbind (send_command command command_id extra) (\<lambda>_. sreturn command_id)))"

definition sync_command :: "nat \<Rightarrow> string \<Rightarrow> string \<Rightarrow> rat \<Rightarrow> bool \<Rightarrow> pydict \<Rightarrow> hil_record act" where
  "sync_command n command expected timeout cc extra =
     sbind (check_cancel cc) (\<lambda>_.
     sbind (issue_command (\<lambda>_ s. s) command extra) (\<lambda>command_id.
     wait_status n command_id expected timeout cc))"

definition idle :: "nat \<Rightarrow> rat \<Rightarrow> bool \<Rightarrow> unit act" where
  "idle n timeout cc =
     sbind (sync_command n ''idle'' ''idle'' timeout cc []) (\<lambda>_.
     smod (\<lambda>s. s\<lparr>sc_idle_complete := True\<rparr>))"

text \<open>\<open>CleanupStack.register\<close> on the stack of the client: its callbacks in order and whether it is closed.\<close>

definition cleanup_register :: "cleanup_tag \<Rightarrow> unit act" where
  "cleanup_register tag s =
     (case sc_cleanup s of
        None \<Rightarrow> (s, Some (Inr ()))
      | Some (cbs, shut) \<Rightarrow>
          if shut then (s, Some (Inl (RuntimeError (text_msg ''cleanup stack already closed''))))
          else (s\<lparr>sc_cleanup := Some (cbs @ [tag], shut)\<rparr>, Some (Inr ())))"

definition register_prestart_cleanup :: "unit act" where
  "register_prestart_cleanup =
     sbind (sget (\<lambda>s. sc_cleanup s = None \<or> sc_prestart_cleanup_registered s)) (\<lambda>skip.
     if skip then sreturn ()
     else
       sbind (smod (\<lambda>s. s\<lparr>sc_idle_complete := False\<rparr>)) (\<lambda>_.
       sbind (cleanup_register PrestartIdle) (\<lambda>_.
       smod (\<lambda>s. s\<lparr>sc_prestart_cleanup_registered := True\<rparr>))))"

text \<open>\<open>raise SerialConsoleError (\<dots> % exc) from exc\<close> for client errors only.\<close>

definition rename_client_error :: "string \<Rightarrow> exn \<Rightarrow> 'a act option" where
  "rename_client_error fmt e =
     (if is_client_error e then Some (sraise (SerialConsoleError (exn_msg fmt e))) else None)"

definition bounded_prestart_idle :: "nat \<Rightarrow> unit act" where
  "bounded_prestart_idle n =
     sbind (sget (\<lambda>s. sc_idle_complete s \<or> sc_tracker s \<noteq> None)) (\<lambda>skip.
     if skip then sreturn ()
     else scatch (idle n IDLE_TIMEOUT False) (rename_client_error ''source pre-start idle cleanup failed: %s''))"

record source_snapshot =
  ss_firmware_id :: pyval
  ss_protocol_version :: pyval
  ss_identity :: pyval
  ss_identity_type :: pyval
  ss_active :: pyval
  ss_state :: pyval
  ss_segment :: pyval
  ss_bond_count :: pyval

definition validate_hello :: "source_snapshot \<Rightarrow> pydict \<Rightarrow> unit result" where
  "validate_hello snap data =
     (if \<not> py_eq (ss_firmware_id snap) (PStr FIRMWARE_ID)
      then Inl (SourceClientError (val_msg ''hello firmware id mismatch: %r'' (ss_firmware_id snap)))
      else if \<not> py_eq (ss_protocol_version snap) (PInt SOURCE_PROTOCOL_VERSION)
      then Inl (SourceClientError (val_msg ''hello protocol version mismatch: %r'' (ss_protocol_version snap)))
      else if \<not> is_False (ss_active snap) \<or> \<not> py_eq (ss_state snap) (PStr ''idle'')
      then Inl (SourceClientError (Fmt ''hello not idle: active=%r state=%r'' [AV (ss_active snap), AV (ss_state snap)]))
      else if \<not> py_eq (ss_segment snap) (PInt 0)
      then Inl (SourceClientError (text_msg ''hello segment must be 0''))
      else if \<not> (case ss_identity snap of PStr s \<Rightarrow> identity_match s | _ \<Rightarrow> False)
      then Inl (SourceClientError (val_msg ''hello identity not canonical: %r'' (ss_identity snap)))
      else if \<not> (py_eq (ss_identity_type snap) (PStr ''public'') \<or> py_eq (ss_identity_type snap) (PStr ''random''))
      then Inl (SourceClientError (val_msg ''hello identity type not canonical: %r'' (ss_identity_type snap)))
      else rall (\<lambda>(key, expected).
             require (py_eq (dict_get data key) (PInt expected))
               (SourceClientError (Fmt ''hello constant %r mismatch: expected %r, got %r''
                  [AV (PStr key), AV (PInt expected), AV (dict_get data key)]))) HELLO_CONSTANTS)"

definition hello :: "nat \<Rightarrow> rat \<Rightarrow> source_snapshot act" where
  "hello n timeout =
     sbind (sync_command n ''hello'' ''hello'' timeout True []) (\<lambda>record.
       let data = hr_data record;
           snap = \<lparr>ss_firmware_id = dict_get data ''firmware_id'', ss_protocol_version = dict_get data ''protocol_version'',
                   ss_identity = dict_get data ''identity'', ss_identity_type = dict_get data ''identity_type'',
                   ss_active = dict_get data ''active'', ss_state = dict_get data ''state'',
                   ss_segment = dict_get data ''segment'', ss_bond_count = dict_get data ''bond_count''\<rparr>
       in sbind (slift (validate_hello snap data)) (\<lambda>_. sreturn snap))"

definition unpair :: "nat \<Rightarrow> string \<Rightarrow> string \<Rightarrow> rat \<Rightarrow> unit act" where
  "unpair n peer_address peer_address_type timeout =
     sbind (sync_command n ''unpair'' ''unpair'' timeout True
              [(''peer_address'', PStr peer_address), (''peer_address_type'', PStr peer_address_type)]) (\<lambda>_. sreturn ())"

definition configure :: "nat \<Rightarrow> string \<Rightarrow> string \<Rightarrow> string \<Rightarrow> string \<Rightarrow> int \<Rightarrow> int \<Rightarrow> string \<Rightarrow> rat \<Rightarrow> unit act" where
  "configure n peer_address peer_address_type mode profile scored_sdu_count signal_seed reconnect_policy timeout =
     sbind (sync_command n ''configure'' ''configure'' timeout True
              [(''peer_address'', PStr peer_address), (''peer_address_type'', PStr peer_address_type), (''mode'', PStr mode),
               (''profile'', PStr profile), (''scored_sdu_count'', PInt scored_sdu_count), (''signal_seed'', PInt signal_seed),
               (''reconnect_policy'', PStr reconnect_policy)]) (\<lambda>_. sreturn ())"

definition stop :: "nat \<Rightarrow> rat \<Rightarrow> bool \<Rightarrow> unit act" where
  "stop n timeout cc = sbind (sync_command n ''stop'' ''stop'' timeout cc []) (\<lambda>_. sreturn ())"

fun query_status_loop :: "nat \<Rightarrow> string \<Rightarrow> rat \<Rightarrow> pydict act" where
  "query_status_loop 0 command_id deadline = (\<lambda>s. (s, None))"
| "query_status_loop (Suc n) command_id deadline =
     sbind (poll True deadline) (\<lambda>(record, remaining).
       case record of
         None \<Rightarrow>
           if remaining \<le> 0 then client_err (text_msg ''status query timed out'')
           else query_status_loop n command_id deadline
       | Some r \<Rightarrow>
           if hr_kind r = ''status'' \<and> hr_command_id r = command_id then
             sbind (slift (require_status_ok r ''status'')) (\<lambda>_.
             sbind (smod (\<lambda>s. s\<lparr>sc_pending_status := None\<rparr>)) (\<lambda>_. sreturn (hr_data r)))
           else sbind (dispatch r) (\<lambda>_. query_status_loop n command_id deadline))"

definition query_status :: "nat \<Rightarrow> rat \<Rightarrow> pydict act" where
  "query_status n timeout =
     sbind (issue_command (\<lambda>command_id s. s\<lparr>sc_pending_status := Some command_id\<rparr>) ''status'' []) (\<lambda>command_id.
     sbind read_clock (\<lambda>now. query_status_loop n command_id (now + timeout)))"

section \<open>Validation of status snapshots\<close>

text \<open>One entry of the list of errors: its format and arguments.\<close>

definition err_item :: "string \<Rightarrow> pyval list \<Rightarrow> pyval" where
  "err_item fmt args = PList (PStr fmt # args)"

definition check_item :: "bool \<Rightarrow> string \<Rightarrow> pyval list \<Rightarrow> pyval list" where
  "check_item c fmt args = (if c then [err_item fmt args] else [])"

definition index_val :: "nat \<Rightarrow> pyval" where
  "index_val i = PInt (int i)"

text \<open>Lines 608--631.\<close>

definition final_stream_errors :: "row_spec \<Rightarrow> int \<Rightarrow> nat \<times> pyval \<Rightarrow> pyval list" where
  "final_stream_errors row submitted_target p =
     (case p of
        (i, PDict d) \<Rightarrow>
          check_item (\<not> isinstance_int (dict_get d ''sub'') \<or> \<not> py_eq (dict_get d ''sub'') (PInt submitted_target))
            ''stream[%d] submitted=%r'' [index_val i, dict_get d ''sub''] @
          check_item (\<not> py_eq (dict_get d ''sc'') (PInt (expected_scored_per_stream row)))
            ''stream[%d] scored=%r'' [index_val i, dict_get d ''sc''] @
          check_item (\<not> py_eq (dict_get d ''sf'') (PInt 0)) ''stream[%d] send_failures=%r'' [index_val i, dict_get d ''sf''] @
          check_item (\<not> py_eq (dict_get d ''out'') (PInt 0)) ''stream[%d] outstanding=%r'' [index_val i, dict_get d ''out'']
      | (i, _) \<Rightarrow> [err_item ''stream[%d] not object'' [index_val i]])"

definition streams_errors :: "(nat \<times> pyval \<Rightarrow> pyval list) \<Rightarrow> int \<Rightarrow> pyval \<Rightarrow> pyval list" where
  "streams_errors f count v =
     (case v of
        PList streams \<Rightarrow>
          if int (length streams) \<noteq> count then [err_item ''streams shape'' []]
          else concat (map f (enumerate 0 streams))
      | _ \<Rightarrow> [err_item ''streams shape'' []])"

definition validate_final_status :: "pydict \<Rightarrow> row_spec \<Rightarrow> unit result" where
  "validate_final_status data row =
     rbind (stream_count row) (\<lambda>count.
     rbind (expected_submitted_per_stream row) (\<lambda>submitted.
       let get = dict_get data;
           differs = (\<lambda>k v fmt. check_item (\<not> py_eq (get k) v) fmt [get k]);
           errors =
             check_item (\<not> is_False (get ''active'')) ''active'' [] @
             differs ''state'' (PStr ''teardown'') ''state=%r'' @
             check_item (\<not> is_False (get ''aborted'')) ''aborted'' [] @
             differs ''verdict'' (PStr ''pass'') ''verdict=%r'' @
             differs ''first_errno'' (PInt 0) ''first_errno=%r'' @
             differs ''mode'' (PStr (rs_mode row)) ''mode=%r'' @
             differs ''profile'' (PStr (rs_profile row)) ''profile=%r'' @
             differs ''reconnect'' (PStr (rs_reconnect_policy row)) ''reconnect=%r'' @
             differs ''scored_target'' (PInt (rs_scored_sdu_count row)) ''scored_target=%r'' @
             differs ''segment'' (PInt (segment_count row - 1)) ''segment=%r'' @
             differs ''stream_count'' (PInt count) ''stream_count=%r'' @
             streams_errors (final_stream_errors row submitted) count (get ''streams'') @
             check_item (\<not> is_False (get ''connected'')) ''connected'' [] @
             check_item (\<not> is_False (get ''group'')) ''group'' [] @
             differs ''security_level'' (PInt 0) ''security_level=%r'' @
             differs ''security_error'' (PInt 0) ''security_error=%r'' @
             differs ''sink_ase_count'' (PInt 0) ''sink_ase_count=%r'' @
             differs ''bond_count'' (PInt 1) ''bond_count=%r''
       in if errors \<noteq> []
          then Inl (SourceClientError (val_msg ''final status snapshot invalid: %s'' (PList errors)))
          else Inr ()))"

text \<open>Lines 689--708.\<close>

definition active_stream_errors :: "nat \<times> pyval \<Rightarrow> pyval list" where
  "active_stream_errors p =
     (case p of
        (i, PDict d) \<Rightarrow>
          (let counter = (\<lambda>k fmt. check_item (\<not> isinstance_int (dict_get d k) \<or> int_value (dict_get d k) < 0)
                 fmt [index_val i, dict_get d k])
           in check_item (\<not> py_eq (dict_get d ''sf'') (PInt 0)) ''stream[%d] send_failures=%r'' [index_val i, dict_get d ''sf''] @
              counter ''sub'' ''stream[%d] submitted=%r'' @
              counter ''sc'' ''stream[%d] scored=%r'' @
              counter ''out'' ''stream[%d] outstanding=%r'' @
              counter ''cb'' ''stream[%d] callbacks=%r'')
      | (i, _) \<Rightarrow> [err_item ''stream[%d] not object'' [index_val i]])"

definition validate_active_status :: "pydict \<Rightarrow> row_spec \<Rightarrow> pyval \<Rightarrow> unit result" where
  "validate_active_status data row segment =
     rbind (stream_count row) (\<lambda>count.
       let get = dict_get data;
           differs = (\<lambda>k v fmt. check_item (\<not> py_eq (get k) v) fmt [get k]);
           errors =
             check_item (\<not> is_True (get ''active'')) ''active=%r'' [get ''active''] @
             differs ''state'' (PStr ''streaming'') ''state=%r'' @
             differs ''segment'' segment ''segment=%r'' @
             check_item (\<not> is_False (get ''aborted'')) ''aborted=%r'' [get ''aborted''] @
             differs ''verdict'' (PStr ''none'') ''verdict=%r'' @
             differs ''first_errno'' (PInt 0) ''first_errno=%r'' @
             differs ''mode'' (PStr (rs_mode row)) ''mode=%r'' @
             differs ''profile'' (PStr (rs_profile row)) ''profile=%r'' @
             differs ''reconnect'' (PStr (rs_reconnect_policy row)) ''reconnect=%r'' @
             differs ''scored_target'' (PInt (rs_scored_sdu_count row)) ''scored_target=%r'' @
             differs ''stream_count'' (PInt count) ''stream_count=%r'' @
             streams_errors active_stream_errors count (get ''streams'') @
             check_item (\<not> is_True (get ''connected'')) ''connected=%r'' [get ''connected''] @
             check_item (\<not> is_True (get ''group'')) ''group=%r'' [get ''group''] @
             check_item (\<not> isinstance_int (get ''security_level'') \<or> int_value (get ''security_level'') < 2)
               ''security_level=%r'' [get ''security_level''] @
             differs ''security_error'' (PInt 0) ''security_error=%r'' @
             check_item (\<not> isinstance_int (get ''sink_ase_count'') \<or> int_value (get ''sink_ase_count'') < count)
               ''sink_ase_count=%r'' [get ''sink_ase_count''] @
             differs ''bond_count'' (PInt 1) ''bond_count=%r''
       in if errors \<noteq> []
          then Inl (SourceClientError (val_msg ''active status snapshot invalid: %s'' (PList errors)))
          else Inr ())"

section \<open>Start and tracking\<close>

fun wait_ack_loop :: "nat \<Rightarrow> rat \<Rightarrow> unit act" where
  "wait_ack_loop 0 deadline = (\<lambda>s. (s, None))"
| "wait_ack_loop (Suc n) deadline =
     sbind (sget sc_ack_seen) (\<lambda>seen.
       if seen then sreturn ()
       else
         sbind (poll True deadline) (\<lambda>(record, remaining).
           case record of
             None \<Rightarrow> if remaining \<le> 0 then sreturn () else wait_ack_loop n deadline
           | Some r \<Rightarrow> sbind (dispatch r) (\<lambda>_. wait_ack_loop n deadline)))"

definition wait_ack :: "nat \<Rightarrow> rat \<Rightarrow> unit act" where
  "wait_ack n timeout =
     sbind read_clock (\<lambda>now.
     sbind (wait_ack_loop n (now + timeout)) (\<lambda>_.
     sbind (sget sc_ack_seen) (\<lambda>seen.
       if seen then sreturn () else client_err (text_msg ''start ACK not received''))))"

text \<open>\<open>predicate (self._tracker)\<close>; the tracker is there whenever the loop is entered.\<close>

definition tracker_is :: "(hil_tracker \<Rightarrow> bool) \<Rightarrow> source_client \<Rightarrow> bool" where
  "tracker_is p s = (case sc_tracker s of None \<Rightarrow> False | Some t \<Rightarrow> p t)"

fun drive_loop :: "nat \<Rightarrow> (hil_tracker \<Rightarrow> bool) \<Rightarrow> rat \<Rightarrow> bool \<Rightarrow> unit act" where
  "drive_loop 0 p deadline cc = (\<lambda>s. (s, None))"
| "drive_loop (Suc n) p deadline cc =
     sbind (sget (tracker_is p)) (\<lambda>reached.
       if reached then sreturn ()
       else
         sbind (poll cc deadline) (\<lambda>(record, remaining).
           case record of
             None \<Rightarrow> if remaining \<le> 0 then sreturn () else drive_loop n p deadline cc
           | Some r \<Rightarrow> sbind (dispatch r) (\<lambda>_. drive_loop n p deadline cc)))"

definition drive_until :: "nat \<Rightarrow> (hil_tracker \<Rightarrow> bool) \<Rightarrow> rat \<Rightarrow> bool \<Rightarrow> unit act" where
  "drive_until n p timeout cc =
     sbind read_clock (\<lambda>now.
     sbind (drive_loop n p (now + timeout) cc) (\<lambda>_.
     sbind (sget (tracker_is p)) (\<lambda>reached.
       if reached then sreturn () else client_err (text_msg ''run state deadline exceeded''))))"

definition state_position :: "string \<Rightarrow> int" where
  "state_position name = (case list_index STATES name of Some i \<Rightarrow> int i | None \<Rightarrow> -1)"

definition STREAMING_INDEX :: int where
  "STREAMING_INDEX = state_position ''streaming''"

definition SCORED_COMPLETE_INDEX :: int where
  "SCORED_COMPLETE_INDEX = state_position ''scored_complete''"

definition has_terminal :: "hil_tracker \<Rightarrow> bool" where
  "has_terminal t \<longleftrightarrow> ht_terminal t \<noteq> None"

definition reached :: "nat \<Rightarrow> int \<Rightarrow> hil_tracker \<Rightarrow> bool" where
  "reached segment index t \<longleftrightarrow> (ht_segment t = Some (int segment) \<and> index \<le> ht_state_index t) \<or> has_terminal t"

text \<open>One \<open>_drive_until\<close> of the segment loop with the check that the run did not end first.\<close>

definition drive_to :: "nat \<Rightarrow> (hil_tracker \<Rightarrow> bool) \<Rightarrow> rat \<Rightarrow> string \<Rightarrow> nat \<Rightarrow> unit act" where
  "drive_to n p timeout fmt segment =
     sbind (drive_until n p timeout True) (\<lambda>_.
     sbind (sget (tracker_is has_terminal)) (\<lambda>ended.
       if ended then client_err (val_msg fmt (PInt (int segment))) else sreturn ()))"

record start_hooks =
  sh_before_start :: hook
  sh_scored_complete :: hook
  sh_segment_teardown :: hook
  sh_streaming :: hook

text \<open>Lines 488--537: the body of the loop over the segments.\<close>

definition run_segment :: "nat \<Rightarrow> row_spec \<Rightarrow> start_hooks \<Rightarrow> rat \<Rightarrow> rat \<Rightarrow> nat \<Rightarrow> unit act" where
  "run_segment n row hooks scored_timeout terminal_timeout segment =
     sbind (drive_to n (reached segment STREAMING_INDEX) scored_timeout
              ''run terminal arrived before segment %d streaming'' segment) (\<lambda>_.
     sbind (invoke_segment_hook (sh_streaming hooks) segment) (\<lambda>_.
     sbind (drive_to n (reached segment SCORED_COMPLETE_INDEX) scored_timeout
              ''run terminal arrived before segment %d scored_complete'' segment) (\<lambda>_.
     sbind (invoke_segment_hook (sh_scored_complete hooks) segment) (\<lambda>_.
     sbind (drive_to n (reached segment TEARDOWN_INDEX) terminal_timeout
              ''run terminal arrived before segment %d teardown'' segment) (\<lambda>_.
     sbind (invoke_segment_hook (sh_segment_teardown hooks) segment) (\<lambda>_.
       if int segment < segment_count row - 1
       then drive_to n (\<lambda>t. ht_segment t = Some (int segment + 1) \<or> has_terminal t) terminal_timeout
              ''run terminal arrived before reconnect segment %d'' (segment + 1)
       else sreturn ()))))))"

fun run_segments :: "nat \<Rightarrow> row_spec \<Rightarrow> start_hooks \<Rightarrow> rat \<Rightarrow> rat \<Rightarrow> nat list \<Rightarrow> unit act" where
  "run_segments n row hooks scored_timeout terminal_timeout [] = sreturn ()"
| "run_segments n row hooks scored_timeout terminal_timeout (k # ks) =
     sbind (run_segment n row hooks scored_timeout terminal_timeout k) (\<lambda>_.
     run_segments n row hooks scored_timeout terminal_timeout ks)"

definition interval_of :: "row_spec \<Rightarrow> rat result" where
  "interval_of row =
     rbind (minimum_scored_interval_s row) (\<lambda>x.
       case x of Fin q \<Rightarrow> Inr q | _ \<Rightarrow> Inl (OtherException (text_msg ''no finite interval'')))"

text \<open>Lines 538--548.\<close>

definition finish_run :: "nat \<Rightarrow> row_spec \<Rightarrow> rat \<Rightarrow> pydict act" where
  "finish_run n row terminal_timeout =
     sbind (drive_until n has_terminal terminal_timeout True) (\<lambda>_.
     sbind (sget sc_tracker) (\<lambda>tracker.
     case (case tracker of None \<Rightarrow> None | Some t \<Rightarrow> ht_terminal t) of
       None \<Rightarrow> client_err (text_msg ''run terminal never arrived'')
     | Some m \<Rightarrow>
         if \<not> py_eq (dict_get (hr_data m) ''verdict'') (PStr ''pass'')
         then client_err (val_msg ''run terminal verdict is not pass: %r'' (dict_get (hr_data m) ''verdict''))
         else
           sbind (query_status n STATUS_TIMEOUT) (\<lambda>status.
           sbind (slift (validate_final_status status row)) (\<lambda>_. sreturn status))))"

text \<open>A timeout that is not given is the scored interval of the row plus a margin.\<close>

definition default_timeout :: "row_spec \<Rightarrow> rat \<Rightarrow> rat option \<Rightarrow> rat result" where
  "default_timeout row margin timeout =
     (case timeout of Some t \<Rightarrow> Inr t | None \<Rightarrow> rbind (interval_of row) (\<lambda>interval. Inr (interval + margin)))"

text \<open>Lines 476--483.\<close>

definition begin_run :: "string act" where
  "begin_run =
     sbind next_command_id (\<lambda>command_id.
     sbind (smod (\<lambda>s. s\<lparr>sc_idle_complete := False, sc_tracker := Some (new_tracker (sc_run_id s) command_id)\<rparr>)) (\<lambda>_.
     sreturn command_id))"

definition register_stop_cleanup :: "unit act" where
  "register_stop_cleanup =
     sbind (sget (\<lambda>s. sc_cleanup s \<noteq> None \<and> \<not> sc_stop_cleanup_registered s)) (\<lambda>reg.
     if reg
     then sbind (cleanup_register StopIdle) (\<lambda>_. smod (\<lambda>s. s\<lparr>sc_stop_cleanup_registered := True\<rparr>))
     else sreturn ())"

definition start :: "nat \<Rightarrow> row_spec \<Rightarrow> start_hooks \<Rightarrow> rat \<Rightarrow> rat option \<Rightarrow> rat option \<Rightarrow> pydict act" where
  "start n row hooks ack_timeout scored_timeout terminal_timeout =
     sbind (slift (default_timeout row SCORED_TIMEOUT scored_timeout)) (\<lambda>scored.
     sbind (slift (default_timeout row TERMINAL_TIMEOUT terminal_timeout)) (\<lambda>terminal.
     sbind (check_cancel True) (\<lambda>_.
     sbind begin_run (\<lambda>command_id.
     sbind register_stop_cleanup (\<lambda>_.
     sbind (invoke_segment_hook (sh_before_start hooks) 0) (\<lambda>_.
     sbind (send_command ''start'' command_id []) (\<lambda>_.
     sbind (wait_ack n ack_timeout) (\<lambda>_.
     sbind (run_segments n row hooks scored terminal [0..<nat (segment_count row)]) (\<lambda>_.
     finish_run n row terminal)))))))))"

section \<open>Bounded cleanup\<close>

fun drain_queued_records :: "nat \<Rightarrow> unit act" where
  "drain_queued_records 0 = (\<lambda>s. (s, None))"
| "drain_queued_records (Suc n) =
     sbind (next_record False) (\<lambda>(record, line).
       case line of
         None \<Rightarrow> sreturn ()
       | Some _ \<Rightarrow>
           (case record of
              None \<Rightarrow> drain_queued_records n
            | Some r \<Rightarrow> sbind (dispatch r) (\<lambda>_. drain_queued_records n)))"

text \<open>\<open>except SourceClientError: pass\<close>.\<close>

definition ignore_client_error :: "exn \<Rightarrow> unit act option" where
  "ignore_client_error e = (if is_client_error e then Some (sreturn ()) else None)"

definition bounded_stop :: "nat \<Rightarrow> unit act" where
  "bounded_stop n =
     sbind (sget (\<lambda>s. sc_tracker s = None \<or> sc_idle_complete s)) (\<lambda>skip.
     if skip then sreturn ()
     else
       sbind (drain_queued_records n) (\<lambda>_.
       sbind (sget (tracker_is has_terminal)) (\<lambda>ended.
       sbind (if ended then sreturn ()
              else
                sbind (scatch (stop n STOP_TIMEOUT False) ignore_client_error) (\<lambda>_.
                sbind (sget (tracker_is has_terminal)) (\<lambda>ended'.
                  if ended' then sreturn ()
                  else scatch (drive_until n has_terminal ABORT_TERMINAL_TIMEOUT False) ignore_client_error))) (\<lambda>_.
       scatch (idle n IDLE_TIMEOUT False) (rename_client_error ''source idle cleanup failed: %s'')))))"

section \<open>What an action does to the client\<close>

definition keeps :: "(source_client \<Rightarrow> source_client \<Rightarrow> bool) \<Rightarrow> 'a act \<Rightarrow> bool" where
  "keeps R m \<longleftrightarrow> (\<forall>s. R s (fst (m s)))"

text \<open>What is known of every value that an action returns.\<close>

definition returns :: "'a act \<Rightarrow> ('a \<Rightarrow> bool) \<Rightarrow> bool" where
  "returns m Q \<longleftrightarrow> (\<forall>s s' x. m s = (s', Some (Inr x)) \<longrightarrow> Q x)"

definition frame :: "source_client \<Rightarrow> source_client \<Rightarrow> bool" where
  "frame s s' \<longleftrightarrow> sc_run_id s' = sc_run_id s \<and> sc_cmd_seq s' = sc_cmd_seq s \<and> sc_tracker s' = sc_tracker s \<and>
     sc_written s' = sc_written s \<and> sc_env s' = sc_env s"

text \<open>The hooks of a start that keep a relation.\<close>

fun hook_keeps :: "(source_client \<Rightarrow> source_client \<Rightarrow> bool) \<Rightarrow> hook \<Rightarrow> bool" where
  "hook_keeps R (HookUnknown h) = (\<forall>k. keeps R (h k))"
| "hook_keeps R (HookSegment h) = (\<forall>k. keeps R (h k))"
| "hook_keeps R (HookPlain h) = keeps R h"
| "hook_keeps R _ = True"

lemma parse_client_line_wf: "parse_client_line l = Inr (Some r) \<Longrightarrow> wf_record r"
  using parse_hil1_line_wf [of "LStr l"]
  by (auto simp: parse_client_line_def split: sum.splits exn.splits option.splits if_splits)

lemma issue_command_alt:
  "issue_command g c x s =
     (let s1 = s\<lparr>sc_cmd_seq := Suc (sc_cmd_seq s)\<rparr>; i = command_id_text (Suc (sc_cmd_seq s)); s2 = g i s1 in
      case command_line (sc_run_id s2) c i x of
        Inl e \<Rightarrow> (s2, Some (Inl e))
      | Inr line \<Rightarrow>
          (s2\<lparr>sc_written := sc_written s2 @ [line @ [CHR 0x0A]]\<rparr>,
           (case ce_write (sc_env s2) (length (sc_written s2)) of Inl e \<Rightarrow> Some (Inl e) | Inr _ \<Rightarrow> Some (Inr i))))"
  by (auto simp: issue_command_def next_command_id_def send_command_def send_def sbind_def smod_def sget_def slift_def
      sreturn_def Let_def split: sum.splits)

lemma sbind_Inr:
  "sbind m f s = (s', Some (Inr y)) \<longleftrightarrow> (\<exists>s1 x. m s = (s1, Some (Inr x)) \<and> f x s1 = (s', Some (Inr y)))"
  by (auto simp: sbind_def split: prod.splits option.splits sum.splits)

lemma returns_sbind: "(\<And>x. returns (f x) Q) \<Longrightarrow> returns (sbind m f) Q"
  by (auto simp: returns_def sbind_Inr)

text \<open>Every record that \<open>next_record\<close> and the head of a waiting loop return is well formed.\<close>

definition wf_opt :: "hil_record option \<Rightarrow> bool" where
  "wf_opt r \<longleftrightarrow> (case r of None \<Rightarrow> True | Some x \<Rightarrow> wf_record x)"

lemma next_record_wf: "returns (next_record cc) (\<lambda>(r, l). wf_opt r)"
proof -
  have "returns (sbind (slift (parse_client_line l)) (\<lambda>r. sreturn (r, Some l))) (\<lambda>(r, l). wf_opt r)" for l
    using parse_client_line_wf [of l]
    by (auto simp: returns_def sbind_Inr slift_def sreturn_def wf_opt_def split: option.splits)
  then have "returns (case line of None \<Rightarrow> sreturn (None, None)
      | Some l \<Rightarrow> sbind (smod (\<lambda>s. s\<lparr>sc_records := sc_records s @ [l]\<rparr>))
          (\<lambda>_. sbind (slift (parse_client_line l)) (\<lambda>r. sreturn (r, Some l)))) (\<lambda>(r, l). wf_opt r)" for line
    by (cases line) (simp_all add: returns_sbind, simp add: returns_def sreturn_def wf_opt_def)
  then show ?thesis
    unfolding next_record_def by (rule returns_sbind [OF returns_sbind, OF returns_sbind])
qed

lemma poll_wf: "returns (poll cc deadline) (\<lambda>(r, t). wf_opt r)"
proof -
  have "returns (sbind (next_record cc) (\<lambda>(record, line). sreturn (record, d))) (\<lambda>(r, t). wf_opt r)" for d
    using next_record_wf [of cc] by (fastforce simp: returns_def sbind_Inr sreturn_def)
  then show ?thesis unfolding poll_def by (rule returns_sbind [OF returns_sbind])
qed

text \<open>Relations between the state before and after, for which it is enough to look at the elementary
  steps: bookkeeping and one record accepted by the tracker for everything that only listens, one command
  issued as well for everything that talks to the source.\<close>

locale listener_rel =
  fixes R :: "source_client \<Rightarrow> source_client \<Rightarrow> bool"
  assumes R_trans: "R s1 s2 \<Longrightarrow> R s2 s3 \<Longrightarrow> R s1 s3"
    and R_frame: "frame s s' \<Longrightarrow> R s s'"
    and R_accept: "sc_tracker s = Some t \<Longrightarrow> wf_record r \<Longrightarrow> accept t r = (t', res) \<Longrightarrow> R s (s\<lparr>sc_tracker := Some t'\<rparr>)"
begin


lemma R_refl: "R s s"
  by (rule R_frame) (simp add: frame_def)

lemma keeps_sreturn: "keeps R (sreturn x)" and keeps_sraise: "keeps R (sraise e)"
  and keeps_sget: "keeps R (sget f)" and keeps_slift: "keeps R (slift r)"
  and keeps_stuck: "keeps R (\<lambda>s. (s, None))"
  by (simp_all add: keeps_def sreturn_def sraise_def sget_def slift_def R_refl)

lemma keeps_smod: "(\<And>s. frame s (f s)) \<Longrightarrow> keeps R (smod f)"
  by (simp add: keeps_def smod_def R_frame)

lemma keeps_sbind_returns:
  "keeps R m \<Longrightarrow> returns m Q \<Longrightarrow> (\<And>x. Q x \<Longrightarrow> keeps R (f x)) \<Longrightarrow> keeps R (sbind m f)"
  unfolding keeps_def
proof
  fix s
  assume m: "\<forall>s. R s (fst (m s))" and q: "returns m Q" and f: "\<And>x. Q x \<Longrightarrow> \<forall>s. R s (fst (f x s))"
  obtain s' r where r: "m s = (s', r)" by (cases "m s")
  have "R s s'" using m r by (metis fst_conv)
  with r f q R_trans show "R s (fst (sbind m f s))"
    unfolding returns_def sbind_def by (auto split: option.splits sum.splits)
qed

lemma keeps_sbind: "keeps R m \<Longrightarrow> (\<And>x. keeps R (f x)) \<Longrightarrow> keeps R (sbind m f)"
  by (rule keeps_sbind_returns [where Q = "\<lambda>_. True"]) (simp_all add: returns_def)

lemma keeps_scatch: "keeps R m \<Longrightarrow> (\<And>e k. h e = Some k \<Longrightarrow> keeps R k) \<Longrightarrow> keeps R (scatch m h)"
  unfolding keeps_def scatch_def
proof
  fix s
  assume m: "\<forall>s. R s (fst (m s))" and h: "\<And>e k. h e = Some k \<Longrightarrow> \<forall>s. R s (fst (k s))"
  obtain s' r where r: "m s = (s', r)" by (cases "m s")
  have "R s s'" using m r by (metis fst_conv)
  with r h R_trans show "R s (fst (case m s of (s', Some (Inl e)) \<Rightarrow> (case h e of Some k \<Rightarrow> k s' | None \<Rightarrow> (s', Some (Inl e)))
      | r \<Rightarrow> r))"
    by (auto split: option.splits sum.splits)
qed

lemma keeps_if: "(c \<Longrightarrow> keeps R a) \<Longrightarrow> (\<not> c \<Longrightarrow> keeps R b) \<Longrightarrow> keeps R (if c then a else b)"
  by simp

lemma keeps_option: "keeps R a \<Longrightarrow> (\<And>x. keeps R (b x)) \<Longrightarrow> keeps R (case v of None \<Rightarrow> a | Some x \<Rightarrow> b x)"
  by (cases v) auto

lemmas keeps_basic = keeps_sreturn keeps_sraise keeps_sget keeps_slift keeps_stuck keeps_smod keeps_sbind keeps_if keeps_option

lemma keeps_check_cancel: "keeps R (check_cancel cc)"
  unfolding check_cancel_def by (intro keeps_basic) (simp_all add: frame_def)

lemma keeps_read_clock: "keeps R read_clock"
  unfolding read_clock_def by (intro keeps_basic) (simp_all add: frame_def)

lemma keeps_console_next_line: "keeps R console_next_line"
  unfolding console_next_line_def by (intro keeps_basic) (simp_all add: frame_def)

lemma keeps_next_record: "keeps R (next_record cc)"
  unfolding next_record_def
  by (intro keeps_basic keeps_check_cancel keeps_console_next_line) (simp_all add: frame_def)

lemma keeps_dispatch: "wf_record r \<Longrightarrow> keeps R (dispatch r)"
proof -
  assume r: "wf_record r"
  have "keeps R (tracker_accept r)"
    unfolding keeps_def tracker_accept_def using R_accept [OF _ r] R_refl by (auto split: option.splits prod.splits)
  then show ?thesis
    unfolding dispatch_def by (auto intro!: keeps_basic simp: frame_def)
qed

lemma keeps_poll: "keeps R (poll cc deadline)"
  unfolding poll_def
  by (intro keeps_sbind keeps_check_cancel keeps_read_clock keeps_next_record) (simp add: split_beta keeps_sreturn)

text \<open>A waiting loop: whatever is done with the record keeps the relation.\<close>

lemma keeps_poll_loop:
  assumes "\<And>t. keeps R (none t)" and "\<And>r. wf_record r \<Longrightarrow> keeps R (some r)"
  shows "keeps R (sbind (poll cc deadline) (\<lambda>(record, remaining). case record of None \<Rightarrow> none remaining | Some r \<Rightarrow> some r))"
  by (rule keeps_sbind_returns [OF keeps_poll poll_wf])
     (use assms in \<open>auto simp: wf_opt_def split: option.splits\<close>)

lemma keeps_dispatch_then: "wf_record r \<Longrightarrow> keeps R m \<Longrightarrow> keeps R (sbind (dispatch r) (\<lambda>_. m))"
  by (intro keeps_sbind keeps_dispatch)

lemma keeps_wait_status_loop: "keeps R (wait_status_loop n i cc deadline)"
  by (induction n) (auto intro!: keeps_stuck keeps_poll_loop keeps_dispatch_then keeps_sreturn)

lemma keeps_wait_status: "keeps R (wait_status n i expected timeout cc)"
  unfolding wait_status_def
  by (intro keeps_basic keeps_read_clock keeps_wait_status_loop)

lemma keeps_query_status_loop: "keeps R (query_status_loop n i deadline)"
proof (induction n)
  case (Suc n)
  have "keeps R (smod (\<lambda>s. s\<lparr>sc_pending_status := None\<rparr>))" by (rule keeps_smod) (simp add: frame_def)
  then show ?case
    unfolding query_status_loop.simps
    by (intro keeps_poll_loop keeps_if keeps_dispatch_then keeps_sbind keeps_slift keeps_sreturn keeps_sraise Suc.IH)
qed (simp add: keeps_stuck)

lemma keeps_cleanup_register: "keeps R (cleanup_register tag)"
  unfolding keeps_def cleanup_register_def
  by (auto split: option.splits intro!: R_frame simp: frame_def)

lemma keeps_register_prestart_cleanup: "keeps R register_prestart_cleanup"
  unfolding register_prestart_cleanup_def
  by (intro keeps_basic keeps_cleanup_register) (simp_all add: frame_def)

lemma keeps_rename: "rename_client_error fmt e = Some k \<Longrightarrow> keeps R k"
  by (auto simp: rename_client_error_def keeps_sraise split: if_splits)

lemma keeps_ignore: "ignore_client_error e = Some k \<Longrightarrow> keeps R k"
  by (auto simp: ignore_client_error_def keeps_sreturn split: if_splits)

lemma keeps_wait_ack: "keeps R (wait_ack n timeout)"
proof -
  have "keeps R (wait_ack_loop n deadline)" for n deadline
    by (induction n) (auto intro!: keeps_basic keeps_poll_loop keeps_dispatch_then)
  then show ?thesis unfolding wait_ack_def by (intro keeps_basic keeps_read_clock)
qed

lemma keeps_drive_until: "keeps R (drive_until n p timeout cc)"
proof -
  have "keeps R (drive_loop n p deadline cc)" for n deadline
    by (induction n) (auto intro!: keeps_basic keeps_poll_loop keeps_dispatch_then)
  then show ?thesis unfolding drive_until_def by (intro keeps_basic keeps_read_clock)
qed

lemma keeps_drive_to: "keeps R (drive_to n p timeout fmt k)"
  unfolding drive_to_def by (intro keeps_basic keeps_drive_until)

lemma keeps_hook: "hook_keeps R h \<Longrightarrow> keeps R (invoke_segment_hook h k)"
  by (cases h) (auto intro: keeps_sreturn keeps_sraise)

lemma keeps_run_segments:
  assumes "hook_keeps R (sh_scored_complete hooks)" "hook_keeps R (sh_segment_teardown hooks)" "hook_keeps R (sh_streaming hooks)"
  shows "keeps R (run_segments n row hooks st tt ks)"
proof -
  have "keeps R (run_segment n row hooks st tt k)" for k
    unfolding run_segment_def by (intro keeps_basic keeps_drive_to keeps_hook assms)
  then show ?thesis by (induction ks) (auto intro!: keeps_basic)
qed

lemma keeps_drain: "keeps R (drain_queued_records n)"
proof (induction n)
  case (Suc n)
  show ?case
    unfolding drain_queued_records.simps
    by (rule keeps_sbind_returns [OF keeps_next_record next_record_wf])
       (auto simp: wf_opt_def keeps_sreturn keeps_dispatch_then Suc.IH split: option.splits)
qed (simp add: keeps_stuck)

end

locale client_rel = listener_rel +
  assumes R_issue: "(\<And>i s. frame s (g i s)) \<Longrightarrow> R s (fst (issue_command g c x s))"
begin

lemma keeps_issue: "(\<And>i s. frame s (g i s)) \<Longrightarrow> keeps R (issue_command g c x)"
  by (simp add: keeps_def R_issue)

lemma keeps_sync_command: "keeps R (sync_command n c expected timeout cc x)"
  unfolding sync_command_def
  by (intro keeps_sbind keeps_check_cancel keeps_issue keeps_wait_status) (simp add: frame_def)

lemma keeps_idle: "keeps R (idle n timeout cc)"
  unfolding idle_def by (intro keeps_sbind keeps_sync_command keeps_smod) (simp add: frame_def)

lemma keeps_stop: "keeps R (stop n timeout cc)"
  unfolding stop_def by (intro keeps_sbind keeps_sync_command keeps_sreturn)

lemma keeps_query_status: "keeps R (query_status n timeout)"
  unfolding query_status_def
  by (intro keeps_sbind keeps_issue keeps_read_clock keeps_query_status_loop) (simp add: frame_def)

lemma keeps_hello: "keeps R (hello n timeout)" and keeps_unpair: "keeps R (unpair n a b timeout)"
  and keeps_configure: "keeps R (configure n a b c d e f g timeout)"
  unfolding hello_def unpair_def configure_def Let_def
  by (intro keeps_basic keeps_sync_command; fail)+

lemma keeps_bounded_prestart_idle: "keeps R (bounded_prestart_idle n)"
  unfolding bounded_prestart_idle_def
  by (intro keeps_basic keeps_scatch keeps_idle) (simp_all add: keeps_rename)

lemma keeps_finish_run: "keeps R (finish_run n row timeout)"
  unfolding finish_run_def by (intro keeps_basic keeps_drive_until keeps_query_status)

lemma keeps_bounded_stop: "keeps R (bounded_stop n)"
  unfolding bounded_stop_def
  by (intro keeps_basic keeps_scatch keeps_drain keeps_stop keeps_drive_until keeps_idle)
     (simp_all add: keeps_rename keeps_ignore)

end

text \<open>Listening writes nothing.\<close>

definition quiet :: "source_client \<Rightarrow> source_client \<Rightarrow> bool" where
  "quiet s s' \<longleftrightarrow> sc_written s' = sc_written s \<and> sc_cmd_seq s' = sc_cmd_seq s \<and> sc_run_id s' = sc_run_id s"

interpretation quiet: listener_rel quiet
  by unfold_locales (simp_all add: quiet_def frame_def)

section \<open>The tracker of a run\<close>

text \<open>The tracker changes only by accepting well-formed records.\<close>

definition tracker_grows :: "source_client \<Rightarrow> source_client \<Rightarrow> bool" where
  "tracker_grows s s' \<longleftrightarrow>
     (case sc_tracker s of
        None \<Rightarrow> sc_tracker s' = None
      | Some t \<Rightarrow> \<exists>rs t'. (\<forall>r \<in> set rs. wf_record r) \<and> accept_all t rs = (t', Inr ()) \<and> sc_tracker s' = Some t')"

lemma tracker_grows_frame: "sc_tracker s' = sc_tracker s \<Longrightarrow> tracker_grows s s'"
  unfolding tracker_grows_def by (auto split: option.splits intro: exI [of _ "[]"] simp: trk.run_Nil)

lemma tracker_grows_trans:
  assumes "tracker_grows s1 s2" and "tracker_grows s2 s3"
  shows "tracker_grows s1 s3"
proof (cases "sc_tracker s1")
  case None
  with assms show ?thesis by (simp add: tracker_grows_def)
next
  case (Some t)
  with assms(1) obtain rs u where rs: "\<forall>r \<in> set rs. wf_record r" "accept_all t rs = (u, Inr ())" "sc_tracker s2 = Some u"
    by (auto simp: tracker_grows_def)
  with assms(2) obtain qs v where "\<forall>r \<in> set qs. wf_record r" "accept_all u qs = (v, Inr ())" "sc_tracker s3 = Some v"
    by (auto simp: tracker_grows_def)
  with Some rs show ?thesis
    unfolding tracker_grows_def by (auto intro!: exI [of _ "rs @ qs"] simp: trk.run_append)
qed

interpretation grows: client_rel tracker_grows
proof
  show "tracker_grows s1 s3" if "tracker_grows s1 s2" "tracker_grows s2 s3" for s1 s2 s3
    using that by (rule tracker_grows_trans)
  show "tracker_grows s s'" if "frame s s'" for s s'
    using that by (intro tracker_grows_frame) (simp add: frame_def)
  show "tracker_grows s (s\<lparr>sc_tracker := Some t'\<rparr>)"
    if "sc_tracker s = Some t" "wf_record r" "accept t r = (t', res)" for s t r t' res
  proof (cases res)
    case (Inl e)
    with that have "t' = t" by (simp add: trk.step_atomic)
    with that show ?thesis by (intro tracker_grows_frame) simp
  next
    case (Inr u)
    with that show ?thesis
      unfolding tracker_grows_def by (auto intro!: exI [of _ "[r]"] simp: trk.run_Nil trk.run_Cons)
  qed
  show "tracker_grows s (fst (issue_command g c x s))" if "\<And>i s. frame s (g i s)" for g c x s
  proof (rule tracker_grows_frame)
    have "sc_tracker (g (command_id_text (Suc (sc_cmd_seq s))) (s\<lparr>sc_cmd_seq := Suc (sc_cmd_seq s)\<rparr>)) = sc_tracker s"
      using that [of "s\<lparr>sc_cmd_seq := Suc (sc_cmd_seq s)\<rparr>"] by (simp add: frame_def)
    then show "sc_tracker (fst (issue_command g c x s)) = sc_tracker s"
      by (simp add: issue_command_alt Let_def split: sum.splits)
  qed
qed

section \<open>The commands of a session\<close>

lemma nat_of_dec_zeros: "nat_of_dec (replicate k CHR ''0'' @ d) = nat_of_dec d"
proof (induction d rule: rev_induct)
  case Nil
  have "nat_of_dec (replicate k CHR ''0'') = 0"
    by (induction k) (simp_all add: nat_of_dec_snoc nat_of_dec_def digit_value_def flip: replicate_append_same)
  then show ?case by (simp add: nat_of_dec_def)
next
  case (snoc c d)
  then show ?case by (simp add: nat_of_dec_snoc flip: append_assoc)
qed

lemma command_id_text_inj: "command_id_text m = command_id_text n \<longleftrightarrow> m = n"
proof
  assume "command_id_text m = command_id_text n"
  then have "nat_of_dec (pad4 m) = nat_of_dec (pad4 n)" by (simp add: command_id_text_def)
  then show "m = n" by (simp add: pad4_def Let_def nat_of_dec_zeros)
qed simp

text \<open>A command as it was sent: its number, its name and its further members.\<close>

type_synonym issued = "nat \<times> string \<times> pydict"

definition issued_line :: "string \<Rightarrow> issued \<Rightarrow> string" where
  "issued_line run_id p =
     (case p of (k, c, x) \<Rightarrow>
        ''hil '' @ json_dumps (\<lambda>_. []) '','' '':'' (PDict (command_payload run_id c (command_id_text k) x)) @ [CHR 0x0A])"

definition issued_in :: "nat \<Rightarrow> nat \<Rightarrow> string \<Rightarrow> issued list \<Rightarrow> bool" where
  "issued_in lo hi run_id ps \<longleftrightarrow>
     distinct (map fst ps) \<and> (\<forall>p \<in> set ps. lo < fst p \<and> fst p \<le> hi \<and> length (issued_line run_id p) \<le> MAX_COMMAND_LINE)"

definition commands_fresh :: "source_client \<Rightarrow> source_client \<Rightarrow> bool" where
  "commands_fresh s s' \<longleftrightarrow>
     sc_run_id s' = sc_run_id s \<and> sc_cmd_seq s \<le> sc_cmd_seq s' \<and>
     (\<exists>ps. sc_written s' = sc_written s @ map (issued_line (sc_run_id s)) ps \<and>
        issued_in (sc_cmd_seq s) (sc_cmd_seq s') (sc_run_id s) ps)"

lemma commands_freshI:
  assumes "sc_run_id s' = sc_run_id s" and "sc_cmd_seq s \<le> sc_cmd_seq s'"
    and "sc_written s' = sc_written s @ map (issued_line (sc_run_id s)) ps"
    and "issued_in (sc_cmd_seq s) (sc_cmd_seq s') (sc_run_id s) ps"
  shows "commands_fresh s s'"
  using assms by (auto simp: commands_fresh_def)

lemma issued_in_append:
  "issued_in lo mid i ps \<Longrightarrow> issued_in mid hi i qs \<Longrightarrow> lo \<le> mid \<Longrightarrow> mid \<le> hi \<Longrightarrow> issued_in lo hi i (ps @ qs)"
  unfolding issued_in_def by fastforce

lemma commands_fresh_trans:
  assumes "commands_fresh s1 s2" and "commands_fresh s2 s3"
  shows "commands_fresh s1 s3"
proof -
  from assms obtain ps qs where "sc_written s2 = sc_written s1 @ map (issued_line (sc_run_id s1)) ps"
    "issued_in (sc_cmd_seq s1) (sc_cmd_seq s2) (sc_run_id s1) ps"
    "sc_written s3 = sc_written s2 @ map (issued_line (sc_run_id s1)) qs"
    "issued_in (sc_cmd_seq s2) (sc_cmd_seq s3) (sc_run_id s1) qs"
    unfolding commands_fresh_def by auto
  with assms show ?thesis
    by (intro commands_freshI [of _ _ "ps @ qs"] issued_in_append) (auto simp: commands_fresh_def)
qed

lemma command_line_Inr:
  "command_line i c (command_id_text k) x = Inr l \<Longrightarrow>
     l @ [CHR 0x0A] = issued_line i (k, c, x) \<and> length (issued_line i (k, c, x)) \<le> MAX_COMMAND_LINE"
  by (auto simp: command_line_def issued_line_def Let_def split: if_splits)

interpretation fresh: client_rel commands_fresh
proof
  show "commands_fresh s1 s3" if "commands_fresh s1 s2" "commands_fresh s2 s3" for s1 s2 s3
    using that by (rule commands_fresh_trans)
  show "commands_fresh s s'" if "frame s s'" for s s'
    using that by (intro commands_freshI [of _ _ "[]"]) (simp_all add: frame_def issued_in_def)
  show "commands_fresh s (s\<lparr>sc_tracker := Some t'\<rparr>)" for s t'
    by (intro commands_freshI [of _ _ "[]"]) (simp_all add: issued_in_def)
  show "commands_fresh s (fst (issue_command g c x s))" if g: "\<And>i s. frame s (g i s)" for g c x s
  proof -
    define k where "k = Suc (sc_cmd_seq s)"
    define s2 where "s2 = g (command_id_text k) (s\<lparr>sc_cmd_seq := k\<rparr>)"
    have s2: "sc_run_id s2 = sc_run_id s" "sc_cmd_seq s2 = k" "sc_written s2 = sc_written s"
      using g [of "s\<lparr>sc_cmd_seq := k\<rparr>"] by (simp_all add: frame_def s2_def)
    show ?thesis
    proof (cases "command_line (sc_run_id s) c (command_id_text k) x")
      case (Inl e)
      with s2 show ?thesis
        by (intro commands_freshI [of _ _ "[]"])
           (simp_all add: issue_command_alt Let_def k_def s2_def issued_in_def)
    next
      case (Inr line)
      with s2 command_line_Inr [OF Inr] show ?thesis
        by (intro commands_freshI [of _ _ "[(k, c, x)]"])
           (simp_all add: issue_command_alt Let_def k_def s2_def issued_in_def)
    qed
  qed
qed

lemma begin_run_alt:
  "begin_run s =
     (s\<lparr>sc_cmd_seq := Suc (sc_cmd_seq s), sc_idle_complete := False,
        sc_tracker := Some (new_tracker (sc_run_id s) (command_id_text (Suc (sc_cmd_seq s))))\<rparr>,
      Some (Inr (command_id_text (Suc (sc_cmd_seq s)))))"
  by (simp add: begin_run_def next_command_id_def sbind_def smod_def sget_def sreturn_def)

lemma sbind_begin_run:
  "sbind begin_run f s =
     f (command_id_text (Suc (sc_cmd_seq s)))
       (s\<lparr>sc_cmd_seq := Suc (sc_cmd_seq s), sc_idle_complete := False,
          sc_tracker := Some (new_tracker (sc_run_id s) (command_id_text (Suc (sc_cmd_seq s))))\<rparr>)"
  by (simp add: sbind_def begin_run_alt)

lemma fst_sbind:
  assumes "P (fst (m s))" and "\<And>x s'. m s = (s', Some (Inr x)) \<Longrightarrow> P s' \<Longrightarrow> P (fst (f x s'))"
  shows "P (fst (sbind m f s))"
  using assms by (cases "m s") (auto simp: sbind_def split: option.splits sum.splits)

text \<open>The number of the start command is taken before the hook runs and its line is written afterwards.\<close>

lemma commands_fresh_held:
  assumes "commands_fresh (s\<lparr>sc_cmd_seq := Suc (sc_cmd_seq s), sc_idle_complete := b, sc_tracker := t\<rparr>) s'"
  shows "commands_fresh s s'"
  using assms unfolding commands_fresh_def issued_in_def by fastforce

lemma commands_fresh_send_held:
  assumes "commands_fresh (s\<lparr>sc_cmd_seq := Suc (sc_cmd_seq s), sc_idle_complete := b, sc_tracker := t\<rparr>) s'"
  shows "commands_fresh s (fst (send_command c (command_id_text (Suc (sc_cmd_seq s))) x s'))"
proof (cases "command_line (sc_run_id s) c (command_id_text (Suc (sc_cmd_seq s))) x")
  case (Inl e)
  with assms commands_fresh_held [OF assms] show ?thesis
    by (simp add: send_command_def sbind_def sget_def slift_def commands_fresh_def)
next
  case (Inr line)
  from assms obtain ps where ps: "sc_written s' = sc_written s @ map (issued_line (sc_run_id s)) ps"
    "issued_in (Suc (sc_cmd_seq s)) (sc_cmd_seq s') (sc_run_id s) ps" "sc_run_id s' = sc_run_id s" "Suc (sc_cmd_seq s) \<le> sc_cmd_seq s'"
    by (auto simp: commands_fresh_def)
  have "issued_in (sc_cmd_seq s) (sc_cmd_seq s') (sc_run_id s) (ps @ [(Suc (sc_cmd_seq s), c, x)])"
    using ps command_line_Inr [OF Inr] unfolding issued_in_def by fastforce
  with ps Inr command_line_Inr [OF Inr] show ?thesis
    by (intro commands_freshI [of _ _ "ps @ [(Suc (sc_cmd_seq s), c, x)]"])
       (simp_all add: send_command_def send_def sbind_def sget_def slift_def smod_def)
qed

definition hooks_keep :: "(source_client \<Rightarrow> source_client \<Rightarrow> bool) \<Rightarrow> start_hooks \<Rightarrow> bool" where
  "hooks_keep R hooks \<longleftrightarrow>
     hook_keeps R (sh_before_start hooks) \<and> hook_keeps R (sh_scored_complete hooks) \<and>
     hook_keeps R (sh_segment_teardown hooks) \<and> hook_keeps R (sh_streaming hooks)"

lemma keepsD: "keeps R m \<Longrightarrow> m s = (s', r) \<Longrightarrow> R s s'"
  unfolding keeps_def by (metis fst_conv)

lemma begin_run_fresh:
  assumes m: "keeps commands_fresh m" and f: "keeps commands_fresh f"
  shows "keeps commands_fresh (sbind begin_run (\<lambda>i. sbind m (\<lambda>_. sbind (send_command ''start'' i []) (\<lambda>_. f))))"
  unfolding keeps_def
proof
  fix s :: source_client
  define s1 where "s1 = s\<lparr>sc_cmd_seq := Suc (sc_cmd_seq s), sc_idle_complete := False,
     sc_tracker := Some (new_tracker (sc_run_id s) (command_id_text (Suc (sc_cmd_seq s))))\<rparr>"
  have held: "commands_fresh s1 (fst (m s1))" using m by (simp add: keeps_def)
  have "commands_fresh s (fst (sbind m (\<lambda>_. sbind (send_command ''start'' (command_id_text (Suc (sc_cmd_seq s))) []) (\<lambda>_. f)) s1))"
  proof (rule fst_sbind)
    show "commands_fresh s (fst (m s1))" using held unfolding s1_def by (rule commands_fresh_held)
    fix x s' assume "m s1 = (s', Some (Inr x))"
    with held have sent: "commands_fresh s (fst (send_command ''start'' (command_id_text (Suc (sc_cmd_seq s))) [] s'))"
      unfolding s1_def by (intro commands_fresh_send_held) simp
    then show "commands_fresh s (fst (sbind (send_command ''start'' (command_id_text (Suc (sc_cmd_seq s))) []) (\<lambda>_. f) s'))"
      by (rule fst_sbind) (use f in \<open>auto simp: keeps_def intro: commands_fresh_trans\<close>)
  qed
  then show "commands_fresh s (fst (sbind begin_run (\<lambda>i. sbind m (\<lambda>_. sbind (send_command ''start'' i []) (\<lambda>_. f))) s))"
    by (simp add: sbind_begin_run s1_def)
qed

lemma sbind_assoc: "sbind (sbind m f) g = sbind m (\<lambda>x. sbind (f x) g)"
  by (rule ext) (auto simp: sbind_def split: prod.splits option.splits sum.splits)

lemma start_alt:
  "start n row hooks ack st tt =
     sbind (slift (default_timeout row SCORED_TIMEOUT st)) (\<lambda>scored.
     sbind (slift (default_timeout row TERMINAL_TIMEOUT tt)) (\<lambda>terminal.
     sbind (check_cancel True) (\<lambda>_.
     sbind begin_run (\<lambda>i.
     sbind (sbind register_stop_cleanup (\<lambda>_. invoke_segment_hook (sh_before_start hooks) 0)) (\<lambda>_.
     sbind (send_command ''start'' i []) (\<lambda>_.
     sbind (wait_ack n ack) (\<lambda>_.
     sbind (run_segments n row hooks scored terminal [0..<nat (segment_count row)]) (\<lambda>_.
     finish_run n row terminal))))))))"
  unfolding start_def sbind_assoc by simp

lemma start_fresh:
  assumes "hooks_keep commands_fresh hooks"
  shows "keeps commands_fresh (start n row hooks ack st tt)"
proof -
  have reg: "keeps commands_fresh register_stop_cleanup"
    unfolding register_stop_cleanup_def
    by (intro fresh.keeps_basic fresh.keeps_cleanup_register) (simp add: frame_def)
  show ?thesis
    unfolding start_alt using assms
    by (intro fresh.keeps_sbind fresh.keeps_slift fresh.keeps_check_cancel begin_run_fresh reg fresh.keeps_hook
        fresh.keeps_wait_ack fresh.keeps_run_segments fresh.keeps_finish_run) (simp_all add: hooks_keep_def)
qed

text \<open>Any sequence of calls of the public methods and of the cleanup callbacks, each to its own end.\<close>

datatype client_call =
    CallHello rat
  | CallIdle rat bool
  | CallUnpair string string rat
  | CallConfigure string string string string int int string rat
  | CallStop rat bool
  | CallQuery rat
  | CallPrestart
  | CallStart row_spec start_hooks rat "rat option" "rat option"
  | CallCleanup cleanup_tag

fun call :: "nat \<Rightarrow> client_call \<Rightarrow> source_client \<Rightarrow> source_client" where
  "call n (CallHello timeout) s = fst (hello n timeout s)"
| "call n (CallIdle timeout cc) s = fst (idle n timeout cc s)"
| "call n (CallUnpair a b timeout) s = fst (unpair n a b timeout s)"
| "call n (CallConfigure a b c d e f g timeout) s = fst (configure n a b c d e f g timeout s)"
| "call n (CallStop timeout cc) s = fst (stop n timeout cc s)"
| "call n (CallQuery timeout) s = fst (query_status n timeout s)"
| "call n CallPrestart s = fst (register_prestart_cleanup s)"
| "call n (CallStart row hooks ack st tt) s = fst (start n row hooks ack st tt s)"
| "call n (CallCleanup PrestartIdle) s = fst (bounded_prestart_idle n s)"
| "call n (CallCleanup StopIdle) s = fst (bounded_stop n s)"

fun call_hooks_keep :: "(source_client \<Rightarrow> source_client \<Rightarrow> bool) \<Rightarrow> client_call \<Rightarrow> bool" where
  "call_hooks_keep R (CallStart row hooks ack st tt) = hooks_keep R hooks"
| "call_hooks_keep R _ = True"

lemma call_fresh: "call_hooks_keep commands_fresh c \<Longrightarrow> commands_fresh s (call n c s)"
  using fresh.keeps_hello fresh.keeps_idle fresh.keeps_unpair fresh.keeps_configure fresh.keeps_stop fresh.keeps_query_status
    fresh.keeps_register_prestart_cleanup fresh.keeps_bounded_prestart_idle fresh.keeps_bounded_stop start_fresh
  by (cases "(n, c, s)" rule: call.cases) (auto simp: keeps_def)

lemma calls_fresh:
  "list_all (call_hooks_keep commands_fresh) cs \<Longrightarrow> commands_fresh s (foldl (\<lambda>s c. call n c s) s cs)"
proof (induction cs rule: rev_induct)
  case Nil
  show ?case by (simp add: fresh.R_refl)
next
  case (snoc c cs)
  then show ?case by (auto intro: commands_fresh_trans call_fresh)
qed

section \<open>A successful start\<close>

lemma drive_until_reached:
  "drive_until n p timeout cc s = (s', Some (Inr u)) \<Longrightarrow> tracker_is p s'"
  by (auto simp: drive_until_def sbind_Inr sget_def sreturn_def sraise_def split: if_splits)

lemma drive_to_reached:
  "drive_to n p timeout fmt k s = (s', Some (Inr u)) \<Longrightarrow> tracker_is p s' \<and> \<not> tracker_is has_terminal s'"
  by (auto simp: drive_to_def sbind_Inr sget_def sreturn_def sraise_def split: if_splits dest: drive_until_reached)

definition torn_down :: "nat \<Rightarrow> source_client \<Rightarrow> bool" where
  "torn_down k = tracker_is (\<lambda>t. ht_segment t = Some (int k) \<and> 8 \<le> ht_state_index t)"

definition passes_through :: "(source_client \<Rightarrow> bool) \<Rightarrow> source_client \<Rightarrow> source_client \<Rightarrow> bool" where
  "passes_through P s s' \<longleftrightarrow> (\<exists>m. tracker_grows s m \<and> P m \<and> tracker_grows m s')"

lemma passes_through_trans:
  "tracker_grows s s1 \<Longrightarrow> passes_through P s1 s2 \<Longrightarrow> tracker_grows s2 s3 \<Longrightarrow> passes_through P s s3"
  unfolding passes_through_def by (meson tracker_grows_trans)

lemma run_segment_torn_down:
  assumes "hooks_keep tracker_grows hooks" and "run_segment n row hooks st tt k s = (s', Some (Inr u))"
  shows "passes_through (torn_down k) s s'"
proof -
  let ?d = "\<lambda>i to fmt. drive_to n (reached k i) to fmt k"
  let ?rest = "sbind (invoke_segment_hook (sh_segment_teardown hooks) k) (\<lambda>_.
       if int k < segment_count row - 1
       then drive_to n (\<lambda>t. ht_segment t = Some (int k + 1) \<or> has_terminal t) tt
              ''run terminal arrived before reconnect segment %d'' (k + 1)
       else sreturn ())"
  let ?pre = "sbind (?d STREAMING_INDEX st ''run terminal arrived before segment %d streaming'') (\<lambda>_.
     sbind (invoke_segment_hook (sh_streaming hooks) k) (\<lambda>_.
     sbind (?d SCORED_COMPLETE_INDEX st ''run terminal arrived before segment %d scored_complete'') (\<lambda>_.
     invoke_segment_hook (sh_scored_complete hooks) k)))"
  let ?last = "?d TEARDOWN_INDEX tt ''run terminal arrived before segment %d teardown''"
  have split: "run_segment n row hooks st tt k = sbind ?pre (\<lambda>_. sbind ?last (\<lambda>_. ?rest))"
    unfolding run_segment_def sbind_assoc by simp
  obtain s1 x1 s2 x2 where r: "?pre s = (s1, Some (Inr x1))" "?last s1 = (s2, Some (Inr x2))" "?rest s2 = (s', Some (Inr u))"
    using assms(2) unfolding split sbind_Inr [of ?pre] sbind_Inr [of ?last] by blast
  have "keeps tracker_grows ?pre" "keeps tracker_grows ?rest"
    using assms(1) by (intro grows.keeps_basic grows.keeps_drive_to grows.keeps_hook; simp add: hooks_keep_def)+
  with r have "tracker_grows s s1" "tracker_grows s1 s2" "tracker_grows s2 s'"
    by (auto dest: keepsD intro: keepsD [OF grows.keeps_drive_to])
  moreover have "torn_down k s2"
    using drive_to_reached [OF r(2)]
    by (auto simp: torn_down_def tracker_is_def reached_def TEARDOWN_INDEX_8 split: option.splits)
  ultimately show ?thesis unfolding passes_through_def by (meson tracker_grows_trans)
qed

lemma run_segments_torn_down:
  assumes "hooks_keep tracker_grows hooks"
  shows "run_segments n row hooks st tt ks s = (s', Some (Inr u)) \<Longrightarrow> k \<in> set ks \<Longrightarrow> passes_through (torn_down k) s s'"
proof (induction ks arbitrary: s)
  case (Cons j ks)
  from Cons.prems(1) obtain s1 x where r: "run_segment n row hooks st tt j s = (s1, Some (Inr x))"
    "run_segments n row hooks st tt ks s1 = (s', Some (Inr u))" by (auto simp: sbind_Inr)
  have "keeps tracker_grows (run_segments n row hooks st tt ks)"
    using assms by (intro grows.keeps_run_segments) (simp_all add: hooks_keep_def)
  then have rest: "tracker_grows s1 s'" using r(2) by (rule keepsD)
  have "passes_through (torn_down j) s s1" using assms r(1) by (rule run_segment_torn_down)
  moreover from this have "tracker_grows s s1" by (auto simp: passes_through_def intro: tracker_grows_trans)
  ultimately show ?case
    using Cons.IH [OF r(2)] Cons.prems(2) rest
    by (auto intro: passes_through_trans grows.R_refl)
qed simp

text \<open>The trackers on the way from the new one to the last one.\<close>

lemma tracker_growsE:
  assumes "tracker_grows s s'" and "sc_tracker s = Some t"
  obtains rs t' where "\<forall>r \<in> set rs. wf_record r" "accept_all t rs = (t', Inr ())" "sc_tracker s' = Some t'"
  using assms by (auto simp: tracker_grows_def)

lemma tracks_torn_down:
  assumes "tracks t xs" and "ht_segment t = Some k" and "8 \<le> ht_state_index t"
  shows "(k, 8) \<in> set xs"
proof (cases "ht_aborted t")
  case False
  then obtain n where n: "xs = map lifecycle_step [0..<Suc n]" "lifecycle_step n = (k, ht_state_index t)"
    using assms by (auto simp: tracks_def)
  moreover have "ht_state_index t = 8" using lifecycle_step_index [of n] n(2) assms(3) by simp
  ultimately show ?thesis by (force simp del: upt_Suc)
qed (use assms in \<open>auto simp: tracks_def\<close>)

lemma state_entries_append [simp]: "state_entries (rs @ qs) = state_entries rs @ state_entries qs"
  by (simp add: state_entries_def)

lemma finish_run_Inr:
  assumes "finish_run n row timeout s = (s', Some (Inr status))"
  shows "\<exists>m. tracker_grows s m \<and> tracker_is (\<lambda>t. \<exists>r. ht_terminal t = Some r \<and> dict_get (hr_data r) ''verdict'' = PStr ''pass'') m \<and>
     tracker_grows m s' \<and> validate_final_status status row = Inr ()"
proof -
  obtain m where m: "drive_until n has_terminal timeout True s = (m, Some (Inr ()))"
    and r: "(case (case sc_tracker m of None \<Rightarrow> None | Some t \<Rightarrow> ht_terminal t) of
       None \<Rightarrow> client_err (text_msg ''run terminal never arrived'')
     | Some r \<Rightarrow>
         if \<not> py_eq (dict_get (hr_data r) ''verdict'') (PStr ''pass'')
         then client_err (val_msg ''run terminal verdict is not pass: %r'' (dict_get (hr_data r) ''verdict''))
         else
           sbind (query_status n STATUS_TIMEOUT) (\<lambda>status.
           sbind (slift (validate_final_status status row)) (\<lambda>_. sreturn status))) m = (s', Some (Inr status))"
    using assms unfolding finish_run_def by (auto simp: sbind_Inr sget_def)
  have "tracker_grows s m" using m by (rule keepsD [OF grows.keeps_drive_until])
  moreover from r obtain t r' where t: "sc_tracker m = Some t" "ht_terminal t = Some r'"
    "dict_get (hr_data r') ''verdict'' = PStr ''pass''"
    and q: "query_status n STATUS_TIMEOUT m = (s', Some (Inr status))" "validate_final_status status row = Inr ()"
    by (auto simp: sbind_Inr slift_def sreturn_def sraise_def split: option.splits if_splits)
  moreover have "tracker_grows m s'" using q(1) by (rule keepsD [OF grows.keeps_query_status])
  ultimately show ?thesis by (auto simp: tracker_is_def)
qed

end
