(* ===== verification/Hil_SourceRun.thy ===== *)
theory Hil_SourceRun
  imports Hil_SourceClient
begin

text \<open>
  Sessions of the source client: what a source that follows the protocol brings the client to (\<open>start\<close>
  returns), that every waiting loop ends once the console is silent and its deadline has passed, and the
  properties of whole sessions.  The client itself is modelled in \<open>Hil_SourceClient\<close>.
\<close>

section \<open>A source that follows the protocol\<close>

text \<open>A console without cancellation or write errors whose lines are the given records, the first
  \<open>N\<close> of which take the tracker through \<open>trk\<close>.\<close>

definition script :: "console_env \<Rightarrow> hil_record list \<Rightarrow> (nat \<Rightarrow> hil_tracker) \<Rightarrow> nat \<Rightarrow> bool" where
  "script env rs trk N \<longleftrightarrow>
     (\<forall>n. \<not> ce_cancel env n) \<and> (\<forall>n. ce_write env n = Inr ()) \<and>
     (\<forall>k < length rs. \<exists>l. ce_lines env k = Inr (Some l) \<and> parse_client_line l = Inr (Some (rs ! k))) \<and>
     N \<le> length rs \<and>
     (\<forall>k < N. accept (trk k) (rs ! k) = (trk (Suc k), Inr ()) \<and> hr_kind (rs ! k) \<noteq> ''status'')"

text \<open>The client has read the first \<open>j\<close> records of the script.\<close>

definition stands :: "(nat \<Rightarrow> hil_tracker) \<Rightarrow> source_client \<Rightarrow> nat \<Rightarrow> source_client \<Rightarrow> bool" where
  "stands trk s0 j s \<longleftrightarrow>
     sc_line_calls s = j \<and> sc_tracker s = Some (trk j) \<and> sc_env s = sc_env s0 \<and> sc_cmd_seq s = sc_cmd_seq s0 \<and>
     sc_run_id s = sc_run_id s0"

definition no_hooks :: start_hooks where
  "no_hooks = \<lparr>sh_before_start = NoHook, sh_scored_complete = NoHook, sh_segment_teardown = NoHook, sh_streaming = NoHook\<rparr>"

lemmas act_defs = sbind_def sreturn_def sraise_def sget_def smod_def slift_def

lemma poll_script:
  assumes "script (sc_env s) rs trk N" and "sc_line_calls s = j" and "j < length rs"
  shows "\<exists>s' d. poll cc deadline s = (s', Some (Inr (Some (rs ! j), d))) \<and> frame s s' \<and> sc_line_calls s' = Suc j \<and>
    sc_ack_seen s' = sc_ack_seen s"
proof -
  from assms obtain l where "ce_lines (sc_env s) j = Inr (Some l)" "parse_client_line l = Inr (Some (rs ! j))"
    by (auto simp: script_def)
  with assms show ?thesis
    by (auto simp: poll_def next_record_def check_cancel_def read_clock_def console_next_line_def act_defs frame_def script_def)
qed

lemma dispatch_script:
  assumes "sc_tracker s = Some t" and "accept t r = (t', Inr ())" and "hr_kind r \<noteq> ''status''"
  shows "dispatch r s =
     (s\<lparr>sc_tracker := Some t', sc_ack_seen := (sc_ack_seen s \<or> hr_kind r = ''ack'' \<and> hr_command_id r = ht_command_id t)\<rparr>,
      Some (Inr None))"
  using assms by (auto simp: dispatch_def tracker_accept_def act_defs)

lemma drive_loop_script:
  assumes "script (sc_env s0) rs trk N" and "m \<le> N" and "p (trk m)"
  shows "stands trk s0 j s \<Longrightarrow> j \<le> m \<Longrightarrow> m - j < n \<Longrightarrow>
    \<exists>i s'. drive_loop n p deadline cc s = (s', Some (Inr ())) \<and> stands trk s0 i s' \<and> j \<le> i \<and> i \<le> m \<and> p (trk i)"
proof (induction n arbitrary: j s)
  case (Suc n)
  have tr: "sc_tracker s = Some (trk j)" "sc_line_calls s = j" "sc_env s = sc_env s0" using Suc.prems(1) by (auto simp: stands_def)
  show ?case
  proof (cases "p (trk j)")
    case True
    with Suc.prems tr show ?thesis by (intro exI [of _ j] exI [of _ s]) (simp add: act_defs tracker_is_def)
  next
    case False
    with assms Suc.prems have j: "j < m" "j < N" by (auto simp: less_le)
    then have "j < length rs" using assms(1) by (simp add: script_def)
    with poll_script [of s rs trk N j] assms(1) tr obtain s1 d where
      s1: "poll cc deadline s = (s1, Some (Inr (Some (rs ! j), d)))" "frame s s1" "sc_line_calls s1 = Suc j" by metis
    have acc: "accept (trk j) (rs ! j) = (trk (Suc j), Inr ())" "hr_kind (rs ! j) \<noteq> ''status''"
      using assms(1) j by (auto simp: script_def)
    obtain s2 where s2: "dispatch (rs ! j) s1 = (s2, Some (Inr None))" "stands trk s0 (Suc j) s2"
      using dispatch_script [OF _ acc, of s1] s1(2,3) tr Suc.prems(1) by (auto simp: stands_def frame_def)
    have eq: "drive_loop (Suc n) p deadline cc s = drive_loop n p deadline cc s2"
      using False tr s1(1) s2(1) by (simp add: act_defs tracker_is_def)
    from Suc.IH [OF s2(2)] j Suc.prems show ?thesis unfolding eq by fastforce
  qed
qed simp

lemma read_clock_frame: "\<exists>s' t. read_clock s = (s', Some (Inr t)) \<and> frame s s' \<and> sc_line_calls s' = sc_line_calls s \<and> sc_ack_seen s' = sc_ack_seen s"
  by (simp add: read_clock_def act_defs frame_def)

lemma stands_frame: "frame s s' \<Longrightarrow> sc_line_calls s' = sc_line_calls s \<Longrightarrow> stands trk s0 j s \<Longrightarrow> stands trk s0 j s'"
  by (simp add: stands_def frame_def)

lemma drive_until_script:
  assumes "script (sc_env s0) rs trk N" and "m \<le> N" and "p (trk m)" and "stands trk s0 j s" and "j \<le> m" and "N < n"
  shows "\<exists>i s'. drive_until n p timeout cc s = (s', Some (Inr ())) \<and> stands trk s0 i s' \<and> j \<le> i \<and> i \<le> m \<and> p (trk i)"
proof -
  obtain s1 t where s1: "read_clock s = (s1, Some (Inr t))" "frame s s1" "sc_line_calls s1 = sc_line_calls s"
    using read_clock_frame by blast
  from stands_frame [OF s1(2,3) assms(4)] drive_loop_script [where p = p and n = n, OF assms(1-3)] assms(2,5,6) obtain i s' where
    "drive_loop n p (t + timeout) cc s1 = (s', Some (Inr ()))" "stands trk s0 i s'" "j \<le> i" "i \<le> m" "p (trk i)"
    by (metis diff_le_self le_less_trans le_trans)
  with s1(1) show ?thesis
    by (intro exI [of _ i] exI [of _ s']) (simp add: drive_until_def act_defs tracker_is_def stands_def)
qed

lemma drive_to_script:
  assumes "script (sc_env s0) rs trk N" and "m \<le> N" and "p (trk m)" and "stands trk s0 j s" and "j \<le> m" and "N < n"
    and "\<forall>k \<le> m. ht_terminal (trk k) = None"
  shows "\<exists>i s'. drive_to n p timeout fmt seg s = (s', Some (Inr ())) \<and> stands trk s0 i s' \<and> j \<le> i \<and> i \<le> m \<and> p (trk i)"
proof -
  obtain i s' where "drive_until n p timeout True s = (s', Some (Inr ()))" "stands trk s0 i s'" "j \<le> i" "i \<le> m" "p (trk i)"
    using drive_until_script [where p = p, OF assms(1-6)] by blast
  with assms(7) show ?thesis
    by (intro exI [of _ i] exI [of _ s']) (simp add: drive_to_def act_defs tracker_is_def stands_def has_terminal_def)
qed

text \<open>The script takes every segment to its teardown, the last one before the terminal record.\<close>

definition script_segments :: "(nat \<Rightarrow> hil_tracker) \<Rightarrow> (nat \<Rightarrow> nat) \<Rightarrow> nat \<Rightarrow> nat \<Rightarrow> bool" where
  "script_segments trk m K N \<longleftrightarrow>
     (\<forall>k < K. m k < N \<and> ht_segment (trk (m k)) = Some (int k) \<and> ht_state_index (trk (m k)) = 8) \<and>
     (\<forall>k. Suc k < K \<longrightarrow> m k \<le> m (Suc k)) \<and> (\<forall>k < N. ht_terminal (trk k) = None)"

lemma index_bounds: "STREAMING_INDEX \<le> 8" "SCORED_COMPLETE_INDEX \<le> 8" "TEARDOWN_INDEX \<le> 8"
  by code_simp+

lemma run_segment_script:
  assumes sc: "script (sc_env s0) rs trk N" and seg: "script_segments trk m K N" and k: "k < K" "int K = segment_count row"
    and s: "stands trk s0 j s" "j \<le> m k" and n: "N < n"
  shows "\<exists>i s'. run_segment n row no_hooks st tt k s = (s', Some (Inr ())) \<and> stands trk s0 i s' \<and>
    i \<le> m (if Suc k < K then Suc k else k)"
proof -
  have mk: "m k < N" "ht_segment (trk (m k)) = Some (int k)" "ht_state_index (trk (m k)) = 8"
    using seg k(1) unfolding script_segments_def by auto
  have nt: "\<forall>i \<le> m k'. ht_terminal (trk i) = None" if "k' < K" for k'
    using seg that unfolding script_segments_def by auto
  have p: "reached k idx (trk (m k))" if "idx \<le> 8" for idx using mk that by (simp add: reached_def)
  have drive: "\<exists>i s'. drive_to n (reached k idx) timeout fmt k u = (s', Some (Inr ())) \<and> stands trk s0 i s' \<and> i \<le> m k"
    if "idx \<le> 8" "stands trk s0 j' u" "j' \<le> m k" for idx timeout fmt j' u
    using drive_to_script [where p = "reached k idx", OF sc less_imp_le [OF mk(1)] p [OF that(1)] that(2,3) n nt [OF k(1)]] by blast
  obtain i1 s1 where 1: "drive_to n (reached k STREAMING_INDEX) st ''run terminal arrived before segment %d streaming'' k s = (s1, Some (Inr ()))"
    "stands trk s0 i1 s1" "i1 \<le> m k"
    using drive [OF index_bounds(1) s] by blast
  obtain i2 s2 where 2: "drive_to n (reached k SCORED_COMPLETE_INDEX) st ''run terminal arrived before segment %d scored_complete'' k s1 = (s2, Some (Inr ()))"
    "stands trk s0 i2 s2" "i2 \<le> m k"
    using drive [OF index_bounds(2) 1(2,3)] by blast
  obtain i3 s3 where 3: "drive_to n (reached k TEARDOWN_INDEX) tt ''run terminal arrived before segment %d teardown'' k s2 = (s3, Some (Inr ()))"
    "stands trk s0 i3 s3" "i3 \<le> m k"
    using drive [OF index_bounds(3) 2(2,3)] by blast
  show ?thesis
  proof (cases "Suc k < K")
    case False
    with k have "\<not> int k < segment_count row - 1" by simp
    with 1 2 3 False show ?thesis
      by (intro exI [of _ i3] exI [of _ s3]) (simp add: run_segment_def act_defs no_hooks_def)
  next
    case True
    have le: "m (Suc k) \<le> N" "i3 \<le> m (Suc k)" and s': "ht_segment (trk (m (Suc k))) = Some (int k + 1)"
      using seg True 3(3) unfolding script_segments_def by (auto intro: less_imp_le order_trans)
    obtain i4 s4 where "drive_to n (\<lambda>t. ht_segment t = Some (int k + 1) \<or> has_terminal t) tt
        ''run terminal arrived before reconnect segment %d'' (k + 1) s3 = (s4, Some (Inr ()))" "stands trk s0 i4 s4" "i4 \<le> m (Suc k)"
      using drive_to_script [where p = "\<lambda>t. ht_segment t = Some (int k + 1) \<or> has_terminal t", OF sc le(1) _ 3(2) le(2) n nt [OF True]] s'
      by blast
    moreover have "int k < segment_count row - 1" using True k by simp
    ultimately show ?thesis
      using 1 2 3 True by (intro exI [of _ i4] exI [of _ s4]) (simp add: run_segment_def act_defs no_hooks_def)
  qed
qed

lemma run_segments_script:
  assumes sc: "script (sc_env s0) rs trk N" and seg: "script_segments trk m K N" and K: "int K = segment_count row" and n: "N < n"
  shows "stands trk s0 j s \<Longrightarrow> k < K \<Longrightarrow> j \<le> m k \<Longrightarrow>
    \<exists>i s'. run_segments n row no_hooks st tt [k..<K] s = (s', Some (Inr ())) \<and> stands trk s0 i s' \<and> i \<le> N"
proof (induction "K - k" arbitrary: k j s)
  case (Suc d)
  obtain i s' where r: "run_segment n row no_hooks st tt k s = (s', Some (Inr ()))" "stands trk s0 i s'"
    "i \<le> m (if Suc k < K then Suc k else k)"
    using run_segment_script [OF sc seg Suc.prems(2) K Suc.prems(1,3) n] by blast
  have upt: "[k..<K] = k # [Suc k..<K]" using Suc.prems(2) by (simp add: upt_conv_Cons)
  show ?case
  proof (cases "Suc k < K")
    case True
    with Suc.hyps(1) [of "Suc k" i s'] Suc.hyps(2) r show ?thesis by (simp add: upt act_defs)
  next
    case False
    then have "[Suc k..<K] = []" by simp
    moreover have "i \<le> N" using r(3) False seg Suc.prems(2) by (auto simp: script_segments_def intro: order_trans less_imp_le)
    ultimately show ?thesis using r by (auto simp: upt act_defs)
  qed
qed simp

lemma finish_run_script:
  assumes sc: "script (sc_env s0) rs trk N" and s: "stands trk s0 j s" "j \<le> N" and n: "N < n"
    and nt: "\<forall>k < N. ht_terminal (trk k) = None"
    and tm: "ht_terminal (trk N) = Some tr" "dict_get (hr_data tr) ''verdict'' = PStr ''pass''"
    and st: "length rs = Suc N" "hr_kind (rs ! N) = ''status''" "hr_command_id (rs ! N) = command_id_text (Suc (sc_cmd_seq s0))"
      "require_status_ok (rs ! N) ''status'' = Inr ()" "validate_final_status (hr_data (rs ! N)) row = Inr ()"
    and fits: "command_line (sc_run_id s0) ''status'' (command_id_text (Suc (sc_cmd_seq s0))) [] = Inr line"
  shows "\<exists>s'. finish_run n row timeout s = (s', Some (Inr (hr_data (rs ! N))))"
proof -
  have "has_terminal (trk N)" using tm by (simp add: has_terminal_def)
  then obtain i s1 where s1: "drive_until n has_terminal timeout True s = (s1, Some (Inr ()))" "stands trk s0 i s1" "i \<le> N" "has_terminal (trk i)"
    using drive_until_script [OF sc order_refl _ s n] by blast
  then have i: "i = N" using nt by (auto simp: has_terminal_def le_less)
  define c where "c = command_id_text (Suc (sc_cmd_seq s0))"
  obtain s2 where s2: "issue_command (\<lambda>command_id s. s\<lparr>sc_pending_status := Some command_id\<rparr>) ''status'' [] s1 = (s2, Some (Inr c))"
    "sc_env s2 = sc_env s0" "sc_line_calls s2 = N"
    using s1(2) sc fits i unfolding issue_command_alt by (auto simp: stands_def Let_def script_def c_def)
  obtain s3 t where s3: "read_clock s2 = (s3, Some (Inr t))" "frame s2 s3" "sc_line_calls s3 = N"
    using read_clock_frame [of s2] s2(3) by auto
  have "N < length rs" using st(1) by simp
  moreover have "sc_env s3 = sc_env s0" using s2 s3 by (simp add: frame_def)
  ultimately obtain s4 d where s4: "poll True (t + STATUS_TIMEOUT) s3 = (s4, Some (Inr (Some (rs ! N), d)))"
    using poll_script [of s3 rs trk N N] sc s3(3) by metis
  obtain n' where n': "n = Suc n'" using n by (cases n) auto
  have "\<exists>s'. query_status n STATUS_TIMEOUT s1 = (s', Some (Inr (hr_data (rs ! N))))"
    using s2(1) s3(1) s4 st(2-4) by (simp add: query_status_def n' act_defs c_def)
  then show ?thesis
    using s1(1,2) i tm st(5) by (auto simp: finish_run_def act_defs stands_def)
qed

lemma wait_ack_script:
  assumes sc: "script (sc_env s0) rs trk N" and s: "stands trk s0 0 s" and n: "1 < n" "0 < N"
    and ack: "hr_kind (rs ! 0) = ''ack''" "hr_command_id (rs ! 0) = ht_command_id (trk 0)"
  shows "\<exists>i s'. wait_ack n timeout s = (s', Some (Inr ())) \<and> stands trk s0 i s' \<and> i \<le> 1"
proof -
  obtain s1 t where s1: "read_clock s = (s1, Some (Inr t))" "frame s s1" "sc_line_calls s1 = sc_line_calls s" "sc_ack_seen s1 = sc_ack_seen s"
    using read_clock_frame by blast
  have st1: "stands trk s0 0 s1" using s1(2,3) s by (rule stands_frame)
  obtain n' where n': "n = Suc (Suc n')" using n(1) by (metis Suc_lessE Suc_lessD less_imp_Suc_add add_Suc_right One_nat_def)
  show ?thesis
  proof (cases "sc_ack_seen s")
    case True
    with s1 st1 show ?thesis
      by (intro exI [of _ 0] exI [of _ s1]) (simp add: wait_ack_def n' act_defs)
  next
    case False
    have "sc_env s1 = sc_env s0" "sc_line_calls s1 = 0" "0 < length rs" using st1 sc n(2) by (auto simp: stands_def script_def)
    with poll_script [of s1 rs trk N 0] sc obtain s2 d where
      s2: "poll True (t + timeout) s1 = (s2, Some (Inr (Some (rs ! 0), d)))" "frame s1 s2" "sc_line_calls s2 = Suc 0"
      by metis
    have acc: "accept (trk 0) (rs ! 0) = (trk (Suc 0), Inr ())" "hr_kind (rs ! 0) \<noteq> ''status''"
      using sc n(2) by (auto simp: script_def)
    have tr: "sc_tracker s2 = Some (trk 0)" using s2(2) st1 by (simp add: frame_def stands_def)
    obtain s3 where s3: "dispatch (rs ! 0) s2 = (s3, Some (Inr None))" "stands trk s0 1 s3" "sc_ack_seen s3"
      using dispatch_script [OF tr acc] ack s2(2,3) st1 by (auto simp: stands_def frame_def)
    with False s1 s2(1) show ?thesis
      by (intro exI [of _ 1] exI [of _ s3]) (simp add: wait_ack_def n' act_defs)
  qed
qed

lemma register_stop_cleanup_open:
  assumes "\<forall>cbs. sc_cleanup s \<noteq> Some (cbs, True)"
  shows "\<exists>s'. register_stop_cleanup s = (s', Some (Inr ())) \<and> frame s s' \<and> sc_line_calls s' = sc_line_calls s"
proof (cases "sc_cleanup s")
  case (Some c)
  with assms obtain cbs where "c = (cbs, False)" by (cases c) auto
  with Some show ?thesis by (auto simp: register_stop_cleanup_def cleanup_register_def act_defs frame_def)
qed (simp add: register_stop_cleanup_def act_defs frame_def)

lemma start_script:
  fixes s :: source_client
  defines "cmd \<equiv> command_id_text (Suc (sc_cmd_seq s))" and "qid \<equiv> command_id_text (Suc (Suc (sc_cmd_seq s)))"
  assumes sc: "script (sc_env s) rs trk N" and seg: "script_segments trk m K N" and K: "int K = segment_count row" "1 \<le> m 0" and n: "N < n"
    and new: "trk 0 = new_tracker (sc_run_id s) cmd" "sc_line_calls s = 0" and cl: "\<forall>cbs. sc_cleanup s \<noteq> Some (cbs, True)"
    and ack: "hr_kind (rs ! 0) = ''ack''" "hr_command_id (rs ! 0) = cmd"
    and tm: "ht_terminal (trk N) = Some tr" "dict_get (hr_data tr) ''verdict'' = PStr ''pass''"
    and st: "length rs = Suc N" "hr_kind (rs ! N) = ''status''" "hr_command_id (rs ! N) = qid"
      "require_status_ok (rs ! N) ''status'' = Inr ()" "validate_final_status (hr_data (rs ! N)) row = Inr ()"
    and to: "default_timeout row SCORED_TIMEOUT scored = Inr t1" "default_timeout row TERMINAL_TIMEOUT terminal = Inr t2"
    and fits: "command_line (sc_run_id s) ''start'' cmd [] = Inr line1" "command_line (sc_run_id s) ''status'' qid [] = Inr line2"
  shows "\<exists>s'. start n row no_hooks ack_timeout scored terminal s = (s', Some (Inr (hr_data (rs ! N))))"
proof -
  have K0: "0 < K" using K by (simp add: segment_count_def split: if_splits)
  have N0: "0 < N" "1 < n" using seg K0 K(2) n by (auto simp: script_segments_def)
  have nc: "\<not> ce_cancel (sc_env s) k" "ce_write (sc_env s) k = Inr ()" for k using sc by (auto simp: script_def)
  define s1 where "s1 = s\<lparr>sc_cancel_calls := Suc (sc_cancel_calls s)\<rparr>"
  define s2 where "s2 = fst (begin_run s1)"
  have "\<forall>cbs. sc_cleanup s2 \<noteq> Some (cbs, True)" using cl by (simp add: s2_def begin_run_alt s1_def)
  then obtain s3 where s3: "register_stop_cleanup s2 = (s3, Some (Inr ()))" "frame s2 s3" "sc_line_calls s3 = sc_line_calls s2"
    using register_stop_cleanup_open by blast
  define s4 where "s4 = fst (send_command ''start'' cmd [] s3)"
  have run: "sc_run_id s3 = sc_run_id s" "sc_env s3 = sc_env s" "sc_cmd_seq s3 = Suc (sc_cmd_seq s)" "sc_line_calls s3 = 0"
    "sc_tracker s3 = Some (trk 0)"
    using s3(2,3) new by (simp_all add: frame_def s2_def begin_run_alt s1_def cmd_def)
  then have s4: "send_command ''start'' cmd [] s3 = (s4, Some (Inr ()))" "stands trk s3 0 s4"
    using fits(1) nc by (simp_all add: send_command_def send_def act_defs stands_def s4_def)
  have sc3: "script (sc_env s3) rs trk N" using sc run(2) by simp
  have ack0: "hr_command_id (rs ! 0) = ht_command_id (trk 0)" using ack(2) new(1) by (simp add: new_tracker_def)
  obtain i s5 where s5: "wait_ack n ack_timeout s4 = (s5, Some (Inr ()))" "stands trk s3 i s5" "i \<le> 1"
    using wait_ack_script [OF sc3 s4(2) N0(2,1) ack(1) ack0] by blast
  have "i \<le> m 0" using s5(3) K(2) by simp
  then obtain j s6 where s6: "run_segments n row no_hooks t1 t2 [0..<K] s5 = (s6, Some (Inr ()))" "stands trk s3 j s6" "j \<le> N"
    using run_segments_script [OF sc3 seg K(1) n s5(2) K0] by blast
  have "\<exists>s'. finish_run n row t2 s6 = (s', Some (Inr (hr_data (rs ! N))))"
    using finish_run_script [OF sc3 s6(2,3) n _ tm st(1,2) _ st(4,5)] seg st(3) fits(2) run
    by (auto simp: script_segments_def qid_def)
  moreover have "start n row no_hooks ack_timeout scored terminal s = finish_run n row t2 s6"
  proof -
    have "nat (segment_count row) = K" using K(1) by simp
    moreover have "begin_run s1 = (s2, Some (Inr cmd))" by (simp add: s2_def begin_run_alt cmd_def s1_def)
    moreover have "check_cancel True s = (s1, Some (Inr ()))" using nc by (simp add: check_cancel_def act_defs s1_def)
    ultimately show ?thesis
      using to s3(1) s4(1) s5(1) s6(1) by (simp add: start_def act_defs no_hooks_def)
  qed
  ultimately show ?thesis by simp
qed

section \<open>A run the source brings to its end\<close>

text \<open>The records of a whole passing run: an ACK first, the canonical states of every segment, a passing
  terminal record last, all of them acceptable to the tracker.\<close>

definition complete_run :: "string \<Rightarrow> string \<Rightarrow> row_spec \<Rightarrow> hil_record list \<Rightarrow> bool" where
  "complete_run run_id cmd row rs \<longleftrightarrow>
     rs \<noteq> [] \<and> list_all wf_record rs \<and> list_all (\<lambda>r. hr_kind r \<noteq> ''status'') rs \<and> hr_kind (hd rs) = ''ack'' \<and>
     snd (accept_all (new_tracker run_id cmd) rs) = Inr () \<and>
     state_entries rs = map lifecycle_step [0..<nat (2 + 7 * segment_count row)] \<and>
     hr_kind (last rs) = ''terminal'' \<and> dict_get (hr_data (last rs)) ''verdict'' = PStr ''pass''"

definition tracker_after :: "string \<Rightarrow> string \<Rightarrow> hil_record list \<Rightarrow> nat \<Rightarrow> hil_tracker" where
  "tracker_after run_id cmd rs k = fst (accept_all (new_tracker run_id cmd) (take k rs))"

lemma accept_all_take:
  assumes "accept_all t rs = (t', Inr ())"
  shows "\<exists>u. accept_all t (take k rs) = (u, Inr ())"
  using assms trk.run_append [of t "take k rs" "drop k rs"] by (auto split: prod.splits sum.splits)

lemma tracks_last:
  assumes "tracks t xs" and "xs \<noteq> []" and "last xs = (k, 8)"
  shows "ht_segment t = Some k \<and> ht_state_index t = 8"
  using assms by (cases "ht_segment t"; cases "ht_aborted t") (auto simp: tracks_def)

lemma lifecycle_step_teardown: "lifecycle_step (8 + 7 * k) = (int k, 8)"
proof (cases k)
  case (Suc j)
  have "(7 * k - 1) div 7 = j" "(7 * k - 1) mod 7 = 6" using Suc by auto
  with Suc show ?thesis by (simp add: lifecycle_step_def)
qed (simp add: lifecycle_step_def)

lemma state_entries_prefix:
  assumes "L \<le> length (state_entries rs)"
  shows "\<exists>j \<le> length rs. length (state_entries (take j rs)) = L"
  using assms
proof (induction rs arbitrary: L rule: rev_induct)
  case (snoc r rs)
  show ?case
  proof (cases "L \<le> length (state_entries rs)")
    case True
    with snoc.IH obtain j where "j \<le> length rs" "length (state_entries (take j rs)) = L" by blast
    then show ?thesis by (intro exI [of _ j]) simp
  next
    case False
    with snoc.prems have "L = length (state_entries (rs @ [r]))" by (auto simp: state_entries_def split: if_splits)
    then show ?thesis by (intro exI [of _ "length (rs @ [r])"]) simp
  qed
qed (simp add: state_entries_def)

lemma state_entries_take_mono: "i \<le> j \<Longrightarrow> length (state_entries (take i rs)) \<le> length (state_entries (take j rs))"
  by (metis le_add1 length_append state_entries_append take_add le_iff_add)

lemma tracker_after_facts:
  assumes "complete_run run_id cmd row rs"
  shows "accept_all (new_tracker run_id cmd) (take k rs) = (tracker_after run_id cmd rs k, Inr ())"
    and "tracks (tracker_after run_id cmd rs k) (state_entries (take k rs))"
    and "attributed run_id cmd (take k rs) (tracker_after run_id cmd rs k)"
proof -
  have wf: "\<forall>r \<in> set (take k rs). wf_record r" using assms by (auto simp: complete_run_def list_all_iff dest: in_set_takeD)
  obtain t where "accept_all (new_tracker run_id cmd) rs = (t, Inr ())"
    using assms by (cases "accept_all (new_tracker run_id cmd) rs") (simp add: complete_run_def)
  then show a: "accept_all (new_tracker run_id cmd) (take k rs) = (tracker_after run_id cmd rs k, Inr ())"
    using accept_all_take unfolding tracker_after_def by (metis fst_conv)
  show "tracks (tracker_after run_id cmd rs k) (state_entries (take k rs))" using wf a by (rule accept_all_tracks)
  show "attributed run_id cmd (take k rs) (tracker_after run_id cmd rs k)" using wf a by (rule accept_all_attributed)
qed

lemma tracker_after_step:
  assumes "complete_run run_id cmd row rs" and "k < length rs"
  shows "accept (tracker_after run_id cmd rs k) (rs ! k) = (tracker_after run_id cmd rs (Suc k), Inr ())"
  using tracker_after_facts(1) [OF assms(1), of "Suc k"] tracker_after_facts(1) [OF assms(1), of k] assms(2)
  by (auto simp: take_Suc_conv_app_nth trk.run_snoc)

lemma tracker_after_terminal:
  assumes "complete_run run_id cmd row rs"
  shows "ht_terminal (tracker_after run_id cmd rs (length rs)) = Some (last rs)"
    and "k < length rs \<Longrightarrow> ht_terminal (tracker_after run_id cmd rs k) = None"
proof -
  let ?f = "filter (\<lambda>r. hr_kind r = ''terminal'')"
  have ne: "rs \<noteq> []" and fin: "hr_kind (last rs) = ''terminal''" using assms by (auto simp: complete_run_def)
  have f: "?f (take j rs) = (case ht_terminal (tracker_after run_id cmd rs j) of None \<Rightarrow> [] | Some m \<Rightarrow> [m])" for j
    using tracker_after_facts(3) [OF assms, of j] by (simp add: attributed_def)
  have "?f (butlast rs @ [last rs]) = ?f (butlast rs) @ [last rs]" using fin by simp
  then have "?f rs = ?f (butlast rs) @ [last rs]" unfolding append_butlast_last_id [OF ne] .
  with f [of "length rs"] have last: "ht_terminal (tracker_after run_id cmd rs (length rs)) = Some (last rs)" "?f (butlast rs) = []"
    by (auto split: option.splits simp: append_eq_Cons_conv)
  show "ht_terminal (tracker_after run_id cmd rs (length rs)) = Some (last rs)" by (rule last(1))
  assume "k < length rs"
  then have "take k rs = take k (butlast rs)" by (simp add: take_butlast)
  then have "?f (take k rs) = []" using last(2) by (auto simp: filter_empty_conv dest: in_set_takeD)
  with f [of k] show "ht_terminal (tracker_after run_id cmd rs k) = None" by (auto split: option.splits)
qed

lemma complete_run_segments:
  assumes "complete_run run_id cmd row rs" and K: "int K = segment_count row"
  shows "\<exists>m. script_segments (tracker_after run_id cmd rs) m K (length rs) \<and> 1 \<le> m 0"
proof -
  let ?trk = "tracker_after run_id cmd rs"
  have entries: "state_entries rs = map lifecycle_step [0..<2 + 7 * K]"
    using assms(1) by (simp add: complete_run_def nat_add_distrib nat_mult_distrib flip: K)
  have ne: "rs \<noteq> []" using assms(1) by (simp add: complete_run_def)
  have "state_entries [last rs] = []" using assms(1) by (simp add: complete_run_def state_entries_def)
  then have "state_entries (butlast rs) = state_entries rs"
    using state_entries_append [of "butlast rs" "[last rs]", unfolded append_butlast_last_id [OF ne]] by simp
  then have butlast: "length (state_entries (butlast rs)) = 2 + 7 * K" unfolding entries by simp
  have "\<exists>j < length rs. length (state_entries (take j rs)) = 9 + 7 * k" if "k < K" for k
  proof -
    have "9 + 7 * k \<le> length (state_entries (butlast rs))" using that unfolding butlast by simp
    then obtain j where j: "j \<le> length (butlast rs)" "length (state_entries (take j (butlast rs))) = 9 + 7 * k"
      using state_entries_prefix by blast
    then have "j < length rs" using ne by (cases rs rule: rev_cases) auto
    with j show ?thesis by (auto simp: take_butlast)
  qed
  then obtain m where m: "\<And>k. k < K \<Longrightarrow> m k < length rs \<and> length (state_entries (take (m k) rs)) = 9 + 7 * k" by metis
  have at: "ht_segment (?trk (m k)) = Some (int k) \<and> ht_state_index (?trk (m k)) = 8" if "k < K" for k
  proof -
    have "state_entries rs = state_entries (take (m k) rs) @ state_entries (drop (m k) rs)"
      using state_entries_append [of "take (m k) rs" "drop (m k) rs"] by simp
    then have "state_entries (take (m k) rs) = take (9 + 7 * k) (state_entries rs)" using m [OF that] by simp
    also have "\<dots> = map lifecycle_step [0..<9 + 7 * k]" unfolding entries take_map using that by (simp only: take_upt add_0)
    finally have "last (state_entries (take (m k) rs)) = (int k, 8)" "state_entries (take (m k) rs) \<noteq> []"
      using lifecycle_step_teardown [of k] by (simp_all add: last_map)
    then show ?thesis
      using tracks_last [OF tracker_after_facts(2) [OF assms(1), of "m k"]] by blast
  qed
  have mono: "m k \<le> m (Suc k)" if "Suc k < K" for k
  proof (rule ccontr)
    assume "\<not> m k \<le> m (Suc k)"
    then have "length (state_entries (take (m (Suc k)) rs)) \<le> length (state_entries (take (m k) rs))"
      by (intro state_entries_take_mono) simp
    with m [of k] m [OF that] that show False by simp
  qed
  have "0 < K" using K by (simp add: segment_count_def split: if_splits)
  with m [of 0] have "1 \<le> m 0" by (cases "m 0") (auto simp: state_entries_def)
  moreover have "script_segments ?trk m K (length rs)"
    unfolding script_segments_def using m at mono tracker_after_terminal(2) [OF assms(1)] by blast
  ultimately show ?thesis by blast
qed

lemma complete_run_start:
  assumes rs: "complete_run (sc_run_id s) (command_id_text (Suc (sc_cmd_seq s))) row rs"
    and env: "\<forall>n. \<not> ce_cancel (sc_env s) n" "\<forall>n. ce_write (sc_env s) n = Inr ()"
    and lines: "\<forall>k < Suc (length rs). \<exists>l. ce_lines (sc_env s) k = Inr (Some l) \<and> parse_client_line l = Inr (Some ((rs @ [q]) ! k))"
    and q: "hr_kind q = ''status''" "hr_command_id q = command_id_text (Suc (Suc (sc_cmd_seq s)))"
      "require_status_ok q ''status'' = Inr ()" "validate_final_status (hr_data q) row = Inr ()"
    and s: "sc_line_calls s = 0" "\<forall>cbs. sc_cleanup s \<noteq> Some (cbs, True)"
    and to: "default_timeout row SCORED_TIMEOUT scored = Inr t1" "default_timeout row TERMINAL_TIMEOUT terminal = Inr t2"
    and fits: "command_line (sc_run_id s) ''start'' (command_id_text (Suc (sc_cmd_seq s))) [] = Inr line1"
      "command_line (sc_run_id s) ''status'' (command_id_text (Suc (Suc (sc_cmd_seq s)))) [] = Inr line2"
    and n: "length rs < n"
  shows "\<exists>s'. start n row no_hooks ack scored terminal s = (s', Some (Inr (hr_data q)))"
proof -
  let ?cmd = "command_id_text (Suc (sc_cmd_seq s))"
  let ?trk = "tracker_after (sc_run_id s) ?cmd rs"
  define K where "K = nat (segment_count row)"
  have K: "int K = segment_count row" by (simp add: K_def segment_count_def)
  obtain m where m: "script_segments ?trk m K (length rs)" "1 \<le> m 0" using complete_run_segments [OF rs K] by blast
  have ne: "rs \<noteq> []" "hr_kind (hd rs) = ''ack''" and st: "list_all (\<lambda>r. hr_kind r \<noteq> ''status'') rs"
    and pass: "dict_get (hr_data (last rs)) ''verdict'' = PStr ''pass''"
    using rs by (auto simp: complete_run_def)
  have sc: "script (sc_env s) (rs @ [q]) ?trk (length rs)"
    unfolding script_def using env lines tracker_after_step [OF rs] st by (auto simp: nth_append list_all_length)
  have first: "(rs @ [q]) ! 0 = hd rs" using ne by (simp add: nth_append hd_conv_nth)
  have "attributed (sc_run_id s) ?cmd (take 1 rs) (?trk 1)" by (rule tracker_after_facts(3) [OF rs])
  then have "hr_command_id (hd rs) = ?cmd" using ne by (cases rs) (auto simp: attributed_def)
  moreover have "?trk 0 = new_tracker (sc_run_id s) ?cmd" by (simp add: tracker_after_def trk.run_Nil)
  ultimately show ?thesis
    using start_script [OF sc m(1) K m(2) n _ s(1) s(2) _ _ tracker_after_terminal(1) [OF rs] pass _ _ _ _ _ to fits, of ack]
      q first ne by (simp add: nth_append)
qed

section \<open>The waiting loops come to an end\<close>

text \<open>What one iteration does to the calls of the console and of the clock.\<close>

definition same_calls :: "source_client \<Rightarrow> source_client \<Rightarrow> bool" where
  "same_calls s s' \<longleftrightarrow> sc_env s' = sc_env s \<and> sc_line_calls s' = sc_line_calls s \<and> sc_clock_calls s' = sc_clock_calls s"

definition next_calls :: "source_client \<Rightarrow> source_client \<Rightarrow> bool" where
  "next_calls s s' \<longleftrightarrow> sc_env s' = sc_env s \<and> sc_line_calls s' = Suc (sc_line_calls s) \<and> sc_clock_calls s' = Suc (sc_clock_calls s)"

lemma check_cancel_calls: "\<exists>s' r. check_cancel cc s = (s', Some r) \<and> same_calls s s'"
  by (simp add: check_cancel_def act_defs same_calls_def)

lemma poll_calls:
  "\<exists>s' r. poll cc deadline s = (s', Some r) \<and>
     (\<forall>x t. r = Inr (x, t) \<longrightarrow> next_calls s s' \<and> t = deadline - ce_clock (sc_env s) (sc_clock_calls s) \<and>
        (ce_lines (sc_env s) (sc_line_calls s) = Inr None \<longrightarrow> x = None))"
proof -
  obtain s1 r1 where 1: "check_cancel cc s = (s1, Some r1)" "same_calls s s1" using check_cancel_calls by blast
  obtain s2 where 2: "read_clock s1 = (s2, Some (Inr (ce_clock (sc_env s) (sc_clock_calls s))))" "sc_env s2 = sc_env s"
    "sc_line_calls s2 = sc_line_calls s" "sc_clock_calls s2 = Suc (sc_clock_calls s)"
    using 1(2) by (simp add: read_clock_def act_defs same_calls_def)
  obtain s3 r3 where 3: "check_cancel cc s2 = (s3, Some r3)" "same_calls s2 s3" using check_cancel_calls by blast
  define l where "l = ce_lines (sc_env s) (sc_line_calls s)"
  obtain s4 where 4: "console_next_line s3 = (s4, Some l)" "sc_env s4 = sc_env s" "sc_line_calls s4 = Suc (sc_line_calls s)"
    "sc_clock_calls s4 = Suc (sc_clock_calls s)"
    using 2 3(2) by (simp add: console_next_line_def act_defs same_calls_def l_def)
  obtain s5 r5 where 5: "check_cancel cc s4 = (s5, Some r5)" "same_calls s4 s5" using check_cancel_calls by blast
  have "next_calls s s5" using 4 5(2) by (simp add: next_calls_def same_calls_def)
  with 1(1) 2(1) 3(1) 4(1) 5(1) show ?thesis
    unfolding l_def [symmetric]
    by (cases r1; cases r3; cases l; cases r5)
       (auto simp: poll_def next_record_def act_defs next_calls_def split: option.splits sum.splits)
qed

lemma dispatch_calls: "\<exists>s' r. dispatch x s = (s', Some r) \<and> same_calls s s'"
  by (auto simp: dispatch_def tracker_accept_def act_defs same_calls_def split: option.splits prod.splits sum.splits)

lemma dispatch_then_stuck:
  "snd (sbind (dispatch y) (\<lambda>_. b) u) = None \<Longrightarrow> \<exists>u'. same_calls u u' \<and> snd (b u') = None"
  using dispatch_calls [of y u] by (auto simp: sbind_def split: sum.splits)

lemma poll_loop_stuck:
  assumes stuck: "snd (sbind (poll cc deadline) (\<lambda>(x, t). case x of None \<Rightarrow> if t \<le> 0 then a else b | Some y \<Rightarrow> f y) s) = None"
    and a: "\<And>u. snd (a u) \<noteq> None" and f: "\<And>y u. snd (f y u) = None \<Longrightarrow> \<exists>u'. same_calls u u' \<and> snd (b u') = None"
  shows "\<exists>s'. snd (b s') = None \<and> next_calls s s' \<and>
    (ce_lines (sc_env s) (sc_line_calls s) \<noteq> Inr None \<or> ce_clock (sc_env s) (sc_clock_calls s) < deadline)"
proof -
  obtain s1 r where p: "poll cc deadline s = (s1, Some r)"
    "\<forall>x t. r = Inr (x, t) \<longrightarrow> next_calls s s1 \<and> t = deadline - ce_clock (sc_env s) (sc_clock_calls s) \<and>
        (ce_lines (sc_env s) (sc_line_calls s) = Inr None \<longrightarrow> x = None)"
    using poll_calls by blast
  with stuck obtain x t where r: "r = Inr (x, t)" by (cases r) (auto simp: sbind_def)
  show ?thesis
  proof (cases x)
    case None
    with stuck p(1) r have "snd ((if t \<le> 0 then a else b) s1) = None" by (simp add: sbind_def)
    with a [of s1] have "\<not> t \<le> 0" "snd (b s1) = None" by (auto split: if_splits)
    with p(2) r show ?thesis by (intro exI [of _ s1]) auto
  next
    case (Some y)
    with stuck p r have "snd (f y s1) = None" by (simp add: sbind_def)
    then obtain u' where "same_calls s1 u'" "snd (b u') = None" using f by blast
    with p(2) r Some show ?thesis by (intro exI [of _ u']) (auto simp: next_calls_def same_calls_def)
  qed
qed

text \<open>A loop over \<open>poll\<close> that is out of fuel has read one line and one clock value per iteration.\<close>

locale wait_loop =
  fixes loop :: "nat \<Rightarrow> source_client \<Rightarrow> source_client \<times> 'a result option" and deadline :: rat
  assumes loop_stuck: "snd (loop (Suc n) s) = None \<Longrightarrow> \<exists>s'. snd (loop n s') = None \<and> next_calls s s' \<and>
    (ce_lines (sc_env s) (sc_line_calls s) \<noteq> Inr None \<or> ce_clock (sc_env s) (sc_clock_calls s) < deadline)"
begin

lemma loop_ends:
  assumes "\<forall>i \<ge> N. ce_lines (sc_env s) i = Inr None" and "\<forall>i \<ge> M. deadline \<le> ce_clock (sc_env s) i"
    and "N \<le> sc_line_calls s + i" and "M \<le> sc_clock_calls s + i" and "i < n"
  shows "snd (loop n s) \<noteq> None"
  using assms
proof (induction n arbitrary: s i)
  case (Suc n)
  show ?case
  proof
    assume "snd (loop (Suc n) s) = None"
    from loop_stuck [OF this] obtain s' where s': "snd (loop n s') = None" "next_calls s s'"
      "ce_lines (sc_env s) (sc_line_calls s) \<noteq> Inr None \<or> ce_clock (sc_env s) (sc_clock_calls s) < deadline" by blast
    with Suc.prems have "i \<noteq> 0" by (metis add_0_right not_le)
    then obtain j where "i = Suc j" by (cases i) auto
    with s' Suc.IH [of s' j] Suc.prems show False by (auto simp: next_calls_def)
  qed
qed simp

end

interpretation ws: wait_loop "\<lambda>n. wait_status_loop n i cc deadline" deadline for i cc deadline
proof
  fix n s assume "snd (wait_status_loop (Suc n) i cc deadline s) = None"
  then show "\<exists>s'. snd (wait_status_loop n i cc deadline s') = None \<and> next_calls s s' \<and>
    (ce_lines (sc_env s) (sc_line_calls s) \<noteq> Inr None \<or> ce_clock (sc_env s) (sc_clock_calls s) < deadline)"
    unfolding wait_status_loop.simps by (rule poll_loop_stuck) (auto simp: act_defs intro: dispatch_then_stuck split: if_splits)
qed

interpretation qs: wait_loop "\<lambda>n. query_status_loop n i deadline" deadline for i deadline
proof
  fix n s assume "snd (query_status_loop (Suc n) i deadline s) = None"
  then show "\<exists>s'. snd (query_status_loop n i deadline s') = None \<and> next_calls s s' \<and>
    (ce_lines (sc_env s) (sc_line_calls s) \<noteq> Inr None \<or> ce_clock (sc_env s) (sc_clock_calls s) < deadline)"
    unfolding query_status_loop.simps
    by (rule poll_loop_stuck) (auto simp: act_defs intro: dispatch_then_stuck split: if_splits sum.splits)
qed

interpretation wa: wait_loop "\<lambda>n. wait_ack_loop n deadline" deadline for deadline
proof
  fix n s assume stuck: "snd (wait_ack_loop (Suc n) deadline s) = None"
  then have "snd (sbind (poll True deadline) (\<lambda>(record, remaining).
           case record of
             None \<Rightarrow> if remaining \<le> 0 then sreturn () else wait_ack_loop n deadline
           | Some r \<Rightarrow> sbind (dispatch r) (\<lambda>_. wait_ack_loop n deadline)) s) = None"
    by (cases "sc_ack_seen s") (simp_all add: sbind_def [of "sget sc_ack_seen"] sget_def, simp add: sreturn_def)
  then show "\<exists>s'. snd (wait_ack_loop n deadline s') = None \<and> next_calls s s' \<and>
    (ce_lines (sc_env s) (sc_line_calls s) \<noteq> Inr None \<or> ce_clock (sc_env s) (sc_clock_calls s) < deadline)"
    by (rule poll_loop_stuck) (simp add: act_defs, rule dispatch_then_stuck)
qed

interpretation dl: wait_loop "\<lambda>n. drive_loop n p deadline cc" deadline for p deadline cc
proof
  fix n s assume stuck: "snd (drive_loop (Suc n) p deadline cc s) = None"
  then have "snd (sbind (poll cc deadline) (\<lambda>(record, remaining).
           case record of
             None \<Rightarrow> if remaining \<le> 0 then sreturn () else drive_loop n p deadline cc
           | Some r \<Rightarrow> sbind (dispatch r) (\<lambda>_. drive_loop n p deadline cc)) s) = None"
    by (cases "tracker_is p s") (simp_all add: sbind_def [of "sget (tracker_is p)"] sget_def, simp add: sreturn_def)
  then show "\<exists>s'. snd (drive_loop n p deadline cc s') = None \<and> next_calls s s' \<and>
    (ce_lines (sc_env s) (sc_line_calls s) \<noteq> Inr None \<or> ce_clock (sc_env s) (sc_clock_calls s) < deadline)"
    by (rule poll_loop_stuck) (simp add: act_defs, rule dispatch_then_stuck)
qed

section \<open>An example session\<close>

definition example_row :: row_spec where
  "example_row = \<lparr>rs_name = ''x'', rs_state = ''healthy'', rs_mode = ''mode_b'', rs_profile = ''48_4_1'', rs_scored_sdu_count = 3,
     rs_signal_seed = 1, rs_reconnect_policy = ''none'', rs_fault = None\<rparr>"

definition example_status :: pydict where
  "example_status =
     [(''command'', PStr ''status''), (''ok'', PBool True), (''error'', PStr ''ok''), (''active'', PBool False),
      (''state'', PStr ''teardown''), (''aborted'', PBool False), (''verdict'', PStr ''pass''), (''first_errno'', PInt 0),
      (''mode'', PStr ''mode_b''), (''profile'', PStr ''48_4_1''), (''reconnect'', PStr ''none''), (''scored_target'', PInt 3),
      (''segment'', PInt 0), (''stream_count'', PInt 1),
      (''streams'', PList [PDict [(''sub'', PInt 647), (''sc'', PInt 3), (''sf'', PInt 0), (''out'', PInt 0)]]),
      (''connected'', PBool False), (''group'', PBool False), (''security_level'', PInt 0), (''security_error'', PInt 0),
      (''sink_ase_count'', PInt 0), (''bond_count'', PInt 1)]"

definition reply :: "nat \<Rightarrow> string \<Rightarrow> string \<Rightarrow> pydict \<Rightarrow> hil_record" where
  "reply k kind command_id data = (state_record k)\<lparr>hr_kind := kind, hr_command_id := command_id, hr_data := data\<rparr>"

definition example_replies :: "hil_record list" where
  "example_replies =
     reply 0 ''ack'' ''cmd-0001'' [] #
     map (\<lambda>k. reply k ''state'' ''cmd-0001'' (hr_data (state_record k))) [0..<9] @
     [reply 8 ''terminal'' ''cmd-0001'' [(''verdict'', PStr ''pass'')]]"

definition example_final :: hil_record where
  "example_final = reply 8 ''status'' ''cmd-0002'' example_status"

definition console_of :: "string list \<Rightarrow> console_env" where
  "console_of ls =
     \<lparr>ce_lines = (\<lambda>n. Inr (if n < length ls then Some (ls ! n) else None)), ce_clock = (\<lambda>n. of_nat n),
      ce_cancel = (\<lambda>_. False), ce_write = (\<lambda>_. Inr ())\<rparr>"

definition example_client :: source_client where
  "example_client =
     new_client ''r'' None (console_of (map (\<lambda>r. hil1_line '','' '':'' (record_dict r)) (example_replies @ [example_final])))"

lemma example_replies_complete: "complete_run ''r'' (command_id_text 1) example_row example_replies"
  by code_simp

lemma example_final_ok:
  "hr_kind example_final = ''status''" "hr_command_id example_final = command_id_text 2" "hr_data example_final = example_status"
  "require_status_ok example_final ''status'' = Inr ()" "validate_final_status example_status example_row = Inr ()"
  by code_simp+

lemma example_replies_parse:
  assumes "r \<in> set (example_replies @ [example_final])"
  shows "parse_client_line (hil1_line '','' '':'' (record_dict r)) = Inr (Some r)"
proof -
  have "list_all (\<lambda>r. wf_record r \<and> \<not> is_diagnostic_record r \<and> plain_json (PDict (record_dict r))) (example_replies @ [example_final])"
    by code_simp
  with assms have r: "wf_record r" "\<not> is_diagnostic_record r" "plain_json (PDict (record_dict r))" by (auto simp: list_all_iff)
  have "distinct (dict_keys (record_dict r))" by (simp add: record_dict_keys REQUIRED_KEYS_def)
  from parse_record_dict [OF r(1) this refl r(3) example_separators] r(2) show ?thesis by (simp add: parse_client_line_def)
qed

lemma example_command_lines:
  "\<exists>l. command_line ''r'' ''start'' (command_id_text 1) [] = Inr l" "\<exists>l. command_line ''r'' ''status'' (command_id_text 2) [] = Inr l"
  by (rule exI, code_simp)+

lemma example_client_fields:
  "sc_run_id example_client = ''r''" "sc_cmd_seq example_client = 0" "sc_line_calls example_client = 0" "sc_cleanup example_client = None"
  "sc_env example_client = console_of (map (\<lambda>r. hil1_line '','' '':'' (record_dict r)) (example_replies @ [example_final]))"
  by (simp_all add: example_client_def new_client_def)

lemma example_client_lines:
  assumes "k < Suc (length example_replies)"
  shows "\<exists>l. ce_lines (sc_env example_client) k = Inr (Some l) \<and>
    parse_client_line l = Inr (Some ((example_replies @ [example_final]) ! k))"
proof -
  have "(example_replies @ [example_final]) ! k \<in> set (example_replies @ [example_final])" using assms by (intro nth_mem) simp
  from example_replies_parse [OF this] show ?thesis
    using assms by (simp add: example_client_fields(5) console_of_def del: map_append set_append)
qed

lemma example_start:
  "\<exists>s'. start 12 example_row no_hooks 5 (Some 100) (Some 200) example_client = (s', Some (Inr example_status))"
proof -
  obtain l1 l2 where l: "command_line ''r'' ''start'' (command_id_text 1) [] = Inr l1"
    "command_line ''r'' ''status'' (command_id_text 2) [] = Inr l2" using example_command_lines by blast
  have "length example_replies = 11" by code_simp
  then show ?thesis
    using complete_run_start [of example_client example_row example_replies example_final "Some 100" 100 "Some 200" 200 l1 l2 12 5]
      example_replies_complete example_client_lines example_final_ok l example_client_fields
    by (simp add: numeral_2_eq_2 default_timeout_def console_of_def)
qed

section \<open>Properties of the client\<close>



lemma sbind_InrE:
  assumes "sbind m f s = (s', Some (Inr y))"
  obtains s1 x where "m s = (s1, Some (Inr x))" "f x s1 = (s', Some (Inr y))"
  using assms by (auto simp: sbind_Inr)

lemma run_history:
  assumes s: "sc_tracker s = Some (new_tracker run_id cmd)" and g: "tracker_grows s sm" "tracker_grows sm se" "tracker_grows se s'"
    and td: "torn_down K sm"
    and tm: "tracker_is (\<lambda>t. \<exists>r. ht_terminal t = Some r \<and> dict_get (hr_data r) ''verdict'' = PStr ''pass'') se"
  shows "\<exists>rs t m k. (\<forall>r \<in> set rs. wf_record r) \<and> accept_all (new_tracker run_id cmd) rs = (t, Inr ()) \<and> sc_tracker s' = Some t \<and>
     \<not> ht_aborted t \<and> state_entries rs = map lifecycle_step [0..<k] \<and> (int K, 8) \<in> set (state_entries rs) \<and>
     filter (\<lambda>r. hr_kind r = ''terminal'') rs = [m] \<and> dict_get (hr_data m) ''verdict'' = PStr ''pass''"
proof -
  obtain as t1 where a: "\<forall>r \<in> set as. wf_record r" "accept_all (new_tracker run_id cmd) as = (t1, Inr ())" "sc_tracker sm = Some t1"
    using tracker_growsE [OF g(1) s] by blast
  obtain bs t2 where b: "\<forall>r \<in> set bs. wf_record r" "accept_all t1 bs = (t2, Inr ())" "sc_tracker se = Some t2"
    using tracker_growsE [OF g(2) a(3)] by blast
  obtain cs t where c: "\<forall>r \<in> set cs. wf_record r" "accept_all t2 cs = (t, Inr ())" "sc_tracker s' = Some t"
    using tracker_growsE [OF g(3) b(3)] by blast
  have ab: "accept_all (new_tracker run_id cmd) (as @ bs) = (t2, Inr ())" using a(2) b(2) by (simp add: trk.run_append)
  have abc: "accept_all (new_tracker run_id cmd) (as @ bs @ cs) = (t, Inr ())" using a(2) b(2) c(2) by (simp add: trk.run_append)
  have wf: "\<forall>r \<in> set (as @ bs). wf_record r" "\<forall>r \<in> set (as @ bs @ cs). wf_record r" using a(1) b(1) c(1) by auto
  obtain m where m: "ht_terminal t2 = Some m" "dict_get (hr_data m) ''verdict'' = PStr ''pass''"
    using tm b(3) by (auto simp: tracker_is_def)
  have "filter (\<lambda>r. hr_kind r = ''terminal'') (as @ bs) = [m]"
    using accept_all_attributed [OF wf(1) ab] m(1) by (simp add: attributed_def)
  moreover have fin: "filter (\<lambda>r. hr_kind r = ''terminal'') (as @ bs @ cs) = (case ht_terminal t of None \<Rightarrow> [] | Some m \<Rightarrow> [m])"
    using accept_all_attributed [OF wf(2) abc] by (simp add: attributed_def)
  ultimately have t: "ht_terminal t = Some m"
    by (auto split: option.splits simp: append_eq_Cons_conv)
  have tracks: "tracks t (state_entries (as @ bs @ cs))" using wf(2) abc by (rule accept_all_tracks)
  then have na: "\<not> ht_aborted t" using tracks_terminal_state [OF tracks t] m(2) by blast
  obtain k where "state_entries (as @ bs @ cs) = map lifecycle_step [0..<k]" using tracks_entries [OF tracks] na by auto
  moreover have "(int K, 8) \<in> set (state_entries as)"
    using tracks_torn_down [OF accept_all_tracks [OF a(1,2)]] td a(3) by (auto simp: torn_down_def tracker_is_def)
  then have "(int K, 8) \<in> set (state_entries (as @ bs @ cs))" by simp
  ultimately show ?thesis using wf(2) abc c(3) na fin t m(2) by (intro exI [of _ "as @ bs @ cs"]) auto
qed

text \<open>C7: a \<open>start\<close> that returns has seen a whole passing run.  With hooks that leave the tracker to the
  client, the records accepted under the new command id are the canonical life cycle, teardown of the
  row's last segment included, without an abort, the only terminal record says \<open>pass\<close>, and
  the returned final status has passed its validation.\<close>

theorem start_passed:
  assumes hooks: "hooks_keep tracker_grows hooks"
    and run: "start n row hooks ack scored terminal s = (s', Some (Inr status))"
  shows "\<exists>rs t m k. list_all wf_record rs \<and>
     accept_all (new_tracker (sc_run_id s) (command_id_text (Suc (sc_cmd_seq s)))) rs = (t, Inr ()) \<and> sc_tracker s' = Some t \<and>
     \<not> ht_aborted t \<and> state_entries rs = map lifecycle_step [0..<k] \<and> (segment_count row - 1, 8) \<in> set (state_entries rs) \<and>
     filter (\<lambda>r. hr_kind r = ''terminal'') rs = [m] \<and> dict_get (hr_data m) ''verdict'' = PStr ''pass'' \<and>
     validate_final_status status row = Inr ()"
proof -
  let ?new = "new_tracker (sc_run_id s) (command_id_text (Suc (sc_cmd_seq s)))"
  obtain scored' terminal' s1 s3' s3 s4 s5 s6 where pre: "check_cancel True s = (s1, Some (Inr ()))"
    and reg: "register_stop_cleanup (fst (begin_run s1)) = (s3', Some (Inr ()))"
    and hook: "invoke_segment_hook (sh_before_start hooks) 0 s3' = (s3, Some (Inr ()))"
    and r: "send_command ''start'' (command_id_text (Suc (sc_cmd_seq s1))) [] s3 = (s4, Some (Inr ()))"
      "wait_ack n ack s4 = (s5, Some (Inr ()))"
      "run_segments n row hooks scored' terminal' [0..<nat (segment_count row)] s5 = (s6, Some (Inr ()))"
      "finish_run n row terminal' s6 = (s', Some (Inr status))"
    using run unfolding start_def by (elim sbind_InrE) (auto simp: begin_run_alt slift_def)
  have f1: "sc_run_id s1 = sc_run_id s" "sc_cmd_seq s1 = sc_cmd_seq s"
    using pre by (auto simp: check_cancel_def act_defs split: if_splits)
  define s2 where "s2 = fst (begin_run s1)"
  have s2: "sc_tracker s2 = Some ?new" by (simp add: s2_def begin_run_alt f1)
  have "keeps tracker_grows register_stop_cleanup"
    unfolding register_stop_cleanup_def
    by (intro grows.keeps_basic grows.keeps_cleanup_register) (simp add: frame_def)
  then have "tracker_grows s2 s3'" using reg unfolding s2_def by (rule keepsD)
  moreover have "tracker_grows s3' s3"
    using hooks hook by (intro keepsD [OF grows.keeps_hook]) (simp_all add: hooks_keep_def)
  ultimately have g1: "tracker_grows s2 s3" by (rule tracker_grows_trans)
  have "tracker_grows s3 s4"
    using r(1) by (intro tracker_grows_frame) (auto simp: send_command_def send_def act_defs split: sum.splits)
  with g1 have g2: "tracker_grows s2 s5" using keepsD [OF grows.keeps_wait_ack r(2)] by (blast intro: tracker_grows_trans)
  define K where "K = nat (segment_count row - 1)"
  have K: "K \<in> set [0..<nat (segment_count row)]" "int K = segment_count row - 1" by (auto simp: K_def segment_count_def)
  obtain sm where sm: "tracker_grows s5 sm" "torn_down K sm" "tracker_grows sm s6"
    using run_segments_torn_down [OF hooks r(3) K(1)] by (auto simp: passes_through_def)
  obtain se where se: "tracker_grows s6 se" "tracker_is (\<lambda>t. \<exists>r. ht_terminal t = Some r \<and> dict_get (hr_data r) ''verdict'' = PStr ''pass'') se"
    "tracker_grows se s'" "validate_final_status status row = Inr ()"
    using finish_run_Inr [OF r(4)] by blast
  have g3: "tracker_grows s2 sm" using g2 sm(1) by (rule tracker_grows_trans)
  have g4: "tracker_grows sm se" using sm(3) se(1) by (rule tracker_grows_trans)
  show ?thesis using run_history [OF s2 g3 g4 se(3) sm(2) se(2)] se(4) K(2) by (simp add: list_all_iff)
qed

theorem start_passed_witness:
  "\<exists>s' rs t. start 12 example_row no_hooks 5 (Some 100) (Some 200) example_client = (s', Some (Inr example_status)) \<and>
     accept_all (new_tracker ''r'' (command_id_text 1)) rs = (t, Inr ()) \<and> sc_tracker s' = Some t \<and> (0, 8) \<in> set (state_entries rs)"
proof -
  obtain s' where s': "start 12 example_row no_hooks 5 (Some 100) (Some 200) example_client = (s', Some (Inr example_status))"
    using example_start by blast
  have "hooks_keep tracker_grows no_hooks" by (simp add: hooks_keep_def no_hooks_def)
  from start_passed [OF this s'] s' show ?thesis
    by (auto simp: example_client_fields example_row_def segment_count_def)
qed



text \<open>C34: no wait runs forever.  When the console has nothing more to say from some call on and the clock has passed
  the deadline from some reading on, each of the four waits returns or raises, with fuel beyond those two numbers.\<close>

theorem waits_end:
  assumes "\<forall>i \<ge> N. ce_lines (sc_env s) i = Inr None"
    and "\<forall>i \<ge> M. ce_clock (sc_env s) (sc_clock_calls s) + timeout \<le> ce_clock (sc_env s) i" and "N + M < n"
  shows "snd (wait_status n command_id expected timeout cc s) \<noteq> None \<and> snd (query_status n timeout s) \<noteq> None \<and>
    snd (wait_ack n timeout s) \<noteq> None \<and> snd (drive_until n p timeout cc s) \<noteq> None"
proof -
  define d where "d = ce_clock (sc_env s) (sc_clock_calls s) + timeout"
  have fuel: "N \<le> sc_line_calls u + (N + M)" "M \<le> sc_clock_calls u + (N + M)" for u by simp_all
  have ends: "snd (wait_status_loop n command_id cc d u) \<noteq> None" "snd (query_status_loop n i d u) \<noteq> None"
    "snd (wait_ack_loop n d u) \<noteq> None" "snd (drive_loop n p d cc u) \<noteq> None" if "sc_env u = sc_env s" for u i
    using ws.loop_ends qs.loop_ends wa.loop_ends dl.loop_ends assms fuel that unfolding d_def by metis+
  have clock: "read_clock u = (u\<lparr>sc_clock_calls := Suc (sc_clock_calls u)\<rparr>, Some (Inr (ce_clock (sc_env u) (sc_clock_calls u))))" for u
    by (simp add: read_clock_def act_defs)
  have "snd (query_status n timeout s) \<noteq> None"
    using ends(2) unfolding query_status_def sbind_def [of "issue_command _ _ _"] issue_command_alt
    by (auto simp: Let_def sbind_def clock d_def split: sum.splits)
  then show ?thesis
    using ends(1) [of "s\<lparr>sc_clock_calls := Suc (sc_clock_calls s)\<rparr>"] ends(3) [of "s\<lparr>sc_clock_calls := Suc (sc_clock_calls s)\<rparr>"]
      ends(4) [of "s\<lparr>sc_clock_calls := Suc (sc_clock_calls s)\<rparr>"]
    by (auto simp: wait_status_def wait_ack_def drive_until_def clock act_defs d_def split: prod.splits option.splits sum.splits)
qed

theorem waits_end_witness:
  "snd (wait_status 15 ''cmd-0001'' ''idle'' 10 True (new_client ''r'' None (console_of [''log'']))) \<noteq> None"
proof -
  have "\<forall>i \<ge> 1. ce_lines (console_of [''log'']) i = Inr None" "\<forall>i \<ge> 10. ce_clock (console_of [''log'']) 0 + 10 \<le> ce_clock (console_of [''log'']) i"
    by (auto simp: console_of_def)
  then show ?thesis
    using waits_end [where N = 1 and M = 10 and s = "new_client ''r'' None (console_of [''log''])" and timeout = 10 and n = 15]
    by (simp add: new_client_def)
qed

text \<open>What a synchronous command writes, and that \<open>idle\<close> marks the client.\<close>

lemma sync_command_writes:
  assumes "sync_command n c expected timeout cc x s = (s', Some (Inr r))"
  shows "sc_written s' = sc_written s @ [issued_line (sc_run_id s) (Suc (sc_cmd_seq s), c, x)]"
proof -
  obtain s1 s2 i where r: "check_cancel cc s = (s1, Some (Inr ()))" "issue_command (\<lambda>_ s. s) c x s1 = (s2, Some (Inr i))"
    "wait_status n i expected timeout cc s2 = (s', Some (Inr r))"
    using assms unfolding sync_command_def by (auto elim!: sbind_InrE)
  have "quiet s s1" "quiet s2 s'"
    using keepsD [OF quiet.keeps_check_cancel r(1)] keepsD [OF quiet.keeps_wait_status r(3)] by simp_all
  moreover from r(2) obtain l where "command_line (sc_run_id s1) c (command_id_text (Suc (sc_cmd_seq s1))) x = Inr l"
    "sc_written s2 = sc_written s1 @ [l @ [CHR 0x0A]]"
    unfolding issue_command_alt by (auto simp: Let_def split: sum.splits)
  ultimately show ?thesis using command_line_Inr by (auto simp: quiet_def)
qed

lemma sync_command_writes_some:
  "\<exists>ls. sc_written (fst (sync_command n c expected timeout cc x s)) = sc_written s @ ls \<and>
     (ls = [] \<or> ls = [issued_line (sc_run_id s) (Suc (sc_cmd_seq s), c, x)])"
proof -
  obtain s1 r1 where 1: "check_cancel cc s = (s1, r1)" by (cases "check_cancel cc s")
  obtain s2 r2 where 2: "issue_command (\<lambda>_ s. s) c x s1 = (s2, r2)" by (cases "issue_command (\<lambda>_ s. s) c x s1")
  have q: "quiet s s1" using keepsD [OF quiet.keeps_check_cancel 1] .
  have "\<exists>ls. sc_written s2 = sc_written s @ ls \<and> (ls = [] \<or> ls = [issued_line (sc_run_id s) (Suc (sc_cmd_seq s), c, x)])"
    using 2 q command_line_Inr [of "sc_run_id s" c "Suc (sc_cmd_seq s)" x]
    unfolding issue_command_alt by (auto simp: Let_def quiet_def split: sum.splits)
  moreover have "sc_written (fst (sync_command n c expected timeout cc x s)) \<in> {sc_written s1, sc_written s2}"
    using 1 2 keepsD [OF quiet.keeps_wait_status] unfolding sync_command_def quiet_def sbind_def
    by (auto split: prod.splits option.splits sum.splits) (metis prod.collapse)+
  ultimately show ?thesis using q by (auto simp: quiet_def)
qed

text \<open>A run that has ended stays ended.\<close>

definition stays_ended :: "source_client \<Rightarrow> source_client \<Rightarrow> bool" where
  "stays_ended s s' \<longleftrightarrow> (tracker_is has_terminal s \<longrightarrow> tracker_is has_terminal s')"

interpretation ended: listener_rel stays_ended
  by unfold_locales
     (auto simp: stays_ended_def frame_def tracker_is_def has_terminal_def accept_def accept_commit_def Let_def
       split: sum.splits if_splits prod.splits)

lemma scatch_Inr:
  "scatch m h s = (s', Some (Inr x)) \<longleftrightarrow>
     m s = (s', Some (Inr x)) \<or> (\<exists>s1 e k. m s = (s1, Some (Inl e)) \<and> h e = Some k \<and> k s1 = (s', Some (Inr x)))"
  by (auto simp: scatch_def split: prod.splits option.splits sum.splits)

lemma rename_Inr: "scatch m (rename_client_error fmt) s = (s', Some (Inr x)) \<longleftrightarrow> m s = (s', Some (Inr x))"
  by (auto simp: scatch_Inr rename_client_error_def sraise_def split: if_splits)

lemma fst_ignore: "fst (scatch m ignore_client_error s) = fst (m s)"
  by (auto simp: scatch_def ignore_client_error_def sreturn_def split: prod.splits option.splits sum.splits)

lemma idle_Inr:
  assumes "idle n timeout cc s = (s', Some (Inr u))"
  shows "sc_idle_complete s' \<and> (\<exists>k. sc_written s' = sc_written s @ [issued_line (sc_run_id s) (k, ''idle'', [])])"
proof -
  obtain s1 r where "sync_command n ''idle'' ''idle'' timeout cc [] s = (s1, Some (Inr r))" "s' = s1\<lparr>sc_idle_complete := True\<rparr>"
    using assms unfolding idle_def by (auto elim!: sbind_InrE simp: smod_def)
  with sync_command_writes [of n "''idle''"] show ?thesis by fastforce
qed

lemma stop_writes:
  "\<exists>ls. sc_written (fst (stop n timeout cc s)) = sc_written s @ ls \<and>
     (ls = [] \<or> (\<exists>k. ls = [issued_line (sc_run_id s) (k, ''stop'', [])]))"
proof -
  have "fst (stop n timeout cc s) = fst (sync_command n ''stop'' ''stop'' timeout cc [] s)"
    unfolding stop_def by (auto simp: sbind_def sreturn_def split: prod.splits option.splits sum.splits)
  then show ?thesis using sync_command_writes_some [of n "''stop''"] by metis
qed

text \<open>C17: the cleanup that was registered before START leaves the source idle.  When it returns for an active run, the last
  line it wrote is an \<open>idle\<close> command that was answered, before it at most one \<open>stop\<close>, and none
  if the run had already ended.\<close>

theorem bounded_stop_idles:
  assumes run: "bounded_stop n s = (s', Some (Inr u))" and active: "sc_tracker s = Some t" "\<not> sc_idle_complete s"
  shows "sc_idle_complete s' \<and> (\<exists>stops k. sc_written s' = sc_written s @ stops @ [issued_line (sc_run_id s) (k, ''idle'', [])] \<and>
     (stops = [] \<or> ht_terminal t = None \<and> (\<exists>j. stops = [issued_line (sc_run_id s) (j, ''stop'', [])])))"
proof -
  let ?stop = "scatch (stop n STOP_TIMEOUT False) ignore_client_error"
  let ?M = "\<lambda>e. if e then sreturn ()
      else sbind ?stop (\<lambda>_. sbind (sget (tracker_is has_terminal)) (\<lambda>ended'.
             if ended' then sreturn () else scatch (drive_until n has_terminal ABORT_TERMINAL_TIMEOUT False) ignore_client_error))"
  obtain s1 s2 where d: "drain_queued_records n s = (s1, Some (Inr ()))"
    and m: "?M (tracker_is has_terminal s1) s1 = (s2, Some (Inr ()))"
    and i: "idle n IDLE_TIMEOUT False s2 = (s', Some (Inr u))"
    using run active unfolding bounded_stop_def by (auto elim!: sbind_InrE simp: sget_def rename_Inr)
  have q: "quiet s s1" and e: "stays_ended s s1"
    using keepsD [OF quiet.keeps_drain d] keepsD [OF ended.keeps_drain d] by simp_all
  have "\<exists>stops. sc_written s2 = sc_written s1 @ stops \<and> sc_run_id s2 = sc_run_id s1 \<and>
     (stops = [] \<or> \<not> tracker_is has_terminal s1 \<and> (\<exists>j. stops = [issued_line (sc_run_id s1) (j, ''stop'', [])]))"
  proof (cases "tracker_is has_terminal s1")
    case True
    with m show ?thesis by (simp add: sreturn_def)
  next
    case False
    with m obtain s3 where st: "?stop s1 = (s3, Some (Inr ()))"
      and rest: "sbind (sget (tracker_is has_terminal)) (\<lambda>ended'.
        if ended' then sreturn () else scatch (drive_until n has_terminal ABORT_TERMINAL_TIMEOUT False) ignore_client_error) s3
        = (s2, Some (Inr ()))" by (auto simp: sbind_Inr [where m = ?stop])
    have "s3 = fst (stop n STOP_TIMEOUT False s1)" using fst_ignore [of "stop n STOP_TIMEOUT False" s1] st by simp
    moreover have "sc_run_id s3 = sc_run_id s1"
      using calculation fresh.keeps_stop [of n STOP_TIMEOUT False] by (simp add: keeps_def commands_fresh_def)
    moreover have "quiet s3 s2"
      using rest by (rule keepsD [rotated])
        (intro quiet.keeps_sbind quiet.keeps_sget quiet.keeps_if quiet.keeps_sreturn quiet.keeps_scatch quiet.keeps_drive_until quiet.keeps_ignore)
    ultimately show ?thesis using stop_writes [of n STOP_TIMEOUT False s1] False by (auto simp: quiet_def)
  qed
  then obtain stops where stops: "sc_written s2 = sc_written s1 @ stops" "sc_run_id s2 = sc_run_id s1"
    "stops = [] \<or> \<not> tracker_is has_terminal s1 \<and> (\<exists>j. stops = [issued_line (sc_run_id s1) (j, ''stop'', [])])" by blast
  have "ht_terminal t = None" if "\<not> tracker_is has_terminal s1"
    using that e active(1) by (auto simp: stays_ended_def tracker_is_def has_terminal_def)
  with idle_Inr [OF i] stops q show ?thesis by (auto simp: quiet_def)
qed

definition idle_reply :: hil_record where
  "idle_reply = reply 8 ''status'' ''cmd-0001'' [(''command'', PStr ''idle''), (''ok'', PBool True), (''error'', PStr ''ok'')]"

definition example_ended :: source_client where
  "example_ended = (new_client ''r'' None ((console_of []) \<lparr>ce_lines := (\<lambda>n. Inr (if n = 1
       then Some (hil1_line '','' '':'' (record_dict idle_reply)) else None))\<rparr>))
     \<lparr>sc_tracker := Some ((new_tracker ''r'' ''c0'') \<lparr>ht_terminal := Some (terminal_record 8 ''fail'')\<rparr>)\<rparr>"

lemma idle_reply_parses: "parse_client_line (hil1_line '','' '':'' (record_dict idle_reply)) = Inr (Some idle_reply)"
proof -
  have r: "wf_record idle_reply" "\<not> is_diagnostic_record idle_reply" "plain_json (PDict (record_dict idle_reply))" by code_simp+
  have "distinct (dict_keys (record_dict idle_reply))" by (simp add: record_dict_keys REQUIRED_KEYS_def)
  from parse_record_dict [OF r(1) this refl r(3) example_separators] r(2) show ?thesis by (simp add: parse_client_line_def)
qed

lemma example_ended_stops: "\<exists>s'. bounded_stop 1 example_ended = (s', Some (Inr ()))"
proof -
  have "\<not> isl (command_line ''r'' ''idle'' (command_id_text 1) [])" by code_simp
  then obtain l where l: "command_line ''r'' ''idle'' (command_id_text 1) [] = Inr l" by (cases "command_line ''r'' ''idle'' (command_id_text 1) []") auto
  have r: "hr_kind idle_reply = ''status''" "hr_command_id idle_reply = command_id_text 1" "require_status_ok idle_reply ''idle'' = Inr ()"
    by code_simp+
  show ?thesis
    using l r idle_reply_parses
    by (simp add: bounded_stop_def example_ended_def new_client_def console_of_def next_record_def check_cancel_def
        console_next_line_def read_clock_def poll_def act_defs tracker_is_def has_terminal_def scatch_def idle_def sync_command_def
        issue_command_alt wait_status_def Let_def)
qed

theorem bounded_stop_idles_witness:
  "\<exists>s' k. bounded_stop 1 example_ended = (s', Some (Inr ())) \<and> sc_idle_complete s' \<and>
     sc_written s' = [issued_line ''r'' (k, ''idle'', [])]"
proof -
  obtain s' where s': "bounded_stop 1 example_ended = (s', Some (Inr ()))" using example_ended_stops by blast
  have e: "sc_tracker example_ended = Some ((new_tracker ''r'' ''c0'') \<lparr>ht_terminal := Some (terminal_record 8 ''fail'')\<rparr>)"
    "\<not> sc_idle_complete example_ended" "sc_written example_ended = []" "sc_run_id example_ended = ''r''"
    by (simp_all add: example_ended_def new_client_def)
  from bounded_stop_idles [OF s' e(1,2)] s' e(3,4) show ?thesis by auto
qed



end
