(* ===== verification/Py_OS.thy ===== *)
theory Py_OS
  imports Py_Text
begin

text \<open>
  The part of Python's \<open>os\<close> and \<open>os.path\<close> that the scripts use, over an explicit file system:
  \<open>join\<close>, \<open>isabs\<close>, \<open>normpath\<close>, \<open>realpath\<close>, \<open>islink\<close>, \<open>lexists\<close>, \<open>isdir\<close>, \<open>mkdir\<close>, exclusive
  creation, reading and \<open>unlink\<close>.  The file system maps the component list of a canonical absolute
  path to a directory, a file with its bytes or a symbolic link with its target; the empty list is
  the root.  All paths are absolute.
\<close>

section \<open>Paths\<close>

datatype node = Dir | File string | Link string

type_synonym path = "string list"
type_synonym fsys = "(path \<times> node) list"

abbreviation slash :: char where
  "slash \<equiv> CHR ''/''"

fun split_on :: "char \<Rightarrow> string \<Rightarrow> string list" where
  "split_on c [] = [[]]"
| "split_on c (x # xs) =
     (if x = c then [] # split_on c xs
      else (case split_on c xs of [] \<Rightarrow> [[x]] | p # ps \<Rightarrow> (x # p) # ps))"

text \<open>The components of a path without the empty ones and \<open>.\<close>.\<close>

definition comps :: "string \<Rightarrow> path" where
  "comps p = filter (\<lambda>c. c \<noteq> [] \<and> c \<noteq> ''.'') (split_on slash p)"

definition isabs :: "string \<Rightarrow> bool" where
  "isabs p = startswith p [slash]"

definition path_join :: "string \<Rightarrow> string \<Rightarrow> string" where
  "path_join a b =
     (if startswith b [slash] then b
      else if a = [] \<or> endswith a [slash] then a @ b
      else a @ [slash] @ b)"

text \<open>The text of an absolute path.\<close>

definition path_text :: "path \<Rightarrow> string" where
  "path_text cs = (if cs = [] then [slash] else concat (map (\<lambda>c. slash # c) cs))"

text \<open>\<open>os.path.split\<close>: everything after the last slash, and the rest without trailing slashes.\<close>

definition basename :: "string \<Rightarrow> string" where
  "basename p = rev (takeWhile (\<lambda>c. c \<noteq> slash) (rev p))"

definition dirname :: "string \<Rightarrow> string" where
  "dirname p =
     (let head = rev (dropWhile (\<lambda>c. c \<noteq> slash) (rev p)) in
      if list_all (\<lambda>c. c = slash) head then head else rev (dropWhile (\<lambda>c. c = slash) (rev head)))"

text \<open>Collapse of \<open>..\<close>; at the root it stays at the root.\<close>

fun collapse :: "path \<Rightarrow> path \<Rightarrow> path" where
  "collapse cur [] = cur"
| "collapse cur (c # cs) = (if c = ''..'' then collapse (butlast cur) cs else collapse (cur @ [c]) cs)"

text \<open>\<open>normpath\<close> of an absolute path: exactly two leading slashes are kept.\<close>

definition normpath :: "string \<Rightarrow> string" where
  "normpath p =
     (if startswith p [slash, slash] \<and> \<not> startswith p [slash, slash, slash]
      then slash # path_text (collapse [] (comps p))
      else path_text (collapse [] (comps p)))"

section \<open>Resolution of symbolic links\<close>

definition node_at :: "fsys \<Rightarrow> path \<Rightarrow> node option" where
  "node_at fs p = (if p = [] then Some Dir else map_of fs p)"

text \<open>The loop of \<open>posixpath._joinrealpath\<close> (not strict): \<open>busy\<close> are the links whose resolution
  has begun; meeting one of them again is a loop, and then the rest of the path is kept as it is.
  \<open>n\<close> bounds the nesting of links.\<close>

function resolve :: "nat \<Rightarrow> fsys \<Rightarrow> path list \<Rightarrow> path \<Rightarrow> path \<Rightarrow> path \<times> bool" where
  "resolve n fs busy cur [] = (cur, True)"
| "resolve n fs busy cur (x # rest) =
     (if x = ''..'' then resolve n fs busy (butlast cur) rest
      else (case node_at fs (cur @ [x]) of
          Some (Link target) \<Rightarrow>
            (if cur @ [x] \<in> set busy \<or> n = 0 then (cur @ [x] @ rest, False)
             else (case resolve (n - 1) fs ((cur @ [x]) # busy) (if isabs target then [] else cur) (comps target) of
                 (p, True) \<Rightarrow> resolve n fs busy p rest
               | (p, False) \<Rightarrow> (p @ rest, False)))
        | _ \<Rightarrow> resolve n fs busy (cur @ [x]) rest))"
  by pat_completeness auto
termination
  by (relation "measures [\<lambda>(n, _). n, \<lambda>(_, _, _, _, rest). length rest]") auto

declare resolve.simps [simp del]

definition links :: "fsys \<Rightarrow> path list" where
  "links fs = map fst (filter (\<lambda>(_, v). case v of Link _ \<Rightarrow> True | _ \<Rightarrow> False) fs)"

definition resolve_all :: "fsys \<Rightarrow> path \<Rightarrow> path \<times> bool" where
  "resolve_all fs cs = resolve (length (links fs)) fs [] [] cs"

definition realpath :: "fsys \<Rightarrow> string \<Rightarrow> string" where
  "realpath fs p = path_text (collapse [] (fst (resolve_all fs (comps p))))"

text \<open>The bound is enough: with at least as much fuel as there are links not yet begun, more fuel
  changes nothing.\<close>

lemma link_in_links: "node_at fs p = Some (Link t) \<Longrightarrow> p \<in> set (links fs)"
  by (auto simp: node_at_def links_def dest!: map_of_SomeD split: if_splits) (force split: node.splits)

lemma resolve_fuel:
  assumes "card (set (links fs) - set busy) \<le> n" and "n \<le> m"
  shows "resolve n fs busy cur cs = resolve m fs busy cur cs"
  using assms
proof (induction n fs busy cur cs arbitrary: m rule: resolve.induct)
  case (1 n fs busy cur)
  then show ?case by (simp add: resolve.simps)
next
  case (2 n fs busy cur x rest)
  show ?case
  proof (cases "\<exists>t. x \<noteq> ''..'' \<and> node_at fs (cur @ [x]) = Some (Link t) \<and> cur @ [x] \<notin> set busy")
    case False
    then show ?thesis using 2
      by (auto simp: resolve.simps split: option.splits node.splits)
  next
    case True
    then obtain t where t: "x \<noteq> ''..''" "node_at fs (cur @ [x]) = Some (Link t)" "cur @ [x] \<notin> set busy" by blast
    let ?p = "cur @ [x]"
    have "set (links fs) - set (?p # busy) = (set (links fs) - set busy) - {?p}" by auto
    moreover have "?p \<in> set (links fs) - set busy" using t link_in_links by blast
    ultimately have c: "card (set (links fs) - set (?p # busy)) = card (set (links fs) - set busy) - 1"
      "card (set (links fs) - set busy) \<noteq> 0" by (auto simp: card_Diff_singleton)
    have sub: "resolve (n - 1) fs (?p # busy) (if isabs t then [] else cur) (comps t) =
      resolve (m - 1) fs (?p # busy) (if isabs t then [] else cur) (comps t)"
      using 2(5) [OF t(1,2) refl, of "m - 1"] c t(3) 2(7,8) by (auto simp: diff_le_mono)
    have rest: "resolve n fs busy q rest = resolve m fs busy q rest"
      if "resolve (n - 1) fs (?p # busy) (if isabs t then [] else cur) (comps t) = (q, True)" for q
      using 2(6) [OF t(1,2) refl _ that [symmetric] refl, of m] t(3) c 2(7,8) by auto
    show ?thesis
      using t c 2(7,8) sub rest
      by (auto simp: resolve.simps(2) [of n] resolve.simps(2) [of m] split: prod.splits bool.splits)
  qed
qed

section \<open>Canonical paths\<close>

definition name_ok :: "string \<Rightarrow> bool" where
  "name_ok c \<longleftrightarrow> c \<noteq> [] \<and> c \<noteq> ''.'' \<and> slash \<notin> set c"

definition canonical :: "path \<Rightarrow> bool" where
  "canonical cs \<longleftrightarrow> list_all (\<lambda>c. name_ok c \<and> c \<noteq> ''..'') cs"

lemma canonical_simps [simp]:
  "canonical []" "canonical (c # cs) \<longleftrightarrow> name_ok c \<and> c \<noteq> ''..'' \<and> canonical cs"
  "canonical (cs @ ds) \<longleftrightarrow> canonical cs \<and> canonical ds"
  by (auto simp: canonical_def)

lemma list_all_butlast: "list_all P xs \<Longrightarrow> list_all P (butlast xs)"
  by (auto simp: list_all_iff dest: in_set_butlastD)

lemma split_on_no_sep: "c \<in> set (split_on x s) \<Longrightarrow> x \<notin> set c"
  by (induction s arbitrary: c) (auto split: if_splits list.splits)

lemma comps_ok: "list_all name_ok (comps p)"
  using split_on_no_sep by (fastforce simp: comps_def name_ok_def list_all_iff)

lemma resolve_ok:
  "list_all name_ok cur \<Longrightarrow> list_all name_ok cs \<Longrightarrow> list_all name_ok (fst (resolve n fs busy cur cs))"
proof (induction n fs busy cur cs rule: resolve.induct)
  case (1 n fs busy cur)
  then show ?case by (simp add: resolve.simps)
next
  case (2 n fs busy cur x rest)
  note cur' = list_all_butlast [OF 2(7)]
  show ?case
  proof (cases "\<exists>t. x \<noteq> ''..'' \<and> node_at fs (cur @ [x]) = Some (Link t) \<and> cur @ [x] \<notin> set busy \<and> n \<noteq> 0")
    case False
    with 2 cur' show ?thesis
      by (simp add: resolve.simps(2) [of n] split: option.splits node.splits) blast
  next
    case True
    then obtain t where t: "x \<noteq> ''..''" "node_at fs (cur @ [x]) = Some (Link t)" "cur @ [x] \<notin> set busy" "n \<noteq> 0"
      by blast
    obtain q b where q: "resolve (n - 1) fs ((cur @ [x]) # busy) (if isabs t then [] else cur) (comps t) = (q, b)"
      by fastforce
    have ok: "list_all name_ok q"
      using 2(5) [OF t(1,2) refl] t(3,4) q 2(7) comps_ok by simp
    show ?thesis
    proof (cases b)
      case True
      with 2(6) [OF t(1,2) refl _ q [symmetric]] ok t q 2(8) show ?thesis
        by (simp add: resolve.simps(2) [of n])
    next
      case False
      with ok t q 2(8) show ?thesis by (simp add: resolve.simps(2) [of n])
    qed
  qed
qed

lemma collapse_canonical:
  "canonical cur \<Longrightarrow> list_all name_ok cs \<Longrightarrow> canonical (collapse cur cs)"
proof (induction cur cs rule: collapse.induct)
  case (2 cur c cs)
  have "canonical (butlast cur)" using 2(3) by (simp add: canonical_def list_all_butlast)
  with 2 show ?case by simp
qed simp

lemma realpath_canonical: "\<exists>cs. canonical cs \<and> realpath fs p = path_text cs"
proof -
  have "list_all name_ok (fst (resolve_all fs (comps p)))"
    using resolve_ok [of "[]" "comps p"] comps_ok by (simp add: resolve_all_def)
  then have "canonical (collapse [] (fst (resolve_all fs (comps p))))"
    by (intro collapse_canonical) simp_all
  then show ?thesis by (auto simp: realpath_def)
qed

lemma no_sep_unique:
  assumes "y @ u = x @ v" and "c \<notin> set x" and "c \<notin> set y"
    and "u = [] \<or> hd u = c" and "v = [] \<or> hd v = c"
  shows "y = x \<and> u = v"
proof -
  have tw: "takeWhile (\<lambda>a. a \<noteq> c) (z @ w) = z" if "c \<notin> set z" "w = [] \<or> hd w = c" for z w
    using that by (cases w) (auto simp: takeWhile_append)
  from arg_cong [OF assms(1), of "takeWhile (\<lambda>a. a \<noteq> c)"] have "y = x"
    unfolding tw [OF assms(3,4)] tw [OF assms(2,5)] .
  with assms(1) show ?thesis by simp
qed

abbreviation seps :: "path \<Rightarrow> string" where
  "seps cs \<equiv> concat (map (\<lambda>c. slash # c) cs)"

lemma seps_hd: "seps cs = [] \<or> hd (seps cs) = slash"
  by (cases cs) auto

lemma seps_prefix:
  assumes "canonical a" and "canonical b" and "seps a = seps b @ slash # z"
  shows "\<exists>d. d \<noteq> [] \<and> a = b @ d"
  using assms
proof (induction b arbitrary: a)
  case Nil
  then show ?case by (intro exI [of _ a]) auto
next
  case (Cons x b)
  then obtain y a' where a: "a = y # a'" by (cases a) auto
  have "y @ seps a' = x @ (seps b @ slash # z)" using Cons.prems(3) a by simp
  moreover have "seps b @ slash # z = [] \<or> hd (seps b @ slash # z) = slash"
    using seps_hd [of b] by (cases "seps b") auto
  moreover have "slash \<notin> set x" "slash \<notin> set y"
    using Cons.prems(1,2) a by (auto simp: name_ok_def)
  ultimately have "y = x \<and> seps a' = seps b @ slash # z"
    using no_sep_unique [where c = slash] seps_hd by blast
  with Cons.IH [of a'] Cons.prems a show ?case by auto
qed

lemma seps_inject: "canonical a \<Longrightarrow> canonical b \<Longrightarrow> seps a = seps b \<Longrightarrow> a = b"
proof (induction b arbitrary: a)
  case Nil
  then show ?case by (cases a) auto
next
  case (Cons x b)
  then obtain y a' where a: "a = y # a'" by (cases a) auto
  moreover have "slash \<notin> set x" "slash \<notin> set y"
    using Cons.prems(1,2) a by (auto simp: name_ok_def)
  ultimately have "y = x \<and> seps a' = seps b"
    using no_sep_unique [of y "seps a'" x "seps b" slash] Cons.prems(3) seps_hd by auto
  with Cons a show ?case by auto
qed

lemma path_text_inside:
  assumes "canonical a" and "canonical b" and "b \<noteq> []"
  shows "startswith (path_text a) (path_text b @ [slash]) \<longleftrightarrow> (\<exists>d. d \<noteq> [] \<and> a = b @ d)"
proof
  assume "startswith (path_text a) (path_text b @ [slash])"
  then obtain z where "path_text a = path_text b @ slash # z" by (auto simp: startswith_iff)
  moreover from this have "a \<noteq> []" using assms(3) by (cases b) (auto simp: path_text_def)
  ultimately have "seps a = seps b @ slash # z" using assms(3) by (simp add: path_text_def)
  then show "\<exists>d. d \<noteq> [] \<and> a = b @ d" by (rule seps_prefix [OF assms(1,2)])
next
  assume "\<exists>d. d \<noteq> [] \<and> a = b @ d"
  then obtain x d where "a = b @ x # d" by (metis neq_Nil_conv)
  then show "startswith (path_text a) (path_text b @ [slash])"
    using assms(3) by (auto simp: path_text_def startswith_iff)
qed

lemma path_text_eq: "canonical a \<Longrightarrow> canonical b \<Longrightarrow> path_text a = path_text b \<longleftrightarrow> a = b"
proof
  assume ab: "canonical a" "canonical b" "path_text a = path_text b"
  have "seps cs \<noteq> [slash]" if "canonical cs" for cs
    using that by (cases cs) (auto simp: canonical_def name_ok_def)
  with ab have "seps a = seps b" by (auto simp: path_text_def split: if_splits)
  with ab show "a = b" by (simp add: seps_inject)
qed simp

section \<open>Operations\<close>

text \<open>\<open>lstat\<close>: the last component is not followed.\<close>

definition lstat :: "fsys \<Rightarrow> string \<Rightarrow> (path \<times> node option) option" where
  "lstat fs p =
     (let cs = comps p in
      if cs = [] then Some ([], Some Dir)
      else if last cs = ''..'' then
        (case resolve_all fs cs of (q, ok) \<Rightarrow> if ok then Some (q, node_at fs q) else None)
      else (case resolve_all fs (butlast cs) of
          (q, ok) \<Rightarrow> if ok \<and> node_at fs q = Some Dir then Some (q @ [last cs], node_at fs (q @ [last cs])) else None))"

definition islink :: "fsys \<Rightarrow> string \<Rightarrow> bool" where
  "islink fs p = (case lstat fs p of Some (_, Some (Link _)) \<Rightarrow> True | _ \<Rightarrow> False)"

definition lexists :: "fsys \<Rightarrow> string \<Rightarrow> bool" where
  "lexists fs p = (case lstat fs p of Some (_, Some _) \<Rightarrow> True | _ \<Rightarrow> False)"

definition isdir :: "fsys \<Rightarrow> string \<Rightarrow> bool" where
  "isdir fs p = (case resolve_all fs (comps p) of (q, ok) \<Rightarrow> ok \<and> node_at fs q = Some Dir)"

text \<open>\<open>isfile\<close> follows links.\<close>

definition isfile :: "fsys \<Rightarrow> string \<Rightarrow> bool" where
  "isfile fs p = (case resolve_all fs (comps p) of (q, ok) \<Rightarrow> ok \<and> (case node_at fs q of Some (File _) \<Rightarrow> True | _ \<Rightarrow> False))"

definition fs_put :: "fsys \<Rightarrow> path \<Rightarrow> node \<Rightarrow> fsys" where
  "fs_put fs k v = (k, v) # filter (\<lambda>(k', _). k' \<noteq> k) fs"

definition fs_del :: "fsys \<Rightarrow> path \<Rightarrow> fsys" where
  "fs_del fs k = filter (\<lambda>(k', _). k' \<noteq> k) fs"

abbreviation ENOENT :: exn where "ENOENT \<equiv> OSError (text_msg ''ENOENT'')"
abbreviation EEXIST :: exn where "EEXIST \<equiv> OSError (text_msg ''EEXIST'')"
abbreviation EACCES :: exn where "EACCES \<equiv> OSError (text_msg ''EACCES'')"
abbreviation EISDIR :: exn where "EISDIR \<equiv> OSError (text_msg ''EISDIR'')"

text \<open>\<open>fault\<close> is the error the operating system reports for a reason outside the model, such as
  missing permissions or a full disk.\<close>

definition mkdir :: "exn option \<Rightarrow> fsys \<Rightarrow> string \<Rightarrow> fsys \<times> unit result" where
  "mkdir fault fs p =
     (case (fault, lstat fs p) of
        (Some e, _) \<Rightarrow> (fs, Inl e)
      | (None, None) \<Rightarrow> (fs, Inl ENOENT)
      | (None, Some (_, Some _)) \<Rightarrow> (fs, Inl EEXIST)
      | (None, Some (k, None)) \<Rightarrow> (fs_put fs k Dir, Inr ()))"

text \<open>\<open>os.open (p, O_CREAT | O_EXCL | O_WRONLY)\<close>; the result is the path of the new file.\<close>

definition open_excl :: "exn option \<Rightarrow> fsys \<Rightarrow> string \<Rightarrow> fsys \<times> path result" where
  "open_excl fault fs p =
     (case (fault, lstat fs p) of
        (Some e, _) \<Rightarrow> (fs, Inl e)
      | (None, None) \<Rightarrow> (fs, Inl ENOENT)
      | (None, Some (_, Some _)) \<Rightarrow> (fs, Inl EEXIST)
      | (None, Some (k, None)) \<Rightarrow> (fs_put fs k (File []), Inr k))"

definition unlink :: "exn option \<Rightarrow> fsys \<Rightarrow> string \<Rightarrow> fsys \<times> unit result" where
  "unlink fault fs p =
     (case (fault, lstat fs p) of
        (Some e, _) \<Rightarrow> (fs, Inl e)
      | (None, Some (k, Some Dir)) \<Rightarrow> (fs, Inl EISDIR)
      | (None, Some (k, Some _)) \<Rightarrow> (fs_del fs k, Inr ())
      | (None, _) \<Rightarrow> (fs, Inl ENOENT))"

definition read_bytes :: "exn option \<Rightarrow> fsys \<Rightarrow> string \<Rightarrow> string result" where
  "read_bytes fault fs p =
     (case fault of
        Some e \<Rightarrow> Inl e
      | None \<Rightarrow>
        (case resolve_all fs (comps p) of (q, ok) \<Rightarrow>
          if \<not> ok then Inl ENOENT
          else (case node_at fs q of
              Some (File b) \<Rightarrow> Inr b
            | Some Dir \<Rightarrow> Inl EISDIR
            | _ \<Rightarrow> Inl ENOENT)))"

text \<open>Reading in text mode: every line end is seen as a line feed.\<close>

fun universal_newlines :: "string \<Rightarrow> string" where
  "universal_newlines [] = []"
| "universal_newlines [c] = [if c = CHR 0x0D then CHR 0x0A else c]"
| "universal_newlines (c # d # s) =
     (if c = CHR 0x0D \<and> d = CHR 0x0A then CHR 0x0A # universal_newlines s
      else (if c = CHR 0x0D then CHR 0x0A else c) # universal_newlines (d # s))"

lemma map_of_filter_key: "map_of (filter (\<lambda>(k', _). k' \<noteq> k) fs) p = (if p = k then None else map_of fs p)"
  by (induction fs) auto

lemma node_at_put [simp]: "k \<noteq> [] \<Longrightarrow> node_at (fs_put fs k v) p = (if p = k then Some v else node_at fs p)"
  by (simp add: node_at_def fs_put_def map_of_filter_key)

lemma node_at_del [simp]: "k \<noteq> [] \<Longrightarrow> node_at (fs_del fs k) p = (if p = k then None else node_at fs p)"
  by (simp add: node_at_def fs_del_def map_of_filter_key)

section \<open>Entries of a real directory\<close>

text \<open>A directory all of whose ancestors are directories, so that no link is on the way.\<close>

definition real_dir :: "fsys \<Rightarrow> path \<Rightarrow> bool" where
  "real_dir fs R \<longleftrightarrow> canonical R \<and> (\<forall>k \<le> length R. node_at fs (take k R) = Some Dir)"

lemma split_on_sep: "c \<notin> set x \<Longrightarrow> split_on c (x @ c # s) = x # split_on c s"
  by (induction x) auto

lemma split_on_single: "c \<notin> set x \<Longrightarrow> split_on c x = [x]"
  by (induction x) auto

lemma split_on_seps: "canonical cs \<Longrightarrow> split_on slash (seps cs) = [] # cs"
proof (induction cs)
  case (Cons x cs)
  then have x: "slash \<notin> set x" by (simp add: name_ok_def)
  show ?case
  proof (cases cs)
    case Nil
    with x show ?thesis by (simp add: split_on_single)
  next
    case (Cons y ys)
    with x Cons.IH Cons.prems show ?thesis by (simp add: split_on_sep)
  qed
qed simp

lemma comps_path_text: "canonical cs \<Longrightarrow> comps (path_text cs) = cs"
proof -
  assume cs: "canonical cs"
  have "filter (\<lambda>c. c \<noteq> [] \<and> c \<noteq> ''.'') cs = cs"
    using cs by (induction cs) (auto simp: name_ok_def)
  with cs show ?thesis
    by (cases "cs = []") (simp_all add: comps_def path_text_def split_on_seps)
qed

lemma path_join_text:
  assumes "canonical R" and "name_ok x"
  shows "path_join (path_text R) x = path_text (R @ [x])"
proof -
  have x: "\<not> startswith x [slash]"
    using assms(2) by (cases x) (auto simp: startswith_def name_ok_def)
  show ?thesis
  proof (cases R rule: rev_cases)
    case Nil
    with x show ?thesis by (simp add: path_join_def path_text_def endswith_def)
  next
    case (snoc S y)
    with assms(1) have "y \<noteq> []" "last y \<noteq> slash" by (auto simp: name_ok_def dest: last_in_set)
    then have "\<not> endswith (path_text R) [slash]" and "path_text R \<noteq> []"
      using snoc by (auto simp: path_text_def endswith_def append_eq_append_conv2 Cons_eq_append_conv
          dest!: arg_cong [where f = last])
    with x snoc show ?thesis by (simp add: path_join_def path_text_def)
  qed
qed

lemma resolve_no_links:
  "canonical cs \<Longrightarrow> (\<And>k t. k < length cs \<Longrightarrow> node_at fs (cur @ take (Suc k) cs) \<noteq> Some (Link t)) \<Longrightarrow>
   resolve n fs busy cur cs = (cur @ cs, True)"
proof (induction cs arbitrary: cur)
  case Nil
  then show ?case by (simp add: resolve.simps)
next
  case (Cons x cs)
  have "node_at fs (cur @ [x]) \<noteq> Some (Link t)" for t using Cons.prems(2) [of 0] by simp
  moreover have "resolve n fs busy (cur @ [x]) cs = ((cur @ [x]) @ cs, True)"
    using Cons.prems(1) Cons.prems(2) [of "Suc _"] by (intro Cons.IH) auto
  ultimately show ?case using Cons.prems(1) by (auto simp: resolve.simps split: option.splits node.splits)
qed

lemma resolve_below_real_dir:
  assumes "real_dir fs R" and "canonical cs"
    and "\<And>k t. k < length cs \<Longrightarrow> node_at fs (R @ take (Suc k) cs) \<noteq> Some (Link t)"
  shows "resolve_all fs (R @ cs) = (R @ cs, True)"
proof -
  have "node_at fs ([] @ take (Suc k) (R @ cs)) \<noteq> Some (Link t)" if "k < length (R @ cs)" for k t
  proof (cases "k < length R")
    case True
    then show ?thesis using assms(1) by (simp add: real_dir_def)
  next
    case False
    with that assms(3) [of "k - length R" t] show ?thesis by (simp add: Suc_diff_le)
  qed
  from resolve_no_links [OF _ this] assms(1,2) show ?thesis
    by (simp add: resolve_all_def real_dir_def)
qed

lemma resolve_real_dir: "real_dir fs R \<Longrightarrow> resolve_all fs R = (R, True)"
  using resolve_below_real_dir [of fs R "[]"] by simp

lemma real_dir_node: "real_dir fs R \<Longrightarrow> node_at fs R = Some Dir"
  by (auto simp: real_dir_def dest: spec [of _ "length R"])

lemma real_dir_snoc:
  "real_dir fs R \<Longrightarrow> name_ok x \<Longrightarrow> x \<noteq> ''..'' \<Longrightarrow> node_at fs (R @ [x]) = Some Dir \<Longrightarrow> real_dir fs (R @ [x])"
  by (auto simp: real_dir_def le_Suc_eq)

lemma lstat_entry:
  assumes "real_dir fs R" and "name_ok x" and "x \<noteq> ''..''"
  shows "lstat fs (path_text (R @ [x])) = Some (R @ [x], node_at fs (R @ [x]))"
  using assms resolve_real_dir [OF assms(1)] real_dir_node [OF assms(1)]
  by (simp add: lstat_def comps_path_text real_dir_def Let_def)

lemma isdir_entry:
  assumes "real_dir fs R" and "name_ok x" and "x \<noteq> ''..''" and "node_at fs (R @ [x]) = Some Dir"
  shows "isdir fs (path_text (R @ [x]))"
  using resolve_real_dir [OF real_dir_snoc [OF assms]] assms
  by (simp add: isdir_def comps_path_text real_dir_def)

text \<open>Changing an entry of a directory leaves the directory a real one.\<close>

lemma real_dir_put_entry: "real_dir fs R \<Longrightarrow> length R < length k \<Longrightarrow> real_dir (fs_put fs k v) R"
  by (cases "k = []") (auto simp: real_dir_def)

lemma real_dir_del_entry: "real_dir fs R \<Longrightarrow> length R < length k \<Longrightarrow> real_dir (fs_del fs k) R"
  by (cases "k = []") (auto simp: real_dir_def)

end
