(* ===== verification/Hil_Lifecycle.thy ===== *)
theory Hil_Lifecycle
  imports Py_OS Py_Json
begin

text \<open>
  Host-side ownership, \<open>scripts/hil/lifecycle.py\<close>: the cleanup stack, the exclusive fixture lock,
  the output-root and run-id checks and run-directory creation.  A cleanup callback is a function
  on the state \<open>'w\<close> of whatever it cleans up.  Faults of the operating system, the process id,
  the host name, the clock, \<open>uuid4\<close> and SHA-256 enter as arguments.
\<close>

section \<open>Cleanup stack\<close>

type_synonym 'w callback = "'w \<Rightarrow> 'w \<times> unit result"

record 'w cleanup_stack =
  cs_callbacks :: "(string \<times> 'w callback) list"
  cs_closed :: bool

definition new_stack :: "'w cleanup_stack" where
  "new_stack = \<lparr>cs_callbacks = [], cs_closed = False\<rparr>"

text \<open>An argument that is not callable is \<open>None\<close>.\<close>

definition register :: "'w cleanup_stack \<Rightarrow> string \<Rightarrow> 'w callback option \<Rightarrow> 'w cleanup_stack \<times> unit result" where
  "register st name callback =
     (if cs_closed st then (st, Inl (RuntimeError (text_msg ''cleanup stack already closed'')))
      else (case callback of
          None \<Rightarrow> (st, Inl (TypeError (str_msg ''cleanup callback must be callable: %s'' name)))
        | Some cb \<Rightarrow> (st\<lparr>cs_callbacks := cs_callbacks st @ [(name, cb)]\<rparr>, Inr ())))"

fun run_callbacks :: "(string \<times> 'w callback) list \<Rightarrow> 'w \<Rightarrow> (string \<times> exn) list \<Rightarrow> 'w \<times> (string \<times> exn) list" where
  "run_callbacks [] w failures = (w, failures)"
| "run_callbacks ((name, cb) # cbs) w failures =
     (case cb w of
        (w', Inr _) \<Rightarrow> run_callbacks cbs w' failures
      | (w', Inl exc) \<Rightarrow> run_callbacks cbs w' (failures @ [(name, exc)]))"

definition stack_close :: "'w cleanup_stack \<Rightarrow> 'w \<Rightarrow> 'w cleanup_stack \<times> 'w \<times> unit result" where
  "stack_close st w =
     (if cs_closed st then (st, w, Inr ())
      else (let st' = st\<lparr>cs_closed := True\<rparr> in
        (case run_callbacks (rev (cs_callbacks st)) w [] of
           (w', failures) \<Rightarrow>
             if failures \<noteq> [] then (st', w', Inl (CleanupFailure failures)) else (st', w', Inr ()))))"

text \<open>\<open>__exit__\<close>; the last argument is the exception of the body, if any.  Returning \<open>False\<close> lets
  that exception go on.\<close>

definition stack_exit :: "bool \<Rightarrow> 'w cleanup_stack \<Rightarrow> 'w \<Rightarrow> exn option \<Rightarrow> 'w cleanup_stack \<times> 'w \<times> unit result" where
  "stack_exit py311 st w exc =
     (case stack_close st w of
        (st', w', Inl cleanup_exc) \<Rightarrow>
          (st', w',
           (case exc of
              Some e \<Rightarrow>
                if py311 then
                  (if is_Exception e
                   then Inl (ExceptionGroup (text_msg ''body failed and cleanup failed'') [e, cleanup_exc])
                   else Inl (BaseExceptionGroup (text_msg ''body failed and cleanup failed'') [e, cleanup_exc]))
                else Inl (CleanupFailure [(''body'', e), (''cleanup'', cleanup_exc)])
            | None \<Rightarrow> Inl cleanup_exc))
      | (st', w', Inr _) \<Rightarrow> (st', w', (case exc of Some e \<Rightarrow> Inl e | None \<Rightarrow> Inr ())))"

text \<open>\<open>with CleanupStack() as st: body\<close>.\<close>

definition with_stack :: "bool \<Rightarrow> ('w cleanup_stack \<Rightarrow> 'w \<Rightarrow> 'w cleanup_stack \<times> 'w \<times> unit result) \<Rightarrow> 'w \<Rightarrow> 'w \<times> unit result" where
  "with_stack py311 body w =
     (case body new_stack w of
        (st, w', r) \<Rightarrow>
          (case stack_exit py311 st w' (case r of Inl e \<Rightarrow> Some e | Inr _ \<Rightarrow> None) of
             (_, w'', r') \<Rightarrow> (w'', r')))"

section \<open>Fixture lock\<close>

record fixture_lock =
  fl_path :: string
  fl_token :: string
  fl_fixture_id :: string
  fl_pid :: int
  fl_host :: string
  fl_created :: string

text \<open>What the process sees of its surroundings during one \<open>acquire\<close>.\<close>

record lock_env =
  le_token :: string
  le_pid :: int
  le_host :: string
  le_created :: string
  le_mkdir_fault :: "exn option"
  le_open_fault :: "exn option"
  le_write_fault :: "exn option"
  le_unlink_fault :: "exn option"

definition lock_dict :: "lock_env \<Rightarrow> string \<Rightarrow> pydict" where
  "lock_dict env fixture_id =
     [(''created'', PStr (le_created env)), (''fixture_id'', PStr fixture_id),
      (''host'', PStr (le_host env)), (''pid'', PInt (le_pid env)), (''token'', PStr (le_token env))]"

definition lock_payload :: "lock_env \<Rightarrow> string \<Rightarrow> string" where
  "lock_payload env fixture_id =
     json_dumps (\<lambda>_. []) '', '' '': '' (PDict (lock_dict env fixture_id)) @ [CHR 0x0A]"

definition lock_path :: "(string \<Rightarrow> string) \<Rightarrow> string \<Rightarrow> string \<Rightarrow> string" where
  "lock_path digest output_root fixture_id = path_join (path_join output_root ''.locks'') (digest fixture_id)"

definition acquire ::
  "(string \<Rightarrow> string) \<Rightarrow> string \<Rightarrow> string \<Rightarrow> lock_env \<Rightarrow> fsys \<Rightarrow> fsys \<times> fixture_lock result" where
  "acquire digest output_root fixture_id env fs =
     (let lock_dir = path_join output_root ''.locks'' in
      if islink fs lock_dir
      then (fs, Inl (HilLifecycleError (str_msg ''lock directory must not be a symlink: %s'' lock_dir)))
      else if lexists fs lock_dir \<and> \<not> isdir fs lock_dir
      then (fs, Inl (HilLifecycleError (str_msg ''lock path is not a directory: %s'' lock_dir)))
      else
        (case (if \<not> lexists fs lock_dir then mkdir (le_mkdir_fault env) fs lock_dir else (fs, Inr ())) of
           (fs1, Inl exc) \<Rightarrow>
             (fs1, if is_OSError exc
                   then Inl (HilLifecycleError (Fmt ''cannot create lock directory %s: %s'' [AV (PStr lock_dir), AX exc]))
                   else Inl exc)
         | (fs1, Inr _) \<Rightarrow>
             (let path = lock_path digest output_root fixture_id in
              (case open_excl (le_open_fault env) fs1 path of
                 (fs2, Inl exc) \<Rightarrow> (fs2, if exc = EEXIST then Inl (FixtureBusy fixture_id) else Inl exc)
               | (fs2, Inr fd) \<Rightarrow>
                   (case le_write_fault env of
                      Some exc \<Rightarrow> (fst (unlink (le_unlink_fault env) fs2 path), Inl exc)
                    | None \<Rightarrow>
                        (fs_put fs2 fd (File (lock_payload env fixture_id)),
                         Inr \<lparr>fl_path = path, fl_token = le_token env, fl_fixture_id = fixture_id,
                              fl_pid = le_pid env, fl_host = le_host env, fl_created = le_created env\<rparr>))))))"

text \<open>The two optional errors are those of reading and of removing the file.  Decoding happens in
  \<open>fh.read ()\<close>, inside the first \<open>try\<close>, which only catches \<open>FileNotFoundError\<close>.\<close>

definition release :: "exn option \<Rightarrow> exn option \<Rightarrow> fixture_lock \<Rightarrow> fsys \<Rightarrow> fsys \<times> unit result" where
  "release read_fault unlink_fault lock fs =
     (case read_bytes read_fault fs (fl_path lock) of
        Inl exc \<Rightarrow>
          (fs, if exc = ENOENT
               then Inl (LockReleaseError (str_msg ''lock file %s is missing; token changed'' (fl_path lock)))
               else Inl exc)
      | Inr bytes \<Rightarrow>
          if \<not> utf8_valid bytes then (fs, Inl UnicodeDecodeError)
          else
            (case json_loads dict_of_pairs (universal_newlines bytes) of
               Inl exc \<Rightarrow>
                 (fs, if exc = JSONDecodeError \<or> exc = UnicodeDecodeError
                      then Inl (LockReleaseError (str_msg ''lock file %s is malformed; left untouched'' (fl_path lock)))
                      else Inl exc)
             | Inr on_disk \<Rightarrow>
                 if \<not> (case on_disk of PDict d \<Rightarrow> py_eq (dict_get d ''token'') (PStr (fl_token lock)) | _ \<Rightarrow> False)
                 then (fs, Inl (LockReleaseError (str_msg ''lock file %s token changed; left untouched'' (fl_path lock))))
                 else
                   (case unlink unlink_fault fs (fl_path lock) of
                      (fs', Inl exc) \<Rightarrow>
                        (fs', if is_OSError exc
                              then Inl (LockReleaseError
                                     (Fmt ''cannot remove lock file %s: %s'' [AV (PStr (fl_path lock)), AX exc]))
                              else Inl exc)
                    | (fs', Inr _) \<Rightarrow> (fs', Inr ()))))"

text \<open>\<open>acquire\<close> with a cleanup stack: release is registered before the lock is returned.\<close>

definition acquire_registered ::
  "(string \<Rightarrow> string) \<Rightarrow> string \<Rightarrow> string \<Rightarrow> lock_env \<Rightarrow> fsys cleanup_stack \<Rightarrow> fsys \<Rightarrow>
   fsys cleanup_stack \<times> fsys \<times> fixture_lock result" where
  "acquire_registered digest output_root fixture_id env st fs =
     (case acquire digest output_root fixture_id env fs of
        (fs', Inl e) \<Rightarrow> (st, fs', Inl e)
      | (fs', Inr lock) \<Rightarrow>
          (case register st (''fixture lock '' @ fixture_id) (Some (release None None lock)) of
             (st', Inl e) \<Rightarrow> (st', fs', Inl e)
           | (st', Inr _) \<Rightarrow> (st', fs', Inr lock)))"

section \<open>Output root, run id and run directory\<close>

definition validate_output_root :: "fsys \<Rightarrow> string \<Rightarrow> string \<Rightarrow> pyval \<Rightarrow> string result" where
  "validate_output_root fs home repo_root arg =
     (case arg of
        PStr path \<Rightarrow>
          if path = [] \<or> \<not> isabs path
          then Inl (HilLifecycleError (text_msg ''output root must be an absolute path''))
          else
            (let canon = realpath fs path; home = realpath fs home; repo = realpath fs repo_root in
             if canon = [slash] then Inl (HilLifecycleError (text_msg ''output root must not be /''))
             else if canon = home
             then Inl (HilLifecycleError (text_msg ''output root must not be the home directory''))
             else if canon = repo
             then Inl (HilLifecycleError (text_msg ''output root must not be the repository root''))
             else if startswith canon (repo @ [slash])
             then Inl (HilLifecycleError (text_msg ''output root must not be inside the repository''))
             else if startswith repo (canon @ [slash])
             then Inl (HilLifecycleError (text_msg ''output root must not contain the repository root''))
             else if \<not> isdir fs canon
             then Inl (HilLifecycleError (str_msg ''output root does not exist: %s'' path))
             else Inr canon)
      | _ \<Rightarrow> Inl (HilLifecycleError (text_msg ''output root must be an absolute path'')))"

definition id_first :: "char \<Rightarrow> bool" where
  "id_first c \<longleftrightarrow> byte_in 65 90 c \<or> byte_in 97 122 c \<or> byte_in 48 57 c"

definition id_rest :: "char \<Rightarrow> bool" where
  "id_rest c \<longleftrightarrow> id_first c \<or> c \<in> {CHR ''.'', CHR ''_'', CHR ''-''}"

definition safe_id :: "string \<Rightarrow> bool" where
  "safe_id s = (case s of [] \<Rightarrow> False | c # r \<Rightarrow> id_first c \<and> list_all id_rest r \<and> length r \<le> 63)"

text \<open>\<open>RUN_ID_RE.match\<close>: the final \<open>$\<close> also matches before a line feed at the end.\<close>

definition run_id_match :: "string \<Rightarrow> bool" where
  "run_id_match s \<longleftrightarrow> safe_id s \<or> (s \<noteq> [] \<and> last s = CHR 0x0A \<and> safe_id (butlast s))"

definition validate_run_id :: "pyval \<Rightarrow> unit result" where
  "validate_run_id run_id =
     require (isinstance_str run_id \<and> (case run_id of PStr s \<Rightarrow> run_id_match s | _ \<Rightarrow> False))
       (HilLifecycleError (text_msg ''run id must match [A-Za-z0-9][A-Za-z0-9._-]{0,63}''))"

definition create_run_dir :: "exn option \<Rightarrow> fsys \<Rightarrow> string \<Rightarrow> string \<Rightarrow> fsys \<times> string result" where
  "create_run_dir fault fs canon_output_root run_id =
     (case validate_run_id (PStr run_id) of
        Inl e \<Rightarrow> (fs, Inl e)
      | Inr _ \<Rightarrow>
          (let run_dir = path_join canon_output_root run_id in
           if islink fs run_dir
           then (fs, Inl (HilLifecycleError (str_msg ''run directory must not traverse a symlink: %s'' run_dir)))
           else if lexists fs run_dir
           then (fs, Inl (HilLifecycleError (str_msg ''run directory already exists: %s'' run_dir)))
           else if realpath fs run_dir \<noteq> normpath run_dir
           then (fs, Inl (HilLifecycleError (str_msg ''run directory path escapes through a symlink: %s'' run_dir)))
           else
             (case mkdir fault fs run_dir of
                (fs', Inl exc) \<Rightarrow>
                  (fs', if is_OSError exc
                        then Inl (HilLifecycleError (Fmt ''cannot create run directory %s: %s'' [AV (PStr run_dir), AX exc]))
                        else Inl exc)
              | (fs', Inr _) \<Rightarrow> (fs', Inr run_dir))))"

section \<open>The cleanup stack\<close>

lemma run_callbacks_failures:
  "run_callbacks cbs w fails = (case run_callbacks cbs w [] of (w', new) \<Rightarrow> (w', fails @ new))"
proof (induction cbs arbitrary: w fails)
  case (Cons nc cbs)
  obtain n cb where nc: "nc = (n, cb)" by (cases nc)
  show ?case
    by (cases "cb w"; cases "snd (cb w)")
       (auto simp: nc Cons.IH [of _ "fails @ _"] Cons.IH [of _ "[_]"] Cons.IH [of _ fails] split: prod.splits)
qed simp

text \<open>Callbacks that log their name, whatever their outcome.\<close>

lemma run_callbacks_log:
  assumes "\<forall>(n, cb) \<in> set cbs. \<forall>w. cb w = (w @ [n], out n)"
  shows "run_callbacks cbs w [] =
    (w @ map fst cbs, concat (map (\<lambda>n. case out n of Inl e \<Rightarrow> [(n, e)] | Inr _ \<Rightarrow> []) (map fst cbs)))"
  using assms
proof (induction cbs arbitrary: w)
  case (Cons nc cbs)
  obtain n cb where nc: "nc = (n, cb)" by (cases nc)
  show ?case
    using Cons by (cases "out n") (simp_all add: nc run_callbacks_failures [of cbs _ "[_]"])
qed simp

lemma stack_close_error:
  "stack_close st w = (st', w', Inl e) \<Longrightarrow> \<exists>fails. e = CleanupFailure fails \<and> fails \<noteq> []"
  by (auto simp: stack_close_def Let_def split: if_splits prod.splits)

section \<open>The lock file\<close>

abbreviation lock_dir_of :: "path \<Rightarrow> path" where
  "lock_dir_of R \<equiv> R @ [''.locks'']"

abbreviation lock_key :: "(string \<Rightarrow> string) \<Rightarrow> path \<Rightarrow> string \<Rightarrow> path" where
  "lock_key digest R fixture_id \<equiv> R @ [''.locks'', digest fixture_id]"

text \<open>Where the lock of a fixture lives: a canonical output root, in which \<open>.locks\<close> is a directory
  or not there yet, and a digest that is a file name.\<close>

definition lock_site :: "(string \<Rightarrow> string) \<Rightarrow> path \<Rightarrow> string \<Rightarrow> fsys \<Rightarrow> bool" where
  "lock_site digest R fixture_id fs \<longleftrightarrow>
     real_dir fs R \<and> name_ok (digest fixture_id) \<and> digest fixture_id \<noteq> ''..'' \<and>
     (node_at fs (lock_dir_of R) = Some Dir \<or>
      node_at fs (lock_dir_of R) = None \<and> node_at fs (lock_key digest R fixture_id) = None)"

lemma name_ok_locks: "name_ok ''.locks''" "''.locks'' \<noteq> ''..''"
  by (simp_all add: name_ok_def)

lemma lock_path_text:
  assumes "lock_site digest R fid fs"
  shows "lock_path digest (path_text R) fid = path_text (lock_key digest R fid)"
proof -
  have "canonical R" "canonical (lock_dir_of R)" "name_ok (digest fid)"
    using assms name_ok_locks by (auto simp: lock_site_def real_dir_def)
  then show ?thesis
    using path_join_text [of R "''.locks''"] path_join_text [of "lock_dir_of R" "digest fid"] name_ok_locks
    by (simp add: lock_path_def)
qed

text \<open>The part of \<open>acquire\<close> that makes sure of the directory.\<close>

definition ensure_lock_dir :: "exn option \<Rightarrow> path \<Rightarrow> fsys \<Rightarrow> fsys \<times> unit result" where
  "ensure_lock_dir fault R fs =
     (if node_at fs (lock_dir_of R) = Some Dir then (fs, Inr ())
      else (case fault of Some e \<Rightarrow> (fs, Inl e) | None \<Rightarrow> (fs_put fs (lock_dir_of R) Dir, Inr ())))"

lemma acquire_site:
  assumes "lock_site digest R fid fs"
  shows "acquire digest (path_text R) fid env fs =
    (case ensure_lock_dir (le_mkdir_fault env) R fs of
       (fs1, Inl exc) \<Rightarrow>
         (fs1, if is_OSError exc
               then Inl (HilLifecycleError (Fmt ''cannot create lock directory %s: %s''
                      [AV (PStr (path_text (lock_dir_of R))), AX exc]))
               else Inl exc)
     | (fs1, Inr _) \<Rightarrow>
         (let path = path_text (lock_key digest R fid) in
          (case open_excl (le_open_fault env) fs1 path of
             (fs2, Inl exc) \<Rightarrow> (fs2, if exc = EEXIST then Inl (FixtureBusy fid) else Inl exc)
           | (fs2, Inr fd) \<Rightarrow>
               (case le_write_fault env of
                  Some exc \<Rightarrow> (fst (unlink (le_unlink_fault env) fs2 path), Inl exc)
                | None \<Rightarrow>
                    (fs_put fs2 fd (File (lock_payload env fid)),
                     Inr \<lparr>fl_path = path, fl_token = le_token env, fl_fixture_id = fid,
                          fl_pid = le_pid env, fl_host = le_host env, fl_created = le_created env\<rparr>)))))"
proof -
  have R: "real_dir fs R" and canon: "canonical R" using assms by (auto simp: lock_site_def real_dir_def)
  have dir: "path_join (path_text R) ''.locks'' = path_text (lock_dir_of R)"
    using canon name_ok_locks by (simp add: path_join_text)
  have st: "lstat fs (path_text (lock_dir_of R)) = Some (lock_dir_of R, node_at fs (lock_dir_of R))"
    using lstat_entry [OF R name_ok_locks] .
  have node: "node_at fs (lock_dir_of R) = Some Dir \<or> node_at fs (lock_dir_of R) = None"
    using assms by (auto simp: lock_site_def)
  have l: "\<not> islink fs (path_text (lock_dir_of R))" using node by (auto simp: islink_def st)
  have x: "lexists fs (path_text (lock_dir_of R)) \<longleftrightarrow> node_at fs (lock_dir_of R) = Some Dir"
    using node by (auto simp: lexists_def st)
  have d: "node_at fs (lock_dir_of R) = Some Dir \<Longrightarrow> isdir fs (path_text (lock_dir_of R))"
    using isdir_entry [OF R name_ok_locks] .
  have mk: "(if \<not> lexists fs (path_text (lock_dir_of R)) then mkdir (le_mkdir_fault env) fs (path_text (lock_dir_of R))
      else (fs, Inr ())) = ensure_lock_dir (le_mkdir_fault env) R fs"
    using node by (auto simp: x ensure_lock_dir_def mkdir_def st split: option.splits)
  have nb: "\<not> (lexists fs (path_text (lock_dir_of R)) \<and> \<not> isdir fs (path_text (lock_dir_of R)))"
    using x d by blast
  show ?thesis
    unfolding acquire_def Let_def dir mk lock_path_text [OF assms] by (simp only: l nb if_False)
qed

text \<open>After a successful \<open>ensure_lock_dir\<close> the lock directory is there and nothing else changed.\<close>

lemma ensure_lock_dir_Inr:
  assumes "lock_site digest R fid fs" and "ensure_lock_dir fault R fs = (fs1, Inr u)"
  shows "lock_site digest R fid fs1" "real_dir fs1 (lock_dir_of R)"
    "node_at fs1 (lock_key digest R fid) = node_at fs (lock_key digest R fid)"
proof -
  have n: "node_at fs1 (lock_dir_of R) = Some Dir" and R: "real_dir fs1 R"
    and k: "node_at fs1 (lock_key digest R fid) = node_at fs (lock_key digest R fid)"
    using assms by (auto simp: ensure_lock_dir_def lock_site_def real_dir_put_entry split: if_splits option.splits)
  show "lock_site digest R fid fs1" using n R assms(1) by (simp add: lock_site_def)
  show "real_dir fs1 (lock_dir_of R)" using real_dir_snoc [OF R name_ok_locks n] .
  show "node_at fs1 (lock_key digest R fid) = node_at fs (lock_key digest R fid)" by (rule k)
qed

lemma lock_site_put: "lock_site digest R fid fs \<Longrightarrow> node_at fs (lock_dir_of R) = Some Dir \<Longrightarrow>
    lock_site digest R fid (fs_put fs (lock_key digest R fid) v)"
  by (auto simp: lock_site_def real_dir_put_entry)

lemma lock_site_del: "lock_site digest R fid fs \<Longrightarrow> node_at fs (lock_dir_of R) = Some Dir \<Longrightarrow>
    lock_site digest R fid (fs_del fs (lock_key digest R fid))"
  by (auto simp: lock_site_def real_dir_del_entry)

lemma lock_lstat:
  assumes "lock_site digest R fid fs" and "real_dir fs (lock_dir_of R)"
  shows "lstat fs (path_text (lock_key digest R fid)) =
    Some (lock_key digest R fid, node_at fs (lock_key digest R fid))"
  using lstat_entry [OF assms(2), of "digest fid"] assms(1) by (simp add: lock_site_def)

lemma acquire_success:
  assumes site: "lock_site digest R fid fs" and a: "acquire digest (path_text R) fid env fs = (fs', Inr l)"
  shows "node_at fs (lock_key digest R fid) = None"
    and "node_at fs' (lock_key digest R fid) = Some (File (lock_payload env fid))"
    and "lock_site digest R fid fs'" and "real_dir fs' (lock_dir_of R)"
    and "fl_token l = le_token env" and "fl_path l = path_text (lock_key digest R fid)"
proof -
  from a obtain fs1 where e: "ensure_lock_dir (le_mkdir_fault env) R fs = (fs1, Inr ())"
    by (auto simp: acquire_site [OF site] split: prod.splits sum.splits if_splits)
  note E = ensure_lock_dir_Inr [OF site e]
  note st = lock_lstat [OF E(1,2)]
  have n1: "node_at fs1 (lock_key digest R fid) = None"
    and fs': "fs' = fs_put (fs_put fs1 (lock_key digest R fid) (File [])) (lock_key digest R fid) (File (lock_payload env fid))"
    and l: "l = \<lparr>fl_path = path_text (lock_key digest R fid), fl_token = le_token env, fl_fixture_id = fid,
                 fl_pid = le_pid env, fl_host = le_host env, fl_created = le_created env\<rparr>"
    using a by (auto simp: acquire_site [OF site] e open_excl_def st Let_def split: option.splits if_splits)
  have d: "node_at fs1 (lock_dir_of R) = Some Dir" using real_dir_node [OF E(2)] .
  show "node_at fs (lock_key digest R fid) = None" using n1 E(3) by simp
  show "node_at fs' (lock_key digest R fid) = Some (File (lock_payload env fid))" by (simp add: fs')
  show "lock_site digest R fid fs'" using E(1) d by (simp add: fs' lock_site_put)
  show "real_dir fs' (lock_dir_of R)" using E(2) by (simp add: fs' real_dir_put_entry)
  show "fl_token l = le_token env" "fl_path l = path_text (lock_key digest R fid)" by (simp_all add: l)
qed

lemma acquire_failure:
  assumes site: "lock_site digest R fid fs" and a: "acquire digest (path_text R) fid env fs = (fs', Inl x)"
    and "le_unlink_fault env = None"
  shows "node_at fs' (lock_key digest R fid) = node_at fs (lock_key digest R fid)"
    and "lock_site digest R fid fs'"
proof -
  have both: "node_at fs' (lock_key digest R fid) = node_at fs (lock_key digest R fid) \<and> lock_site digest R fid fs'"
  proof (cases "\<exists>fs1. ensure_lock_dir (le_mkdir_fault env) R fs = (fs1, Inr ())")
    case False
    have "ensure_lock_dir (le_mkdir_fault env) R fs = (fs, Inl e)" if "snd (ensure_lock_dir (le_mkdir_fault env) R fs) = Inl e" for e
      using that by (auto simp: ensure_lock_dir_def split: if_splits option.splits)
    with False obtain e where "ensure_lock_dir (le_mkdir_fault env) R fs = (fs, Inl e)"
      by (cases "ensure_lock_dir (le_mkdir_fault env) R fs"; cases "snd (ensure_lock_dir (le_mkdir_fault env) R fs)") auto
    with a site show ?thesis by (auto simp: acquire_site)
  next
    case True
    then obtain fs1 where e: "ensure_lock_dir (le_mkdir_fault env) R fs = (fs1, Inr ())" ..
    note E = ensure_lock_dir_Inr [OF site e]
    note st = lock_lstat [OF E(1,2)]
    have d: "node_at fs1 (lock_dir_of R) = Some Dir" using real_dir_node [OF E(2)] .
    let ?K = "lock_key digest R fid" and ?fs2 = "fs_put fs1 (lock_key digest R fid) (File [])"
    have st2: "lstat ?fs2 (path_text ?K) = Some (?K, node_at ?fs2 ?K)"
      using lock_lstat [OF lock_site_put [OF E(1) d, of "File []"]] E(2) by (simp add: real_dir_put_entry)
    show ?thesis
    proof (cases "le_open_fault env = None \<and> node_at fs1 ?K = None")
      case False
      with a E show ?thesis
        by (auto simp: acquire_site [OF site] e open_excl_def st Let_def split: option.splits)
    next
      case True
      with a E obtain w where "le_write_fault env = Some w"
        by (auto simp: acquire_site [OF site] e open_excl_def st Let_def split: option.splits)
      with True a E assms(3) have fs': "fs' = fs_del ?fs2 ?K"
        by (auto simp: acquire_site [OF site] e open_excl_def st unlink_def st2 Let_def)
      have "lock_site digest R fid (fs_del ?fs2 ?K)"
        using lock_site_del [OF lock_site_put [OF E(1) d, of "File []"]] d by simp
      with fs' E(3) True show ?thesis by simp
    qed
  qed
  then show "node_at fs' (lock_key digest R fid) = node_at fs (lock_key digest R fid)" "lock_site digest R fid fs'"
    by auto
qed

lemma acquire_progress:
  assumes site: "lock_site digest R fid fs" and "node_at fs (lock_key digest R fid) = None"
    and "le_mkdir_fault env = None" "le_open_fault env = None" "le_write_fault env = None"
  shows "\<exists>fs' l. acquire digest (path_text R) fid env fs = (fs', Inr l)"
proof -
  obtain fs1 where e: "ensure_lock_dir (le_mkdir_fault env) R fs = (fs1, Inr ())"
    using assms(3) that by (cases "node_at fs (lock_dir_of R) = Some Dir") (simp_all add: ensure_lock_dir_def)
  note E = ensure_lock_dir_Inr [OF site e]
  show ?thesis
    using assms(2-) E(3) lock_lstat [OF E(1,2)]
    unfolding acquire_site [OF site] e by (simp add: open_excl_def)
qed

lemma acquire_busy:
  assumes site: "lock_site digest R fid fs" and k: "node_at fs (lock_key digest R fid) \<noteq> None"
    and "le_open_fault env = None"
  shows "acquire digest (path_text R) fid env fs = (fs, Inl (FixtureBusy fid))"
proof -
  have e: "ensure_lock_dir (le_mkdir_fault env) R fs = (fs, Inr ())"
    using site k by (auto simp: ensure_lock_dir_def lock_site_def)
  show ?thesis
    using k assms(3) lock_lstat [OF ensure_lock_dir_Inr(1,2) [OF site e]]
    by (auto simp: acquire_site [OF site] e open_excl_def Let_def)
qed

section \<open>The lock file and its owner\<close>

text \<open>The values written into a lock file: ASCII text and a process id that can be read back.\<close>

definition plain_env :: "lock_env \<Rightarrow> string \<Rightarrow> bool" where
  "plain_env env fid \<longleftrightarrow>
     is_ascii (le_token env) \<and> is_ascii fid \<and> is_ascii (le_host env) \<and> is_ascii (le_created env) \<and>
     plain_json (PInt (le_pid env))"

lemma universal_newlines_id: "CHR 0x0D \<notin> set s \<Longrightarrow> universal_newlines s = s"
  by (induction s rule: universal_newlines.induct) auto

lemma lock_payload_reads:
  assumes "plain_env env fid"
  shows "utf8_valid (lock_payload env fid)"
    and "json_loads dict_of_pairs (universal_newlines (lock_payload env fid)) = Inr (PDict (lock_dict env fid))"
proof -
  have plain: "plain_json (PDict (lock_dict env fid))"
    using assms by (simp add: plain_env_def lock_dict_def dict_keys_def is_ascii_def)
  have pr: "list_all printable (json_dumps (\<lambda>_. []) '', '' '': '' (PDict (lock_dict env fid)))"
    using plain by (rule printable_dumps) (simp_all add: printable_def)
  have "of_char c < (128 :: nat) \<and> c \<noteq> CHR 0x0D" if "printable c" for c
    using that by (auto simp: printable_def)
  with pr have "\<forall>c \<in> set (lock_payload env fid). of_char c < (128 :: nat) \<and> c \<noteq> CHR 0x0D"
    by (auto simp: lock_payload_def list_all_iff simp del: json_dumps.simps)
  then have "is_ascii (lock_payload env fid)" and cr: "CHR 0x0D \<notin> set (lock_payload env fid)"
    by (auto simp: is_ascii_def)
  then show "utf8_valid (lock_payload env fid)" by (simp add: utf8_valid_ascii)
  have "json_loads dict_of_pairs (lock_payload env fid) = Inr (PDict (lock_dict env fid))"
    unfolding lock_payload_def using plain _ dict_of_pairs_distinct
    by (rule json_loads_dumps_blanks) (simp_all add: separators_def json_space_def)
  with cr show "json_loads dict_of_pairs (universal_newlines (lock_payload env fid)) = Inr (PDict (lock_dict env fid))"
    by (simp add: universal_newlines_id)
qed

lemma lock_token: "dict_get (lock_dict env fid) ''token'' = PStr (le_token env)"
  by (simp add: dict_get_def lock_dict_def)

lemma lock_read:
  assumes "lock_site digest R fid fs" and "node_at fs (lock_key digest R fid) = Some (File b)"
  shows "read_bytes None fs (path_text (lock_key digest R fid)) = Inr b"
proof -
  have "real_dir fs (lock_dir_of R)"
    using assms real_dir_snoc [of fs R "''.locks''"] name_ok_locks by (auto simp: lock_site_def)
  from resolve_below_real_dir [OF this, of "[digest fid]"] assms show ?thesis
    by (simp add: read_bytes_def lock_site_def comps_path_text real_dir_def name_ok_locks)
qed

lemma lock_absent:
  assumes "lock_site digest R fid fs" and "node_at fs (lock_key digest R fid) = None"
  shows "read_bytes None fs (path_text (lock_key digest R fid)) = Inl ENOENT"
proof -
  have R: "real_dir fs R" and c: "canonical (R @ [''.locks'', digest fid])"
    and n: "node_at fs (lock_dir_of R) \<noteq> Some (Link t)" for t
    using assms name_ok_locks by (auto simp: lock_site_def real_dir_def)
  have "resolve_all fs (R @ [''.locks'', digest fid]) = (R @ [''.locks'', digest fid], True)"
    using c n assms(2) by (intro resolve_below_real_dir [OF R]) (auto simp: less_Suc_eq)
  with c assms(2) show ?thesis by (simp add: read_bytes_def comps_path_text)
qed

text \<open>A lock object of the site, and whether the lock file is its own.\<close>

definition lock_of_site :: "(string \<Rightarrow> string) \<Rightarrow> path \<Rightarrow> string \<Rightarrow> fixture_lock \<Rightarrow> bool" where
  "lock_of_site digest R fid l \<longleftrightarrow> fl_path l = path_text (lock_key digest R fid)"

definition lock_holds :: "(string \<Rightarrow> string) \<Rightarrow> path \<Rightarrow> string \<Rightarrow> fsys \<Rightarrow> string \<Rightarrow> bool" where
  "lock_holds digest R fid fs token \<longleftrightarrow>
     (\<exists>env. plain_env env fid \<and> le_token env = token \<and>
        node_at fs (lock_key digest R fid) = Some (File (lock_payload env fid)))"

lemma release_owner:
  assumes "lock_site digest R fid fs" and "lock_of_site digest R fid l"
    and "lock_holds digest R fid fs (fl_token l)"
  shows "release None None l fs = (fs_del fs (lock_key digest R fid), Inr ())"
proof -
  from assms(3) obtain env where env: "plain_env env fid" "le_token env = fl_token l"
    "node_at fs (lock_key digest R fid) = Some (File (lock_payload env fid))" by (auto simp: lock_holds_def)
  have d: "real_dir fs (lock_dir_of R)"
    using assms(1) env(3) real_dir_snoc [of fs R "''.locks''"] name_ok_locks by (auto simp: lock_site_def)
  show ?thesis
    using assms(2) lock_read [OF assms(1) env(3)] lock_payload_reads [OF env(1)] lock_lstat [OF assms(1) d] env(2,3)
    by (simp add: release_def lock_of_site_def lock_token unlink_def)
qed

lemma release_stranger:
  assumes "lock_site digest R fid fs" and "lock_of_site digest R fid l"
    and "node_at fs (lock_key digest R fid) = None \<or> (\<exists>t. lock_holds digest R fid fs t \<and> t \<noteq> fl_token l)"
  shows "\<exists>m. release rf uf l fs = (fs, Inl m)"
proof (cases "rf = None")
  case True
  from assms(3) show ?thesis
  proof
    assume "node_at fs (lock_key digest R fid) = None"
    with lock_absent [OF assms(1)] assms(2) True show ?thesis by (simp add: release_def lock_of_site_def)
  next
    assume "\<exists>t. lock_holds digest R fid fs t \<and> t \<noteq> fl_token l"
    then obtain env where env: "plain_env env fid" "le_token env \<noteq> fl_token l"
      "node_at fs (lock_key digest R fid) = Some (File (lock_payload env fid))" by (auto simp: lock_holds_def)
    show ?thesis
      using True assms(2) lock_read [OF assms(1) env(3)] lock_payload_reads [OF env(1)] env(2)
      by (simp add: release_def lock_of_site_def lock_token)
  qed
next
  case False
  then show ?thesis by (auto simp: release_def read_bytes_def)
qed

section \<open>Several clients\<close>

text \<open>Clients that compete for one lock: the shared state, the locks that are held (with their
  owner) and the lock objects that were released, whose \<open>release\<close> may be called again.  A new
  acquisition draws a token that no earlier lock had, which is what \<open>uuid4\<close> provides.\<close>

inductive lock_step ::
  "('e \<Rightarrow> 's \<Rightarrow> 's \<times> 'l result) \<Rightarrow> ('l \<Rightarrow> 's \<Rightarrow> 's \<times> unit result) \<Rightarrow> ('l \<Rightarrow> string) \<Rightarrow> ('e \<Rightarrow> bool) \<Rightarrow>
   's \<times> (nat \<times> 'l) list \<times> 'l list \<Rightarrow> 's \<times> (nat \<times> 'l) list \<times> 'l list \<Rightarrow> bool"
  for acq rel token ok where
  step_acquire: "ok e \<Longrightarrow> acq e s = (s', Inr l) \<Longrightarrow> token l \<notin> token ` (snd ` set held \<union> set spent) \<Longrightarrow>
     lock_step acq rel token ok (s, held, spent) (s', (c, l) # held, spent)"
| step_busy: "ok e \<Longrightarrow> acq e s = (s', Inl x) \<Longrightarrow> lock_step acq rel token ok (s, held, spent) (s', held, spent)"
| step_release: "(c, l) \<in> set held \<Longrightarrow> rel l s = (s', Inr u) \<Longrightarrow>
     lock_step acq rel token ok (s, held, spent) (s', remove1 (c, l) held, l # spent)"
| step_stray: "l \<in> set spent \<Longrightarrow> rel l s = (s', r) \<Longrightarrow> lock_step acq rel token ok (s, held, spent) (s', held, spent)"

inductive lock_reach ::
  "('e \<Rightarrow> 's \<Rightarrow> 's \<times> 'l result) \<Rightarrow> ('l \<Rightarrow> 's \<Rightarrow> 's \<times> unit result) \<Rightarrow> ('l \<Rightarrow> string) \<Rightarrow> ('e \<Rightarrow> bool) \<Rightarrow>
   's \<Rightarrow> 's \<times> (nat \<times> 'l) list \<times> 'l list \<Rightarrow> bool"
  for acq rel token ok s0 where
  reach_start: "lock_reach acq rel token ok s0 (s0, [], [])"
| reach_step: "lock_reach acq rel token ok s0 w \<Longrightarrow> lock_step acq rel token ok w w' \<Longrightarrow> lock_reach acq rel token ok s0 w'"

inductive_cases lock_stepE: "lock_step acq rel token ok (s, held, spent) w'"

text \<open>The contract of an exclusive lock: acquisition needs the free state and leaves the caller as
  the only owner, a failed acquisition changes nothing about ownership, the owner's release frees
  the lock and a release with any other token does nothing.\<close>

locale exclusive_lock =
  fixes acq :: "'e \<Rightarrow> 's \<Rightarrow> 's \<times> 'l result" and rel :: "'l \<Rightarrow> 's \<Rightarrow> 's \<times> unit result"
    and token :: "'l \<Rightarrow> string" and ok :: "'e \<Rightarrow> bool"
    and inv :: "'s \<Rightarrow> bool" and mine :: "'l \<Rightarrow> bool"
    and free :: "'s \<Rightarrow> bool" and holds :: "'s \<Rightarrow> string \<Rightarrow> bool"
  assumes acq_Inr: "inv s \<Longrightarrow> ok e \<Longrightarrow> acq e s = (s', Inr l) \<Longrightarrow>
      inv s' \<and> free s \<and> mine l \<and> holds s' (token l)"
    and acq_Inl: "inv s \<Longrightarrow> ok e \<Longrightarrow> acq e s = (s', Inl x) \<Longrightarrow>
      inv s' \<and> free s' = free s \<and> (\<forall>t. holds s' t = holds s t)"
    and not_free: "holds s t \<Longrightarrow> \<not> free s"
    and rel_owner: "inv s \<Longrightarrow> mine l \<Longrightarrow> holds s (token l) \<Longrightarrow>
      (\<exists>s'. rel l s = (s', Inr ()) \<and> inv s' \<and> free s')"
    and rel_other: "inv s \<Longrightarrow> mine l \<Longrightarrow> free s \<or> (\<exists>t. holds s t \<and> t \<noteq> token l) \<Longrightarrow> (\<exists>x. rel l s = (s, Inl x))"
begin

text \<open>At most one lock is held, its token is the one on record, and released tokens are different.\<close>

lemma reach_invariant:
  assumes "lock_reach acq rel token ok s0 (s, held, spent)" and "inv s0" and "free s0"
  shows "inv s \<and> (\<forall>l \<in> snd ` set held \<union> set spent. mine l) \<and>
    (held = [] \<and> free s \<or> (\<exists>c l. held = [(c, l)] \<and> holds s (token l) \<and> token l \<notin> token ` set spent))"
proof -
  define I where "I w = (case w of (s, held, spent) \<Rightarrow> inv s \<and> (\<forall>l \<in> snd ` set held \<union> set spent. mine l) \<and>
    (held = [] \<and> free s \<or> (\<exists>c l. held = [(c, l)] \<and> holds s (token l) \<and> token l \<notin> token ` set spent)))"
    for w :: "'s \<times> (nat \<times> 'l) list \<times> 'l list"
  have "I w" if "lock_reach acq rel token ok s0 w" for w
    using that
  proof induction
    case reach_start
    then show ?case using assms(2,3) by (simp add: I_def)
  next
    case (reach_step w w')
    obtain s held spent where w: "w = (s, held, spent)" by (cases w)
    from reach_step(2,3) show ?case unfolding w
    proof (elim lock_stepE, goal_cases)
      case (1 e s' l c)
      with acq_Inr [of s e s' l] not_free [of s] show ?case by (auto simp: I_def)
    next
      case (2 e s' x)
      with acq_Inl [of s e s' x] show ?case by (auto simp: I_def)
    next
      case (3 c l s')
      then have "inv s" "mine l" "held = [(c, l)]" "holds s (token l)" "token l \<notin> token ` set spent"
        by (auto simp: I_def)
      with rel_owner [of s l] 3 show ?case by (auto simp: I_def)
    next
      case (4 l s' r)
      then have "inv s" "mine l" "free s \<or> (\<exists>t. holds s t \<and> t \<noteq> token l)" by (auto simp: I_def)
      with rel_other [of s l] 4 show ?case by auto
    qed
  qed
  from this [OF assms(1)] show ?thesis by (simp add: I_def)
qed

lemma mutual_exclusion:
  assumes "lock_reach acq rel token ok s0 (s, held, spent)" and "inv s0" and "free s0"
  shows "length held \<le> 1"
  using reach_invariant [OF assms] by auto

lemma holder_can_release:
  assumes "lock_reach acq rel token ok s0 (s, [(c, l)], spent)" and "inv s0" and "free s0"
  shows "\<exists>s'. rel l s = (s', Inr ()) \<and> free s'"
  using reach_invariant [OF assms] rel_owner [of s l] by auto

lemma stray_release_harmless:
  assumes "lock_reach acq rel token ok s0 (s, held, spent)" and "inv s0" and "free s0" and "l \<in> set spent"
  shows "\<exists>x. rel l s = (s, Inl x)"
  using reach_invariant [OF assms(1-3)] assms(4) by (intro rel_other) auto

end

definition env_ok :: "string \<Rightarrow> lock_env \<Rightarrow> bool" where
  "env_ok fid env \<longleftrightarrow> plain_env env fid \<and> le_unlink_fault env = None"

definition lock_free :: "(string \<Rightarrow> string) \<Rightarrow> path \<Rightarrow> string \<Rightarrow> fsys \<Rightarrow> bool" where
  "lock_free digest R fid fs \<longleftrightarrow> node_at fs (lock_key digest R fid) = None"

interpretation fl: exclusive_lock "acquire digest (path_text R) fid" "release None None" fl_token
  "env_ok fid" "lock_site digest R fid" "lock_of_site digest R fid" "lock_free digest R fid"
  "lock_holds digest R fid"
  for digest R fid
proof unfold_locales
  fix s e s' l
  assume "lock_site digest R fid s" "env_ok fid e" "acquire digest (path_text R) fid e s = (s', Inr l)"
  with acquire_success [of digest R fid s e s' l]
  show "lock_site digest R fid s' \<and> lock_free digest R fid s \<and> lock_of_site digest R fid l \<and>
    lock_holds digest R fid s' (fl_token l)"
    by (auto simp: lock_free_def lock_of_site_def lock_holds_def env_ok_def)
next
  fix s e s' x
  assume "lock_site digest R fid s" "env_ok fid e" "acquire digest (path_text R) fid e s = (s', Inl x)"
  with acquire_failure [of digest R fid s e s' x]
  show "lock_site digest R fid s' \<and> lock_free digest R fid s' = lock_free digest R fid s \<and>
    (\<forall>t. lock_holds digest R fid s' t = lock_holds digest R fid s t)"
    by (simp add: lock_free_def lock_holds_def env_ok_def)
next
  fix s l
  assume a: "lock_site digest R fid s" "lock_of_site digest R fid l" "lock_holds digest R fid s (fl_token l)"
  then have "node_at s (lock_dir_of R) = Some Dir" by (auto simp: lock_site_def lock_holds_def)
  with a release_owner [OF a] lock_site_del [OF a(1)]
  show "\<exists>s'. release None None l s = (s', Inr ()) \<and> lock_site digest R fid s' \<and> lock_free digest R fid s'"
    by (simp add: lock_free_def)
qed (use release_stranger in \<open>auto simp: lock_free_def lock_holds_def\<close>)

section \<open>Properties of the cleanup stack\<close>

text \<open>C10: \<open>close\<close> runs every registered callback exactly once, in reverse order of registration,
  whatever the others raise (\<open>KeyboardInterrupt\<close> included); the failures, and nothing else, are
  reported, in the order they occurred and with their exceptions; closing again does nothing and
  registering is refused.\<close>

theorem close_runs_all:
  assumes "\<not> cs_closed st" and "\<forall>(n, cb) \<in> set (cs_callbacks st). \<forall>w. cb w = (w @ [n], out n)"
  shows "\<exists>st'. stack_close st w =
      (st', w @ rev (map fst (cs_callbacks st)),
       (let fails = concat (map (\<lambda>n. case out n of Inl e \<Rightarrow> [(n, e)] | Inr _ \<Rightarrow> []) (rev (map fst (cs_callbacks st))))
        in if fails = [] then Inr () else Inl (CleanupFailure fails))) \<and>
    (\<forall>w'. stack_close st' w' = (st', w', Inr ())) \<and>
    (\<forall>name cb. \<exists>m. register st' name cb = (st', Inl (RuntimeError m)))"
proof -
  have "run_callbacks (rev (cs_callbacks st)) w [] =
    (w @ map fst (rev (cs_callbacks st)),
     concat (map (\<lambda>n. case out n of Inl e \<Rightarrow> [(n, e)] | Inr _ \<Rightarrow> []) (map fst (rev (cs_callbacks st)))))"
    using assms(2) by (intro run_callbacks_log) auto
  with assms(1) show ?thesis
    by (intro exI [of _ "st\<lparr>cs_closed := True\<rparr>"]) (simp add: stack_close_def register_def Let_def rev_map)
qed

theorem close_runs_all_witness:
  "\<exists>st'. stack_close \<lparr>cs_callbacks = [(''a'', \<lambda>w. (w @ [''a''], Inr ())), (''b'', \<lambda>w. (w @ [''b''], Inl KeyboardInterrupt))],
       cs_closed = False\<rparr> [] = (st', [''b'', ''a''], Inl (CleanupFailure [(''b'', KeyboardInterrupt)]))"
  using close_runs_all [of "\<lparr>cs_callbacks = [(''a'', \<lambda>w. (w @ [''a''], Inr ())), (''b'', \<lambda>w. (w @ [''b''], Inl KeyboardInterrupt))],
       cs_closed = False\<rparr>" "\<lambda>n. if n = ''a'' then Inr () else Inl KeyboardInterrupt" "[]"]
  by auto

text \<open>leaving a \<open>with CleanupStack ()\<close> block never hides the failure of its body: what is raised
  is the body's exception itself or, when callbacks failed too, a group of it and the cleanup
  failure, which is a \<open>BaseExceptionGroup\<close> when the body's exception is not an \<open>Exception\<close>.\<close>

theorem body_failure_kept:
  assumes "body new_stack w = (st, w', Inl e)" and "with_stack True body w = (w'', r)"
  shows "r = Inl e \<or>
    (\<exists>fails. fails \<noteq> [] \<and>
       r = Inl ((if is_Exception e then ExceptionGroup else BaseExceptionGroup)
                 (text_msg ''body failed and cleanup failed'') [e, CleanupFailure fails]))"
  using assms stack_close_error [of st w']
  by (auto simp: with_stack_def stack_exit_def split: prod.splits sum.splits)

theorem body_failure_kept_witness:
  "\<exists>w r. with_stack True (\<lambda>st w. (fst (register st ''x'' (Some (\<lambda>w. (w, Inl (OSError (text_msg ''x'')))))), w, Inl KeyboardInterrupt)) () = (w, r) \<and>
     (r = Inl KeyboardInterrupt \<or> (\<exists>fails. fails \<noteq> [] \<and>
       r = Inl (BaseExceptionGroup (text_msg ''body failed and cleanup failed'') [KeyboardInterrupt, CleanupFailure fails])))"
  using body_failure_kept [where e = KeyboardInterrupt and w = "()" and
      body = "\<lambda>st w. (fst (register st ''x'' (Some (\<lambda>w. (w, Inl (OSError (text_msg ''x'')))))), w, Inl KeyboardInterrupt)"]
  by (cases "with_stack True (\<lambda>st w. (fst (register st ''x'' (Some (\<lambda>w. (w, Inl (OSError (text_msg ''x'')))))), w, Inl KeyboardInterrupt)) ()") auto

section \<open>Properties of the fixture lock\<close>

text \<open>The example site: output root \<open>/out\<close>, a digest that is constant.\<close>

definition example_fs :: fsys where
  "example_fs = [([''out''], Dir)]"

definition example_env :: lock_env where
  "example_env = \<lparr>le_token = ''0f'', le_pid = 7, le_host = ''lab'', le_created = ''2026'', le_mkdir_fault = None,
     le_open_fault = None, le_write_fault = None, le_unlink_fault = None\<rparr>"

lemma example_site: "lock_site (\<lambda>_. ''d0'') [''out''] ''fx'' example_fs" "lock_free (\<lambda>_. ''d0'') [''out''] ''fx'' example_fs"
  by (simp_all add: lock_site_def lock_free_def real_dir_def example_fs_def node_at_def name_ok_def le_Suc_eq)

lemma example_env_ok: "env_ok ''fx'' example_env"
  by code_simp

text \<open>C2: mutual exclusion: in every interleaving of acquisitions and releases by any number of
  clients, including failing acquisitions and repeated releases of a lock that was given back, at
  most one client holds the fixture, the holder can always release it, and a stray release fails
  and leaves the file system as it is.\<close>

theorem lock_mutual_exclusion:
  assumes "lock_reach (acquire digest (path_text R) fid) (release None None) fl_token (env_ok fid) fs0 (fs, held, spent)"
    and "lock_site digest R fid fs0" and "lock_free digest R fid fs0"
  shows "length held \<le> 1 \<and>
    (\<forall>l \<in> set (map snd held). \<exists>fs'. release None None l fs = (fs', Inr ()) \<and> lock_free digest R fid fs') \<and>
    (\<forall>l \<in> set spent. \<exists>x. release None None l fs = (fs, Inl x))"
proof (intro conjI ballI)
  show "length held \<le> 1" using assms by (rule fl.mutual_exclusion)
  fix l
  show "\<exists>x. release None None l fs = (fs, Inl x)" if "l \<in> set spent"
    using assms that by (rule fl.stray_release_harmless)
  assume "l \<in> set (map snd held)"
  with \<open>length held \<le> 1\<close> obtain c where "held = [(c, l)]" by (cases held) auto
  with assms show "\<exists>fs'. release None None l fs = (fs', Inr ()) \<and> lock_free digest R fid fs'"
    using fl.holder_can_release by blast
qed

theorem lock_mutual_exclusion_witness:
  "\<exists>fs l. lock_reach (acquire (\<lambda>_. ''d0'') (path_text [''out'']) ''fx'') (release None None) fl_token (env_ok ''fx'')
      example_fs (fs, [(0, l)], []) \<and>
    (\<exists>fs'. release None None l fs = (fs', Inr ()) \<and> lock_free (\<lambda>_. ''d0'') [''out''] ''fx'' fs')"
proof -
  obtain fs l where a: "acquire (\<lambda>_. ''d0'') (path_text [''out'']) ''fx'' example_env example_fs = (fs, Inr l)"
    using acquire_progress [OF example_site(1), of example_env] example_site(2)
    by (auto simp: lock_free_def example_env_def)
  have "lock_reach (acquire (\<lambda>_. ''d0'') (path_text [''out'']) ''fx'') (release None None) fl_token (env_ok ''fx'')
      example_fs (fs, [(0, l)], [])"
    using a example_env_ok by (intro reach_step [OF reach_start] step_acquire) auto
  with lock_mutual_exclusion [OF this example_site] show ?thesis by auto
qed

text \<open>a free fixture is acquired and a taken one is refused with \<open>FixtureBusy\<close>, without touching
  the file system; releasing right after acquiring succeeds and removes the lock file again.\<close>

theorem acquire_release_round_trip:
  assumes "lock_site digest R fid fs" and "plain_env env fid" and "le_mkdir_fault env = None"
    and "le_open_fault env = None" and "le_write_fault env = None"
  shows "if lock_free digest R fid fs
    then \<exists>fs1 l fs2. acquire digest (path_text R) fid env fs = (fs1, Inr l) \<and> \<not> lock_free digest R fid fs1 \<and>
      release None None l fs1 = (fs2, Inr ()) \<and> lock_free digest R fid fs2
    else acquire digest (path_text R) fid env fs = (fs, Inl (FixtureBusy fid))"
proof (cases "lock_free digest R fid fs")
  case True
  then obtain fs1 l where a: "acquire digest (path_text R) fid env fs = (fs1, Inr l)"
    using acquire_progress [OF assms(1) _ assms(3-5)] by (auto simp: lock_free_def)
  note A = acquire_success [OF assms(1) a]
  have "lock_holds digest R fid fs1 (fl_token l)" "lock_of_site digest R fid l"
    using A assms(2) by (auto simp: lock_holds_def lock_of_site_def)
  with True a A release_owner [OF A(3)] show ?thesis by (simp add: lock_free_def)
next
  case False
  with acquire_busy [OF assms(1) _ assms(4)] show ?thesis by (simp add: lock_free_def)
qed

theorem acquire_release_round_trip_witness:
  "\<exists>fs1 l fs2. acquire (\<lambda>_. ''d0'') (path_text [''out'']) ''fx'' example_env example_fs = (fs1, Inr l) \<and>
     release None None l fs1 = (fs2, Inr ()) \<and> lock_free (\<lambda>_. ''d0'') [''out''] ''fx'' fs2"
  using acquire_release_round_trip [OF example_site(1), of example_env] example_site(2) example_env_ok
  by (auto simp: env_ok_def example_env_def)

lemma run_callbacks_append:
  "run_callbacks (xs @ ys) w fails = (case run_callbacks xs w fails of (w', fails') \<Rightarrow> run_callbacks ys w' fails')"
  by (induction xs w fails rule: run_callbacks.induct) (auto split: prod.splits sum.splits)

lemma run_callbacks_invariant:
  "P w \<Longrightarrow> \<forall>(n, cb) \<in> set cbs. \<forall>w. P w \<longrightarrow> P (fst (cb w)) \<Longrightarrow> P (fst (run_callbacks cbs w fails))"
  by (induction cbs w fails rule: run_callbacks.induct) (auto split: prod.splits sum.splits)

text \<open>C15: setup failure never leaves the lock held: when a \<open>with\<close> block acquires the lock through its
  cleanup stack, then does anything at all that leaves the lock file alone, registers further
  callbacks that leave it alone too, and fails or returns, the lock is free again after the block.\<close>

theorem with_block_releases_lock:
  assumes "lock_site digest R fid fs" and "plain_env env fid"
    and "acquire_registered digest (path_text R) fid env new_stack fs = (st1, fs1, Inr l)"
    and "body st1 fs1 = (st2, fs2, r)" and "lock_site digest R fid fs2" and "lock_holds digest R fid fs2 (fl_token l)"
    and "\<not> cs_closed st2" and "cs_callbacks st2 = cs_callbacks st1 @ extra"
    and "\<forall>(n, cb) \<in> set extra. \<forall>g. lock_site digest R fid g \<and> lock_holds digest R fid g (fl_token l) \<longrightarrow>
           lock_site digest R fid (fst (cb g)) \<and> lock_holds digest R fid (fst (cb g)) (fl_token l)"
  shows "lock_free digest R fid
    (fst (with_stack py311 (\<lambda>st g. case acquire_registered digest (path_text R) fid env st g of
          (st', g', Inl e) \<Rightarrow> (st', g', Inl e) | (st', g', Inr _) \<Rightarrow> body st' g') fs))"
proof -
  have a: "acquire digest (path_text R) fid env fs = (fs1, Inr l)"
    and cbs: "cs_callbacks st2 = (''fixture lock '' @ fid, release None None l) # extra"
    using assms(3,8) by (auto simp: acquire_registered_def register_def new_stack_def split: prod.splits sum.splits)
  have mine: "lock_of_site digest R fid l"
    using acquire_success [OF assms(1) a] by (auto simp: lock_of_site_def)
  obtain g fails where g: "run_callbacks (rev extra) fs2 [] = (g, fails)" by fastforce
  have "lock_site digest R fid g \<and> lock_holds digest R fid g (fl_token l)"
    using run_callbacks_invariant [where P = "\<lambda>g. lock_site digest R fid g \<and> lock_holds digest R fid g (fl_token l)",
        of fs2 "rev extra" "[]"] assms(5,6,9) g by auto
  with release_owner [of digest R fid g l] mine
  have "release None None l g = (fs_del g (lock_key digest R fid), Inr ())" by simp
  with g have "run_callbacks (rev (cs_callbacks st2)) fs2 [] = (fs_del g (lock_key digest R fid), fails)"
    by (simp add: cbs run_callbacks_append)
  with assms(3,4,7) show ?thesis
    by (auto simp: with_stack_def stack_exit_def stack_close_def lock_free_def Let_def split: sum.splits option.splits)
qed

theorem with_block_releases_lock_witness:
  "lock_free (\<lambda>_. ''d0'') [''out''] ''fx''
    (fst (with_stack True (\<lambda>st g. case acquire_registered (\<lambda>_. ''d0'') (path_text [''out'']) ''fx'' example_env st g of
          (st', g', Inl e) \<Rightarrow> (st', g', Inl e) | (st', g', Inr _) \<Rightarrow> (st', g', Inl KeyboardInterrupt)) example_fs))"
proof -
  obtain fs l where a: "acquire (\<lambda>_. ''d0'') (path_text [''out'']) ''fx'' example_env example_fs = (fs, Inr l)"
    using acquire_progress [OF example_site(1), of example_env] example_site(2)
    by (auto simp: lock_free_def example_env_def)
  then obtain st where r: "acquire_registered (\<lambda>_. ''d0'') (path_text [''out'']) ''fx'' example_env new_stack example_fs = (st, fs, Inr l)"
    "\<not> cs_closed st" by (auto simp: acquire_registered_def register_def new_stack_def)
  have "lock_holds (\<lambda>_. ''d0'') [''out''] ''fx'' fs (fl_token l)"
    using acquire_success [OF example_site(1) a] example_env_ok by (auto simp: lock_holds_def env_ok_def)
  with with_block_releases_lock [OF example_site(1) _ r(1), where body = "\<lambda>st g. (st, g, Inl KeyboardInterrupt)" and extra = "[]"]
    acquire_success(3) [OF example_site(1) a] r(2) example_env_ok
  show ?thesis by (simp add: env_ok_def)
qed

text \<open>a failed acquisition leaves no lock file behind and takes none away: not when the directory
  cannot be made, the file cannot be opened, or writing it fails half way.\<close>

theorem failed_acquire_leaves_lock:
  assumes "lock_site digest R fid fs" and "acquire digest (path_text R) fid env fs = (fs', Inl x)"
    and "le_unlink_fault env = None"
  shows "node_at fs' (lock_key digest R fid) = node_at fs (lock_key digest R fid)"
  using assms by (rule acquire_failure)

theorem failed_acquire_leaves_lock_witness:
  "\<exists>fs' x. acquire (\<lambda>_. ''d0'') (path_text [''out'']) ''fx'' (example_env\<lparr>le_write_fault := Some KeyboardInterrupt\<rparr>) example_fs
       = (fs', Inl x) \<and> node_at fs' [''out'', ''.locks'', ''d0''] = None"
proof -
  have "snd (acquire (\<lambda>_. ''d0'') (path_text [''out'']) ''fx''
      (example_env\<lparr>le_write_fault := Some KeyboardInterrupt\<rparr>) example_fs) = Inl KeyboardInterrupt" by code_simp
  then obtain fs' where "acquire (\<lambda>_. ''d0'') (path_text [''out'']) ''fx''
      (example_env\<lparr>le_write_fault := Some KeyboardInterrupt\<rparr>) example_fs = (fs', Inl KeyboardInterrupt)"
    by (metis prod.collapse)
  then show ?thesis
    using failed_acquire_leaves_lock [OF example_site(1)] by (auto simp: example_env_def example_fs_def node_at_def)
qed

text \<open>a lock file that is not valid UTF-8 makes \<open>release\<close> raise \<open>UnicodeDecodeError\<close> instead of the
  \<open>LockReleaseError\<close> for a malformed file, because decoding happens outside the \<open>try\<close> that would
  translate it.\<close>

theorem release_undecodable:
  assumes "lock_site digest R fid fs" and "lock_of_site digest R fid l"
    and "node_at fs (lock_key digest R fid) = Some (File b)" and "\<not> utf8_valid b"
  shows "release None uf l fs = (fs, Inl UnicodeDecodeError)"
  using lock_read [OF assms(1,3)] assms(2,4) by (simp add: release_def lock_of_site_def)

theorem release_undecodable_witness:
  "release None None \<lparr>fl_path = path_text [''out'', ''.locks'', ''d0''], fl_token = [], fl_fixture_id = [], fl_pid = 0,
      fl_host = [], fl_created = []\<rparr> [([''out''], Dir), ([''out'', ''.locks''], Dir), ([''out'', ''.locks'', ''d0''], File [CHR 0xFF])]
   = ([([''out''], Dir), ([''out'', ''.locks''], Dir), ([''out'', ''.locks'', ''d0''], File [CHR 0xFF])], Inl UnicodeDecodeError)"
proof (rule release_undecodable [where digest = "\<lambda>_. ''d0''" and R = "[''out'']" and fid = "''fx''" and b = "[CHR 0xFF]"])
  show "\<not> utf8_valid [CHR 0xFF]" by code_simp
qed (simp_all add: lock_site_def lock_of_site_def real_dir_def node_at_def name_ok_def le_Suc_eq)

section \<open>Properties of the path checks\<close>

text \<open>an accepted output root is an existing directory, given by its canonical absolute path, that
  is neither the root, nor the home directory, nor related to the repository: neither contains the
  other, component by component.\<close>

theorem output_root_safe:
  assumes "validate_output_root fs home repo arg = Inr canon" and "realpath fs repo \<noteq> [slash]"
  shows "\<exists>cs rs. canonical cs \<and> canonical rs \<and> canon = path_text cs \<and> realpath fs repo = path_text rs \<and>
    cs \<noteq> [] \<and> canon \<noteq> realpath fs home \<and> isdir fs canon \<and> \<not> prefix cs rs \<and> \<not> prefix rs cs"
proof -
  from assms(1) obtain p where c: "canon = realpath fs p" "canon \<noteq> [slash]" "canon \<noteq> realpath fs home"
    "canon \<noteq> realpath fs repo" "\<not> startswith canon (realpath fs repo @ [slash])"
    "\<not> startswith (realpath fs repo) (canon @ [slash])" "isdir fs canon"
    by (auto simp: validate_output_root_def Let_def split: pyval.splits if_splits)
  obtain cs rs where cs: "canonical cs" "canon = path_text cs" and rs: "canonical rs" "realpath fs repo = path_text rs"
    using realpath_canonical c(1) by metis
  have ne: "cs \<noteq> []" "rs \<noteq> []" using c(2) assms(2) cs rs by (auto simp: path_text_def)
  have "\<not> prefix cs rs" "\<not> prefix rs cs"
    using c(4-6) path_text_inside [OF cs(1) rs(1) ne(2)] path_text_inside [OF rs(1) cs(1) ne(1)]
    unfolding cs(2) rs(2) by (auto simp: prefix_def)
  with cs rs ne c show ?thesis by blast
qed

theorem output_root_safe_witness:
  "\<exists>cs rs. path_text [''out''] = path_text cs \<and> realpath example_fs ''/src'' = path_text rs \<and> \<not> prefix cs rs \<and> \<not> prefix rs cs"
proof -
  have "validate_output_root example_fs ''/home/u'' ''/src'' (PStr ''/out'') = Inr (path_text [''out''])"
    and "realpath example_fs ''/src'' \<noteq> [slash]" by code_simp+
  from output_root_safe [OF this] show ?thesis by blast
qed

lemma id_chars: "id_first c \<Longrightarrow> c \<noteq> slash \<and> c \<noteq> CHR ''.'' \<and> c \<noteq> CHR 0x0A" "id_rest c \<Longrightarrow> c \<noteq> slash \<and> c \<noteq> CHR 0x0A"
  by (auto simp: id_first_def id_rest_def byte_in_def)

lemma safe_id_name: "safe_id s \<Longrightarrow> slash \<notin> set s \<and> CHR 0x0A \<notin> set s \<and> s \<noteq> [] \<and> hd s \<noteq> CHR ''.''"
  using id_chars by (fastforce simp: safe_id_def list_all_iff split: list.splits)

lemma run_id_name: "run_id_match s \<Longrightarrow> name_ok s \<and> s \<noteq> ''..''"
proof -
  assume "run_id_match s"
  then consider "safe_id s" | t where "s = t @ [CHR 0x0A]" "safe_id t"
    unfolding run_id_match_def by (metis append_butlast_last_id)
  then have "slash \<notin> set s \<and> s \<noteq> [] \<and> hd s \<noteq> CHR ''.''"
    by cases (auto dest!: safe_id_name)
  then show ?thesis by (auto simp: name_ok_def)
qed

lemma collapse_canonical_id: "canonical cs \<Longrightarrow> collapse cur cs = cur @ cs"
  by (induction cur cs rule: collapse.induct) auto

lemma normpath_text: "canonical cs \<Longrightarrow> normpath (path_text cs) = path_text cs"
proof -
  assume cs: "canonical cs"
  have "\<not> startswith (path_text cs) [slash, slash]"
  proof (cases cs)
    case (Cons a list)
    with cs obtain b r where "a = b # r" "b \<noteq> slash" by (cases a) (auto simp: name_ok_def)
    with Cons show ?thesis by (simp add: path_text_def startswith_def)
  qed (simp add: path_text_def startswith_def)
  with cs show ?thesis by (simp add: normpath_def comps_path_text collapse_canonical_id)
qed

lemma create_run_dir_site:
  assumes "real_dir fs R" and "run_id_match rid"
  shows "create_run_dir fault fs (path_text R) rid =
    (let d = path_text (R @ [rid]) in
     case node_at fs (R @ [rid]) of
       Some (Link _) \<Rightarrow> (fs, Inl (HilLifecycleError (str_msg ''run directory must not traverse a symlink: %s'' d)))
     | Some _ \<Rightarrow> (fs, Inl (HilLifecycleError (str_msg ''run directory already exists: %s'' d)))
     | None \<Rightarrow>
         (case fault of
            None \<Rightarrow> (fs_put fs (R @ [rid]) Dir, Inr d)
          | Some exc \<Rightarrow>
              (fs, if is_OSError exc
                   then Inl (HilLifecycleError (Fmt ''cannot create run directory %s: %s'' [AV (PStr d), AX exc]))
                   else Inl exc)))"
proof -
  have ok: "name_ok rid" "rid \<noteq> ''..''" using run_id_name [OF assms(2)] by auto
  have c: "canonical R" "canonical (R @ [rid])" using assms(1) ok by (auto simp: real_dir_def)
  have join: "path_join (path_text R) rid = path_text (R @ [rid])" using c(1) ok(1) by (rule path_join_text)
  note st = lstat_entry [OF assms(1) ok]
  have real: "realpath fs (path_text (R @ [rid])) = path_text (R @ [rid])" if "node_at fs (R @ [rid]) = None"
    using resolve_below_real_dir [OF assms(1), of "[rid]"] that c ok
    by (simp add: realpath_def comps_path_text collapse_canonical_id)
  show ?thesis
    using assms(2) real c(2)
    by (auto simp: create_run_dir_def validate_run_id_def join islink_def lexists_def st normpath_text mkdir_def Let_def
        split: option.splits node.splits)
qed

text \<open>\<open>create_run_dir\<close> never overwrites: under a canonical output root it either makes exactly one
  new, empty directory directly below the root, named by the run id, where nothing was before, or it
  raises and the file system is unchanged; with a valid run id, no entry of that name and no fault of
  the operating system it succeeds.\<close>

theorem create_run_dir_exact:
  assumes "real_dir fs R"
  shows "(case create_run_dir fault fs (path_text R) rid of
      (fs', Inr d) \<Rightarrow> d = path_text (R @ [rid]) \<and> node_at fs (R @ [rid]) = None \<and> fs' = fs_put fs (R @ [rid]) Dir \<and>
        name_ok rid \<and> real_dir fs' (R @ [rid])
    | (fs', Inl _) \<Rightarrow> fs' = fs) \<and>
   (run_id_match rid \<and> node_at fs (R @ [rid]) = None \<and> fault = None \<longrightarrow>
      (\<exists>fs' d. create_run_dir fault fs (path_text R) rid = (fs', Inr d)))"
proof (cases "run_id_match rid")
  case True
  have "real_dir (fs_put fs (R @ [rid]) Dir) (R @ [rid])"
    using run_id_name [OF True] assms by (intro real_dir_snoc real_dir_put_entry) auto
  with True run_id_name [OF True] show ?thesis
    by (auto simp: create_run_dir_site [OF assms True] Let_def split: option.splits node.splits)
next
  case False
  then show ?thesis by (simp add: create_run_dir_def validate_run_id_def)
qed

theorem create_run_dir_exact_witness:
  "\<exists>fs' d. create_run_dir None example_fs (path_text [''out'']) ''run-1'' = (fs', Inr d)"
proof -
  have "real_dir example_fs [''out'']" using example_site(1) by (simp add: lock_site_def)
  from create_run_dir_exact [OF this, where fault = None and rid = "''run-1''"] show ?thesis
    by (auto simp: example_fs_def node_at_def run_id_match_def safe_id_def id_first_def id_rest_def byte_in_def)
qed

text \<open>the run-id check accepts the ids of the documented pattern and, in addition, each of them
  followed by one line feed, which the pattern excludes: the final \<open>$\<close> of the regular expression also
  matches there.\<close>

theorem run_id_trailing_newline:
  "validate_run_id (PStr s) = Inr () \<longleftrightarrow> safe_id s \<or> (\<exists>t. s = t @ [CHR 0x0A] \<and> safe_id t)"
  by (auto simp: validate_run_id_def run_id_match_def) (metis append_butlast_last_id)

end
