(* ===== verification/Hil_Model.thy ===== *)
theory Hil_Model
  imports Py_OS Py_Json "HOL-Library.List_Lexorder" "HOL-Library.Char_ord"
begin

text \<open>
  The logical fixture and physical binding schemas, \<open>scripts/hil/model.py\<close>: the strict reader of the
  two JSON documents, with every check in the order of the source.  Python text is ordered by code
  point, which on UTF-8 bytes is the lexicographic order of the library.  The repository root, the
  file system and SHA-256 are arguments.
\<close>

section \<open>Constants\<close>

definition SCHEMA_VERSION :: int where
  "SCHEMA_VERSION = 1"

definition FIXTURE_ROOT_KEYS :: "string list" where
  "FIXTURE_ROOT_KEYS = [''schema_version'', ''fixture_id'', ''capture_capability'', ''roles'']"

definition ZEPHYR_ROLE_KEYS :: "string list" where
  "ZEPHYR_ROLE_KEYS = [''kind'', ''board'', ''images'']"

definition CAPTURE_ROLE_KEYS :: "string list" where
  "CAPTURE_ROLE_KEYS = [''kind'', ''channels'']"

definition ZEPHYR_KIND :: string where
  "ZEPHYR_KIND = ''zephyr_dut''"

definition CAPTURE_KIND :: string where
  "CAPTURE_KIND = ''alsa_capture''"

definition BINDING_ROOT_KEYS :: "string list" where
  "BINDING_ROOT_KEYS = [''schema_version'', ''fixture_id'', ''roles'']"

definition BINDING_ROLE_KEYS :: "string list" where
  "BINDING_ROLE_KEYS = [''probe'', ''serial'']"

definition CAPTURE_BINDING_ROLE_KEYS :: "string list" where
  "CAPTURE_BINDING_ROLE_KEYS =
     [''backend'', ''device'', ''channels'', ''sample_rate'', ''sample_format'', ''udev'', ''mixer'',
      ''fixture_metadata'']"

definition PROBE_KEYS :: "string list" where
  "PROBE_KEYS = [''backend'', ''family'', ''udev'']"

definition SERIAL_KEYS :: "string list" where
  "SERIAL_KEYS = [''baud'', ''dtr'', ''rts'', ''udev'']"

definition CAPTURE_MIXER_KEYS :: "string list" where
  "CAPTURE_MIXER_KEYS = [''control'', ''volume'', ''capture_switch'', ''agc_control'', ''agc'']"

definition METADATA_TEXT_KEYS :: "string list" where
  "METADATA_TEXT_KEYS =
     [''capture_hardware'', ''dac'', ''cable_network_schematic_id'', ''measured_attenuation'',
      ''measured_channel_mismatch'', ''electrical_review_id'', ''electrical_review_date'', ''usb_path'',
      ''kernel_version'', ''alsa_version'', ''notes'']"

definition CAPTURE_METADATA_KEYS :: "string list" where
  "CAPTURE_METADATA_KEYS =
     [''fixture_id'', ''capture_hardware'', ''dac'', ''cable_network_schematic_id'',
      ''measured_attenuation'', ''measured_channel_mismatch'', ''electrical_review_id'',
      ''electrical_review_date'', ''usb_path'', ''kernel_version'', ''alsa_version'', ''notes'']"

definition CAPTURE_BACKEND :: string where
  "CAPTURE_BACKEND = ''alsa''"

definition CAPTURE_SAMPLE_RATE :: int where
  "CAPTURE_SAMPLE_RATE = 48000"

definition CAPTURE_SAMPLE_FORMAT :: string where
  "CAPTURE_SAMPLE_FORMAT = ''S16_LE''"

definition NRF54L15_CPUAPP_BOARD :: string where
  "NRF54L15_CPUAPP_BOARD = ''nrf54l15dk/nrf54l15/cpuapp''"

definition UDEV_REQUIRED :: "string list" where
  "UDEV_REQUIRED = [''ID_VENDOR_ID'', ''ID_MODEL_ID'']"

definition UDEV_OR :: "string list" where
  "UDEV_OR = [''ID_SERIAL_SHORT'', ''ID_PATH'']"

definition UDEV_FORBIDDEN :: "string list" where
  "UDEV_FORBIDDEN = [''DEVNAME'']"

definition card_char :: "char \<Rightarrow> bool" where
  "card_char c \<longleftrightarrow> byte_in 65 90 c \<or> byte_in 97 122 c \<or> byte_in 48 57 c \<or>
     c \<in> {CHR ''_'', CHR ''.'', CHR ''-''}"

text \<open>\<open>CAPTURE_DEVICE_RE.fullmatch\<close>: \<open>hw:CARD,DEV\<close>.\<close>

definition capture_device_ok :: "string \<Rightarrow> bool" where
  "capture_device_ok s \<longleftrightarrow>
     startswith s ''hw:'' \<and>
     (let card = takeWhile card_char (drop 3 s); rest = dropWhile card_char (drop 3 s) in
      card \<noteq> [] \<and> take 1 rest = '','' \<and> tl rest \<noteq> [] \<and> list_all is_digit (tl rest))"

section \<open>Documents\<close>

datatype capture_capability = CAP_NONE | CAP_MONO | CAP_STEREO

fun capability_value :: "capture_capability \<Rightarrow> string" where
  "capability_value CAP_NONE = ''none''"
| "capability_value CAP_MONO = ''mono''"
| "capability_value CAP_STEREO = ''stereo''"

record logical_role =
  lr_kind :: string
  lr_board :: "string option"
  lr_images :: "string list"
  lr_channels :: "int option"

record probe_contract =
  pc_backend :: string
  pc_family :: string
  pc_probe_udev_required :: bool

definition PROBE_CONTRACTS :: "((string \<times> string) \<times> probe_contract) list" where
  "PROBE_CONTRACTS =
     [((''receiver'', NRF54L15_CPUAPP_BOARD),
       \<lparr>pc_backend = ''nrf-probes'', pc_family = ''nrf54l'', pc_probe_udev_required = False\<rparr>),
      ((''source'', NRF54L15_CPUAPP_BOARD),
       \<lparr>pc_backend = ''nrf-probes'', pc_family = ''nrf54l'', pc_probe_udev_required = False\<rparr>)]"

record logical_fixture =
  lf_schema_version :: int
  lf_fixture_id :: string
  lf_capture_capability :: capture_capability
  lf_roles :: "(string \<times> logical_role) list"

type_synonym udev_identity = "(string \<times> string) list"

record probe_binding =
  pb_backend :: string
  pb_family :: string
  pb_udev :: "udev_identity option"

record serial_binding =
  sb_baud :: int
  sb_dtr :: bool
  sb_rts :: bool
  sb_udev :: udev_identity

record physical_role_binding =
  prb_probe :: probe_binding
  prb_serial :: serial_binding

record capture_mixer_binding =
  cm_control :: string
  cm_volume :: string
  cm_capture_switch :: string
  cm_agc_control :: string
  cm_agc :: string

record capture_fixture_metadata =
  cf_path :: string
  cf_sha256 :: string
  cf_values :: pydict

record capture_binding =
  cb_backend :: string
  cb_device :: string
  cb_channels :: int
  cb_sample_rate :: int
  cb_sample_format :: string
  cb_udev :: udev_identity
  cb_mixer :: capture_mixer_binding
  cb_fixture_metadata :: capture_fixture_metadata

datatype role_binding = ZephyrBinding physical_role_binding | CaptureRole capture_binding

record physical_binding =
  pbd_schema_version :: int
  pbd_fixture_id :: string
  pbd_roles :: "(string \<times> role_binding) list"

section \<open>Reading\<close>

text \<open>The argument of a parser: \<open>bytes\<close> or some other object.\<close>

datatype raw_doc = Bytes string | NotBytes

abbreviation schema_err :: "msg \<Rightarrow> exn + 'a" where
  "schema_err m \<equiv> Inl (HilSchemaError m)"

abbreviation in_msg :: "string \<Rightarrow> string \<Rightarrow> msg" where
  "in_msg s path \<equiv> Fmt s [AV (PStr path)]"

abbreviation in_msg2 :: "string \<Rightarrow> string \<Rightarrow> string \<Rightarrow> msg" where
  "in_msg2 s a path \<equiv> Fmt s [AV (PStr a), AV (PStr path)]"

fun decode_utf8 :: "raw_doc \<Rightarrow> string \<Rightarrow> string result" where
  "decode_utf8 (Bytes b) path =
     (if utf8_valid b then Inr b else schema_err (in_msg ''%s is not valid UTF-8'' path))"
| "decode_utf8 NotBytes path = schema_err (in_msg ''%s must be bytes'' path)"

definition schema_duplicates :: "pydict \<Rightarrow> pydict result" where
  "schema_duplicates pairs = reject_dup_loop [] pairs"

definition parse_object :: "string \<Rightarrow> string \<Rightarrow> pydict result" where
  "parse_object text path =
     (case json_loads schema_duplicates text of
        Inl (DuplicateKeyError k) \<Rightarrow> schema_err (in_msg2 ''duplicate key %r in %s'' k path)
      | Inl JSONDecodeError \<Rightarrow> schema_err (Fmt ''invalid JSON in %s: %s'' [AV (PStr path), AX JSONDecodeError])
      | Inl e \<Rightarrow> Inl e
      | Inr (PDict obj) \<Rightarrow> Inr obj
      | Inr _ \<Rightarrow> schema_err (in_msg ''%s must contain a JSON object'' path))"

fun schema_is_int :: "pyval \<Rightarrow> bool" where
  "schema_is_int v = (isinstance_int v \<and> \<not> isinstance_bool v)"

definition reject_unknown :: "pydict \<Rightarrow> string list \<Rightarrow> string \<Rightarrow> unit result" where
  "reject_unknown obj allowed path =
     rall (\<lambda>key. require (key \<in> set allowed) (HilSchemaError (in_msg2 ''unknown key %r in %s'' key path)))
       (dict_keys obj)"

definition require_member :: "pydict \<Rightarrow> string \<Rightarrow> string \<Rightarrow> pyval result" where
  "require_member obj key path =
     (case map_of obj key of
        None \<Rightarrow> schema_err (in_msg2 ''missing key %r in %s'' key path)
      | Some v \<Rightarrow> Inr v)"

definition require_nonempty_str :: "pydict \<Rightarrow> string \<Rightarrow> string \<Rightarrow> string result" where
  "require_nonempty_str obj key path =
     rbind (require_member obj key path) (\<lambda>value.
       case value of
         PStr s \<Rightarrow>
           if s = [] then schema_err (in_msg2 ''%s must be a nonempty string in %s'' key path) else Inr s
       | _ \<Rightarrow> schema_err (in_msg2 ''%s must be a nonempty string in %s'' key path))"

section \<open>The logical fixture\<close>

fun check_images :: "string \<Rightarrow> string \<Rightarrow> string list \<Rightarrow> pyval list \<Rightarrow> string list result" where
  "check_images name path seen [] = Inr seen"
| "check_images name path seen (img # images) =
     (case img of
        PStr s \<Rightarrow>
          if s = [] then schema_err (in_msg2 ''role %r image entries must be nonempty strings in %s'' name path)
          else if s \<in> set seen then schema_err (in_msg2 ''role %r images must be unique in %s'' name path)
          else check_images name path (seen @ [s]) images
      | _ \<Rightarrow> schema_err (in_msg2 ''role %r image entries must be nonempty strings in %s'' name path))"

definition parse_zephyr_role :: "string \<Rightarrow> pydict \<Rightarrow> string \<Rightarrow> logical_role result" where
  "parse_zephyr_role name spec path =
     (if name = ''capture'' then schema_err (in_msg2 ''capture role must use kind %r in %s'' CAPTURE_KIND path)
      else
        rbind (reject_unknown spec ZEPHYR_ROLE_KEYS path) (\<lambda>_.
        rbind (require_nonempty_str spec ''board'' path) (\<lambda>board.
        case dict_get spec ''images'' of
          PList images \<Rightarrow>
            if images = [] then schema_err (in_msg2 ''role %r images must be a nonempty list in %s'' name path)
            else rbind (check_images name path [] images) (\<lambda>names.
              Inr \<lparr>lr_kind = ZEPHYR_KIND, lr_board = Some board, lr_images = names, lr_channels = None\<rparr>)
        | _ \<Rightarrow> schema_err (in_msg2 ''role %r images must be a nonempty list in %s'' name path))))"

definition parse_capture_role :: "string \<Rightarrow> pydict \<Rightarrow> capture_capability \<Rightarrow> string \<Rightarrow> logical_role result" where
  "parse_capture_role name spec capability path =
     (if name \<noteq> ''capture''
      then schema_err (Fmt ''role %r must use kind %r in %s'' [AV (PStr name), AV (PStr ZEPHYR_KIND), AV (PStr path)])
      else
        rbind (reject_unknown spec CAPTURE_ROLE_KEYS path) (\<lambda>_.
          let channels = dict_get spec ''channels'' in
          if \<not> isinstance_int channels \<or> isinstance_bool channels
          then schema_err (in_msg ''capture channels must be an integer in %s'' path)
          else if int_value channels \<noteq> 1 \<and> int_value channels \<noteq> 2
          then schema_err (in_msg ''capture channels must be 1 or 2 in %s'' path)
          else if capability = CAP_MONO \<and> int_value channels \<noteq> 1
          then schema_err (in_msg ''capture channels must be 1 for mono capability in %s'' path)
          else if capability = CAP_STEREO \<and> int_value channels \<noteq> 2
          then schema_err (in_msg ''capture channels must be 2 for stereo capability in %s'' path)
          else Inr \<lparr>lr_kind = CAPTURE_KIND, lr_board = None, lr_images = [], lr_channels = Some (int_value channels)\<rparr>))"

definition parse_role :: "string \<Rightarrow> pyval \<Rightarrow> capture_capability \<Rightarrow> string \<Rightarrow> logical_role result" where
  "parse_role name spec capability path =
     (case spec of
        PDict d \<Rightarrow>
          if py_eq (dict_get d ''kind'') (PStr ZEPHYR_KIND) then parse_zephyr_role name d path
          else if py_eq (dict_get d ''kind'') (PStr CAPTURE_KIND) then parse_capture_role name d capability path
          else schema_err (Fmt ''role %r kind must be %r or %r in %s''
                 [AV (PStr name), AV (PStr ZEPHYR_KIND), AV (PStr CAPTURE_KIND), AV (PStr path)])
      | _ \<Rightarrow> schema_err (in_msg2 ''role %r must be an object in %s'' name path))"

text \<open>\<open>CaptureCapability (text)\<close>.\<close>

definition capability_of :: "pyval \<Rightarrow> capture_capability option" where
  "capability_of v =
     (if v = PStr ''none'' then Some CAP_NONE
      else if v = PStr ''mono'' then Some CAP_MONO
      else if v = PStr ''stereo'' then Some CAP_STEREO
      else None)"

text \<open>Lines 396--414: the set of roles.\<close>

definition check_role_names :: "string list \<Rightarrow> capture_capability \<Rightarrow> string \<Rightarrow> unit result" where
  "check_role_names names capability path =
     (let has_capture = ''capture'' \<in> set names;
          extra = sort (filter (\<lambda>n. n \<notin> {''receiver'', ''source'', ''capture''}) names) in
      if ''receiver'' \<notin> set names \<or> ''source'' \<notin> set names
      then schema_err (in_msg ''roles must contain receiver and source in %s'' path)
      else if capability = CAP_NONE \<and> has_capture
      then schema_err (in_msg ''capture role is forbidden when capture_capability is none in %s'' path)
      else if capability \<noteq> CAP_NONE \<and> \<not> has_capture
      then schema_err (in_msg2 ''capture role is required when capture_capability is %s in %s''
             (capability_value capability) path)
      else if extra \<noteq> [] then schema_err (in_msg2 ''extra role %r in %s'' (hd extra) path)
      else Inr ())"

definition parse_logical_fixture_bytes :: "raw_doc \<Rightarrow> string \<Rightarrow> logical_fixture result" where
  "parse_logical_fixture_bytes raw path =
     rbind (decode_utf8 raw path) (\<lambda>text.
     rbind (parse_object text path) (\<lambda>obj.
     rbind (reject_unknown obj FIXTURE_ROOT_KEYS path) (\<lambda>_.
       let version = dict_get obj ''schema_version'' in
       if \<not> schema_is_int version \<or> \<not> py_eq version (PInt SCHEMA_VERSION)
       then schema_err (Fmt ''schema_version must be %d in %s'' [AV (PInt SCHEMA_VERSION), AV (PStr path)])
       else
         rbind (require_nonempty_str obj ''fixture_id'' path) (\<lambda>fixture_id.
         rbind (require_member obj ''capture_capability'' path) (\<lambda>capability_raw.
         case capability_of capability_raw of
           None \<Rightarrow> schema_err (in_msg ''capture_capability must be none, mono, or stereo in %s'' path)
         | Some capability \<Rightarrow>
             rbind (require_member obj ''roles'' path) (\<lambda>roles.
             case roles of
               PDict rs \<Rightarrow>
                 if rs = [] then schema_err (in_msg ''roles must be a nonempty object in %s'' path)
                 else
                   rbind (check_role_names (dict_keys rs) capability path) (\<lambda>_.
                   rbind (rmap (\<lambda>(name, spec). rbind (parse_role name spec capability path) (\<lambda>r. Inr (name, r))) rs)
                     (\<lambda>parsed.
                   Inr \<lparr>lf_schema_version = SCHEMA_VERSION, lf_fixture_id = fixture_id,
                        lf_capture_capability = capability, lf_roles = parsed\<rparr>))
             | _ \<Rightarrow> schema_err (in_msg ''roles must be a nonempty object in %s'' path)))))))"

definition load_logical_fixture :: "fsys \<Rightarrow> string \<Rightarrow> logical_fixture result" where
  "load_logical_fixture fs path =
     rbind (read_bytes None fs path) (\<lambda>b. parse_logical_fixture_bytes (Bytes b) path)"

section \<open>The physical binding\<close>

fun parse_udev_items :: "string \<Rightarrow> bool \<Rightarrow> udev_identity \<Rightarrow> pydict \<Rightarrow> udev_identity result" where
  "parse_udev_items path reject_tty_paths parsed [] = Inr parsed"
| "parse_udev_items path reject_tty_paths parsed ((key, value) # items) =
     (if key \<in> set UDEV_FORBIDDEN then schema_err (in_msg2 ''udev key %r forbidden in %s'' key path)
      else if \<not> startswith key ''ID_'' then schema_err (in_msg2 ''unknown udev key %r in %s'' key path)
      else
        (case value of
           PStr v \<Rightarrow>
             if v = [] then schema_err (in_msg2 ''udev value for %r must be a nonempty string in %s'' key path)
             else if startswith v ''/dev/snd/''
             then schema_err (in_msg ''static /dev/snd path not allowed as udev identity in %s'' path)
             else if reject_tty_paths \<and> startswith v ''/dev/tty''
             then schema_err (in_msg ''volatile tty path not allowed as udev identity in %s'' path)
             else parse_udev_items path reject_tty_paths (parsed @ [(key, v)]) items
         | _ \<Rightarrow> schema_err (in_msg2 ''udev value for %r must be a nonempty string in %s'' key path)))"

text \<open>The keys of a \<open>dict\<close> are distinct, so a new key is appended.  The source iterates over the
  required keys as a set; here they are tried in the order they are written.\<close>

definition parse_udev_map :: "pydict \<Rightarrow> string \<Rightarrow> bool \<Rightarrow> udev_identity result" where
  "parse_udev_map udev path reject_tty_paths =
     rbind (parse_udev_items path reject_tty_paths [] udev) (\<lambda>parsed.
     rbind (rall (\<lambda>key. require (key \<in> fst ` set parsed) (HilSchemaError (in_msg2 ''udev missing %r in %s'' key path)))
              UDEV_REQUIRED) (\<lambda>_.
       if \<not> list_ex (\<lambda>key. key \<in> fst ` set parsed) UDEV_OR
       then schema_err (in_msg ''udev must contain ID_SERIAL_SHORT or ID_PATH in %s'' path)
       else Inr parsed))"

definition require_external_regular_file :: "fsys \<Rightarrow> string \<Rightarrow> string \<Rightarrow> string \<Rightarrow> string result" where
  "require_external_regular_file fs repo_root path label =
     (if path = [] \<or> \<not> isabs path then schema_err (in_msg ''%s must be an absolute path'' label)
      else if islink fs path then schema_err (in_msg2 ''%s must not be a symlink: %s'' label path)
      else
        (let canonical = realpath fs path; repo = realpath fs repo_root in
         if canonical \<noteq> normpath path then schema_err (in_msg2 ''%s must be canonical: %s'' label path)
         else if canonical = repo \<or> startswith canonical (repo @ [slash])
         then schema_err (in_msg2 ''%s must be outside repository: %s'' label path)
         else
           (case resolve_all fs (comps canonical) of (q, ok) \<Rightarrow>
              (case (if ok then node_at fs q else None) of
                 None \<Rightarrow> schema_err (Fmt ''cannot inspect %s %s: %s'' [AV (PStr label), AV (PStr path), AX ENOENT])
               | Some (File _) \<Rightarrow> Inr canonical
               | Some _ \<Rightarrow> schema_err (in_msg2 ''%s must be a regular file: %s'' label path)))))"

definition parse_fixture_metadata ::
  "(string \<Rightarrow> string) \<Rightarrow> fsys \<Rightarrow> string \<Rightarrow> string \<Rightarrow> string \<Rightarrow> capture_fixture_metadata result" where
  "parse_fixture_metadata digest fs repo_root path fixture_id =
     rbind (require_external_regular_file fs repo_root path ''fixture_metadata'') (\<lambda>canonical.
     rbind (read_bytes None fs canonical) (\<lambda>raw.
     rbind (decode_utf8 (Bytes raw) canonical) (\<lambda>text.
     rbind (parse_object text canonical) (\<lambda>obj.
     rbind (reject_unknown obj CAPTURE_METADATA_KEYS canonical) (\<lambda>_.
     rbind (require_nonempty_str obj ''fixture_id'' canonical) (\<lambda>fid.
       if fid \<noteq> fixture_id
       then schema_err (in_msg ''fixture metadata fixture_id mismatch in %s'' canonical)
       else
         rbind (rall (\<lambda>key. rbind (require_nonempty_str obj key canonical) (\<lambda>_. Inr ())) METADATA_TEXT_KEYS) (\<lambda>_.
         rbind (read_bytes None fs canonical) (\<lambda>contents.
           Inr \<lparr>cf_path = canonical, cf_sha256 = digest contents, cf_values = obj\<rparr>))))))))"

text \<open>The argument is \<open>None\<close> for an object that is not a \<open>CaptureBinding\<close>.\<close>

definition verify_capture_fixture_metadata ::
  "(string \<Rightarrow> string) \<Rightarrow> fsys \<Rightarrow> string \<Rightarrow> capture_binding option \<Rightarrow> capture_fixture_metadata result" where
  "verify_capture_fixture_metadata digest fs repo_root binding =
     (case binding of
        None \<Rightarrow> schema_err (text_msg ''validated capture binding is required'')
      | Some cb \<Rightarrow>
          (case map_of (cf_values (cb_fixture_metadata cb)) ''fixture_id'' of
             Some (PStr fid) \<Rightarrow>
               rbind (parse_fixture_metadata digest fs repo_root (cf_path (cb_fixture_metadata cb)) fid) (\<lambda>metadata.
                 if cf_sha256 metadata \<noteq> cf_sha256 (cb_fixture_metadata cb)
                 then schema_err (text_msg ''capture fixture metadata changed after binding validation'')
                 else Inr metadata)
           | Some _ \<Rightarrow>
               rbind (parse_fixture_metadata digest fs repo_root (cf_path (cb_fixture_metadata cb)) []) (\<lambda>metadata.
                 schema_err (in_msg ''fixture metadata fixture_id mismatch in %s'' (cf_path metadata)))
           | None \<Rightarrow> Inl (KeyError (PStr ''fixture_id''))))"

definition parse_mixer :: "pydict \<Rightarrow> string \<Rightarrow> capture_mixer_binding result" where
  "parse_mixer mixer path =
     rbind (reject_unknown mixer CAPTURE_MIXER_KEYS path) (\<lambda>_.
     rbind (require_nonempty_str mixer ''control'' path) (\<lambda>control.
     rbind (require_nonempty_str mixer ''volume'' path) (\<lambda>volume.
     rbind (require_nonempty_str mixer ''capture_switch'' path) (\<lambda>capture_switch.
     rbind (require_nonempty_str mixer ''agc_control'' path) (\<lambda>agc_control.
     rbind (require_nonempty_str mixer ''agc'' path) (\<lambda>agc.
       if capture_switch \<noteq> ''on'' then schema_err (in_msg ''capture mixer capture_switch must be 'on' in %s'' path)
       else if agc \<noteq> ''off'' then schema_err (in_msg ''capture mixer agc must be 'off' in %s'' path)
       else Inr \<lparr>cm_control = control, cm_volume = volume, cm_capture_switch = capture_switch,
                 cm_agc_control = agc_control, cm_agc = agc\<rparr>))))))"

definition parse_capture_binding_role ::
  "(string \<Rightarrow> string) \<Rightarrow> fsys \<Rightarrow> string \<Rightarrow> pyval \<Rightarrow> string \<Rightarrow> string \<Rightarrow> capture_capability \<Rightarrow> capture_binding result" where
  "parse_capture_binding_role digest fs repo_root spec path fixture_id capability =
     (case spec of
        PDict d \<Rightarrow>
          rbind (reject_unknown d CAPTURE_BINDING_ROLE_KEYS path) (\<lambda>_.
          rbind (require_nonempty_str d ''backend'' path) (\<lambda>backend.
          rbind (require (backend = CAPTURE_BACKEND)
                   (HilSchemaError (in_msg2 ''capture backend must be %r in %s'' CAPTURE_BACKEND path))) (\<lambda>_.
          rbind (require_nonempty_str d ''device'' path) (\<lambda>device.
          rbind (require (capture_device_ok device)
                   (HilSchemaError (in_msg ''capture device must be exact direct hw:CARD,DEV in %s'' path))) (\<lambda>_.
          rbind (require_member d ''channels'' path) (\<lambda>channels.
          let expected_channels = (if capability = CAP_MONO then 1 else 2) in
          rbind (require (schema_is_int channels \<and> py_eq channels (PInt expected_channels))
                   (HilSchemaError (Fmt ''capture channels must be %d for %s capability in %s''
                      [AV (PInt expected_channels), AV (PStr (capability_value capability)), AV (PStr path)]))) (\<lambda>_.
          rbind (require_member d ''sample_rate'' path) (\<lambda>sample_rate.
          rbind (require (schema_is_int sample_rate \<and> py_eq sample_rate (PInt CAPTURE_SAMPLE_RATE))
                   (HilSchemaError (Fmt ''capture sample_rate must be %d in %s''
                      [AV (PInt CAPTURE_SAMPLE_RATE), AV (PStr path)]))) (\<lambda>_.
          rbind (require_nonempty_str d ''sample_format'' path) (\<lambda>sample_format.
          rbind (require (sample_format = CAPTURE_SAMPLE_FORMAT)
                   (HilSchemaError (in_msg2 ''capture sample_format must be %r in %s'' CAPTURE_SAMPLE_FORMAT path))) (\<lambda>_.
          rbind (require_member d ''udev'' path) (\<lambda>udev.
          rbind (require (isinstance_dict udev \<and> udev \<noteq> PDict [])
                   (HilSchemaError (in_msg ''capture udev must be a nonempty object in %s'' path))) (\<lambda>_.
          rbind (parse_udev_map (case udev of PDict u \<Rightarrow> u | _ \<Rightarrow> []) path False) (\<lambda>capture_udev.
          rbind (require_member d ''mixer'' path) (\<lambda>mixer.
          rbind (require (isinstance_dict mixer)
                   (HilSchemaError (in_msg ''capture mixer must be an object in %s'' path))) (\<lambda>_.
          rbind (parse_mixer (case mixer of PDict m \<Rightarrow> m | _ \<Rightarrow> []) path) (\<lambda>values.
          rbind (require_nonempty_str d ''fixture_metadata'' path) (\<lambda>metadata_path.
          rbind (parse_fixture_metadata digest fs repo_root metadata_path fixture_id) (\<lambda>metadata.
            Inr \<lparr>cb_backend = backend, cb_device = device, cb_channels = int_value channels,
                 cb_sample_rate = int_value sample_rate, cb_sample_format = sample_format,
                 cb_udev = capture_udev, cb_mixer = values, cb_fixture_metadata = metadata\<rparr>)))))))))))))))))))
      | _ \<Rightarrow> schema_err (in_msg ''capture binding must be an object in %s'' path))"

definition probe_contract_of :: "string \<Rightarrow> logical_role \<Rightarrow> string \<Rightarrow> probe_contract result" where
  "probe_contract_of name role path =
     (if lr_kind role \<noteq> ZEPHYR_KIND then schema_err (in_msg2 ''logical role %r is not a Zephyr DUT in %s'' name path)
      else
        (case (case lr_board role of None \<Rightarrow> None | Some board \<Rightarrow> map_of PROBE_CONTRACTS (name, board)) of
           None \<Rightarrow> schema_err (Fmt ''unsupported logical board %r for role %r in %s''
                     [AV (case lr_board role of None \<Rightarrow> PNone | Some b \<Rightarrow> PStr b), AV (PStr name), AV (PStr path)])
         | Some contract \<Rightarrow> Inr contract))"

text \<open>Lines 586--619: the probe part of a role.\<close>

definition parse_probe :: "string \<Rightarrow> pydict \<Rightarrow> string \<Rightarrow> logical_role \<Rightarrow> probe_binding result" where
  "parse_probe name probe path role =
     (if ''serial'' \<in> set (dict_keys probe) then schema_err (in_msg ''probe serial field is not allowed in %s'' path)
      else
        rbind (reject_unknown probe PROBE_KEYS path) (\<lambda>_.
        rbind (probe_contract_of name role path) (\<lambda>contract.
          if dict_get probe ''backend'' \<noteq> PStr (pc_backend contract)
          then schema_err (in_msg2 ''probe backend mismatch for role %r in %s'' name path)
          else if dict_get probe ''family'' \<noteq> PStr (pc_family contract)
          then schema_err (in_msg2 ''probe family mismatch for role %r in %s'' name path)
          else
            rbind (if ''udev'' \<in> set (dict_keys probe) then
                     (case dict_get probe ''udev'' of
                        PDict u \<Rightarrow>
                          if u = [] then schema_err (in_msg ''probe udev must be a nonempty object in %s'' path)
                          else rbind (parse_udev_map u path False) (\<lambda>m. Inr (Some m))
                      | _ \<Rightarrow> schema_err (in_msg ''probe udev must be a nonempty object in %s'' path))
                   else if pc_probe_udev_required contract
                   then schema_err (in_msg ''probe udev is required for source in %s'' path)
                   else Inr None) (\<lambda>udev.
              Inr \<lparr>pb_backend = pc_backend contract, pb_family = pc_family contract, pb_udev = udev\<rparr>))))"

text \<open>Lines 620--635: the serial part of a role.\<close>

definition parse_serial :: "pydict \<Rightarrow> string \<Rightarrow> serial_binding result" where
  "parse_serial serial path =
     rbind (reject_unknown serial SERIAL_KEYS path) (\<lambda>_.
       let baud = dict_get serial ''baud''; dtr = dict_get serial ''dtr''; rts = dict_get serial ''rts'' in
       if \<not> isinstance_int baud \<or> isinstance_bool baud \<or> int_value baud \<le> 0
       then schema_err (in_msg ''serial baud must be a positive integer in %s'' path)
       else if \<not> isinstance_bool dtr then schema_err (in_msg ''serial dtr must be a boolean in %s'' path)
       else if \<not> isinstance_bool rts then schema_err (in_msg ''serial rts must be a boolean in %s'' path)
       else
         (case dict_get serial ''udev'' of
            PDict u \<Rightarrow>
              rbind (if u \<noteq> [] then parse_udev_map u path True else Inr []) (\<lambda>udev.
                Inr \<lparr>sb_baud = int_value baud, sb_dtr = is_True dtr, sb_rts = is_True rts, sb_udev = udev\<rparr>)
          | _ \<Rightarrow> schema_err (in_msg ''serial udev must be an object in %s'' path)))"

definition parse_binding_role :: "string \<Rightarrow> pyval \<Rightarrow> string \<Rightarrow> logical_role \<Rightarrow> physical_role_binding result" where
  "parse_binding_role name spec path role =
     (case spec of
        PDict d \<Rightarrow>
          rbind (reject_unknown d BINDING_ROLE_KEYS path) (\<lambda>_.
          (case (dict_get d ''probe'', dict_get d ''serial'') of
             (PDict probe, PDict serial) \<Rightarrow>
               rbind (parse_probe name probe path role) (\<lambda>pb.
               rbind (parse_serial serial path) (\<lambda>sb.
                 Inr \<lparr>prb_probe = pb, prb_serial = sb\<rparr>))
           | _ \<Rightarrow> schema_err (in_msg2 ''binding role %r needs probe and serial objects in %s'' name path)))
      | _ \<Rightarrow> schema_err (in_msg2 ''binding role %r must be an object in %s'' name path))"

text \<open>One iteration of the loop of lines 665--673; \<open>roles[name]\<close> and \<open>logical_fixture.roles[name]\<close> raise
  \<open>KeyError\<close> for a missing name.\<close>

definition parse_one_binding ::
  "(string \<Rightarrow> string) \<Rightarrow> fsys \<Rightarrow> string \<Rightarrow> pydict \<Rightarrow> string \<Rightarrow> string \<Rightarrow> logical_fixture \<Rightarrow> string \<Rightarrow> (string \<times> role_binding) result" where
  "parse_one_binding digest fs repo_root roles path fixture_id fixture name =
     (case map_of roles name of
        None \<Rightarrow> Inl (KeyError (PStr name))
      | Some spec \<Rightarrow>
          if name = ''capture'' then
            rbind (parse_capture_binding_role digest fs repo_root spec path fixture_id (lf_capture_capability fixture))
              (\<lambda>b. Inr (name, CaptureRole b))
          else
            (case map_of (lf_roles fixture) name of
               None \<Rightarrow> Inl (KeyError (PStr name))
             | Some role \<Rightarrow> rbind (parse_binding_role name spec path role) (\<lambda>b. Inr (name, ZephyrBinding b))))"

definition parse_physical_binding_bytes ::
  "(string \<Rightarrow> string) \<Rightarrow> fsys \<Rightarrow> string \<Rightarrow> raw_doc \<Rightarrow> string \<Rightarrow> logical_fixture \<Rightarrow> physical_binding result" where
  "parse_physical_binding_bytes digest fs repo_root raw path fixture =
     rbind (decode_utf8 raw path) (\<lambda>text.
     rbind (parse_object text path) (\<lambda>obj.
     rbind (reject_unknown obj BINDING_ROOT_KEYS path) (\<lambda>_.
       let version = dict_get obj ''schema_version'' in
       if \<not> schema_is_int version \<or> \<not> py_eq version (PInt SCHEMA_VERSION)
       then schema_err (Fmt ''schema_version must be %d in %s'' [AV (PInt SCHEMA_VERSION), AV (PStr path)])
       else
         (case dict_get obj ''fixture_id'' of
            PStr fixture_id \<Rightarrow>
              if fixture_id = [] then schema_err (in_msg ''binding fixture_id must be a nonempty string in %s'' path)
              else if fixture_id \<noteq> lf_fixture_id fixture
              then schema_err (in_msg2 ''binding fixture_id %r does not match logical fixture_id %r''
                     fixture_id (lf_fixture_id fixture))
              else
                (case dict_get obj ''roles'' of
                   PDict roles \<Rightarrow>
                     if roles = [] then schema_err (in_msg ''binding roles must be a nonempty object in %s'' path)
                     else if set (dict_keys roles) \<noteq> fst ` set (lf_roles fixture)
                     then schema_err (in_msg ''binding role set mismatch in %s'' path)
                     else
                       rbind (rmap (parse_one_binding digest fs repo_root roles path fixture_id fixture)
                                (sort (dict_keys roles))) (\<lambda>parsed.
                         Inr \<lparr>pbd_schema_version = SCHEMA_VERSION, pbd_fixture_id = fixture_id, pbd_roles = parsed\<rparr>)
                 | _ \<Rightarrow> schema_err (in_msg ''binding roles must be a nonempty object in %s'' path))
          | _ \<Rightarrow> schema_err (in_msg ''binding fixture_id must be a nonempty string in %s'' path)))))"

definition load_physical_binding ::
  "(string \<Rightarrow> string) \<Rightarrow> fsys \<Rightarrow> string \<Rightarrow> string \<Rightarrow> logical_fixture \<Rightarrow> physical_binding result" where
  "load_physical_binding digest fs repo_root path fixture =
     rbind (read_bytes None fs path) (\<lambda>b. parse_physical_binding_bytes digest fs repo_root (Bytes b) path fixture)"

section \<open>Valid documents\<close>

definition wf_zephyr_role :: "logical_role \<Rightarrow> bool" where
  "wf_zephyr_role r \<longleftrightarrow>
     lr_kind r = ZEPHYR_KIND \<and> (\<exists>b. lr_board r = Some b \<and> b \<noteq> []) \<and> lr_images r \<noteq> [] \<and>
     distinct (lr_images r) \<and> [] \<notin> set (lr_images r) \<and> lr_channels r = None"

definition wf_capture_role :: "capture_capability \<Rightarrow> logical_role \<Rightarrow> bool" where
  "wf_capture_role cap r \<longleftrightarrow>
     r = \<lparr>lr_kind = CAPTURE_KIND, lr_board = None, lr_images = [],
          lr_channels = Some (if cap = CAP_MONO then 1 else 2)\<rparr>"

definition expected_roles :: "capture_capability \<Rightarrow> string set" where
  "expected_roles cap = {''receiver'', ''source''} \<union> (if cap = CAP_NONE then {} else {''capture''})"

definition wf_fixture :: "logical_fixture \<Rightarrow> bool" where
  "wf_fixture f \<longleftrightarrow>
     lf_schema_version f = SCHEMA_VERSION \<and> lf_fixture_id f \<noteq> [] \<and>
     distinct (map fst (lf_roles f)) \<and> set (map fst (lf_roles f)) = expected_roles (lf_capture_capability f) \<and>
     (\<forall>(n, r) \<in> set (lf_roles f).
        if n = ''capture'' then wf_capture_role (lf_capture_capability f) r else wf_zephyr_role r)"

lemma schema_is_int_iff: "schema_is_int v \<longleftrightarrow> (\<exists>i. v = PInt i)"
  by (cases v) auto

declare schema_is_int.simps [simp del]

lemma require_nonempty_str_Inr [simp]:
  "require_nonempty_str obj key path = Inr s \<longleftrightarrow> map_of obj key = Some (PStr s) \<and> s \<noteq> []"
  by (auto simp: require_nonempty_str_def require_member_def split: option.splits pyval.splits if_splits)

lemma require_member_Inr [simp]: "require_member obj key path = Inr v \<longleftrightarrow> map_of obj key = Some v"
  by (auto simp: require_member_def split: option.splits)

lemma check_images_Inr:
  "check_images name path seen imgs = Inr out \<longleftrightarrow>
     (\<exists>new. imgs = map PStr new \<and> out = seen @ new \<and> [] \<notin> set new \<and> distinct new \<and> set new \<inter> set seen = {})"
proof (induction name path seen imgs arbitrary: out rule: check_images.induct)
  case (1 name path seen)
  then show ?case by auto
next
  case (2 name path seen img imgs)
  show ?case
  proof (cases img)
    case (PStr s)
    show ?thesis
    proof (cases "s = [] \<or> s \<in> set seen")
      case True
      with PStr show ?thesis by (auto simp: Cons_eq_map_conv)
    next
      case False
      with PStr 2 [OF PStr] show ?thesis by (auto simp: Cons_eq_map_conv)
    qed
  qed (auto simp: Cons_eq_map_conv)
qed

lemma parse_zephyr_role_Inr:
  "parse_zephyr_role name spec path = Inr r \<Longrightarrow> name \<noteq> ''capture'' \<and> wf_zephyr_role r"
proof (cases "dict_get spec ''images''")
  case (PList imgs)
  assume a: "parse_zephyr_role name spec path = Inr r"
  with PList obtain board names where "name \<noteq> ''capture''" "board \<noteq> []" "imgs \<noteq> []"
    "check_images name path [] imgs = Inr names"
    "r = \<lparr>lr_kind = ZEPHYR_KIND, lr_board = Some board, lr_images = names, lr_channels = None\<rparr>"
    by (auto simp: parse_zephyr_role_def split: if_splits)
  then show ?thesis by (auto simp: wf_zephyr_role_def check_images_Inr)
qed (auto simp: parse_zephyr_role_def split: if_splits)

lemma parse_capture_role_Inr:
  "parse_capture_role name spec cap path = Inr r \<Longrightarrow> cap \<noteq> CAP_NONE \<Longrightarrow> name = ''capture'' \<and> wf_capture_role cap r"
  by (cases cap) (auto simp: parse_capture_role_def wf_capture_role_def Let_def split: if_splits)

lemma parse_role_Inr:
  assumes "parse_role name spec cap path = Inr r" and "name = ''capture'' \<Longrightarrow> cap \<noteq> CAP_NONE"
  shows "if name = ''capture'' then wf_capture_role cap r else wf_zephyr_role r"
proof -
  obtain d where "spec = PDict d" using assms(1) by (cases spec) (auto simp: parse_role_def)
  with assms(1) consider "parse_zephyr_role name d path = Inr r" | "parse_capture_role name d cap path = Inr r"
    by (auto simp: parse_role_def split: if_splits)
  then show ?thesis
  proof cases
    case 1
    then show ?thesis using parse_zephyr_role_Inr by auto
  next
    case 2
    then have "name = ''capture''" by (auto simp: parse_capture_role_def split: if_splits)
    with 2 assms(2) parse_capture_role_Inr [of name d cap path r] show ?thesis by simp
  qed
qed

lemma sort_eq_Nil_iff: "sort xs = [] \<longleftrightarrow> xs = []"
  by (metis length_0_conv length_sort)

lemma check_role_names_Inr:
  assumes "check_role_names names cap path = Inr u"
  shows "set names = expected_roles cap"
proof -
  from assms have a: "''receiver'' \<in> set names" "''source'' \<in> set names"
    "''capture'' \<in> set names \<longleftrightarrow> cap \<noteq> CAP_NONE"
    "filter (\<lambda>n. n \<notin> {''receiver'', ''source'', ''capture''}) names = []"
    by (auto simp: check_role_names_def Let_def sort_eq_Nil_iff split: if_splits)
  from a(4) have "set names \<subseteq> {''receiver'', ''source'', ''capture''}" by (auto simp: filter_empty_conv)
  with a(1-3) show ?thesis by (cases "cap = CAP_NONE") (auto simp: expected_roles_def)
qed

lemma rmap_pairs:
  assumes "rmap (\<lambda>(name, spec). rbind (f name spec) (\<lambda>r. Inr (name, r))) rs = Inr out"
  shows "map fst out = map fst rs \<and> (\<forall>(n, r) \<in> set out. \<exists>spec. (n, spec) \<in> set rs \<and> f n spec = Inr r)"
  using assms by (induction rs arbitrary: out) (auto split: prod.splits, fastforce+)

lemma parse_object_distinct: "parse_object doc path = Inr obj \<Longrightarrow> distinct_keys (PDict obj)"
  using json_loads_distinct_keys [of True doc]
  by (auto simp: parse_object_def schema_duplicates_def [abs_def] split: sum.splits exn.splits pyval.splits)

lemma distinct_keys_member: "distinct_keys (PDict obj) \<Longrightarrow> map_of obj k = Some v \<Longrightarrow> distinct_keys v"
  by (auto dest!: map_of_SomeD)

lemma parse_logical_fixture_wf:
  assumes "parse_logical_fixture_bytes raw path = Inr f"
  shows "wf_fixture f"
proof -
  from assms obtain doc obj fid cap roles where
    obj: "parse_object doc path = Inr obj" and r: "map_of obj ''roles'' = Some roles" and fid: "fid \<noteq> []"
    and c: "(case roles of
        PDict rs \<Rightarrow>
          if rs = [] then schema_err (in_msg ''roles must be a nonempty object in %s'' path)
          else
            rbind (check_role_names (dict_keys rs) cap path) (\<lambda>_.
            rbind (rmap (\<lambda>(name, spec). rbind (parse_role name spec cap path) (\<lambda>r. Inr (name, r))) rs) (\<lambda>parsed.
            Inr \<lparr>lf_schema_version = SCHEMA_VERSION, lf_fixture_id = fid,
                 lf_capture_capability = cap, lf_roles = parsed\<rparr>))
      | _ \<Rightarrow> schema_err (in_msg ''roles must be a nonempty object in %s'' path)) = Inr f"
    unfolding parse_logical_fixture_bytes_def Let_def by (auto split: if_splits option.splits)
  from c obtain rs where rs: "roles = PDict rs" by (cases roles) auto
  with c obtain parsed where names: "check_role_names (dict_keys rs) cap path = Inr ()"
    and parsed: "rmap (\<lambda>(name, spec). rbind (parse_role name spec cap path) (\<lambda>r. Inr (name, r))) rs = Inr parsed"
    and f: "f = \<lparr>lf_schema_version = SCHEMA_VERSION, lf_fixture_id = fid, lf_capture_capability = cap, lf_roles = parsed\<rparr>"
    by (auto split: if_splits)
  have roles: "map_of obj ''roles'' = Some (PDict rs)" using r rs by simp
  have "distinct (dict_keys rs)"
    using distinct_keys_member [OF parse_object_distinct [OF obj] roles] by simp
  moreover note rmap_pairs [OF parsed] check_role_names_Inr [OF names]
  moreover have "if n = ''capture'' then wf_capture_role cap r else wf_zephyr_role r" if "(n, r) \<in> set parsed" for n r
  proof -
    from rmap_pairs [OF parsed] that obtain spec where s: "(n, spec) \<in> set rs" "parse_role n spec cap path = Inr r"
      by auto
    have "n \<in> expected_roles cap"
      unfolding check_role_names_Inr [OF names, symmetric] dict_keys_def using s(1) by (simp add: image_iff) force
    then have "n = ''capture'' \<Longrightarrow> cap \<noteq> CAP_NONE" by (auto simp: expected_roles_def)
    with s(2) show ?thesis by (rule parse_role_Inr)
  qed
  ultimately show ?thesis
    using fid by (auto simp: wf_fixture_def f dict_keys_def)
qed

section \<open>Which errors a reader raises\<close>

text \<open>The documented schema error, or the \<open>ValueError\<close> that the integer reader of \<open>json.loads\<close> raises
  for more than 4300 digits.\<close>

fun schema_failure :: "exn \<Rightarrow> bool" where
  "schema_failure (HilSchemaError _) = True"
| "schema_failure (ValueError _) = True"
| "schema_failure _ = False"

lemma decode_utf8_raises [raises_intros]: "raises schema_failure (decode_utf8 raw path)"
  by (cases raw) (simp_all add: raises_def)

lemma parse_object_raises [raises_intros]: "raises schema_failure (parse_object doc path)"
proof (cases "json_loads schema_duplicates doc")
  case (Inl x)
  have "x = JSONDecodeError \<or> (\<exists>k. x = DuplicateKeyError k) \<or> (\<exists>m. x = ValueError m)"
    by (rule json_loads_error [OF _ _ _ Inl]) (auto simp: schema_duplicates_def dest: reject_dup_loop_error)
  with Inl show ?thesis by (auto simp: parse_object_def raises_def)
next
  case (Inr v)
  then show ?thesis by (cases v) (auto simp: parse_object_def raises_def)
qed

lemma reject_unknown_raises [raises_intros]: "raises schema_failure (reject_unknown obj allowed path)"
  unfolding reject_unknown_def by (intro raises_intros) simp

lemma require_member_raises [raises_intros]: "raises schema_failure (require_member obj key path)"
  unfolding require_member_def by (intro raises_intros) simp

lemma require_nonempty_str_raises [raises_intros]: "raises schema_failure (require_nonempty_str obj key path)"
  unfolding require_nonempty_str_def by (intro raises_intros) simp_all

lemma check_images_raises [raises_intros]: "raises schema_failure (check_images name path seen imgs)"
  by (induction name path seen imgs rule: check_images.induct)
     (auto intro!: raises_intros split: pyval.splits)

lemma parse_role_raises [raises_intros]: "raises schema_failure (parse_role name spec cap path)"
  unfolding parse_role_def parse_zephyr_role_def parse_capture_role_def Let_def
  by (intro raises_intros) simp_all

lemma check_role_names_raises [raises_intros]: "raises schema_failure (check_role_names names cap path)"
  unfolding check_role_names_def Let_def by (intro raises_intros) simp_all

lemma parse_logical_fixture_raises:
  "raises schema_failure (parse_logical_fixture_bytes raw path)"
  unfolding parse_logical_fixture_bytes_def Let_def
  by (intro raises_intros) (simp_all add: split_beta raises_intros)

lemma parse_udev_items_raises [raises_intros]: "raises schema_failure (parse_udev_items path b parsed items)"
  by (induction path b parsed items rule: parse_udev_items.induct)
     (auto intro!: raises_intros split: pyval.splits)

lemma parse_udev_map_raises [raises_intros]: "raises schema_failure (parse_udev_map udev path b)"
  unfolding parse_udev_map_def by (intro raises_intros) simp_all

section \<open>Valid bindings\<close>

definition wf_udev :: "bool \<Rightarrow> udev_identity \<Rightarrow> bool" where
  "wf_udev tty u \<longleftrightarrow>
     (\<forall>(k, v) \<in> set u. startswith k ''ID_'' \<and> v \<noteq> [] \<and> \<not> startswith v ''/dev/snd/'' \<and>
        (tty \<longrightarrow> \<not> startswith v ''/dev/tty'')) \<and>
     set UDEV_REQUIRED \<subseteq> fst ` set u \<and> (\<exists>k \<in> set UDEV_OR. k \<in> fst ` set u)"

definition wf_role_binding :: "string \<Rightarrow> logical_role \<Rightarrow> physical_role_binding \<Rightarrow> bool" where
  "wf_role_binding name role b \<longleftrightarrow>
     name \<in> {''receiver'', ''source''} \<and> lr_kind role = ZEPHYR_KIND \<and> lr_board role = Some NRF54L15_CPUAPP_BOARD \<and>
     pb_backend (prb_probe b) = ''nrf-probes'' \<and> pb_family (prb_probe b) = ''nrf54l'' \<and>
     (case pb_udev (prb_probe b) of None \<Rightarrow> True | Some u \<Rightarrow> wf_udev False u) \<and>
     0 < sb_baud (prb_serial b) \<and> (sb_udev (prb_serial b) = [] \<or> wf_udev True (sb_udev (prb_serial b)))"

definition wf_metadata :: "(string \<Rightarrow> string) \<Rightarrow> fsys \<Rightarrow> string \<Rightarrow> string \<Rightarrow> capture_fixture_metadata \<Rightarrow> bool" where
  "wf_metadata digest fs repo_root fixture_id m \<longleftrightarrow>
     (\<exists>contents. read_bytes None fs (cf_path m) = Inr contents \<and> cf_sha256 m = digest contents \<and>
        parse_object contents (cf_path m) = Inr (cf_values m)) \<and>
     map_of (cf_values m) ''fixture_id'' = Some (PStr fixture_id) \<and>
     (\<forall>k \<in> set METADATA_TEXT_KEYS. \<exists>s. s \<noteq> [] \<and> map_of (cf_values m) k = Some (PStr s)) \<and>
     cf_path m \<noteq> realpath fs repo_root \<and> \<not> startswith (cf_path m) (realpath fs repo_root @ [slash])"

definition wf_capture_binding ::
  "(string \<Rightarrow> string) \<Rightarrow> fsys \<Rightarrow> string \<Rightarrow> string \<Rightarrow> capture_capability \<Rightarrow> capture_binding \<Rightarrow> bool" where
  "wf_capture_binding digest fs repo_root fixture_id cap b \<longleftrightarrow>
     cb_backend b = CAPTURE_BACKEND \<and> capture_device_ok (cb_device b) \<and>
     cb_channels b = (if cap = CAP_MONO then 1 else 2) \<and> cb_sample_rate b = CAPTURE_SAMPLE_RATE \<and>
     cb_sample_format b = CAPTURE_SAMPLE_FORMAT \<and> wf_udev False (cb_udev b) \<and>
     cm_capture_switch (cb_mixer b) = ''on'' \<and> cm_agc (cb_mixer b) = ''off'' \<and>
     wf_metadata digest fs repo_root fixture_id (cb_fixture_metadata b)"

definition wf_binding :: "(string \<Rightarrow> string) \<Rightarrow> fsys \<Rightarrow> string \<Rightarrow> logical_fixture \<Rightarrow> physical_binding \<Rightarrow> bool" where
  "wf_binding digest fs repo_root f b \<longleftrightarrow>
     pbd_schema_version b = SCHEMA_VERSION \<and> pbd_fixture_id b = lf_fixture_id f \<and>
     sorted (map fst (pbd_roles b)) \<and> distinct (map fst (pbd_roles b)) \<and>
     set (map fst (pbd_roles b)) = set (map fst (lf_roles f)) \<and>
     (\<forall>(n, rb) \<in> set (pbd_roles b).
        case rb of
          CaptureRole c \<Rightarrow> n = ''capture'' \<and>
            wf_capture_binding digest fs repo_root (lf_fixture_id f) (lf_capture_capability f) c
        | ZephyrBinding z \<Rightarrow> (\<exists>role. map_of (lf_roles f) n = Some role \<and> wf_role_binding n role z))"

lemma parse_udev_items_Inr:
  "parse_udev_items path tty parsed items = Inr out \<Longrightarrow>
     \<exists>new. out = parsed @ new \<and> (\<forall>(k, v) \<in> set new. startswith k ''ID_'' \<and> v \<noteq> [] \<and>
       \<not> startswith v ''/dev/snd/'' \<and> (tty \<longrightarrow> \<not> startswith v ''/dev/tty''))"
proof (induction path tty parsed items rule: parse_udev_items.induct)
  case (2 path tty parsed key val items)
  from 2(2) obtain v where v: "val = PStr v" "startswith key ''ID_''" "v \<noteq> []" "\<not> startswith v ''/dev/snd/''"
    "\<not> (tty \<and> startswith v ''/dev/tty'')" "parse_udev_items path tty (parsed @ [(key, v)]) items = Inr out"
    "key \<notin> set UDEV_FORBIDDEN"
    by (cases val) (auto split: if_splits)
  from 2(1) [OF v(7) _ v(1,3,4,5,6)] v(2) obtain new where new: "out = (parsed @ [(key, v)]) @ new"
    "\<forall>(k, v) \<in> set new. startswith k ''ID_'' \<and> v \<noteq> [] \<and> \<not> startswith v ''/dev/snd/'' \<and> (tty \<longrightarrow> \<not> startswith v ''/dev/tty'')"
    by auto
  with v show ?case by (intro exI [of _ "(key, v) # new"]) auto
qed simp

lemma parse_udev_map_Inr: "parse_udev_map udev path tty = Inr u \<Longrightarrow> wf_udev tty u"
  using parse_udev_items_Inr [of path tty "[]" udev]
  by (auto simp: parse_udev_map_def wf_udev_def list_ex_iff split: if_splits)

lemma probe_contract_of_Inr:
  assumes "probe_contract_of name role path = Inr c"
  shows "name \<in> {''receiver'', ''source''}" "lr_kind role = ZEPHYR_KIND" "lr_board role = Some NRF54L15_CPUAPP_BOARD"
    "pc_backend c = ''nrf-probes''" "pc_family c = ''nrf54l''"
  using assms by (auto simp: probe_contract_of_def PROBE_CONTRACTS_def split: if_splits option.splits)

lemma parse_probe_Inr:
  assumes "parse_probe name probe path role = Inr pb"
  shows "\<exists>c. probe_contract_of name role path = Inr c \<and> pb_backend pb = pc_backend c \<and> pb_family pb = pc_family c \<and>
    (case pb_udev pb of None \<Rightarrow> True | Some u \<Rightarrow> wf_udev False u)"
proof -
  from assms obtain c udev where c: "probe_contract_of name role path = Inr c"
    and pb: "pb = \<lparr>pb_backend = pc_backend c, pb_family = pc_family c, pb_udev = udev\<rparr>"
    and u: "(if ''udev'' \<in> set (dict_keys probe) then
              (case dict_get probe ''udev'' of
                 PDict u \<Rightarrow>
                   if u = [] then schema_err (in_msg ''probe udev must be a nonempty object in %s'' path)
                   else rbind (parse_udev_map u path False) (\<lambda>m. Inr (Some m))
               | _ \<Rightarrow> schema_err (in_msg ''probe udev must be a nonempty object in %s'' path))
            else if pc_probe_udev_required c
            then schema_err (in_msg ''probe udev is required for source in %s'' path)
            else Inr None) = Inr udev"
    unfolding parse_probe_def by (auto split: if_splits)
  have "case udev of None \<Rightarrow> True | Some u \<Rightarrow> wf_udev False u"
    using u parse_udev_map_Inr by (cases "dict_get probe ''udev''") (auto split: if_splits option.splits)
  with c pb show ?thesis by simp
qed

lemma parse_serial_Inr:
  assumes "parse_serial serial path = Inr sb"
  shows "0 < sb_baud sb \<and> (sb_udev sb = [] \<or> wf_udev True (sb_udev sb))"
  using assms parse_udev_map_Inr [of _ path True]
  by (cases "dict_get serial ''udev''") (auto simp: parse_serial_def Let_def split: if_splits)

lemma parse_binding_role_Inr:
  assumes "parse_binding_role name spec path role = Inr b"
  shows "wf_role_binding name role b"
proof -
  obtain d where d: "spec = PDict d" using assms by (cases spec) (auto simp: parse_binding_role_def)
  with assms obtain probe serial where ps: "dict_get d ''probe'' = PDict probe" "dict_get d ''serial'' = PDict serial"
    by (cases "dict_get d ''probe''"; cases "dict_get d ''serial''") (auto simp: parse_binding_role_def)
  with assms d obtain pb sb where "parse_probe name probe path role = Inr pb" "parse_serial serial path = Inr sb"
    and b: "b = \<lparr>prb_probe = pb, prb_serial = sb\<rparr>"
    by (auto simp: parse_binding_role_def)
  from parse_probe_Inr [OF this(1)] parse_serial_Inr [OF this(2)] b show ?thesis
    using probe_contract_of_Inr [of name role path] by (auto simp: wf_role_binding_def)
qed

lemma require_external_regular_file_Inr:
  assumes "require_external_regular_file fs repo path label = Inr c"
  shows "\<exists>b. read_bytes None fs c = Inr b" "c \<noteq> realpath fs repo" "\<not> startswith c (realpath fs repo @ [slash])"
  using assms by (auto simp: require_external_regular_file_def read_bytes_def Let_def
      split: if_splits prod.splits option.splits node.splits)

lemma decode_utf8_Inr: "decode_utf8 (Bytes raw) path = Inr doc \<Longrightarrow> doc = raw"
  by (auto split: if_splits)

lemma parse_fixture_metadata_Inr:
  assumes "parse_fixture_metadata digest fs repo path fid = Inr m"
  shows "wf_metadata digest fs repo fid m"
proof -
  from assms obtain c raw obj where c: "require_external_regular_file fs repo path ''fixture_metadata'' = Inr c"
    and raw: "read_bytes None fs c = Inr raw" and obj: "parse_object raw c = Inr obj"
    and m: "m = \<lparr>cf_path = c, cf_sha256 = digest raw, cf_values = obj\<rparr>"
    and keys: "map_of obj ''fixture_id'' = Some (PStr fid)"
      "\<forall>k \<in> set METADATA_TEXT_KEYS. \<exists>s. map_of obj k = Some (PStr s) \<and> s \<noteq> []"
    unfolding parse_fixture_metadata_def
    by (auto simp del: decode_utf8.simps split: if_splits dest!: decode_utf8_Inr)
  with require_external_regular_file_Inr [OF c] show ?thesis by (auto simp: wf_metadata_def)
qed

lemma parse_mixer_Inr:
  "parse_mixer mixer path = Inr m \<Longrightarrow> cm_capture_switch m = ''on'' \<and> cm_agc m = ''off''"
  by (auto simp: parse_mixer_def split: if_splits)

lemma parse_capture_binding_role_Inr:
  assumes "parse_capture_binding_role digest fs repo spec path fid cap = Inr b"
  shows "wf_capture_binding digest fs repo fid cap b"
proof -
  obtain d where "spec = PDict d" using assms by (cases spec) (auto simp: parse_capture_binding_role_def)
  with assms show ?thesis
    by (auto simp: parse_capture_binding_role_def wf_capture_binding_def Let_def schema_is_int_iff
        dest!: parse_udev_map_Inr parse_mixer_Inr parse_fixture_metadata_Inr)
qed

lemma parse_one_binding_Inr:
  assumes "parse_one_binding digest fs repo roles path fid f name = Inr (n, rb)"
  shows "n = name \<and> (case rb of
      CaptureRole c \<Rightarrow> n = ''capture'' \<and> wf_capture_binding digest fs repo fid (lf_capture_capability f) c
    | ZephyrBinding z \<Rightarrow> (\<exists>role. map_of (lf_roles f) n = Some role \<and> wf_role_binding n role z))"
  using assms by (auto simp: parse_one_binding_def split: option.splits if_splits
      dest!: parse_capture_binding_role_Inr parse_binding_role_Inr)

lemma parse_physical_binding_Inr:
  assumes "parse_physical_binding_bytes digest fs repo raw path f = Inr b"
  obtains doc obj roles parsed where "parse_object doc path = Inr obj" "dict_get obj ''roles'' = PDict roles"
    "set (dict_keys roles) = fst ` set (lf_roles f)" "lf_fixture_id f \<noteq> []"
    "rmap (parse_one_binding digest fs repo roles path (lf_fixture_id f) f) (sort (dict_keys roles)) = Inr parsed"
    "b = \<lparr>pbd_schema_version = SCHEMA_VERSION, pbd_fixture_id = lf_fixture_id f, pbd_roles = parsed\<rparr>"
proof -
  from assms obtain doc obj where obj: "parse_object doc path = Inr obj" and
    c: "(case dict_get obj ''fixture_id'' of
            PStr fixture_id \<Rightarrow>
              if fixture_id = [] then schema_err (in_msg ''binding fixture_id must be a nonempty string in %s'' path)
              else if fixture_id \<noteq> lf_fixture_id f
              then schema_err (in_msg2 ''binding fixture_id %r does not match logical fixture_id %r''
                     fixture_id (lf_fixture_id f))
              else
                (case dict_get obj ''roles'' of
                   PDict roles \<Rightarrow>
                     if roles = [] then schema_err (in_msg ''binding roles must be a nonempty object in %s'' path)
                     else if set (dict_keys roles) \<noteq> fst ` set (lf_roles f)
                     then schema_err (in_msg ''binding role set mismatch in %s'' path)
                     else
                       rbind (rmap (parse_one_binding digest fs repo roles path fixture_id f)
                                (sort (dict_keys roles))) (\<lambda>parsed.
                         Inr \<lparr>pbd_schema_version = SCHEMA_VERSION, pbd_fixture_id = fixture_id, pbd_roles = parsed\<rparr>)
                 | _ \<Rightarrow> schema_err (in_msg ''binding roles must be a nonempty object in %s'' path))
          | _ \<Rightarrow> schema_err (in_msg ''binding fixture_id must be a nonempty string in %s'' path)) = Inr b"
    unfolding parse_physical_binding_bytes_def Let_def by (auto split: if_splits)
  then obtain fid where "dict_get obj ''fixture_id'' = PStr fid" by (cases "dict_get obj ''fixture_id''") auto
  moreover from this c obtain roles where "dict_get obj ''roles'' = PDict roles"
    by (cases "dict_get obj ''roles''") (auto split: if_splits)
  ultimately show ?thesis using c obj that by (auto split: if_splits)
qed

lemma parse_physical_binding_wf:
  assumes "parse_physical_binding_bytes digest fs repo raw path f = Inr b"
  shows "wf_binding digest fs repo f b"
proof -
  from parse_physical_binding_Inr [OF assms] obtain doc obj roles parsed where
    obj: "parse_object doc path = Inr obj" and roles: "dict_get obj ''roles'' = PDict roles"
    and names: "set (dict_keys roles) = fst ` set (lf_roles f)"
    and parsed: "rmap (parse_one_binding digest fs repo roles path (lf_fixture_id f) f) (sort (dict_keys roles)) = Inr parsed"
    and b: "b = \<lparr>pbd_schema_version = SCHEMA_VERSION, pbd_fixture_id = lf_fixture_id f, pbd_roles = parsed\<rparr>" .
  have "map_of obj ''roles'' = Some (PDict roles)" using roles by (auto simp: dict_get_def split: option.splits)
  then have dist: "distinct (dict_keys roles)"
    using distinct_keys_member [OF parse_object_distinct [OF obj]] by fastforce
  from parsed have all2: "list_all2 (\<lambda>n p. parse_one_binding digest fs repo roles path (lf_fixture_id f) f n = Inr p)
    (sort (dict_keys roles)) parsed" by (simp add: rmap_eq_Inr)
  then have keys: "map fst parsed = sort (dict_keys roles)"
    by (rule list_all2_induct) (auto dest: parse_one_binding_Inr)
  have "case rb of
      CaptureRole c \<Rightarrow> n = ''capture'' \<and> wf_capture_binding digest fs repo (lf_fixture_id f) (lf_capture_capability f) c
    | ZephyrBinding z \<Rightarrow> (\<exists>role. map_of (lf_roles f) n = Some role \<and> wf_role_binding n role z)"
    if "(n, rb) \<in> set parsed" for n rb
    using that all2 parse_one_binding_Inr by (auto simp: list_all2_conv_all_nth in_set_conv_nth)
  with keys dist names show ?thesis by (auto simp: wf_binding_def b)
qed

lemma require_external_regular_file_raises [raises_intros]:
  "raises schema_failure (require_external_regular_file fs repo path label)"
  by (auto simp: require_external_regular_file_def raises_def Let_def split: prod.splits option.splits node.splits)

lemma parse_fixture_metadata_raises [raises_intros]:
  "raises schema_failure (parse_fixture_metadata digest fs repo path fid)"
proof -
  have "raises schema_failure (read_bytes None fs c)"
    if "require_external_regular_file fs repo path ''fixture_metadata'' = Inr c" for c
    using require_external_regular_file_Inr(1) [OF that] by (auto simp: raises_def)
  then show ?thesis
    unfolding parse_fixture_metadata_def by (intro raises_intros) simp_all
qed

lemma parse_mixer_raises [raises_intros]: "raises schema_failure (parse_mixer mixer path)"
  unfolding parse_mixer_def by (intro raises_intros) simp_all

lemma parse_capture_binding_role_raises [raises_intros]:
  "raises schema_failure (parse_capture_binding_role digest fs repo spec path fid cap)"
  unfolding parse_capture_binding_role_def Let_def by (intro raises_intros) simp_all

lemma parse_binding_role_raises [raises_intros]:
  "raises schema_failure (parse_binding_role name spec path role)"
proof -
  have "raises schema_failure (parse_probe name probe path role)" for probe
    unfolding parse_probe_def probe_contract_of_def by (intro raises_intros) simp_all
  moreover have "raises schema_failure (parse_serial serial path)" for serial
    unfolding parse_serial_def Let_def by (intro raises_intros) simp_all
  ultimately show ?thesis
    unfolding parse_binding_role_def prod.case by (intro raises_intros) simp_all
qed

lemma parse_one_binding_raises:
  assumes "set (dict_keys roles) = fst ` set (lf_roles f)" and "n \<in> set (dict_keys roles)"
  shows "raises schema_failure (parse_one_binding digest fs repo roles path fid f n)"
proof -
  from assms have "map_of roles n \<noteq> None" "map_of (lf_roles f) n \<noteq> None"
    by (auto simp: dict_keys_def map_of_eq_None_iff)
  then show ?thesis unfolding parse_one_binding_def by (intro raises_intros) auto
qed

lemma parse_physical_binding_raises:
  "raises schema_failure (parse_physical_binding_bytes digest fs repo raw path f)"
  unfolding parse_physical_binding_bytes_def Let_def
  by (intro raises_intros) (simp_all add: parse_one_binding_raises)

section \<open>Writing a fixture\<close>

text \<open>The JSON document of a fixture.\<close>

definition role_spec :: "logical_role \<Rightarrow> pydict" where
  "role_spec r =
     (if lr_kind r = ZEPHYR_KIND
      then [(''kind'', PStr ZEPHYR_KIND), (''board'', PStr (the (lr_board r))), (''images'', PList (map PStr (lr_images r)))]
      else [(''kind'', PStr CAPTURE_KIND), (''channels'', PInt (the (lr_channels r)))])"

definition fixture_dict :: "logical_fixture \<Rightarrow> pydict" where
  "fixture_dict f =
     [(''schema_version'', PInt (lf_schema_version f)), (''fixture_id'', PStr (lf_fixture_id f)),
      (''capture_capability'', PStr (capability_value (lf_capture_capability f))),
      (''roles'', PDict (map (\<lambda>(n, r). (n, PDict (role_spec r))) (lf_roles f)))]"

lemma kinds_differ: "CAPTURE_KIND \<noteq> ZEPHYR_KIND"
  by (simp add: CAPTURE_KIND_def ZEPHYR_KIND_def)

lemma parse_role_spec:
  assumes "if n = ''capture'' then wf_capture_role cap r else wf_zephyr_role r"
    and "n = ''capture'' \<Longrightarrow> cap \<noteq> CAP_NONE"
  shows "parse_role n (PDict (role_spec r)) cap path = Inr r"
proof (cases "n = ''capture''")
  case True
  with assms show ?thesis
    by (cases cap)
       (simp_all add: wf_capture_role_def role_spec_def parse_role_def parse_capture_role_def reject_unknown_def
         CAPTURE_ROLE_KEYS_def dict_keys_def dict_get_def kinds_differ Let_def)
next
  case False
  with assms obtain b imgs where r: "r = \<lparr>lr_kind = ZEPHYR_KIND, lr_board = Some b, lr_images = imgs, lr_channels = None\<rparr>"
    "b \<noteq> []" "imgs \<noteq> []" "distinct imgs" "[] \<notin> set imgs"
    by (cases r) (auto simp: wf_zephyr_role_def)
  have "check_images n path [] (map PStr imgs) = Inr imgs"
    using r(4,5) by (simp add: check_images_Inr)
  with False r show ?thesis
    by (simp add: role_spec_def parse_role_def parse_zephyr_role_def reject_unknown_def ZEPHYR_ROLE_KEYS_def
        dict_keys_def dict_get_def require_nonempty_str_def require_member_def)
qed

lemma rmap_role_specs:
  assumes "\<And>n r. (n, r) \<in> set rs \<Longrightarrow> parse_role n (PDict (role_spec r)) cap path = Inr r"
  shows "rmap (\<lambda>(name, spec). rbind (parse_role name spec cap path) (\<lambda>r. Inr (name, r)))
    (map (\<lambda>(n, r). (n, PDict (role_spec r))) rs) = Inr rs"
  using assms by (induction rs) (auto split: prod.splits)

lemma capability_of_value: "capability_of (PStr (capability_value cap)) = Some cap"
  by (cases cap) (simp_all add: capability_of_def)

lemma check_role_names_expected:
  assumes "set names = expected_roles cap"
  shows "check_role_names names cap path = Inr ()"
proof -
  have "filter (\<lambda>n. n \<notin> {''receiver'', ''source'', ''capture''}) names = []"
    using assms by (auto simp: filter_empty_conv expected_roles_def)
  moreover have "''receiver'' \<in> set names" "''source'' \<in> set names" "''capture'' \<in> set names \<longleftrightarrow> cap \<noteq> CAP_NONE"
    using assms by (auto simp: expected_roles_def)
  ultimately show ?thesis by (simp add: check_role_names_def sort_eq_Nil_iff)
qed

text \<open>A document that was written is decoded and parsed to the dictionary it was written from.\<close>

lemma written_doc:
  assumes plain: "plain_json (PDict d)" and sep: "separators isep ksep"
    and ascii: "list_all printable isep" "list_all printable ksep" and b: "\<forall>c \<in> set b. json_space c"
  defines "doc \<equiv> json_dumps (\<lambda>_. []) isep ksep (PDict d) @ b"
  shows "decode_utf8 (Bytes doc) path = Inr doc" and "parse_object doc path = Inr d"
proof -
  have low: "of_char c < (128 :: nat)" if "printable c \<or> json_space c" for c
    using that by (auto simp: printable_def json_space_def)
  have "\<forall>c \<in> set doc. printable c \<or> json_space c"
    using printable_dumps [OF plain ascii, of "\<lambda>_. []"] b
    by (auto simp: doc_def list_all_iff simp del: json_dumps.simps)
  with low have "is_ascii doc" by (simp add: is_ascii_def)
  then show "decode_utf8 (Bytes doc) path = Inr doc" by (simp add: utf8_valid_ascii)
  have "json_loads schema_duplicates doc = Inr (PDict d)"
    unfolding doc_def using plain sep _ b
  proof (rule json_loads_dumps_blanks)
    show "schema_duplicates d = Inr d" if "distinct (dict_keys d)" for d
      using that reject_dup_loop_distinct [of "[]" d] by (simp add: schema_duplicates_def dict_keys_def)
  qed
  then show "parse_object doc path = Inr d" by (simp add: parse_object_def)
qed

lemma fixture_dict_parses:
  assumes wf: "wf_fixture f" and plain: "plain_json (PDict (fixture_dict f))" and sep: "separators isep ksep"
    and ascii: "list_all printable isep" "list_all printable ksep" and b: "\<forall>c \<in> set b. json_space c"
  shows "parse_logical_fixture_bytes (Bytes (json_dumps (\<lambda>_. []) isep ksep (PDict (fixture_dict f)) @ b)) path = Inr f"
proof -
  let ?doc = "json_dumps (\<lambda>_. []) isep ksep (PDict (fixture_dict f)) @ b"
  let ?rs = "map (\<lambda>(n, r). (n, PDict (role_spec r))) (lf_roles f)"
  let ?cap = "lf_capture_capability f"
  have dec: "decode_utf8 (Bytes ?doc) path = Inr ?doc" and obj: "parse_object ?doc path = Inr (fixture_dict f)"
    using assms(2-) by (rule written_doc)+
  have keys: "dict_keys ?rs = map fst (lf_roles f)" by (auto simp: dict_keys_def)
  have names: "check_role_names (dict_keys ?rs) ?cap path = Inr ()"
    unfolding keys using wf by (intro check_role_names_expected) (simp add: wf_fixture_def)
  have w: "set (map fst (lf_roles f)) = expected_roles ?cap" using wf unfolding wf_fixture_def by (elim conjE)
  have "''receiver'' \<in> set (map fst (lf_roles f))" unfolding w by (simp add: expected_roles_def)
  then have ne: "?rs \<noteq> []" by (cases "lf_roles f") auto
  have roles: "rmap (\<lambda>(name, spec). rbind (parse_role name spec ?cap path) (\<lambda>r. Inr (name, r))) ?rs = Inr (lf_roles f)"
  proof (rule rmap_role_specs, rule parse_role_spec)
    fix n r assume nr: "(n, r) \<in> set (lf_roles f)"
    then show "if n = ''capture'' then wf_capture_role ?cap r else wf_zephyr_role r"
      using wf by (auto simp: wf_fixture_def)
    have "n \<in> expected_roles ?cap" unfolding w [symmetric] using nr by (force simp: image_iff)
    then show "n = ''capture'' \<Longrightarrow> ?cap \<noteq> CAP_NONE" by (auto simp: expected_roles_def)
  qed
  show ?thesis
    unfolding parse_logical_fixture_bytes_def
    using dec obj names ne roles wf capability_of_value [of ?cap]
    by (simp add: fixture_dict_def reject_unknown_def FIXTURE_ROOT_KEYS_def dict_keys_def dict_get_def
        require_nonempty_str_def require_member_def wf_fixture_def schema_is_int.simps SCHEMA_VERSION_def
        del: decode_utf8.simps json_dumps.simps)
qed

section \<open>Properties\<close>

definition example_fixture :: logical_fixture where
  "example_fixture = \<lparr>lf_schema_version = 1, lf_fixture_id = ''lab-1'', lf_capture_capability = CAP_NONE,
     lf_roles =
       [(''receiver'', \<lparr>lr_kind = ZEPHYR_KIND, lr_board = Some NRF54L15_CPUAPP_BOARD, lr_images = [''app''], lr_channels = None\<rparr>),
        (''source'', \<lparr>lr_kind = ZEPHYR_KIND, lr_board = Some NRF54L15_CPUAPP_BOARD, lr_images = [''app'', ''net''], lr_channels = None\<rparr>)]\<rparr>"

lemma example_fixture_wf: "wf_fixture example_fixture"
  by (auto simp: wf_fixture_def example_fixture_def SCHEMA_VERSION_def expected_roles_def wf_zephyr_role_def
      NRF54L15_CPUAPP_BOARD_def)

lemma example_fixture_plain: "plain_json (PDict (fixture_dict example_fixture))"
  by (simp add: fixture_dict_def example_fixture_def role_spec_def ZEPHYR_KIND_def NRF54L15_CPUAPP_BOARD_def dict_keys_def
      is_ascii_def plain_json_small_int del: plain_json.simps(3))

abbreviation example_doc :: string where
  "example_doc \<equiv> json_dumps (\<lambda>_. []) '','' '':'' (PDict (fixture_dict example_fixture)) @ []"

lemma example_doc_parses: "parse_logical_fixture_bytes (Bytes example_doc) ''f.json'' = Inr example_fixture"
  using example_fixture_wf example_fixture_plain
  by (rule fixture_dict_parses) (simp_all add: separators_def printable_def)

text \<open>A stereo fixture, its binding document and the metadata file.\<close>

definition stereo_fixture :: logical_fixture where
  "stereo_fixture = example_fixture\<lparr>lf_capture_capability := CAP_STEREO,
     lf_roles := lf_roles example_fixture @
       [(''capture'', \<lparr>lr_kind = CAPTURE_KIND, lr_board = None, lr_images = [], lr_channels = Some 2\<rparr>)]\<rparr>"

definition example_udev :: pyval where
  "example_udev = PDict [(''ID_VENDOR_ID'', PStr ''1366''), (''ID_MODEL_ID'', PStr ''1061''), (''ID_PATH'', PStr ''pci-0'')]"

definition example_role :: pyval where
  "example_role =
     PDict [(''probe'', PDict [(''backend'', PStr ''nrf-probes''), (''family'', PStr ''nrf54l'')]),
            (''serial'', PDict [(''baud'', PInt 115200), (''dtr'', PBool True), (''rts'', PBool False), (''udev'', example_udev)])]"

definition example_capture :: pyval where
  "example_capture =
     PDict [(''backend'', PStr ''alsa''), (''device'', PStr ''hw:USB,0''), (''channels'', PInt 2), (''sample_rate'', PInt 48000),
            (''sample_format'', PStr ''S16_LE''), (''udev'', example_udev),
            (''mixer'', PDict [(''control'', PStr ''Mic''), (''volume'', PStr ''0''), (''capture_switch'', PStr ''on''),
                             (''agc_control'', PStr ''AGC''), (''agc'', PStr ''off'')]),
            (''fixture_metadata'', PStr ''/lab/meta.json'')]"

definition example_binding_dict :: pydict where
  "example_binding_dict =
     [(''schema_version'', PInt 1), (''fixture_id'', PStr ''lab-1''),
      (''roles'', PDict [(''source'', example_role), (''receiver'', example_role), (''capture'', example_capture)])]"

definition example_metadata :: pydict where
  "example_metadata = (''fixture_id'', PStr ''lab-1'') # map (\<lambda>k. (k, PStr ''x'')) METADATA_TEXT_KEYS"

abbreviation written :: "pydict \<Rightarrow> string" where
  "written d \<equiv> json_dumps (\<lambda>_. []) '','' '':'' (PDict d) @ []"

definition lab_fs :: "string \<Rightarrow> fsys" where
  "lab_fs contents = [([''lab''], Dir), ([''lab'', ''meta.json''], File contents)]"

lemma written_example:
  assumes "plain_json (PDict d)"
  shows "decode_utf8 (Bytes (written d)) path = Inr (written d)" "parse_object (written d) path = Inr d"
  using assms by (rule written_doc; simp add: separators_def printable_def)+

lemma example_metadata_parses:
  "parse_fixture_metadata digest (lab_fs (written example_metadata)) ''/repo'' ''/lab/meta.json'' ''lab-1'' =
     Inr \<lparr>cf_path = ''/lab/meta.json'', cf_sha256 = digest (written example_metadata), cf_values = example_metadata\<rparr>"
proof -
  have "require_external_regular_file (lab_fs contents) ''/repo'' ''/lab/meta.json'' ''fixture_metadata'' =
    Inr ''/lab/meta.json''" for contents by code_simp
  moreover have "resolve_all (lab_fs contents) (comps ''/lab/meta.json'') = ([''lab'', ''meta.json''], True)" for contents
    by code_simp
  moreover have "plain_json (PDict example_metadata)"
    by (simp add: example_metadata_def METADATA_TEXT_KEYS_def dict_keys_def is_ascii_def)
  note written_example [OF this, of "''/lab/meta.json''"]
  ultimately show ?thesis
    by (simp add: parse_fixture_metadata_def read_bytes_def lab_fs_def node_at_def reject_unknown_def
        CAPTURE_METADATA_KEYS_def METADATA_TEXT_KEYS_def example_metadata_def require_nonempty_str_def
        require_member_def dict_keys_def del: decode_utf8.simps json_dumps.simps)
qed

text \<open>a logical fixture that loads is valid: schema version 1, a fixture id, exactly the roles
  \<open>receiver\<close> and \<open>source\<close>, with \<open>capture\<close> if and only if there is a capture capability, each once, and
  each role of its kind with all its fields: board and distinct image names, or the channel count that
  the capability prescribes.\<close>

theorem logical_fixture_wf:
  "parse_logical_fixture_bytes raw path = Inr f \<Longrightarrow> wf_fixture f"
  by (rule parse_logical_fixture_wf)

theorem logical_fixture_wf_witness:
  "parse_logical_fixture_bytes (Bytes example_doc) ''f.json'' = Inr example_fixture \<and> wf_fixture example_fixture"
  using logical_fixture_wf [OF example_doc_parses] example_doc_parses by blast

text \<open>every valid fixture can be written and loads back unchanged, in any JSON layout of its document.\<close>

theorem logical_fixture_round_trip:
  assumes "wf_fixture f" and "plain_json (PDict (fixture_dict f))" and "separators isep ksep"
    and "list_all printable isep" and "list_all printable ksep" and "\<forall>c \<in> set b. json_space c"
  shows "parse_logical_fixture_bytes (Bytes (json_dumps (\<lambda>_. []) isep ksep (PDict (fixture_dict f)) @ b)) path = Inr f"
  using assms by (rule fixture_dict_parses)

theorem logical_fixture_round_trip_witness:
  "parse_logical_fixture_bytes (Bytes example_doc) ''f.json'' = Inr example_fixture"
  using example_fixture_wf example_fixture_plain
  by (rule logical_fixture_round_trip) (simp_all add: separators_def printable_def)


lemma example_capture_parses:
  "\<exists>b. parse_capture_binding_role digest (lab_fs (written example_metadata)) ''/repo'' example_capture ''b.json'' ''lab-1'' CAP_STEREO = Inr b"
proof -
  have "parse_udev_map [(''ID_VENDOR_ID'', PStr ''1366''), (''ID_MODEL_ID'', PStr ''1061''), (''ID_PATH'', PStr ''pci-0'')] ''b.json'' False =
    Inr [(''ID_VENDOR_ID'', ''1366''), (''ID_MODEL_ID'', ''1061''), (''ID_PATH'', ''pci-0'')]" by code_simp
  moreover have "capture_device_ok ''hw:USB,0''" by code_simp
  ultimately show ?thesis
    using example_metadata_parses [of digest]
    by (simp add: parse_capture_binding_role_def example_capture_def example_udev_def reject_unknown_def
        CAPTURE_BINDING_ROLE_KEYS_def require_nonempty_str_def require_member_def parse_mixer_def
        CAPTURE_MIXER_KEYS_def dict_keys_def CAPTURE_BACKEND_def CAPTURE_SAMPLE_RATE_def CAPTURE_SAMPLE_FORMAT_def
        schema_is_int.simps Let_def del: json_dumps.simps)
qed

lemma example_role_parses:
  assumes "name = ''receiver'' \<or> name = ''source''" and "lr_kind role = ZEPHYR_KIND" and "lr_board role = Some NRF54L15_CPUAPP_BOARD"
  shows "\<exists>b. parse_binding_role name example_role ''b.json'' role = Inr b"
proof -
  have "parse_udev_map [(''ID_VENDOR_ID'', PStr ''1366''), (''ID_MODEL_ID'', PStr ''1061''), (''ID_PATH'', PStr ''pci-0'')] ''b.json'' True =
    Inr [(''ID_VENDOR_ID'', ''1366''), (''ID_MODEL_ID'', ''1061''), (''ID_PATH'', ''pci-0'')]" by code_simp
  with assms show ?thesis
    by (auto simp: parse_binding_role_def example_role_def example_udev_def reject_unknown_def BINDING_ROLE_KEYS_def
        dict_keys_def dict_get_def parse_probe_def PROBE_KEYS_def probe_contract_of_def PROBE_CONTRACTS_def
        parse_serial_def SERIAL_KEYS_def Let_def)
qed

lemma sort_literals: "sort [''source'', ''receiver'', ''capture''] = [''capture'', ''receiver'', ''source'']"
  by (simp add: less_char_def)

lemma example_binding_parses:
  "\<exists>b. parse_physical_binding_bytes digest (lab_fs (written example_metadata)) ''/repo'' (Bytes (written example_binding_dict))
     ''b.json'' stereo_fixture = Inr b"
proof -
  have "plain_json (PDict example_binding_dict)"
    by (simp add: example_binding_dict_def example_role_def example_capture_def example_udev_def dict_keys_def is_ascii_def
        plain_json_small_int del: plain_json.simps(3))
  note doc = written_example [OF this, of "''b.json''"]
  have sorted: "sort [''source'', ''receiver'', ''capture''] = [''capture'', ''receiver'', ''source'']"
    by (rule sort_literals)
  obtain c where c: "parse_capture_binding_role digest (lab_fs (written example_metadata)) ''/repo'' example_capture ''b.json'' ''lab-1'' CAP_STEREO = Inr c"
    using example_capture_parses by blast
  obtain r s where "parse_binding_role ''receiver'' example_role ''b.json''
      \<lparr>lr_kind = ZEPHYR_KIND, lr_board = Some NRF54L15_CPUAPP_BOARD, lr_images = [''app''], lr_channels = None\<rparr> = Inr r"
    "parse_binding_role ''source'' example_role ''b.json''
      \<lparr>lr_kind = ZEPHYR_KIND, lr_board = Some NRF54L15_CPUAPP_BOARD, lr_images = [''app'', ''net''], lr_channels = None\<rparr> = Inr s"
    using example_role_parses by (metis logical_role.select_convs(1,2))
  with c doc sorted show ?thesis
    by (simp add: parse_physical_binding_bytes_def example_binding_dict_def reject_unknown_def BINDING_ROOT_KEYS_def
        dict_keys_def dict_get_def schema_is_int.simps SCHEMA_VERSION_def stereo_fixture_def example_fixture_def
        parse_one_binding_def Let_def insert_commute del: decode_utf8.simps json_dumps.simps sort_key_simps)
qed


text \<open>both readers fail closed: whatever the bytes, they return a document or raise
  \<open>HilSchemaError\<close>, or the \<open>ValueError\<close> of the integer reader; no other exception escapes.\<close>

theorem schema_readers_fail_closed:
  "raises schema_failure (parse_logical_fixture_bytes raw path) \<and>
   raises schema_failure (parse_physical_binding_bytes digest fs repo raw path f)"
  by (simp add: parse_logical_fixture_raises parse_physical_binding_raises)

text \<open>re-reading the capture metadata succeeds only when the file still has the digest recorded in the
  binding and still is a valid metadata document of the same fixture.\<close>

theorem verify_metadata_sound:
  assumes "wf_capture_binding digest fs repo fid cap b"
    and "verify_capture_fixture_metadata digest fs' repo (Some b) = Inr m"
  shows "wf_metadata digest fs' repo fid m \<and> cf_sha256 m = cf_sha256 (cb_fixture_metadata b)"
  using assms parse_fixture_metadata_Inr [of digest fs' repo]
  by (auto simp: verify_capture_fixture_metadata_def wf_capture_binding_def wf_metadata_def [of _ fs] split: if_splits)

theorem verify_metadata_sound_witness:
  "\<exists>b m. verify_capture_fixture_metadata (\<lambda>_. ''d'') (lab_fs (written example_metadata)) ''/repo'' (Some b) = Inr m \<and>
     wf_metadata (\<lambda>_. ''d'') (lab_fs (written example_metadata)) ''/repo'' ''lab-1'' m"
proof -
  let ?fs = "lab_fs (written example_metadata)" and ?dg = "\<lambda>_ :: string. ''d''"
  obtain b where b: "parse_capture_binding_role ?dg ?fs ''/repo'' example_capture ''b.json'' ''lab-1'' CAP_STEREO = Inr b"
    using example_capture_parses by blast
  note wf = parse_capture_binding_role_Inr [OF b]
  have md: "cb_fixture_metadata b = \<lparr>cf_path = ''/lab/meta.json'', cf_sha256 = ''d'', cf_values = example_metadata\<rparr>"
    using b example_metadata_parses [of ?dg]
    by (auto simp: parse_capture_binding_role_def example_capture_def require_nonempty_str_def require_member_def Let_def
        simp del: json_dumps.simps)
  have "verify_capture_fixture_metadata ?dg ?fs ''/repo'' (Some b) = Inr (cb_fixture_metadata b)"
    using example_metadata_parses [of ?dg]
    by (simp add: verify_capture_fixture_metadata_def md example_metadata_def [of] del: json_dumps.simps)
  with verify_metadata_sound [OF wf this] show ?thesis by blast
qed

end
