(* ===== verification/Hil_Matrix.thy ===== *)
theory Hil_Matrix
  imports Hil_Lifecycle Hil_Model Hil_Rows
begin

text \<open>
  The matrix coordinator, \<open>scripts/hil/matrix.py\<close>: the fixed two-pass schedule, the child run ids, one fresh row
  runner per schedule entry, the stop at the first child that does not pass, and the aggregate result and JUnit
  report.  What the coordinator calls in other modules and does not decide itself is part of the environment:
  the outcome of the \<open>n\<close>-th call of the row runner, of the input check, of the cancel flag, of the clock and of
  the writers of evidence.  \<open>digest\<close> is the hexadecimal SHA-256 of a byte string.
\<close>

section \<open>Texts and paths\<close>

text \<open>\<open>s [:n]\<close>, also for a negative \<open>n\<close>.\<close>

definition slice_to :: "string \<Rightarrow> int \<Rightarrow> string" where
  "slice_to s n = (if 0 \<le> n then take (nat n) s else take (length s - nat (- n)) s)"

text \<open>\<open>p.rsplit (os.sep, 1) [0]\<close>.\<close>

definition rsplit_head :: "string \<Rightarrow> string" where
  "rsplit_head p =
     (if slash \<in> set p then rev (tl (dropWhile (\<lambda>c. c \<noteq> slash) (rev p))) else p)"

section \<open>Child run ids\<close>

definition safe_row_label :: "string \<Rightarrow> string" where
  "safe_row_label name = take 24 (map (\<lambda>c. if id_rest c then c else CHR ''-'') name)"

definition id_stem :: "nat \<Rightarrow> nat \<Rightarrow> row_spec \<Rightarrow> string" where
  "id_stem pass_index row_index row =
     ''.p'' @ dec_of_nat pass_index @ ''.r'' @ dec_of_nat row_index @ ''.'' @ safe_row_label (rs_name row) @ ''.''"

definition id_suffix :: "(string \<Rightarrow> string) \<Rightarrow> string \<Rightarrow> nat \<Rightarrow> nat \<Rightarrow> row_spec \<Rightarrow> string" where
  "id_suffix digest matrix_run_id pass_index row_index row =
     id_stem pass_index row_index row @
     take 12 (digest (matrix_run_id @ [CHR 0x00] @ dec_of_nat pass_index @ [CHR 0x00] @ dec_of_nat row_index @
       [CHR 0x00] @ rs_name row))"

definition child_run_id :: "(string \<Rightarrow> string) \<Rightarrow> string \<Rightarrow> nat \<Rightarrow> nat \<Rightarrow> row_spec \<Rightarrow> string" where
  "child_run_id digest matrix_run_id pass_index row_index row =
     (let suffix = id_suffix digest matrix_run_id pass_index row_index row
      in slice_to matrix_run_id (64 - int (length suffix)) @ suffix)"

definition children_root_id :: "(string \<Rightarrow> string) \<Rightarrow> string \<Rightarrow> string" where
  "children_root_id digest matrix_run_id =
     (let suffix = ''.children.'' @ take 12 (digest (matrix_run_id @ [CHR 0x00] @ ''children''))
      in slice_to matrix_run_id (64 - int (length suffix)) @ suffix)"

definition validate_child_root :: "(string \<Rightarrow> string) \<Rightarrow> fsys \<Rightarrow> string \<Rightarrow> string \<Rightarrow> (string \<times> string) result" where
  "validate_child_root digest fs canon_output_root matrix_run_id =
     (let child_root_id = children_root_id digest matrix_run_id in
      rbind (validate_run_id (PStr child_root_id)) (\<lambda>_.
        let child_root = path_join canon_output_root child_root_id in
        if islink fs child_root
        then Inl (HilLifecycleError (str_msg ''child output root must not traverse a symlink: %s'' child_root))
        else if lexists fs child_root
        then Inl (HilLifecycleError (str_msg ''child output root already exists: %s'' child_root))
        else if realpath fs child_root \<noteq> normpath child_root
        then Inl (HilLifecycleError (str_msg ''child output root path escapes through a symlink: %s'' child_root))
        else Inr (child_root_id, child_root)))"

definition inside :: "string \<Rightarrow> string \<Rightarrow> bool" where
  "inside p d \<longleftrightarrow> p = d \<or> startswith p (d @ [slash])"

definition external_junit_path :: "fsys \<Rightarrow> string \<Rightarrow> pyval \<Rightarrow> string \<Rightarrow> string \<Rightarrow> string \<Rightarrow> string result" where
  "external_junit_path fs repo_root path canon_output_root matrix_run_id child_root =
     (case path of
        PStr p \<Rightarrow>
          if p = [] \<or> \<not> isabs p then Inl (HilLifecycleError (text_msg ''external JUnit path must be an absolute path''))
          else
            (let parent = realpath fs (dirname p) in
             if \<not> isdir fs parent
             then Inl (HilLifecycleError (str_msg ''external JUnit parent does not exist: %s'' (dirname p)))
             else
               (let name = basename p in
                if name \<in> {[], ''.'', ''..''} then Inl (HilLifecycleError (text_msg ''external JUnit path must name a file''))
                else
                  (let canonical_path = path_join parent name; repo_root = realpath fs repo_root;
                       matrix_dir = path_join canon_output_root matrix_run_id in
                   if inside canonical_path repo_root
                   then Inl (HilLifecycleError (text_msg ''external JUnit path must not be inside the repository''))
                   else if inside canonical_path matrix_dir
                   then Inl (HilLifecycleError (text_msg ''external JUnit path must be outside the matrix directory''))
                   else if inside canonical_path child_root
                   then Inl (HilLifecycleError (text_msg ''external JUnit path must be outside the child output root''))
                   else if lexists fs canonical_path
                   then Inl (HilLifecycleError (str_msg ''external JUnit path already exists: %s'' canonical_path))
                   else Inr canonical_path)))
      | _ \<Rightarrow> Inl (HilLifecycleError (text_msg ''external JUnit path must be an absolute path'')))"

section \<open>The schedule\<close>

record matrix_entry =
  me_pass_index :: nat
  me_row_index :: nat
  me_row_name :: string
  me_testcase :: string
  me_child_run_id :: string
  me_child_evidence_path :: string
  me_child_junit_path :: string
  me_row_dict :: pydict
  me_row :: row_spec
  me_artifacts :: "pyval option"

definition row_dict :: "row_spec \<Rightarrow> pydict result" where
  "row_dict row =
     rbind (stream_count row) (\<lambda>streams.
     rbind (expected_submitted_per_segment row) (\<lambda>per_segment.
     rbind (expected_submitted_per_stream row) (\<lambda>per_stream.
     rbind (minimum_scored_interval_s row) (\<lambda>interval.
       Inr [(''name'', PStr (rs_name row)), (''state'', PStr (rs_state row)), (''mode'', PStr (rs_mode row)),
            (''profile'', PStr (rs_profile row)), (''scored_sdu_count'', PInt (rs_scored_sdu_count row)),
            (''signal_seed'', PInt (rs_signal_seed row)), (''reconnect_policy'', PStr (rs_reconnect_policy row)),
            (''fault'', case rs_fault row of None \<Rightarrow> PNone | Some f \<Rightarrow> PStr f), (''stream_count'', PInt streams),
            (''segment_count'', PInt (segment_count row)),
            (''expected_scored_per_stream'', PInt (expected_scored_per_stream row)),
            (''expected_submitted_per_segment'', PInt per_segment), (''expected_submitted_per_stream'', PInt per_stream),
            (''minimum_scored_interval_s'', PFloat interval)]))))"

definition schedule_entry ::
  "(string \<Rightarrow> string) \<Rightarrow> string \<Rightarrow> string \<Rightarrow> pyval option \<Rightarrow> nat \<times> nat \<times> row_spec \<Rightarrow> matrix_entry result" where
  "schedule_entry digest matrix_run_id child_root artifacts e =
     (case e of (pass_index, row_index, row) \<Rightarrow>
        let run_id = child_run_id digest matrix_run_id pass_index row_index row in
        rbind (row_dict row) (\<lambda>d.
          Inr \<lparr>me_pass_index = pass_index, me_row_index = row_index, me_row_name = rs_name row,
               me_testcase = ''pass'' @ dec_of_nat pass_index @ ''.'' @ rs_name row, me_child_run_id = run_id,
               me_child_evidence_path = path_join child_root run_id,
               me_child_junit_path = path_join child_root (run_id @ ''.junit.xml''), me_row_dict = d, me_row = row,
               me_artifacts = artifacts\<rparr>))"

definition schedule :: "(string \<Rightarrow> string) \<Rightarrow> string \<Rightarrow> string \<Rightarrow> pyval option \<Rightarrow> matrix_entry list result" where
  "schedule digest matrix_run_id child_root artifacts =
     rmap (schedule_entry digest matrix_run_id child_root artifacts) rh3_schedule"

definition entry_evidence :: "matrix_entry \<Rightarrow> pydict" where
  "entry_evidence e =
     [(''pass_index'', PInt (int (me_pass_index e))), (''row_index'', PInt (int (me_row_index e))),
      (''row_name'', PStr (me_row_name e)), (''testcase'', PStr (me_testcase e)), (''child_run_id'', PStr (me_child_run_id e)),
      (''child_evidence_path'', PStr (me_child_evidence_path e)), (''child_junit_path'', PStr (me_child_junit_path e)),
      (''row'', PDict (me_row_dict e))] @
     (case me_artifacts e of None \<Rightarrow> [] | Some a \<Rightarrow> [(''artifacts'', a)])"

definition schedule_evidence :: "matrix_entry list \<Rightarrow> string \<Rightarrow> pyval option \<Rightarrow> pydict" where
  "schedule_evidence entries matrix_run_id artifacts =
     [(''schema_version'', PInt 1), (''matrix_run_id'', PStr matrix_run_id), (''pass_count'', PInt (int RH3_PASS_COUNT)),
      (''children'', PList (map (\<lambda>e. PDict (entry_evidence e)) entries))] @
     (case artifacts of None \<Rightarrow> [] | Some a \<Rightarrow> [(''artifacts'', a)])"

section \<open>One child\<close>

record cleanup_item =
  ci_name :: string
  ci_error :: string

record child_record =
  cr_pass_index :: nat
  cr_row_index :: nat
  cr_row_name :: string
  cr_child_run_id :: string
  cr_outcome :: string
  cr_boundary :: "msg option"
  cr_cleanup :: "cleanup_item list"
  cr_child_evidence_path :: string
  cr_child_junit_path :: string
  cr_start_utc :: string
  cr_end_utc :: string
  cr_duration :: rat
  cr_artifacts :: "pyval option"

abbreviation matrix_err :: "msg \<Rightarrow> 'a result" where
  "matrix_err m \<equiv> Inl (MatrixError m)"

text \<open>Lines 277--289: one reported cleanup failure, a dictionary or a pair.  A tuple is a list here.\<close>

definition normalize_item :: "pyval \<Rightarrow> cleanup_item result" where
  "normalize_item item =
     rbind (case item of
              PDict d \<Rightarrow> Inr (dict_get d ''name'', dict_get d ''error'')
            | PList [name, error] \<Rightarrow> Inr (name, error)
            | _ \<Rightarrow> matrix_err (text_msg ''child cleanup failure has invalid shape'')) (\<lambda>p.
       case p of
         (PStr name, PStr error) \<Rightarrow> Inr \<lparr>ci_name = name, ci_error = error\<rparr>
       | _ \<Rightarrow> matrix_err (text_msg ''child cleanup failure must contain text name and error''))"

definition normalize_cleanup :: "pyval \<Rightarrow> cleanup_item list result" where
  "normalize_cleanup cleanup =
     (case cleanup of
        PNone \<Rightarrow> Inr []
      | PList items \<Rightarrow> rmap normalize_item items
      | _ \<Rightarrow> matrix_err (text_msg ''child cleanup failures must be a list''))"

definition missing_file :: "fsys \<Rightarrow> string \<Rightarrow> bool" where
  "missing_file fs p \<longleftrightarrow> islink fs p \<or> \<not> isfile fs p"

text \<open>\<open>with open (path, encoding="utf-8") as fh: json.load (fh)\<close>.\<close>

definition load_json_file :: "fsys \<Rightarrow> string \<Rightarrow> pyval result" where
  "load_json_file fs path =
     rbind (read_bytes None fs path) (\<lambda>b.
       if \<not> utf8_valid b then Inl UnicodeDecodeError
       else json_loads dict_of_pairs (universal_newlines b))"

text \<open>\<open>except (OSError, ValueError) as exc\<close>; JSON and Unicode errors are value errors.\<close>

fun is_os_or_value_error :: "exn \<Rightarrow> bool" where
  "is_os_or_value_error (OSError _) = True"
| "is_os_or_value_error (ValueError _) = True"
| "is_os_or_value_error JSONDecodeError = True"
| "is_os_or_value_error UnicodeDecodeError = True"
| "is_os_or_value_error _ = False"

definition unreadable_as :: "string \<Rightarrow> 'a result \<Rightarrow> 'a result" where
  "unreadable_as fmt r =
     (case r of
        Inl e \<Rightarrow> if is_os_or_value_error e then matrix_err (exn_msg fmt e) else Inl e
      | Inr x \<Rightarrow> Inr x)"

definition reports_passed :: "pyval \<Rightarrow> bool" where
  "reports_passed v = (case v of PDict d \<Rightarrow> py_eq (dict_get d ''outcome'') (PStr ''passed'') | _ \<Rightarrow> False)"

definition has_wav_digest :: "pyval \<Rightarrow> bool" where
  "has_wav_digest v = (case v of PDict d \<Rightarrow> isinstance_str (dict_get d ''wav_sha256'') | _ \<Rightarrow> False)"

text \<open>Lines 406--431: the evidence of a capture.\<close>

definition validate_capture_evidence :: "fsys \<Rightarrow> string \<Rightarrow> unit result" where
  "validate_capture_evidence fs run_dir =
     (let file = path_join run_dir in
      rbind (rall (\<lambda>path. require (\<not> missing_file fs path) (MatrixError (str_msg ''passed capture child evidence missing: %s'' path)))
               (map file [''capture-analysis.json'', ''capture-session.json'', ''capture-summary.json'', ''capture.wav''])) (\<lambda>_.
      rbind (unreadable_as ''passed capture child evidence unreadable: %s''
               (rbind (load_json_file fs (file ''capture-analysis.json'')) (\<lambda>analysis.
                rbind (load_json_file fs (file ''capture-session.json'')) (\<lambda>session.
                rbind (load_json_file fs (file ''capture-summary.json'')) (\<lambda>summary. Inr (analysis, session, summary)))))) (\<lambda>docs.
        case docs of (analysis, session, summary) \<Rightarrow>
          if \<not> reports_passed analysis then matrix_err (text_msg ''passed capture child analysis does not report passed'')
          else if \<not> has_wav_digest session then matrix_err (text_msg ''passed capture child session lacks WAV SHA-256'')
          else if \<not> reports_passed summary then matrix_err (text_msg ''passed capture child summary does not report passed'')
          else Inr ())))"

definition validate_child_evidence :: "fsys \<Rightarrow> matrix_entry \<Rightarrow> bool \<Rightarrow> unit result" where
  "validate_child_evidence fs entry require_capture =
     (let run_dir = me_child_evidence_path entry in
      if islink fs run_dir \<or> \<not> isdir fs run_dir
      then matrix_err (str_msg ''passed child evidence directory missing: %s'' run_dir)
      else
        rbind (rall (\<lambda>name. require (\<not> missing_file fs (path_join run_dir name))
                 (MatrixError (str_msg ''passed child evidence missing: %s'' (path_join run_dir name))))
                 [''result.json'', ''junit.xml'', ''MANIFEST.md'', ''SHA256SUMS'']) (\<lambda>_.
        if missing_file fs (me_child_junit_path entry)
        then matrix_err (str_msg ''passed child external JUnit missing: %s'' (me_child_junit_path entry))
        else
          rbind (unreadable_as ''passed child result unreadable: %s'' (load_json_file fs (path_join run_dir ''result.json''))) (\<lambda>result.
          if \<not> reports_passed result then matrix_err (text_msg ''passed child result does not report passed'')
          else if \<not> require_capture then Inr ()
          else validate_capture_evidence fs run_dir)))"

text \<open>What the factory and the row runner answer: a tuple, any other object, an exception, or a factory that
  returned no callable.\<close>

datatype child_reply = ReplyTuple "pyval list" | ReplyOther | ReplyRaises exn | NotCallable

text \<open>Lines 311--349: the outcome, the boundary and the cleanup failures of a call, or its exception.\<close>

definition child_result :: "fsys \<Rightarrow> matrix_entry \<Rightarrow> bool \<Rightarrow> child_reply \<Rightarrow> (string \<times> msg option \<times> cleanup_item list) result" where
  "child_result fs entry require_capture reply =
     (case reply of
        ReplyRaises e \<Rightarrow> Inl e
      | NotCallable \<Rightarrow> matrix_err (text_msg ''row runner factory did not return a callable'')
      | ReplyTuple [outcome, boundary, cleanup] \<Rightarrow>
          (case outcome of
             PStr oc \<Rightarrow>
               if oc \<notin> {''passed'', ''failed'', ''cancelled''}
               then matrix_err (val_msg ''row runner returned unknown outcome %r'' outcome)
               else if boundary \<noteq> PNone \<and> \<not> isinstance_str boundary
               then matrix_err (text_msg ''row runner boundary must be text or None'')
               else
                 rbind (normalize_cleanup cleanup) (\<lambda>failures.
                   let b = (case boundary of PStr t \<Rightarrow> Some (text_msg t) | _ \<Rightarrow> None);
                       b' = (if failures \<noteq> [] \<and> b = None then Some (text_msg ''cleanup'') else b);
                       oc' = (if failures \<noteq> [] then ''failed'' else oc)
                   in rbind (if oc' = ''passed'' then validate_child_evidence fs entry require_capture else Inr ()) (\<lambda>_.
                      Inr (oc', b', failures)))
           | _ \<Rightarrow> matrix_err (val_msg ''row runner returned unknown outcome %r'' outcome))
      | _ \<Rightarrow> matrix_err (text_msg ''row runner returned invalid result''))"

text \<open>Lines 350--356: what becomes of an exception; only \<open>Exception\<close>s are caught.\<close>

definition child_outcome :: "(string \<times> msg option \<times> cleanup_item list) result \<Rightarrow> (string \<times> msg option \<times> cleanup_item list) result" where
  "child_outcome r =
     (case r of
        Inr x \<Rightarrow> Inr x
      | Inl (RunnerCancelled m) \<Rightarrow> Inr (''cancelled'', Some m, [])
      | Inl e \<Rightarrow> if is_Exception e then Inr (''failed'', Some (exn_msg ''row invocation: %s'' e), []) else Inl e)"

text \<open>The boundaries of the coordinator.  Every stream gives the outcome of the \<open>n\<close>-th call.\<close>

record matrix_env =
  mx_reply :: "nat \<Rightarrow> child_reply"
  mx_fs :: "nat \<Rightarrow> fsys"
  mx_unchanged :: "nat \<Rightarrow> unit result"
  mx_cancel :: "nat \<Rightarrow> bool"
  mx_clock :: "nat \<Rightarrow> rat"
  mx_utc :: "nat \<Rightarrow> string result"
  mx_jsonl :: "nat \<Rightarrow> unit result"
  mx_mkdir_matrix :: "exn option"
  mx_mkdir_children :: "exn option"
  mx_setup :: "unit result"
  mx_finalize :: "unit result"

text \<open>\<open>round (x, 6)\<close> of a clock difference: to the nearest, ties to even, in millionths.\<close>

definition round6 :: "rat \<Rightarrow> rat" where
  "round6 x =
     (let y = x * 1000000; f = \<lfloor>y\<rfloor>; r = y - of_int f
      in of_int (if r < 1 / 2 \<or> (r = 1 / 2 \<and> even f) then f else f + 1) / 1000000)"

text \<open>The \<open>k\<close>-th child reads each clock twice.\<close>

definition invoke_child :: "matrix_env \<Rightarrow> nat \<Rightarrow> bool \<Rightarrow> matrix_entry \<Rightarrow> child_record result" where
  "invoke_child env k require_capture entry =
     rbind (mx_utc env (2 * k)) (\<lambda>start_utc.
     rbind (child_outcome (child_result (mx_fs env k) entry require_capture (mx_reply env k))) (\<lambda>(outcome, boundary, failures).
     rbind (mx_utc env (2 * k + 1)) (\<lambda>end_utc.
       Inr \<lparr>cr_pass_index = me_pass_index entry, cr_row_index = me_row_index entry, cr_row_name = me_row_name entry,
            cr_child_run_id = me_child_run_id entry, cr_outcome = outcome, cr_boundary = boundary, cr_cleanup = failures,
            cr_child_evidence_path = me_child_evidence_path entry, cr_child_junit_path = me_child_junit_path entry,
            cr_start_utc = start_utc, cr_end_utc = end_utc,
            cr_duration = round6 (mx_clock env (2 * k + 1) - mx_clock env (2 * k)), cr_artifacts = me_artifacts entry\<rparr>)))"

section \<open>The loop over the schedule\<close>

text \<open>\<open>a or b\<close> for texts.\<close>

definition msg_or :: "msg option \<Rightarrow> msg \<Rightarrow> msg" where
  "msg_or a b = (case a of None \<Rightarrow> b | Some m \<Rightarrow> if m = text_msg [] then b else m)"

definition stop_reason :: "string \<Rightarrow> msg option \<Rightarrow> child_record option \<Rightarrow> msg" where
  "stop_reason outcome boundary record =
     (case record of
        Some r \<Rightarrow>
          Fmt ''%s stopped matrix: %s''
            [AM (Fmt ''pass%d row%d %s'' [AV (PInt (int (cr_pass_index r))), AV (PInt (int (cr_row_index r))), AV (PStr (cr_row_name r))]),
             AM (msg_or (cr_boundary r) (text_msg (cr_outcome r)))]
      | None \<Rightarrow> msg_or boundary (str_msg ''matrix %s before child execution'' outcome))"

text \<open>How the loop ends: the records, the outcome and the boundary, or an exception that left it after some
  records had been appended.\<close>

type_synonym matrix_state = "child_record list \<times> (string \<times> msg option) result"

definition cancelled_before :: "matrix_entry \<Rightarrow> msg" where
  "cancelled_before e =
     Fmt ''cancelled before pass%d row%d %s'' [AV (PInt (int (me_pass_index e))), AV (PInt (int (me_row_index e))), AV (PStr (me_row_name e))]"

fun run_children :: "matrix_env \<Rightarrow> bool \<Rightarrow> nat \<Rightarrow> child_record list \<Rightarrow> matrix_entry list \<Rightarrow> matrix_state" where
  "run_children env require_capture k records [] = (records, Inr (''passed'', None))"
| "run_children env require_capture k records (entry # entries) =
     (case mx_unchanged env (2 * k) of
        Inl e \<Rightarrow> (records, Inl e)
      | Inr _ \<Rightarrow>
        if mx_cancel env k then (records, Inr (''cancelled'', Some (cancelled_before entry)))
        else
          (case invoke_child env k require_capture entry of
             Inl e \<Rightarrow> (records, Inl e)
           | Inr record \<Rightarrow>
             let records' = records @ [record] in
             (case mx_unchanged env (2 * k + 1) of
                Inl e \<Rightarrow> (records', Inl e)
              | Inr _ \<Rightarrow>
                (case mx_jsonl env (Suc k) of
                   Inl exc \<Rightarrow>
                     if is_Exception exc then (records', Inr (''failed'', Some (exn_msg ''evidence children: %s'' exc)))
                     else (records', Inl exc)
                 | Inr _ \<Rightarrow>
                   if cr_outcome record \<noteq> ''passed''
                   then (records', Inr (cr_outcome record, Some (stop_reason (cr_outcome record) (cr_boundary record) (Some record))))
                   else run_children env require_capture (Suc k) records' entries))))"

section \<open>The aggregate report\<close>

definition matrix_cleanup_failures :: "child_record list \<Rightarrow> (nat \<times> nat \<times> string \<times> string \<times> string) list" where
  "matrix_cleanup_failures records =
     concat (map (\<lambda>r. map (\<lambda>f. (cr_pass_index r, cr_row_index r, cr_row_name r, ci_name f, ci_error f)) (cr_cleanup r)) records)"

definition count_outcome :: "string \<Rightarrow> child_record list \<Rightarrow> nat" where
  "count_outcome oc records = length (filter (\<lambda>r. cr_outcome r = oc) records)"

record matrix_result =
  mr_fixture_id :: string
  mr_run_id :: string
  mr_outcome :: string
  mr_boundary :: "msg option"
  mr_scheduled :: nat
  mr_attempted :: nat
  mr_passed :: nat
  mr_failed :: nat
  mr_cancelled :: nat
  mr_cleanup_failures :: "(nat \<times> nat \<times> string \<times> string \<times> string) list"
  mr_verdict :: "string option"
  mr_artifacts :: "pyval option"

definition result_dict ::
  "logical_fixture \<Rightarrow> string \<Rightarrow> string \<Rightarrow> msg option \<Rightarrow> matrix_entry list \<Rightarrow> child_record list \<Rightarrow> pyval option \<Rightarrow> string \<Rightarrow> matrix_result" where
  "result_dict fixture matrix_run_id outcome boundary entries records artifacts capture_verdict =
     \<lparr>mr_fixture_id = lf_fixture_id fixture, mr_run_id = matrix_run_id, mr_outcome = outcome, mr_boundary = boundary,
      mr_scheduled = length entries, mr_attempted = length records, mr_passed = count_outcome ''passed'' records,
      mr_failed = count_outcome ''failed'' records, mr_cancelled = count_outcome ''cancelled'' records,
      mr_cleanup_failures = matrix_cleanup_failures records,
      mr_verdict = (if lf_capture_capability fixture \<noteq> CAP_NONE
                    then Some (if outcome = ''passed'' then capture_verdict else ''none'') else None),
      mr_artifacts = artifacts\<rparr>"

datatype junit_node = JSkipped msg | JFailure msg | JError msg

record junit_case =
  jc_name :: string
  jc_classname :: string
  jc_node :: "junit_node option"

record junit_suite =
  js_name :: string
  js_tests :: int
  js_failures :: int
  js_skipped :: int
  js_errors :: int
  js_cases :: "junit_case list"

text \<open>The dictionary of the records by their indices: a later record replaces an earlier one.\<close>

definition record_at :: "child_record list \<Rightarrow> nat \<Rightarrow> nat \<Rightarrow> child_record option" where
  "record_at records p r = map_of (rev (map (\<lambda>c. ((cr_pass_index c, cr_row_index c), c)) records)) (p, r)"

definition record_node :: "child_record \<Rightarrow> junit_node option" where
  "record_node c =
     (if cr_outcome c = ''failed'' then Some (JFailure (msg_or (cr_boundary c) (text_msg ''child failed'')))
      else if cr_outcome c = ''cancelled'' then Some (JSkipped (msg_or (cr_boundary c) (text_msg ''child cancelled'')))
      else None)"

definition entry_case :: "child_record list \<Rightarrow> msg \<Rightarrow> matrix_entry \<Rightarrow> junit_case" where
  "entry_case records reason entry =
     \<lparr>jc_name = me_testcase entry, jc_classname = ''hil.rh3'',
      jc_node =
        (case record_at records (me_pass_index entry) (me_row_index entry) of
           None \<Rightarrow> Some (JSkipped (Fmt ''not attempted: %s'' [AM reason]))
         | Some c \<Rightarrow> record_node c)\<rparr>"

definition junit_tree :: "matrix_entry list \<Rightarrow> child_record list \<Rightarrow> string \<Rightarrow> msg option \<Rightarrow> junit_suite" where
  "junit_tree entries records outcome boundary =
     (let failures = count_outcome ''failed'' records;
          skipped = int (count_outcome ''cancelled'' records) + (int (length entries) - int (length records));
          matrix_error = (outcome = ''failed'' \<and> failures = 0)
      in \<lparr>js_name = ''hil.rh3.matrix'', js_tests = int (length entries) + (if matrix_error then 1 else 0),
          js_failures = int failures, js_skipped = skipped, js_errors = (if matrix_error then 1 else 0),
          js_cases = map (entry_case records (stop_reason outcome boundary None)) entries @
            (if matrix_error
             then [\<lparr>jc_name = ''matrix.orchestration'', jc_classname = ''hil.rh3'',
                    jc_node = Some (JError (Fmt ''matrix failure: %s'' [AM (msg_or boundary (text_msg ''evidence failure''))]))\<rparr>]
             else [])\<rparr>)"

section \<open>The whole run\<close>

record artifact_view =
  av_source_board :: string
  av_source_images :: "string list"
  av_evidence :: pyval

record matrix_request =
  mq_fixture_path :: string
  mq_binding_path :: string
  mq_output_root :: pyval
  mq_run_id :: string
  mq_junit_path :: pyval
  mq_artifacts :: "artifact_view option"
  mq_qualification_path :: "string option"
  mq_capture_verdict :: string
  mq_session_manifest_path :: "string option"

text \<open>The state of the host before anything is created, and what the other loaders answer.\<close>

record host_env =
  he_fs :: fsys
  he_home :: string
  he_repo_root :: string
  he_digest :: "string \<Rightarrow> string"
  he_qualification :: "unit result"
  he_artifacts_valid :: "unit result"
  he_artifacts_revalid :: "unit result"
  he_session :: "unit result"

definition check_board :: "logical_fixture \<Rightarrow> matrix_request \<Rightarrow> logical_role result" where
  "check_board fixture q =
     (case map_of (lf_roles fixture) ''source'' of
        None \<Rightarrow> Inl (KeyError (PStr ''source''))
      | Some role \<Rightarrow>
        if lr_board role \<noteq> Some NRF54L15_CPUAPP_BOARD
        then matrix_err (val_msg ''unsupported source board %r'' (case lr_board role of None \<Rightarrow> PNone | Some b \<Rightarrow> PStr b))
        else if mq_session_manifest_path q \<in> {None, Some []}
        then matrix_err (text_msg ''nRF54L15 source fixture requires --session-manifest'')
        else Inr role)"

definition check_capture :: "host_env \<Rightarrow> logical_fixture \<Rightarrow> matrix_request \<Rightarrow> unit result" where
  "check_capture h fixture q =
     (if lf_capture_capability fixture = CAP_NONE then
        require (mq_qualification_path q = None \<and> mq_capture_verdict q = ''none'')
          (MatrixError (text_msg ''none capture fixture cannot use capture qualification''))
      else if mq_qualification_path q = None then matrix_err (text_msg ''capture matrix requires accepted qualification'')
      else if mq_capture_verdict q \<notin> {''MONO_OUTPUT_SMOKE_ACCEPTED'', ''STEREO_OUTPUT_ACCEPTED''}
      then matrix_err (text_msg ''capture matrix requires known verdict'')
      else if mq_capture_verdict q \<noteq>
        (if lf_capture_capability fixture = CAP_MONO then ''MONO_OUTPUT_SMOKE_ACCEPTED'' else ''STEREO_OUTPUT_ACCEPTED'')
      then matrix_err (text_msg ''capture verdict does not match fixture capability'')
      else he_qualification h)"

definition check_artifacts :: "host_env \<Rightarrow> logical_role \<Rightarrow> matrix_request \<Rightarrow> unit result" where
  "check_artifacts h role q =
     (case mq_artifacts q of
        None \<Rightarrow> Inr ()
      | Some a \<Rightarrow>
        rbind (he_artifacts_valid h) (\<lambda>_.
        if Some (av_source_board a) \<noteq> lr_board role \<or> av_source_images a \<noteq> lr_images role
        then matrix_err (text_msg ''artifact source board/image roles do not match fixture'')
        else he_artifacts_revalid h))"

record matrix_plan =
  mp_fixture :: logical_fixture
  mp_output_root :: string
  mp_child_root_id :: string
  mp_child_root :: string
  mp_junit_path :: string

definition prepare :: "host_env \<Rightarrow> matrix_request \<Rightarrow> matrix_plan result" where
  "prepare h q =
     rbind (load_logical_fixture (he_fs h) (mq_fixture_path q)) (\<lambda>fixture.
     rbind (load_physical_binding (he_digest h) (he_fs h) (he_repo_root h) (mq_binding_path q) fixture) (\<lambda>_.
     rbind (check_board fixture q) (\<lambda>role.
     rbind (check_capture h fixture q) (\<lambda>_.
     rbind (check_artifacts h role q) (\<lambda>_.
     rbind (validate_output_root (he_fs h) (he_home h) (he_repo_root h) (mq_output_root q)) (\<lambda>canon.
     rbind (validate_run_id (PStr (mq_run_id q))) (\<lambda>_.
     rbind (validate_child_root (he_digest h) (he_fs h) canon (mq_run_id q)) (\<lambda>(child_root_id, child_root).
     rbind (external_junit_path (he_fs h) (he_repo_root h) (mq_junit_path q) canon (mq_run_id q) child_root) (\<lambda>junit.
     rbind (read_bytes None (he_fs h) (mq_fixture_path q)) (\<lambda>_.
     rbind (read_bytes None (he_fs h) (mq_binding_path q)) (\<lambda>_.
     rbind (he_session h) (\<lambda>_.
       Inr \<lparr>mp_fixture = fixture, mp_output_root = canon, mp_child_root_id = child_root_id, mp_child_root = child_root,
            mp_junit_path = junit\<rparr>))))))))))))"

text \<open>Lines 738--828: inside the \<open>try\<close>.\<close>

definition run_body :: "matrix_env \<Rightarrow> fsys \<Rightarrow> matrix_plan \<Rightarrow> matrix_request \<Rightarrow> matrix_entry list \<Rightarrow> matrix_state" where
  "run_body env fs plan q entries =
     (case snd (create_run_dir (mx_mkdir_children env) fs (mp_output_root plan) (mp_child_root_id plan)) of
        Inl e \<Rightarrow> ([], Inl e)
      | Inr child_root \<Rightarrow>
        (case mx_setup env of
           Inl e \<Rightarrow> ([], Inl e)
         | Inr _ \<Rightarrow>
           if child_root \<noteq> rsplit_head (me_child_evidence_path (hd entries))
           then ([], matrix_err (text_msg ''child output root changed after schedule creation''))
           else
             (case run_children env (mq_qualification_path q \<noteq> None) 0 [] entries of
                (records, Inr (outcome, boundary)) \<Rightarrow>
                  if outcome = ''passed'' \<and> mx_cancel env (length entries)
                  then (records, Inr (''cancelled'', Some (text_msg ''cancelled before matrix finalization'')))
                  else (records, Inr (outcome, boundary))
              | r \<Rightarrow> r)))"

record matrix_report =
  rp_outcome :: string
  rp_boundary :: "msg option"
  rp_entries :: "matrix_entry list"
  rp_records :: "child_record list"
  rp_result :: matrix_result
  rp_junit :: junit_suite

definition report :: "matrix_plan \<Rightarrow> matrix_request \<Rightarrow> matrix_entry list \<Rightarrow> child_record list \<Rightarrow> string \<Rightarrow> msg option \<Rightarrow> matrix_report" where
  "report plan q entries records outcome boundary =
     \<lparr>rp_outcome = outcome, rp_boundary = boundary, rp_entries = entries, rp_records = records,
      rp_result = result_dict (mp_fixture plan) (mq_run_id q) outcome boundary entries records
        (map_option av_evidence (mq_artifacts q)) (mq_capture_verdict q),
      rp_junit = junit_tree entries records outcome boundary\<rparr>"

text \<open>\<open>except Exception as exc\<close>: any other exception passes.\<close>

definition contain :: "string \<Rightarrow> (string \<times> msg option) result \<Rightarrow> (string \<times> msg option) result" where
  "contain fmt r =
     (case r of
        Inl e \<Rightarrow> if is_Exception e then Inr (''failed'', Some (exn_msg fmt e)) else Inl e
      | Inr x \<Rightarrow> Inr x)"

text \<open>Lines 733--872: everything after the checks.\<close>

definition run_prepared :: "host_env \<Rightarrow> matrix_env \<Rightarrow> matrix_request \<Rightarrow> matrix_plan \<Rightarrow> matrix_report result" where
  "run_prepared h env q plan =
     (case create_run_dir (mx_mkdir_matrix env) (he_fs h) (mp_output_root plan) (mq_run_id q) of
        (fs, Inl e) \<Rightarrow> Inl e
      | (fs, Inr _) \<Rightarrow>
        rbind (schedule (he_digest h) (mq_run_id q) (mp_child_root plan) (map_option av_evidence (mq_artifacts q))) (\<lambda>entries.
          case run_body env fs plan q entries of
            (records, r) \<Rightarrow>
              rbind (contain ''matrix setup: %s'' r) (\<lambda>(outcome, boundary).
              rbind (contain ''evidence finalization: %s'' (rbind (mx_finalize env) (\<lambda>_. Inr (outcome, boundary)))) (\<lambda>(outcome', boundary').
                Inr (report plan q entries records outcome' boundary')))))"

definition matrix_run :: "host_env \<Rightarrow> matrix_env \<Rightarrow> matrix_request \<Rightarrow> matrix_report result" where
  "matrix_run h env q = rbind (prepare h q) (run_prepared h env q)"

section \<open>What a child record says\<close>

lemma child_result_passed:
  assumes "child_result fs entry rc reply = Inr (oc, b, cs)"
  shows "oc \<in> {''passed'', ''failed'', ''cancelled''} \<and> (oc = ''passed'' \<longrightarrow> cs = [] \<and> validate_child_evidence fs entry rc = Inr ())"
  using assms unfolding child_result_def
  by (auto simp: Let_def split: child_reply.splits list.splits pyval.splits if_splits)

lemma child_outcome_Inr:
  "child_outcome r = Inr (oc, b, cs) \<Longrightarrow> r = Inr (oc, b, cs) \<or> oc \<in> {''failed'', ''cancelled''} \<and> cs = []"
  unfolding child_outcome_def by (auto split: sum.splits exn.splits if_splits)

lemma invoke_child_Inr:
  assumes "invoke_child env k rc entry = Inr r"
  shows "cr_pass_index r = me_pass_index entry" "cr_row_index r = me_row_index entry" "cr_row_name r = me_row_name entry"
    "cr_child_run_id r = me_child_run_id entry" "cr_outcome r \<in> {''passed'', ''failed'', ''cancelled''}"
    "cr_outcome r = ''passed'' \<Longrightarrow> cr_cleanup r = [] \<and> validate_child_evidence (mx_fs env k) entry rc = Inr ()"
proof -
  obtain oc b cs where o: "child_outcome (child_result (mx_fs env k) entry rc (mx_reply env k)) = Inr (oc, b, cs)"
    and r: "cr_pass_index r = me_pass_index entry" "cr_row_index r = me_row_index entry" "cr_row_name r = me_row_name entry"
      "cr_child_run_id r = me_child_run_id entry" "cr_outcome r = oc" "cr_cleanup r = cs"
    using assms by (auto simp: invoke_child_def)
  show "cr_pass_index r = me_pass_index entry" "cr_row_index r = me_row_index entry" "cr_row_name r = me_row_name entry"
    "cr_child_run_id r = me_child_run_id entry" by (rule r)+
  show "cr_outcome r \<in> {''passed'', ''failed'', ''cancelled''}"
    and "cr_outcome r = ''passed'' \<Longrightarrow> cr_cleanup r = [] \<and> validate_child_evidence (mx_fs env k) entry rc = Inr ()"
    using child_outcome_Inr [OF o] child_result_passed [of "mx_fs env k" entry rc "mx_reply env k" oc b cs] r by auto
qed

text \<open>What the loop leaves behind: the records of an initial piece of the entries, of which only the last one may
  not have passed.\<close>

definition children_run :: "matrix_env \<Rightarrow> bool \<Rightarrow> nat \<Rightarrow> matrix_entry list \<Rightarrow> child_record list \<Rightarrow> (string \<times> msg option) result \<Rightarrow> bool" where
  "children_run env rc k entries new res \<longleftrightarrow>
     length new \<le> length entries \<and>
     (\<forall>i < length new. invoke_child env (k + i) rc (entries ! i) = Inr (new ! i)) \<and>
     (\<forall>i. Suc i < length new \<longrightarrow> cr_outcome (new ! i) = ''passed'') \<and>
     (\<forall>oc b. res = Inr (oc, b) \<longrightarrow> oc \<in> {''passed'', ''failed'', ''cancelled''} \<and>
        (oc = ''passed'' \<longrightarrow> length new = length entries \<and> (\<forall>r \<in> set new. cr_outcome r = ''passed'')))"

lemma children_run_stop:
  assumes "\<And>oc b. res = Inr (oc, b) \<Longrightarrow> oc \<in> {''failed'', ''cancelled''}"
  shows "children_run env rc k entries [] res"
    and "entries \<noteq> [] \<Longrightarrow> invoke_child env k rc (hd entries) = Inr r \<Longrightarrow> children_run env rc k entries [r] res"
  using assms by (cases entries; fastforce simp: children_run_def)+

lemma children_run_Cons:
  assumes "invoke_child env k rc entry = Inr r" and "cr_outcome r = ''passed''" and "children_run env rc (Suc k) entries new res"
  shows "children_run env rc k (entry # entries) (r # new) res"
  using assms unfolding children_run_def by (auto simp: nth_Cons less_Suc_eq_0_disj split: nat.splits)

lemma run_children_run:
  "\<exists>new. fst (run_children env rc k acc entries) = acc @ new \<and> children_run env rc k entries new (snd (run_children env rc k acc entries))"
proof (induction entries arbitrary: k acc)
  case Nil
  show ?case by (simp add: children_run_def)
next
  case (Cons entry entries)
  show ?case
  proof (cases "mx_unchanged env (2 * k)")
    case (Inl e)
    then show ?thesis by (intro exI [of _ "[]"]) (auto intro!: children_run_stop(1))
  next
    case ok: (Inr u)
    show ?thesis
    proof (cases "mx_cancel env k")
      case True
      with ok show ?thesis by (intro exI [of _ "[]"]) (auto intro!: children_run_stop(1))
    next
      case nc: False
      show ?thesis
      proof (cases "invoke_child env k rc entry")
        case (Inl e)
        with ok nc show ?thesis by (intro exI [of _ "[]"]) (auto intro!: children_run_stop(1))
      next
        case (Inr r)
        note one = children_run_stop(2) [of _ "entry # entries" env k rc r]
        show ?thesis
        proof (cases "snd (run_children env rc k acc (entry # entries)) = snd (run_children env rc (Suc k) (acc @ [r]) entries) \<and>
             fst (run_children env rc k acc (entry # entries)) = fst (run_children env rc (Suc k) (acc @ [r]) entries) \<and>
             cr_outcome r = ''passed''")
          case True
          obtain new where "fst (run_children env rc (Suc k) (acc @ [r]) entries) = (acc @ [r]) @ new"
            "children_run env rc (Suc k) entries new (snd (run_children env rc (Suc k) (acc @ [r]) entries))"
            using Cons.IH by blast
          with True children_run_Cons [OF Inr] show ?thesis by (intro exI [of _ "r # new"]) (simp del: run_children.simps)
        next
          case False
          with ok nc Inr invoke_child_Inr(5) [OF Inr] show ?thesis
            by (intro exI [of _ "[r]"])
               (auto simp: Let_def intro!: one split: sum.splits if_splits)
        qed
      qed
    qed
  qed
qed

section \<open>The schedule of a run\<close>

lemma rh3_schedule_keys: "distinct (map (\<lambda>(p, r, _). (p, r)) rh3_schedule)" "length rh3_schedule = 20"
  by code_simp+

lemma schedule_entry_Inr:
  "schedule_entry digest run_id croot arts (p, r, row) = Inr e \<Longrightarrow>
     me_pass_index e = p \<and> me_row_index e = r \<and> me_row e = row \<and> me_row_name e = rs_name row \<and>
     me_child_run_id e = child_run_id digest run_id p r row \<and> me_child_evidence_path e = path_join croot (me_child_run_id e)"
  by (auto simp: schedule_entry_def Let_def)

lemma schedule_entries:
  assumes "schedule digest run_id croot arts = Inr entries"
  shows "length entries = 20" and "distinct (map (\<lambda>e. (me_pass_index e, me_row_index e)) entries)"
    and "i < 20 \<Longrightarrow> (me_pass_index (entries ! i), me_row_index (entries ! i), me_row (entries ! i)) = rh3_schedule ! i \<and>
      me_row_name (entries ! i) = rs_name (me_row (entries ! i)) \<and>
      me_child_run_id (entries ! i) = (case rh3_schedule ! i of (p, r, row) \<Rightarrow> child_run_id digest run_id p r row) \<and>
      me_child_evidence_path (entries ! i) = path_join croot (me_child_run_id (entries ! i))"
proof -
  have all: "list_all2 (\<lambda>x y. schedule_entry digest run_id croot arts x = Inr y) rh3_schedule entries"
    using assms by (simp add: schedule_def rmap_eq_Inr)
  then show len: "length entries = 20" using rh3_schedule_keys(2) by (simp add: list_all2_lengthD)
  have e: "schedule_entry digest run_id croot arts (rh3_schedule ! j) = Inr (entries ! j)" if "j < 20" for j
    using all that rh3_schedule_keys(2) by (simp add: list_all2_conv_all_nth)
  show "(me_pass_index (entries ! i), me_row_index (entries ! i), me_row (entries ! i)) = rh3_schedule ! i \<and>
      me_row_name (entries ! i) = rs_name (me_row (entries ! i)) \<and>
      me_child_run_id (entries ! i) = (case rh3_schedule ! i of (p, r, row) \<Rightarrow> child_run_id digest run_id p r row) \<and>
      me_child_evidence_path (entries ! i) = path_join croot (me_child_run_id (entries ! i))" if "i < 20" for i
    using e [OF that] by (cases "rh3_schedule ! i") (auto dest: schedule_entry_Inr)
  have "map (\<lambda>e. (me_pass_index e, me_row_index e)) entries = map (\<lambda>(p, r, _). (p, r)) rh3_schedule"
  proof (rule nth_equalityI)
    show "length (map (\<lambda>e. (me_pass_index e, me_row_index e)) entries) = length (map (\<lambda>(p, r, _). (p, r)) rh3_schedule)"
      using len rh3_schedule_keys(2) by simp
    fix j assume "j < length (map (\<lambda>e. (me_pass_index e, me_row_index e)) entries)"
    then have j: "j < 20" using len by simp
    from e [OF j] show "map (\<lambda>e. (me_pass_index e, me_row_index e)) entries ! j = map (\<lambda>(p, r, _). (p, r)) rh3_schedule ! j"
      using j len rh3_schedule_keys(2) by (cases "rh3_schedule ! j") (auto dest: schedule_entry_Inr)
  qed
  with rh3_schedule_keys(1) show "distinct (map (\<lambda>e. (me_pass_index e, me_row_index e)) entries)" by simp
qed

text \<open>What is known of every report.\<close>

lemma run_prepared_Inr:
  assumes "run_prepared h env q plan = Inr rep"
  shows "\<exists>entries records outcome boundary res. rep = report plan q entries records outcome boundary \<and>
     schedule (he_digest h) (mq_run_id q) (mp_child_root plan) (map_option av_evidence (mq_artifacts q)) = Inr entries \<and>
     children_run env (mq_qualification_path q \<noteq> None) 0 entries records res \<and>
     outcome \<in> {''passed'', ''failed'', ''cancelled''} \<and> (outcome = ''passed'' \<longrightarrow> (\<exists>b. res = Inr (''passed'', b)))"
proof -
  obtain fs d where p2: "create_run_dir (mx_mkdir_matrix env) (he_fs h) (mp_output_root plan) (mq_run_id q) = (fs, Inr d)"
    using assms by (cases "create_run_dir (mx_mkdir_matrix env) (he_fs h) (mp_output_root plan) (mq_run_id q)"; cases "snd (create_run_dir (mx_mkdir_matrix env) (he_fs h) (mp_output_root plan) (mq_run_id q))")
      (simp_all add: run_prepared_def)
  obtain entries where p3: "schedule (he_digest h) (mq_run_id q) (mp_child_root plan) (map_option av_evidence (mq_artifacts q)) = Inr entries"
    using assms p2
    by (cases "schedule (he_digest h) (mq_run_id q) (mp_child_root plan) (map_option av_evidence (mq_artifacts q))") (simp_all add: run_prepared_def)
  obtain records r where b: "run_body env fs plan q entries = (records, r)" by (cases "run_body env fs plan q entries")
  have fin: "rbind (contain ''matrix setup: %s'' r) (\<lambda>(outcome, boundary).
      rbind (contain ''evidence finalization: %s'' (rbind (mx_finalize env) (\<lambda>_. Inr (outcome, boundary)))) (\<lambda>(outcome', boundary').
        Inr (report plan q entries records outcome' boundary'))) = Inr rep"
    using assms p2 p3 b by (simp add: run_prepared_def del: rbind_eq_Inr)
  obtain oc bd oc' bd' where c: "contain ''matrix setup: %s'' r = Inr (oc, bd)"
    "contain ''evidence finalization: %s'' (rbind (mx_finalize env) (\<lambda>_. Inr (oc, bd))) = Inr (oc', bd')"
    "rep = report plan q entries records oc' bd'"
    using fin by auto
  have "\<exists>res. children_run env (mq_qualification_path q \<noteq> None) 0 entries records res \<and>
     (\<forall>oc b. r = Inr (oc, b) \<longrightarrow> oc \<in> {''passed'', ''failed'', ''cancelled''} \<and> (oc = ''passed'' \<longrightarrow> res = r))"
  proof (cases "\<exists>e. (records, r) = ([], Inl e)")
    case True
    then show ?thesis by (auto intro: children_run_stop(1) exI [of _ "r"])
  next
    case False
    obtain new where "fst (run_children env (mq_qualification_path q \<noteq> None) 0 [] entries) = new"
      and new: "children_run env (mq_qualification_path q \<noteq> None) 0 entries new (snd (run_children env (mq_qualification_path q \<noteq> None) 0 [] entries))"
      using run_children_run [of env "mq_qualification_path q \<noteq> None" 0 "[]" entries] by auto
    moreover obtain rs' r' where rc: "run_children env (mq_qualification_path q \<noteq> None) 0 [] entries = (rs', r')"
      by (cases "run_children env (mq_qualification_path q \<noteq> None) 0 [] entries")
    ultimately have new': "children_run env (mq_qualification_path q \<noteq> None) 0 entries rs' r'" by simp
    have "records = rs' \<and> (r = r' \<or> r = Inr (''cancelled'', Some (text_msg ''cancelled before matrix finalization'')))"
      using b False rc by (auto simp: run_body_def split: sum.splits if_splits)
    with new' show ?thesis by (intro exI [of _ r']) (auto simp: children_run_def)
  qed
  then obtain res where res: "children_run env (mq_qualification_path q \<noteq> None) 0 entries records res"
    "\<And>oc b. r = Inr (oc, b) \<Longrightarrow> oc \<in> {''passed'', ''failed'', ''cancelled''} \<and> (oc = ''passed'' \<longrightarrow> res = r)" by blast
  have "oc \<in> {''passed'', ''failed'', ''cancelled''} \<and> (oc = ''passed'' \<longrightarrow> res = Inr (oc, bd))"
    using c(1) res(2) by (auto simp: contain_def split: sum.splits if_splits)
  moreover have "oc' = ''failed'' \<or> oc' = oc \<and> bd' = bd"
    using c(2) by (auto simp: contain_def split: sum.splits if_splits)
  ultimately show ?thesis using c(3) p3 res(1) by blast
qed

section \<open>Counting the test cases\<close>

lemma record_at_nth:
  assumes "distinct (map (\<lambda>e. (me_pass_index e, me_row_index e)) entries)" and "i < length entries" and "length records \<le> length entries"
    and "\<forall>j < length records.
      cr_pass_index (records ! j) = me_pass_index (entries ! j) \<and> cr_row_index (records ! j) = me_row_index (entries ! j)"
  shows "record_at records (me_pass_index (entries ! i)) (me_row_index (entries ! i)) =
    (if i < length records then Some (records ! i) else None)"
proof -
  let ?kvs = "map (\<lambda>c. ((cr_pass_index c, cr_row_index c), c)) records"
  have keys: "map fst ?kvs = take (length records) (map (\<lambda>e. (me_pass_index e, me_row_index e)) entries)"
    using assms(3,4) by (intro nth_equalityI) auto
  then have dist: "distinct (map fst ?kvs)" using assms(1) by (simp add: distinct_take)
  then have rev: "map_of (rev ?kvs) = map_of ?kvs" by (simp add: map_of_inject_set flip: rev_map)
  show ?thesis
  proof (cases "i < length records")
    case True
    then have "((me_pass_index (entries ! i), me_row_index (entries ! i)), records ! i) \<in> set ?kvs"
      using assms(4) by (force simp: in_set_conv_nth)
    with dist True rev show ?thesis by (simp add: record_at_def map_of_eq_Some_iff)
  next
    case False
    have "(me_pass_index (entries ! i), me_row_index (entries ! i)) \<notin> set (map fst ?kvs)"
    proof
      assume "(me_pass_index (entries ! i), me_row_index (entries ! i)) \<in> set (map fst ?kvs)"
      then obtain j where j: "j < length records" "(me_pass_index (entries ! i), me_row_index (entries ! i)) = (me_pass_index (entries ! j), me_row_index (entries ! j))"
        unfolding keys using assms(3) by (auto simp: in_set_conv_nth)
      with assms(1,2,3) False show False by (auto simp: distinct_conv_nth)
    qed
    with False rev show ?thesis by (simp add: record_at_def map_of_eq_None_iff image_image)
  qed
qed

definition skipped_nodes :: "junit_suite \<Rightarrow> nat" where
  "skipped_nodes s = length (filter (\<lambda>c. case jc_node c of Some (JSkipped _) \<Rightarrow> True | _ \<Rightarrow> False) (js_cases s))"

definition failure_nodes :: "junit_suite \<Rightarrow> nat" where
  "failure_nodes s = length (filter (\<lambda>c. case jc_node c of Some (JFailure _) \<Rightarrow> True | _ \<Rightarrow> False) (js_cases s))"

definition error_nodes :: "junit_suite \<Rightarrow> nat" where
  "error_nodes s = length (filter (\<lambda>c. case jc_node c of Some (JError _) \<Rightarrow> True | _ \<Rightarrow> False) (js_cases s))"

lemma entry_nodes:
  assumes "distinct (map (\<lambda>e. (me_pass_index e, me_row_index e)) entries)" and "length records \<le> length entries"
    and "\<forall>j < length records.
      cr_pass_index (records ! j) = me_pass_index (entries ! j) \<and> cr_row_index (records ! j) = me_row_index (entries ! j)"
  shows "map jc_node (map (entry_case records reason) entries) =
    map record_node records @ replicate (length entries - length records) (Some (JSkipped (Fmt ''not attempted: %s'' [AM reason])))"
  using assms by (intro nth_equalityI) (auto simp: entry_case_def record_at_nth nth_append)

lemma filter_node_map: "length (filter (\<lambda>c. P (jc_node c)) cs) = length (filter P (map jc_node cs))"
  by (simp add: filter_map comp_def)

lemma record_node_counts:
  "length (filter ((\<lambda>n. case n of Some (JFailure _) \<Rightarrow> True | _ \<Rightarrow> False) \<circ> record_node) rs) = count_outcome ''failed'' rs"
  "length (filter ((\<lambda>n. case n of Some (JSkipped _) \<Rightarrow> True | _ \<Rightarrow> False) \<circ> record_node) rs) = count_outcome ''cancelled'' rs"
  "filter ((\<lambda>n. case n of Some (JError _) \<Rightarrow> True | _ \<Rightarrow> False) \<circ> record_node) rs = []"
  by (induction rs) (auto simp: count_outcome_def record_node_def)

lemma junit_tree_counts:
  assumes "distinct (map (\<lambda>e. (me_pass_index e, me_row_index e)) entries)" and "length records \<le> length entries"
    and "\<forall>j < length records.
      cr_pass_index (records ! j) = me_pass_index (entries ! j) \<and> cr_row_index (records ! j) = me_row_index (entries ! j)"
    and s: "s = junit_tree entries records outcome boundary"
  shows "js_tests s = int (length (js_cases s))" and "js_failures s = int (failure_nodes s)"
    and "js_skipped s = int (skipped_nodes s)" and "js_errors s = int (error_nodes s)"
proof -
  note nodes = entry_nodes [OF assms(1-3)]
  show "js_tests s = int (length (js_cases s))" by (simp add: s junit_tree_def Let_def)
  show "js_failures s = int (failure_nodes s)"
    unfolding failure_nodes_def filter_node_map s junit_tree_def Let_def
    by (simp add: nodes filter_map record_node_counts del: map_map)
  show "js_skipped s = int (skipped_nodes s)"
    unfolding skipped_nodes_def filter_node_map s junit_tree_def Let_def using assms(2)
    by (simp add: nodes filter_map record_node_counts of_nat_diff del: map_map)
  show "js_errors s = int (error_nodes s)"
    unfolding error_nodes_def filter_node_map s junit_tree_def Let_def
    by (simp add: nodes filter_map record_node_counts del: map_map)
qed

section \<open>Safe and distinct child ids\<close>

lemma hex_digit_rest: "hex_digit c \<Longrightarrow> id_rest c"
  by (auto simp: hex_digit_def id_rest_def id_first_def byte_in_def)

lemma safe_row_label_safe: "list_all id_rest (safe_row_label name) \<and> length (safe_row_label name) \<le> 24"
  by (auto simp: safe_row_label_def list_all_iff id_rest_def dest!: in_set_takeD)

lemma dec_rest: "list_all id_rest (dec_of_nat n)"
  using dec_of_nat_digits [of n] by (auto simp: list_all_iff is_digit_def id_rest_def id_first_def)

lemma id_stem_safe:
  assumes "p < 10" and "r < 100"
  shows "list_all id_rest (id_stem p r row) \<and> length (id_stem p r row) \<le> 33"
  using assms safe_row_label_safe [of "rs_name row"] dec_rest dec_of_nat_length [of p 0] dec_of_nat_length [of r 1]
  by (auto simp: id_stem_def id_rest_def id_first_def byte_in_def)

lemma schedule_indices: "list_all (\<lambda>(p, r, row). p < 10 \<and> r < 100) rh3_schedule"
  by code_simp

text \<open>The fields of a child id are separated by dots; the label of every scheduled row has two of them.\<close>

lemma split_on_append: "split_on c (x @ c # y) = split_on c x @ split_on c y"
proof (induction x)
  case (Cons a x)
  have "split_on c x \<noteq> []" by (cases x) (auto split: list.splits)
  then show ?case using Cons by (auto split: list.splits)
qed simp

lemma dec_no_dot: "CHR ''.'' \<notin> set (dec_of_nat n)"
  using dec_of_nat_digits [of n] by (auto simp: is_digit_def byte_in_def)

lemma row_label_fields:
  assumes "take 4 name = ''rh3.''" and "CHR ''.'' \<notin> set (drop 4 name)"
  shows "length (split_on CHR ''.'' (safe_row_label name)) = 2"
proof -
  let ?f = "\<lambda>c. if id_rest c then c else CHR ''-''"
  obtain t where name: "name = ''rh3.'' @ t" and t: "CHR ''.'' \<notin> set t" using assms by (metis append_take_drop_id)
  have "safe_row_label name = ''rh3'' @ CHR ''.'' # take 20 (map ?f t)"
    by (simp add: safe_row_label_def name id_rest_def id_first_def byte_in_def)
  moreover have "CHR ''.'' \<notin> set (take 20 (map ?f t))" using t by (auto dest!: in_set_takeD split: if_splits)
  ultimately show ?thesis by (simp only: split_on_append split_on_single) (simp add: split_on_single)
qed

lemma schedule_names:
  "list_all (\<lambda>(p, r, row). take 4 (rs_name row) = ''rh3.'' \<and> list_all (\<lambda>c. c \<noteq> CHR ''.'') (drop 4 (rs_name row))) rh3_schedule"
  by code_simp

lemma child_run_id_fields:
  assumes "hexdigest digest"
  obtains x d where "length x = 1" "split_on CHR ''.'' (child_run_id digest run_id p r row) =
     split_on CHR ''.'' (slice_to run_id (64 - int (length (id_suffix digest run_id p r row)))) @
     [''p'' @ dec_of_nat p, ''r'' @ dec_of_nat r] @ split_on CHR ''.'' (safe_row_label (rs_name row)) @ x"
proof -
  define dg where "dg = take 12 (digest (run_id @ [CHR 0x00] @ dec_of_nat p @ [CHR 0x00] @ dec_of_nat r @ [CHR 0x00] @ rs_name row))"
  define pre where "pre = slice_to run_id (64 - int (length (id_suffix digest run_id p r row)))"
  have "list_all hex_digit dg" using assms by (auto simp: hexdigest_def dg_def list_all_iff dest: in_set_takeD)
  then have dg: "CHR ''.'' \<notin> set dg" by (auto simp: list_all_iff hex_digit_def byte_in_def)
  have no: "CHR ''.'' \<notin> set (''p'' @ dec_of_nat p)" "CHR ''.'' \<notin> set (''r'' @ dec_of_nat r)" using dec_no_dot by auto
  have "child_run_id digest run_id p r row =
     pre @ CHR ''.'' # (''p'' @ dec_of_nat p) @ CHR ''.'' # (''r'' @ dec_of_nat r) @ CHR ''.'' # safe_row_label (rs_name row) @ CHR ''.'' # dg"
    by (simp add: child_run_id_def id_suffix_def id_stem_def Let_def pre_def dg_def)
  then have "split_on CHR ''.'' (child_run_id digest run_id p r row) =
     split_on CHR ''.'' pre @ [''p'' @ dec_of_nat p, ''r'' @ dec_of_nat r] @ split_on CHR ''.'' (safe_row_label (rs_name row)) @ [dg]"
    by (simp only: split_on_append split_on_single [OF dg] split_on_single [OF no(1)] split_on_single [OF no(2)]) simp
  then show thesis using that [of "[dg]"] by (simp add: pre_def)
qed

lemma dec_of_nat_inj: "dec_of_nat m = dec_of_nat n \<longleftrightarrow> m = n"
  by (metis nat_of_dec_of_nat)

lemma child_run_id_inj:
  assumes "hexdigest digest" and "child_run_id digest run_id p r row = child_run_id digest run_id p' r' row'"
    and "length (split_on CHR ''.'' (safe_row_label (rs_name row))) = 2" "length (split_on CHR ''.'' (safe_row_label (rs_name row'))) = 2"
  shows "p = p' \<and> r = r'"
proof -
  obtain x where x: "length x = 1" "split_on CHR ''.'' (child_run_id digest run_id p r row) =
     split_on CHR ''.'' (slice_to run_id (64 - int (length (id_suffix digest run_id p r row)))) @
     [''p'' @ dec_of_nat p, ''r'' @ dec_of_nat r] @ split_on CHR ''.'' (safe_row_label (rs_name row)) @ x"
    using child_run_id_fields [OF assms(1)] by blast
  obtain y where y: "length y = 1" "split_on CHR ''.'' (child_run_id digest run_id p' r' row') =
     split_on CHR ''.'' (slice_to run_id (64 - int (length (id_suffix digest run_id p' r' row')))) @
     [''p'' @ dec_of_nat p', ''r'' @ dec_of_nat r'] @ split_on CHR ''.'' (safe_row_label (rs_name row')) @ y"
    using child_run_id_fields [OF assms(1)] by blast
  have "[''p'' @ dec_of_nat p, ''r'' @ dec_of_nat r] @ split_on CHR ''.'' (safe_row_label (rs_name row)) @ x =
    [''p'' @ dec_of_nat p', ''r'' @ dec_of_nat r'] @ split_on CHR ''.'' (safe_row_label (rs_name row')) @ y"
    using x y assms(2-4) by (simp add: append_eq_append_conv)
  then show ?thesis by (simp add: dec_of_nat_inj)
qed

lemma slice_to_safe:
  assumes "safe_id s" and "1 \<le> n" "n \<le> 64"
  shows "slice_to s n \<noteq> [] \<and> id_first (hd (slice_to s n)) \<and> list_all id_rest (tl (slice_to s n)) \<and> int (length (slice_to s n)) \<le> n"
proof -
  from assms(1) obtain c r where s: "s = c # r" "id_first c" "list_all id_rest r" by (auto simp: safe_id_def split: list.splits)
  obtain k where k: "nat n = Suc k" using assms(2) by (cases "nat n") auto
  have "list_all id_rest (take k r)" using s(3) by (auto simp: list_all_iff dest: in_set_takeD)
  with s k assms show ?thesis by (auto simp: slice_to_def)
qed

lemma safe_id_append:
  assumes "safe_id s" and "list_all id_rest sfx" and "length sfx < 64"
  shows "safe_id (slice_to s (64 - int (length sfx)) @ sfx)"
proof -
  let ?p = "slice_to s (64 - int (length sfx))"
  have p: "?p \<noteq> []" "id_first (hd ?p)" "list_all id_rest (tl ?p)" "length ?p + length sfx \<le> 64"
    using slice_to_safe [OF assms(1), of "64 - int (length sfx)"] assms(3) by auto
  then obtain c r where "?p = c # r" by (cases ?p) auto
  with p assms(2) show ?thesis by (auto simp: safe_id_def)
qed

lemma digest_rest: "hexdigest digest \<Longrightarrow> list_all id_rest (take 12 (digest x)) \<and> length (take 12 (digest x)) = 12"
  by (auto simp: hexdigest_def list_all_iff dest!: in_set_takeD intro: hex_digit_rest)

lemma child_run_id_safe:
  assumes "hexdigest digest" and "safe_id run_id" and "list_all id_rest (id_stem p r row)" and "length (id_stem p r row) \<le> 33"
  shows "safe_id (child_run_id digest run_id p r row)"
  unfolding child_run_id_def Let_def using assms digest_rest [OF assms(1)]
  by (intro safe_id_append) (auto simp: id_suffix_def)

section \<open>Properties of the matrix\<close>

lemma children_run_facts:
  assumes "children_run env rc 0 entries records res" and "i < length records"
  shows "cr_pass_index (records ! i) = me_pass_index (entries ! i)" "cr_row_index (records ! i) = me_row_index (entries ! i)"
    "cr_child_run_id (records ! i) = me_child_run_id (entries ! i)"
    "cr_outcome (records ! i) \<in> {''passed'', ''failed'', ''cancelled''}"
    "cr_outcome (records ! i) = ''passed'' \<Longrightarrow>
       cr_cleanup (records ! i) = [] \<and> validate_child_evidence (mx_fs env i) (entries ! i) rc = Inr ()"
proof -
  have "invoke_child env i rc (entries ! i) = Inr (records ! i)" using assms by (simp add: children_run_def)
  note facts = invoke_child_Inr [OF this]
  show "cr_pass_index (records ! i) = me_pass_index (entries ! i)" "cr_row_index (records ! i) = me_row_index (entries ! i)"
    "cr_child_run_id (records ! i) = me_child_run_id (entries ! i)" by (rule facts)+
  show "cr_outcome (records ! i) \<in> {''passed'', ''failed'', ''cancelled''}" by (rule facts(5))
  show "cr_outcome (records ! i) = ''passed'' \<Longrightarrow>
       cr_cleanup (records ! i) = [] \<and> validate_child_evidence (mx_fs env i) (entries ! i) rc = Inr ()" by (rule facts(6))
qed

section \<open>An example run\<close>

lemma row_dict_total: "list_all (\<lambda>(p, r, row). \<exists>d. row_dict row = Inr d) rh3_schedule"
proof -
  have "list_all (\<lambda>(p, r, row). \<not> isl (stream_count row) \<and> \<not> isl (expected_submitted_per_segment row) \<and>
     \<not> isl (table_at PROFILE_FRAME_US (rs_profile row))) rh3_schedule" by code_simp
  moreover have "\<exists>d. row_dict row = Inr d" if "\<not> isl (stream_count row)" "\<not> isl (expected_submitted_per_segment row)"
    "\<not> isl (table_at PROFILE_FRAME_US (rs_profile row))" for row
    using that by (cases "stream_count row"; cases "expected_submitted_per_segment row"; cases "table_at PROFILE_FRAME_US (rs_profile row)")
      (simp_all add: row_dict_def expected_submitted_per_stream_def minimum_scored_interval_s_def Let_def)
  ultimately show ?thesis by (auto simp: list_all_iff)
qed

lemma rmap_total: "(\<And>x. x \<in> set xs \<Longrightarrow> \<exists>y. f x = Inr y) \<Longrightarrow> \<exists>ys. rmap f xs = Inr ys"
  by (induction xs) (auto simp: rmap_eq_Inr list_all2_Cons1, metis)

lemma schedule_total: "\<exists>entries. schedule digest run_id croot arts = Inr entries"
proof -
  have "\<exists>e. schedule_entry digest run_id croot arts x = Inr e" if "x \<in> set rh3_schedule" for x
    using row_dict_total that by (cases x) (fastforce simp: list_all_iff schedule_entry_def Let_def)
  then show ?thesis unfolding schedule_def by (intro rmap_total)
qed

lemma rsplit_head_join:
  assumes "slash \<notin> set n" and "d \<noteq> []" and "last d \<noteq> slash"
  shows "rsplit_head (path_join d n) = d"
proof -
  have "\<not> startswith n [slash]" using assms(1) by (auto simp: startswith_iff)
  moreover have "\<not> endswith d [slash]" using assms(2,3) by (auto simp: endswith_def) (metis One_nat_def Suc_leI append_take_drop_id last_appendR last_ConsL length_greater_0_conv list.distinct(1))
  ultimately have "path_join d n = d @ [slash] @ n" using assms(2) by (simp add: path_join_def)
  moreover have "dropWhile (\<lambda>c. c \<noteq> slash) (rev n @ [slash] @ rev d) = [slash] @ rev d"
    using assms(1) by (simp add: dropWhile_append)
  ultimately show ?thesis by (simp add: rsplit_head_def)
qed

definition example_host :: host_env where
  "example_host = \<lparr>he_fs = [([''out''], Dir)], he_home = ''/home'', he_repo_root = ''/src'', he_digest = (\<lambda>_. replicate 64 CHR ''0''),
     he_qualification = Inr (), he_artifacts_valid = Inr (), he_artifacts_revalid = Inr (), he_session = Inr ()\<rparr>"

definition example_env :: matrix_env where
  "example_env = \<lparr>mx_reply = (\<lambda>_. ReplyTuple [PStr ''failed'', PStr ''flash'', PNone]), mx_fs = (\<lambda>_. []), mx_unchanged = (\<lambda>_. Inr ()),
     mx_cancel = (\<lambda>_. False), mx_clock = of_nat, mx_utc = (\<lambda>_. Inr ''t''), mx_jsonl = (\<lambda>_. Inr ()), mx_mkdir_matrix = None,
     mx_mkdir_children = None, mx_setup = Inr (), mx_finalize = Inr ()\<rparr>"

definition example_request :: matrix_request where
  "example_request = \<lparr>mq_fixture_path = ''/f.json'', mq_binding_path = ''/b.json'', mq_output_root = PStr ''/out'', mq_run_id = ''m'',
     mq_junit_path = PStr ''/j.xml'', mq_artifacts = None, mq_qualification_path = None, mq_capture_verdict = ''none'',
     mq_session_manifest_path = Some ''/s.json''\<rparr>"

definition example_plan :: matrix_plan where
  "example_plan = \<lparr>mp_fixture = example_fixture, mp_output_root = ''/out'', mp_child_root_id = children_root_id (he_digest example_host) ''m'',
     mp_child_root = path_join ''/out'' (children_root_id (he_digest example_host) ''m''), mp_junit_path = ''/j.xml''\<rparr>"

lemma example_digest: "hexdigest (\<lambda>_. replicate 64 CHR ''0'')"
proof -
  have "hex_digit CHR ''0''" by (simp add: hex_digit_def byte_in_def)
  then show ?thesis by (simp add: hexdigest_def list_all_iff)
qed

lemma safe_id_no_slash: "safe_id s \<Longrightarrow> slash \<notin> set s \<and> s \<noteq> [] \<and> last s \<noteq> slash"
proof -
  assume "safe_id s"
  then have s: "list_all id_rest s" "s \<noteq> []" by (auto simp: safe_id_def id_rest_def list_all_iff split: list.splits)
  have "\<not> id_rest slash" by (simp add: id_rest_def id_first_def byte_in_def)
  then have "slash \<notin> set s" using s(1) by (metis list_all_iff)
  moreover from this have "last s \<noteq> slash" using last_in_set [OF s(2)] by metis
  ultimately show ?thesis using s(2) by simp
qed

lemma example_matrix_run:
  "\<exists>rep. run_prepared example_host example_env example_request example_plan = Inr rep \<and> length (rp_records rep) = 1 \<and> rp_outcome rep = ''failed''"
proof -
  let ?root = "path_join ''/out'' (children_root_id (he_digest example_host) ''m'')"
  obtain entries where s: "schedule (he_digest example_host) ''m'' ?root None = Inr entries" using schedule_total by blast
  have m: "safe_id ''m''" by code_simp
  have dg: "hexdigest (he_digest example_host)" using example_digest by (simp add: example_host_def)
  have mk: "create_run_dir None [([''out''], Dir)] ''/out'' ''m'' = ([([''out'', ''m''], Dir), ([''out''], Dir)], Inr ''/out/m'')" by code_simp
  have mk2: "snd (create_run_dir None [([''out'', ''m''], Dir), ([''out''], Dir)] ''/out'' (children_root_id (he_digest example_host) ''m'')) = Inr ?root"
    by code_simp
  obtain e es where e: "entries = e # es" using schedule_entries(1) [OF s] by (cases entries) auto
  have path: "me_child_evidence_path e = path_join ?root (me_child_run_id e)" using schedule_entries(3) [OF s, of 0] e by simp
  obtain p r row where x: "rh3_schedule ! 0 = (p, r, row)" by (cases "rh3_schedule ! 0")
  have "rh3_schedule ! 0 \<in> set rh3_schedule" using rh3_schedule_keys(2) by simp
  then have "p < 10" "r < 100" using schedule_indices unfolding x list_all_iff by auto
  then have "safe_id (me_child_run_id e)"
    using schedule_entries(3) [OF s, of 0] e x child_run_id_safe [OF dg m] id_stem_safe by simp
  moreover have "?root \<noteq> [] \<and> last ?root \<noteq> slash" by code_simp
  ultimately have "rsplit_head (me_child_evidence_path e) = ?root"
    unfolding path using safe_id_no_slash by (intro rsplit_head_join) auto
  note head = this
  obtain r b where "run_children example_env False 0 [] entries = ([r], Inr (''failed'', Some b))"
    by (simp add: e example_env_def invoke_child_def child_result_def child_outcome_def normalize_cleanup_def Let_def)
  then have "run_body example_env [([''out'', ''m''], Dir), ([''out''], Dir)] example_plan example_request entries = ([r], Inr (''failed'', Some b))"
    using head mk2 by (simp add: run_body_def example_plan_def example_request_def e example_env_def)
  moreover have "create_run_dir (mx_mkdir_matrix example_env) (he_fs example_host) (mp_output_root example_plan) (mq_run_id example_request) =
    ([([''out'', ''m''], Dir), ([''out''], Dir)], Inr ''/out/m'')"
    using mk by (simp add: example_env_def example_host_def example_plan_def example_request_def)
  moreover have "schedule (he_digest example_host) (mq_run_id example_request) (mp_child_root example_plan)
      (map_option av_evidence (mq_artifacts example_request)) = Inr entries"
    using s by (simp add: example_plan_def example_request_def)
  moreover have "mx_finalize example_env = Inr ()" by (simp add: example_env_def)
  ultimately show ?thesis by (simp add: run_prepared_def contain_def report_def)
qed

text \<open>C3: the matrix runs its twenty children in schedule order and stops at the first one that does not pass.  The
  records of every run are those of an initial piece of the schedule, all but the last one passed, and a passed child
  has retained its evidence and reported no cleanup failure; the matrix passes only when all twenty children did.\<close>

theorem matrix_stops_first:
  assumes "run_prepared h env q plan = Inr rep"
  shows "length (rp_entries rep) = 20 \<and> length (rp_records rep) \<le> 20 \<and>
    map cr_child_run_id (rp_records rep) = map me_child_run_id (take (length (rp_records rep)) (rp_entries rep)) \<and>
    (\<forall>i. Suc i < length (rp_records rep) \<longrightarrow> cr_outcome (rp_records rep ! i) = ''passed'') \<and>
    (\<forall>i < length (rp_records rep). cr_outcome (rp_records rep ! i) = ''passed'' \<longrightarrow> cr_cleanup (rp_records rep ! i) = [] \<and>
       validate_child_evidence (mx_fs env i) (rp_entries rep ! i) (mq_qualification_path q \<noteq> None) = Inr ()) \<and>
    rp_outcome rep \<in> {''passed'', ''failed'', ''cancelled''} \<and>
    (rp_outcome rep = ''passed'' \<longrightarrow> length (rp_records rep) = 20 \<and> (\<forall>r \<in> set (rp_records rep). cr_outcome r = ''passed'') \<and>
       matrix_cleanup_failures (rp_records rep) = [])"
proof -
  let ?rc = "mq_qualification_path q \<noteq> None"
  obtain entries records outcome boundary res where r: "rep = report plan q entries records outcome boundary"
    "schedule (he_digest h) (mq_run_id q) (mp_child_root plan) (map_option av_evidence (mq_artifacts q)) = Inr entries"
    "children_run env ?rc 0 entries records res" "outcome \<in> {''passed'', ''failed'', ''cancelled''}"
    "outcome = ''passed'' \<Longrightarrow> \<exists>b. res = Inr (''passed'', b)"
    using run_prepared_Inr [OF assms] by blast
  have len: "length entries = 20" "length records \<le> 20" using schedule_entries(1) [OF r(2)] r(3) by (auto simp: children_run_def)
  have ids: "map cr_child_run_id records = map me_child_run_id (take (length records) entries)"
    using children_run_facts(3) [OF r(3)] len by (intro nth_equalityI) auto
  have all: "length records = 20 \<and> (\<forall>r \<in> set records. cr_outcome r = ''passed'')" if "outcome = ''passed''"
    using r(3) r(5) [OF that] len unfolding children_run_def by auto
  have "matrix_cleanup_failures records = []" if "outcome = ''passed''"
  proof -
    have "\<forall>r \<in> set records. cr_cleanup r = []"
      using all [OF that] children_run_facts(5) [OF r(3)] by (metis in_set_conv_nth)
    then show ?thesis by (simp add: matrix_cleanup_failures_def)
  qed
  with len ids all r(4) children_run_facts(5) [OF r(3)] r(3) show ?thesis
    unfolding r(1) report_def by (auto simp: children_run_def)
qed

theorem matrix_stops_first_witness:
  "\<exists>rep. run_prepared example_host example_env example_request example_plan = Inr rep \<and>
     map cr_child_run_id (rp_records rep) = map me_child_run_id (take 1 (rp_entries rep)) \<and> length (rp_entries rep) = 20"
  using example_matrix_run matrix_stops_first by metis

text \<open>C35: the JUnit report counts what it contains.  For every run its totals are the numbers of its test cases, failures,
  skipped cases and errors; it shows a failure or an error whenever the matrix failed, and no failure, error or
  skipped case exactly when every child passed and the matrix did not fail.\<close>

theorem junit_consistent:
  assumes "run_prepared h env q plan = Inr rep"
  shows "js_tests (rp_junit rep) = int (length (js_cases (rp_junit rep))) \<and>
    js_failures (rp_junit rep) = int (failure_nodes (rp_junit rep)) \<and> js_skipped (rp_junit rep) = int (skipped_nodes (rp_junit rep)) \<and>
    js_errors (rp_junit rep) = int (error_nodes (rp_junit rep)) \<and>
    (rp_outcome rep = ''failed'' \<longrightarrow> 0 < js_failures (rp_junit rep) + js_errors (rp_junit rep)) \<and>
    (js_failures (rp_junit rep) + js_skipped (rp_junit rep) + js_errors (rp_junit rep) = 0 \<longleftrightarrow>
       rp_outcome rep \<noteq> ''failed'' \<and> length (rp_records rep) = 20 \<and> (\<forall>r \<in> set (rp_records rep). cr_outcome r = ''passed''))"
proof -
  let ?rc = "mq_qualification_path q \<noteq> None"
  obtain entries records outcome boundary res where r: "rep = report plan q entries records outcome boundary"
    "schedule (he_digest h) (mq_run_id q) (mp_child_root plan) (map_option av_evidence (mq_artifacts q)) = Inr entries"
    "children_run env ?rc 0 entries records res"
    using run_prepared_Inr [OF assms] by blast
  have len: "length entries = 20" "length records \<le> length entries" using schedule_entries(1) [OF r(2)] r(3) by (auto simp: children_run_def)
  have fields: "rp_junit rep = junit_tree entries records outcome boundary" "rp_outcome rep = outcome" "rp_records rep = records"
    by (simp_all add: r(1) report_def)
  have match: "\<forall>j < length records.
      cr_pass_index (records ! j) = me_pass_index (entries ! j) \<and> cr_row_index (records ! j) = me_row_index (entries ! j)"
    using children_run_facts(1,2) [OF r(3)] by simp
  note counts = junit_tree_counts [OF schedule_entries(2) [OF r(2)] len(2) match fields(1)]
  have kinds: "\<forall>r \<in> set records. cr_outcome r \<in> {''passed'', ''failed'', ''cancelled''}"
    using children_run_facts(4) [OF r(3)] by (metis in_set_conv_nth)
  have zero: "count_outcome oc records = 0 \<longleftrightarrow> (\<forall>r \<in> set records. cr_outcome r \<noteq> oc)" for oc
    by (simp add: count_outcome_def filter_empty_conv)
  have clean: "js_failures (rp_junit rep) + js_skipped (rp_junit rep) + js_errors (rp_junit rep) = 0 \<longleftrightarrow>
      count_outcome ''failed'' records = 0 \<and> count_outcome ''cancelled'' records = 0 \<and> length records = 20 \<and> outcome \<noteq> ''failed''"
    using len unfolding fields junit_tree_def Let_def by (auto split: if_splits)
  have "rp_outcome rep = ''failed'' \<longrightarrow> 0 < js_failures (rp_junit rep) + js_errors (rp_junit rep)"
    unfolding fields junit_tree_def Let_def by auto
  moreover have "(\<forall>r \<in> set records. cr_outcome r = ''passed'') \<longleftrightarrow> count_outcome ''failed'' records = 0 \<and> count_outcome ''cancelled'' records = 0"
    unfolding zero using kinds by fastforce
  ultimately show ?thesis using counts clean unfolding fields(2,3) by blast
qed

theorem junit_consistent_witness:
  "\<exists>rep. run_prepared example_host example_env example_request example_plan = Inr rep \<and>
     js_tests (rp_junit rep) = int (length (js_cases (rp_junit rep))) \<and> 0 < js_failures (rp_junit rep) + js_errors (rp_junit rep)"
  using example_matrix_run junit_consistent by metis

text \<open>every child gets its own safe run id.  With a safe run id for the matrix, the ids of all twenty children and of the
  directory that holds them match the run-id pattern (at most 64 characters), and no two children share one.\<close>

theorem child_ids_safe:
  assumes "hexdigest digest" and "safe_id run_id" and "schedule digest run_id croot arts = Inr entries"
  shows "list_all (\<lambda>e. safe_id (me_child_run_id e)) entries \<and> distinct (map me_child_run_id entries) \<and>
    safe_id (children_root_id digest run_id)"
proof -
  note sch = schedule_entries [OF assms(3)]
  have e: "\<exists>p r row. rh3_schedule ! i = (p, r, row) \<and> me_child_run_id (entries ! i) = child_run_id digest run_id p r row \<and>
      (me_pass_index (entries ! i), me_row_index (entries ! i)) = (p, r) \<and> p < 10 \<and> r < 100 \<and>
      length (split_on CHR ''.'' (safe_row_label (rs_name row))) = 2" if "i < 20" for i
  proof -
    obtain p r row where x: "rh3_schedule ! i = (p, r, row)" by (cases "rh3_schedule ! i")
    have "rh3_schedule ! i \<in> set rh3_schedule" using that rh3_schedule_keys(2) by simp
    then have "p < 10 \<and> r < 100" "take 4 (rs_name row) = ''rh3.''" "CHR ''.'' \<notin> set (drop 4 (rs_name row))"
      using schedule_indices schedule_names unfolding x list_all_iff by (auto simp del: set_drop_subset)
    with sch(3) [OF that] x row_label_fields [of "rs_name row"] show ?thesis by auto
  qed
  have "safe_id (me_child_run_id (entries ! i))" if "i < 20" for i
    using e [OF that] child_run_id_safe [OF assms(1,2)] id_stem_safe by metis
  then have "list_all (\<lambda>e. safe_id (me_child_run_id e)) entries" using sch(1) by (simp add: list_all_length)
  moreover have "distinct (map me_child_run_id entries)"
    unfolding distinct_conv_nth
  proof (intro allI impI)
    fix i j assume ij: "i < length (map me_child_run_id entries)" "j < length (map me_child_run_id entries)" "i \<noteq> j"
    then have l: "i < 20" "j < 20" using sch(1) by simp_all
    show "map me_child_run_id entries ! i \<noteq> map me_child_run_id entries ! j"
    proof
      assume "map me_child_run_id entries ! i = map me_child_run_id entries ! j"
      with e [OF l(1)] e [OF l(2)] child_run_id_inj [OF assms(1)] ij sch(1)
      have "(me_pass_index (entries ! i), me_row_index (entries ! i)) = (me_pass_index (entries ! j), me_row_index (entries ! j))"
        by (metis length_map nth_map)
      with sch(1,2) l ij(3) show False by (auto simp: distinct_conv_nth)
    qed
  qed
  moreover have "safe_id (children_root_id digest run_id)"
    unfolding children_root_id_def Let_def using digest_rest [OF assms(1)]
    by (intro safe_id_append [OF assms(2)]) (auto simp: id_rest_def id_first_def byte_in_def)
  ultimately show ?thesis by blast
qed

theorem child_ids_safe_witness:
  "\<exists>entries. schedule (\<lambda>_. replicate 64 CHR ''0'') ''m'' ''/c'' None = Inr entries \<and> distinct (map me_child_run_id entries)"
proof -
  have "safe_id ''m''" by code_simp
  with child_ids_safe [OF example_digest] schedule_total show ?thesis by blast
qed

end
