(* ===== verification/Py_Float.thy ===== *)
theory Py_Float
  imports Py_Json
begin

text \<open>
  Python's arithmetic on mixed numbers, as far as the scripts use it: comparison of integers and doubles by value,
  conversion of an integer to the nearest double, the rounded product of doubles and truncation.  The lemmas give the
  rounding error of the nearest double and show that a comparison of an integer with a rounded ratio decides the
  comparison with the exact one, as long as the numbers stay below \<open>2 ^ 40\<close>.
\<close>

section \<open>Comparison and arithmetic\<close>

fun to_num :: "pyval \<Rightarrow> pyfloat option" where
  "to_num (PBool b) = Some (Fin (if b then 1 else 0))"
| "to_num (PInt i) = Some (Fin (of_int i))"
| "to_num (PFloat f) = Some f"
| "to_num _ = None"

fun num_lt :: "pyfloat \<Rightarrow> pyfloat \<Rightarrow> bool" where
  "num_lt NaN _ \<longleftrightarrow> False"
| "num_lt _ NaN \<longleftrightarrow> False"
| "num_lt (Fin a) (Fin b) \<longleftrightarrow> a < b"
| "num_lt (Fin _) (Inf p) \<longleftrightarrow> p"
| "num_lt (Inf p) (Fin _) \<longleftrightarrow> \<not> p"
| "num_lt (Inf p) (Inf q) \<longleftrightarrow> \<not> p \<and> q"

text \<open>\<open>v < w\<close> and \<open>v <= w\<close> where one side is a number: any other type on the other side is refused.\<close>

definition unordered :: "pyval \<Rightarrow> pyval \<Rightarrow> exn" where
  "unordered v w = TypeError (Fmt ''not supported between instances of %r and %r'' [AV v, AV w])"

definition py_lt :: "pyval \<Rightarrow> pyval \<Rightarrow> bool result" where
  "py_lt v w =
     (case (to_num v, to_num w) of
        (Some a, Some b) \<Rightarrow> Inr (num_lt a b)
      | _ \<Rightarrow> Inl (unordered v w))"

definition py_le :: "pyval \<Rightarrow> pyval \<Rightarrow> bool result" where
  "py_le v w =
     (case (to_num v, to_num w) of
        (Some a, Some b) \<Rightarrow> Inr (num_lt a b \<or> (a = b \<and> a \<noteq> NaN))
      | _ \<Rightarrow> Inl (unordered v w))"

text \<open>\<open>float (i)\<close>, the product of two doubles, and the product of a double and any number.\<close>

definition overflow_error :: exn where
  "overflow_error = OtherException (text_msg ''OverflowError'')"

definition float_of_int :: "int \<Rightarrow> pyfloat result" where
  "float_of_int i =
     (case double_of_frac (i < 0) (nat \<bar>i\<bar>) 1 of
        Fin q \<Rightarrow> Inr (Fin q)
      | _ \<Rightarrow> Inl overflow_error)"

definition double_of_rat :: "rat \<Rightarrow> pyfloat" where
  "double_of_rat q = (case quotient_of q of (n, d) \<Rightarrow> double_of_frac (n < 0) (nat \<bar>n\<bar>) (nat d))"

fun scale :: "rat \<Rightarrow> pyfloat \<Rightarrow> pyfloat" where
  "scale c (Fin q) = double_of_rat (c * q)"
| "scale c (Inf p) = Inf p"
| "scale c NaN = NaN"

fun ratio_times :: "rat \<Rightarrow> pyval \<Rightarrow> pyfloat result" where
  "ratio_times c (PFloat f) = Inr (scale c f)"
| "ratio_times c (PInt i) = rbind (float_of_int i) (\<lambda>f. Inr (scale c f))"
| "ratio_times c (PBool b) = Inr (scale c (Fin (if b then 1 else 0)))"
| "ratio_times c v = Inl (TypeError (val_msg ''unsupported operand type(s) for *: %r'' v))"

text \<open>\<open>int (f)\<close> truncates; infinities and NaN have no integer value.  The conversion \<open>%d\<close> asks the same of its
  argument and refuses what is not a number.\<close>

fun int_of_float :: "pyfloat \<Rightarrow> int result" where
  "int_of_float (Fin q) = Inr (if q < 0 then \<lceil>q\<rceil> else \<lfloor>q\<rfloor>)"
| "int_of_float (Inf _) = Inl overflow_error"
| "int_of_float NaN = Inl (ValueError (text_msg ''cannot convert float NaN to integer''))"

definition percent_d :: "pyval \<Rightarrow> unit result" where
  "percent_d v =
     (case to_num v of
        None \<Rightarrow> Inl (TypeError (val_msg ''%%d format: a real number is required, not %r'' v))
      | Some f \<Rightarrow> rbind (int_of_float f) (\<lambda>_. Inr ()))"

section \<open>The rounding error\<close>

lemma bit_length_bounds:
  "0 < n \<Longrightarrow> n < 2 ^ bit_length n \<and> 2 ^ bit_length n \<le> 2 * n"
proof (induction n rule: bit_length.induct)
  case (1 n)
  have eq: "bit_length n = Suc (bit_length (n div 2))" using 1(2) by (simp add: bit_length.simps [of n])
  show ?case
  proof (cases "n = 1")
    case True
    have "bit_length n = 1" using True eq by (simp add: bit_length.simps [of 0])
    then show ?thesis using True by simp
  next
    case False
    with 1 have "n div 2 < 2 ^ bit_length (n div 2) \<and> 2 ^ bit_length (n div 2) \<le> 2 * (n div 2)" by simp
    then show ?thesis unfolding eq power_Suc using 1(2) by linarith
  qed
qed

lemma round_half_even_near:
  assumes "0 < b"
  shows "\<bar>of_nat (round_half_even a b) - of_nat a / of_nat b\<bar> \<le> (1 / 2 :: rat)"
proof -
  let ?q = "a div b" and ?r = "a mod b"
  have "of_nat a = (of_nat (?q * b + ?r) :: rat)" by simp
  then have frac: "of_nat a / of_nat b = (of_nat ?q + of_nat ?r / of_nat b :: rat)"
    using assms by (simp only: of_nat_add of_nat_mult add_divide_distrib) simp
  have cast: "(of_nat (2 * ?r) :: rat) = 2 * of_nat ?r" by simp
  have lo: "of_nat ?r / of_nat b \<le> (1 / 2 :: rat)" if "2 * ?r \<le> b"
  proof -
    from that have "(of_nat (2 * ?r) :: rat) \<le> of_nat b" by (simp only: of_nat_le_iff)
    then show ?thesis unfolding cast using assms by (simp add: field_simps)
  qed
  have hi: "(1 / 2 :: rat) \<le> of_nat ?r / of_nat b" if "b \<le> 2 * ?r"
  proof -
    from that have "(of_nat b :: rat) \<le> of_nat (2 * ?r)" by (simp only: of_nat_le_iff)
    then show ?thesis unfolding cast using assms by (simp add: field_simps)
  qed
  have "?r \<le> b" using assms by (simp add: less_imp_le)
  then have range: "0 \<le> of_nat ?r / (of_nat b :: rat)" "of_nat ?r / (of_nat b :: rat) \<le> 1"
    using assms by (auto simp: divide_le_eq_1)
  have "round_half_even a b =
    (if 2 * ?r < b then ?q else if b < 2 * ?r then Suc ?q else if even ?q then ?q else Suc ?q)"
    by (simp add: round_half_even_def Let_def)
  moreover define f where "f = of_nat ?r / (of_nat b :: rat)"
  ultimately show ?thesis
    using lo hi range unfolding frac abs_le_iff f_def [symmetric] by (simp split: if_splits)
qed

text \<open>A positive rational of ordinary size, its nearest double and the unit \<open>2 powi e\<close> of its last place.\<close>

definition last_place :: "rat \<Rightarrow> rat \<Rightarrow> int \<Rightarrow> bool" where
  "last_place x q e \<longleftrightarrow>
     (\<exists>m :: nat. q = of_nat m * 2 powi e) \<and> 2 powi (e + 52) \<le> x \<and> x < 2 powi (e + 53) \<and> \<bar>q - x\<bar> \<le> 2 powi e / 2"

lemma scaled_quotient:
  fixes n d :: nat
  assumes "(if 0 \<le> e then (n, d * 2 ^ nat e) else (n * 2 ^ nat (- e), d)) = (a, b)" and "0 < d"
  shows "0 < b" and "of_nat a / of_nat b = (of_nat n / of_nat d / 2 powi e :: rat)"
  using assms by (auto simp: power_int_def field_simps split: if_splits)

lemma double_of_frac_near:
  fixes n d :: nat
  assumes "0 < n" and "0 < d" and "2 powi (- 10) \<le> (of_nat n / of_nat d :: rat)" and "of_nat n / of_nat d < (2 powi 60 :: rat)"
  shows "\<exists>q e. double_of_frac False n d = Fin q \<and> last_place (of_nat n / of_nat d) q e"
proof -
  let ?x = "of_nat n / of_nat d :: rat" and ?k = "int (bit_length n) - int (bit_length d)"
  define sc where "sc e = (if 0 \<le> e then (n, d * 2 ^ nat e) else (n * 2 ^ nat (- e), d))" for e :: int
  define e1 where "e1 = (case sc (?k - 53) of (a, b) \<Rightarrow> if a < b * 2 ^ 53 then ?k - 53 else ?k - 53 + 1)"
  have quot: "0 < b \<and> of_nat a / of_nat b = (?x / 2 powi e :: rat)" if "sc e = (a, b)" for e a b
    using scaled_quotient [of e n d a b] that assms(2) by (simp add: sc_def)
  have bounds: "of_nat i < (2 powi int (bit_length i) :: rat) \<and> 2 powi int (bit_length i) \<le> (2 * of_nat i :: rat)"
    if "0 < i" for i :: nat
  proof -
    have "of_nat i < (of_nat (2 ^ bit_length i) :: rat)" "of_nat (2 ^ bit_length i) \<le> (of_nat (2 * i) :: rat)"
      using bit_length_bounds [OF that] by (simp_all only: of_nat_less_iff of_nat_le_iff)
    then show ?thesis by simp
  qed
  have pn: "of_nat n < (2 powi int (bit_length n) :: rat)" "2 powi int (bit_length n) \<le> (2 * of_nat n :: rat)"
    and pd: "of_nat d < (2 powi int (bit_length d) :: rat)" "2 powi int (bit_length d) \<le> (2 * of_nat d :: rat)"
    using bounds [OF assms(1)] bounds [OF assms(2)] by auto
  have split: "2 powi ?k = (2 powi int (bit_length n) / 2 powi int (bit_length d) :: rat)"
    by (rule power_int_diff) simp
  have up: "?x < 2 * 2 powi ?k"
  proof -
    have "of_nat n * 2 powi int (bit_length d) < (2 powi int (bit_length n) * (2 * of_nat d) :: rat)"
      using pn(1) pd(2) by (intro mult_less_le_imp_less) auto
    then show ?thesis unfolding split using assms(2) by (simp add: field_simps)
  qed
  have low: "2 powi ?k \<le> 2 * ?x"
  proof -
    have "2 powi int (bit_length n) * of_nat d \<le> (2 * of_nat n * 2 powi int (bit_length d) :: rat)"
      using pn(2) pd(1) by (intro mult_mono) auto
    then show ?thesis unfolding split using assms(2) by (simp add: field_simps)
  qed
  have lt: "a < b * 2 ^ 53 \<longleftrightarrow> ?x < 2 powi ?k" if "sc (?k - 53) = (a, b)" for a b
  proof -
    define x where "x = ?x"
    have ab: "0 < b" "of_nat a / of_nat b = x / 2 powi (?k - 53)" using quot [OF that] by (simp_all add: x_def)
    have "a < b * 2 ^ 53 \<longleftrightarrow> (of_nat a :: rat) < of_nat (b * 2 ^ 53)" by (simp only: of_nat_less_iff)
    also have "\<dots> \<longleftrightarrow> of_nat a / of_nat b < (2 ^ 53 :: rat)"
      using ab(1) by (simp add: pos_divide_less_eq mult.commute)
    also have "\<dots> \<longleftrightarrow> x < 2 powi (?k - 53) * 2 powi 53"
      unfolding ab(2) by (simp add: pos_divide_less_eq mult.commute)
    also have "2 powi (?k - 53) * 2 powi 53 = (2 powi ?k :: rat)"
      by (subst power_int_add [symmetric]) auto
    finally show ?thesis by (simp only: x_def)
  qed
  have e1: "2 powi (e1 + 52) \<le> ?x" "?x < 2 powi (e1 + 53)"
    using up low lt by (auto simp: e1_def power_int_add power_int_diff not_less split: prod.splits)
  have min: "- 1074 \<le> e1"
  proof (rule ccontr)
    assume "\<not> - 1074 \<le> e1"
    then have "2 powi (e1 + 53) \<le> (2 powi (- 10) :: rat)" by (intro power_int_increasing) auto
    with e1(2) assms(3) show False by simp
  qed
  obtain a b where ab: "sc e1 = (a, b)" by fastforce
  let ?q = "of_nat (round_half_even a b) * 2 powi e1 :: rat"
  have "\<bar>of_nat (round_half_even a b) - ?x / 2 powi e1\<bar> \<le> 1 / 2"
    using round_half_even_near [of b a] quot [OF ab] by simp
  then have "\<bar>of_nat (round_half_even a b) - ?x / 2 powi e1\<bar> * 2 powi e1 \<le> 1 / 2 * 2 powi e1"
    by (intro mult_right_mono) auto
  then have near: "\<bar>?q - ?x\<bar> \<le> 2 powi e1 / 2"
    by (simp add: abs_mult_pos left_diff_distrib)
  have "2 powi e1 \<le> ?x"
    using e1(1) power_int_increasing [of e1 "e1 + 52" "2 :: rat"] by simp
  with near assms(4) have "?q < 2 * 2 powi 60" unfolding abs_le_iff by linarith
  then have "?q < 2 ^ 1024" by (rule less_le_trans) simp
  moreover have "double_of_frac False n d = (if 2 ^ 1024 \<le> ?q then Inf True else Fin ?q)"
    using ab min unfolding double_of_frac_def e1_def [symmetric] sc_def [symmetric] Let_def
    by (simp add: power_int_def power_one_over)
  ultimately have "double_of_frac False n d = Fin ?q" by simp
  with e1 near show ?thesis unfolding last_place_def by blast
qed

text \<open>An integer of that size is a multiple of the unit; two multiples closer than the unit are equal.\<close>

lemma last_place_small:
  assumes "last_place x q e" and "x < 2 powi 50"
  shows "e < 0"
proof (rule ccontr)
  assume "\<not> e < 0"
  then have "(2 powi 50 :: rat) \<le> 2 powi (e + 52)" by (intro power_int_increasing) auto
  with assms show False by (simp add: last_place_def)
qed

lemma last_place_exact:
  assumes "last_place x q e" and "e < 0" and "\<bar>of_int i - x\<bar> < 2 powi e / 2"
  shows "q = of_int i"
proof -
  from assms(1) obtain m :: nat where m: "q = of_nat m * 2 powi e" by (auto simp: last_place_def)
  have i: "of_int i = (of_int (i * 2 ^ nat (- e)) * 2 powi e :: rat)"
    using assms(2) by (simp add: power_int_def power_one_over)
  have "\<bar>q - of_int i\<bar> < 2 powi e"
    using assms(1,3) unfolding last_place_def abs_less_iff abs_le_iff by linarith
  then have "\<bar>of_int (int m - i * 2 ^ nat (- e)) :: rat\<bar> * 2 powi e < 1 * 2 powi e"
    unfolding m by (subst (asm) i) (simp add: abs_mult flip: left_diff_distrib)
  then have "\<bar>of_int (int m - i * 2 ^ nat (- e)) :: rat\<bar> < of_int 1"
    by (subst (asm) mult_less_cancel_right_pos) auto
  then have "int m = i * 2 ^ nat (- e)"
    by (simp only: of_int_abs [symmetric] of_int_less_iff)
  then have "of_int (int m) * 2 powi e = (of_int i :: rat)" by (simp only: i [symmetric])
  then show ?thesis unfolding m by simp
qed

lemma float_of_int_exact:
  assumes "0 \<le> i" and "i < 2 ^ 40"
  shows "float_of_int i = Inr (Fin (of_int i))"
proof (cases "i = 0")
  case True
  then show ?thesis
    by (simp add: float_of_int_def double_of_frac_def bit_length.simps round_half_even_def Let_def)
next
  case False
  with assms(1) have i: "of_nat (nat i) / of_nat 1 = (of_int i :: rat)" "0 < nat i" by auto
  have "(of_int 1 :: rat) \<le> of_int i" "(of_int i :: rat) < of_int (2 ^ 40)"
    using assms False by (simp_all only: of_int_le_iff of_int_less_iff)
  then have size: "1 \<le> (of_int i :: rat)" "of_int i < (2 powi 50 :: rat)" by simp_all
  then obtain q e where q: "double_of_frac False (nat i) 1 = Fin q" "last_place (of_int i) q e"
    using double_of_frac_near [of "nat i" 1] i by auto
  have "q = of_int i"
    using last_place_exact [OF q(2) last_place_small [OF q(2) size(2)], of i] by simp
  with q(1) assms(1) show ?thesis by (simp add: float_of_int_def)
qed

text \<open>A ratio \<open>x\<close> with a small denominator and a double product \<open>x * (1 + \<delta>)\<close> just above it: rounding the
  product gives a double that compares with every integer as \<open>x\<close> does.\<close>

lemma rounded_ratio_compares:
  assumes x: "x = of_int j / of_nat d" "0 < d" "d \<le> 20" "2 powi (- 10) \<le> x" "x < 2 powi 40"
    and delta: "0 \<le> \<delta>" "\<delta> \<le> 2 powi (- 54)"
  shows "\<exists>q. double_of_rat (x * (1 + \<delta>)) = Fin q \<and>
    (\<forall>v :: int. (of_int v < q \<longleftrightarrow> of_int v < x) \<and> (q < of_int v \<longleftrightarrow> x < of_int v))"
proof -
  let ?y = "x * (1 + \<delta>)"
  obtain n k where nk: "quotient_of ?y = (n, k)" by fastforce
  have d1: "\<delta> \<le> 1" using delta(2) by (rule order_trans) simp
  define w where "w = x * \<delta>"
  have "0 < x" using x(4) by (rule less_le_trans [rotated]) simp
  have xd: "0 \<le> w" "w * 2 powi 54 \<le> x" "w \<le> x" "0 < x"
  proof -
    show "0 \<le> w" "0 < x" using \<open>0 < x\<close> delta(1) by (simp_all add: w_def)
    have "x * \<delta> \<le> x * 2 powi (- 54)" "x * \<delta> \<le> x * 1"
      using \<open>0 < x\<close> delta(2) d1 by (auto intro!: mult_left_mono simp del: power_int_minus)
    then show "w * 2 powi 54 \<le> x" "w \<le> x" by (simp_all add: w_def)
  qed
  have y: "?y = x + w" by (simp add: w_def distrib_left)
  have "0 < k" "?y = of_int n / of_int k" using nk by (auto simp: quotient_of_denom_pos quotient_of_div)
  moreover from this have "0 < n" using xd y by (metis add_pos_nonneg zero_less_divide_iff of_int_0_less_iff less_asym)
  ultimately have frac: "0 < nat n" "0 < nat k" "of_nat (nat n) / of_nat (nat k) = ?y" "\<not> n < 0" by auto
  have "2 powi (- 10) \<le> ?y" "?y < 2 powi 50" "?y < 2 powi 60"
    using x(4,5) xd unfolding y by simp_all
  then obtain q e where q: "double_of_frac False (nat n) (nat k) = Fin q" "last_place ?y q e" "e < 0"
    using double_of_frac_near [OF frac(1,2)] unfolding frac(3) by (metis last_place_small)
  have unit: "2 powi (e + 52) = 2 powi 52 * (2 powi e :: rat)" "2 powi (e + 53) = 2 powi 53 * (2 powi e :: rat)"
    by (simp_all add: power_int_add)
  have near: "w < 2 powi e / 2" "\<bar>q - x\<bar> < 2 powi e" "2 powi e < (1 / 20 :: rat)"
    using q(2) xd x(5) unfolding last_place_def y unit abs_le_iff abs_less_iff by simp_all
  have val: "double_of_rat ?y = Fin q"
    using q(1) frac(4) nk by (simp add: double_of_rat_def)
  show ?thesis
  proof (cases "\<exists>i. x = of_int i")
    case True
    then obtain i where i: "x = of_int i" by blast
    have "q = of_int i" using last_place_exact [OF q(2,3), of i] near(1) xd(1) unfolding i [symmetric] y by simp
    with val i show ?thesis by auto
  next
    case False
    have gap: "1 / 20 \<le> \<bar>of_int v - x\<bar>" for v :: int
    proof -
      have "of_int v - x = of_int (v * int d - j) / (of_nat d :: rat)"
        using x(1,2) by (simp add: diff_divide_distrib)
      then have eq: "\<bar>of_int v - x\<bar> = \<bar>of_int (v * int d - j)\<bar> / (of_nat d :: rat)"
        by (simp only: abs_divide abs_of_nat)
      have "j \<noteq> v * int d" using False x(1,2) by auto
      then have "1 \<le> \<bar>v * int d - j\<bar>" by linarith
      then have "1 / of_nat d \<le> \<bar>of_int (v * int d - j)\<bar> / (of_nat d :: rat)"
        by (intro divide_right_mono) (simp_all only: of_int_abs [symmetric] of_int_1_le_iff of_nat_0_le_iff)
      moreover have "1 / (20 :: rat) \<le> 1 / of_nat d" using x(2,3) by (simp add: frac_le)
      ultimately show ?thesis unfolding eq by (rule order_trans [rotated])
    qed
    have close: "\<bar>q - x\<bar> < 1 / 20" using near(2,3) by (rule less_trans)
    have "(of_int v < q \<longleftrightarrow> of_int v < x) \<and> (q < of_int v \<longleftrightarrow> x < of_int v)" for v :: int
      using close gap [of v] unfolding abs_if by (auto split: if_splits)
    with val show ?thesis by blast
  qed
qed

lemma ratio_times_compares:
  assumes c: "c = of_int n / of_nat d * (1 + \<delta>)" "0 < n" "n \<le> int d" "d \<le> 20" "0 \<le> \<delta>" "\<delta> \<le> 2 powi (- 54)"
    and i: "0 \<le> i" "i < 2 ^ 40"
  shows "\<exists>q. ratio_times c (PInt i) = Inr (Fin q) \<and>
    (\<forall>v. (of_int v < q \<longleftrightarrow> v * int d < n * i) \<and> (q < of_int v \<longleftrightarrow> n * i < v * int d))"
proof (cases "i = 0")
  case True
  have "double_of_rat 0 = double_of_frac False 0 1" by (simp add: double_of_rat_def)
  also have "\<dots> = Fin 0" by (simp add: double_of_frac_def bit_length.simps round_half_even_def Let_def)
  finally have "double_of_rat 0 = Fin 0" .
  then have "ratio_times c (PInt i) = Inr (Fin 0)" using True float_of_int_exact [of 0] by simp
  moreover have "0 < int d" using c(2,3) by linarith
  ultimately show ?thesis using True by (intro exI [of _ 0]) (simp add: mult_less_0_iff zero_less_mult_iff)
next
  case False
  let ?x = "of_int (n * i) / of_nat d :: rat"
  have d: "0 < d" using c(2,3) by simp
  have cast: "(of_int (a * int d) :: rat) = of_int a * of_nat d" for a by simp
  have size: "2 powi (- 10) \<le> ?x" "?x < 2 powi 40"
  proof -
    have "1 \<le> n * i" using False i(1) c(2) by (simp add: int_one_le_iff_zero_less)
    then have "int d \<le> n * i * 20" using c(4) by linarith
    then have "(of_int (1 * int d) :: rat) \<le> of_int (n * i * 20)" by (simp only: of_int_le_iff mult_1)
    then have "1 / 20 \<le> ?x" using d by (simp add: field_simps)
    then show "2 powi (- 10) \<le> ?x" by (rule order_trans [rotated]) simp
    have "n * i \<le> int d * i" using c(3) i(1) by (rule mult_right_mono)
    also have "\<dots> < int d * 2 ^ 40" using i(2) d by simp
    finally have "of_int (n * i) < (of_int (2 ^ 40 * int d) :: rat)" by (simp only: of_int_less_iff mult.commute)
    then show "?x < 2 powi 40" using d unfolding cast by (simp add: pos_divide_less_eq)
  qed
  obtain q where q: "double_of_rat (?x * (1 + \<delta>)) = Fin q"
    "\<And>v. (of_int v < q \<longleftrightarrow> of_int v < ?x) \<and> (q < of_int v \<longleftrightarrow> ?x < of_int v)"
    using rounded_ratio_compares [OF refl d c(4) size c(5,6)] by blast
  have "of_int v < ?x \<longleftrightarrow> v * int d < n * i" "?x < of_int v \<longleftrightarrow> n * i < v * int d" for v
    using d unfolding pos_less_divide_eq [OF d [folded of_nat_0_less_iff [where 'a = rat]]]
      pos_divide_less_eq [OF d [folded of_nat_0_less_iff [where 'a = rat]]] cast [symmetric] of_int_less_iff by auto
  moreover have "c * of_int i = ?x * (1 + \<delta>)" using c(1) by simp
  ultimately show ?thesis using q float_of_int_exact [OF i] by simp
qed

end
