(* ===== verification/Hil_Receiver.thy ===== *)
theory Hil_Receiver
  imports Py_Float
begin

text \<open>
  The receiver validators of \<open>scripts/hil/receiver.py\<close>: the frozen transport limits of one stream summary, the
  ISO link-quality snapshot, the audio fault counters, the FLPR handshake, the active and the stopped snapshot of
  the FLPR offload plane, and the recovery evidence of the named fault rows.  Each takes the dictionaries that the
  console parsers return and yields the list of its complaints, empty when the evidence passes.  Comparisons of
  values that are not numbers raise \<open>TypeError\<close>, so such a validator returns a result.
\<close>

section \<open>Transport limits of one stream\<close>

text \<open>The literals \<open>0.90\<close> and \<open>0.05\<close> are the nearest doubles.\<close>

definition RX_VALID_RATIO_FLOOR :: rat where
  "RX_VALID_RATIO_FLOOR = 8106479329266893 / 2 ^ 53"

definition PLC_RATIO_CEILING :: rat where
  "PLC_RATIO_CEILING = 7205759403792794 / 2 ^ 57"

text \<open>\<open>0.90 * expected_submitted\<close> and the floor check on \<open>rx_valid\<close>.\<close>

definition check_rx_valid :: "pyval \<Rightarrow> int \<Rightarrow> msg list result" where
  "check_rx_valid rx_valid expected_submitted =
     (if rx_valid = PNone then Inr [text_msg ''rx_valid missing (firmware summary without extended fields)'']
      else
        rbind (ratio_times RX_VALID_RATIO_FLOOR (PInt expected_submitted)) (\<lambda>limit.
        rbind (py_lt rx_valid (PFloat limit)) (\<lambda>below.
          if \<not> below then Inr []
          else
            rbind (int_of_float limit) (\<lambda>need.
            rbind (percent_d rx_valid) (\<lambda>_.
              Inr [Fmt ''rx_valid=%d below floor: need >= %d (90%% of %d submitted)''
                     [AV rx_valid, AV (PInt need), AV (PInt expected_submitted)]])))))"

definition check_zero_field :: "pydict \<Rightarrow> string \<Rightarrow> msg list result" where
  "check_zero_field summary field =
     (let value = dict_get summary field in
      if value = PNone then Inr [str_msg ''%s missing (extended fields required)'' field]
      else if \<not> py_eq value (PInt 0)
      then rbind (percent_d value) (\<lambda>_. Inr [Fmt ''%s=%d (must be 0)'' [AV (PStr field), AV value]])
      else Inr [])"

definition check_plc :: "pyval \<Rightarrow> pyval \<Rightarrow> msg list result" where
  "check_plc decoded plc =
     (if decoded = PNone \<or> plc = PNone then Inr [text_msg ''decoded/plc missing from stream summary'']
      else
        rbind (py_lt (PInt 0) decoded) (\<lambda>some.
          if \<not> some then Inr []
          else
            rbind (ratio_times PLC_RATIO_CEILING decoded) (\<lambda>limit.
            rbind (py_lt (PFloat limit) plc) (\<lambda>above.
              if \<not> above then Inr []
              else
                rbind (int_of_float limit) (\<lambda>need.
                rbind (percent_d plc) (\<lambda>_.
                rbind (percent_d decoded) (\<lambda>_.
                  Inr [Fmt ''plc=%d above ceiling: need <= %d (5%% of decoded=%d)''
                         [AV plc, AV (PInt need), AV decoded]])))))))"

definition validate_stream_transport :: "pydict \<Rightarrow> int \<Rightarrow> msg list result" where
  "validate_stream_transport summary expected_submitted =
     rbind (check_rx_valid (dict_get summary ''rx_valid'') expected_submitted) (\<lambda>a.
     rbind (rmap (check_zero_field summary) [''rx_error'', ''rx_unknown'', ''empty_sdu'']) (\<lambda>b.
     rbind (check_plc (dict_get summary ''decoded'') (dict_get summary ''plc'')) (\<lambda>c.
       Inr (a @ concat b @ c))))"

section \<open>ISO link quality\<close>

definition is_nonnegative_int :: "pyval \<Rightarrow> bool" where
  "is_nonnegative_int v \<longleftrightarrow> isinstance_int v \<and> \<not> isinstance_bool v \<and> 0 \<le> int_value v"

definition ISO_FIELDS :: "string list" where
  "ISO_FIELDS =
     [''handle'', ''tx_unacked'', ''tx_flushed'', ''tx_last_subevent'', ''retransmitted'', ''crc_error'',
      ''rx_unreceived'', ''duplicate'']"

definition ISO_SELECTED_FIELDS :: "string list" where
  "ISO_SELECTED_FIELDS =
     [''iso_interval_1250us'', ''nse'', ''cig_sync_us'', ''cis_sync_us'', ''c_max_pdu'', ''c_phy'', ''c_bn'',
      ''c_flush_1250us'']"

text \<open>The slot check of one record, with the set of slots seen so far.\<close>

definition check_iso_slot :: "int \<Rightarrow> int list \<Rightarrow> pyval \<Rightarrow> msg list \<times> int list" where
  "check_iso_slot stream_count seen slot =
     (if \<not> isinstance_int slot \<or> isinstance_bool slot \<or> int_value slot < 0
      then ([text_msg ''ISO link quality slot malformed''], seen)
      else if stream_count \<le> int_value slot
      then ([Fmt ''ISO link quality slot %d out of range [0, %d)'' [AV slot, AV (PInt stream_count)]], seen)
      else if int_value slot \<in> set seen
      then ([val_msg ''ISO link quality duplicate slot %d'' slot], seen)
      else ([], seen @ [int_value slot]))"

definition check_iso_fields :: "pydict \<Rightarrow> msg list" where
  "check_iso_fields record =
     concat (map (\<lambda>field.
       let value = dict_get record field in
       if \<not> isinstance_int value \<or> isinstance_bool value \<or> int_value value < 0
       then [str_msg ''ISO link quality %s malformed'' field] else []) ISO_FIELDS) @
     concat (map (\<lambda>field.
       let value = dict_get record field in
       if \<not> isinstance_int value \<or> isinstance_bool value \<or> int_value value \<le> 0
       then [str_msg ''ISO link quality %s malformed'' field] else []) ISO_SELECTED_FIELDS)"

fun check_iso_streams :: "int \<Rightarrow> int list \<Rightarrow> pyval list \<Rightarrow> msg list \<times> int list" where
  "check_iso_streams stream_count seen [] = ([], seen)"
| "check_iso_streams stream_count seen (PDict record # streams) =
     (case check_iso_slot stream_count seen (dict_get record ''slot'') of (a, seen') \<Rightarrow>
        (case check_iso_streams stream_count seen' streams of (b, seen'') \<Rightarrow>
           (a @ check_iso_fields record @ b, seen'')))"
| "check_iso_streams stream_count seen (_ # streams) =
     (case check_iso_streams stream_count seen streams of (b, seen'') \<Rightarrow>
        (text_msg ''ISO link quality stream record malformed'' # b, seen''))"

definition validate_iso_link_quality :: "pyval \<Rightarrow> int \<Rightarrow> msg list" where
  "validate_iso_link_quality parsed stream_count =
     (case parsed of
        PDict p \<Rightarrow>
          (let errors =
             (if \<not> is_True (dict_get p ''header_seen'') then [text_msg ''ISO link quality header missing''] else []) @
             (if is_True (dict_get p ''malformed'') then [text_msg ''ISO link quality grammar malformed''] else [])
           in case dict_get p ''streams'' of
                PList streams \<Rightarrow>
                  (case check_iso_streams stream_count [] streams of (found, seen) \<Rightarrow>
                     let missing = filter (\<lambda>slot. slot \<notin> set seen) [0 .. stream_count - 1] in
                     errors @
                     (if int (length streams) \<noteq> stream_count
                      then [Fmt ''ISO link quality expected %d stream records, got %d''
                              [AV (PInt stream_count), AV (PInt (int (length streams)))]]
                      else []) @
                     found @
                     (if missing \<noteq> []
                      then [val_msg ''ISO link quality missing slot(s): %r'' (PList (map PInt missing))]
                      else []))
              | _ \<Rightarrow> errors @ [text_msg ''ISO link quality stream records missing''])
      | _ \<Rightarrow> [text_msg ''ISO link quality parser result missing''])"

section \<open>Audio faults and the handshake\<close>

definition AUDIO_FAULT_LABELS :: "(string \<times> string) list" where
  "AUDIO_FAULT_LABELS =
     [(''decode_errors'', ''Decode errors''), (''i2s_underruns'', ''I2S underruns''),
      (''stream_resets'', ''Stream resets''), (''push_failures'', ''Push failures'')]"

definition validate_audio_faults :: "pyval \<Rightarrow> msg list" where
  "validate_audio_faults audio_faults =
     (case audio_faults of
        PDict faults \<Rightarrow>
          concat (map (\<lambda>(field, label).
            let value = dict_get faults field in
            if value = PNone then [str_msg ''%s missing'' label]
            else if \<not> py_eq value (PInt 0) then [Fmt ''%s=%r'' [AV (PStr label), AV value]]
            else []) AUDIO_FAULT_LABELS)
      | _ \<Rightarrow> [text_msg ''audio faults missing''])"

definition HANDSHAKE_FLAGS :: "(string \<times> string) list" where
  "HANDSHAKE_FLAGS = [(''ready'', ''Ready''), (''acked'', ''ACKed''), (''healthy'', ''Healthy'')]"

definition HANDSHAKE_COUNTERS :: "(string \<times> string) list" where
  "HANDSHAKE_COUNTERS =
     [(''err_len'', ''errors len''), (''err_ver'', ''errors ver''), (''err_unk'', ''errors unk''),
      (''err_send'', ''errors send''), (''rx_lost'', ''RX lost''), (''rx_dup'', ''RX dup''), (''rx_ooo'', ''RX ooo''),
      (''rx_missed'', ''RX missed'')]"

definition validate_handshake :: "pyval \<Rightarrow> msg list" where
  "validate_handshake handshake =
     (case handshake of
        PDict h \<Rightarrow>
          concat (map (\<lambda>(field, label).
            if \<not> is_True (dict_get h field)
            then [Fmt ''handshake %s=%r'' [AV (PStr label), AV (dict_get h field)]] else []) HANDSHAKE_FLAGS) @
          concat (map (\<lambda>(field, label).
            let value = dict_get h field in
            if value = PNone then [str_msg ''handshake %s missing'' label]
            else if \<not> py_eq value (PInt 0) then [Fmt ''handshake %s=%r'' [AV (PStr label), AV value]]
            else []) HANDSHAKE_COUNTERS)
      | _ \<Rightarrow> [text_msg ''handshake missing''])"

section \<open>Recovery evidence\<close>

text \<open>A fresh copy of the snapshot in which the optional counters read 0 where the parser left \<open>-1\<close>.\<close>

definition normalized_recovery_baseline :: "pydict \<Rightarrow> pydict" where
  "normalized_recovery_baseline offload =
     foldl (\<lambda>baseline field.
       if py_eq (dict_get baseline field) (PInt (- 1)) then dict_set baseline field (PInt 0) else baseline)
       offload [''runtime_restarts'', ''runtime_fails'', ''hb_dedup'']"

definition BASELINE_FIELDS :: "string list" where
  "BASELINE_FIELDS =
     [''recovery_attempts'', ''recovery_fail'', ''relapses'', ''exhaustion'', ''probation_cleared'',
      ''runtime_restarts'', ''epoch'', ''success'', ''fallback'']"

text \<open>The baseline may hold booleans here: only \<open>isinstance (value, int)\<close> is asked.\<close>

definition check_baseline :: "pydict \<Rightarrow> msg list" where
  "check_baseline baseline =
     concat (map (\<lambda>field.
       if \<not> isinstance_int (dict_get baseline field) \<or> int_value (dict_get baseline field) < 0
       then [str_msg ''recovery baseline %s missing'' field] else []) BASELINE_FIELDS)"

text \<open>The comparison of the snapshot with the baseline; \<open>base\<close> reads a field that \<open>check_baseline\<close> accepted.\<close>

definition compare_recovery :: "pydict \<Rightarrow> string \<Rightarrow> pyval \<Rightarrow> (string \<Rightarrow> int) \<Rightarrow> msg list result" where
  "compare_recovery offload fault ack base =
     rbind (py_lt (dict_get_or offload ''probation_cleared'' (PInt (- 1))) (PInt (base ''probation_cleared'' + 1)))
       (\<lambda>not_cleared.
     rbind (py_le (dict_get_or offload ''fallback'' (PInt (- 1))) (PInt (base ''fallback''))) (\<lambda>no_fallback.
     rbind (py_le (dict_get_or offload ''success'' (PInt (- 1))) (PInt (base ''success''))) (\<lambda>no_success.
       Inr
        ((if fault = ''hang''
          then (if \<not> py_eq ack (PStr ''FAULT_HANG_ACK'') then [text_msg ''hang ACK missing''] else [])
          else if \<not> py_eq ack (PStr ''TIMED_STALL_ACK'') then [text_msg ''timed stall ACK missing''] else []) @
         (if \<not> py_eq (dict_get offload ''recovery_attempts'') (PInt (base ''recovery_attempts'' + 1))
          then [text_msg ''recovery attempts delta''] else []) @
         (if \<not> py_eq (dict_get offload ''recovery_fail'') (PInt (base ''recovery_fail''))
          then [text_msg ''recovery fail changed''] else []) @
         (if \<not> py_eq (dict_get offload ''relapses'') (PInt (base ''relapses''))
          then [text_msg ''recovery relapses changed''] else []) @
         (if \<not> py_eq (dict_get offload ''exhaustion'') (PInt (base ''exhaustion''))
          then [text_msg ''recovery exhaustion changed''] else []) @
         (if \<not> py_eq (dict_get offload ''probation_active'') (PInt 0)
          then [text_msg ''recovery probation active''] else []) @
         (if not_cleared then [text_msg ''recovery probation not cleared''] else []) @
         (if py_eq (dict_get offload ''epoch'') (PInt (base ''epoch''))
          then [text_msg ''recovery epoch unchanged''] else []) @
         (if no_fallback then [text_msg ''recovery fallback missing''] else []) @
         (if no_success then [text_msg ''recovery success did not resume''] else []) @
         (if fault = ''hang''
          then (if \<not> py_eq (dict_get offload ''runtime_restarts'') (PInt (base ''runtime_restarts'' + 1))
                then [text_msg ''hang runtime restart delta''] else [])
          else if \<not> py_eq (dict_get offload ''runtime_restarts'') (PInt (base ''runtime_restarts''))
          then [text_msg ''stall runtime restart changed''] else [])))))"

definition validate_recovery :: "pydict \<Rightarrow> pyval \<Rightarrow> msg list result" where
  "validate_recovery offload recovery =
     (case recovery of
        PDict r \<Rightarrow>
          (let fault = dict_get r ''fault'' in
           if \<not> (py_eq fault (PStr ''hang'') \<or> py_eq fault (PStr ''stall''))
           then Inr [val_msg ''recovery fault=%r'' fault]
           else
             (case dict_get r ''baseline'' of
                PDict baseline \<Rightarrow>
                  if check_baseline baseline \<noteq> [] then Inr (check_baseline baseline)
                  else compare_recovery offload (if py_eq fault (PStr ''hang'') then ''hang'' else ''stall'')
                         (dict_get r ''ack'') (\<lambda>field. int_value (dict_get baseline field))
              | _ \<Rightarrow> Inr [text_msg ''recovery baseline missing'']))
      | _ \<Rightarrow> Inr [text_msg ''recovery evidence missing''])"

section \<open>The active offload snapshot\<close>

definition OFFLOAD_FAULT_FIELDS :: "string list" where
  "OFFLOAD_FAULT_FIELDS =
     [''fault_timeout'', ''fault_full'', ''fault_stale'', ''fault_seq'', ''fault_frame'', ''fault_crc'',
      ''fault_payload'']"

definition ACTIVE_COUNTERS :: "string list" where
  "ACTIVE_COUNTERS =
     [''fallback'', ''busy'', ''recovery_attempts'', ''recovery_fail'', ''relapses'', ''exhaustion'',
      ''probation_active'']"

definition unsupported_profile :: "string \<Rightarrow> exn" where
  "unsupported_profile profile = ReceiverError (str_msg ''unsupported receiver validation profile %r'' profile)"

definition absent :: "pyval \<Rightarrow> bool" where
  "absent value \<longleftrightarrow> value = PNone \<or> py_eq value (PInt (- 1))"

definition check_disabled :: "string \<Rightarrow> pyval \<Rightarrow> msg list" where
  "check_disabled field value =
     (if \<not> isinstance_int value \<or> isinstance_bool value
      then [str_msg ''offload %s missing or malformed'' field]
      else if \<not> py_eq value (PInt 0)
      then [Fmt ''offload %s=%d but offload-disabled run expects 0'' [AV (PStr field), AV value]]
      else [])"

definition check_submit_success :: "pydict \<Rightarrow> pyval \<Rightarrow> bool \<Rightarrow> bool \<Rightarrow> msg list" where
  "check_submit_success offload recovery allow_moving_single_pending allow_offload_disabled =
     (let submit = dict_get offload ''submit''; success = dict_get offload ''success'' in
      if allow_offload_disabled then check_disabled ''submit'' submit @ check_disabled ''success'' success
      else if \<not> isinstance_int submit \<or> isinstance_bool submit \<or> int_value submit < 1
      then [text_msg ''offload submit missing or zero'']
      else if recovery = PNone then
        (let moving_single_pending =
               allow_moving_single_pending \<and> isinstance_int success \<and> \<not> isinstance_bool success \<and>
               0 \<le> int_value success \<and> int_value submit = int_value success + 1
         in if \<not> py_eq submit success \<and> \<not> moving_single_pending
            then [text_msg ''offload submit/success mismatch''] else [])
      else [])"

definition check_offload_profile :: "pydict \<Rightarrow> string \<Rightarrow> pyval \<Rightarrow> bool \<Rightarrow> bool \<Rightarrow> msg list result" where
  "check_offload_profile offload profile recovery allow_moving_single_pending allow_offload_disabled =
     (if profile = ''48_4_1''
      then Inr (check_submit_success offload recovery allow_moving_single_pending allow_offload_disabled)
      else if profile = ''48_3_1''
      then Inr (concat (map (\<lambda>field.
             if \<not> py_eq (dict_get offload field) (PInt 0)
             then [Fmt ''7.5 ms offload %s=%r'' [AV (PStr field), AV (dict_get offload field)]] else [])
             [''submit'', ''success'', ''fallback'', ''busy'']))
      else Inl (unsupported_profile profile))"

definition check_active_counters :: "pydict \<Rightarrow> string \<Rightarrow> pyval \<Rightarrow> msg list" where
  "check_active_counters offload profile recovery =
     concat (map (\<lambda>field.
       let value = dict_get offload field in
       if absent value then [str_msg ''offload %s missing'' field]
       else if recovery = PNone \<and> profile = ''48_4_1'' \<and> \<not> py_eq value (PInt 0)
       then [Fmt ''offload %s=%r'' [AV (PStr field), AV value]] else []) ACTIVE_COUNTERS)"

definition check_active_faults :: "pydict \<Rightarrow> pyval \<Rightarrow> msg list" where
  "check_active_faults offload recovery =
     concat (map (\<lambda>field.
       let value = dict_get offload field in
       if absent value then [str_msg ''offload %s missing'' field]
       else if recovery \<noteq> PNone \<and> field \<in> {''fault_timeout'', ''fault_full''} then []
       else if \<not> py_eq value (PInt 0) then [Fmt ''offload %s=%r'' [AV (PStr field), AV value]]
       else []) OFFLOAD_FAULT_FIELDS)"

definition validate_active_offload :: "pyval \<Rightarrow> string \<Rightarrow> pyval \<Rightarrow> bool \<Rightarrow> bool \<Rightarrow> msg list result" where
  "validate_active_offload offload profile recovery allow_moving_single_pending allow_offload_disabled =
     (case offload of
        PDict off \<Rightarrow>
          rbind (check_offload_profile off profile recovery allow_moving_single_pending allow_offload_disabled)
            (\<lambda>a.
          rbind (if recovery \<noteq> PNone then validate_recovery off recovery else Inr []) (\<lambda>b.
            Inr ((if \<not> py_eq (dict_get off ''state'') (PStr ''ACTIVE'')
                  then [val_msg ''offload state=%r'' (dict_get off ''state'')] else []) @
                 a @ check_active_counters off profile recovery @ b @ check_active_faults off recovery)))
      | _ \<Rightarrow> Inr [text_msg ''offload missing''])"

definition validate_receiver_blocks :: "pyval \<Rightarrow> pyval \<Rightarrow> pyval \<Rightarrow> string \<Rightarrow> pyval \<Rightarrow> bool \<Rightarrow> msg list result" where
  "validate_receiver_blocks audio_faults offload handshake profile recovery allow_moving_single_pending =
     (if profile \<notin> {''48_4_1'', ''48_3_1''} then Inl (unsupported_profile profile)
      else
        rbind (validate_active_offload offload profile recovery allow_moving_single_pending False) (\<lambda>b.
          Inr (validate_audio_faults audio_faults @ b @ validate_handshake handshake)))"

section \<open>The stopped offload snapshot\<close>

text \<open>The accounting of accepted submits, reached when both counters are non-negative integers.\<close>

definition check_post_disabled :: "string \<Rightarrow> pyval \<Rightarrow> msg list" where
  "check_post_disabled field value =
     (if \<not> py_eq value (PInt 0)
      then [Fmt ''post-stop offload %s=%d but offload-disabled run expects 0'' [AV (PStr field), AV value]] else [])"

definition post_stop_profile :: "pydict \<Rightarrow> string \<Rightarrow> pyval \<Rightarrow> bool \<Rightarrow> msg list result" where
  "post_stop_profile post profile recovery allow_offload_disabled =
     (let submit = dict_get post ''submit''; success = dict_get post ''success'' in
      if profile = ''48_4_1'' then
        Inr (if allow_offload_disabled
             then check_post_disabled ''submit'' submit @ check_post_disabled ''success'' success
             else if recovery = PNone \<and> int_value submit < 1
             then [text_msg ''post-stop offload submit missing or zero''] else [])
      else if profile = ''48_3_1'' then
        Inr (concat (map (\<lambda>field.
          if \<not> py_eq (dict_get post field) (PInt 0)
          then [Fmt ''7.5 ms post-stop offload %s=%r'' [AV (PStr field), AV (dict_get post field)]] else [])
          [''submit'', ''success'']))
      else Inl (unsupported_profile profile))"

definition post_stop_accounting :: "pydict \<Rightarrow> string \<Rightarrow> pyval \<Rightarrow> bool \<Rightarrow> msg list result" where
  "post_stop_accounting post profile recovery allow_offload_disabled =
     (let submit = dict_get post ''submit''; success = dict_get post ''success'';
          fallback = dict_get post ''fallback'';
          malformed =
            (if \<not> is_nonnegative_int submit then [text_msg ''post-stop offload submit missing or malformed''] else []) @
            (if \<not> is_nonnegative_int success then [text_msg ''post-stop offload success missing or malformed''] else [])
      in if \<not> (is_nonnegative_int submit \<and> is_nonnegative_int success) then Inr malformed
         else
           rbind (post_stop_profile post profile recovery allow_offload_disabled) (\<lambda>b.
             Inr (malformed @
                  (if recovery = PNone \<and> \<not> py_eq submit success
                   then [text_msg ''post-stop offload submit/success mismatch'']
                   else if recovery \<noteq> PNone \<and> is_nonnegative_int fallback
                   then (if int_value submit \<noteq> int_value success + int_value fallback
                         then [text_msg ''post-stop offload submit/success/fallback mismatch''] else [])
                   else []) @ b)))"

text \<open>Progress between the active and the stopped snapshot.\<close>

definition field_of :: "pyval \<Rightarrow> string \<Rightarrow> pyval" where
  "field_of snapshot field = (case snapshot of PDict d \<Rightarrow> dict_get d field | _ \<Rightarrow> PNone)"

definition post_stop_progress :: "pyval \<Rightarrow> pydict \<Rightarrow> string \<Rightarrow> pyval \<Rightarrow> bool \<Rightarrow> msg list" where
  "post_stop_progress active_offload post profile recovery allow_offload_disabled =
     (if profile \<noteq> ''48_4_1'' then []
      else
        (let active_submit = field_of active_offload ''submit''; active_success = field_of active_offload ''success'';
             submit = dict_get post ''submit''; success = dict_get post ''success'' in
         (if \<not> is_nonnegative_int active_submit then [text_msg ''active offload submit missing or malformed'']
          else if is_nonnegative_int submit \<and> int_value submit < int_value active_submit
          then [text_msg ''post-stop offload submit regressed''] else []) @
         (if \<not> is_nonnegative_int active_success then [text_msg ''active offload success missing or malformed'']
          else if is_nonnegative_int success then
            (if \<not> allow_offload_disabled \<and> recovery = PNone \<and> int_value success \<le> int_value active_success
             then [text_msg ''post-stop offload success did not advance'']
             else if recovery \<noteq> PNone \<and> int_value success < int_value active_success
             then [text_msg ''post-stop offload success regressed''] else [])
          else [])))"

text \<open>The counters that must be present, and zero on a healthy row.\<close>

definition check_post_counter :: "pydict \<Rightarrow> pyval \<Rightarrow> (pyval \<Rightarrow> string \<Rightarrow> msg list) \<Rightarrow> string \<Rightarrow> msg list" where
  "check_post_counter post recovery otherwise field =
     (let value = dict_get post field in
      if absent value then [str_msg ''post-stop offload %s missing'' field]
      else if \<not> is_nonnegative_int value then [str_msg ''post-stop offload %s malformed'' field]
      else if recovery = PNone \<and> \<not> py_eq value (PInt 0)
      then [Fmt ''post-stop offload %s=%r'' [AV (PStr field), AV value]]
      else otherwise value field)"

definition POST_RECOVERY_FIELDS :: "string list" where
  "POST_RECOVERY_FIELDS =
     [''recovery_attempts'', ''recovery_fail'', ''relapses'', ''exhaustion'', ''probation_active'']"

definition post_stop_counters :: "pydict \<Rightarrow> string \<Rightarrow> pyval \<Rightarrow> msg list" where
  "post_stop_counters post profile recovery =
     concat (map (check_post_counter post recovery (\<lambda>value field.
       if profile = ''48_3_1'' \<and> \<not> py_eq value (PInt 0)
       then [Fmt ''7.5 ms post-stop offload %s=%r'' [AV (PStr field), AV value]] else [])) [''fallback'', ''busy'']) @
     concat (map (check_post_counter post recovery (\<lambda>_ _. [])) POST_RECOVERY_FIELDS) @
     concat (map (check_post_counter post recovery (\<lambda>_ _. [])) OFFLOAD_FAULT_FIELDS)"

text \<open>After a recovery the stop must not move any lifetime counter.\<close>

definition POST_COMPARE_FIELDS :: "string list" where
  "POST_COMPARE_FIELDS =
     [''fallback'', ''busy'', ''recovery_attempts'', ''recovery_fail'', ''relapses'', ''exhaustion'',
      ''probation_active'', ''probation_cleared'', ''runtime_restarts'', ''runtime_fails'', ''hb_dedup''] @
     OFFLOAD_FAULT_FIELDS"

definition post_stop_compare :: "pyval \<Rightarrow> pydict \<Rightarrow> pyval \<Rightarrow> msg list" where
  "post_stop_compare active_offload post recovery =
     (case active_offload of
        PDict active \<Rightarrow>
          if recovery = PNone then []
          else
            (let active_compare = normalized_recovery_baseline active;
                 final_compare = normalized_recovery_baseline post
             in concat (map (\<lambda>field.
                  let active_value = dict_get active_compare field; final_value = dict_get final_compare field in
                  if absent final_value then [str_msg ''post-stop offload %s missing'' field]
                  else if \<not> py_eq active_value final_value then [str_msg ''post-stop offload %s changed'' field]
                  else []) POST_COMPARE_FIELDS))
      | _ \<Rightarrow> [])"

definition validate_post_stop_offload :: "pyval \<Rightarrow> pyval \<Rightarrow> string \<Rightarrow> pyval \<Rightarrow> bool \<Rightarrow> msg list result" where
  "validate_post_stop_offload active_offload post_stop_offload profile recovery allow_offload_disabled =
     (case post_stop_offload of
        PDict post \<Rightarrow>
          rbind (post_stop_accounting post profile recovery allow_offload_disabled) (\<lambda>a.
            Inr ((if \<not> py_eq (dict_get post ''state'') (PStr ''STOPPED'')
                  then [val_msg ''post-stop offload state=%r'' (dict_get post ''state'')] else []) @
                 a @ post_stop_progress active_offload post profile recovery allow_offload_disabled @
                 post_stop_counters post profile recovery @
                 post_stop_compare active_offload post recovery))
      | _ \<Rightarrow> Inr [text_msg ''post-stop offload missing''])"

definition validate_receiver_lifecycle_blocks ::
  "pyval \<Rightarrow> pyval \<Rightarrow> pyval \<Rightarrow> pyval \<Rightarrow> string \<Rightarrow> pyval \<Rightarrow> bool \<Rightarrow> bool \<Rightarrow> msg list result" where
  "validate_receiver_lifecycle_blocks audio_faults active_offload post_stop_offload handshake profile recovery
       allow_moving_single_pending allow_offload_disabled =
     (if profile \<notin> {''48_4_1'', ''48_3_1''} then Inl (unsupported_profile profile)
      else
        rbind (validate_active_offload active_offload profile recovery allow_moving_single_pending
                 allow_offload_disabled) (\<lambda>b.
        rbind (validate_post_stop_offload active_offload post_stop_offload profile recovery allow_offload_disabled)
          (\<lambda>d.
          Inr (validate_audio_faults audio_faults @ b @ validate_handshake handshake @ d))))"

section \<open>The transport limits decide exact ratios\<close>

lemma ratio_literals:
  "double_of_frac False 90 100 = Fin RX_VALID_RATIO_FLOOR" "double_of_frac False 5 100 = Fin PLC_RATIO_CEILING"
  by (simp_all add: double_of_frac_def bit_length.simps Let_def round_half_even_def RX_VALID_RATIO_FLOOR_def
      PLC_RATIO_CEILING_def)

lemma rx_floor_compares:
  assumes "0 \<le> i" and "i < 2 ^ 40"
  shows "\<exists>q. ratio_times RX_VALID_RATIO_FLOOR (PInt i) = Inr (Fin q) \<and> (\<forall>v. of_int v < q \<longleftrightarrow> 10 * v < 9 * i)"
  using ratio_times_compares [of RX_VALID_RATIO_FLOOR 9 10 "2 / (9 * 2 ^ 53)" i] assms
  by (simp add: RX_VALID_RATIO_FLOOR_def mult.commute) blast

lemma plc_ceiling_compares:
  assumes "0 \<le> i" and "i < 2 ^ 40"
  shows "\<exists>q. ratio_times PLC_RATIO_CEILING (PInt i) = Inr (Fin q) \<and> (\<forall>v. q < of_int v \<longleftrightarrow> i < 20 * v)"
  using ratio_times_compares [of PLC_RATIO_CEILING 1 20 "1 / 2 ^ 54" i] assms
  by (simp add: PLC_RATIO_CEILING_def mult.commute) blast

lemma int_of_rat_Fin: "\<exists>k. int_of_float (Fin q) = Inr k"
  by simp

lemma check_rx_valid_exact:
  assumes "0 \<le> n" and "n < 2 ^ 40"
  shows "\<exists>ms. check_rx_valid (PInt v) n = Inr ms \<and> (ms = [] \<longleftrightarrow> 9 * n \<le> 10 * v)"
proof -
  obtain q where q: "ratio_times RX_VALID_RATIO_FLOOR (PInt n) = Inr (Fin q)" "\<And>v. of_int v < q \<longleftrightarrow> 10 * v < 9 * n"
    using rx_floor_compares [OF assms] by blast
  then show ?thesis
    by (auto simp: check_rx_valid_def py_lt_def percent_d_def simp del: ratio_times.simps)
qed

lemma check_plc_exact:
  assumes "d < 2 ^ 40"
  shows "\<exists>ms. check_plc (PInt d) (PInt p) = Inr ms \<and> (ms = [] \<longleftrightarrow> (0 < d \<longrightarrow> 20 * p \<le> d))"
proof (cases "0 < d")
  case True
  then obtain q where q: "ratio_times PLC_RATIO_CEILING (PInt d) = Inr (Fin q)" "\<And>v. q < of_int v \<longleftrightarrow> d < 20 * v"
    using plc_ceiling_compares [of d] assms by auto
  with True show ?thesis
    by (auto simp: check_plc_def py_lt_def percent_d_def simp del: ratio_times.simps)
qed (simp add: check_plc_def py_lt_def)

lemma check_zero_field_exact:
  assumes "dict_get s field = PInt i"
  shows "\<exists>ms. check_zero_field s field = Inr ms \<and> (ms = [] \<longleftrightarrow> i = 0)"
  using assms by (auto simp: check_zero_field_def percent_d_def Let_def)

text \<open>A counter block passes when none of its fields complains.\<close>

lemma concat_map_Nil: "concat (map f xs) = [] \<longleftrightarrow> (\<forall>x \<in> set xs. f x = [])"
  by auto

lemma if_Nil: "(if c then a # as else []) = [] \<longleftrightarrow> \<not> c" "(if c then [] else a # as) = [] \<longleftrightarrow> c"
  by auto

lemma not_plain: "\<not> isinstance_int v \<or> isinstance_bool v \<longleftrightarrow> (\<forall>i. v \<noteq> PInt i)"
  by (cases v) auto

lemma is_nonnegative_int_iff: "is_nonnegative_int v \<longleftrightarrow> (\<exists>i \<ge> 0. v = PInt i)"
  by (cases v) (auto simp: is_nonnegative_int_def)

lemma check_iso_slot_Nil:
  "check_iso_slot n seen slot = ([], seen') \<longleftrightarrow>
     (\<exists>j. slot = PInt j \<and> 0 \<le> j \<and> j < n \<and> j \<notin> set seen \<and> seen' = seen @ [j])"
  by (cases slot) (auto simp: check_iso_slot_def)

text \<open>The fields of one ISO record are plain integers, the counters not negative and the selected parameters positive.\<close>

definition iso_fields_ok :: "pydict \<Rightarrow> bool" where
  "iso_fields_ok r \<longleftrightarrow>
     (\<forall>f \<in> set ISO_FIELDS. \<exists>i \<ge> 0. dict_get r f = PInt i) \<and>
     (\<forall>f \<in> set ISO_SELECTED_FIELDS. \<exists>i > 0. dict_get r f = PInt i)"

lemma check_iso_fields_Nil: "check_iso_fields r = [] \<longleftrightarrow> iso_fields_ok r"
proof -
  have "(\<not> isinstance_int v \<or> isinstance_bool v \<or> int_value v < 0) \<longleftrightarrow> \<not> (\<exists>i \<ge> 0. v = PInt i)"
    "(\<not> isinstance_int v \<or> isinstance_bool v \<or> int_value v \<le> 0) \<longleftrightarrow> \<not> (\<exists>i > 0. v = PInt i)" for v
    by (cases v; auto)+
  then show ?thesis
    unfolding check_iso_fields_def iso_fields_ok_def append_is_Nil_conv concat_map_Nil Let_def by auto
qed

lemma check_iso_streams_Nil:
  "check_iso_streams n seen streams = ([], seen') \<longleftrightarrow>
     (\<exists>records js. streams = map PDict records \<and> map (\<lambda>r. dict_get r ''slot'') records = map PInt js \<and>
        distinct js \<and> set js \<inter> set seen = {} \<and> set js \<subseteq> {0 ..< n} \<and> list_all iso_fields_ok records \<and>
        seen' = seen @ js)"
proof (induction n seen streams arbitrary: seen' rule: check_iso_streams.induct)
  case (2 n seen rc streams)
  obtain a s1 where a: "check_iso_slot n seen (dict_get rc ''slot'') = (a, s1)" by fastforce
  obtain b s2 where b: "check_iso_streams n s1 streams = (b, s2)" by fastforce
  have step: "check_iso_streams n seen (PDict rc # streams) = ([], seen') \<longleftrightarrow>
    a = [] \<and> iso_fields_ok rc \<and> check_iso_streams n s1 streams = ([], seen')"
    using a b by (auto simp: check_iso_fields_Nil)
  show ?case (is "_ \<longleftrightarrow> ?rhs")
  proof (cases "a = []")
    case True
    then obtain j where j: "dict_get rc ''slot'' = PInt j" "0 \<le> j" "j < n" "j \<notin> set seen" "s1 = seen @ [j]"
      using a by (auto simp: check_iso_slot_Nil)
    have "?rhs \<longleftrightarrow> iso_fields_ok rc \<and>
      (\<exists>records js. streams = map PDict records \<and> map (\<lambda>r. dict_get r ''slot'') records = map PInt js \<and>
        distinct js \<and> set js \<inter> set s1 = {} \<and> set js \<subseteq> {0 ..< n} \<and> list_all iso_fields_ok records \<and> seen' = s1 @ js)"
      (is "_ \<longleftrightarrow> ?rhs'")
    proof
      assume ?rhs'
      then obtain records js where rj: "iso_fields_ok rc" "streams = map PDict records"
        "map (\<lambda>r. dict_get r ''slot'') records = map PInt js" "distinct js" "set js \<inter> set s1 = {}"
        "set js \<subseteq> {0 ..< n}" "list_all iso_fields_ok records" "seen' = s1 @ js" by blast
      with j show ?rhs by (intro exI [of _ "rc # records"] exI [of _ "j # js"]) auto
    qed (use j in \<open>fastforce simp: Cons_eq_map_conv\<close>)
    then show ?thesis unfolding step using True "2.IH" [OF a [symmetric]] by simp
  next
    case False
    have "\<not> ?rhs"
    proof
      assume ?rhs
      then obtain j js where "dict_get rc ''slot'' = PInt j" "distinct (j # js)" "set (j # js) \<inter> set seen = {}"
        "set (j # js) \<subseteq> {0 ..< n}" by (auto simp: Cons_eq_map_conv)
      then have "check_iso_slot n seen (dict_get rc ''slot'') = ([], seen @ [j])" by (simp add: check_iso_slot_Nil)
      with a False show False by simp
    qed
    then show ?thesis unfolding step using False by simp
  qed
qed (auto split: prod.splits)

section \<open>What passing evidence means\<close>

definition zero :: "pyval \<Rightarrow> bool" where
  "zero v \<longleftrightarrow> num_value v = Some 0"

text \<open>The evidence of a healthy 10 ms row, read off the dictionaries: every fault, handshake and recovery counter is
  zero while streaming and after the stop, the plane went from ACTIVE to STOPPED, every accepted submit ended as a
  success and the successes advanced after the live snapshot.\<close>

definition healthy_evidence :: "pyval \<Rightarrow> pyval \<Rightarrow> pyval \<Rightarrow> pyval \<Rightarrow> bool \<Rightarrow> bool" where
  "healthy_evidence faults active post handshake pending \<longleftrightarrow>
     (\<forall>f \<in> fst ` set AUDIO_FAULT_LABELS. zero (field_of faults f)) \<and>
     (\<forall>f \<in> fst ` set HANDSHAKE_FLAGS. is_True (field_of handshake f)) \<and>
     (\<forall>f \<in> fst ` set HANDSHAKE_COUNTERS. zero (field_of handshake f)) \<and>
     field_of active ''state'' = PStr ''ACTIVE'' \<and> field_of post ''state'' = PStr ''STOPPED'' \<and>
     (\<forall>f \<in> set (ACTIVE_COUNTERS @ OFFLOAD_FAULT_FIELDS). zero (field_of active f) \<and> field_of post f = PInt 0) \<and>
     (\<exists>submit success total.
        field_of active ''submit'' = PInt submit \<and> field_of active ''success'' = PInt success \<and>
        field_of post ''submit'' = PInt total \<and> field_of post ''success'' = PInt total \<and>
        1 \<le> submit \<and> 0 \<le> success \<and> (submit = success \<or> pending \<and> submit = success + 1) \<and>
        submit \<le> total \<and> success < total)"

lemma PInt_py_eq [simp]: "py_eq (PInt i) v \<longleftrightarrow> num_value v = Some (of_int i)"
  by (subst py_eq.simps) (auto split: option.splits pyval.splits pyfloat.splits)

lemma zero_iff: "zero v \<longleftrightarrow> v \<noteq> PNone \<and> py_eq v (PInt 0)"
  by (auto simp: zero_def)

lemma zero_simps [simp]: "zero (PInt i) \<longleftrightarrow> i = 0" "\<not> zero PNone" "\<not> zero (PStr t)"
  by (auto simp: zero_def)

lemma zero_not_absent: "zero v \<Longrightarrow> \<not> absent v"
  by (auto simp: zero_def absent_def)

lemma field_of_simps [simp]: "field_of (PDict d) f = dict_get d f" "field_of PNone f = PNone"
  by (simp_all add: field_of_def)

lemma field_of_dict: "field_of v f \<noteq> PNone \<Longrightarrow> \<exists>d. v = PDict d"
  by (cases v) (auto simp: field_of_def)

lemma audio_faults_Nil:
  "validate_audio_faults v = [] \<longleftrightarrow> (\<forall>f \<in> fst ` set AUDIO_FAULT_LABELS. zero (field_of v f))"
  by (cases v) (auto simp: validate_audio_faults_def Let_def zero_iff field_of_def AUDIO_FAULT_LABELS_def)

lemma handshake_Nil:
  "validate_handshake v = [] \<longleftrightarrow>
     (\<forall>f \<in> fst ` set HANDSHAKE_FLAGS. is_True (field_of v f)) \<and> (\<forall>f \<in> fst ` set HANDSHAKE_COUNTERS. zero (field_of v f))"
  by (cases v)
    (auto simp: validate_handshake_def Let_def zero_iff field_of_def HANDSHAKE_FLAGS_def HANDSHAKE_COUNTERS_def)

lemma active_counters_Nil:
  "check_active_counters off ''48_4_1'' PNone = [] \<longleftrightarrow> (\<forall>f \<in> set ACTIVE_COUNTERS. zero (dict_get off f))"
  unfolding check_active_counters_def concat_map_Nil Let_def
  by (intro ball_cong refl) (auto simp: zero_iff dest: zero_not_absent [unfolded zero_iff] simp: absent_def)

lemma active_faults_Nil:
  "check_active_faults off PNone = [] \<longleftrightarrow> (\<forall>f \<in> set OFFLOAD_FAULT_FIELDS. zero (dict_get off f))"
  unfolding check_active_faults_def concat_map_Nil Let_def
  by (intro ball_cong refl) (auto simp: zero_iff dest: zero_not_absent [unfolded zero_iff] simp: absent_def)

lemma submit_success_Nil:
  "check_submit_success off PNone pending False = [] \<longleftrightarrow>
     (\<exists>submit. dict_get off ''submit'' = PInt submit \<and> 1 \<le> submit \<and>
        (num_value (dict_get off ''success'') = Some (of_int submit) \<or>
         pending \<and> (\<exists>success \<ge> 0. dict_get off ''success'' = PInt success \<and> submit = success + 1)))"
  by (cases "dict_get off ''submit''"; cases "dict_get off ''success''")
    (auto simp: check_submit_success_def Let_def)

lemma active_healthy_Nil:
  "validate_active_offload v ''48_4_1'' PNone pending False = Inr [] \<longleftrightarrow>
     (\<exists>off. v = PDict off \<and> dict_get off ''state'' = PStr ''ACTIVE'' \<and>
        check_submit_success off PNone pending False = [] \<and>
        (\<forall>f \<in> set (ACTIVE_COUNTERS @ OFFLOAD_FAULT_FIELDS). zero (dict_get off f)))"
  by (cases v)
    (auto simp: validate_active_offload_def check_offload_profile_def active_counters_Nil active_faults_Nil)

lemma post_accounting_Nil:
  "post_stop_accounting post ''48_4_1'' PNone False = Inr [] \<longleftrightarrow>
     (\<exists>n \<ge> 1. dict_get post ''submit'' = PInt n \<and> dict_get post ''success'' = PInt n)"
proof (cases "is_nonnegative_int (dict_get post ''submit'') \<and> is_nonnegative_int (dict_get post ''success'')")
  case True
  then obtain i j where "dict_get post ''submit'' = PInt i" "0 \<le> i" "dict_get post ''success'' = PInt j" "0 \<le> j"
    by (auto simp: is_nonnegative_int_iff)
  with True show ?thesis by (auto simp: post_stop_accounting_def post_stop_profile_def Let_def)
next
  case False
  then show ?thesis by (auto simp: post_stop_accounting_def is_nonnegative_int_iff Let_def)
qed

lemma post_counter_Nil:
  "check_post_counter post PNone (\<lambda>_ _. []) f = [] \<longleftrightarrow> dict_get post f = PInt 0"
  by (cases "dict_get post f")
    (auto simp: check_post_counter_def absent_def is_nonnegative_int_iff Let_def)

lemma post_counter_fields: "set ([''fallback'', ''busy''] @ POST_RECOVERY_FIELDS) = set ACTIVE_COUNTERS"
  by (simp add: POST_RECOVERY_FIELDS_def ACTIVE_COUNTERS_def)

lemma post_counters_Nil:
  "post_stop_counters post ''48_4_1'' PNone = [] \<longleftrightarrow>
     (\<forall>f \<in> set (ACTIVE_COUNTERS @ OFFLOAD_FAULT_FIELDS). dict_get post f = PInt 0)"
  unfolding post_stop_counters_def set_append post_counter_fields [symmetric]
  by (auto simp: post_counter_Nil)

lemma post_progress_Nil:
  assumes "dict_get post ''submit'' = PInt n" and "dict_get post ''success'' = PInt n" and "0 \<le> n"
  shows "post_stop_progress v post ''48_4_1'' PNone False = [] \<longleftrightarrow>
    (\<exists>submit success. field_of v ''submit'' = PInt submit \<and> 0 \<le> submit \<and> submit \<le> n \<and>
       field_of v ''success'' = PInt success \<and> 0 \<le> success \<and> success < n)"
  using assms by (auto simp: post_stop_progress_def is_nonnegative_int_iff Let_def)

lemma post_healthy_Nil:
  "validate_post_stop_offload v w ''48_4_1'' PNone False = Inr [] \<longleftrightarrow>
     (\<exists>post. w = PDict post \<and> dict_get post ''state'' = PStr ''STOPPED'' \<and>
        (\<forall>f \<in> set (ACTIVE_COUNTERS @ OFFLOAD_FAULT_FIELDS). dict_get post f = PInt 0) \<and>
        (\<exists>submit success n. dict_get post ''submit'' = PInt n \<and> dict_get post ''success'' = PInt n \<and>
           field_of v ''submit'' = PInt submit \<and> 0 \<le> submit \<and> submit \<le> n \<and>
           field_of v ''success'' = PInt success \<and> 0 \<le> success \<and> success < n))"
proof (cases w)
  case (PDict post)
  have compare: "post_stop_compare v post PNone = []" by (cases v) (simp_all add: post_stop_compare_def)
  show ?thesis
  proof (cases "\<exists>n \<ge> 1. dict_get post ''submit'' = PInt n \<and> dict_get post ''success'' = PInt n")
    case True
    then obtain n where n: "1 \<le> n" "dict_get post ''submit'' = PInt n" "dict_get post ''success'' = PInt n" by blast
    then have "post_stop_accounting post ''48_4_1'' PNone False = Inr []" by (auto simp: post_accounting_Nil)
    with PDict n compare show ?thesis
      by (auto simp: validate_post_stop_offload_def post_counters_Nil post_progress_Nil)
  next
    case False
    then have "post_stop_accounting post ''48_4_1'' PNone False \<noteq> Inr []" by (auto simp: post_accounting_Nil)
    with PDict False show ?thesis by (auto simp: validate_post_stop_offload_def)
  qed
qed (simp_all add: validate_post_stop_offload_def)

text \<open>The evidence of a 10 ms row with a named fault: the acknowledgement of that very fault, exactly one more
  recovery attempt than the baseline and no failure, relapse or exhaustion, a runtime restart for a hang and none for a
  stall, no integrity fault, and a stop that moves no counter and accounts for every submit.\<close>

definition ack_of :: "string \<Rightarrow> string" where
  "ack_of fault = (if fault = ''hang'' then ''FAULT_HANG_ACK'' else ''TIMED_STALL_ACK'')"

definition INTEGRITY_FIELDS :: "string list" where
  "INTEGRITY_FIELDS = drop 2 OFFLOAD_FAULT_FIELDS"

definition recovered :: "pydict \<Rightarrow> string \<Rightarrow> (string \<Rightarrow> int) \<Rightarrow> bool" where
  "recovered off fault base \<longleftrightarrow>
     num_value (dict_get off ''recovery_attempts'') = Some (of_int (base ''recovery_attempts'' + 1)) \<and>
     (\<forall>f \<in> {''recovery_fail'', ''relapses'', ''exhaustion''}. num_value (dict_get off f) = Some (of_int (base f))) \<and>
     zero (dict_get off ''probation_active'') \<and>
     num_value (dict_get off ''epoch'') \<noteq> Some (of_int (base ''epoch'')) \<and>
     num_value (dict_get off ''runtime_restarts'') =
       Some (of_int (base ''runtime_restarts'' + (if fault = ''hang'' then 1 else 0)))"

definition recovery_evidence :: "pyval \<Rightarrow> pyval \<Rightarrow> pyval \<Rightarrow> bool" where
  "recovery_evidence active post recovery \<longleftrightarrow>
     (\<exists>a p r b fault.
        active = PDict a \<and> post = PDict p \<and> recovery = PDict r \<and> dict_get r ''baseline'' = PDict b \<and>
        dict_get a ''state'' = PStr ''ACTIVE'' \<and> dict_get p ''state'' = PStr ''STOPPED'' \<and>
        fault \<in> {''hang'', ''stall''} \<and> dict_get r ''fault'' = PStr fault \<and> dict_get r ''ack'' = PStr (ack_of fault) \<and>
        recovered a fault (\<lambda>f. int_value (dict_get b f)) \<and>
        (\<forall>f \<in> set INTEGRITY_FIELDS. dict_get p f = PInt 0) \<and>
        (\<forall>f \<in> set (ACTIVE_COUNTERS @ OFFLOAD_FAULT_FIELDS). num_value (dict_get a f) = num_value (dict_get p f)) \<and>
        (\<exists>submit success fallback.
           dict_get p ''submit'' = PInt submit \<and> dict_get p ''success'' = PInt success \<and>
           dict_get p ''fallback'' = PInt fallback \<and> submit = success + fallback \<and>
           int_value (dict_get b ''success'') < success \<and> int_value (dict_get b ''fallback'') < fallback))"

lemma py_le_False:
  assumes "py_le v (PInt b) = Inr False" and "num_value v = Some (of_int i)"
  shows "b < i"
  using assms by (cases v) (auto simp: py_le_def split: if_splits pyfloat.splits elim!: num_value.elims)

lemma compare_recovery_Nil:
  assumes "compare_recovery off fault ack base = Inr []"
  shows "ack = PStr (ack_of fault)" and "recovered off fault base"
    and "py_le (dict_get_or off ''fallback'' (PInt (- 1))) (PInt (base ''fallback'')) = Inr False"
    and "py_le (dict_get_or off ''success'' (PInt (- 1))) (PInt (base ''success'')) = Inr False"
  using assms by (auto simp: compare_recovery_def recovered_def ack_of_def zero_def split: if_splits)

lemma recovery_Nil:
  assumes "validate_recovery off recovery = Inr []"
  obtains r b fault where "recovery = PDict r" "dict_get r ''baseline'' = PDict b" "fault \<in> {''hang'', ''stall''}"
    "dict_get r ''fault'' = PStr fault"
    "compare_recovery off fault (dict_get r ''ack'') (\<lambda>f. int_value (dict_get b f)) = Inr []"
  using assms
  by (auto simp: validate_recovery_def Let_def split: pyval.splits if_splits)

lemma post_counter_recovery:
  assumes "check_post_counter post recovery g f = []"
  shows "\<exists>i \<ge> 0. dict_get post f = PInt i"
  using assms by (auto simp: check_post_counter_def Let_def is_nonnegative_int_iff split: if_splits)

lemma post_counters_recovery:
  assumes "post_stop_counters post profile recovery = []" and "f \<in> set (ACTIVE_COUNTERS @ OFFLOAD_FAULT_FIELDS)"
  shows "\<exists>i \<ge> 0. dict_get post f = PInt i"
  using assms unfolding post_stop_counters_def set_append post_counter_fields [symmetric] concat_map_Nil append_is_Nil_conv
  by (auto dest: post_counter_recovery)

lemma post_accounting_recovery:
  assumes "post_stop_accounting post ''48_4_1'' recovery False = Inr []" and "recovery \<noteq> PNone"
    and "dict_get post ''fallback'' = PInt k" and "0 \<le> k"
  obtains submit success where "dict_get post ''submit'' = PInt submit" "dict_get post ''success'' = PInt success"
    "0 \<le> success" "submit = success + k"
  using assms
  by (auto simp: post_stop_accounting_def post_stop_profile_def Let_def is_nonnegative_int_iff split: if_splits)

text \<open>Normalization touches the three optional counters only.\<close>

lemma normalized_get:
  "f \<notin> {''runtime_restarts'', ''runtime_fails'', ''hb_dedup''} \<Longrightarrow>
     dict_get (normalized_recovery_baseline d) f = dict_get d f"
  by (simp add: normalized_recovery_baseline_def)

lemma post_compare_Nil:
  assumes "post_stop_compare (PDict a) post recovery = []" and "recovery \<noteq> PNone" and "f \<in> set POST_COMPARE_FIELDS"
    and "f \<notin> {''runtime_restarts'', ''runtime_fails'', ''hb_dedup''}"
  shows "py_eq (dict_get a f) (dict_get post f)"
  using assms unfolding post_stop_compare_def Let_def pyval.case if_not_P [OF assms(2)] concat_map_Nil
  by (auto simp: normalized_get split: if_splits)

lemma counter_fields_compared:
  assumes "f \<in> set (ACTIVE_COUNTERS @ OFFLOAD_FAULT_FIELDS)"
  shows "f \<in> set POST_COMPARE_FIELDS" and "f \<notin> {''runtime_restarts'', ''runtime_fails'', ''hb_dedup''}"
  using assms by (auto simp: ACTIVE_COUNTERS_def OFFLOAD_FAULT_FIELDS_def POST_COMPARE_FIELDS_def)

lemma active_faults_recovery:
  assumes "check_active_faults off recovery = []" and "f \<in> set INTEGRITY_FIELDS"
  shows "zero (dict_get off f)"
proof -
  have f: "f \<in> set OFFLOAD_FAULT_FIELDS" "f \<notin> {''fault_timeout'', ''fault_full''}"
    using assms(2) by (auto simp: INTEGRITY_FIELDS_def OFFLOAD_FAULT_FIELDS_def)
  with assms(1) show ?thesis
    unfolding check_active_faults_def concat_map_Nil Let_def
    by (auto simp: zero_iff absent_def dest!: bspec [OF _ f(1)] split: if_splits)
qed

text \<open>A stop after a recovery leaves every counter where it was, and the integrity counters at zero.\<close>

lemma recovery_stop_keeps:
  assumes counters: "post_stop_counters p ''48_4_1'' recovery = []"
    and compare: "post_stop_compare (PDict a) p recovery = []" "recovery \<noteq> PNone"
    and f: "f \<in> set (ACTIVE_COUNTERS @ OFFLOAD_FAULT_FIELDS)"
  shows "\<exists>i \<ge> 0. dict_get p f = PInt i \<and> num_value (dict_get a f) = Some (of_int i)"
  using post_counters_recovery [OF counters f] post_compare_Nil [OF compare counter_fields_compared [OF f]] by auto

text \<open>The fields without which a validator cannot pass, whatever the profile, the recovery and the allowances.\<close>

definition required_absent :: "pyval \<Rightarrow> pyval \<Rightarrow> pyval \<Rightarrow> pyval \<Rightarrow> string \<Rightarrow> bool" where
  "required_absent faults active post handshake f \<longleftrightarrow>
     f \<in> fst ` set AUDIO_FAULT_LABELS \<and> field_of faults f = PNone \<or>
     f \<in> fst ` set (HANDSHAKE_FLAGS @ HANDSHAKE_COUNTERS) \<and> field_of handshake f = PNone \<or>
     f \<in> set (''state'' # ACTIVE_COUNTERS @ OFFLOAD_FAULT_FIELDS) \<and> absent (field_of active f) \<or>
     f \<in> set (''state'' # ''submit'' # ''success'' # ACTIVE_COUNTERS @ OFFLOAD_FAULT_FIELDS) \<and> absent (field_of post f)"

lemma active_present:
  assumes "validate_active_offload v profile recovery pending disabled = Inr []"
    and "f \<in> set (''state'' # ACTIVE_COUNTERS @ OFFLOAD_FAULT_FIELDS)"
  shows "\<not> absent (field_of v f)"
proof -
  obtain off where v: "v = PDict off" "dict_get off ''state'' = PStr ''ACTIVE''"
    "check_active_counters off profile recovery = []" "check_active_faults off recovery = []"
    using assms(1) by (auto simp: validate_active_offload_def split: pyval.splits if_splits)
  have "\<not> absent (dict_get off f)" if "f \<in> set ACTIVE_COUNTERS"
    using v(3) that unfolding check_active_counters_def concat_map_Nil Let_def by (auto split: if_splits)
  moreover have "\<not> absent (dict_get off f)" if "f \<in> set OFFLOAD_FAULT_FIELDS"
    using v(4) that unfolding check_active_faults_def concat_map_Nil Let_def by (auto split: if_splits)
  ultimately show ?thesis using v(1,2) assms(2) by (auto simp: absent_def)
qed

lemma post_present:
  assumes "validate_post_stop_offload v w profile recovery disabled = Inr []"
    and "f \<in> set (''state'' # ''submit'' # ''success'' # ACTIVE_COUNTERS @ OFFLOAD_FAULT_FIELDS)"
  shows "\<not> absent (field_of w f)"
proof -
  obtain post where w: "w = PDict post" "dict_get post ''state'' = PStr ''STOPPED''"
    "post_stop_accounting post profile recovery disabled = Inr []" "post_stop_counters post profile recovery = []"
    using assms(1) by (auto simp: validate_post_stop_offload_def split: pyval.splits if_splits)
  have "is_nonnegative_int (dict_get post ''submit'') \<and> is_nonnegative_int (dict_get post ''success'')"
    using w(3) by (auto simp: post_stop_accounting_def Let_def split: if_splits)
  then have "\<exists>i \<ge> 0. dict_get post f = PInt i" if "f \<noteq> ''state''"
    using that assms(2) post_counters_recovery [OF w(4)] by (auto simp: is_nonnegative_int_iff)
  with w(1,2) show ?thesis by (cases "f = ''state''") (auto simp: absent_def)
qed

lemma required_absent_fails:
  assumes "required_absent faults active post handshake f"
  shows "validate_receiver_lifecycle_blocks faults active post handshake profile recovery pending disabled \<noteq> Inr []"
proof
  assume "validate_receiver_lifecycle_blocks faults active post handshake profile recovery pending disabled = Inr []"
  then have ok: "validate_audio_faults faults = []" "validate_handshake handshake = []"
    "validate_active_offload active profile recovery pending disabled = Inr []"
    "validate_post_stop_offload active post profile recovery disabled = Inr []"
    by (auto simp: validate_receiver_lifecycle_blocks_def split: if_splits)
  show False
    using assms active_present [OF ok(3)] post_present [OF ok(4)] ok(1,2)
    unfolding required_absent_def audio_faults_Nil handshake_Nil by (fastforce simp del: set_simps)
qed

section \<open>Example evidence\<close>

definition ex_summary :: pydict where
  "ex_summary =
     [(''slot'', PInt 0), (''sdus'', PInt 764), (''decoded'', PInt 777), (''plc'', PInt 13), (''empty_sdu'', PInt 0),
      (''rx_valid'', PInt 764), (''rx_error'', PInt 0), (''rx_lost'', PInt 2), (''rx_unknown'', PInt 0)]"

definition ex_faults :: pydict where
  "ex_faults = map (\<lambda>(f, _). (f, PInt 0)) AUDIO_FAULT_LABELS"

definition ex_handshake :: pydict where
  "ex_handshake = map (\<lambda>(f, _). (f, PBool True)) HANDSHAKE_FLAGS @ map (\<lambda>(f, _). (f, PInt 0)) HANDSHAKE_COUNTERS"

definition ex_offload :: "string \<Rightarrow> int \<Rightarrow> int \<Rightarrow> int \<Rightarrow> pydict" where
  "ex_offload state submit success timeout =
     [(''state'', PStr state), (''epoch'', PInt 3), (''submit'', PInt submit), (''success'', PInt success),
      (''fallback'', PInt 2), (''busy'', PInt 0), (''recovery_attempts'', PInt 1), (''recovery_fail'', PInt 0),
      (''relapses'', PInt 0), (''exhaustion'', PInt 0), (''probation_active'', PInt 0), (''probation_cleared'', PInt 1),
      (''fault_timeout'', PInt timeout), (''fault_full'', PInt 0), (''fault_stale'', PInt 0), (''fault_seq'', PInt 0),
      (''fault_frame'', PInt 0), (''fault_crc'', PInt 0), (''fault_payload'', PInt 0), (''runtime_restarts'', PInt 1),
      (''runtime_fails'', PInt 0), (''hb_dedup'', PInt (- 1))]"

definition ex_recovery :: pydict where
  "ex_recovery =
     [(''fault'', PStr ''hang''), (''ack'', PStr ''FAULT_HANG_ACK''),
      (''baseline'', PDict (map (\<lambda>f. (f, PInt 0)) BASELINE_FIELDS))]"

lemmas ex_defs = ex_faults_def ex_handshake_def ex_offload_def ex_recovery_def AUDIO_FAULT_LABELS_def
  HANDSHAKE_FLAGS_def HANDSHAKE_COUNTERS_def BASELINE_FIELDS_def ACTIVE_COUNTERS_def OFFLOAD_FAULT_FIELDS_def
  POST_RECOVERY_FIELDS_def POST_COMPARE_FIELDS_def

lemma ex_recovery_any_timeout:
  assumes "0 \<le> k"
  shows "validate_receiver_lifecycle_blocks (PDict ex_faults) (PDict (ex_offload ''ACTIVE'' 52 50 k))
     (PDict (ex_offload ''STOPPED'' 62 60 k)) (PDict ex_handshake) ''48_4_1'' (PDict ex_recovery) False False = Inr []"
proof -
  have "validate_audio_faults (PDict ex_faults) = []" "validate_handshake (PDict ex_handshake) = []"
    by (simp_all add: validate_audio_faults_def validate_handshake_def ex_defs dict_get_def)
  moreover have "validate_recovery (ex_offload ''ACTIVE'' 52 50 k) (PDict ex_recovery) = Inr []"
    by (simp add: validate_recovery_def compare_recovery_def check_baseline_def py_lt_def py_le_def ex_defs dict_get_def
        dict_get_or_def)
  then have "validate_active_offload (PDict (ex_offload ''ACTIVE'' 52 50 k)) ''48_4_1'' (PDict ex_recovery) False False = Inr []"
    using assms by (simp add: validate_active_offload_def check_offload_profile_def check_submit_success_def check_active_counters_def
        check_active_faults_def absent_def ex_defs dict_get_def)
  moreover have "validate_post_stop_offload (PDict (ex_offload ''ACTIVE'' 52 50 k)) (PDict (ex_offload ''STOPPED'' 62 60 k))
      ''48_4_1'' (PDict ex_recovery) False = Inr []"
    using assms by (simp add: validate_post_stop_offload_def post_stop_accounting_def post_stop_profile_def post_stop_progress_def
        post_stop_counters_def check_post_counter_def post_stop_compare_def normalized_recovery_baseline_def
        is_nonnegative_int_def absent_def field_of_def ex_defs dict_get_def)
  ultimately show ?thesis by (simp add: validate_receiver_lifecycle_blocks_def)
qed

lemmas ex_recovery_passes = ex_recovery_any_timeout [of 1, simplified]

text \<open>The counters of transport timeouts and full rings are exempt in a fault row, and nothing else looks at their growth:
  the same evidence passes with any number of timeouts, also with none.\<close>

theorem recovery_timeout_unverified:
  "0 \<le> k \<Longrightarrow>
   validate_receiver_lifecycle_blocks (PDict ex_faults) (PDict (ex_offload ''ACTIVE'' 52 50 k))
     (PDict (ex_offload ''STOPPED'' 62 60 k)) (PDict ex_handshake) ''48_4_1'' (PDict ex_recovery) False False = Inr []"
  by (rule ex_recovery_any_timeout)

section \<open>Properties\<close>

text \<open>C4: The receiver evidence of a healthy 10 ms row passes exactly when it shows what \<open>healthy_evidence\<close> says: all
  fault, handshake, fallback and recovery counters zero in the live and in the stopped snapshot, the plane ACTIVE and
  then STOPPED, at most one pending submit while streaming (and only where the caller allows it), and at the end every
  accepted submit a success, with progress since the live snapshot.\<close>

theorem healthy_lifecycle_exact:
  "validate_receiver_lifecycle_blocks faults active post handshake ''48_4_1'' PNone pending False = Inr [] \<longleftrightarrow>
     healthy_evidence faults active post handshake pending"
proof -
  have "validate_receiver_lifecycle_blocks faults active post handshake ''48_4_1'' PNone pending False = Inr [] \<longleftrightarrow>
    validate_audio_faults faults = [] \<and> validate_handshake handshake = [] \<and>
    validate_active_offload active ''48_4_1'' PNone pending False = Inr [] \<and>
    validate_post_stop_offload active post ''48_4_1'' PNone False = Inr []"
    by (auto simp: validate_receiver_lifecycle_blocks_def)
  also have "\<dots> \<longleftrightarrow> healthy_evidence faults active post handshake pending" (is "?l \<longleftrightarrow> ?r")
  proof
    assume ?l
    then show ?r
      unfolding healthy_evidence_def audio_faults_Nil handshake_Nil active_healthy_Nil post_healthy_Nil
        submit_success_Nil
      by auto
  next
    assume r: ?r
    then obtain a p where ap: "active = PDict a" "post = PDict p"
      unfolding healthy_evidence_def by (metis field_of_dict pyval.distinct(7))
    from r show ?l
      unfolding healthy_evidence_def audio_faults_Nil handshake_Nil active_healthy_Nil post_healthy_Nil
        submit_success_Nil ap
      by auto
  qed
  finally show ?thesis .
qed

text \<open>C8: Evidence of a named fault row that passes shows the recovery of that very fault: its own acknowledgement, one
  more recovery attempt than the baseline and no failure, relapse or exhaustion, a changed epoch, a runtime restart
  exactly for a hang, fallback frames and new successes since the baseline, no integrity fault, no counter moved by the
  stop, and every submit either a success or a fallback.\<close>

theorem recovery_lifecycle_sound:
  assumes "validate_receiver_lifecycle_blocks faults active post handshake ''48_4_1'' recovery pending False = Inr []"
    and "recovery \<noteq> PNone"
  shows "recovery_evidence active post recovery"
proof -
  let ?counters = "set (ACTIVE_COUNTERS @ OFFLOAD_FAULT_FIELDS)"
  have blocks: "validate_active_offload active ''48_4_1'' recovery pending False = Inr []"
    "validate_post_stop_offload active post ''48_4_1'' recovery False = Inr []"
    using assms(1) by (auto simp: validate_receiver_lifecycle_blocks_def)
  obtain a where a: "active = PDict a" "dict_get a ''state'' = PStr ''ACTIVE''" "validate_recovery a recovery = Inr []"
    "check_active_faults a recovery = []"
    using blocks(1) assms(2) by (auto simp: validate_active_offload_def split: pyval.splits if_splits)
  obtain p where p: "post = PDict p" "dict_get p ''state'' = PStr ''STOPPED''"
    "post_stop_accounting p ''48_4_1'' recovery False = Inr []" "post_stop_progress active p ''48_4_1'' recovery False = []"
    "post_stop_counters p ''48_4_1'' recovery = []" "post_stop_compare active p recovery = []"
    using blocks(2) by (auto simp: validate_post_stop_offload_def split: pyval.splits if_splits)
  obtain r b fault where r: "recovery = PDict r" "dict_get r ''baseline'' = PDict b" "fault \<in> {''hang'', ''stall''}"
    "dict_get r ''fault'' = PStr fault"
    and cmp: "compare_recovery a fault (dict_get r ''ack'') (\<lambda>f. int_value (dict_get b f)) = Inr []"
    using a(3) by (rule recovery_Nil)
  note rec = compare_recovery_Nil [OF cmp]
  note keeps = recovery_stop_keeps [OF p(5) p(6) [unfolded a(1)] assms(2)]
  have same: "num_value (dict_get a f) = num_value (dict_get p f)" if f: "f \<in> ?counters" for f
    using keeps [OF f] by auto
  have intact: "dict_get p f = PInt 0" if int: "f \<in> set INTEGRITY_FIELDS" for f
    using keeps [of f] int active_faults_recovery [OF a(4) int]
    by (auto simp: INTEGRITY_FIELDS_def zero_def dest: in_set_dropD)
  have fb: "''fallback'' \<in> ?counters" by (simp add: ACTIVE_COUNTERS_def)
  obtain k where k: "dict_get p ''fallback'' = PInt k" "0 \<le> k" "num_value (dict_get a ''fallback'') = Some (of_int k)"
    using keeps [OF fb] by blast
  obtain submit success where ss: "dict_get p ''submit'' = PInt submit" "dict_get p ''success'' = PInt success"
    "0 \<le> success" "submit = success + k"
    using p(3) assms(2) k(1,2) by (rule post_accounting_recovery)
  obtain live where live: "dict_get a ''success'' = PInt live" "live \<le> success"
    using p(4) ss assms(2) unfolding a(1)
    by (auto simp: post_stop_progress_def Let_def is_nonnegative_int_iff split: if_splits)
  have get_or: "dict_get_or a f x = dict_get a f" if "dict_get a f \<noteq> PNone" for f x
    using that by (auto simp: dict_get_def dict_get_or_def split: option.splits)
  have "int_value (dict_get b ''fallback'') < k"
    using rec(3) k(3) by (metis py_le_False get_or num_value.simps(4) option.distinct(1))
  moreover have "int_value (dict_get b ''success'') < live"
    using rec(4) live(1) by (intro py_le_False [of "PInt live"]) (simp_all add: get_or)
  ultimately show ?thesis
    unfolding recovery_evidence_def using a(1,2) p(1,2) r rec(1,2) same intact ss k(1) live(2) by fastforce
qed

theorem recovery_lifecycle_sound_witness:
  "recovery_evidence (PDict (ex_offload ''ACTIVE'' 52 50 1)) (PDict (ex_offload ''STOPPED'' 62 60 1)) (PDict ex_recovery)"
  using ex_recovery_passes by (rule recovery_lifecycle_sound) simp

text \<open>Missing evidence always fails: whatever the profile, the recovery evidence and the allowances are, the life
  cycle validation never returns an empty list when a required field of the audio faults, the handshake, the live or the
  stopped offload snapshot is absent.\<close>

theorem missing_evidence_fails:
  assumes "required_absent faults active post handshake f"
  shows "validate_receiver_lifecycle_blocks faults active post handshake profile recovery pending disabled \<noteq> Inr []"
  using assms by (rule required_absent_fails)

theorem missing_evidence_fails_witness:
  "validate_receiver_lifecycle_blocks (PDict ex_faults) (PDict (ex_offload ''ACTIVE'' 52 50 1)) PNone (PDict ex_handshake)
     ''48_4_1'' (PDict ex_recovery) False False \<noteq> Inr []"
  by (rule missing_evidence_fails [where f = "''state''"]) (simp add: required_absent_def absent_def)

text \<open>C16: The transport limits, computed in binary floating point, decide the exact ratios: for counts below \<open>2 ^ 40\<close> a
  summary passes exactly when at least 90 percent of the expected SDUs were received as valid, at most 5 percent of the
  decoded frames were concealed, and no error, unknown or empty SDU was counted.\<close>

theorem transport_limits_exact:
  assumes "0 \<le> n" and "n < 2 ^ 40" and "d < 2 ^ 40"
    and "dict_get summary ''rx_valid'' = PInt v" and "dict_get summary ''decoded'' = PInt d"
    and "dict_get summary ''plc'' = PInt p"
    and "\<forall>f \<in> {''rx_error'', ''rx_unknown'', ''empty_sdu''}. dict_get summary f = PInt (count f)"
  shows "\<exists>ms. validate_stream_transport summary n = Inr ms \<and>
    (ms = [] \<longleftrightarrow> 9 * n \<le> 10 * v \<and> (\<forall>f \<in> {''rx_error'', ''rx_unknown'', ''empty_sdu''}. count f = 0) \<and>
       (0 < d \<longrightarrow> 20 * p \<le> d))"
proof -
  obtain a where a: "check_rx_valid (PInt v) n = Inr a" "a = [] \<longleftrightarrow> 9 * n \<le> 10 * v"
    using check_rx_valid_exact [OF assms(1,2)] by blast
  obtain c where c: "check_plc (PInt d) (PInt p) = Inr c" "c = [] \<longleftrightarrow> (0 < d \<longrightarrow> 20 * p \<le> d)"
    using check_plc_exact [OF assms(3)] by blast
  have "\<forall>f \<in> {''rx_error'', ''rx_unknown'', ''empty_sdu''}. \<exists>ms.
      check_zero_field summary f = Inr ms \<and> (ms = [] \<longleftrightarrow> count f = 0)"
    using assms(7) by (intro ballI check_zero_field_exact) (rule bspec)
  from bchoice [OF this] obtain g where g: "\<forall>f \<in> {''rx_error'', ''rx_unknown'', ''empty_sdu''}.
      check_zero_field summary f = Inr (g f) \<and> (g f = [] \<longleftrightarrow> count f = 0)"
    by blast
  have "rmap (check_zero_field summary) [''rx_error'', ''rx_unknown'', ''empty_sdu''] =
      Inr (map g [''rx_error'', ''rx_unknown'', ''empty_sdu''])"
    using g by simp
  then show ?thesis
    unfolding validate_stream_transport_def assms(4,5,6) a(1) c(1) using a(2) c(2) g by simp
qed

theorem transport_limits_exact_witness:
  "\<exists>ms. validate_stream_transport ex_summary 764 = Inr ms \<and>
    (ms = [] \<longleftrightarrow> 9 * 764 \<le> 10 * (764 :: int) \<and>
       (\<forall>f \<in> {''rx_error'', ''rx_unknown'', ''empty_sdu''}. (\<lambda>_. 0 :: int) f = 0) \<and> (0 < (777 :: int) \<longrightarrow> 20 * 13 \<le> (777 :: int)))"
  by (rule transport_limits_exact) (simp_all add: ex_summary_def dict_get_def)

text \<open>C37: An ISO link-quality snapshot passes exactly when the header was seen, no line was malformed, and its records
  are one per stream slot \<open>0, ..., n - 1\<close> in some order, each with non-negative counters and positive selected
  parameters.\<close>

theorem iso_quality_exact:
  "validate_iso_link_quality parsed n = [] \<longleftrightarrow>
     (\<exists>p records js. parsed = PDict p \<and> is_True (dict_get p ''header_seen'') \<and> \<not> is_True (dict_get p ''malformed'') \<and>
        dict_get p ''streams'' = PList (map PDict records) \<and>
        map (\<lambda>r. dict_get r ''slot'') records = map PInt js \<and> distinct js \<and> set js = {0 ..< n} \<and>
        int (length js) = n \<and> list_all iso_fields_ok records)"
proof (cases "\<exists>p streams. parsed = PDict p \<and> dict_get p ''streams'' = PList streams")
  case False
  then show ?thesis by (auto simp: validate_iso_link_quality_def Let_def split: pyval.splits)
next
  case True
  then obtain p streams where p: "parsed = PDict p" "dict_get p ''streams'' = PList streams" by blast
  obtain found seen where fs: "check_iso_streams n [] streams = (found, seen)" by fastforce
  have pass: "validate_iso_link_quality parsed n = [] \<longleftrightarrow>
    is_True (dict_get p ''header_seen'') \<and> \<not> is_True (dict_get p ''malformed'') \<and>
    int (length streams) = n \<and> check_iso_streams n [] streams = ([], seen) \<and> {0 ..< n} \<subseteq> set seen"
    using p fs by (auto simp: validate_iso_link_quality_def Let_def filter_empty_conv subset_iff)
  show ?thesis (is "_ \<longleftrightarrow> ?rhs")
  proof
    assume "validate_iso_link_quality parsed n = []"
    with pass obtain records js where rj: "streams = map PDict records" "map (\<lambda>r. dict_get r ''slot'') records = map PInt js"
      "distinct js" "set js \<subseteq> {0 ..< n}" "list_all iso_fields_ok records" "seen = js"
      by (auto simp: check_iso_streams_Nil)
    moreover have "length js = length streams" using rj(1,2) by (metis length_map)
    ultimately show ?rhs using pass \<open>validate_iso_link_quality parsed n = []\<close> p
      by (intro exI [of _ p] exI [of _ records] exI [of _ js]) auto
  next
    assume ?rhs
    then obtain records js where rj: "is_True (dict_get p ''header_seen'')" "\<not> is_True (dict_get p ''malformed'')"
      "streams = map PDict records" "map (\<lambda>r. dict_get r ''slot'') records = map PInt js" "distinct js"
      "set js = {0 ..< n}" "int (length js) = n" "list_all iso_fields_ok records"
      using p by auto
    then have "check_iso_streams n [] streams = ([], js)" by (auto simp: check_iso_streams_Nil)
    moreover have "length js = length streams" using rj(3,4) by (metis length_map)
    ultimately show "validate_iso_link_quality parsed n = []" using pass rj fs by auto
  qed
qed

end
