(* ===== verification/Py_Regex.thy ===== *)
theory Py_Regex
  imports Py_Text
begin

text \<open>
  The part of Python's \<open>re\<close> module the scripts use: a backtracking matcher on code points that lists its matches in
  the order of preference (alternatives from the left, greedy repetition), with numbered groups, anchors and word
  boundaries, and on top of it \<open>match\<close>, \<open>fullmatch\<close>, \<open>search\<close> and \<open>finditer\<close>.  \<open>matches\<close> is the declarative meaning
  of a pattern; \<open>run_matches\<close> shows that the matcher finds exactly its matches.  The character classes \<open>\w\<close> and \<open>\d\<close>
  depend on the Unicode character database of the interpreter, which is the parameter \<open>ucd\<close>.
\<close>

section \<open>Patterns\<close>

datatype regex =
    Eps
  | Ch "nat \<Rightarrow> bool"
  | Seq regex regex
  | Alt regex regex
  | Rep regex
  | Grp nat regex
  | Look "nat list \<Rightarrow> nat list \<Rightarrow> bool"

text \<open>A position in a text: the code points before it in reverse, those after it, and the groups closed so far.\<close>

record mstate =
  behind :: "nat list"
  ahead :: "nat list"
  groups :: "(nat \<times> nat list) list"

definition consumes :: "mstate \<Rightarrow> mstate \<Rightarrow> bool" where
  "consumes s t \<longleftrightarrow> length (ahead t) < length (ahead s)"

definition advance :: "mstate \<Rightarrow> mstate" where
  "advance s = s\<lparr>behind := hd (ahead s) # behind s, ahead := tl (ahead s)\<rparr>"

definition step_char :: "(nat \<Rightarrow> bool) \<Rightarrow> mstate \<Rightarrow> mstate list" where
  "step_char p s = (case ahead s of [] \<Rightarrow> [] | c # _ \<Rightarrow> if p c then [advance s] else [])"

definition close_group :: "nat \<Rightarrow> mstate \<Rightarrow> mstate \<Rightarrow> mstate" where
  "close_group n s t =
     t\<lparr>groups := (n, take (length (ahead s) - length (ahead t)) (ahead s)) # groups t\<rparr>"

fun repeat :: "(mstate \<Rightarrow> mstate list) \<Rightarrow> nat \<Rightarrow> mstate \<Rightarrow> mstate list" where
  "repeat f 0 s = [s]"
| "repeat f (Suc n) s = concat (map (repeat f n) (filter (consumes s) (f s))) @ [s]"

text \<open>All matches of a pattern from a position, the preferred one first.  A repetition goes on only after an iteration
  that consumed something, so it ends after as many iterations as there are code points left.\<close>

primrec run :: "regex \<Rightarrow> mstate \<Rightarrow> mstate list" where
  "run Eps s = [s]"
| "run (Ch p) s = step_char p s"
| "run (Seq a b) s = concat (map (run b) (run a s))"
| "run (Alt a b) s = run a s @ run b s"
| "run (Rep a) s = repeat (run a) (length (ahead s)) s"
| "run (Grp n a) s = map (close_group n s) (run a s)"
| "run (Look p) s = (if p (behind s) (ahead s) then [s] else [])"

section \<open>The meaning of a pattern\<close>

inductive matches :: "regex \<Rightarrow> mstate \<Rightarrow> mstate \<Rightarrow> bool" where
  eps: "matches Eps s s"
| ch: "ahead s = c # cs \<Longrightarrow> p c \<Longrightarrow> matches (Ch p) s (advance s)"
| seq: "matches a s t \<Longrightarrow> matches b t u \<Longrightarrow> matches (Seq a b) s u"
| alt_left: "matches a s t \<Longrightarrow> matches (Alt a b) s t"
| alt_right: "matches b s t \<Longrightarrow> matches (Alt a b) s t"
| rep_stop: "matches (Rep a) s s"
| rep_step: "matches a s t \<Longrightarrow> consumes s t \<Longrightarrow> matches (Rep a) t u \<Longrightarrow> matches (Rep a) s u"
| grp: "matches a s t \<Longrightarrow> matches (Grp n a) s (close_group n s t)"
| look: "p (behind s) (ahead s) \<Longrightarrow> matches (Look p) s s"

inductive_simps matches_simps [simp]:
  "matches Eps s t" "matches (Ch p) s t" "matches (Seq a b) s t" "matches (Alt a b) s t" "matches (Grp n a) s t"
  "matches (Look p) s t"

lemma repeat_sound:
  assumes f: "\<And>s t. t \<in> set (f s) \<Longrightarrow> matches a s t"
  shows "t \<in> set (repeat f n s) \<Longrightarrow> matches (Rep a) s t"
  by (induction n arbitrary: s) (auto intro: matches.rep_stop matches.rep_step f)

lemma repeat_complete:
  assumes "matches r s t" and "r = Rep a" and f: "\<And>s t. matches a s t \<Longrightarrow> t \<in> set (f s)"
    and "length (ahead s) \<le> n"
  shows "t \<in> set (repeat f n s)"
  using assms(1,2,4)
proof (induction r s t arbitrary: n rule: matches.induct)
  case (rep_stop b s)
  show ?case by (cases n) auto
next
  case (rep_step b s t u)
  then obtain m where n: "n = Suc m" "length (ahead t) \<le> m" by (cases n) (auto simp: consumes_def)
  from rep_step have "t \<in> set (f s)" "u \<in> set (repeat f m t)" using f n by auto
  with rep_step(2) show ?case by (auto simp: n)
qed auto

theorem run_matches: "t \<in> set (run r s) \<longleftrightarrow> matches r s t"
proof (induction r arbitrary: s t)
  case (Ch p)
  show ?case by (cases "ahead s") (auto simp: step_char_def)
next
  case (Rep r)
  show ?case
    using repeat_sound [of "run r" r] repeat_complete [of "Rep r" s t r "run r"] Rep by auto
qed auto

text \<open>A match moves forward in the text.\<close>

lemma matches_forward: "matches r s t \<Longrightarrow> \<exists>w. ahead s = w @ ahead t \<and> behind t = rev w @ behind s"
proof (induction r s t rule: matches.induct)
  case (seq a s t b u)
  then obtain v w where "ahead s = v @ ahead t" "behind t = rev v @ behind s" "ahead t = w @ ahead u"
    "behind u = rev w @ behind t" by blast
  then show ?case by (intro exI [of _ "v @ w"]) simp
next
  case (rep_step a s t u)
  then obtain v w where "ahead s = v @ ahead t" "behind t = rev v @ behind s" "ahead t = w @ ahead u"
    "behind u = rev w @ behind t" by blast
  then show ?case by (intro exI [of _ "v @ w"]) simp
qed (auto simp: close_group_def advance_def)

section \<open>Character classes and anchors\<close>

record ucd =
  word_point :: "nat \<Rightarrow> bool"
  decimal_value :: "nat \<Rightarrow> nat option"

text \<open>What every version of the database says of ASCII.\<close>

definition ucd_ascii :: "ucd \<Rightarrow> bool" where
  "ucd_ascii u \<longleftrightarrow>
     (\<forall>c < 128. word_point u c \<longleftrightarrow> 48 \<le> c \<and> c \<le> 57 \<or> 65 \<le> c \<and> c \<le> 90 \<or> c = 95 \<or> 97 \<le> c \<and> c \<le> 122) \<and>
     (\<forall>c < 128. decimal_value u c = (if 48 \<le> c \<and> c \<le> 57 then Some (c - 48) else None))"

definition range_class :: "(nat \<times> nat) list \<Rightarrow> nat \<Rightarrow> bool" where
  "range_class rs c \<longleftrightarrow> (\<exists>(lo, hi) \<in> set rs. lo \<le> c \<and> c \<le> hi)"

abbreviation ascii_digit :: "nat \<Rightarrow> bool" where
  "ascii_digit \<equiv> range_class [(48, 57)]"

definition space_points :: "nat list" where
  "space_points = concat (map (\<lambda>q. utf8_points (map char_of q)) space_seqs)"

definition is_space :: "nat \<Rightarrow> bool" where
  "is_space c \<longleftrightarrow> c \<in> set space_points"

definition is_decimal :: "ucd \<Rightarrow> nat \<Rightarrow> bool" where
  "is_decimal u c \<longleftrightarrow> decimal_value u c \<noteq> None"

text \<open>The code points that \<open>re.IGNORECASE\<close> identifies with an ASCII character: the other case of a letter, and the
  long s, the Kelvin sign and the two Turkish letters.\<close>

definition ignore_case :: "nat \<Rightarrow> nat \<Rightarrow> bool" where
  "ignore_case c d \<longleftrightarrow>
     d = c \<or> 97 \<le> c \<and> c \<le> 122 \<and> d + 32 = c \<or> 65 \<le> c \<and> c \<le> 90 \<and> d = c + 32 \<or>
     c \<in> {115, 83} \<and> d = 383 \<or> c \<in> {107, 75} \<and> d = 8490 \<or> c \<in> {105, 73} \<and> d \<in> {304, 305}"

definition points :: "string \<Rightarrow> nat list" where
  "points s = map of_char s"

primrec lit :: "nat list \<Rightarrow> regex" where
  "lit [] = Eps"
| "lit (c # cs) = Seq (Ch (\<lambda>d. d = c)) (lit cs)"

primrec lit_ci :: "nat list \<Rightarrow> regex" where
  "lit_ci [] = Eps"
| "lit_ci (c # cs) = Seq (Ch (ignore_case c)) (lit_ci cs)"

definition plus :: "regex \<Rightarrow> regex" where
  "plus r = Seq r (Rep r)"

definition opt :: "regex \<Rightarrow> regex" where
  "opt r = Alt r Eps"

primrec times :: "nat \<Rightarrow> regex \<Rightarrow> regex" where
  "times 0 r = Eps"
| "times (Suc n) r = Seq r (times n r)"

primrec seqs :: "regex list \<Rightarrow> regex" where
  "seqs [] = Eps"
| "seqs (r # rs) = Seq r (seqs rs)"

primrec alts :: "regex \<Rightarrow> regex list \<Rightarrow> regex" where
  "alts r [] = r"
| "alts r (q # qs) = Alt r (alts q qs)"

text \<open>\<open>^\<close> and \<open>$\<close> without and with \<open>re.MULTILINE\<close>, the dot, and \<open>\b\<close>.\<close>

definition bol :: regex where
  "bol = Look (\<lambda>pre _. pre = [])"

definition eol :: regex where
  "eol = Look (\<lambda>_ rest. rest = [] \<or> rest = [10])"

definition line_start :: regex where
  "line_start = Look (\<lambda>pre _. pre = [] \<or> hd pre = 10)"

definition line_end :: regex where
  "line_end = Look (\<lambda>_ rest. rest = [] \<or> hd rest = 10)"

definition dot :: regex where
  "dot = Ch (\<lambda>c. c \<noteq> 10)"

definition word_boundary :: "ucd \<Rightarrow> regex" where
  "word_boundary u =
     Look (\<lambda>pre rest. (pre \<noteq> [] \<and> word_point u (hd pre)) \<noteq> (rest \<noteq> [] \<and> word_point u (hd rest)))"

section \<open>Matching functions\<close>

definition start :: "nat list \<Rightarrow> mstate" where
  "start t = \<lparr>behind = [], ahead = t, groups = []\<rparr>"

definition re_match :: "regex \<Rightarrow> nat list \<Rightarrow> mstate option" where
  "re_match r t = (case run r (start t) of [] \<Rightarrow> None | m # _ \<Rightarrow> Some m)"

definition re_fullmatch :: "regex \<Rightarrow> nat list \<Rightarrow> mstate option" where
  "re_fullmatch r t = find (\<lambda>m. ahead m = []) (run r (start t))"

fun search_from :: "regex \<Rightarrow> nat list \<Rightarrow> nat list \<Rightarrow> mstate option" where
  "search_from r pre rest =
     (case run r \<lparr>behind = pre, ahead = rest, groups = []\<rparr> of
        m # _ \<Rightarrow> Some m
      | [] \<Rightarrow> (case rest of [] \<Rightarrow> None | c # cs \<Rightarrow> search_from r (c # pre) cs))"

declare search_from.simps [simp del]

definition re_search :: "regex \<Rightarrow> nat list \<Rightarrow> mstate option" where
  "re_search r t = search_from r [] t"

text \<open>The matches of \<open>finditer\<close>, each search starting where the last match ended.  A pattern that can match the empty
  text would go on one code point further; the scripts have none.\<close>

lemma search_from_forward:
  "search_from r pre rest = Some m \<Longrightarrow> length (ahead m) \<le> length rest"
proof (induction r pre rest rule: search_from.induct)
  case (1 r pre rest)
  show ?case
  proof (cases "run r \<lparr>behind = pre, ahead = rest, groups = []\<rparr>")
    case Nil
    with 1 show ?thesis by (auto simp: search_from.simps [of r pre rest] split: list.splits intro: le_SucI)
  next
    case (Cons x xs)
    with "1.prems" have "m = x" by (simp add: search_from.simps [of r pre rest])
    moreover have "matches r \<lparr>behind = pre, ahead = rest, groups = []\<rparr> x"
      using Cons by (simp flip: run_matches)
    ultimately show ?thesis by (auto dest: matches_forward)
  qed
qed

function find_from :: "regex \<Rightarrow> nat list \<Rightarrow> nat list \<Rightarrow> mstate list" where
  "find_from r pre rest =
     (case search_from r pre rest of
        None \<Rightarrow> []
      | Some m \<Rightarrow>
          m # (if length (ahead m) < length rest then find_from r (behind m) (ahead m)
               else (case rest of [] \<Rightarrow> [] | c # cs \<Rightarrow> find_from r (c # pre) cs)))"
  by pat_completeness auto
termination
  by (relation "measure (\<lambda>(_, _, rest). length rest)") auto

declare find_from.simps [simp del]

definition re_finditer :: "regex \<Rightarrow> nat list \<Rightarrow> mstate list" where
  "re_finditer r t = find_from r [] t"

definition group_of :: "mstate \<Rightarrow> nat \<Rightarrow> nat list option" where
  "group_of m n = map_of (groups m) n"

text \<open>\<open>int (m.group (n))\<close> for a group of decimal digits.\<close>

definition int_of_points :: "ucd \<Rightarrow> nat list \<Rightarrow> int result" where
  "int_of_points u ds =
     (if 4300 < length ds then Inl (ValueError (text_msg ''Exceeds the limit for integer string conversion''))
      else Inr (int (foldl (\<lambda>n c. n * 10 + (case decimal_value u c of None \<Rightarrow> 0 | Some k \<Rightarrow> k)) 0 ds)))"

section \<open>Matching concrete texts\<close>

text \<open>The position after reading the text \<open>w\<close>.\<close>

definition read :: "nat list \<Rightarrow> mstate \<Rightarrow> mstate" where
  "read w s = s\<lparr>behind := rev w @ behind s, ahead := drop (length w) (ahead s)\<rparr>"

lemma read_Nil [simp]: "read [] s = s"
  by (simp add: read_def)

lemma read_read [simp]: "read v (read w s) = read (w @ v) s"
  by (simp add: read_def add.commute)

lemma read_fields [simp]:
  "ahead (read w s) = drop (length w) (ahead s)" "behind (read w s) = rev w @ behind s" "groups (read w s) = groups s"
  by (simp_all add: read_def)

lemma advance_read: "ahead s = c # cs \<Longrightarrow> advance s = read [c] s"
  by (simp add: advance_def read_def)

lemma matches_seqs_append:
  "matches (seqs (xs @ ys)) s t \<longleftrightarrow> (\<exists>m. matches (seqs xs) s m \<and> matches (seqs ys) m t)"
  by (induction xs arbitrary: s) auto

lemma matches_lit: "matches (lit w) s t \<longleftrightarrow> (\<exists>r. ahead s = w @ r) \<and> t = read w s"
proof (induction w arbitrary: s)
  case (Cons c w)
  show ?case by (auto simp: Cons advance_read)
qed auto

lemma matches_rep_class:
  assumes "matches r s t" and "r = Rep (Ch p)"
  shows "\<exists>w v. ahead s = w @ v \<and> list_all p w \<and> t = read w s"
  using assms
proof (induction r s t rule: matches.induct)
  case (rep_step a s t u)
  then obtain c cs where c: "ahead s = c # cs" "p c" "t = read [c] s" by (auto simp: advance_read)
  from rep_step obtain w v where "ahead t = w @ v" "list_all p w" "u = read w t" by blast
  with c show ?case by (intro exI [of _ "c # w"] exI [of _ v]) simp
qed (auto intro: exI [of _ "[]"])

lemma matches_plus_class:
  "matches (plus (Ch p)) s t \<Longrightarrow> \<exists>w v. ahead s = w @ v \<and> w \<noteq> [] \<and> list_all p w \<and> t = read w s"
proof -
  assume "matches (plus (Ch p)) s t"
  then obtain c cs where c: "ahead s = c # cs" "p c" "matches (Rep (Ch p)) (read [c] s) t"
    by (auto simp: plus_def advance_read)
  from matches_rep_class [OF c(3) refl] obtain w v where "cs = w @ v" "list_all p w" "t = read (c # w) s"
    using c(1) by auto
  with c show ?thesis by (intro exI [of _ "c # w"] exI [of _ v]) simp
qed

text \<open>A literal has at most one match.\<close>

lemma run_lit: "run (lit w) s = (if take (length w) (ahead s) = w then [read w s] else [])"
proof (induction w arbitrary: s)
  case (Cons c w)
  show ?case
    by (cases "ahead s") (simp_all add: step_char_def Cons advance_read)
qed simp

lemma run_seqs_Cons [simp]: "run (seqs (r # rs)) s = concat (map (run (seqs rs)) (run r s))"
  by simp

text \<open>Greedy repetition of a class: all readable prefixes of the run of matching code points, the longest first.\<close>

lemma repeat_class:
  assumes "ahead s = w @ v" and "list_all p w" and "v = [] \<or> \<not> p (hd v)" and "length w \<le> n"
  shows "repeat (step_char p) n s = map (\<lambda>k. read (take k w) s) (rev [0 ..< Suc (length w)])"
  using assms
proof (induction w arbitrary: n s)
  case Nil
  then have "step_char p s = []" by (auto simp: step_char_def split: list.splits)
  then show ?case by (cases n) simp_all
next
  case (Cons c w)
  then obtain m where n: "n = Suc m" by (cases n) auto
  have step: "step_char p s = [read [c] s]" using Cons by (simp add: step_char_def advance_read)
  have "consumes s (read [c] s)" using Cons.prems(1) by (simp add: consumes_def)
  moreover have "repeat (step_char p) m (read [c] s) = map (\<lambda>k. read (take k w) (read [c] s)) (rev [0 ..< Suc (length w)])"
    using Cons n by simp
  ultimately have "repeat (step_char p) n s = map (\<lambda>k. read (c # take k w) s) (rev [0 ..< Suc (length w)]) @ [s]"
    by (simp add: n step)
  also have "\<dots> = map (\<lambda>k. read (take k (c # w)) s) (map Suc (rev [0 ..< Suc (length w)]) @ [0])"
    by (simp add: comp_def)
  also have "map Suc (rev [0 ..< Suc (length w)]) @ [0] = rev [0 ..< Suc (length (c # w))]"
    by (simp only: rev_map [symmetric] map_Suc_upt rev.simps(2) [symmetric] upt_conv_Cons [symmetric]
        length_Cons zero_less_Suc)
  finally show ?case .
qed

lemma run_Ch: "run (Ch p) = step_char p"
  by (rule ext) simp

lemma run_plus_class:
  assumes "ahead s = w @ v" and "w \<noteq> []" and "list_all p w" and "v = [] \<or> \<not> p (hd v)"
  shows "run (plus (Ch p)) s = map (\<lambda>k. read (take (Suc k) w) s) (rev [0 ..< length w])"
proof -
  obtain c w' where w: "w = c # w'" using assms(2) by (cases w) auto
  have "step_char p s = [read [c] s]" using assms w by (simp add: step_char_def advance_read)
  moreover have "repeat (step_char p) (length (w' @ v)) (read [c] s) =
      map (\<lambda>k. read (take k w') (read [c] s)) (rev [0 ..< Suc (length w')])"
    by (rule repeat_class) (use assms w in auto)
  ultimately show ?thesis using assms(1) by (simp add: plus_def w run_Ch)
qed

text \<open>A continuation that cannot start on a code point of the class discards all but the longest repetition.\<close>

definition stuck_on :: "(nat \<Rightarrow> bool) \<Rightarrow> regex \<Rightarrow> bool" where
  "stuck_on p k \<longleftrightarrow> (\<forall>t. ahead t \<noteq> [] \<longrightarrow> p (hd (ahead t)) \<longrightarrow> run k t = [])"

lemma run_group_class:
  assumes "ahead s = w @ v" and "w \<noteq> []" and "list_all p w" and "v = [] \<or> \<not> p (hd v)" and "stuck_on p k"
  shows "concat (map (run k) (run (Grp n (plus (Ch p))) s)) = run k ((read w s)\<lparr>groups := (n, w) # groups s\<rparr>)"
proof -
  obtain m where m: "length w = Suc m" using assms(2) by (cases w) auto
  let ?g = "\<lambda>j. close_group n s (read (take (Suc j) w) s)"
  have shorter: "run k (?g j) = []" if "j < m" for j
  proof -
    have "ahead (?g j) = drop (Suc j) w @ v" using assms(1) that m by (simp add: close_group_def)
    moreover have "drop (Suc j) w \<noteq> []" using that m by simp
    moreover from this have "p (hd (drop (Suc j) w))"
      using assms(3) by (metis hd_in_set in_set_dropD list_all_iff)
    ultimately show ?thesis using assms(5) by (simp add: stuck_on_def)
  qed
  have longest: "?g m = (read w s)\<lparr>groups := (n, w) # groups s\<rparr>"
    using assms(1) m by (simp add: close_group_def)
  have "run (Grp n (plus (Ch p))) s = map ?g (rev [0 ..< Suc m])"
    using run_plus_class [OF assms(1-4)] m by (simp add: comp_def)
  then have "run (Grp n (plus (Ch p))) s = ?g m # map ?g (rev [0 ..< m])" by simp
  moreover have "concat (map (run k) (map ?g (rev [0 ..< m]))) = []" using shorter by simp
  ultimately show ?thesis by (simp only: list.map concat.simps longest append_Nil2)
qed

lemma stuck_lit: "\<not> p c \<Longrightarrow> stuck_on p (seqs (lit (c # w) # rs))"
  by (auto simp: stuck_on_def run_lit neq_Nil_conv step_char_def)

lemma stuck_eol: "\<not> p 10 \<Longrightarrow> stuck_on p (seqs (eol # rs))"
  by (auto simp: stuck_on_def eol_def)

text \<open>A search fails exactly when the pattern matches at no position of the text.\<close>

lemma run_Nil_iff: "run r s = [] \<longleftrightarrow> (\<forall>t. \<not> matches r s t)"
  by (metis run_matches all_not_in_conv set_empty)

lemma search_from_None:
  "search_from r pre rest = None \<longleftrightarrow>
     (\<forall>w v t. rest = w @ v \<longrightarrow> \<not> matches r \<lparr>behind = rev w @ pre, ahead = v, groups = []\<rparr> t)"
proof (induction rest arbitrary: pre)
  case Nil
  show ?case
    by (subst search_from.simps) (simp add: run_Nil_iff [symmetric] split: list.splits)
next
  case (Cons c cs)
  have "search_from r pre (c # cs) = None \<longleftrightarrow>
    (\<forall>t. \<not> matches r \<lparr>behind = pre, ahead = c # cs, groups = []\<rparr> t) \<and> search_from r (c # pre) cs = None"
    by (subst search_from.simps) (simp add: run_Nil_iff [symmetric] split: list.splits)
  also have "\<dots> \<longleftrightarrow> (\<forall>w v t. c # cs = w @ v \<longrightarrow> \<not> matches r \<lparr>behind = rev w @ pre, ahead = v, groups = []\<rparr> t)"
    (is "?l \<longleftrightarrow> ?r")
  proof
    assume l: ?l
    show ?r
    proof (intro allI impI)
      fix w v t
      assume "c # cs = w @ v"
      with l show "\<not> matches r \<lparr>behind = rev w @ pre, ahead = v, groups = []\<rparr> t"
        unfolding Cons.IH by (cases w) auto
    qed
  next
    assume r: ?r
    have "\<not> matches r \<lparr>behind = rev w @ c # pre, ahead = v, groups = []\<rparr> t" if "cs = w @ v" for w v t
      using r [rule_format, of "c # w" v] that by simp
    with r [rule_format, of "[]"] show ?l unfolding Cons.IH by simp
  qed
  finally show ?case .
qed

lemma re_search_None:
  "re_search r t = None \<longleftrightarrow> (\<forall>w v m. t = w @ v \<longrightarrow> \<not> matches r \<lparr>behind = rev w, ahead = v, groups = []\<rparr> m)"
  by (simp add: re_search_def search_from_None)

lemma re_search_lit: "re_search (lit p) t \<noteq> None \<longleftrightarrow> (\<exists>a b. t = a @ p @ b)"
  by (auto simp: re_search_None matches_lit)

lemma re_fullmatch_Some:
  "re_fullmatch r t = Some m \<Longrightarrow> matches r (start t) m \<and> ahead m = []"
  by (auto simp: re_fullmatch_def find_Some_iff simp flip: run_matches)

lemma re_fullmatch_None: "re_fullmatch r t = None \<longleftrightarrow> (\<forall>m. matches r (start t) m \<longrightarrow> ahead m \<noteq> [])"
  by (auto simp: re_fullmatch_def find_None_iff simp flip: run_matches)

end
