(* ===== verification/Hil_Console.thy ===== *)
theory Hil_Console
  imports Py_Regex Py_Json
begin

text \<open>
  The console side of \<open>scripts/hil/receiver.py\<close>: the removal of terminal control sequences (\<open>strip_vt100\<close> of
  \<open>scripts/hil/serial_io.py\<close>), the parsers of the receiver's shell output (ISO link quality, stream summaries, the FLPR
  handshake block, fault acknowledgements) and the warning scanners with the bounded exemption of the hang row.  A text
  is kept as its UTF-8 bytes; patterns run on its code points.
\<close>

section \<open>Control sequences\<close>

definition csi_rest :: "string \<Rightarrow> string option" where
  "csi_rest s =
     (if take 2 s = [CHR 0x1B, CHR ''['']
      then (case dropWhile (byte_in 0x20 0x2F) (dropWhile (byte_in 0x30 0x3F) (drop 2 s)) of
              c # r \<Rightarrow> if byte_in 0x40 0x7E c then Some r else None
            | [] \<Rightarrow> None)
      else None)"

lemma csi_rest_shorter: "csi_rest s = Some r \<Longrightarrow> length r < length s"
proof -
  assume r: "csi_rest s = Some r"
  let ?p = "dropWhile (byte_in 0x30 0x3F) (drop 2 s)"
  from r obtain c where "dropWhile (byte_in 0x20 0x2F) ?p = c # r"
    by (auto simp: csi_rest_def split: if_splits list.splits)
  then have "Suc (length r) \<le> length ?p" using length_dropWhile_le [of "byte_in 0x20 0x2F" ?p] by simp
  also have "\<dots> \<le> length (drop 2 s)" by (rule length_dropWhile_le)
  finally show ?thesis by simp
qed

function strip_vt100 :: "string \<Rightarrow> string" where
  "strip_vt100 s =
     (case csi_rest s of
        Some r \<Rightarrow> strip_vt100 r
      | None \<Rightarrow> (case s of [] \<Rightarrow> [] | c # cs \<Rightarrow> c # strip_vt100 cs))"
  by pat_completeness auto
termination
  by (relation "measure length") (auto dest: csi_rest_shorter)

declare strip_vt100.simps [simp del]

definition plain_points :: "string \<Rightarrow> nat list" where
  "plain_points s = utf8_points (strip_vt100 s)"

definition text_of :: "nat list \<Rightarrow> string" where
  "text_of ps = concat (map utf8_encode ps)"

section \<open>ISO link quality\<close>

definition ascii_ucd :: ucd where
  "ascii_ucd =
     \<lparr>word_point = range_class [(48, 57), (65, 90), (95, 95), (97, 122)],
      decimal_value = (\<lambda>c. if ascii_digit c then Some (c - 48) else None)\<rparr>"

definition digits :: "nat \<Rightarrow> regex" where
  "digits n = Grp n (plus (Ch ascii_digit))"

definition RE_ISO_LINK_QUALITY_HEADER :: regex where
  "RE_ISO_LINK_QUALITY_HEADER = seqs [bol, lit (points ''--- ISO link quality ---''), eol]"

definition ISO_LABELS :: "string list" where
  "ISO_LABELS =
     [''tx_unacked'', ''tx_flushed'', ''tx_last_subevent'', ''retransmitted'', ''crc_error'', ''rx_unreceived'',
      ''duplicate'', ''iso_interval_1250us'', ''nse'', ''cig_sync_us'', ''cis_sync_us'', ''c_max_pdu'', ''c_phy'', ''c_bn'',
      ''c_flush_1250us'']"

primrec labelled :: "nat \<Rightarrow> string list \<Rightarrow> regex list" where
  "labelled n [] = []"
| "labelled n (l # ls) = lit (points ('' '' @ l @ ''='')) # digits n # labelled (Suc n) ls"

definition RE_ISO_LINK_QUALITY_STREAM :: regex where
  "RE_ISO_LINK_QUALITY_STREAM =
     seqs ([bol, lit (points ''  Stream[''), digits 1, lit (points ''] handle=0x''),
            Grp 2 (times 4 (Ch (range_class [(48, 57), (65, 70)])))] @ labelled 3 ISO_LABELS @ [eol])"

definition RE_ISO_LINK_QUALITY_STREAM_CANDIDATE :: regex where
  "RE_ISO_LINK_QUALITY_STREAM_CANDIDATE =
     seqs [bol, Rep (Ch (\<lambda>c. c = 32 \<or> c = 9)), lit (points ''Stream['')]"

text \<open>\<open>int (m.group (n))\<close>, \<open>None\<close> for a group that took no part, and \<open>int (m.group (n), 16)\<close>.\<close>

definition int_group :: "ucd \<Rightarrow> mstate \<Rightarrow> nat \<Rightarrow> pyval result" where
  "int_group u m n =
     (case group_of m n of
        None \<Rightarrow> Inr PNone
      | Some ds \<Rightarrow> rbind (int_of_points u ds) (\<lambda>i. Inr (PInt i)))"

definition hex_point :: "nat \<Rightarrow> nat" where
  "hex_point c = (if c \<le> 57 then c - 48 else c - 55)"

definition hex_group :: "mstate \<Rightarrow> nat \<Rightarrow> pyval" where
  "hex_group m n =
     PInt (int (foldl (\<lambda>k c. k * 16 + hex_point c) 0 (case group_of m n of None \<Rightarrow> [] | Some ds \<Rightarrow> ds)))"

definition int_fields :: "ucd \<Rightarrow> mstate \<Rightarrow> nat \<Rightarrow> string list \<Rightarrow> pydict result" where
  "int_fields u m n labels =
     rmap (\<lambda>(i, l). rbind (int_group u m i) (\<lambda>v. Inr (l, v))) (List.enumerate n labels)"

definition iso_stream_record :: "mstate \<Rightarrow> pydict result" where
  "iso_stream_record m =
     rbind (int_group ascii_ucd m 1) (\<lambda>slot.
     rbind (int_fields ascii_ucd m 3 ISO_LABELS) (\<lambda>fields.
       Inr ((''slot'', slot) # (''handle'', hex_group m 2) # fields)))"

record iso_state =
  iso_header :: bool
  iso_streams :: "pyval list"
  iso_malformed :: bool

definition iso_line :: "iso_state \<Rightarrow> string \<Rightarrow> iso_state result" where
  "iso_line st line =
     (let t = utf8_points line in
      if re_fullmatch RE_ISO_LINK_QUALITY_HEADER t \<noteq> None
      then Inr (st\<lparr>iso_header := True, iso_malformed := iso_header st \<or> iso_malformed st\<rparr>)
      else if \<not> iso_header st then Inr st
      else if re_match RE_ISO_LINK_QUALITY_STREAM_CANDIDATE t = None then Inr st
      else (case re_fullmatch RE_ISO_LINK_QUALITY_STREAM t of
              None \<Rightarrow> Inr (st\<lparr>iso_malformed := True\<rparr>)
            | Some m \<Rightarrow> rbind (iso_stream_record m) (\<lambda>r. Inr (st\<lparr>iso_streams := iso_streams st @ [PDict r]\<rparr>))))"

definition parse_iso_link_quality :: "string \<Rightarrow> pydict result" where
  "parse_iso_link_quality transcript =
     rbind (rfold iso_line \<lparr>iso_header = False, iso_streams = [], iso_malformed = False\<rparr>
              (splitlines (strip_vt100 transcript))) (\<lambda>st.
       Inr [(''header_seen'', PBool (iso_header st)), (''streams'', PList (iso_streams st)),
            (''malformed'', PBool (iso_malformed st))])"

section \<open>Stream summaries\<close>

definition decimals :: "ucd \<Rightarrow> nat \<Rightarrow> regex" where
  "decimals u n = Grp n (plus (Ch (is_decimal u)))"

primrec summary_fields :: "ucd \<Rightarrow> nat \<Rightarrow> string list \<Rightarrow> regex list" where
  "summary_fields u n [] = []"
| "summary_fields u n (l # ls) = lit (points ('' '' @ l @ ''='')) # decimals u n # summary_fields u (Suc n) ls"

definition RE_STREAM_SUMMARY :: "ucd \<Rightarrow> regex" where
  "RE_STREAM_SUMMARY u =
     seqs ([lit (points ''Stream[''), decimals u 1, lit (points ''] summary:'')] @
           summary_fields u 2
             [''SDUs'', ''decoded'', ''plc'', ''decode_err'', ''i2s_underrun'', ''stream_reset'', ''empty_sdu''] @
           [opt (seqs (summary_fields u 9 [''rx_valid'', ''rx_error'', ''rx_lost'', ''rx_unknown'', ''rx_no_ts''])),
            opt (lit [13]), line_end])"

definition SUMMARY_KEYS :: "string list" where
  "SUMMARY_KEYS =
     [''slot'', ''sdus'', ''decoded'', ''plc'', ''decode_err'', ''i2s_underrun'', ''stream_reset'', ''empty_sdu'', ''rx_valid'',
      ''rx_error'', ''rx_lost'', ''rx_unknown'', ''rx_no_ts'']"

definition parse_stream_summary :: "ucd \<Rightarrow> string \<Rightarrow> pydict list result" where
  "parse_stream_summary u transcript =
     rmap (\<lambda>m. int_fields u m 1 SUMMARY_KEYS) (re_finditer (RE_STREAM_SUMMARY u) (plain_points transcript))"

section \<open>The FLPR handshake block\<close>

abbreviation spaces :: regex where
  "spaces \<equiv> Rep (Ch is_space)"

definition RE_HANDSHAKE_HEADER :: regex where
  "RE_HANDSHAKE_HEADER = seqs [bol, lit (points ''--- FLPR handshake ---''), eol]"

definition RE_HS_BOOL :: regex where
  "RE_HS_BOOL =
     seqs [bol, lit (points ''  ''), Grp 1 (alts (lit (points ''Ready'')) [lit (points ''ACKed''), lit (points ''Healthy'')]),
           spaces, lit (points '':''), spaces, Grp 2 (alts (lit (points ''yes'')) [lit (points ''no'')]), eol]"

definition RE_HS_ERRORS :: "ucd \<Rightarrow> regex" where
  "RE_HS_ERRORS u =
     seqs [bol, lit (points ''  Errors''), spaces, lit (points '':''), spaces, lit (points ''len=''), decimals u 1,
           lit (points '' ver=''), decimals u 2, lit (points '' unk=''), decimals u 3, lit (points '' send=''), decimals u 4, eol]"

definition RE_HS_RX :: "ucd \<Rightarrow> string \<Rightarrow> regex" where
  "RE_HS_RX u label =
     seqs [bol, lit (points (''  RX '' @ label)), spaces, lit (points '':''), spaces, decimals u 1, eol]"

definition HS_RX_FIELDS :: "(string \<times> string) list" where
  "HS_RX_FIELDS = [(''lost'', ''rx_lost''), (''dup'', ''rx_dup''), (''ooo'', ''rx_ooo''), (''missed'', ''rx_missed'')]"

definition lower_ascii :: "string \<Rightarrow> string" where
  "lower_ascii s = map (\<lambda>c. if byte_in 65 90 c then char_of (of_char c + (32 :: nat)) else c) s"

definition group_text :: "mstate \<Rightarrow> nat \<Rightarrow> string" where
  "group_text m n = (case group_of m n of None \<Rightarrow> [] | Some ps \<Rightarrow> text_of ps)"

text \<open>The first of the four \<open>RX\<close> patterns that matches decides; a line that none of the patterns matches is skipped.\<close>

fun hs_rx :: "ucd \<Rightarrow> pydict \<Rightarrow> nat list \<Rightarrow> (string \<times> string) list \<Rightarrow> pydict result" where
  "hs_rx u result t [] = Inr result"
| "hs_rx u result t ((label, key) # others) =
     (case re_match (RE_HS_RX u label) t of
        Some m \<Rightarrow> rbind (int_group u m 1) (\<lambda>v. Inr (dict_set result key v))
      | None \<Rightarrow> hs_rx u result t others)"

definition hs_line :: "ucd \<Rightarrow> pydict \<Rightarrow> string \<Rightarrow> pydict result" where
  "hs_line u result line =
     (let t = utf8_points line in
      case re_match RE_HS_BOOL t of
        Some m \<Rightarrow> Inr (dict_set result (lower_ascii (group_text m 1)) (PBool (group_text m 2 = ''yes'')))
      | None \<Rightarrow>
          (case re_match (RE_HS_ERRORS u) t of
             Some m \<Rightarrow>
               rbind (int_fields u m 1 [''err_len'', ''err_ver'', ''err_unk'', ''err_send'']) (\<lambda>fields.
                 Inr (foldl (\<lambda>d (k, v). dict_set d k v) result fields))
           | None \<Rightarrow> hs_rx u result t HS_RX_FIELDS))"

fun hs_loop :: "ucd \<Rightarrow> bool \<Rightarrow> pydict \<Rightarrow> string list \<Rightarrow> pydict result" where
  "hs_loop u in_block result [] = Inr result"
| "hs_loop u in_block result (line # lines) =
     (if re_match RE_HANDSHAKE_HEADER (utf8_points line) \<noteq> None
      then hs_loop u True (dict_set result ''header_seen'' (PBool True)) lines
      else if \<not> in_block then hs_loop u False result lines
      else if startswith line ''---'' \<or> startswith line ''  State'' then Inr result
      else rbind (hs_line u result line) (\<lambda>result'. hs_loop u True result' lines))"

definition HS_EMPTY :: pydict where
  "HS_EMPTY =
     [(''header_seen'', PBool False), (''ready'', PNone), (''acked'', PNone), (''healthy'', PNone), (''err_len'', PNone),
      (''err_ver'', PNone), (''err_unk'', PNone), (''err_send'', PNone), (''rx_lost'', PNone), (''rx_dup'', PNone),
      (''rx_ooo'', PNone), (''rx_missed'', PNone)]"

definition parse_flpr_handshake :: "ucd \<Rightarrow> string \<Rightarrow> pydict result" where
  "parse_flpr_handshake u transcript = hs_loop u False HS_EMPTY (splitlines (strip_vt100 transcript))"

section \<open>Fault acknowledgements\<close>

definition RE_FAULT_HANG_ACK :: "ucd \<Rightarrow> regex" where
  "RE_FAULT_HANG_ACK u = seqs [word_boundary u, lit (points ''FAULT_HANG_ACK received''), word_boundary u]"

definition RE_TIMED_STALL_ACK :: "ucd \<Rightarrow> regex" where
  "RE_TIMED_STALL_ACK u =
     seqs [word_boundary u, lit (points ''FLPR timed stall applied:''), spaces, lit (points ''bits=0x01''),
           plus (Ch is_space), lit (points ''duration=60''), plus (Ch is_space), lit (points ''ms''), word_boundary u]"

definition parse_fault_ack :: "ucd \<Rightarrow> string \<Rightarrow> pyval \<Rightarrow> pyval" where
  "parse_fault_ack u transcript fault =
     (let plain = plain_points transcript in
      if py_eq fault (PStr ''hang'') \<and> re_search (RE_FAULT_HANG_ACK u) plain \<noteq> None then PStr ''FAULT_HANG_ACK''
      else if py_eq fault (PStr ''stall'') \<and> re_search (RE_TIMED_STALL_ACK u) plain \<noteq> None
      then PStr ''TIMED_STALL_ACK''
      else PNone)"

section \<open>Warnings\<close>

definition WARNING_PATTERNS :: "ucd \<Rightarrow> regex list" where
  "WARNING_PATTERNS u =
     [lit (points ''LOG_WRN''), lit (points ''LOG_ERR''), lit_ci (points ''<wrn>''), lit_ci (points ''<err>''),
      lit (points ''FATAL''),
      seqs [word_boundary u, lit_ci (points ''assert''), opt (Grp 1 (lit_ci (points ''ion''))), word_boundary u],
      seqs [word_boundary u, lit_ci (points ''fault''), word_boundary u], lit_ci (points ''stack overflow''),
      lit (points ''i2s_nrfx: Next buffers not supplied on time''), lit (points ''Cannot write in state''),
      lit_ci (points ''ISO sequence discontinuity''), lit_ci (points ''unexpected recovery'')]"

definition has_warning :: "ucd \<Rightarrow> string \<Rightarrow> bool" where
  "has_warning u line \<longleftrightarrow> list_ex (\<lambda>p. re_search p (plain_points line) \<noteq> None) (WARNING_PATTERNS u)"

definition scan_warnings :: "ucd \<Rightarrow> string list \<Rightarrow> string list" where
  "scan_warnings u lines = filter (has_warning u) lines"

section \<open>Raw lines with their byte ranges\<close>

definition LINE_ENDINGS :: "nat list list" where
  "LINE_ENDINGS =
     [[10], [13], [11], [12], [28], [29], [30], [194, 133], [226, 128, 168], [226, 128, 169]]"

text \<open>The text of one segment of \<open>splitlines (keepends=True)\<close> without its terminator, and whether it had one.\<close>

definition segment_line :: "string \<Rightarrow> string \<times> bool" where
  "segment_line segment =
     (if endswith segment [CHR 0x0D, CHR 0x0A] then (take (length segment - 2) segment, True)
      else (case find (\<lambda>e. endswith segment (map char_of e)) LINE_ENDINGS of
              Some e \<Rightarrow> (take (length segment - length e) segment, True)
            | None \<Rightarrow> (segment, False)))"

type_synonym raw_line = "nat \<times> nat \<times> string \<times> bool"

fun raw_segments :: "nat \<Rightarrow> string list \<Rightarrow> raw_line list" where
  "raw_segments offset [] = []"
| "raw_segments offset (segment # segments) =
     (let end_offset = offset + length segment; (line, done) = segment_line segment in
      (offset, end_offset, line, done) # raw_segments end_offset segments)"

definition iter_raw_utf8_lines :: "string \<Rightarrow> raw_line list result" where
  "iter_raw_utf8_lines raw =
     (if utf8_valid raw then Inr (raw_segments 0 (map (\<lambda>(l, e). l @ e) (line_pairs raw)))
      else Inl UnicodeDecodeError)"

definition raw_window :: "pyval \<Rightarrow> nat \<Rightarrow> (int \<times> int) option" where
  "raw_window recovery raw_length =
     (case recovery of
        PDict r \<Rightarrow>
          (case dict_get r ''raw_window'' of
             PDict window \<Rightarrow>
               (if set (dict_keys window) \<noteq> {''start_offset'', ''end_offset''} then None
                else
                  (let start_offset = dict_get window ''start_offset''; end_offset = dict_get window ''end_offset'' in
                   if \<not> isinstance_int start_offset \<or> isinstance_bool start_offset then None
                   else if \<not> isinstance_int end_offset \<or> isinstance_bool end_offset then None
                   else if int_value start_offset < 0 \<or> int_value end_offset < int_value start_offset \<or>
                           int raw_length < int_value end_offset then None
                   else Some (int_value start_offset, int_value end_offset)))
           | _ \<Rightarrow> None)
      | _ \<Rightarrow> None)"

section \<open>The exemption of the hang row\<close>

definition RECEIVER_PROMPT :: string where
  "RECEIVER_PROMPT = ''uart:~$ ''"

definition ENVELOPE_PREFIX :: "regex list" where
  "ENVELOPE_PREFIX =
     (let d2 = times 2 (Ch ascii_digit); d3 = times 3 (Ch ascii_digit); blanks = plus (Ch (\<lambda>c. c = 32)) in
      [bol, opt (lit (points RECEIVER_PROMPT)),
       opt (seqs [lit (points ''[''), d2, lit (points '':''), d2, lit (points '':''), d2, lit (points ''.''), d3,
                  lit (points '',''), d3, lit (points '']''), blanks]),
       alts (lit (points ''<wrn>'')) [lit (points ''LOG_WRN'')], opt (lit (points '':'')), blanks])"

definition RE_HANG_RECOVERY_WARNING_ENVELOPE :: regex where
  "RE_HANG_RECOVERY_WARNING_ENVELOPE =
     seqs (ENVELOPE_PREFIX @
       [Grp 1 (alts (lit (points ''audio_offload'')) [lit (points ''flpr_ring'')]), lit (points '':''),
        plus (Ch (\<lambda>c. c = 32)), Grp 2 (Rep dot), eol])"

definition exact :: "nat list \<Rightarrow> regex" where
  "exact t = seqs [bol, lit t, eol]"

definition HANG_RECOVERY_WARNING_PAYLOADS :: "(string \<times> nat list) list" where
  "HANG_RECOVERY_WARNING_PAYLOADS =
     [(''audio_offload'', points ''offload: heartbeat supervisor '' @ [8594] @ points '' RECOVERING''),
      (''audio_offload'', points ''offload recovery: handshake unhealthy, escalating to runtime restart''),
      (''audio_offload'',
         points ''offload recovery: short ring reset failed (-116), escalating to runtime restart''),
      (''flpr_ring'', points ''RING_RESET_ACK timeout (100 ms)'')]"

definition is_documented_hang_recovery_warning :: "string \<Rightarrow> bool" where
  "is_documented_hang_recovery_warning line =
     (case re_fullmatch RE_HANG_RECOVERY_WARNING_ENVELOPE (utf8_points (strip (strip_vt100 line))) of
        None \<Rightarrow> False
      | Some envelope \<Rightarrow>
          list_ex (\<lambda>(expected_module, payload).
              group_of envelope 1 = Some (points expected_module) \<and>
              re_fullmatch (exact payload) (case group_of envelope 2 of None \<Rightarrow> [] | Some ps \<Rightarrow> ps) \<noteq> None)
            HANG_RECOVERY_WARNING_PAYLOADS)"

definition exempted :: "pyval \<Rightarrow> (int \<times> int) option \<Rightarrow> raw_line \<Rightarrow> bool" where
  "exempted fault window l =
     (case l of (from_offset, to_offset, line, done) \<Rightarrow>
        py_eq fault (PStr ''hang'') \<and>
        (case window of
           None \<Rightarrow> False
         | Some (lo, hi) \<Rightarrow>
             lo \<le> int from_offset \<and> int to_offset \<le> hi \<and> done \<and> is_documented_hang_recovery_warning line))"

definition scan_raw_warnings :: "ucd \<Rightarrow> string \<Rightarrow> pyval \<Rightarrow> pyval \<Rightarrow> string list result" where
  "scan_raw_warnings u raw fault recovery =
     rbind (iter_raw_utf8_lines raw) (\<lambda>raw_lines.
       let window = (if fault = PNone then None else raw_window recovery (length raw)) in
       if fault \<noteq> PNone \<and> window = None
       then Inl (ReceiverError (text_msg ''fault recovery raw_window missing or invalid''))
       else
         Inr (map (\<lambda>(_, _, line, _). line)
                (filter (\<lambda>l. case l of (_, _, line, _) \<Rightarrow> scan_warnings u [line] \<noteq> [] \<and> \<not> exempted fault window l)
                   raw_lines)))"

section \<open>Shell errors\<close>

definition RE_SHELL_ERROR :: "ucd \<Rightarrow> regex" where
  "RE_SHELL_ERROR u =
     alts (seqs [bol, lit_ci (points ''Error:'')])
       [seqs [bol, lit_ci (points ''error:'')],
        seqs [lit (points '':''), spaces, lit_ci (points ''command not found''), word_boundary u]]"

definition scan_shell_errors :: "ucd \<Rightarrow> string \<Rightarrow> string list" where
  "scan_shell_errors u transcript =
     filter (\<lambda>line. strip line \<noteq> [] \<and> re_search (RE_SHELL_ERROR u) (utf8_points (strip line)) \<noteq> None \<and>
                     \<not> contains line ''Identity unavailable.'')
       (splitlines (strip_vt100 transcript))"

section \<open>Line ends\<close>

lemma eol_width_0: "eol_width s = 0 \<Longrightarrow> q \<in> set eol_seqs \<Longrightarrow> map of_char (take (length q) s) \<noteq> q"
proof -
  assume w: "eol_width s = 0" and q: "q \<in> set eol_seqs"
  let ?f = "find (\<lambda>q. map of_char (take (length q) s) = q) eol_seqs"
  have "[] \<notin> set eol_seqs" by (simp add: eol_seqs_def)
  moreover have "p \<in> set eol_seqs" if "?f = Some p" for p
    using that by (auto simp: find_Some_iff)
  ultimately have "?f = None" using w by (cases ?f) (auto simp: eol_width_def match_width_def)
  with q show ?thesis by (auto simp: find_None_iff)
qed

lemma eol_width_pos:
  assumes "eol_width s \<noteq> 0"
  shows "map of_char (take (eol_width s) s) \<in> set eol_seqs"
  using match_width_pos [of eol_seqs s] assms by (auto simp: eol_width_def)

text \<open>No line boundary starts inside the text of the first line; its boundary is a known one, or the text ends.\<close>

lemma split_line_inside: "split_line s = (l, e, r) \<Longrightarrow> i < length l \<Longrightarrow> eol_width (drop i s) = 0"
proof (induction s arbitrary: l e r i)
  case (Cons c s)
  then show ?case by (cases i) (auto simp: Let_def split: if_splits prod.splits)
qed simp

lemma split_line_end:
  "split_line s = (l, e, r) \<Longrightarrow> (e = [] \<and> r = []) \<or> map of_char e \<in> set eol_seqs"
proof (induction s arbitrary: l e r)
  case (Cons c s)
  then show ?case using eol_width_pos [of "c # s"] by (auto simp: Let_def split: if_splits prod.splits)
qed simp

lemma endswith_split:
  assumes "split_line s = (l, e, r)" and "endswith l (map char_of q)" and "q \<in> set eol_seqs"
  shows False
proof -
  from assms(2) obtain a where a: "l = a @ map char_of q" by (auto simp: endswith_iff)
  from assms(3) have q: "q \<noteq> []" "\<forall>n \<in> set q. n < 256" by (auto simp: eol_seqs_def)
  have "eol_width (drop (length a) s) = 0" using split_line_inside [OF assms(1), of "length a"] a q(1) by simp
  then have "map of_char (take (length q) (drop (length a) s)) \<noteq> q" using assms(3) by (rule eol_width_0)
  moreover have "take (length q) (drop (length a) s) = map char_of q"
    using split_line_concat [OF assms(1)] a by simp
  moreover have "map of_char (map char_of q :: char list) = q" using q(2) by (induction q) (auto simp: of_char_of)
  ultimately show False by simp
qed

text \<open>Cutting a segment at its terminator gives back the line and the boundary that \<open>splitlines\<close> found.\<close>

lemma LINE_ENDINGS_eol: "set eol_seqs = insert [13, 10] (set LINE_ENDINGS)"
  by (auto simp: eol_seqs_def LINE_ENDINGS_def)

lemma ending_unique:
  assumes "p \<in> set LINE_ENDINGS" and "q \<in> set LINE_ENDINGS" and "endswith (a @ map char_of p) (map char_of q :: string)"
  shows "p = q"
proof -
  have "last (map char_of p :: string) = last (map char_of q)"
    using assms by (auto simp: endswith_iff LINE_ENDINGS_def dest: arg_cong [where f = last])
  then show ?thesis using assms(1,2) by (auto simp: LINE_ENDINGS_def)
qed

lemma crlf_chars: "char_of (13 :: nat) = CHR 0x0D" "char_of (10 :: nat) = CHR 0x0A"
  by code_simp+

lemma segment_line_split:
  assumes "split_line s = (l, e, r)"
  shows "segment_line (l @ e) = (l, e \<noteq> [])"
proof -
  note inside = endswith_split [OF assms]
  have e_of: "e = map char_of (map of_char e :: nat list)" by (simp add: comp_def)
  consider "e = []" | "map of_char e = [13, 10 :: nat]" | q where "map of_char e = q" "q \<in> set LINE_ENDINGS"
    using split_line_end [OF assms] by (auto simp: LINE_ENDINGS_eol)
  then show ?thesis
  proof cases
    case 1
    have no: "\<not> endswith l (map char_of q)" if "q \<in> set eol_seqs" for q using inside that by blast
    have "find (\<lambda>q. endswith l (map char_of q)) LINE_ENDINGS = None"
      using no by (auto simp: find_None_iff LINE_ENDINGS_eol)
    with no [of "[13, 10]"] show ?thesis using 1 by (simp add: segment_line_def LINE_ENDINGS_eol crlf_chars)
  next
    case 2
    then have "e = [CHR 0x0D, CHR 0x0A]" using e_of by (simp add: crlf_chars)
    then show ?thesis by (simp add: segment_line_def endswith_def)
  next
    case (3 q)
    have e: "e = map char_of q" using e_of 3(1) by simp
    have "\<not> endswith (l @ e) [CHR 0x0D, CHR 0x0A]"
    proof
      assume *: "endswith (l @ e) [CHR 0x0D, CHR 0x0A]"
      then obtain a where a: "l @ e = (a @ [CHR 0x0D]) @ [CHR 0x0A]" by (auto simp: endswith_iff)
      then have "endswith (l @ map char_of q) (map char_of [10 :: nat])" unfolding e endswith_iff by (auto simp: crlf_chars)
      then have "q = [10]" using ending_unique [OF 3(2), of "[10]" l] by (simp add: LINE_ENDINGS_def)
      then have "e = [CHR 0x0A]" using e by (simp add: crlf_chars)
      with * obtain a where "l = a @ [CHR 0x0D]" by (auto simp: endswith_iff)
      then show False using inside [of "[13]"] by (simp add: endswith_iff LINE_ENDINGS_def LINE_ENDINGS_eol crlf_chars)
    qed
    moreover have "find (\<lambda>q. endswith (l @ e) (map char_of q)) LINE_ENDINGS = Some q"
    proof (cases "find (\<lambda>q. endswith (l @ e) (map char_of q)) LINE_ENDINGS")
      case None
      then show ?thesis using 3(2) e by (auto simp: find_None_iff endswith_iff)
    next
      case (Some p)
      then have "p \<in> set LINE_ENDINGS" "endswith (l @ e) (map char_of p)" by (auto simp: find_Some_iff)
      then show ?thesis using Some ending_unique [OF 3(2), of p l] e by simp
    qed
    moreover have "e \<noteq> []" using e 3(2) by (auto simp: LINE_ENDINGS_def)
    ultimately show ?thesis using e by (simp add: segment_line_def)
  qed
qed

text \<open>\<open>tiles raw n ls\<close>: the lines \<open>ls\<close> cover the bytes of \<open>raw\<close> from offset \<open>n\<close> to its end, without gap or overlap; the
  bytes of a line are its text and its terminator, it counts as complete exactly when it has one, and only the last line
  may lack it.\<close>

fun tiles :: "string \<Rightarrow> nat \<Rightarrow> raw_line list \<Rightarrow> bool" where
  "tiles raw n [] \<longleftrightarrow> n = length raw"
| "tiles raw n ((from_offset, to_offset, line, done) # ls) \<longleftrightarrow>
     from_offset = n \<and> n < to_offset \<and> to_offset \<le> length raw \<and>
     (\<exists>e. take (to_offset - n) (drop n raw) = line @ e \<and> (done \<longleftrightarrow> e \<noteq> []) \<and>
        (done \<longrightarrow> map of_char e \<in> set eol_seqs)) \<and>
     (\<not> done \<longrightarrow> ls = []) \<and> tiles raw to_offset ls"

lemma raw_segments_tile:
  "tiles (pre @ s) (length pre) (raw_segments (length pre) (map (\<lambda>(l, e). l @ e) (line_pairs s))) \<and>
   map (\<lambda>(_, _, line, _). line) (raw_segments (length pre) (map (\<lambda>(l, e). l @ e) (line_pairs s))) = splitlines s"
proof (induction s arbitrary: pre rule: line_pairs.induct)
  case (1 s)
  show ?case
  proof (cases "s = []")
    case False
    obtain l e r where sl: "split_line s = (l, e, r)" by (cases "split_line s")
    have pairs: "line_pairs s = (l, e) # line_pairs r" using False sl by (subst line_pairs.simps) simp
    have s: "s = l @ e @ r" using split_line_concat [OF sl] .
    have "l @ e \<noteq> []" using split_line_shorter [OF False sl] s by auto
    moreover have "e = [] \<Longrightarrow> r = []" "e \<noteq> [] \<Longrightarrow> map of_char e \<in> set eol_seqs"
      using split_line_end [OF sl] by (auto simp: eol_seqs_def)
    moreover note "1.IH" [OF False sl [symmetric] refl, of "pre @ l @ e"]
    ultimately show ?thesis unfolding s
      by (auto simp: pairs [unfolded s] segment_line_split [OF sl] splitlines_def line_pairs.simps [of "[]"] Let_def)
  qed (simp add: line_pairs.simps splitlines_def)
qed

section \<open>Exempted lines\<close>

lemma exact_fullmatch: "re_fullmatch (exact p) w \<noteq> None \<longleftrightarrow> w = p"
  by (auto simp: re_fullmatch_None exact_def bol_def eol_def matches_lit start_def)

lemma matches_group_lit:
  "matches (Grp n (alts (lit a) [lit b])) s t \<Longrightarrow>
     \<exists>w r. ahead s = w @ r \<and> (w = a \<or> w = b) \<and> t = (read w s)\<lparr>groups := (n, w) # groups s\<rparr>"
  by (auto simp: matches_lit close_group_def)

lemma matches_group_rep:
  "matches (Grp n (Rep (Ch p))) s t \<Longrightarrow> \<exists>w r. ahead s = w @ r \<and> t = (read w s)\<lparr>groups := (n, w) # groups s\<rparr>"
proof -
  assume "matches (Grp n (Rep (Ch p))) s t"
  then obtain t' where t: "matches (Rep (Ch p)) s t'" "t = close_group n s t'" by auto
  from matches_rep_class [OF t(1) refl] t(2) show ?thesis by (auto simp: close_group_def)
qed

lemma envelope_groups:
  assumes "re_fullmatch RE_HANG_RECOVERY_WARNING_ENVELOPE t = Some m"
  obtains pre w k p where "t = pre @ w @ [58] @ replicate (Suc k) 32 @ p" "group_of m 1 = Some w" "group_of m 2 = Some p"
proof -
  let ?blanks = "plus (Ch (\<lambda>c. c = 32))"
  from assms have m: "matches RE_HANG_RECOVERY_WARNING_ENVELOPE (start t) m" "ahead m = []"
    by (auto dest: re_fullmatch_Some)
  from m(1) [unfolded RE_HANG_RECOVERY_WARNING_ENVELOPE_def matches_seqs_append] obtain s1 s2 s3 s4 where
    s: "matches (seqs ENVELOPE_PREFIX) (start t) s1"
      "matches (Grp 1 (alts (lit (points ''audio_offload'')) [lit (points ''flpr_ring'')])) s1 s2"
      "matches (lit (points '':'')) s2 s3" "matches ?blanks s3 s4" "matches (Grp 2 (Rep dot)) s4 m"
    by (auto simp: eol_def simp del: matches_simps(4,5) alts.simps)
  obtain pre where pre: "t = pre @ ahead s1" using matches_forward [OF s(1)] by (auto simp: start_def)
  obtain w r where w: "ahead s1 = w @ r" "s2 = (read w s1)\<lparr>groups := (1, w) # groups s1\<rparr>"
    using matches_group_lit [OF s(2)] by blast
  obtain r' where r: "r = 58 # r'" "s3 = read [58] s2" using s(3) [unfolded matches_lit] w by (auto simp: points_def)
  obtain b v where b: "r' = b @ v" "b \<noteq> []" "list_all (\<lambda>c. c = 32) b" "s4 = read b s3"
    using matches_plus_class [OF s(4)] r w by auto
  obtain p q where p: "v = p @ q" "m = (read p s4)\<lparr>groups := (2, p) # groups s4\<rparr>"
    using matches_group_rep [OF s(5) [unfolded dot_def]] b r w by auto
  have "q = []" using m(2) p b r w by simp
  moreover have "b = replicate (Suc (length b - 1)) 32"
    using b(2) replicate_eqI [of b "length b" 32] b(3) by (simp add: list_all_iff del: replicate_Suc)
  ultimately show ?thesis
    using that [of pre w "length b - 1" p] pre w r b p by (simp add: group_of_def del: replicate_Suc)
qed

text \<open>The text of a documented diagnostic, after the removal of control sequences and outer white space, ends in one of
  the four module and payload pairs.\<close>

definition documented_text :: "string \<Rightarrow> bool" where
  "documented_text line \<longleftrightarrow>
     (\<exists>pre m p k. (m, p) \<in> set HANG_RECOVERY_WARNING_PAYLOADS \<and>
        utf8_points (strip (strip_vt100 line)) = pre @ points m @ [58] @ replicate (Suc k) 32 @ p)"

lemma documented_warning_text:
  assumes "is_documented_hang_recovery_warning line"
  shows "documented_text line"
proof -
  let ?t = "utf8_points (strip (strip_vt100 line))"
  obtain env m p where env: "re_fullmatch RE_HANG_RECOVERY_WARNING_ENVELOPE ?t = Some env"
    and mp: "(m, p) \<in> set HANG_RECOVERY_WARNING_PAYLOADS" "group_of env 1 = Some (points m)"
      "re_fullmatch (exact p) (case group_of env 2 of None \<Rightarrow> [] | Some ps \<Rightarrow> ps) \<noteq> None"
    using assms
    by (fastforce simp: is_documented_hang_recovery_warning_def list_ex_iff simp del: not_None_eq split: option.splits)
  obtain pre w k q where "?t = pre @ w @ [58] @ replicate (Suc k) 32 @ q" "group_of env 1 = Some w"
    "group_of env 2 = Some q"
    using envelope_groups [OF env] by blast
  with mp show ?thesis unfolding documented_text_def exact_fullmatch by auto
qed

lemma raw_window_Some:
  assumes "raw_window recovery n = Some (lo, hi)"
  shows "\<exists>r w. recovery = PDict r \<and> dict_get r ''raw_window'' = PDict w \<and> dict_get w ''start_offset'' = PInt lo \<and>
    dict_get w ''end_offset'' = PInt hi \<and> 0 \<le> lo \<and> lo \<le> hi \<and> hi \<le> int n"
proof -
  obtain r w where rw: "recovery = PDict r" "dict_get r ''raw_window'' = PDict w"
    using assms by (auto simp: raw_window_def split: pyval.splits)
  with assms show ?thesis
    by (cases "dict_get w ''start_offset''"; cases "dict_get w ''end_offset''")
      (auto simp: raw_window_def Let_def split: if_splits)
qed

lemma scan_single: "scan_warnings u [line] \<noteq> [] \<longleftrightarrow> has_warning u line"
  by (simp add: scan_warnings_def)

section \<open>Example lines\<close>

definition ex_hang_line :: string where
  "ex_hang_line = ''<wrn> flpr_ring: RING_RESET_ACK timeout (100 ms)''"

definition ex_hang_recovery :: pyval where
  "ex_hang_recovery = PDict [(''raw_window'', PDict [(''start_offset'', PInt 0), (''end_offset'', PInt 49)])]"

lemma ex_hang_lines: "iter_raw_utf8_lines (ex_hang_line @ [CHR 0x0A]) = Inr [(0, 49, ex_hang_line, True)]"
  by code_simp

lemma ex_hang_warning: "has_warning ascii_ucd ex_hang_line"
  by code_simp

lemma ex_hang_documented: "is_documented_hang_recovery_warning ex_hang_line"
  by code_simp

lemma ex_hang_window: "raw_window ex_hang_recovery 49 = Some (0, 49)"
  by (simp add: raw_window_def ex_hang_recovery_def dict_keys_def dict_get_def)

lemma ex_hang_length: "length ex_hang_line = 48"
  by (simp add: ex_hang_line_def)

lemma ex_hang_scan:
  "scan_raw_warnings ascii_ucd (ex_hang_line @ [CHR 0x0A]) (PStr ''hang'') ex_hang_recovery = Inr []"
  by (simp add: scan_raw_warnings_def ex_hang_lines ex_hang_window ex_hang_length scan_single ex_hang_warning exempted_def
      ex_hang_documented)

section \<open>Properties\<close>

text \<open>The raw line iterator cuts the retained bytes into consecutive half-open ranges from the first to the last byte:
  each range is the text of a line and its terminator, a line counts as complete exactly when its terminator is there, only
  the last one can lack it, and the texts are those of \<open>str.splitlines\<close>.\<close>

theorem raw_lines_tile:
  assumes "iter_raw_utf8_lines raw = Inr ls"
  shows "tiles raw 0 ls \<and> map (\<lambda>(_, _, line, _). line) ls = splitlines raw"
  using assms raw_segments_tile [of "[]" raw] by (auto simp: iter_raw_utf8_lines_def split: if_splits)

theorem raw_lines_tile_witness:
  "tiles (ex_hang_line @ [CHR 0x0A]) 0 [(0, 49, ex_hang_line, True)] \<and>
   map (\<lambda>(_, _, line, _). line) [(0 :: nat, 49 :: nat, ex_hang_line, True)] = splitlines (ex_hang_line @ [CHR 0x0A])"
  using ex_hang_lines by (rule raw_lines_tile)

text \<open>C6: The warning scan of the raw log hides a line with a warning signature in one case only: the row is the hang row, its
  recovery evidence carries a valid byte window inside the log, the complete line with its terminator lies inside that
  window, and its text ends in one of the four documented module and payload pairs.  A fault row without a valid window
  gives no result at all.\<close>

theorem scan_raw_exempts:
  assumes "scan_raw_warnings u raw fault recovery = Inr hits" and "iter_raw_utf8_lines raw = Inr ls"
    and "(a, b, line, done) \<in> set ls" and "has_warning u line"
  shows "(fault = PNone \<or> raw_window recovery (length raw) \<noteq> None) \<and>
    (line \<in> set hits \<or>
     fault = PStr ''hang'' \<and> done \<and> documented_text line \<and>
       (\<exists>r w lo hi. recovery = PDict r \<and> dict_get r ''raw_window'' = PDict w \<and>
          dict_get w ''start_offset'' = PInt lo \<and> dict_get w ''end_offset'' = PInt hi \<and>
          0 \<le> lo \<and> lo \<le> int a \<and> int b \<le> hi \<and> hi \<le> int (length raw)))"
proof (cases "fault = PNone")
  case True
  have "\<not> exempted PNone None (a, b, line, done)" by (simp add: exempted_def)
  then show ?thesis
    using assms True by (force simp: scan_raw_warnings_def scan_single)
next
  case False
  with assms(1,2) obtain lo hi where win: "raw_window recovery (length raw) = Some (lo, hi)"
    and hits: "hits = map (\<lambda>(_, _, line, _). line)
      (filter (\<lambda>l. case l of (_, _, line, _) \<Rightarrow> has_warning u line \<and> \<not> exempted fault (Some (lo, hi)) l) ls)"
    by (auto simp: scan_raw_warnings_def scan_single Let_def split: if_splits)
  show ?thesis
  proof (cases "exempted fault (Some (lo, hi)) (a, b, line, done)")
    case True
    then have ex: "fault = PStr ''hang''" "lo \<le> int a" "int b \<le> hi" "done" "documented_text line"
      by (auto simp: exempted_def dest: documented_warning_text)
    from raw_window_Some [OF win] ex win show ?thesis by blast
  next
    case False
    with assms(3,4) win show ?thesis by (force simp: hits)
  qed
qed

theorem scan_raw_exempts_witness:
  "documented_text ex_hang_line \<and>
   (\<exists>r w lo hi. ex_hang_recovery = PDict r \<and> dict_get r ''raw_window'' = PDict w \<and>
      dict_get w ''start_offset'' = PInt lo \<and> dict_get w ''end_offset'' = PInt hi \<and>
      0 \<le> lo \<and> lo \<le> 0 \<and> 49 \<le> hi \<and> hi \<le> int (length (ex_hang_line @ [CHR 0x0A])))"
  using scan_raw_exempts [OF ex_hang_scan ex_hang_lines list.set_intros(1) ex_hang_warning] by simp

end
