(* ===== verification/Hil_IsoText.thy ===== *)
theory Hil_IsoText
  imports Hil_Console Hil_Receiver
begin

text \<open>
  The text of the \<open>bt iso quality\<close> command and its way through the receiver module: the block that the receiver prints,
  read by \<open>parse_iso_link_quality\<close> and judged by \<open>validate_iso_link_quality\<close>.
\<close>

section \<open>The printed block\<close>

record iso_report =
  ir_slot :: nat
  ir_handle :: nat
  ir_values :: "nat list"

definition hex_digit_text :: "nat \<Rightarrow> char" where
  "hex_digit_text k = char_of (if k < 10 then 48 + k else 55 + k)"

definition hex4_text :: "nat \<Rightarrow> string" where
  "hex4_text h = map hex_digit_text [h div 4096 mod 16, h div 256 mod 16, h div 16 mod 16, h mod 16]"

definition iso_line_text :: "iso_report \<Rightarrow> string" where
  "iso_line_text r =
     ''  Stream['' @ dec_of_nat (ir_slot r) @ ''] handle=0x'' @ hex4_text (ir_handle r) @
     concat (map2 (\<lambda>l v. '' '' @ l @ ''='' @ dec_of_nat v) ISO_LABELS (ir_values r))"

definition iso_block :: "iso_report list \<Rightarrow> string" where
  "iso_block rs = concat (map (\<lambda>l. l @ [CHR 0x0A]) (''--- ISO link quality ---'' # map iso_line_text rs))"

definition iso_report_wf :: "iso_report \<Rightarrow> bool" where
  "iso_report_wf r \<longleftrightarrow>
     ir_handle r < 65536 \<and> ir_slot r < 2 ^ 32 \<and> length (ir_values r) = length ISO_LABELS \<and> (\<forall>v \<in> set (ir_values r). v < 2 ^ 32)"

definition iso_report_dict :: "iso_report \<Rightarrow> pydict" where
  "iso_report_dict r =
     (''slot'', PInt (int (ir_slot r))) # (''handle'', PInt (int (ir_handle r))) #
     zip ISO_LABELS (map (\<lambda>v. PInt (int v)) (ir_values r))"

section \<open>Printable lines\<close>

definition plain_char :: "char \<Rightarrow> bool" where
  "plain_char c \<longleftrightarrow> of_char c \<in> {32 .. 126 :: nat}"

lemma eol_width_plain:
  assumes "plain_char c"
  shows "eol_width (c # s) = 0"
proof (rule ccontr)
  assume w: "eol_width (c # s) \<noteq> 0"
  then have "map of_char (take (eol_width (c # s)) (c # s)) \<in> set eol_seqs" by (rule eol_width_pos)
  moreover have "hd (map of_char (take (eol_width (c # s)) (c # s))) = (of_char c :: nat)" using w by (cases "eol_width (c # s)") auto
  ultimately have "of_char c \<in> hd ` set eol_seqs" by (metis imageI)
  then show False using assms by (auto simp: eol_seqs_def plain_char_def)
qed

lemma split_line_plain: "list_all plain_char l \<Longrightarrow> split_line (l @ CHR 0x0A # r) = (l, [CHR 0x0A], r)"
proof (induction l)
  case Nil
  have "eol_width (CHR 0x0A # r) = 1" by (simp add: eol_width_def match_width_def eol_seqs_def)
  then show ?case by simp
qed (simp add: eol_width_plain)

lemma splitlines_plain:
  "list_all (list_all plain_char) ls \<Longrightarrow> splitlines (concat (map (\<lambda>l. l @ [CHR 0x0A]) ls)) = ls"
proof (induction ls)
  case (Cons l ls)
  then show ?case
    by (simp add: splitlines_def line_pairs.simps [of "l @ _"] split_line_plain)
qed (simp add: splitlines_def line_pairs.simps)

lemma strip_vt100_plain: "CHR 0x1B \<notin> set s \<Longrightarrow> strip_vt100 s = s"
  by (induction s) (auto simp: strip_vt100.simps csi_rest_def)

lemma plain_points_of: "list_all plain_char l \<Longrightarrow> utf8_points l = points l"
  unfolding points_def
  by (intro utf8_points_ascii) (fastforce simp: plain_char_def is_ascii_def list_all_iff)

section \<open>Numbers and their patterns\<close>

lemma points_append [simp]: "points (a @ b) = points a @ points b"
  by (simp add: points_def)

lemma digits_points: "list_all ascii_digit (points (dec_of_nat n))"
  using dec_of_nat_digits [of n]
  by (auto simp: list_all_iff points_def range_class_def is_digit_def byte_in_def)

lemma points_dec_not_Nil: "points (dec_of_nat n) \<noteq> []"
  by (simp add: points_def)

lemma int_of_points_dec:
  assumes "n < 2 ^ 32"
  shows "int_of_points ascii_ucd (points (dec_of_nat n)) = Inr (int n)"
proof -
  have "foldl (\<lambda>k c. k * 10 + (case decimal_value ascii_ucd c of None \<Rightarrow> 0 | Some d \<Rightarrow> d)) a (points s) =
      foldl (\<lambda>k c. k * 10 + digit_value c) a s" if "\<forall>c \<in> set s. is_digit c" for a s
    using that
    by (induction s arbitrary: a)
      (auto simp: points_def ascii_ucd_def range_class_def is_digit_def byte_in_def digit_value_def)
  then have "foldl (\<lambda>k c. k * 10 + (case decimal_value ascii_ucd c of None \<Rightarrow> 0 | Some d \<Rightarrow> d)) 0 (points (dec_of_nat n)) =
      nat_of_dec (dec_of_nat n)"
    unfolding nat_of_dec_def using dec_of_nat_digits by blast
  moreover have "length (dec_of_nat n) \<le> 10" using dec_of_nat_length [of n 9] assms by simp
  ultimately show ?thesis by (simp add: int_of_points_def points_def)
qed

definition hex_class :: "nat \<Rightarrow> bool" where
  "hex_class = range_class [(48, 57), (65, 70)]"

lemma hex_digit_point:
  assumes "k < 16"
  shows "hex_class (of_char (hex_digit_text k))" and "hex_point (of_char (hex_digit_text k)) = k"
    and "plain_char (hex_digit_text k)"
  using assms by (auto simp: hex_class_def range_class_def hex_point_def hex_digit_text_def plain_char_def)

lemma hex4_value:
  assumes "h < 65536"
  shows "foldl (\<lambda>k c. k * 16 + hex_point c) 0 (points (hex4_text h)) = h"
proof -
  have "h div 4096 mod 16 = h div 4096" using assms by simp
  moreover have "foldl (\<lambda>k c. k * 16 + hex_point c) 0 (points (hex4_text h)) =
      h div 4096 mod 16 * 4096 + h div 256 mod 16 * 256 + h div 16 mod 16 * 16 + h mod 16"
    by (simp add: hex4_text_def points_def hex_digit_point)
  ultimately show ?thesis using hex_digits_sum [of h] by simp
qed

lemma hex4_points: "list_all hex_class (points (hex4_text h))" "length (points (hex4_text h)) = 4"
  by (simp_all add: hex4_text_def points_def hex_digit_point)

lemma run_times_class:
  "ahead s = w @ v \<Longrightarrow> list_all p w \<Longrightarrow> run (times (length w) (Ch p)) s = [read w s]"
proof (induction w arbitrary: s)
  case (Cons c w)
  then have "step_char p s = [read [c] s]" by (simp add: step_char_def advance_read)
  with Cons show ?case by simp
qed simp

section \<open>The stream line pattern on a printed line\<close>

definition take_group :: "nat \<Rightarrow> nat list \<Rightarrow> mstate \<Rightarrow> mstate" where
  "take_group n w s = (read w s)\<lparr>groups := (n, w) # groups s\<rparr>"

lemma take_group_fields [simp]:
  "ahead (take_group n w s) = drop (length w) (ahead s)" "groups (take_group n w s) = (n, w) # groups s"
  by (simp_all add: take_group_def)

lemma run_seqs_lit:
  "ahead s = w @ v \<Longrightarrow> run (seqs (lit w # rs)) s = run (seqs rs) (read w s)"
  by (simp add: run_lit del: lit.simps)

lemma run_seqs_digits:
  assumes "ahead s = w @ v" and "w \<noteq> []" and "list_all ascii_digit w" and "v = [] \<or> \<not> ascii_digit (hd v)"
    and "stuck_on ascii_digit (seqs rs)"
  shows "run (seqs (digits n # rs)) s = run (seqs rs) (take_group n w s)"
  using run_group_class [OF assms, of n] by (simp add: digits_def take_group_def del: run.simps(6))

lemma run_seqs_times:
  assumes "ahead s = w @ v" and "list_all p w" and "length w = k"
  shows "run (seqs (Grp n (times k (Ch p)) # rs)) s = run (seqs rs) (take_group n w s)"
proof -
  have "run (times k (Ch p)) s = [read w s]" using run_times_class [OF assms(1,2)] assms(3) by simp
  moreover have "close_group n s (read w s) = take_group n w s"
    using assms(1) by (simp add: close_group_def take_group_def)
  ultimately show ?thesis by simp
qed

definition labelled_points :: "string list \<Rightarrow> nat list list \<Rightarrow> nat list" where
  "labelled_points ls ws = concat (map2 (\<lambda>l w. points ('' '' @ l @ ''='') @ w) ls ws)"

lemma labelled_points_hd: "labelled_points ls ws = [] \<or> \<not> ascii_digit (hd (labelled_points ls ws))"
  by (cases ls; cases ws) (auto simp: labelled_points_def points_def range_class_def)

lemma stuck_labelled: "stuck_on ascii_digit (seqs (labelled n ls @ [eol]))"
proof (cases ls)
  case Nil
  then show ?thesis using stuck_eol [of ascii_digit "[]"] by (simp add: range_class_def)
next
  case (Cons l more)
  have "points ('' '' @ l @ ''='') = 32 # points (l @ ''='')" by (simp add: points_def)
  then show ?thesis
    using stuck_lit [of ascii_digit 32 "points (l @ ''='')" "digits n # labelled (Suc n) more @ [eol]"] Cons
    by (simp add: range_class_def)
qed

lemma run_labelled:
  assumes "length ws = length ls" and "\<forall>w \<in> set ws. w \<noteq> [] \<and> list_all ascii_digit w" and "ahead s = labelled_points ls ws"
  shows "\<exists>m. run (seqs (labelled n ls @ [eol])) s = [m] \<and> ahead m = [] \<and>
    groups m = rev (zip [n ..< n + length ws] ws) @ groups s"
  using assms
proof (induction ls arbitrary: n s ws)
  case Nil
  then show ?case by (simp add: labelled_points_def eol_def)
next
  case (Cons l ls)
  then obtain w ws' where ws: "ws = w # ws'" by (cases ws) auto
  have s: "ahead s = points ('' '' @ l @ ''='') @ w @ labelled_points ls ws'"
    using Cons.prems(3) by (simp add: ws labelled_points_def)
  let ?s1 = "read (points ('' '' @ l @ ''='')) s"
  have "run (seqs (labelled n (l # ls) @ [eol])) s = run (seqs (digits n # labelled (Suc n) ls @ [eol])) ?s1"
    using run_seqs_lit [OF s] by (simp only: labelled.simps append_Cons)
  also have "\<dots> = run (seqs (labelled (Suc n) ls @ [eol])) (take_group n w ?s1)"
    using s Cons.prems(2) ws labelled_points_hd stuck_labelled
    by (intro run_seqs_digits [where v = "labelled_points ls ws'"]) (auto simp del: points_append)
  finally have run: "run (seqs (labelled n (l # ls) @ [eol])) s = run (seqs (labelled (Suc n) ls @ [eol])) (take_group n w ?s1)" .
  have "ahead (take_group n w ?s1) = labelled_points ls ws'" by (simp only: take_group_fields read_fields s) simp
  then obtain m where m: "run (seqs (labelled (Suc n) ls @ [eol])) (take_group n w ?s1) = [m]" "ahead m = []"
    "groups m = rev (zip [Suc n ..< Suc n + length ws'] ws') @ groups (take_group n w ?s1)"
    using Cons.IH [of ws' "take_group n w ?s1" "Suc n"] Cons.prems ws by auto
  have "[n ..< n + length ws] = n # [Suc n ..< Suc n + length ws']" using upt_conv_Cons [of n "n + length ws"] ws by (simp del: upt_Suc)
  then have "groups m = rev (zip [n ..< n + length ws] ws) @ groups s" using m(3) ws by simp
  with run m(1,2) show ?case by metis
qed

lemma iso_line_points:
  assumes "length (ir_values r) = length ISO_LABELS"
  shows "points (iso_line_text r) =
    points ''  Stream['' @ points (dec_of_nat (ir_slot r)) @ points ''] handle=0x'' @ points (hex4_text (ir_handle r)) @
    labelled_points ISO_LABELS (map (\<lambda>v. points (dec_of_nat v)) (ir_values r))"
proof -
  have eq: "points (concat (map2 (\<lambda>l v. '' '' @ l @ ''='' @ dec_of_nat v) ls vs)) =
      labelled_points ls (map (\<lambda>v. points (dec_of_nat v)) vs)" for ls :: "string list" and vs
  proof (induction ls vs rule: list_induct2')
    case (4 l ls v vs)
    then show ?case by (simp add: labelled_points_def points_def)
  qed (simp_all add: labelled_points_def points_def)
  show ?thesis by (simp only: iso_line_text_def points_append eq)
qed

lemma run_iso_line:
  assumes "length (ir_values r) = length ISO_LABELS"
  shows "\<exists>m. run RE_ISO_LINK_QUALITY_STREAM (start (points (iso_line_text r))) = [m] \<and> ahead m = [] \<and>
    groups m = rev (zip [3 ..< 18] (map (\<lambda>v. points (dec_of_nat v)) (ir_values r))) @
      [(2, points (hex4_text (ir_handle r))), (1, points (dec_of_nat (ir_slot r)))]"
proof -
  let ?ws = "map (\<lambda>v. points (dec_of_nat v)) (ir_values r)" and ?slot = "points (dec_of_nat (ir_slot r))"
  let ?hex = "points (hex4_text (ir_handle r))" and ?labels = "labelled 3 ISO_LABELS @ [eol]"
  let ?g = "Grp 2 (times 4 (Ch (range_class [(48, 57), (65, 70)])))"
  let ?s0 = "start (points (iso_line_text r))"
  let ?s1 = "read (points ''  Stream['') ?s0" let ?s2 = "take_group 1 ?slot ?s1"
  let ?s3 = "read (points ''] handle=0x'') ?s2" let ?s4 = "take_group 2 ?hex ?s3"
  note line = iso_line_points [OF assms]
  have a0: "ahead ?s0 = points ''  Stream['' @ ?slot @ points ''] handle=0x'' @ ?hex @ labelled_points ISO_LABELS ?ws"
    using line by (simp add: start_def del: points_append)
  have a1: "ahead ?s1 = ?slot @ points ''] handle=0x'' @ ?hex @ labelled_points ISO_LABELS ?ws"
    by (simp only: read_fields a0) simp
  have a2: "ahead ?s2 = points ''] handle=0x'' @ ?hex @ labelled_points ISO_LABELS ?ws"
    by (simp only: take_group_fields a1) simp
  have a3: "ahead ?s3 = ?hex @ labelled_points ISO_LABELS ?ws" by (simp only: read_fields a2) simp
  have a4: "ahead ?s4 = labelled_points ISO_LABELS ?ws" by (simp only: take_group_fields a3) simp
  have "run RE_ISO_LINK_QUALITY_STREAM ?s0 =
      run (seqs (lit (points ''  Stream['') # digits 1 # lit (points ''] handle=0x'') # ?g # ?labels)) ?s0"
    by (simp add: RE_ISO_LINK_QUALITY_STREAM_def bol_def start_def)
  also have "\<dots> = run (seqs (digits 1 # lit (points ''] handle=0x'') # ?g # ?labels)) ?s1"
    by (rule run_seqs_lit [OF a0])
  also have "\<dots> = run (seqs (lit (points ''] handle=0x'') # ?g # ?labels)) ?s2"
  proof (rule run_seqs_digits [OF a1 points_dec_not_Nil digits_points])
    show "points ''] handle=0x'' @ ?hex @ labelled_points ISO_LABELS ?ws = [] \<or>
      \<not> ascii_digit (hd (points ''] handle=0x'' @ ?hex @ labelled_points ISO_LABELS ?ws))"
      by (simp add: points_def range_class_def)
    have eq: "points ''] handle=0x'' = 93 # points '' handle=0x''" by (simp add: points_def)
    show "stuck_on ascii_digit (seqs (lit (points ''] handle=0x'') # ?g # ?labels))"
      unfolding eq by (rule stuck_lit) (simp add: range_class_def)
  qed
  also have "\<dots> = run (seqs (?g # ?labels)) ?s3" by (rule run_seqs_lit [OF a2])
  also have "\<dots> = run (seqs ?labels) ?s4"
    by (rule run_seqs_times [OF a3 hex4_points(1) [unfolded hex_class_def] hex4_points(2)])
  finally have run: "run RE_ISO_LINK_QUALITY_STREAM ?s0 = run (seqs ?labels) ?s4" .
  have "length ISO_LABELS = 15" by (simp add: ISO_LABELS_def)
  then have "\<exists>m. run (seqs ?labels) ?s4 = [m] \<and> ahead m = [] \<and> groups m = rev (zip [3 ..< 18] ?ws) @ groups ?s4"
    using run_labelled [of ?ws ISO_LABELS ?s4 3] assms a4 points_dec_not_Nil digits_points by auto
  then show ?thesis unfolding run by (simp add: start_def)
qed

lemma numbered_group:
  assumes "groups m = rev (zip [n ..< n + length ws] ws) @ gs" and "j < length ws"
  shows "group_of m (n + j) = Some (ws ! j)"
proof -
  let ?z = "zip [n ..< n + length ws] ws"
  have "distinct (map fst ?z)" by simp
  then have "map_of (rev ?z) = map_of ?z" by (subst map_of_inject_set) (simp_all add: rev_map [symmetric])
  moreover have "map_of ?z (n + j) = Some (ws ! j)"
    using map_of_zip_nth [of "[n ..< n + length ws]" ws j] assms(2) by simp
  ultimately show ?thesis using assms(1) by (simp add: group_of_def map_add_Some_iff)
qed

lemma small_group:
  assumes "groups m = rev (zip [n ..< n + length ws] ws) @ gs" and "i < n"
  shows "group_of m i = map_of gs i"
proof -
  have "map_of (rev (zip [n ..< n + length ws] ws)) i = None"
    using assms(2) by (auto simp: map_of_eq_None_iff dest!: set_zip_leftD)
  then show ?thesis using assms(1) by (simp add: group_of_def map_add_def)
qed

lemma iso_record_of_line:
  assumes "iso_report_wf r" and "groups m = rev (zip [3 ..< 18] (map (\<lambda>v. points (dec_of_nat v)) (ir_values r))) @
      [(2, points (hex4_text (ir_handle r))), (1, points (dec_of_nat (ir_slot r)))]"
  shows "iso_stream_record m = Inr (iso_report_dict r)"
proof -
  let ?ws = "map (\<lambda>v. points (dec_of_nat v)) (ir_values r)"
  have len: "length (ir_values r) = 15" "length ISO_LABELS = 15" using assms(1) by (simp_all add: iso_report_wf_def ISO_LABELS_def)
  have g: "groups m = rev (zip [3 ..< 3 + length ?ws] ?ws) @
      [(2, points (hex4_text (ir_handle r))), (1, points (dec_of_nat (ir_slot r)))]"
    using assms(2) len by simp
  have "int_group ascii_ucd m 1 = Inr (PInt (int (ir_slot r)))"
    using small_group [OF g, of 1] assms(1) by (simp add: int_group_def iso_report_wf_def int_of_points_dec)
  moreover have "hex_group m 2 = PInt (int (ir_handle r))"
    using small_group [OF g, of 2] assms(1) by (simp add: hex_group_def iso_report_wf_def hex4_value)
  moreover have "int_group ascii_ucd m (3 + j) = Inr (PInt (int (ir_values r ! j)))" if "j < 15" for j
    using numbered_group [OF g, of j] that len assms(1) by (simp add: int_group_def iso_report_wf_def int_of_points_dec)
  then have "int_fields ascii_ucd m 3 ISO_LABELS = Inr (zip ISO_LABELS (map (\<lambda>v. PInt (int v)) (ir_values r)))"
    using len by (simp add: int_fields_def rmap_eq_Inr list_all2_conv_all_nth nth_enumerate_eq)
  ultimately show ?thesis by (simp add: iso_stream_record_def iso_report_dict_def)
qed

section \<open>Reading the block\<close>

lemma plain_literals:
  "list_all plain_char ''--- ISO link quality ---''" "list_all plain_char ''  Stream[''" "list_all plain_char ''] handle=0x''"
  "list_all (list_all plain_char) ISO_LABELS"
  by (simp_all add: plain_char_def ISO_LABELS_def)

lemma plain_dec: "list_all plain_char (dec_of_nat n)"
  using dec_of_nat_digits [of n] by (fastforce simp: list_all_iff plain_char_def is_digit_def byte_in_def)

lemma plain_line: "list_all plain_char (iso_line_text r)"
proof -
  have "list_all plain_char (concat (map2 (\<lambda>l v. '' '' @ l @ ''='' @ dec_of_nat v) ls vs))"
    if "list_all (list_all plain_char) ls" for ls and vs :: "nat list"
    using that
  proof (induction ls vs rule: list_induct2')
    case (4 l ls v vs)
    then show ?case by (simp add: plain_dec) (simp add: plain_char_def)
  qed simp_all
  moreover have "list_all plain_char (hex4_text h)" for h by (simp add: hex4_text_def hex_digit_point)
  ultimately show ?thesis
    unfolding iso_line_text_def list_all_append using plain_literals plain_dec by blast
qed

lemma header_line:
  assumes "\<not> iso_header st"
  shows "iso_line st ''--- ISO link quality ---'' = Inr (st\<lparr>iso_header := True\<rparr>)"
proof -
  have "re_fullmatch RE_ISO_LINK_QUALITY_HEADER (points ''--- ISO link quality ---'') \<noteq> None"
    by (simp add: RE_ISO_LINK_QUALITY_HEADER_def re_fullmatch_def bol_def eol_def start_def run_lit del: lit.simps points_append)
  then show ?thesis using assms plain_points_of [OF plain_literals(1)] by (simp add: iso_line_def Let_def)
qed

lemma not_header: "re_fullmatch RE_ISO_LINK_QUALITY_HEADER (32 # v) = None"
  by (auto simp: RE_ISO_LINK_QUALITY_HEADER_def re_fullmatch_None bol_def matches_lit start_def points_def)

lemma rep_class_matches:
  "ahead s = w @ v \<Longrightarrow> list_all p w \<Longrightarrow> matches (Rep (Ch p)) s (read w s)"
proof (induction w arbitrary: s)
  case Nil
  then show ?case by (simp add: matches.rep_stop)
next
  case (Cons c w)
  have "matches (Rep (Ch p)) (read [c] s) (read w (read [c] s))"
    using Cons.prems by (intro Cons.IH) simp_all
  moreover have "matches (Ch p) s (read [c] s)" using Cons.prems by (simp add: advance_read)
  moreover have "consumes s (read [c] s)" using Cons.prems by (simp add: consumes_def)
  ultimately have "matches (Rep (Ch p)) s (read w (read [c] s))" by (metis matches.rep_step)
  then show ?case by (simp add: read_def)
qed

lemma stream_candidate: "re_match RE_ISO_LINK_QUALITY_STREAM_CANDIDATE (points ''  Stream['' @ v) \<noteq> None"
proof -
  let ?t = "points ''  Stream['' @ v" and ?p = "\<lambda>c. c = 32 \<or> c = (9 :: nat)"
  let ?s1 = "read [32, 32] (start ?t)"
  have t: "ahead (start ?t) = [32, 32] @ points ''Stream['' @ v" by (simp add: start_def points_def)
  have "matches (Rep (Ch ?p)) (start ?t) ?s1" by (rule rep_class_matches [OF t]) simp
  moreover have a: "ahead ?s1 = points ''Stream['' @ v" by (simp only: read_fields t) simp
  then have "matches (lit (points ''Stream['')) ?s1 (read (points ''Stream['') ?s1)" unfolding matches_lit by blast
  moreover have "matches bol (start ?t) (start ?t)" by (simp add: bol_def start_def)
  ultimately have "matches RE_ISO_LINK_QUALITY_STREAM_CANDIDATE (start ?t) (read (points ''Stream['') ?s1)"
    unfolding RE_ISO_LINK_QUALITY_STREAM_CANDIDATE_def seqs.simps using matches.seq matches.eps by blast
  then have "run RE_ISO_LINK_QUALITY_STREAM_CANDIDATE (start ?t) \<noteq> []" by (auto simp: run_Nil_iff)
  then show ?thesis by (auto simp: re_match_def split: list.splits)
qed

lemma report_line:
  assumes "iso_report_wf r" and "iso_header st"
  shows "iso_line st (iso_line_text r) = Inr (st\<lparr>iso_streams := iso_streams st @ [PDict (iso_report_dict r)]\<rparr>)"
proof -
  let ?t = "points (iso_line_text r)"
  have len: "length (ir_values r) = length ISO_LABELS" using assms(1) by (simp add: iso_report_wf_def)
  obtain v where v: "?t = points ''  Stream['' @ v" using iso_line_points [OF len] by blast
  obtain m where m: "run RE_ISO_LINK_QUALITY_STREAM (start ?t) = [m]" "ahead m = []"
    "groups m = rev (zip [3 ..< 18] (map (\<lambda>v. points (dec_of_nat v)) (ir_values r))) @
      [(2, points (hex4_text (ir_handle r))), (1, points (dec_of_nat (ir_slot r)))]"
    using run_iso_line [OF len] by blast
  have "re_fullmatch RE_ISO_LINK_QUALITY_HEADER ?t = None"
    unfolding v using not_header by (simp add: points_def)
  moreover have "re_fullmatch RE_ISO_LINK_QUALITY_STREAM ?t = Some m" using m by (simp add: re_fullmatch_def)
  moreover have "re_match RE_ISO_LINK_QUALITY_STREAM_CANDIDATE ?t \<noteq> None" unfolding v by (rule stream_candidate)
  ultimately show ?thesis
    using iso_record_of_line [OF assms(1) m(3)] assms(2) plain_points_of [OF plain_line]
    by (auto simp: iso_line_def Let_def)
qed

lemma report_lines:
  assumes "list_all iso_report_wf rs" and "iso_header st"
  shows "rfold iso_line st (map iso_line_text rs) =
    Inr (st\<lparr>iso_streams := iso_streams st @ map (\<lambda>r. PDict (iso_report_dict r)) rs\<rparr>)"
  using assms by (induction rs arbitrary: st) (simp_all add: report_line)

lemma iso_block_lines: "splitlines (strip_vt100 (iso_block rs)) = ''--- ISO link quality ---'' # map iso_line_text rs"
proof -
  let ?ls = "''--- ISO link quality ---'' # map iso_line_text rs"
  have plain: "list_all (list_all plain_char) ?ls" using plain_literals(1) plain_line by (simp add: list_all_iff)
  have esc: "CHR 0x1B \<notin> set l" if "list_all plain_char l" for l
    using that by (auto simp: list_all_iff plain_char_def)
  have "CHR 0x1B \<notin> set (concat (map (\<lambda>l. l @ [CHR 0x0A]) ls))" if "list_all (list_all plain_char) ls" for ls
    using that by (induction ls) (simp_all add: esc)
  then have "CHR 0x1B \<notin> set (iso_block rs)" unfolding iso_block_def using plain by blast
  then show ?thesis using splitlines_plain [OF plain] by (simp only: strip_vt100_plain not_False_eq_True iso_block_def)
qed

text \<open>C38: The block that \<open>bt iso quality\<close> prints, the header and one line per stream with the slot, the handle
  in four hexadecimal digits and the fifteen counters, is read back by \<open>parse_iso_link_quality\<close>: the header is seen, no
  line is malformed, and the streams are the printed records in order, for every slot and counter of 32 bits, every handle of
  16 bits and every number of streams.\<close>

theorem iso_block_round_trip:
  assumes "list_all iso_report_wf rs"
  shows "parse_iso_link_quality (iso_block rs) =
    Inr [(''header_seen'', PBool True), (''streams'', PList (map (\<lambda>r. PDict (iso_report_dict r)) rs)), (''malformed'', PBool False)]"
  unfolding parse_iso_link_quality_def iso_block_lines using assms
  by (simp add: header_line report_lines)

definition ex_iso_reports :: "iso_report list" where
  "ex_iso_reports =
     [\<lparr>ir_slot = 0, ir_handle = 0x2A, ir_values = [1200, 0, 3, 0, 1, 0, 0, 0, 0, 10000, 10000, 4294967295, 120, 2, 6]\<rparr>]"

theorem iso_block_round_trip_witness:
  "parse_iso_link_quality (iso_block ex_iso_reports) =
     Inr [(''header_seen'', PBool True), (''streams'', PList (map (\<lambda>r. PDict (iso_report_dict r)) ex_iso_reports)),
          (''malformed'', PBool False)]"
  by (rule iso_block_round_trip) (simp add: ex_iso_reports_def iso_report_wf_def ISO_LABELS_def)

end
