(* ===== verification/Flpr_Status.thy ===== *)
theory Flpr_Status
  imports Hil_Console
begin

text \<open>
  The console status parsers of \<open>scripts/flpr_status.py\<close>, shared by the receiver module and the stall and hang gates:
  the audio fault fields of \<open>audio status\<close> and \<open>audio perf\<close>, and the offload status block of \<open>flpr offload\<close>.  A line that
  is absent or does not parse leaves its fields at \<open>None\<close> or \<open>-1\<close>, which the validators read as missing evidence.
\<close>

section \<open>Audio faults\<close>

definition RE_AUDIO_STATUS_MARKER :: regex where
  "RE_AUDIO_STATUS_MARKER = seqs [line_start, lit (points ''--- Audio status ---'')]"

definition AUDIO_FIELD_LABELS :: "(string \<times> string) list" where
  "AUDIO_FIELD_LABELS =
     [(''Decode errors'', ''decode_errors''), (''I2S underruns'', ''i2s_underruns''), (''Stream resets'', ''stream_resets''),
      (''Push failures'', ''push_failures'')]"

definition RE_AUDIO_FAULT_FIELD :: "ucd \<Rightarrow> regex" where
  "RE_AUDIO_FAULT_FIELD u =
     seqs [line_start, spaces,
           Grp 1 (alts (lit (points ''Decode errors''))
             [lit (points ''I2S underruns''), lit (points ''Stream resets''), lit (points ''Push failures'')]),
           spaces, lit (points '':''), spaces, decimals u 2]"

definition AUDIO_FAULT_FIELDS :: "string list" where
  "AUDIO_FAULT_FIELDS = [''decode_errors'', ''i2s_underruns'', ''stream_resets'', ''push_failures'']"

definition audio_fault_match :: "ucd \<Rightarrow> pydict \<Rightarrow> mstate \<Rightarrow> pydict result" where
  "audio_fault_match u result m =
     (case map_of AUDIO_FIELD_LABELS (group_text m 1) of
        None \<Rightarrow> Inl (KeyError (PStr (group_text m 1)))
      | Some field \<Rightarrow> rbind (int_group u m 2) (\<lambda>v. Inr (dict_set result field v)))"

definition parse_audio_faults :: "ucd \<Rightarrow> string \<Rightarrow> pydict result" where
  "parse_audio_faults u transcript =
     (let t = utf8_points transcript;
          result = (''status_seen'', PBool (re_search RE_AUDIO_STATUS_MARKER t \<noteq> None)) #
                   map (\<lambda>field. (field, PNone)) AUDIO_FAULT_FIELDS
      in rfold (audio_fault_match u) result (re_finditer (RE_AUDIO_FAULT_FIELD u) t))"

section \<open>Offload status\<close>

definition STATUS_FIELDS :: "string list" where
  "STATUS_FIELDS =
     [''state'', ''epoch'', ''gen'', ''submit'', ''success'', ''fallback'', ''busy'', ''recovery_attempts'', ''recovery_fail'',
      ''relapses'', ''exhaustion'', ''probation_active'', ''probation_success'', ''probation_cleared'', ''fault_timeout'',
      ''fault_full'', ''fault_stale'', ''fault_seq'', ''fault_frame'', ''fault_crc'', ''fault_payload'', ''runtime_restarts'',
      ''runtime_fails'', ''runtime_last_ms'', ''remote_epoch'', ''hb_dedup'']"

definition empty_status :: pydict where
  "empty_status = dict_set (map (\<lambda>field. (field, PInt (- 1))) STATUS_FIELDS) ''state'' PNone"

definition RE_STATE_LINE :: "ucd \<Rightarrow> regex" where
  "RE_STATE_LINE u =
     seqs [lit (points ''State''), spaces, lit (points '':''), spaces, Grp 1 (plus (Ch (word_point u))), spaces,
           lit (points ''/''), spaces, lit (points ''epoch=''), decimals u 2, plus (Ch is_space), lit (points ''gen=''),
           decimals u 3]"

text \<open>The other lines have one shape: a title, a colon, and labelled numbers separated by blanks.\<close>

fun status_numbers :: "ucd \<Rightarrow> nat \<Rightarrow> string list \<Rightarrow> regex list" where
  "status_numbers u n [] = []"
| "status_numbers u n [l] = [lit (points (l @ ''='')), decimals u n]"
| "status_numbers u n (l # ls) =
     lit (points (l @ ''='')) # decimals u n # plus (Ch is_space) # status_numbers u (Suc n) ls"

definition RE_STATUS_LINE :: "ucd \<Rightarrow> string \<Rightarrow> string list \<Rightarrow> regex" where
  "RE_STATUS_LINE u title labels =
     seqs ([lit (points title), spaces, lit (points '':''), spaces] @ status_numbers u 1 labels)"

definition RE_HB_DEDUP :: "ucd \<Rightarrow> regex" where
  "RE_HB_DEDUP u = seqs [lit (points ''HB dedup''), spaces, lit (points '':''), spaces, decimals u 1]"

definition RE_RECOVERY_OK :: regex where
  "RE_RECOVERY_OK = lit (points ''offload recovery OK:'')"

text \<open>The titles, the labels and the keys of the counter lines, in the order the parser asks for them.\<close>

definition STATUS_LINES :: "(string \<times> string list \<times> string list) list" where
  "STATUS_LINES =
     [(''Counters'', [''submit'', ''success'', ''fallback'', ''busy''], [''submit'', ''success'', ''fallback'', ''busy'']),
      (''Recovery'', [''attempts'', ''fail'', ''relapses'', ''exhaustion''],
         [''recovery_attempts'', ''recovery_fail'', ''relapses'', ''exhaustion'']),
      (''Probation'', [''active'', ''success'', ''cleared''],
         [''probation_active'', ''probation_success'', ''probation_cleared'']),
      (''Faults'', [''timeout'', ''full'', ''stale'', ''seq'', ''frame'', ''crc'', ''payload''],
         [''fault_timeout'', ''fault_full'', ''fault_stale'', ''fault_seq'', ''fault_frame'', ''fault_crc'', ''fault_payload'']),
      (''Runtime'', [''restarts'', ''fails'', ''last_ms'', ''remote_epoch''],
         [''runtime_restarts'', ''runtime_fails'', ''runtime_last_ms'', ''remote_epoch''])]"

definition set_fields :: "pydict \<Rightarrow> pydict \<Rightarrow> pydict" where
  "set_fields result items = foldl (\<lambda>d (k, v). dict_set d k v) result items"

definition parse_state_line :: "ucd \<Rightarrow> nat list \<Rightarrow> pydict \<Rightarrow> pydict result" where
  "parse_state_line u t result =
     (case re_search (RE_STATE_LINE u) t of
        None \<Rightarrow> Inr result
      | Some m \<Rightarrow>
          rbind (int_fields u m 2 [''epoch'', ''gen'']) (\<lambda>fields.
            Inr (set_fields (dict_set result ''state'' (PStr (group_text m 1))) fields)))"

definition parse_status_line :: "ucd \<Rightarrow> nat list \<Rightarrow> pydict \<Rightarrow> string \<times> string list \<times> string list \<Rightarrow> pydict result" where
  "parse_status_line u t result l =
     (case l of (title, labels, keys) \<Rightarrow>
        (case re_search (RE_STATUS_LINE u title labels) t of
           None \<Rightarrow> Inr result
         | Some m \<Rightarrow> rbind (int_fields u m 1 keys) (\<lambda>fields. Inr (set_fields result fields))))"

definition parse_hb_dedup :: "ucd \<Rightarrow> nat list \<Rightarrow> pydict \<Rightarrow> pydict result" where
  "parse_hb_dedup u t result =
     (case re_search (RE_HB_DEDUP u) t of
        None \<Rightarrow> Inr result
      | Some m \<Rightarrow> rbind (int_group u m 1) (\<lambda>v. Inr (dict_set result ''hb_dedup'' v)))"

definition parse_offload_status :: "ucd \<Rightarrow> string \<Rightarrow> pydict result" where
  "parse_offload_status u transcript =
     (let t = utf8_points transcript in
      rbind (parse_state_line u t empty_status) (\<lambda>result.
      rbind (rfold (parse_status_line u t) result STATUS_LINES) (\<lambda>result.
        parse_hb_dedup u t result)))"

section \<open>A line that is absent leaves its fields alone\<close>

lemma set_fields_frame: "k \<notin> set (map fst items) \<Longrightarrow> dict_get (set_fields result items) k = dict_get result k"
  by (induction items arbitrary: result) (auto simp: set_fields_def)

lemma int_fields_keys: "int_fields u m n labels = Inr items \<Longrightarrow> map fst items = labels"
proof (induction labels arbitrary: n items)
  case (Cons l ls)
  then show ?case by (auto simp: int_fields_def enumerate_simps)
qed (simp add: int_fields_def)

lemma state_line_frame:
  assumes "parse_state_line u t result = Inr result'" and "k \<notin> {''state'', ''epoch'', ''gen''}"
  shows "dict_get result' k = dict_get result k"
  using assms by (auto simp: parse_state_line_def set_fields_frame dest: int_fields_keys split: option.splits)

lemma status_line_frame:
  assumes "parse_status_line u t result (title, labels, keys) = Inr result'"
    and "k \<in> set keys \<longrightarrow> re_search (RE_STATUS_LINE u title labels) t = None"
  shows "dict_get result' k = dict_get result k"
  using assms by (auto simp: parse_status_line_def set_fields_frame dest: int_fields_keys split: option.splits)

lemma hb_dedup_frame:
  assumes "parse_hb_dedup u t result = Inr result'" and "k \<noteq> ''hb_dedup''"
  shows "dict_get result' k = dict_get result k"
  using assms by (auto simp: parse_hb_dedup_def split: option.splits)

lemma parse_offload_frame:
  assumes "parse_offload_status u transcript = Inr d" and "k \<notin> {''state'', ''epoch'', ''gen'', ''hb_dedup''}"
    and "\<forall>(title, labels, keys) \<in> set STATUS_LINES.
      k \<in> set keys \<longrightarrow> re_search (RE_STATUS_LINE u title labels) (utf8_points transcript) = None"
  shows "dict_get d k = dict_get empty_status k"
proof -
  let ?t = "utf8_points transcript"
  obtain a b where ab: "parse_state_line u ?t empty_status = Inr a" "rfold (parse_status_line u ?t) a STATUS_LINES = Inr b"
    "parse_hb_dedup u ?t b = Inr d"
    using assms(1) by (auto simp: parse_offload_status_def Let_def)
  have "dict_get a k = dict_get empty_status k" using state_line_frame [OF ab(1)] assms(2) by blast
  then have "dict_get b k = dict_get empty_status k"
    using ab(2)
  proof (rule rfold_invariant [where P = "\<lambda>r. dict_get r k = dict_get empty_status k"])
    fix r x r'
    assume x: "x \<in> set STATUS_LINES" "dict_get r k = dict_get empty_status k" "parse_status_line u ?t r x = Inr r'"
    obtain title labels keys where l: "x = (title, labels, keys)" by (cases x)
    with assms(3) x(1) have "k \<in> set keys \<longrightarrow> re_search (RE_STATUS_LINE u title labels) ?t = None" by fastforce
    with x(2,3) l show "dict_get r' k = dict_get empty_status k" by (simp add: status_line_frame)
  qed
  with hb_dedup_frame [OF ab(3)] assms(2) show ?thesis by simp
qed

end
