(* ===== verification/Py_IO.thy ===== *)
theory Py_IO
  imports Py_OS "HOL-Library.AList"
begin

text \<open>
  Input and output of the scripts on one flat directory, with the failures the operating system may report at every call.
  A computation maps the directory to the directory it leaves and the result or the exception.  Every call of the system
  has its own tick; a script says for each tick whether the call goes through, is refused with an exception before it has
  an effect, or is followed by an exception after its effect (a signal that arrives as the call returns).
\<close>

section \<open>The directory\<close>

text \<open>A symbolic link holds the bytes of the regular file it leads to, if there is one.\<close>

datatype entry = Regular string | Symlink "string option" | Directory | Special

record dir_world =
  dw_entries :: "(string \<times> entry) list"
  dw_tick :: nat

definition look :: "dir_world \<Rightarrow> string \<Rightarrow> entry option" where
  "look w = map_of (dw_entries w)"

definition dir_put :: "dir_world \<Rightarrow> string \<Rightarrow> entry \<Rightarrow> dir_world" where
  "dir_put w k v = w\<lparr>dw_entries := AList.update k v (dw_entries w)\<rparr>"

definition dir_del :: "dir_world \<Rightarrow> string \<Rightarrow> dir_world" where
  "dir_del w k = w\<lparr>dw_entries := AList.delete k (dw_entries w)\<rparr>"

lemma look_put [simp]: "look (dir_put w k v) = (look w)(k \<mapsto> v)"
  by (simp add: look_def dir_put_def update_conv')

lemma look_del [simp]: "look (dir_del w k) = (look w)(k := None)"
  by (simp add: look_def dir_del_def delete_conv')

lemma tick_put [simp]: "dw_tick (dir_put w k v) = dw_tick w" "dw_tick (dir_del w k) = dw_tick w"
  by (simp_all add: dir_put_def dir_del_def)

section \<open>Computations\<close>

type_synonym 'a io = "dir_world \<Rightarrow> dir_world \<times> 'a result"

definition io_return :: "'a \<Rightarrow> 'a io" where
  "io_return x w = (w, Inr x)"

definition io_raise :: "exn \<Rightarrow> 'a io" where
  "io_raise e w = (w, Inl e)"

definition io_lift :: "'a result \<Rightarrow> 'a io" where
  "io_lift r w = (w, r)"

definition io_bind :: "'a io \<Rightarrow> ('a \<Rightarrow> 'b io) \<Rightarrow> 'b io" where
  "io_bind m f w = (case m w of (w', Inl e) \<Rightarrow> (w', Inl e) | (w', Inr x) \<Rightarrow> f x w')"

lemma io_bind_run:
  "m w = (w', Inr x) \<Longrightarrow> io_bind m f w = f x w'" "m w = (w', Inl e) \<Longrightarrow> io_bind m f w = (w', Inl e)"
  by (simp_all add: io_bind_def)

text \<open>\<open>try: m except BaseException as e: h (e)\<close>; the handler decides whether to raise again.\<close>

definition io_catch :: "'a io \<Rightarrow> (exn \<Rightarrow> 'a io) \<Rightarrow> 'a io" where
  "io_catch m h w = (case m w of (w', Inl e) \<Rightarrow> h e w' | (w', Inr x) \<Rightarrow> (w', Inr x))"

text \<open>\<open>try: m finally: c\<close>; an exception of \<open>c\<close> replaces the one of \<open>m\<close>.\<close>

definition io_finally :: "'a io \<Rightarrow> unit io \<Rightarrow> 'a io" where
  "io_finally m c w =
     (case m w of (w', r) \<Rightarrow> (case c w' of (w'', Inl e) \<Rightarrow> (w'', Inl e) | (w'', Inr _) \<Rightarrow> (w'', r)))"

primrec io_map :: "('a \<Rightarrow> 'b io) \<Rightarrow> 'a list \<Rightarrow> 'b list io" where
  "io_map f [] = io_return []"
| "io_map f (x # xs) = io_bind (f x) (\<lambda>y. io_bind (io_map f xs) (\<lambda>ys. io_return (y # ys)))"

primrec io_each :: "('a \<Rightarrow> unit io) \<Rightarrow> 'a list \<Rightarrow> unit io" where
  "io_each f [] = io_return ()"
| "io_each f (x # xs) = io_bind (f x) (\<lambda>_. io_each f xs)"

section \<open>Calls of the system\<close>

datatype disturbance = Calm | Refuse exn | Late exn

text \<open>\<open>partial\<close> is how much of its data a refused write has written, \<open>suffix\<close> the random part of a temporary name.\<close>

record io_script =
  disturb :: "nat \<Rightarrow> disturbance"
  partial :: "nat \<Rightarrow> nat"
  suffix :: "nat \<Rightarrow> string"

definition tick :: "dir_world \<Rightarrow> dir_world" where
  "tick w = w\<lparr>dw_tick := Suc (dw_tick w)\<rparr>"

lemma tick_simps [simp]: "look (tick w) = look w" "dw_tick (tick w) = Suc (dw_tick w)" "dw_entries (tick w) = dw_entries w"
  by (simp_all add: tick_def look_def)

definition os_call :: "io_script \<Rightarrow> (dir_world \<Rightarrow> dir_world) \<Rightarrow> 'a io \<Rightarrow> 'a io" where
  "os_call sc spoil act w =
     (case disturb sc (dw_tick w) of
        Calm \<Rightarrow> act (tick w)
      | Refuse e \<Rightarrow> (spoil (tick w), Inl e)
      | Late e \<Rightarrow> (case act (tick w) of (w', Inl e') \<Rightarrow> (w', Inl e') | (w', Inr _) \<Rightarrow> (w', Inl e)))"

abbreviation plain_call :: "io_script \<Rightarrow> 'a io \<Rightarrow> 'a io" where
  "plain_call sc \<equiv> os_call sc (\<lambda>w. w)"

text \<open>\<open>tempfile.mkstemp (prefix, dir)\<close>; the name is the one of the last attempt, which fails when it is taken.\<close>

definition mkstemp :: "io_script \<Rightarrow> string \<Rightarrow> string io" where
  "mkstemp sc pre w =
     plain_call sc (\<lambda>v. let name = pre @ suffix sc (dw_tick w) in
        if look v name = None then (dir_put v name (Regular []), Inr name) else (v, Inl EEXIST)) w"

definition write_file :: "io_script \<Rightarrow> string \<Rightarrow> string \<Rightarrow> unit io" where
  "write_file sc name payload w =
     os_call sc (\<lambda>v. dir_put v name (Regular (take (partial sc (dw_tick w)) payload)))
       (\<lambda>v. (dir_put v name (Regular payload), Inr ())) w"

text \<open>A call whose effect is not on the directory: \<open>fdopen\<close>, \<open>fsync\<close>, \<open>close\<close>.\<close>

definition other_call :: "io_script \<Rightarrow> unit io" where
  "other_call sc = plain_call sc (io_return ())"

text \<open>\<open>with os.fdopen (fd) as fh: fh.write (payload); fh.flush (); os.fsync (fh.fileno ())\<close>.\<close>

definition write_handle :: "io_script \<Rightarrow> string \<Rightarrow> string \<Rightarrow> unit io" where
  "write_handle sc name payload =
     io_bind (other_call sc) (\<lambda>_.
       io_finally (io_bind (write_file sc name payload) (\<lambda>_. other_call sc)) (other_call sc))"

definition os_replace :: "io_script \<Rightarrow> string \<Rightarrow> string \<Rightarrow> unit io" where
  "os_replace sc src dst =
     plain_call sc (\<lambda>v.
       case look v src of
         None \<Rightarrow> (v, Inl ENOENT)
       | Some n \<Rightarrow> if look v dst = Some Directory then (v, Inl EISDIR) else (dir_put (dir_del v src) dst n, Inr ()))"

definition os_unlink :: "io_script \<Rightarrow> string \<Rightarrow> unit io" where
  "os_unlink sc name =
     plain_call sc (\<lambda>v.
       case look v name of
         None \<Rightarrow> (v, Inl ENOENT)
       | Some Directory \<Rightarrow> (v, Inl EISDIR)
       | Some _ \<Rightarrow> (dir_del v name, Inr ()))"

text \<open>\<open>with open (path, "rb") as fh: fh.read ()\<close>.\<close>

definition entry_bytes :: "entry option \<Rightarrow> string result" where
  "entry_bytes n =
     (case n of
        Some (Regular b) \<Rightarrow> Inr b
      | Some (Symlink (Some b)) \<Rightarrow> Inr b
      | Some Directory \<Rightarrow> Inl EISDIR
      | Some Special \<Rightarrow> Inl (OSError (text_msg ''ENXIO''))
      | _ \<Rightarrow> Inl ENOENT)"

definition open_read :: "io_script \<Rightarrow> string \<Rightarrow> string io" where
  "open_read sc name = plain_call sc (\<lambda>v. (v, entry_bytes (look v name)))"

definition scandir :: "io_script \<Rightarrow> (string \<times> entry) list io" where
  "scandir sc = plain_call sc (\<lambda>v. (v, Inr (dw_entries v)))"

section \<open>Invariants under every disturbance\<close>

text \<open>\<open>maintains P m Q\<close>: from a directory with \<open>P\<close>, whatever happens, \<open>P\<close> holds afterwards, and a returned value
  has \<open>Q\<close>.\<close>

definition maintains :: "(dir_world \<Rightarrow> bool) \<Rightarrow> 'a io \<Rightarrow> ('a \<Rightarrow> bool) \<Rightarrow> bool" where
  "maintains P m Q \<longleftrightarrow> (\<forall>w. P w \<longrightarrow> P (fst (m w)) \<and> (\<forall>x. snd (m w) = Inr x \<longrightarrow> Q x))"

named_theorems maintains_intros

lemma maintainsD: "maintains P m Q \<Longrightarrow> P w \<Longrightarrow> m w = (w', r) \<Longrightarrow> P w' \<and> (\<forall>x. r = Inr x \<longrightarrow> Q x)"
  by (metis maintains_def fst_conv snd_conv)

lemma maintainsI: "(\<And>w w' r. P w \<Longrightarrow> m w = (w', r) \<Longrightarrow> P w' \<and> (\<forall>x. r = Inr x \<longrightarrow> Q x)) \<Longrightarrow> maintains P m Q"
  by (metis maintains_def prod.collapse)

lemma maintains_pure [maintains_intros]:
  "Q x \<Longrightarrow> maintains P (io_return x) Q" "maintains P (io_raise e) Q"
  "(\<And>x. r = Inr x \<Longrightarrow> Q x) \<Longrightarrow> maintains P (io_lift r) Q"
  by (auto simp: maintains_def io_return_def io_raise_def io_lift_def)

lemma maintains_bind:
  assumes m: "maintains P m R" and f: "\<And>x. R x \<Longrightarrow> maintains P (f x) Q"
  shows "maintains P (io_bind m f) Q"
proof (rule maintainsI)
  fix w w' r
  assume "P w" and bind: "io_bind m f w = (w', r)"
  obtain v y where v: "m w = (v, y)" by fastforce
  then have "P v \<and> (\<forall>x. y = Inr x \<longrightarrow> R x)" using maintainsD [OF m \<open>P w\<close>] by blast
  then show "P w' \<and> (\<forall>x. r = Inr x \<longrightarrow> Q x)"
    using bind v maintainsD [OF f] by (cases y) (auto simp: io_bind_def)
qed

lemmas maintains_bind_any [maintains_intros] = maintains_bind [where R = "\<lambda>_. True"]

lemma maintains_catch [maintains_intros]:
  assumes m: "maintains P m Q" and h: "\<And>e. maintains P (h e) Q"
  shows "maintains P (io_catch m h) Q"
proof (rule maintainsI)
  fix w w' r
  assume "P w" and bind: "io_catch m h w = (w', r)"
  obtain v y where v: "m w = (v, y)" by fastforce
  then have "P v \<and> (\<forall>x. y = Inr x \<longrightarrow> Q x)" using maintainsD [OF m \<open>P w\<close>] by blast
  then show "P w' \<and> (\<forall>x. r = Inr x \<longrightarrow> Q x)"
    using bind v maintainsD [OF h] by (cases y) (auto simp: io_catch_def)
qed

lemma maintains_finally [maintains_intros]:
  assumes m: "maintains P m Q" and c: "maintains P c (\<lambda>_. True)"
  shows "maintains P (io_finally m c) Q"
proof (rule maintainsI)
  fix w w' r
  assume "P w" and bind: "io_finally m c w = (w', r)"
  obtain v y where v: "m w = (v, y)" by fastforce
  obtain u z where u: "c v = (u, z)" by fastforce
  have "P v \<and> (\<forall>x. y = Inr x \<longrightarrow> Q x)" using maintainsD [OF m \<open>P w\<close> v] by blast
  then show "P w' \<and> (\<forall>x. r = Inr x \<longrightarrow> Q x)"
    using bind v u maintainsD [OF c] by (cases z) (auto simp: io_finally_def)
qed

lemma maintains_map [maintains_intros]:
  "(\<And>x. maintains P (f x) (\<lambda>_. True)) \<Longrightarrow> maintains P (io_map f xs) (\<lambda>_. True)"
  by (induction xs) (simp_all add: maintains_intros)

lemma maintains_each [maintains_intros]:
  "(\<And>x. x \<in> set xs \<Longrightarrow> maintains P (f x) (\<lambda>_. True)) \<Longrightarrow> maintains P (io_each f xs) (\<lambda>_. True)"
  by (induction xs) (simp_all add: maintains_intros)

lemma maintains_call:
  assumes t: "\<And>w. P w \<Longrightarrow> P (tick w)" and "\<And>w. P w \<Longrightarrow> P (spoil w)" and act: "maintains P act Q"
  shows "maintains P (os_call sc spoil act) Q"
proof (rule maintainsI)
  fix w w' r
  assume P: "P w" and call: "os_call sc spoil act w = (w', r)"
  obtain v x where v: "act (tick w) = (v, x)" by fastforce
  have "P v \<and> (\<forall>y. x = Inr y \<longrightarrow> Q y)" using maintainsD [OF act t [OF P] v] .
  then show "P w' \<and> (\<forall>x. r = Inr x \<longrightarrow> Q x)"
    using call v assms(1,2) P by (auto simp: os_call_def split: disturbance.splits sum.splits)
qed

text \<open>The contract of an invariant of the directory: it holds whatever happens to the names in \<open>S\<close>, and every name that is
  not in use is one of them.\<close>

locale dir_invariant =
  fixes P :: "dir_world \<Rightarrow> bool" and S :: "string \<Rightarrow> bool"
  assumes keep_tick: "P w \<Longrightarrow> P (tick w)"
    and keep_put: "S k \<Longrightarrow> P w \<Longrightarrow> P (dir_put w k v)"
    and keep_del: "S k \<Longrightarrow> P w \<Longrightarrow> P (dir_del w k)"
    and fresh: "P w \<Longrightarrow> look w k = None \<Longrightarrow> S k"
begin

lemma keep_mkstemp: "maintains P (mkstemp sc pre) S"
proof (rule maintainsI)
  fix w w' r
  assume w: "P w" and run: "mkstemp sc pre w = (w', r)"
  let ?name = "pre @ suffix sc (dw_tick w)"
  have "S ?name" if "look w ?name = None" using fresh [OF w that] .
  then show "P w' \<and> (\<forall>x. r = Inr x \<longrightarrow> S x)"
    using run w by (auto simp: mkstemp_def os_call_def Let_def keep_tick keep_put split: disturbance.splits if_splits)
qed

lemma keep_write: "S k \<Longrightarrow> maintains P (write_file sc k b) (\<lambda>_. True)"
  by (rule maintainsI) (auto simp: write_file_def os_call_def keep_tick keep_put split: disturbance.splits)

lemma keep_calls [maintains_intros]:
  "maintains P (other_call sc) (\<lambda>_. True)" "maintains P (open_read sc k) (\<lambda>_. True)" "maintains P (scandir sc) (\<lambda>_. True)"
  unfolding other_call_def open_read_def scandir_def
  by (intro maintains_call; simp add: maintains_def io_return_def keep_tick)+

lemma keep_replace: "S a \<Longrightarrow> S b \<Longrightarrow> maintains P (os_replace sc a b) (\<lambda>_. True)"
  unfolding os_replace_def
  by (intro maintains_call) (auto simp: maintains_def keep_tick keep_put keep_del split: option.splits if_splits)

lemma keep_unlink: "S a \<Longrightarrow> maintains P (os_unlink sc a) (\<lambda>_. True)"
  unfolding os_unlink_def
  by (intro maintains_call) (auto simp: maintains_def keep_tick keep_del split: option.splits entry.splits)

end

text \<open>The entries of \<open>m\<close> are kept, but for the names in \<open>N\<close>.\<close>

definition kept_outside :: "(string \<Rightarrow> bool) \<Rightarrow> (string \<rightharpoonup> entry) \<Rightarrow> dir_world \<Rightarrow> bool" where
  "kept_outside N m w \<longleftrightarrow> (\<forall>n. m n \<noteq> None \<longrightarrow> \<not> N n \<longrightarrow> look w n = m n)"

definition scratch :: "(string \<Rightarrow> bool) \<Rightarrow> (string \<rightharpoonup> entry) \<Rightarrow> string \<Rightarrow> bool" where
  "scratch N m n \<longleftrightarrow> N n \<or> m n = None"

interpretation kept: dir_invariant "kept_outside N m" "scratch N m" for N m
  by unfold_locales (auto simp: kept_outside_def scratch_def)

text \<open>No name occurs twice.\<close>

definition distinct_names :: "dir_world \<Rightarrow> bool" where
  "distinct_names w \<longleftrightarrow> distinct (map fst (dw_entries w))"

interpretation names: dir_invariant distinct_names "\<lambda>_. True"
  by unfold_locales (auto simp: distinct_names_def dir_put_def dir_del_def distinct_update distinct_delete)

section \<open>One refused call\<close>

definition calm_from :: "io_script \<Rightarrow> nat \<Rightarrow> bool" where
  "calm_from sc t \<longleftrightarrow> (\<forall>s \<ge> t. disturb sc s = Calm)"

definition one_fault :: "io_script \<Rightarrow> nat \<Rightarrow> bool" where
  "one_fault sc t \<longleftrightarrow>
     (\<exists>t0. \<forall>s \<ge> t. disturb sc s = Calm \<or> s = t0 \<and> (\<exists>e. disturb sc s = Refuse e \<and> e \<noteq> ENOENT))"

lemma calm_from_mono: "calm_from sc t \<Longrightarrow> t \<le> s \<Longrightarrow> calm_from sc s"
  by (auto simp: calm_from_def)

lemma calm_fromD: "calm_from sc t \<Longrightarrow> t \<le> s \<Longrightarrow> disturb sc s = Calm"
  by (auto simp: calm_from_def)

lemma one_fault_calm: "calm_from sc t \<Longrightarrow> one_fault sc t"
  by (auto simp: calm_from_def one_fault_def)

lemma one_fault_mono: "one_fault sc t \<Longrightarrow> t \<le> s \<Longrightarrow> one_fault sc s"
  by (auto simp: one_fault_def intro: order_trans)

lemma one_fault_cases:
  assumes "one_fault sc t"
  obtains (calm) "disturb sc t = Calm" "one_fault sc (Suc t)"
  | (fault) e where "disturb sc t = Refuse e" "e \<noteq> ENOENT" "calm_from sc (Suc t)"
proof -
  obtain t0 where t0: "\<And>s. s \<ge> t \<Longrightarrow> disturb sc s = Calm \<or> s = t0 \<and> (\<exists>e. disturb sc s = Refuse e \<and> e \<noteq> ENOENT)"
    using assms by (auto simp: one_fault_def)
  show thesis
  proof (cases "disturb sc t = Calm")
    case True
    then show ?thesis using calm one_fault_mono [OF assms, of "Suc t"] by simp
  next
    case False
    then obtain e where e: "t0 = t" "disturb sc t = Refuse e" "e \<noteq> ENOENT" using t0 [of t] by auto
    have "calm_from sc (Suc t)" unfolding calm_from_def using t0 e(1) by (metis Suc_leD Suc_n_not_le_n)
    with e fault show ?thesis by blast
  qed
qed

text \<open>A computation with at most one fault ahead either succeeds with an effect \<open>Q\<close> and perhaps the fault still ahead, or
  has met the fault and leaves the entries as \<open>R\<close> says.\<close>

definition settles ::
  "io_script \<Rightarrow> dir_world \<Rightarrow> 'a io \<Rightarrow> ('a \<Rightarrow> dir_world \<Rightarrow> bool) \<Rightarrow> (exn \<Rightarrow> dir_world \<Rightarrow> bool) \<Rightarrow> bool" where
  "settles sc w m Q R \<longleftrightarrow>
     dw_tick w \<le> dw_tick (fst (m w)) \<and>
     (case snd (m w) of
        Inr x \<Rightarrow> Q x (fst (m w)) \<and> one_fault sc (dw_tick (fst (m w)))
      | Inl e \<Rightarrow> R e (fst (m w)) \<and> calm_from sc (dw_tick (fst (m w))))"

lemma settlesI_Inr:
  "m w = (w', Inr x) \<Longrightarrow> dw_tick w \<le> dw_tick w' \<Longrightarrow> Q x w' \<Longrightarrow> one_fault sc (dw_tick w') \<Longrightarrow> settles sc w m Q R"
  by (simp add: settles_def)

lemma settlesI_Inl:
  "m w = (w', Inl e) \<Longrightarrow> dw_tick w \<le> dw_tick w' \<Longrightarrow> R e w' \<Longrightarrow> calm_from sc (dw_tick w') \<Longrightarrow> settles sc w m Q R"
  by (simp add: settles_def)

lemma settles_cases:
  assumes "settles sc w m Q R"
  obtains (done_well) w' x where "m w = (w', Inr x)" "dw_tick w \<le> dw_tick w'" "Q x w'" "one_fault sc (dw_tick w')"
  | (failed) w' e where "m w = (w', Inl e)" "dw_tick w \<le> dw_tick w'" "R e w'" "calm_from sc (dw_tick w')"
  using assms by (cases "m w"; cases "snd (m w)") (auto simp: settles_def)

lemma settles_then:
  "settles sc w' m' Q R \<Longrightarrow> m w = m' w' \<Longrightarrow> dw_tick w \<le> dw_tick w' \<Longrightarrow> settles sc w m Q R"
  by (cases "snd (m' w')") (simp_all add: settles_def)

lemma settles_call:
  assumes "one_fault sc (dw_tick w)"
    and ok: "\<exists>v' x. act (tick w) = (v', Inr x) \<and> dw_tick v' = Suc (dw_tick w) \<and> Q x v'"
    and bad: "\<And>e. e \<noteq> ENOENT \<Longrightarrow> R e (spoil (tick w)) \<and> dw_tick (spoil (tick w)) = Suc (dw_tick w)"
  shows "settles sc w (os_call sc spoil act) Q R"
  using assms(1)
proof (cases rule: one_fault_cases)
  case calm
  obtain v' x where "act (tick w) = (v', Inr x)" "dw_tick v' = dw_tick (tick w)" "Q x v'"
    using ok by auto
  with calm show ?thesis by (intro settlesI_Inr [where w' = v' and x = x]) (simp_all add: os_call_def)
next
  case (fault e)
  with bad [of e] show ?thesis
    by (intro settlesI_Inl [where w' = "spoil (tick w)" and e = e]) (simp_all add: os_call_def)
qed

lemma settles_bind:
  assumes "settles sc w m Q R"
    and f: "\<And>x w'. dw_tick w \<le> dw_tick w' \<Longrightarrow> Q x w' \<Longrightarrow> one_fault sc (dw_tick w') \<Longrightarrow> settles sc w' (f x) Q' R"
  shows "settles sc w (io_bind m f) Q' R"
  using assms(1)
proof (cases rule: settles_cases)
  case (done_well w' x)
  then have "settles sc w' (f x) Q' R" using f by blast
  moreover have "io_bind m f w = f x w'" using done_well by (simp add: io_bind_def)
  ultimately show ?thesis using done_well(2) settles_then by metis
next
  case (failed w' e)
  then show ?thesis by (intro settlesI_Inl [where w' = w' and e = e]) (simp_all add: io_bind_def)
qed

text \<open>A handler runs after the fault, in calm.\<close>

lemma settles_catch:
  assumes "settles sc w m Q R"
    and h: "\<And>e w'. dw_tick w \<le> dw_tick w' \<Longrightarrow> R e w' \<Longrightarrow> calm_from sc (dw_tick w') \<Longrightarrow> settles sc w' (h e) Q R'"
  shows "settles sc w (io_catch m h) Q R'"
  using assms(1)
proof (cases rule: settles_cases)
  case (failed w' e)
  then have "settles sc w' (h e) Q R'" using h by blast
  moreover have "io_catch m h w = h e w'" using failed by (simp add: io_catch_def)
  ultimately show ?thesis using failed(2) settles_then by metis
next
  case (done_well w' x)
  then show ?thesis by (intro settlesI_Inr [where w' = w' and x = x]) (simp_all add: io_catch_def)
qed

lemma settles_finally:
  assumes "settles sc w m Q R"
    and c: "\<And>x w'. dw_tick w \<le> dw_tick w' \<Longrightarrow> Q x w' \<Longrightarrow> one_fault sc (dw_tick w') \<Longrightarrow> settles sc w' c (\<lambda>_. Q x) R"
    and d: "\<And>e w'. dw_tick w \<le> dw_tick w' \<Longrightarrow> R e w' \<Longrightarrow> calm_from sc (dw_tick w') \<Longrightarrow>
      \<exists>w''. c w' = (w'', Inr ()) \<and> dw_tick w' \<le> dw_tick w'' \<and> R e w''"
  shows "settles sc w (io_finally m c) Q R"
  using assms(1)
proof (cases rule: settles_cases)
  case (done_well w' x)
  then have "settles sc w' c (\<lambda>_. Q x) R" using c by blast
  then show ?thesis
  proof (cases rule: settles_cases)
    case (done_well w'' y)
    with \<open>m w = (w', Inr x)\<close> \<open>dw_tick w \<le> dw_tick w'\<close> show ?thesis
      by (intro settlesI_Inr [where w' = w'' and x = x]) (simp_all add: io_finally_def)
  next
    case (failed w'' e)
    with \<open>m w = (w', Inr x)\<close> \<open>dw_tick w \<le> dw_tick w'\<close> show ?thesis
      by (intro settlesI_Inl [where w' = w'' and e = e]) (simp_all add: io_finally_def)
  qed
next
  case (failed w' e)
  then obtain w'' where "c w' = (w'', Inr ())" "dw_tick w' \<le> dw_tick w''" "R e w''" using d by blast
  with failed show ?thesis
    by (intro settlesI_Inl [where w' = w'' and e = e]) (auto simp: io_finally_def intro: calm_from_mono)
qed

lemma settles_return: "one_fault sc (dw_tick w) \<Longrightarrow> Q x w \<Longrightarrow> settles sc w (io_return x) Q R"
  by (simp add: settles_def io_return_def)

lemma settles_raise: "calm_from sc (dw_tick w) \<Longrightarrow> R e w \<Longrightarrow> settles sc w (io_raise e) Q R"
  by (simp add: settles_def io_raise_def)

lemma settles_weaken:
  "settles sc w m Q R \<Longrightarrow> (\<And>x M. Q x M \<Longrightarrow> Q' x M) \<Longrightarrow> (\<And>e M. R e M \<Longrightarrow> R' e M) \<Longrightarrow> settles sc w m Q' R'"
  by (auto simp: settles_def split: sum.splits)

lemma io_bind_lift [simp]: "io_bind (io_lift (Inr b)) f = f b"
  by (rule ext) (simp add: io_bind_def io_lift_def)

lemma settles_other:
  assumes "one_fault sc (dw_tick w)" and "Q () (tick w)" and "\<And>e. e \<noteq> ENOENT \<Longrightarrow> R e (tick w)"
  shows "settles sc w (other_call sc) Q R"
  unfolding other_call_def using assms by (intro settles_call) (simp_all add: io_return_def)

text \<open>The entries differ from \<open>M\<close> at most by a regular file of the given name.\<close>

definition but_for :: "(string \<rightharpoonup> entry) \<Rightarrow> string \<Rightarrow> dir_world \<Rightarrow> bool" where
  "but_for M tmp w \<longleftrightarrow> (\<exists>c. look w = M(tmp \<mapsto> Regular c))"

lemma settles_write:
  assumes "one_fault sc (dw_tick w)" and "but_for M tmp w"
  shows "settles sc w (write_file sc tmp b) (\<lambda>_ w'. look w' = M(tmp \<mapsto> Regular b)) (\<lambda>_. but_for M tmp)"
proof -
  let ?spoil = "\<lambda>v. dir_put v tmp (Regular (take (partial sc (dw_tick w)) b))"
  let ?act = "\<lambda>v. (dir_put v tmp (Regular b), Inr ())"
  have "settles sc w (os_call sc ?spoil ?act) (\<lambda>_ w'. look w' = M(tmp \<mapsto> Regular b)) (\<lambda>_. but_for M tmp)"
    using assms by (intro settles_call) (auto simp: but_for_def)
  then show ?thesis by (rule settles_then) (simp_all add: write_file_def)
qed

lemma close_calm: "calm_from sc (dw_tick w) \<Longrightarrow> other_call sc w = (tick w, Inr ())"
  by (simp add: other_call_def os_call_def io_return_def calm_fromD)

end
