(* ===== verification/Py_JsonDump.thy ===== *)
theory Py_JsonDump
  imports Py_Json "HOL-Library.List_Lexorder" "HOL-Library.Char_ord"
begin

text \<open>
  The remaining options of \<open>json.dumps\<close> that the scripts use: \<open>sort_keys=True\<close> and \<open>indent=2\<close>.  Keys are compared by code
  points, which for UTF-8 is the order of the bytes.
\<close>

fun sort_keys :: "pyval \<Rightarrow> pyval" where
  "sort_keys (PList vs) = PList (map sort_keys vs)"
| "sort_keys (PDict d) = PDict (sort_key fst (map (\<lambda>kv. (fst kv, sort_keys (snd kv))) d))"
| "sort_keys v = v"

text \<open>Containers put every item on a line of its own, indented by two blanks per level; empty ones stay on one line.\<close>

definition indent_sep :: "nat \<Rightarrow> string" where
  "indent_sep level = CHR 0x0A # replicate (2 * level) CHR 0x20"

fun json_indent :: "(pyfloat \<Rightarrow> string) \<Rightarrow> nat \<Rightarrow> pyval \<Rightarrow> string" where
  "json_indent frepr level (PList vs) =
     (if vs = [] then ''[]''
      else ''['' @ indent_sep (Suc level) @ join_sep ('','' @ indent_sep (Suc level)) (map (json_indent frepr (Suc level)) vs) @
        indent_sep level @ '']'')"
| "json_indent frepr level (PDict d) =
     (if d = [] then ''{}''
      else ''{'' @ indent_sep (Suc level) @
        join_sep ('','' @ indent_sep (Suc level))
          (map (\<lambda>kv. dumps_str (fst kv) @ '': '' @ json_indent frepr (Suc level) (snd kv)) d) @
        indent_sep level @ ''}'')"
| "json_indent frepr level v = json_dumps frepr [] [] v"

text \<open>A value whose objects are sorted at every level is left as it is.\<close>

fun keys_sorted :: "pyval \<Rightarrow> bool" where
  "keys_sorted (PList vs) = list_all keys_sorted vs"
| "keys_sorted (PDict d) = (sorted (map fst d) \<and> list_all (\<lambda>kv. keys_sorted (snd kv)) d)"
| "keys_sorted _ = True"

lemma sort_keys_id: "keys_sorted v \<Longrightarrow> sort_keys v = v"
proof (induction v rule: sort_keys.induct)
  case (1 vs)
  then show ?case by (simp add: list_all_iff map_idI)
next
  case (2 d)
  then have "map (\<lambda>kv. (fst kv, sort_keys (snd kv))) d = d" by (intro map_idI) (auto simp: list_all_iff)
  with 2 show ?case by (simp add: sort_key_id_if_sorted)
qed simp_all

section \<open>Reading the indented form back\<close>

lemma indent_blank: "\<forall>c \<in> set (indent_sep level). json_space c"
  by (auto simp: indent_sep_def json_space_def)

lemma indent_separators: "separators ('','' @ indent_sep level) '': ''"
  using indent_blank [of level] by (auto simp: separators_def json_space_def)

lemma starts_token_indent: "plain_json v \<Longrightarrow> starts_token (json_indent frepr level v)"
  by (cases v) (use starts_token_dumps [of v frepr "[]" "[]"] in \<open>auto simp: starts_token_def json_space_def\<close>)

lemma reads_indent:
  assumes "plain_json v" and hook: "\<And>d. distinct (dict_keys d) \<Longrightarrow> hook d = Inr d"
  shows "reads nf hook (json_indent frepr level v) v"
  using assms(1)
proof (induction v arbitrary: level rule: measure_induct_rule [of size])
  case (less v)
  show ?case
  proof (cases v)
    case (PList vs)
    have "reads nf hook (json_indent frepr (Suc level) w) w \<and> starts_token (json_indent frepr (Suc level) w)"
      if "w \<in> set vs" for w
      using that less PList by (auto intro!: less(1) starts_token_indent simp: less_Suc_eq_le size_list_estimation')
    then have "reads nf hook (CHR ''['' # (if vs = [] then [] else indent_sep (Suc level)) @
        join_sep ('','' @ indent_sep (Suc level)) (map (json_indent frepr (Suc level)) vs) @
        (if vs = [] then [] else indent_sep level) @ '']'') (PList vs)"
      by (intro reads_list [OF _ indent_separators]) (auto simp: indent_blank)
    with PList show ?thesis by (cases "vs = []") auto
  next
    case (PDict d)
    have "is_ascii (fst kv) \<and> reads nf hook (json_indent frepr (Suc level) (snd kv)) (snd kv)
        \<and> starts_token (json_indent frepr (Suc level) (snd kv))" if kv: "kv \<in> set d" for kv
    proof -
      have "size (snd kv) < size v"
        using PDict size_list_estimation' [OF kv, of "size (snd kv)" "size_prod (\<lambda>x. 0) size"]
        by (cases kv) auto
      with less kv PDict show ?thesis by (auto intro!: less(1) starts_token_indent)
    qed
    moreover have "hook d = Inr d" using hook less(2) PDict by simp
    ultimately have "reads nf hook (CHR ''{'' # (if d = [] then [] else indent_sep (Suc level)) @
        join_sep ('','' @ indent_sep (Suc level))
          (map (\<lambda>kv. dumps_str (fst kv) @ '': '' @ json_indent frepr (Suc level) (snd kv)) d) @
        (if d = [] then [] else indent_sep level) @ ''}'') (PDict d)"
      by (intro reads_dict [OF _ indent_separators]) (auto simp: indent_blank)
    with PDict show ?thesis by (cases "d = []") auto
  qed (use less(2) in \<open>auto intro: reads_literals reads_int reads_str\<close>)
qed

lemma json_loads_indent:
  assumes "plain_json v" and "\<And>d. distinct (dict_keys d) \<Longrightarrow> hook d = Inr d" and b: "\<forall>c \<in> set b. json_space c"
  shows "json_loads_with nf hook (json_indent frepr level v @ b) = Inr v"
  using json_loads_reads [OF reads_indent [OF assms(1,2)] starts_token_indent [OF assms(1)] b] .

text \<open>What is written is ASCII, and its length is bounded by a sum over the parts of the value.\<close>

lemma is_ascii_parts: "is_ascii (a @ b) \<longleftrightarrow> is_ascii a \<and> is_ascii b" "is_ascii (c # a) \<longleftrightarrow> of_char c < (128 :: nat) \<and> is_ascii a" "is_ascii []"
  by (auto simp: is_ascii_def)

lemma ascii_join: "is_ascii sep \<Longrightarrow> \<forall>x \<in> set xs. is_ascii x \<Longrightarrow> is_ascii (join_sep sep xs)"
  by (induction sep xs rule: join_sep.induct) (simp_all add: is_ascii_parts)

lemma ascii_indent_sep: "is_ascii (indent_sep level)"
  by (simp add: indent_sep_def is_ascii_def)

lemma ascii_printable: "list_all printable s \<Longrightarrow> is_ascii s"
  unfolding is_ascii_def list_all_iff printable_def
proof (intro ballI)
  fix c
  assume "\<forall>c \<in> set s. of_char c \<in> {32 .. 126 :: nat}" "c \<in> set s"
  then have "of_char c \<le> (126 :: nat)" by simp
  then show "of_char c < (128 :: nat)" by simp
qed

lemma ascii_indent: "plain_json v \<Longrightarrow> is_ascii (json_indent frepr level v)"
proof (induction frepr level v rule: json_indent.induct)
  case (1 frepr level vs)
  have "is_ascii (json_indent frepr (Suc level) w)" if "w \<in> set vs" for w
    using that 1(1) [of w] 1(2) by (metis empty_iff empty_set plain_json.simps(6))
  then have "is_ascii (join_sep ('','' @ indent_sep (Suc level)) (map (json_indent frepr (Suc level)) vs))"
    by (intro ascii_join) (simp_all add: is_ascii_parts ascii_indent_sep)
  then show ?case by (simp add: is_ascii_parts ascii_indent_sep)
next
  case (2 frepr level d)
  have "is_ascii (dumps_str (fst kv) @ '': '' @ json_indent frepr (Suc level) (snd kv))" if "kv \<in> set d" for kv
  proof -
    have "d \<noteq> []" using that by auto
    then have "is_ascii (json_indent frepr (Suc level) (snd kv))" using that 2(1) [OF _ that] 2(2) by simp
    then show ?thesis using ascii_printable [OF printable_dumps_str [of "fst kv"]] by (simp add: is_ascii_parts)
  qed
  then have "is_ascii (join_sep ('','' @ indent_sep (Suc level))
      (map (\<lambda>kv. dumps_str (fst kv) @ '': '' @ json_indent frepr (Suc level) (snd kv)) d))"
    by (intro ascii_join) (simp_all add: is_ascii_parts ascii_indent_sep)
  then show ?case by (simp add: is_ascii_parts ascii_indent_sep)
qed (auto simp: is_ascii_parts ascii_printable printable_dumps_str printable_dec_of_int)

fun json_bound :: "nat \<Rightarrow> pyval \<Rightarrow> nat" where
  "json_bound level (PList vs) = 4 * level + 6 + sum_list (map (\<lambda>v. 2 * level + 4 + json_bound (Suc level) v) vs)"
| "json_bound level (PDict d) =
     4 * level + 6 + sum_list (map (\<lambda>kv. 2 * level + 8 + 12 * length (fst kv) + json_bound (Suc level) (snd kv)) d)"
| "json_bound level (PStr s) = 2 + 12 * length s"
| "json_bound level (PInt i) = length (dec_of_int i)"
| "json_bound level _ = 5"

lemma length_dumps_str: "is_ascii s \<Longrightarrow> length (dumps_str s) \<le> 2 + 12 * length s"
proof -
  assume ascii: "is_ascii s"
  have "length (escape_point n) \<le> 12" for n by (simp add: escape_point_def hex4_of_def)
  then have "length (concat (map escape_point ns)) \<le> 12 * length ns" for ns
    by (induction ns) (auto intro: add_mono)
  moreover have "length (utf8_points s) = length s" using ascii by (simp add: utf8_points_ascii)
  ultimately show ?thesis using spec [of _ "utf8_points s"] by (simp add: dumps_str_def) metis
qed

lemma length_join_sep: "length (join_sep sep xs) \<le> sum_list (map (\<lambda>x. length sep + length x) xs)"
  by (induction sep xs rule: join_sep.induct) auto

lemma json_bound: "plain_json v \<Longrightarrow> length (json_indent frepr level v) \<le> json_bound level v"
proof (induction frepr level v rule: json_indent.induct)
  case (1 frepr level vs)
  let ?sep = "'','' @ indent_sep (Suc level)" and ?items = "map (json_indent frepr (Suc level)) vs"
  have "length (json_indent frepr (Suc level) w) \<le> json_bound (Suc level) w" if "w \<in> set vs" for w
    using that 1(1) [of w] 1(2) by (metis empty_iff empty_set plain_json.simps(6))
  then have "sum_list (map (\<lambda>x. length ?sep + length x) ?items) \<le> sum_list (map (\<lambda>v. 2 * level + 4 + json_bound (Suc level) v) vs)"
    unfolding map_map by (intro sum_list_mono) (auto simp: indent_sep_def)
  with length_join_sep [of ?sep ?items]
  have "length (join_sep ?sep ?items) \<le> sum_list (map (\<lambda>v. 2 * level + 4 + json_bound (Suc level) v) vs)" by (rule le_trans)
  moreover have "length (json_indent frepr level (PList vs)) \<le> 4 * level + 6 + length (join_sep ?sep ?items)"
    by (simp add: indent_sep_def)
  ultimately show ?case by simp
next
  case (2 frepr level d)
  let ?sep = "'','' @ indent_sep (Suc level)"
  let ?item = "\<lambda>kv. dumps_str (fst kv) @ '': '' @ json_indent frepr (Suc level) (snd kv)"
  let ?b = "\<lambda>kv. 2 * level + 8 + 12 * length (fst kv) + json_bound (Suc level) (snd kv)"
  have "length ?sep + length (?item kv) \<le> ?b kv" if "kv \<in> set d" for kv
  proof -
    have "d \<noteq> []" using that by auto
    then have "length (json_indent frepr (Suc level) (snd kv)) \<le> json_bound (Suc level) (snd kv)"
      using that 2(1) [OF _ that] 2(2) by simp
    then show ?thesis using that 2(2) length_dumps_str [of "fst kv"] by (simp add: indent_sep_def)
  qed
  then have "sum_list (map (\<lambda>x. length ?sep + length x) (map ?item d)) \<le> sum_list (map ?b d)"
    unfolding map_map by (intro sum_list_mono) simp
  with length_join_sep [of ?sep "map ?item d"]
  have "length (join_sep ?sep (map ?item d)) \<le> sum_list (map ?b d)" by (rule le_trans)
  moreover have "length (json_indent frepr level (PDict d)) \<le> 4 * level + 6 + length (join_sep ?sep (map ?item d))"
    by (simp add: indent_sep_def)
  ultimately show ?case by simp
qed (simp_all add: length_dumps_str [simplified])

end
