(* ===== verification/Hil_Evidence.thy ===== *)
theory Hil_Evidence
  imports Py_IO Py_JsonDump
begin

text \<open>
  Evidence finalization, \<open>scripts/hil/evidence.py\<close>: the retained files of a run directory are hashed, \<open>SHA256SUMS\<close> and
  \<open>MANIFEST.md\<close> are staged and then replaced as one transaction, JUnit and JSON evidence is written through the atomic
  writer.  All computations run on the directory of \<open>Py_IO\<close> and can be disturbed at every call of the system.
\<close>

section \<open>The writers\<close>

definition tmp_prefix :: "string \<Rightarrow> string" where
  "tmp_prefix name = ''.'' @ name @ ''.tmp''"

abbreviation encode_error :: exn where
  "encode_error \<equiv> ValueError (text_msg ''surrogates not allowed'')"

definition encode_utf8 :: "string \<Rightarrow> string result" where
  "encode_utf8 s = (if utf8_valid s then Inr s else Inl encode_error)"

text \<open>\<open>try: os.unlink (path) except OSError: pass\<close>.\<close>

definition unlink_if_exists :: "io_script \<Rightarrow> string \<Rightarrow> unit io" where
  "unlink_if_exists sc path =
     io_catch (os_unlink sc path) (\<lambda>e. if is_OSError e then io_return () else io_raise e)"

text \<open>The two writers differ in when the text is encoded: here by \<open>fh.write\<close>, inside the \<open>try\<close>.\<close>

definition atomic_write_text :: "io_script \<Rightarrow> string \<Rightarrow> string \<Rightarrow> unit io" where
  "atomic_write_text sc name t =
     io_bind (mkstemp sc (tmp_prefix name)) (\<lambda>tmp.
       io_catch
         (io_bind (io_bind (other_call sc) (\<lambda>_.
             io_finally (io_bind (io_lift (encode_utf8 t)) (\<lambda>b. io_bind (write_file sc tmp b) (\<lambda>_. other_call sc)))
               (other_call sc))) (\<lambda>_.
           os_replace sc tmp name))
         (\<lambda>e. io_bind (unlink_if_exists sc tmp) (\<lambda>_. io_raise e)))"

definition stage_metadata :: "io_script \<Rightarrow> string \<Rightarrow> string result \<Rightarrow> string io" where
  "stage_metadata sc name payload =
     io_bind (io_lift payload) (\<lambda>b.
     io_bind (mkstemp sc (tmp_prefix name)) (\<lambda>tmp.
     io_bind (io_catch (write_handle sc tmp b) (\<lambda>e. io_bind (unlink_if_exists sc tmp) (\<lambda>_. io_raise e))) (\<lambda>_.
       io_return tmp)))"

definition commit_metadata :: "io_script \<Rightarrow> string \<Rightarrow> string \<Rightarrow> unit io" where
  "commit_metadata sc tmp name = os_replace sc tmp name"

definition snapshot_bytes :: "io_script \<Rightarrow> string \<Rightarrow> string option io" where
  "snapshot_bytes sc name =
     io_catch (io_bind (open_read sc name) (\<lambda>b. io_return (Some b)))
       (\<lambda>e. if e = ENOENT then io_return None else io_raise e)"

text \<open>\<open>_restore_metadata\<close> swallows every exception of its own work, but not one of the final \<open>_unlink_if_exists\<close>.\<close>

definition restore_metadata :: "io_script \<Rightarrow> string \<Rightarrow> string option \<Rightarrow> unit io" where
  "restore_metadata sc name prior =
     (case prior of
        None \<Rightarrow> unlink_if_exists sc name
      | Some b \<Rightarrow> (\<lambda>w.
          case stage_metadata sc name (Inr b) w of
            (w1, Inl _) \<Rightarrow> (w1, Inr ())
          | (w1, Inr tmp) \<Rightarrow>
              (case os_replace sc tmp name w1 of
                 (w2, Inr _) \<Rightarrow> (w2, Inr ())
               | (w2, Inl _) \<Rightarrow> unlink_if_exists sc tmp w2)))"

section \<open>Enumeration and hashes\<close>

definition EVIDENCE_EXCLUDED :: "string list" where
  "EVIDENCE_EXCLUDED = [''SHA256SUMS'', ''MANIFEST.md'']"

definition RUN_OUTCOMES :: "string list" where
  "RUN_OUTCOMES = [''prepared'', ''passed'', ''failed'', ''cancelled'']"

abbreviation evidence_err :: "msg \<Rightarrow> 'a result" where
  "evidence_err m \<equiv> Inl (EvidenceError m)"

text \<open>\<open>entry.is_file ()\<close> follows links, which are rejected before.\<close>

fun is_symlink :: "entry \<Rightarrow> bool" where
  "is_symlink (Symlink _) = True"
| "is_symlink _ = False"

fun is_file :: "entry \<Rightarrow> bool" where
  "is_file (Regular _) = True"
| "is_file (Symlink t) = (t \<noteq> None)"
| "is_file _ = False"

definition check_entry :: "string list \<Rightarrow> string \<times> entry \<Rightarrow> string list result" where
  "check_entry entries ne =
     (case ne of (name, node) \<Rightarrow>
        if is_symlink node then evidence_err (str_msg ''evidence symlink not allowed: %s'' name)
        else if \<not> is_file node then evidence_err (str_msg ''non-regular evidence not allowed: %s'' name)
        else if name \<in> set EVIDENCE_EXCLUDED then Inr entries
        else if slash \<in> set name \<or> name = [] \<or> name = ''.'' \<or> name = ''..''
        then evidence_err (str_msg ''evidence path escapes run directory: %s'' name)
        else Inr (entries @ [name]))"

definition enumerate_evidence :: "io_script \<Rightarrow> string list io" where
  "enumerate_evidence sc =
     io_bind (scandir sc) (\<lambda>es. io_lift (rbind (rfold check_entry [] es) (\<lambda>entries. Inr (sort entries))))"

definition sha256_file :: "io_script \<Rightarrow> (string \<Rightarrow> string) \<Rightarrow> string \<Rightarrow> string io" where
  "sha256_file sc digest name = io_bind (open_read sc name) (\<lambda>b. io_return (digest b))"

definition hash_line :: "string \<Rightarrow> string \<Rightarrow> string" where
  "hash_line d name = d @ ''  '' @ name"

definition hash_lines :: "io_script \<Rightarrow> (string \<Rightarrow> string) \<Rightarrow> string list io" where
  "hash_lines sc digest =
     io_bind (enumerate_evidence sc)
       (io_map (\<lambda>name. io_bind (sha256_file sc digest name) (\<lambda>d. io_return (hash_line d name))))"

section \<open>The manifest\<close>

record run_labels =
  rl_fixture_id :: string
  rl_run_id :: string
  rl_capability :: string

definition manifest_text ::
  "(pyfloat \<Rightarrow> string) \<Rightarrow> run_labels \<Rightarrow> string \<Rightarrow> string list \<Rightarrow> pyval option \<Rightarrow> string" where
  "manifest_text frepr l outcome lines artifact_identity =
     join_sep [CHR 0x0A]
       ([''# HIL run manifest'', [], ''fixture_id: '' @ rl_fixture_id l, ''run_id: '' @ rl_run_id l,
         ''capture_capability: '' @ rl_capability l, ''outcome: '' @ outcome, [], ''## Evidence'', []] @ lines @
        (case artifact_identity of
           None \<Rightarrow> []
         | Some v \<Rightarrow> [[], ''## Artifacts'', [], json_dumps frepr '','' '':'' (sort_keys v)])) @ [CHR 0x0A]"

text \<open>Best effort: every exception is swallowed.\<close>

definition best_effort_failed_manifest :: "io_script \<Rightarrow> (string \<Rightarrow> string) \<Rightarrow> (pyfloat \<Rightarrow> string) \<Rightarrow> run_labels \<Rightarrow> unit io" where
  "best_effort_failed_manifest sc digest frepr l =
     io_catch
       (io_bind (hash_lines sc digest) (\<lambda>lines.
          atomic_write_text sc ''MANIFEST.md'' (manifest_text frepr l ''failed'' lines None)))
       (\<lambda>_. io_return ())"

section \<open>Finalization\<close>

text \<open>\<open>if isinstance (exc, Exception): raise EvidenceError (...) from exc\<close>, otherwise \<open>raise\<close>.\<close>

definition as_evidence_error :: "exn \<Rightarrow> exn" where
  "as_evidence_error e =
     (if is_Exception e then EvidenceError (exn_msg ''evidence finalization failed: %s'' e) else e)"

fun is_EvidenceError :: "exn \<Rightarrow> bool" where
  "is_EvidenceError (EvidenceError _) = True"
| "is_EvidenceError _ = False"

definition stage_both :: "io_script \<Rightarrow> string \<Rightarrow> string \<Rightarrow> (string \<times> string) io" where
  "stage_both sc sha_text mtext =
     io_bind (io_catch (stage_metadata sc ''SHA256SUMS'' (encode_utf8 sha_text)) (\<lambda>e. io_raise (as_evidence_error e))) (\<lambda>t1.
     io_bind (io_catch (stage_metadata sc ''MANIFEST.md'' (encode_utf8 mtext))
               (\<lambda>e. io_bind (unlink_if_exists sc t1) (\<lambda>_. io_raise (as_evidence_error e)))) (\<lambda>t2.
       io_return (t1, t2)))"

definition commit_both ::
  "io_script \<Rightarrow> (string \<Rightarrow> string) \<Rightarrow> (pyfloat \<Rightarrow> string) \<Rightarrow> run_labels \<Rightarrow> string option \<Rightarrow> string option \<Rightarrow> string \<Rightarrow> string \<Rightarrow> unit io" where
  "commit_both sc digest frepr l prior_sums prior_manifest t1 t2 w =
     (let discard = io_each (unlink_if_exists sc) [t1, t2] in
      case commit_metadata sc t1 ''SHA256SUMS'' w of
        (w1, Inl e) \<Rightarrow> io_bind discard (\<lambda>_. io_raise (as_evidence_error e)) w1
      | (w1, Inr _) \<Rightarrow>
          (case commit_metadata sc t2 ''MANIFEST.md'' w1 of
             (w2, Inr _) \<Rightarrow> (w2, Inr ())
           | (w2, Inl e) \<Rightarrow>
               io_bind discard (\<lambda>_.
               io_bind (restore_metadata sc ''SHA256SUMS'' prior_sums) (\<lambda>_.
               io_bind (restore_metadata sc ''MANIFEST.md'' prior_manifest) (\<lambda>_.
               io_bind (if prior_manifest = None then best_effort_failed_manifest sc digest frepr l else io_return ()) (\<lambda>_.
                 io_raise (as_evidence_error e))))) w2))"

definition finalize_evidence ::
  "io_script \<Rightarrow> (string \<Rightarrow> string) \<Rightarrow> (pyfloat \<Rightarrow> string) \<Rightarrow> string \<Rightarrow> run_labels \<Rightarrow> string \<Rightarrow> pyval option \<Rightarrow> string io" where
  "finalize_evidence sc digest frepr run_dir l outcome artifact_identity =
     (if outcome \<notin> set RUN_OUTCOMES
      then io_raise (EvidenceError (val_msg ''unknown evidence outcome %r'' (PStr outcome)))
      else
        io_bind (io_catch (hash_lines sc digest) (\<lambda>e. io_raise (if is_EvidenceError e then e else as_evidence_error e))) (\<lambda>lines.
        let sha_text = concat (map (\<lambda>line. line @ [CHR 0x0A]) lines);
            mtext = manifest_text frepr l outcome lines artifact_identity in
        io_bind (io_catch (snapshot_bytes sc ''SHA256SUMS'') (\<lambda>e. io_raise (as_evidence_error e))) (\<lambda>prior_sums.
        io_bind (io_catch (snapshot_bytes sc ''MANIFEST.md'') (\<lambda>e. io_raise (as_evidence_error e))) (\<lambda>prior_manifest.
        io_bind (stage_both sc sha_text mtext) (\<lambda>(t1, t2).
        io_bind (commit_both sc digest frepr l prior_sums prior_manifest t1 t2) (\<lambda>_.
          io_return (path_join run_dir ''MANIFEST.md'')))))))"

section \<open>JUnit\<close>

definition RUN_TESTCASE :: string where
  "RUN_TESTCASE = ''rh2.short_mono_48_4_1''"

text \<open>The part of \<open>xml.etree.ElementTree\<close> in use: an element with its attributes in the order they were set, its text and
  its children.\<close>

datatype xml = Elem (xml_tag: string) (xml_attrs: "(string \<times> string) list") (xml_text: string) (xml_children: "xml list")

text \<open>\<open>testcase.split (".", 1) [0]\<close>; a message counts when it is there and not empty.\<close>

definition junit_element :: "string \<Rightarrow> string option \<Rightarrow> string option \<Rightarrow> string \<Rightarrow> xml result" where
  "junit_element outcome failure_message system_out testcase =
     (if testcase = [] then evidence_err (text_msg ''JUnit testcase must be a nonempty string'')
      else
        let suite = ''hil.'' @ takeWhile (\<lambda>c. c \<noteq> CHR ''.'') testcase;
            said = (case failure_message of Some t \<Rightarrow> t | None \<Rightarrow> []);
            message = (if said = [] then [] else [(''message'', said)]);
            state =
              (if outcome = ''passed'' then []
               else if outcome = ''cancelled'' then [Elem ''skipped'' message [] []]
               else [Elem ''failure'' message said []]);
            out = (case system_out of Some t \<Rightarrow> if t = [] then [] else [Elem ''system-out'' [] t []] | None \<Rightarrow> []) in
        Inr (Elem ''testsuite''
          [(''name'', suite), (''tests'', ''1''), (''failures'', if outcome = ''failed'' then ''1'' else ''0''),
           (''skipped'', if outcome = ''cancelled'' then ''1'' else ''0''), (''errors'', ''0'')] []
          [Elem ''testcase'' [(''name'', testcase), (''classname'', suite)] [] (state @ out)]))"

definition escape_with :: "(char \<Rightarrow> string) \<Rightarrow> string \<Rightarrow> string" where
  "escape_with f t = concat (map f t)"

definition escape_cdata :: "char \<Rightarrow> string" where
  "escape_cdata c = (if c = CHR ''&'' then ''&amp;'' else if c = CHR ''<'' then ''&lt;'' else if c = CHR ''>'' then ''&gt;'' else [c])"

definition escape_attrib :: "char \<Rightarrow> string" where
  "escape_attrib c =
     (if c = CHR 0x22 then ''&quot;'' else if c = CHR 0x0D then ''&#13;'' else if c = CHR 0x0A then ''&#10;''
      else if c = CHR 0x09 then ''&#09;'' else escape_cdata c)"

primrec xml_string :: "xml \<Rightarrow> string" where
  "xml_string (Elem tag attrs t children) =
     ''<'' @ tag @ concat (map (\<lambda>(k, v). '' '' @ k @ ''='' @ [CHR 0x22] @ escape_with escape_attrib v @ [CHR 0x22]) attrs) @
     (if t = [] \<and> children = [] then '' />''
      else ''>'' @ escape_with escape_cdata t @ concat (map xml_string children) @ ''</'' @ tag @ ''>'')"

definition serialize_junit :: "xml \<Rightarrow> string" where
  "serialize_junit tree =
     ''<?xml version='' @ [CHR 0x27] @ ''1.0'' @ [CHR 0x27] @ '' encoding='' @ [CHR 0x27] @ ''UTF-8'' @ [CHR 0x27] @ ''?>'' @ [CHR 0x0A] @
     xml_string tree @ [CHR 0x0A]"

text \<open>The run directory and the directory of the external copy, each with its own calls; \<open>name\<close> is the base name there.\<close>

definition write_as :: "string \<Rightarrow> exn \<Rightarrow> exn" where
  "write_as fmt e = (if is_EvidenceError e \<or> \<not> is_Exception e then e else EvidenceError (exn_msg fmt e))"

definition write_junit ::
  "io_script \<Rightarrow> io_script \<Rightarrow> string \<Rightarrow> string \<Rightarrow> string \<Rightarrow> string option \<Rightarrow> string option \<Rightarrow> string \<Rightarrow>
   dir_world \<times> dir_world \<Rightarrow> (dir_world \<times> dir_world) \<times> string result" where
  "write_junit sc sc' run_dir name outcome failure_message system_out testcase ws =
     (case ws of (w, v) \<Rightarrow>
        if outcome \<notin> set RUN_OUTCOMES
        then ((w, v), evidence_err (val_msg ''unknown junit outcome %r'' (PStr outcome)))
        else (case junit_element outcome failure_message system_out testcase of
            Inl e \<Rightarrow> ((w, v), Inl e)
          | Inr tree \<Rightarrow>
              let doc = serialize_junit tree; failed = write_as ''cannot write JUnit evidence: %s'' in
              (case atomic_write_text sc ''junit.xml'' doc w of
                 (w', Inl e) \<Rightarrow> ((w', v), Inl (failed e))
               | (w', Inr _) \<Rightarrow>
                   (case atomic_write_text sc' name doc v of
                      (v', Inl e) \<Rightarrow> ((w', v'), Inl (failed e))
                    | (v', Inr _) \<Rightarrow> ((w', v'), Inr (path_join run_dir ''junit.xml''))))))"

definition write_json_evidence :: "io_script \<Rightarrow> (pyfloat \<Rightarrow> string) \<Rightarrow> string \<Rightarrow> pyval \<Rightarrow> unit io" where
  "write_json_evidence sc frepr name obj =
     io_catch (atomic_write_text sc name (json_indent frepr 0 (sort_keys obj) @ [CHR 0x0A]))
       (\<lambda>e. io_raise (if is_EvidenceError e \<or> \<not> is_Exception e then e
          else EvidenceError (Fmt ''cannot write JSON evidence %s: %s'' [AV (PStr name), AX e])))"

section \<open>Environment provenance\<close>

text \<open>What a version probe comes to; \<open>stdout\<close> and \<open>stderr\<close> may be missing.\<close>

datatype probe = Ran int "string option" "string option" | NotFound | TimedOut | ProbeError string

definition clip :: "nat \<Rightarrow> string \<Rightarrow> string" where
  "clip n s = concat (map utf8_encode (take n (utf8_points s)))"

definition run_capture :: "(string list \<Rightarrow> probe) \<Rightarrow> string list \<Rightarrow> pydict" where
  "run_capture run_cmd argv =
     (let entry = (\<lambda>status out err. [(''argv'', PList (map PStr argv)), (''status'', status), (''stdout'', PStr out), (''stderr'', PStr err)]);
          said = (\<lambda>t. clip 4000 (case t of None \<Rightarrow> [] | Some s \<Rightarrow> s)) in
      case run_cmd argv of
        Ran status out err \<Rightarrow> entry (PInt status) (said out) (said err)
      | NotFound \<Rightarrow> entry PNone [] ''not found''
      | TimedOut \<Rightarrow> entry PNone [] ''timeout''
      | ProbeError t \<Rightarrow> entry PNone [] t)"

definition tool_version :: "(string list \<Rightarrow> probe) \<Rightarrow> string list \<Rightarrow> pyval" where
  "tool_version run_cmd argv =
     (let info = run_capture run_cmd argv in
      if \<not> py_eq (dict_get info ''status'') (PInt 0) then PNone
      else (case dict_get info ''stdout'' of
          PStr out \<Rightarrow>
            let first = strip (case splitlines out of [] \<Rightarrow> [] | l # _ \<Rightarrow> l) in if first = [] then PNone else PStr first
        | _ \<Rightarrow> PNone))"

record host_facts =
  hf_now :: string
  hf_hostname :: string
  hf_uname :: "(string \<times> string \<times> string) option"
  hf_ncs_base :: "string option"
  hf_zephyr_base :: "string option"

text \<open>\<open>head\<close> and \<open>dirty\<close> of the repository; either probe failing to start loses both.\<close>

definition repo_facts :: "(string list \<Rightarrow> probe) \<Rightarrow> string \<Rightarrow> pydict result" where
  "repo_facts run_cmd repo_root =
     (let said = (\<lambda>t. case t of None \<Rightarrow> Inl (OtherException (text_msg ''AttributeError'')) | Some s \<Rightarrow> Inr (strip s)) in
      case (run_cmd [''git'', ''-C'', repo_root, ''rev-parse'', ''HEAD''], run_cmd [''git'', ''-C'', repo_root, ''status'', ''--porcelain'']) of
        (Ran s1 o1 _, Ran s2 o2 _) \<Rightarrow>
          rbind (if s1 = 0 then rbind (said o1) (\<lambda>t. Inr (PStr t)) else Inr PNone) (\<lambda>head.
          rbind (if s2 = 0 then rbind (said o2) (\<lambda>t. Inr (PBool (t \<noteq> []))) else Inr PNone) (\<lambda>dirty.
            Inr [(''head'', head), (''dirty'', dirty)]))
      | _ \<Rightarrow> Inr [(''head'', PNone), (''dirty'', PNone)])"

definition ncs_facts :: "(string \<Rightarrow> string result) \<Rightarrow> host_facts \<Rightarrow> pydict result" where
  "ncs_facts open_text h =
     (let ncs_root = (case hf_ncs_base h of Some (c # cs) \<Rightarrow> Some (c # cs) | _ \<Rightarrow> hf_zephyr_base h) in
      case ncs_root of
        None \<Rightarrow> Inr [(''path'', PNone), (''version'', PNone)]
      | Some p \<Rightarrow>
          if p = [] then Inr [(''path'', PStr p), (''version'', PNone)]
          else
            let candidate_root = (if basename (normpath p) = ''zephyr'' then dirname p else p) in
            (case open_text (path_join (path_join candidate_root ''nrf'') ''VERSION'') of
               Inr t \<Rightarrow> Inr [(''path'', PStr p), (''version'', if strip t = [] then PNone else PStr (strip t))]
             | Inl e \<Rightarrow> if is_OSError e then Inr [(''path'', PStr p), (''version'', PNone)] else Inl e))"

definition capture_environment ::
  "(string list \<Rightarrow> probe) \<Rightarrow> (string \<Rightarrow> string result) \<Rightarrow> host_facts \<Rightarrow> string \<Rightarrow> string list \<Rightarrow> pyval \<Rightarrow> pydict result" where
  "capture_environment run_cmd open_text h repo_root argv status =
     rbind (repo_facts run_cmd repo_root) (\<lambda>repo.
     rbind (ncs_facts open_text h) (\<lambda>ncs.
       let version = tool_version run_cmd in
       Inr [(''utc_timestamp'', PStr (hf_now h)),
            (''command'', PDict [(''argv'', PList (map PStr argv)), (''status'', status)]),
            (''host'', PDict [(''hostname'', PStr (hf_hostname h)),
               (''platform'', case hf_uname h of None \<Rightarrow> PNone | Some (sysname, _, _) \<Rightarrow> PStr sysname),
               (''kernel'', case hf_uname h of None \<Rightarrow> PNone | Some (a, b, c) \<Rightarrow> PStr (join_sep '' '' [a, b, c]))]),
            (''repo'', PDict ((''root'', PStr repo_root) # repo)),
            (''ncs'', PDict ncs),
            (''tools'', PDict
              [(''python'', version [''python3'', ''--version'']), (''pytest'', version [''pytest'', ''--version'']),
               (''pyserial'', version [''python3'', ''-c'', ''import serial; print(serial.VERSION)'']),
               (''openocd'', version [''openocd'', ''--version'']),
               (''nrf-probes'', (case version [''nix-nrf'', ''probes'', ''--help''] of PNone \<Rightarrow> PStr ''present'' | v \<Rightarrow> v)),
               (''west'', version [''west'', ''--version'']), (''arecord'', version [''arecord'', ''--version'']),
               (''numpy'', version [''python3'', ''-c'', ''import numpy; print(numpy.__version__)''])])]))"

section \<open>Invariants of the writers\<close>

context dir_invariant
begin

lemma keep_unlink_if: "S k \<Longrightarrow> maintains P (unlink_if_exists sc k) (\<lambda>_. True)"
  unfolding unlink_if_exists_def by (intro maintains_intros keep_unlink) (auto intro!: maintains_intros)

lemma keep_stage: "maintains P (stage_metadata sc name p) S"
  unfolding stage_metadata_def write_handle_def
  by (intro maintains_intros maintains_bind [OF keep_mkstemp] keep_write keep_unlink_if; assumption?) simp_all

lemma keep_atomic_write: "S name \<Longrightarrow> maintains P (atomic_write_text sc name t) (\<lambda>_. True)"
  unfolding atomic_write_text_def
  by (rule maintains_bind [OF keep_mkstemp])
    (intro maintains_intros keep_write keep_unlink_if keep_replace; simp)

lemma keep_hash_lines: "maintains P (hash_lines sc digest) (\<lambda>_. True)"
  unfolding hash_lines_def enumerate_evidence_def sha256_file_def
  by (intro maintains_intros) simp_all

lemma keep_snapshot: "maintains P (snapshot_bytes sc name) (\<lambda>_. True)"
  unfolding snapshot_bytes_def by (intro maintains_intros) (auto intro!: maintains_intros)

lemma keep_restore:
  assumes "S name"
  shows "maintains P (restore_metadata sc name prior) (\<lambda>_. True)"
proof (cases prior)
  case None
  then show ?thesis using keep_unlink_if [OF assms] by (simp add: restore_metadata_def)
next
  case (Some b)
  show ?thesis
  proof (rule maintainsI)
    fix w w' r
    assume Pw: "P w" and run: "restore_metadata sc name prior w = (w', r)"
    obtain w1 s where s: "stage_metadata sc name (Inr b) w = (w1, s)" by fastforce
    note P1 = maintainsD [OF keep_stage Pw s]
    show "P w' \<and> (\<forall>x. r = Inr x \<longrightarrow> True)"
    proof (cases s)
      case (Inl e)
      with run s P1 show ?thesis by (simp add: restore_metadata_def Some)
    next
      case (Inr tmp)
      obtain w2 q where q: "os_replace sc tmp name w1 = (w2, q)" by fastforce
      have tmp: "S tmp" using P1 Inr by simp
      note P2 = maintainsD [OF keep_replace [OF tmp assms] conjunct1 [OF P1] q]
      show ?thesis
        using run s q P2 Inr maintainsD [OF keep_unlink_if [OF tmp], of w2 sc w' r]
        by (cases q) (auto simp: restore_metadata_def Some)
    qed
  qed
qed

lemma keep_commit:
  assumes "S t1" and "S t2" and "S ''SHA256SUMS''" and "S ''MANIFEST.md''"
  shows "maintains P (commit_both sc digest frepr l p1 p2 t1 t2) (\<lambda>_. True)"
proof (rule maintainsI)
  fix w w' r
  assume Pw: "P w" and run: "commit_both sc digest frepr l p1 p2 t1 t2 w = (w', r)"
  let ?discard = "io_each (unlink_if_exists sc) [t1, t2]"
  have discard: "maintains P ?discard (\<lambda>_. True)"
    using assms(1,2) by (auto intro!: maintains_each keep_unlink_if simp del: io_each.simps)
  have failed: "maintains P (best_effort_failed_manifest sc digest frepr l) (\<lambda>_. True)"
    unfolding best_effort_failed_manifest_def
    by (intro maintains_intros keep_hash_lines keep_atomic_write assms) simp_all
  obtain w1 r1 where c1: "commit_metadata sc t1 ''SHA256SUMS'' w = (w1, r1)" by fastforce
  obtain w2 r2 where c2: "commit_metadata sc t2 ''MANIFEST.md'' w1 = (w2, r2)" by fastforce
  have P1: "P w1" using maintainsD [OF keep_replace [OF assms(1,3)] Pw] c1 by (auto simp: commit_metadata_def)
  have P2: "P w2" using maintainsD [OF keep_replace [OF assms(2,4)] P1] c2 by (auto simp: commit_metadata_def)
  have abort: "maintains P (io_bind ?discard (\<lambda>_. io_raise e)) (\<lambda>_. True)" for e
    by (rule maintains_bind_any [OF discard]) (intro maintains_intros)
  have undo: "maintains P (io_bind ?discard (\<lambda>_.
      io_bind (restore_metadata sc ''SHA256SUMS'' p1) (\<lambda>_. io_bind (restore_metadata sc ''MANIFEST.md'' p2) (\<lambda>_.
      io_bind (if p2 = None then best_effort_failed_manifest sc digest frepr l else io_return ()) (\<lambda>_. io_raise e))))) (\<lambda>_. True)" for e
    by (rule maintains_bind_any [OF discard], intro maintains_intros keep_restore assms) (auto intro!: failed maintains_intros)
  show "P w' \<and> (\<forall>x. r = Inr x \<longrightarrow> True)"
    using run c1 c2 P2 maintainsD [OF abort P1] maintainsD [OF undo P2]
    by (cases r1; cases r2) (auto simp: commit_both_def Let_def simp del: io_each.simps)
qed

lemma keep_stage_both: "maintains P (stage_both sc a b) (\<lambda>(t1, t2). S t1 \<and> S t2)"
  unfolding stage_both_def
  by (rule maintains_bind [where R = S], intro maintains_intros keep_stage,
      rule maintains_bind [where R = S], intro maintains_intros keep_stage keep_unlink_if)
    (simp_all add: maintains_intros)

lemma keep_finalize:
  assumes "S ''SHA256SUMS''" and "S ''MANIFEST.md''"
  shows "maintains P (finalize_evidence sc digest frepr run_dir l outcome ai) (\<lambda>_. True)"
  unfolding finalize_evidence_def Let_def
  by (cases "outcome \<in> set RUN_OUTCOMES")
    (auto intro!: maintains_intros keep_hash_lines keep_snapshot maintains_bind [OF keep_stage_both] keep_commit assms)

end

section \<open>The writers with one refused call\<close>

definition free_names :: "io_script \<Rightarrow> dir_world \<Rightarrow> bool" where
  "free_names sc w \<longleftrightarrow>
     inj (suffix sc) \<and> (\<forall>s \<ge> dw_tick w. \<forall>name \<in> set EVIDENCE_EXCLUDED. look w (tmp_prefix name @ suffix sc s) = None)"

definition tmp_at :: "io_script \<Rightarrow> string \<Rightarrow> dir_world \<Rightarrow> string" where
  "tmp_at sc name w = tmp_prefix name @ suffix sc (dw_tick w)"

lemma settles_mkstemp:
  assumes "one_fault sc (dw_tick w)" and "look w (tmp_at sc name w) = None"
  shows "settles sc w (mkstemp sc (tmp_prefix name))
      (\<lambda>tmp w'. tmp = tmp_at sc name w \<and> look w' = (look w)(tmp_at sc name w \<mapsto> Regular []) \<and> dw_tick w < dw_tick w')
      (\<lambda>e w'. look w' = look w)"
proof -
  let ?act = "\<lambda>v. let name = tmp_at sc name w in
        if look v name = None then (dir_put v name (Regular []), Inr name) else (v, Inl EEXIST)"
  have "settles sc w (plain_call sc ?act)
      (\<lambda>tmp w'. tmp = tmp_at sc name w \<and> look w' = (look w)(tmp_at sc name w \<mapsto> Regular []) \<and> dw_tick w < dw_tick w')
      (\<lambda>e w'. look w' = look w)"
    using assms by (intro settles_call) (simp_all add: Let_def)
  then show ?thesis by (rule settles_then) (simp_all add: mkstemp_def tmp_at_def)
qed

lemma settles_handle:
  assumes "one_fault sc (dw_tick w)" and "but_for M tmp w" and "enc = Inr b"
  shows "settles sc w
    (io_bind (other_call sc) (\<lambda>_.
       io_finally (io_bind (io_lift enc) (\<lambda>b. io_bind (write_file sc tmp b) (\<lambda>_. other_call sc))) (other_call sc)))
    (\<lambda>_ w'. look w' = M(tmp \<mapsto> Regular b)) (\<lambda>_. but_for M tmp)"
proof (rule settles_bind [where Q = "\<lambda>_. but_for M tmp"])
  show "settles sc w (other_call sc) (\<lambda>_. but_for M tmp) (\<lambda>_. but_for M tmp)"
    using assms(1,2) by (intro settles_other) (simp_all add: but_for_def)
next
  fix x :: unit and w1 :: dir_world
  assume w1: "one_fault sc (dw_tick w1)" "but_for M tmp w1"
  show "settles sc w1 (io_finally (io_bind (io_lift enc) (\<lambda>b. io_bind (write_file sc tmp b) (\<lambda>_. other_call sc))) (other_call sc))
    (\<lambda>_ w'. look w' = M(tmp \<mapsto> Regular b)) (\<lambda>_. but_for M tmp)"
  proof (rule settles_finally)
    have "settles sc w1 (io_bind (write_file sc tmp b) (\<lambda>_. other_call sc))
      (\<lambda>_ w'. look w' = M(tmp \<mapsto> Regular b)) (\<lambda>_. but_for M tmp)"
      by (rule settles_bind [OF settles_write [OF w1]], rule settles_other) (auto simp: but_for_def)
    then show "settles sc w1 (io_bind (io_lift enc) (\<lambda>b. io_bind (write_file sc tmp b) (\<lambda>_. other_call sc)))
      (\<lambda>_ w'. look w' = M(tmp \<mapsto> Regular b)) (\<lambda>_. but_for M tmp)"
      by (simp add: assms(3))
  qed (auto intro!: settles_other simp: but_for_def close_calm)
qed

lemma unlink_calm:
  assumes "calm_from sc (dw_tick w)" and "look w k \<noteq> Some Directory"
  shows "\<exists>w'. unlink_if_exists sc k w = (w', Inr ()) \<and> dw_tick w' = Suc (dw_tick w) \<and> look w' = (look w)(k := None)"
  using assms
  by (auto simp: unlink_if_exists_def io_catch_def os_unlink_def os_call_def calm_fromD io_return_def fun_upd_idem
      split: option.splits entry.splits)

lemma replace_settles:
  assumes "one_fault sc (dw_tick w)" and "look w src = Some n" and "look w dst \<noteq> Some Directory"
  shows "settles sc w (os_replace sc src dst) (\<lambda>_ w'. look w' = (look w)(src := None, dst \<mapsto> n)) (\<lambda>_ w'. look w' = look w)"
  unfolding os_replace_def using assms by (intro settles_call) simp_all

text \<open>Removing the temporary and raising again after the fault.\<close>

lemma settles_cleanup:
  assumes "calm_from sc (dw_tick w)" and "but_for M tmp w \<or> look w = M" and "M tmp = None"
    and "\<And>w'. look w' = M \<Longrightarrow> R e w'"
  shows "settles sc w (io_bind (unlink_if_exists sc tmp) (\<lambda>_. io_raise e)) Q R"
proof -
  have "look w tmp \<noteq> Some Directory" using assms(2,3) by (auto simp: but_for_def)
  then obtain w' where u: "unlink_if_exists sc tmp w = (w', Inr ())" "dw_tick w' = Suc (dw_tick w)" "look w' = (look w)(tmp := None)"
    using unlink_calm [OF assms(1)] by metis
  moreover have "M(tmp := None) = M" using assms(3) by (simp add: fun_upd_idem)
  then have "look w' = M" using u(3) assms(2) by (elim disjE) (auto simp: but_for_def)
  moreover have "calm_from sc (dw_tick w')" using calm_from_mono [OF assms(1)] u(2) by simp
  ultimately show ?thesis
    using assms(4) by (intro settlesI_Inl [where w' = w' and e = e]) (simp_all add: io_bind_def io_raise_def)
qed

lemma settles_stage:
  assumes "one_fault sc (dw_tick w)" and "look w (tmp_at sc name w) = None"
  shows "settles sc w (stage_metadata sc name (Inr b))
    (\<lambda>tmp w'. tmp = tmp_at sc name w \<and> look w' = (look w)(tmp_at sc name w \<mapsto> Regular b) \<and> dw_tick w < dw_tick w')
    (\<lambda>e w'. look w' = look w)"
proof -
  let ?tmp = "tmp_at sc name w"
  have "settles sc w (io_bind (mkstemp sc (tmp_prefix name)) (\<lambda>tmp.
      io_bind (io_catch (write_handle sc tmp b) (\<lambda>e. io_bind (unlink_if_exists sc tmp) (\<lambda>_. io_raise e))) (\<lambda>_. io_return tmp)))
    (\<lambda>tmp w'. tmp = ?tmp \<and> look w' = (look w)(?tmp \<mapsto> Regular b) \<and> dw_tick w < dw_tick w') (\<lambda>e w'. look w' = look w)"
  proof (rule settles_bind [OF settles_mkstemp [OF assms]], elim conjE)
    fix x w1
    assume w1: "x = ?tmp" "look w1 = (look w)(?tmp \<mapsto> Regular [])" "dw_tick w < dw_tick w1" "one_fault sc (dw_tick w1)"
    have "settles sc w1 (write_handle sc ?tmp b) (\<lambda>_ w'. look w' = (look w)(?tmp \<mapsto> Regular b)) (\<lambda>_. but_for (look w) ?tmp)"
      using settles_handle [OF w1(4), of "look w" ?tmp "Inr b" b] w1(2)
      by (auto simp: write_handle_def but_for_def)
    then have "settles sc w1 (io_catch (write_handle sc ?tmp b) (\<lambda>e. io_bind (unlink_if_exists sc ?tmp) (\<lambda>_. io_raise e)))
      (\<lambda>_ w'. look w' = (look w)(?tmp \<mapsto> Regular b)) (\<lambda>_ w'. look w' = look w)"
      by (rule settles_catch) (rule settles_cleanup [where M = "look w"], auto simp: assms(2))
    then show "settles sc w1 (io_bind (io_catch (write_handle sc x b) (\<lambda>e. io_bind (unlink_if_exists sc x) (\<lambda>_. io_raise e)))
        (\<lambda>_. io_return x))
      (\<lambda>tmp w'. tmp = ?tmp \<and> look w' = (look w)(?tmp \<mapsto> Regular b) \<and> dw_tick w < dw_tick w') (\<lambda>e w'. look w' = look w)"
      unfolding w1(1) by (rule settles_bind) (use w1(3) in \<open>auto intro!: settles_return\<close>)
  qed
  then show ?thesis by (rule settles_then) (simp_all add: stage_metadata_def)
qed

lemma settles_atomic_write:
  assumes "one_fault sc (dw_tick w)" and "look w (tmp_at sc name w) = None" and "look w name \<noteq> Some Directory"
    and "utf8_valid t" and "tmp_at sc name w \<noteq> name"
  shows "settles sc w (atomic_write_text sc name t)
    (\<lambda>_ w'. look w' = (look w)(name \<mapsto> Regular t)) (\<lambda>e w'. look w' = look w)"
  unfolding atomic_write_text_def
proof (rule settles_bind [OF settles_mkstemp [OF assms(1,2)]], elim conjE)
  let ?tmp = "tmp_at sc name w"
  fix x w1
  assume w1: "x = ?tmp" "look w1 = (look w)(?tmp \<mapsto> Regular [])" "dw_tick w < dw_tick w1" "one_fault sc (dw_tick w1)"
  have handle: "settles sc w1
      (io_bind (other_call sc) (\<lambda>_. io_finally (io_bind (io_lift (encode_utf8 t)) (\<lambda>b. io_bind (write_file sc ?tmp b) (\<lambda>_. other_call sc)))
         (other_call sc)))
      (\<lambda>_ w'. look w' = (look w)(?tmp \<mapsto> Regular t)) (\<lambda>_. but_for (look w) ?tmp)"
    using w1 assms(4) by (intro settles_handle) (auto simp: but_for_def encode_utf8_def)
  have "settles sc w2 (os_replace sc ?tmp name) (\<lambda>_ w'. look w' = (look w)(name \<mapsto> Regular t)) (\<lambda>_. but_for (look w) ?tmp)"
    if w2: "look w2 = (look w)(?tmp \<mapsto> Regular t)" "one_fault sc (dw_tick w2)" for w2
  proof (rule settles_weaken [OF replace_settles [OF w2(2)]])
    show "look w2 ?tmp = Some (Regular t)" "look w2 name \<noteq> Some Directory" using w2 assms(3) by auto
    show "look w' = (look w)(name \<mapsto> Regular t)" if "look w' = (look w2)(?tmp := None, name \<mapsto> Regular t)" for w'
      using that w2(1) assms(2) by (simp add: fun_upd_idem)
    show "but_for (look w) ?tmp w'" if "look w' = look w2" for w'
      using that w2(1) by (auto simp: but_for_def)
  qed
  then have "settles sc w1 (io_bind
      (io_bind (other_call sc) (\<lambda>_. io_finally (io_bind (io_lift (encode_utf8 t)) (\<lambda>b. io_bind (write_file sc ?tmp b) (\<lambda>_. other_call sc)))
         (other_call sc))) (\<lambda>_. os_replace sc ?tmp name))
      (\<lambda>_ w'. look w' = (look w)(name \<mapsto> Regular t)) (\<lambda>_. but_for (look w) ?tmp)"
    by (intro settles_bind [OF handle]) auto
  then show "settles sc w1 (io_catch (io_bind
      (io_bind (other_call sc) (\<lambda>_. io_finally (io_bind (io_lift (encode_utf8 t)) (\<lambda>b. io_bind (write_file sc x b) (\<lambda>_. other_call sc)))
         (other_call sc))) (\<lambda>_. os_replace sc x name)) (\<lambda>e. io_bind (unlink_if_exists sc x) (\<lambda>_. io_raise e)))
      (\<lambda>_ w'. look w' = (look w)(name \<mapsto> Regular t)) (\<lambda>e w'. look w' = look w)"
    unfolding w1(1)
    by (rule settles_catch) (rule settles_cleanup [where M = "look w"], auto simp: assms(2))
qed

section \<open>The hashed lines\<close>

text \<open>What the lines should be: one per retained file, in the order of the names.\<close>

definition content :: "(string \<rightharpoonup> entry) \<Rightarrow> string \<Rightarrow> string" where
  "content M n = (case M n of Some (Regular b) \<Rightarrow> b | _ \<Rightarrow> [])"

definition evidence_lines :: "(string \<Rightarrow> string) \<Rightarrow> (string \<rightharpoonup> entry) \<Rightarrow> string list" where
  "evidence_lines digest M =
     map (\<lambda>n. hash_line (digest (content M n)) n) (sorted_list_of_set (dom M - set EVIDENCE_EXCLUDED))"

definition entry_ok :: "string \<times> entry \<Rightarrow> bool" where
  "entry_ok ne \<longleftrightarrow>
     (case ne of (n, e) \<Rightarrow> (\<exists>b. e = Regular b) \<and>
        (n \<in> set EVIDENCE_EXCLUDED \<or> slash \<notin> set n \<and> n \<noteq> [] \<and> n \<noteq> ''.'' \<and> n \<noteq> ''..''))"

definition all_regular :: "(string \<rightharpoonup> entry) \<Rightarrow> bool" where
  "all_regular M \<longleftrightarrow> (\<forall>n e. M n = Some e \<longrightarrow> entry_ok (n, e))"

lemma check_entry_Inr:
  "check_entry acc ne = Inr acc' \<longleftrightarrow> entry_ok ne \<and> acc' = acc @ (if fst ne \<in> set EVIDENCE_EXCLUDED then [] else [fst ne])"
  by (cases ne; cases "snd ne") (auto simp: check_entry_def entry_ok_def)

lemma check_entries:
  "rfold check_entry acc es = Inr acc' \<longleftrightarrow>
     list_all entry_ok es \<and> acc' = acc @ filter (\<lambda>n. n \<notin> set EVIDENCE_EXCLUDED) (map fst es)"
  by (induction es arbitrary: acc) (auto simp: check_entry_Inr)

lemma all_regular_entries:
  assumes "distinct_names w"
  shows "list_all entry_ok (dw_entries w) \<longleftrightarrow> all_regular (look w)"
  using assms by (auto simp: distinct_names_def all_regular_def look_def list_all_iff dest: map_of_SomeD map_of_is_SomeI)

lemma sorted_names:
  assumes "distinct_names w"
  shows "sort (filter (\<lambda>n. n \<notin> set EVIDENCE_EXCLUDED) (map fst (dw_entries w))) =
    sorted_list_of_set (dom (look w) - set EVIDENCE_EXCLUDED)"
proof -
  have "set (filter (\<lambda>n. n \<notin> set EVIDENCE_EXCLUDED) (map fst (dw_entries w))) = dom (look w) - set EVIDENCE_EXCLUDED"
    by (auto simp: look_def dom_map_of_conv_image_fst)
  moreover have "distinct (filter (\<lambda>n. n \<notin> set EVIDENCE_EXCLUDED) (map fst (dw_entries w)))"
    using assms by (simp add: distinct_names_def)
  ultimately show ?thesis by (metis sorted_list_of_set_sort_remdups distinct_remdups_id)
qed

text \<open>Reading changes nothing but the tick.\<close>

definition unchanged :: "dir_world \<Rightarrow> dir_world \<Rightarrow> bool" where
  "unchanged w w' \<longleftrightarrow> dw_entries w' = dw_entries w \<and> dw_tick w \<le> dw_tick w'"

lemma unchanged_look: "unchanged w w' \<Longrightarrow> look w' = look w"
  by (simp add: unchanged_def look_def)

lemma unchanged_reads:
  "maintains (unchanged w) (open_read sc k) (\<lambda>_. True)" "maintains (unchanged w) (scandir sc) (\<lambda>es. es = dw_entries w)"
  unfolding open_read_def scandir_def
  by (rule maintains_call; auto simp: unchanged_def maintains_def)+

lemma read_value:
  assumes "open_read sc n w = (w', Inr b)"
  shows "entry_bytes (look w n) = Inr b"
  using assms by (auto simp: open_read_def os_call_def split: disturbance.splits sum.splits)

lemma read_calm:
  assumes "calm_from sc (dw_tick w)" and "look w n = Some (Regular b)"
  shows "open_read sc n w = (tick w, Inr b)"
  using assms by (simp add: open_read_def os_call_def calm_fromD entry_bytes_def)

abbreviation line_of :: "io_script \<Rightarrow> (string \<Rightarrow> string) \<Rightarrow> string \<Rightarrow> string io" where
  "line_of sc digest n \<equiv> io_bind (sha256_file sc digest n) (\<lambda>d. io_return (hash_line d n))"

lemma unchanged_line: "maintains (unchanged w) (line_of sc digest n) (\<lambda>_. True)"
  unfolding sha256_file_def by (intro maintains_intros unchanged_reads) simp_all

lemma unchanged_hash_lines: "maintains (unchanged w) (hash_lines sc digest) (\<lambda>_. True)"
  unfolding hash_lines_def enumerate_evidence_def
  by (rule maintains_bind_any, rule maintains_bind [OF unchanged_reads(2)])
    (auto intro!: maintains_intros unchanged_line)

lemma unchanged_refl [simp]: "unchanged w w" "unchanged w (tick w)"
  by (simp_all add: unchanged_def)

lemma line_value:
  assumes "line_of sc digest n w = (w', Inr l)" and "all_regular (look w)"
  shows "l = hash_line (digest (content (look w) n)) n"
proof -
  obtain b where b: "entry_bytes (look w n) = Inr b" "l = hash_line (digest b) n"
    using assms(1) read_value [of sc n w]
    by (auto simp: sha256_file_def io_bind_def io_return_def split: prod.splits sum.splits)
  have "look w n = Some (Regular b)"
    using b(1) assms(2) by (auto simp: entry_bytes_def all_regular_def entry_ok_def split: option.splits entry.splits)
  with b(2) show ?thesis by (simp add: content_def)
qed

lemma lines_value:
  assumes "io_map (line_of sc digest) ns w = (w', Inr ls)" and "all_regular (look w)"
  shows "ls = map (\<lambda>n. hash_line (digest (content (look w) n)) n) ns"
  using assms
proof (induction ns arbitrary: w ls)
  case (Cons n ns)
  obtain w1 l where l: "line_of sc digest n w = (w1, Inr l)"
    and rest: "io_bind (io_map (line_of sc digest) ns) (\<lambda>ys. io_return (l # ys)) w1 = (w', Inr ls)"
    using Cons.prems(1) by (simp add: io_bind_def [of "line_of sc digest n"] split: prod.splits sum.splits)
  have "look w1 = look w" using maintainsD [OF unchanged_line unchanged_refl(1) l] unchanged_look by blast
  moreover obtain ys where "io_map (line_of sc digest) ns w1 = (w', Inr ys)" "ls = l # ys"
    using rest by (auto simp: io_bind_def [of "io_map _ _"] io_return_def split: prod.splits sum.splits)
  ultimately show ?case using Cons.IH [of w1 ys] line_value [OF l] Cons.prems(2) by simp
qed (simp add: io_return_def)

lemma hash_lines_value:
  assumes "hash_lines sc digest w = (w', Inr lines)" and "distinct_names w"
  shows "unchanged w w' \<and> all_regular (look w) \<and> lines = evidence_lines digest (look w)"
proof -
  obtain w1 es where es: "scandir sc w = (w1, Inr es)"
    and run: "io_bind (io_lift (rbind (rfold check_entry [] es) (\<lambda>entries. Inr (sort entries)))) (io_map (line_of sc digest)) w1 = (w', Inr lines)"
    using assms(1) by (auto simp: hash_lines_def enumerate_evidence_def io_bind_def split: prod.splits sum.splits)
  have s: "unchanged w w1" "es = dw_entries w" using maintainsD [OF unchanged_reads(2) unchanged_refl(1) es] by auto
  obtain names where names: "rfold check_entry [] es = Inr names" "io_map (line_of sc digest) (sort names) w1 = (w', Inr lines)"
    using run by (cases "rfold check_entry [] es") (auto simp: io_bind_def io_lift_def)
  have reg: "all_regular (look w)" using names(1) s(2) all_regular_entries [OF assms(2)] by (simp add: check_entries)
  have "lines = evidence_lines digest (look w)"
    using lines_value [OF names(2)] reg names(1) s sorted_names [OF assms(2)]
    by (simp add: unchanged_look check_entries evidence_lines_def)
  with reg show ?thesis using maintainsD [OF unchanged_hash_lines unchanged_refl(1) assms(1)] by blast
qed

lemma lines_calm:
  assumes "calm_from sc (dw_tick w)" and "\<forall>n \<in> set ns. \<exists>b. look w n = Some (Regular b)"
  shows "\<exists>w' ls. io_map (line_of sc digest) ns w = (w', Inr ls)"
  using assms
proof (induction ns arbitrary: w)
  case (Cons n ns)
  then obtain b where "look w n = Some (Regular b)" by auto
  then have l: "line_of sc digest n w = (tick w, Inr (hash_line (digest b) n))"
    using read_calm [OF Cons.prems(1)] by (simp add: sha256_file_def io_bind_def io_return_def)
  obtain w' ls where "io_map (line_of sc digest) ns (tick w) = (w', Inr ls)"
    using Cons.IH [of "tick w"] Cons.prems calm_from_mono [OF Cons.prems(1), of "Suc (dw_tick w)"] by auto
  then have "io_map (line_of sc digest) (n # ns) w = (w', Inr (hash_line (digest b) n # ls))"
    unfolding io_map.simps io_bind_run(1) [where m = "line_of sc digest n", OF l]
    by (subst io_bind_run(1) [where m = "io_map (line_of sc digest) ns"]) (assumption, simp add: io_return_def)
  then show ?case by blast
qed (simp add: io_return_def)

lemma hash_lines_calm:
  assumes "calm_from sc (dw_tick w)" and "distinct_names w" and "all_regular (look w)"
  shows "\<exists>w'. hash_lines sc digest w = (w', Inr (evidence_lines digest (look w))) \<and> unchanged w w'"
proof -
  let ?names = "filter (\<lambda>n. n \<notin> set EVIDENCE_EXCLUDED) (map fst (dw_entries w))"
  have names: "rfold check_entry [] (dw_entries w) = Inr ?names"
    using all_regular_entries [OF assms(2)] assms(3) by (simp add: check_entries)
  have "\<exists>b. look (tick w) n = Some (Regular b)" if "n \<in> set (sort ?names)" for n
    using that assms(3) by (auto simp: all_regular_def entry_ok_def look_def)
      (metis (no_types, lifting) map_of_eq_None_iff option.exhaust fst_conv imageI image_eqI)
  then obtain w' ls where "io_map (line_of sc digest) (sort ?names) (tick w) = (w', Inr ls)"
    using lines_calm [of sc "tick w" "sort ?names" digest] calm_from_mono [OF assms(1), of "Suc (dw_tick w)"] by auto
  then have run: "hash_lines sc digest w = (w', Inr ls)"
    using names calm_fromD [OF assms(1), of "dw_tick w"]
    by (simp add: hash_lines_def enumerate_evidence_def scandir_def os_call_def io_bind_def io_lift_def)
  with hash_lines_value [OF run assms(2)] show ?thesis by blast
qed

section \<open>The transaction\<close>

lemmas io_runs = io_bind_def io_catch_def io_finally_def io_return_def io_raise_def io_lift_def os_call_def other_call_def
  mkstemp_def write_file_def write_handle_def os_replace_def tmp_at_def [symmetric] Let_def

lemma stage_calm:
  assumes "calm_from sc (dw_tick w)" and "look w (tmp_at sc name w) = None"
  shows "\<exists>w'. stage_metadata sc name (Inr b) w = (w', Inr (tmp_at sc name w)) \<and>
    look w' = (look w)(tmp_at sc name w \<mapsto> Regular b) \<and> dw_tick w < dw_tick w'"
  using assms by (simp add: stage_metadata_def io_runs calm_fromD)

lemma replace_calm:
  assumes "calm_from sc (dw_tick w)" and "look w src = Some n" and "look w dst \<noteq> Some Directory"
  shows "\<exists>w'. os_replace sc src dst w = (w', Inr ()) \<and> look w' = (look w)(src := None, dst \<mapsto> n) \<and> dw_tick w < dw_tick w'"
  using assms by (simp add: io_runs calm_fromD)

lemma restore_calm:
  assumes "calm_from sc (dw_tick w)" and "look w (tmp_at sc name w) = None" and "look w name \<noteq> Some Directory"
    and "tmp_at sc name w \<noteq> name"
  shows "\<exists>w'. restore_metadata sc name prior w = (w', Inr ()) \<and> look w' = (look w)(name := map_option Regular prior) \<and>
    dw_tick w < dw_tick w'"
proof (cases prior)
  case None
  then show ?thesis using unlink_calm [OF assms(1,3)] by (auto simp: restore_metadata_def)
next
  case (Some b)
  obtain w1 where w1: "stage_metadata sc name (Inr b) w = (w1, Inr (tmp_at sc name w))"
    "look w1 = (look w)(tmp_at sc name w \<mapsto> Regular b)" "dw_tick w < dw_tick w1"
    using stage_calm [OF assms(1,2)] by blast
  have "calm_from sc (dw_tick w1)" using calm_from_mono [OF assms(1)] w1(3) by simp
  then obtain w2 where "os_replace sc (tmp_at sc name w) name w1 = (w2, Inr ())"
    "look w2 = (look w1)(tmp_at sc name w := None, name \<mapsto> Regular b)" "dw_tick w1 < dw_tick w2"
    using replace_calm [of sc w1 "tmp_at sc name w" "Regular b" name] w1(2) assms(3,4) by auto
  with w1 assms(2) Some show ?thesis by (simp add: restore_metadata_def fun_upd_idem)
qed

lemma atomic_write_calm:
  assumes "calm_from sc (dw_tick w)" and "look w (tmp_at sc name w) = None" and "look w name \<noteq> Some Directory"
    and "tmp_at sc name w \<noteq> name"
  shows "\<exists>w' r. atomic_write_text sc name t w = (w', r) \<and> (look w' = look w \<or> look w' = (look w)(name \<mapsto> Regular t))"
  using assms
  by (cases "utf8_valid t")
    (simp_all add: atomic_write_text_def unlink_if_exists_def os_unlink_def encode_utf8_def io_runs calm_fromD fun_upd_idem)

definition prior_bytes :: "(string \<rightharpoonup> entry) \<Rightarrow> string \<Rightarrow> string option" where
  "prior_bytes M n = (case M n of Some (Regular b) \<Rightarrow> Some b | _ \<Rightarrow> None)"

lemma prior_bytes_restores: "all_regular M \<Longrightarrow> map_option Regular (prior_bytes M n) = M n"
  by (auto simp: prior_bytes_def all_regular_def entry_ok_def split: option.splits entry.splits)

lemma snapshot_settles:
  assumes "one_fault sc (dw_tick w)" and "all_regular (look w)"
  shows "settles sc w (snapshot_bytes sc n) (\<lambda>p w'. p = prior_bytes (look w) n \<and> unchanged w w') (\<lambda>e. unchanged w)"
  using assms(1)
proof (cases rule: one_fault_cases)
  case calm
  have "look w n = None \<or> (\<exists>b. look w n = Some (Regular b))"
    using assms(2) by (cases "look w n") (auto simp: all_regular_def entry_ok_def)
  with calm show ?thesis
    by (auto simp: snapshot_bytes_def open_read_def entry_bytes_def prior_bytes_def io_runs intro!: settlesI_Inr [where w' = "tick w"])
next
  case (fault e)
  then show ?thesis
    by (intro settlesI_Inl [where w' = "tick w" and e = e]) (simp_all add: snapshot_bytes_def open_read_def io_runs)
qed

lemma tmp_names:
  "tmp_at sc ''SHA256SUMS'' w \<noteq> tmp_at sc ''MANIFEST.md'' w'"
  "n \<in> set EVIDENCE_EXCLUDED \<Longrightarrow> tmp_at sc name w \<noteq> n"
  by (auto simp: tmp_at_def tmp_prefix_def EVIDENCE_EXCLUDED_def)

lemma free_tmp:
  assumes "free_names sc w" and "n \<in> set EVIDENCE_EXCLUDED" and "dw_tick w \<le> dw_tick w'"
  shows "look w (tmp_at sc n w') = None"
  using assms by (auto simp: free_names_def tmp_at_def)

lemma stage_both_settles:
  assumes "one_fault sc (dw_tick w)" and "free_names sc w" and "utf8_valid a" and "utf8_valid b"
  shows "settles sc w (stage_both sc a b)
    (\<lambda>(t1, t2) w'. (\<exists>v1 v2. t1 = tmp_at sc ''SHA256SUMS'' v1 \<and> t2 = tmp_at sc ''MANIFEST.md'' v2) \<and>
       look w t1 = None \<and> look w t2 = None \<and> look w' = (look w)(t1 \<mapsto> Regular a, t2 \<mapsto> Regular b))
    (\<lambda>e w'. look w' = look w \<and> (\<exists>e0. e = as_evidence_error e0))"
  unfolding stage_both_def
proof (rule settles_bind)
  let ?t1 = "tmp_at sc ''SHA256SUMS'' w"
  have t1: "look w ?t1 = None" using free_tmp [OF assms(2), of "''SHA256SUMS''" w] by (simp add: EVIDENCE_EXCLUDED_def)
  have "settles sc w (stage_metadata sc ''SHA256SUMS'' (encode_utf8 a))
      (\<lambda>tmp w'. tmp = ?t1 \<and> look w' = (look w)(?t1 \<mapsto> Regular a) \<and> dw_tick w < dw_tick w') (\<lambda>e w'. look w' = look w)"
    using settles_stage [OF assms(1) t1] assms(3) by (simp add: encode_utf8_def)
  then show "settles sc w (io_catch (stage_metadata sc ''SHA256SUMS'' (encode_utf8 a)) (\<lambda>e. io_raise (as_evidence_error e)))
      (\<lambda>tmp w'. tmp = ?t1 \<and> look w' = (look w)(?t1 \<mapsto> Regular a) \<and> dw_tick w < dw_tick w') (\<lambda>e w'. look w' = look w \<and> (\<exists>e0. e = as_evidence_error e0))"
    by (rule settles_catch) (auto intro!: settles_raise)
  fix t w1
  assume w1: "dw_tick w \<le> dw_tick w1" "one_fault sc (dw_tick w1)"
    and t: "t = ?t1 \<and> look w1 = (look w)(?t1 \<mapsto> Regular a) \<and> dw_tick w < dw_tick w1"
  let ?t2 = "tmp_at sc ''MANIFEST.md'' w1"
  have t2: "look w ?t2 = None" using free_tmp [OF assms(2), of "''MANIFEST.md''" w1] w1(1) by (simp add: EVIDENCE_EXCLUDED_def)
  moreover have "?t2 \<noteq> ?t1" by (metis tmp_names(1))
  ultimately have "look w1 ?t2 = None" using t by simp
  then have "settles sc w1 (stage_metadata sc ''MANIFEST.md'' (encode_utf8 b))
      (\<lambda>tmp w'. tmp = ?t2 \<and> look w' = (look w1)(?t2 \<mapsto> Regular b) \<and> dw_tick w1 < dw_tick w') (\<lambda>e w'. look w' = look w1)"
    using settles_stage [OF w1(2)] assms(4) by (simp add: encode_utf8_def)
  then have "settles sc w1 (io_catch (stage_metadata sc ''MANIFEST.md'' (encode_utf8 b))
        (\<lambda>e. io_bind (unlink_if_exists sc ?t1) (\<lambda>_. io_raise (as_evidence_error e))))
      (\<lambda>tmp w'. tmp = ?t2 \<and> look w' = (look w1)(?t2 \<mapsto> Regular b) \<and> dw_tick w1 < dw_tick w') (\<lambda>e w'. look w' = look w \<and> (\<exists>e0. e = as_evidence_error e0))"
    by (rule settles_catch) (rule settles_cleanup [where M = "look w"], use t t1 in \<open>auto simp: but_for_def\<close>)
  then show "settles sc w1 (io_bind (io_catch (stage_metadata sc ''MANIFEST.md'' (encode_utf8 b))
        (\<lambda>e. io_bind (unlink_if_exists sc t) (\<lambda>_. io_raise (as_evidence_error e)))) (\<lambda>t2. io_return (t, t2)))
    (\<lambda>(t1, t2) w'. (\<exists>v1 v2. t1 = tmp_at sc ''SHA256SUMS'' v1 \<and> t2 = tmp_at sc ''MANIFEST.md'' v2) \<and>
       look w t1 = None \<and> look w t2 = None \<and> look w' = (look w)(t1 \<mapsto> Regular a, t2 \<mapsto> Regular b))
    (\<lambda>e w'. look w' = look w \<and> (\<exists>e0. e = as_evidence_error e0))"
    unfolding conjunct1 [OF t]
    by (rule settles_bind) (use t t1 t2 in \<open>auto intro!: settles_return\<close>)
qed

abbreviation failed_manifest :: "(string \<Rightarrow> string) \<Rightarrow> (pyfloat \<Rightarrow> string) \<Rightarrow> run_labels \<Rightarrow> (string \<rightharpoonup> entry) \<Rightarrow> string" where
  "failed_manifest digest frepr l M \<equiv> manifest_text frepr l ''failed'' (evidence_lines digest M) None"

text \<open>The entries after a failure: as before, or with a manifest that says so where there was none.\<close>

definition rolled_back :: "(string \<Rightarrow> string) \<Rightarrow> (pyfloat \<Rightarrow> string) \<Rightarrow> run_labels \<Rightarrow> (string \<rightharpoonup> entry) \<Rightarrow> dir_world \<Rightarrow> bool" where
  "rolled_back digest frepr l M w \<longleftrightarrow>
     look w = M \<or> M ''MANIFEST.md'' = None \<and> look w = M(''MANIFEST.md'' \<mapsto> Regular (failed_manifest digest frepr l M))"

lemma discard_calm:
  assumes "calm_from sc (dw_tick w)" and "look w t1 \<noteq> Some Directory" and "look w t2 \<noteq> Some Directory"
  shows "\<exists>w'. io_each (unlink_if_exists sc) [t1, t2] w = (w', Inr ()) \<and> look w' = (look w)(t1 := None, t2 := None) \<and>
    dw_tick w < dw_tick w'"
proof -
  obtain w1 where w1: "unlink_if_exists sc t1 w = (w1, Inr ())" "dw_tick w1 = Suc (dw_tick w)" "look w1 = (look w)(t1 := None)"
    using unlink_calm [OF assms(1,2)] by blast
  have "calm_from sc (dw_tick w1)" using calm_from_mono [OF assms(1)] w1(2) by simp
  moreover have "look w1 t2 \<noteq> Some Directory" using w1(3) assms(3) by simp
  ultimately obtain w2 where "unlink_if_exists sc t2 w1 = (w2, Inr ())" "dw_tick w2 = Suc (dw_tick w1)" "look w2 = (look w1)(t2 := None)"
    using unlink_calm by blast
  with w1 show ?thesis by (simp add: io_bind_run io_return_def)
qed

lemma failed_manifest_calm:
  assumes "calm_from sc (dw_tick w)" and "distinct_names w" and "look w = M" and "all_regular M"
    and "M ''MANIFEST.md'' = None" and "\<forall>s \<ge> dw_tick w. M (tmp_prefix ''MANIFEST.md'' @ suffix sc s) = None"
  shows "\<exists>w'. best_effort_failed_manifest sc digest frepr l w = (w', Inr ()) \<and> rolled_back digest frepr l M w'"
proof -
  obtain w1 where w1: "hash_lines sc digest w = (w1, Inr (evidence_lines digest M))" "unchanged w w1"
    using hash_lines_calm [OF assms(1,2)] assms(3,4) by blast
  have l1: "look w1 = M" using unchanged_look [OF w1(2)] assms(3) by simp
  have t1: "dw_tick w \<le> dw_tick w1" using w1(2) by (simp add: unchanged_def)
  have "look w1 (tmp_at sc ''MANIFEST.md'' w1) = None" using assms(6) t1 l1 by (simp add: tmp_at_def)
  moreover have "tmp_at sc ''MANIFEST.md'' w1 \<noteq> ''MANIFEST.md''" by (rule tmp_names(2)) (simp add: EVIDENCE_EXCLUDED_def)
  ultimately obtain w2 r where "atomic_write_text sc ''MANIFEST.md'' (failed_manifest digest frepr l M) w1 = (w2, r)"
    "look w2 = M \<or> look w2 = M(''MANIFEST.md'' \<mapsto> Regular (failed_manifest digest frepr l M))"
    using atomic_write_calm [of sc w1 "''MANIFEST.md''" "failed_manifest digest frepr l M"] calm_from_mono [OF assms(1) t1] l1 assms(5)
    by auto
  with w1(1) assms(5) show ?thesis
    by (cases r) (auto simp: best_effort_failed_manifest_def io_catch_def io_bind_run io_return_def rolled_back_def)
qed

lemma commit_both_settles:
  assumes "one_fault sc (dw_tick w)" and look: "look w = M(t1 \<mapsto> Regular a, t2 \<mapsto> Regular b)" and reg: "all_regular M"
    and tmps: "t1 = tmp_at sc ''SHA256SUMS'' v1" "t2 = tmp_at sc ''MANIFEST.md'' v2" and none: "M t1 = None" "M t2 = None"
    and free: "\<forall>n \<in> set EVIDENCE_EXCLUDED. \<forall>s \<ge> dw_tick w. M (tmp_prefix n @ suffix sc s) = None"
    and names: "distinct_names w"
    and run: "commit_both sc digest frepr l (prior_bytes M ''SHA256SUMS'') (prior_bytes M ''MANIFEST.md'') t1 t2 w = (w', r)"
  shows "(r = Inr () \<and> look w' = M(''SHA256SUMS'' \<mapsto> Regular a, ''MANIFEST.md'' \<mapsto> Regular b)) \<or>
    (\<exists>e. r = Inl (as_evidence_error e) \<and> rolled_back digest frepr l M w')"
proof -
  let ?sums = "''SHA256SUMS''" and ?man = "''MANIFEST.md''"
  let ?p1 = "prior_bytes M ?sums" and ?p2 = "prior_bytes M ?man"
  let ?fail = "if ?p2 = None then best_effort_failed_manifest sc digest frepr l else io_return ()"
  have ne: "t1 \<noteq> t2" "t1 \<noteq> ?sums" "t1 \<noteq> ?man" "t2 \<noteq> ?sums" "t2 \<noteq> ?man"
    unfolding tmps using tmp_names by (simp_all add: EVIDENCE_EXCLUDED_def)
  have regular: "M n \<noteq> Some Directory" for n using reg by (auto simp: all_regular_def entry_ok_def)
  have priors: "map_option Regular ?p1 = M ?sums" "map_option Regular ?p2 = M ?man" using prior_bytes_restores [OF reg] by simp_all
  note commits = commit_both_def commit_metadata_def Let_def
  have "settles sc w (os_replace sc t1 ?sums) (\<lambda>_ w1. look w1 = (look w)(t1 := None, ?sums \<mapsto> Regular a)) (\<lambda>_ w1. look w1 = look w)"
    using look ne regular by (intro replace_settles [OF assms(1)]) simp_all
  then show ?thesis
  proof (cases rule: settles_cases)
    case (failed w1 e)
    have nodir: "look w1 t1 \<noteq> Some Directory" "look w1 t2 \<noteq> Some Directory" using failed(3) look ne by auto
    from discard_calm [OF failed(4) nodir] obtain w2 where
      w2: "io_each (unlink_if_exists sc) [t1, t2] w1 = (w2, Inr ())" "look w2 = (look w1)(t1 := None, t2 := None)" by blast
    have "look w2 = M" using w2(2) failed(3) look none by (auto simp: fun_eq_iff)
    moreover have "w' = w2 \<and> r = Inl (as_evidence_error e)"
      using run failed(1) w2(1) by (simp add: commits io_bind_run io_raise_def del: io_each.simps)
    ultimately show ?thesis by (auto simp: rolled_back_def)
  next
    case (done_well w1 x)
    have l1: "look w1 = M(t2 \<mapsto> Regular b, ?sums \<mapsto> Regular a)"
      using done_well(3) look none ne by (auto simp: fun_eq_iff)
    have n1: "distinct_names w1" using maintainsD [OF names.keep_replace names done_well(1)] by simp
    have "settles sc w1 (os_replace sc t2 ?man) (\<lambda>_ w2. look w2 = (look w1)(t2 := None, ?man \<mapsto> Regular b)) (\<lambda>_ w2. look w2 = look w1)"
      using l1 ne regular by (intro replace_settles [OF done_well(4)]) simp_all
    then show ?thesis
    proof (cases rule: settles_cases)
      case (done_well w2 y)
      have "look w2 = M(?sums \<mapsto> Regular a, ?man \<mapsto> Regular b)"
        using done_well(3) l1 none ne by (auto simp: fun_eq_iff)
      moreover have "w' = w2 \<and> r = Inr ()"
        using run done_well(1) \<open>os_replace sc t1 ?sums w = (w1, Inr x)\<close> by (simp add: commits)
      ultimately show ?thesis by blast
    next
      case (failed w2 e)
      have n2: "distinct_names w2" using maintainsD [OF names.keep_replace n1 failed(1)] by simp
      have nodir: "look w2 t1 \<noteq> Some Directory" "look w2 t2 \<noteq> Some Directory" using failed(3) l1 ne none by auto
      from discard_calm [OF failed(4) nodir] obtain w3 where
        w3: "io_each (unlink_if_exists sc) [t1, t2] w2 = (w3, Inr ())" "look w3 = (look w2)(t1 := None, t2 := None)"
          "dw_tick w2 < dw_tick w3" by blast
      have discard: "maintains distinct_names (io_each (unlink_if_exists sc) [t1, t2]) (\<lambda>_. True)"
        by (intro maintains_each names.keep_unlink_if) simp
      have n3: "distinct_names w3" using maintainsD [OF discard n2 w3(1)] by simp
      have l3: "look w3 = M(?sums \<mapsto> Regular a)" using w3(2) failed(3) l1 none ne by (auto simp: fun_eq_iff)
      have c3: "calm_from sc (dw_tick w3)" using calm_from_mono [OF failed(4)] w3(3) by simp
      have fresh: "M (tmp_at sc n v) = None" if "n \<in> set EVIDENCE_EXCLUDED" "dw_tick w3 \<le> dw_tick v" for n v
        using free that done_well(2) failed(2) w3(3) by (simp add: tmp_at_def)
      have ex: "?sums \<in> set EVIDENCE_EXCLUDED" "?man \<in> set EVIDENCE_EXCLUDED" by (simp_all add: EVIDENCE_EXCLUDED_def)
      obtain w4 where w4: "restore_metadata sc ?sums ?p1 w3 = (w4, Inr ())"
        "look w4 = (look w3)(?sums := map_option Regular ?p1)" "dw_tick w3 < dw_tick w4"
        using restore_calm [OF c3, of ?sums ?p1] l3 fresh [OF ex(1), of w3] tmp_names(2) [OF ex(1)] by auto
      have l4: "look w4 = M" using w4(2) l3 priors(1) by (simp add: fun_upd_idem)
      have n4: "distinct_names w4" using maintainsD [OF names.keep_restore n3 w4(1)] by simp
      have c4: "calm_from sc (dw_tick w4)" using calm_from_mono [OF c3] w4(3) by simp
      obtain w5 where w5: "restore_metadata sc ?man ?p2 w4 = (w5, Inr ())"
        "look w5 = (look w4)(?man := map_option Regular ?p2)" "dw_tick w4 < dw_tick w5"
        using restore_calm [OF c4, of ?man ?p2] l4 regular fresh [OF ex(2), of w4] w4(3) tmp_names(2) [OF ex(2)] by auto
      have l5: "look w5 = M" using w5(2) l4 priors(2) by (simp add: fun_upd_idem)
      have n5: "distinct_names w5" using maintainsD [OF names.keep_restore n4 w5(1)] by simp
      have c5: "calm_from sc (dw_tick w5)" using calm_from_mono [OF c4] w5(3) by simp
      have "\<exists>w6. ?fail w5 = (w6, Inr ()) \<and> rolled_back digest frepr l M w6"
      proof (cases "?p2 = None")
        case True
        moreover have "\<forall>s \<ge> dw_tick w5. M (tmp_prefix ?man @ suffix sc s) = None"
          using free ex(2) done_well(2) failed(2) w3(3) w4(3) w5(3) by auto
        ultimately show ?thesis
          using failed_manifest_calm [OF c5 n5 l5 reg] priors(2) by simp
      next
        case False
        then show ?thesis using l5 by (auto simp: io_return_def rolled_back_def)
      qed
      then obtain w6 where w6: "?fail w5 = (w6, Inr ())" "rolled_back digest frepr l M w6" by blast
      have "w' = w6 \<and> r = Inl (as_evidence_error e)"
        using run \<open>os_replace sc t1 ?sums w = (w1, Inr x)\<close> failed(1)
        by (simp add: commits io_raise_def io_bind_run(1) [where m = "io_each (unlink_if_exists sc) [t1, t2]", OF w3(1)]
            io_bind_run(1) [where m = "restore_metadata sc ?sums ?p1", OF w4(1)]
            io_bind_run(1) [where m = "restore_metadata sc ?man ?p2", OF w5(1)] io_bind_run(1) [where m = ?fail, OF w6(1)]
            del: io_each.simps)
      with w6(2) show ?thesis by blast
    qed
  qed
qed

lemma as_evidence_error_kind: "is_EvidenceError (as_evidence_error e) \<or> \<not> is_Exception (as_evidence_error e)"
  by (simp add: as_evidence_error_def)

lemma stage_unencodable: "\<not> utf8_valid a \<Longrightarrow> stage_both sc a b w = (w, Inl (as_evidence_error encode_error))"
  by (simp add: stage_both_def stage_metadata_def encode_utf8_def io_bind_def io_catch_def io_lift_def io_raise_def)

lemma transaction_settles:
  assumes o: "one_fault sc (dw_tick w)" and M: "look w = M" and reg: "all_regular M" and names: "distinct_names w"
    and inj: "inj (suffix sc)"
    and free: "\<forall>n \<in> set EVIDENCE_EXCLUDED. \<forall>s \<ge> dw_tick w. M (tmp_prefix n @ suffix sc s) = None"
    and enc: "utf8_valid a \<Longrightarrow> utf8_valid b"
    and run: "io_bind (stage_both sc a b) (\<lambda>(t1, t2).
      io_bind (commit_both sc digest frepr l (prior_bytes M ''SHA256SUMS'') (prior_bytes M ''MANIFEST.md'') t1 t2) (\<lambda>_. io_return p)) w = (w', r)"
  shows "(r = Inr p \<and> look w' = M(''SHA256SUMS'' \<mapsto> Regular a, ''MANIFEST.md'' \<mapsto> Regular b)) \<or>
    (\<exists>e. r = Inl (as_evidence_error e) \<and> rolled_back digest frepr l M w')"
proof (cases "utf8_valid a")
  case False
  then show ?thesis using run M by (auto simp: io_bind_def stage_unencodable rolled_back_def)
next
  case True
  have "free_names sc w" using inj free M by (simp add: free_names_def)
  from stage_both_settles [OF o this True enc [OF True]] show ?thesis
  proof (cases rule: settles_cases)
    case (failed w1 e)
    then show ?thesis using run M by (auto simp: io_bind_def rolled_back_def)
  next
    case (done_well w1 ts)
    obtain t1 t2 v1 v2 where ts: "ts = (t1, t2)" "t1 = tmp_at sc ''SHA256SUMS'' v1" "t2 = tmp_at sc ''MANIFEST.md'' v2"
      "M t1 = None" "M t2 = None" "look w1 = M(t1 \<mapsto> Regular a, t2 \<mapsto> Regular b)"
      using done_well(3) M by (cases ts) auto
    obtain w2 r2 where c: "commit_both sc digest frepr l (prior_bytes M ''SHA256SUMS'') (prior_bytes M ''MANIFEST.md'') t1 t2 w1 = (w2, r2)"
      by fastforce
    have n1: "distinct_names w1" using maintainsD [OF names.keep_stage_both names done_well(1)] by simp
    have free1: "\<forall>n \<in> set EVIDENCE_EXCLUDED. \<forall>s \<ge> dw_tick w1. M (tmp_prefix n @ suffix sc s) = None"
      using free done_well(2) by auto
    have "w' = w2 \<and> r = (case r2 of Inl e \<Rightarrow> Inl e | Inr _ \<Rightarrow> Inr p)"
      using run done_well(1) ts(1) c by (cases r2) (simp_all add: io_bind_def io_return_def)
    then show ?thesis
      using commit_both_settles [OF done_well(4) ts(6) reg ts(2-5) free1 n1 c] by auto
  qed
qed

lemma finalize_settles:
  assumes "one_fault sc (dw_tick w)" and free: "free_names sc w" and names: "distinct_names w"
    and lines: "lines = evidence_lines digest (look w)"
    and sha: "sha_text = concat (map (\<lambda>line. line @ [CHR 0x0A]) lines)"
    and body: "mtext = manifest_text frepr l outcome lines ai"
    and enc: "utf8_valid sha_text \<Longrightarrow> utf8_valid mtext"
    and run: "finalize_evidence sc digest frepr run_dir l outcome ai w = (w', r)"
  shows "(r = Inr (path_join run_dir ''MANIFEST.md'') \<and> outcome \<in> set RUN_OUTCOMES \<and> all_regular (look w) \<and>
      look w' = (look w)(''SHA256SUMS'' \<mapsto> Regular sha_text, ''MANIFEST.md'' \<mapsto> Regular mtext)) \<or>
    (\<exists>e. r = Inl e \<and> (is_EvidenceError e \<or> \<not> is_Exception e) \<and> rolled_back digest frepr l (look w) w')"
    (is "?ok \<or> ?failed")
proof (cases "outcome \<in> set RUN_OUTCOMES")
  case False
  then have "w' = w \<and> (\<exists>m. r = Inl (EvidenceError m))" using run by (auto simp: finalize_evidence_def io_raise_def)
  then show ?thesis by (auto simp: rolled_back_def)
next
  case True
  let ?M = "look w" and ?rest = "\<lambda>prior_sums prior_manifest. io_bind (stage_both sc sha_text mtext) (\<lambda>(t1, t2).
        io_bind (commit_both sc digest frepr l prior_sums prior_manifest t1 t2) (\<lambda>_. io_return (path_join run_dir ''MANIFEST.md'')))"
  have fails: ?failed if "w' = v" "r = Inl (as_evidence_error e)" "look v = ?M" for e v
    using that as_evidence_error_kind [of e] by (auto simp: rolled_back_def)
  obtain w1 r1 where h: "hash_lines sc digest w = (w1, r1)" by fastforce
  have u1: "unchanged w w1" using maintainsD [OF unchanged_hash_lines unchanged_refl(1) h] by blast
  show ?thesis
  proof (cases r1)
    case (Inl e)
    have "w' = w1 \<and> r = Inl (if is_EvidenceError e then e else as_evidence_error e)"
      using run True h Inl by (simp add: finalize_evidence_def io_bind_def io_catch_def io_raise_def)
    then show ?thesis using unchanged_look [OF u1] as_evidence_error_kind [of e] by (auto simp: rolled_back_def)
  next
    case (Inr ls)
    have ls: "ls = lines" and reg: "all_regular ?M" using hash_lines_value [OF h [unfolded Inr] names] lines by simp_all
    have o1: "one_fault sc (dw_tick w1)" using one_fault_mono [OF assms(1)] u1 by (simp add: unchanged_def)
    have l1: "look w1 = ?M" using unchanged_look [OF u1] .
    have run1: "io_bind (io_catch (snapshot_bytes sc ''SHA256SUMS'') (\<lambda>e. io_raise (as_evidence_error e))) (\<lambda>p1.
        io_bind (io_catch (snapshot_bytes sc ''MANIFEST.md'') (\<lambda>e. io_raise (as_evidence_error e))) (\<lambda>p2. ?rest p1 p2)) w1 = (w', r)"
      using run True h Inr ls
      by (simp add: finalize_evidence_def Let_def io_bind_run [where m = "io_catch (hash_lines sc digest) _"] io_catch_def [of "hash_lines sc digest"] sha body)
    from snapshot_settles [OF o1, of "''SHA256SUMS''", unfolded l1, OF reg] show ?thesis
    proof (cases rule: settles_cases)
      case (failed w2 e)
      then have "w' = w2 \<and> r = Inl (as_evidence_error e)"
        using run1 by (simp add: io_bind_def io_catch_def io_raise_def)
      then show ?thesis using fails failed(3) l1 unchanged_look by metis
    next
      case (done_well w2 p)
      note u2 = conjunct2 [OF done_well(3)]
      have l2: "look w2 = ?M" using unchanged_look [OF u2] l1 by simp
      have run2: "io_bind (io_catch (snapshot_bytes sc ''MANIFEST.md'') (\<lambda>e. io_raise (as_evidence_error e)))
          (\<lambda>p2. ?rest (prior_bytes ?M ''SHA256SUMS'') p2) w2 = (w', r)"
        using run1 done_well(1,3) by (simp add: io_bind_run [where m = "io_catch (snapshot_bytes sc ''SHA256SUMS'') _"] io_catch_def [of "snapshot_bytes sc ''SHA256SUMS''"])
      from snapshot_settles [OF done_well(4), of "''MANIFEST.md''", unfolded l2, OF reg] show ?thesis
      proof (cases rule: settles_cases)
        case (failed w3 e)
        then have "w' = w3 \<and> r = Inl (as_evidence_error e)"
          using run2 by (simp add: io_bind_def io_catch_def io_raise_def)
        then show ?thesis using fails failed(3) l2 unchanged_look by metis
      next
        case (done_well w3 q)
        note u3 = conjunct2 [OF done_well(3)]
        have run3: "?rest (prior_bytes ?M ''SHA256SUMS'') (prior_bytes ?M ''MANIFEST.md'') w3 = (w', r)"
          using run2 done_well(1,3) by (simp add: io_bind_run [where m = "io_catch (snapshot_bytes sc ''MANIFEST.md'') _"] io_catch_def [of "snapshot_bytes sc ''MANIFEST.md''"])
        have "dw_tick w \<le> dw_tick w3" "distinct_names w3"
          using u1 u2 u3 names by (simp_all add: unchanged_def distinct_names_def)
        moreover have "look w3 = ?M" using unchanged_look [OF u3] l2 by simp
        ultimately show ?thesis
          using transaction_settles [OF done_well(4) _ reg _ _ _ enc run3] free reg True as_evidence_error_kind
          by (auto simp: free_names_def)
      qed
    qed
  qed
qed

section \<open>Properties\<close>

text \<open>C31: Finalizing evidence never touches a retained file.  Whatever the operating system refuses, at any number of calls,
  and whenever an interrupt arrives, every entry of the run directory other than \<open>SHA256SUMS\<close> and \<open>MANIFEST.md\<close> that was
  there before is there afterwards with the same content.\<close>

theorem evidence_never_touched:
  assumes "finalize_evidence sc digest frepr run_dir l outcome ai w = (w', r)"
    and "n \<notin> set EVIDENCE_EXCLUDED" and "look w n = Some e"
  shows "look w' n = Some e"
proof -
  let ?N = "\<lambda>n. n \<in> set EVIDENCE_EXCLUDED"
  have "kept_outside ?N (look w) w" by (simp add: kept_outside_def)
  moreover have "maintains (kept_outside ?N (look w)) (finalize_evidence sc digest frepr run_dir l outcome ai) (\<lambda>_. True)"
    by (rule kept.keep_finalize) (simp_all add: scratch_def EVIDENCE_EXCLUDED_def)
  ultimately have "kept_outside ?N (look w) w'" using maintainsD assms(1) by blast
  with assms(2,3) show ?thesis by (simp add: kept_outside_def)
qed

text \<open>C25: Finalizing evidence is a transaction.  With at most one call of the system refused, at any point, either both
  metadata files are replaced, \<open>SHA256SUMS\<close> by the hashes of exactly the retained files in the order of their names and
  \<open>MANIFEST.md\<close> by the manifest with these lines, and nothing else changes; or an \<open>EvidenceError\<close> (or the cancellation
  itself) is raised and the directory is as it was, with no temporary left, except that a manifest with outcome
  \<open>failed\<close> may have been written where there was none.\<close>

theorem finalize_transaction:
  assumes "one_fault sc (dw_tick w)" and "free_names sc w" and "distinct_names w"
    and "lines = evidence_lines digest (look w)"
    and "utf8_valid (concat (map (\<lambda>line. line @ [CHR 0x0A]) lines)) \<Longrightarrow> utf8_valid (manifest_text frepr l outcome lines ai)"
    and "finalize_evidence sc digest frepr run_dir l outcome ai w = (w', r)"
  shows "(r = Inr (path_join run_dir ''MANIFEST.md'') \<and> outcome \<in> set RUN_OUTCOMES \<and> all_regular (look w) \<and>
      look w' = (look w)(''SHA256SUMS'' \<mapsto> Regular (concat (map (\<lambda>line. line @ [CHR 0x0A]) lines)),
        ''MANIFEST.md'' \<mapsto> Regular (manifest_text frepr l outcome lines ai))) \<or>
    (\<exists>e. r = Inl e \<and> (is_EvidenceError e \<or> \<not> is_Exception e) \<and>
      (look w' = look w \<or>
       look w ''MANIFEST.md'' = None \<and>
       look w' = (look w)(''MANIFEST.md'' \<mapsto> Regular (manifest_text frepr l ''failed'' lines None))))"
  using finalize_settles [OF assms(1-4) refl refl assms(5,6)] assms(4) by (simp add: rolled_back_def)

text \<open>A run directory with one result and an old manifest; the system refuses the second of the two replacements.\<close>

definition ex_dir :: dir_world where
  "ex_dir = \<lparr>dw_entries = [(''run.json'', Regular ''{}''), (''MANIFEST.md'', Regular ''old'')], dw_tick = 0\<rparr>"

definition ex_script :: "nat \<Rightarrow> disturbance \<Rightarrow> io_script" where
  "ex_script t d = \<lparr>disturb = (\<lambda>s. if s = t then d else Calm), partial = (\<lambda>_. 0), suffix = (\<lambda>s. replicate s CHR ''x'')\<rparr>"

definition ex_labels :: run_labels where
  "ex_labels = \<lparr>rl_fixture_id = ''f'', rl_run_id = ''r'', rl_capability = ''none''\<rparr>"

abbreviation ex_finalize :: "nat \<Rightarrow> disturbance \<Rightarrow> dir_world \<times> string result" where
  "ex_finalize t d \<equiv> finalize_evidence (ex_script t d) (\<lambda>_. ''ab'') (\<lambda>_. []) ''/r'' ex_labels ''passed'' None ex_dir"

lemma ex_refused: "isl (snd (ex_finalize 15 (Refuse (OSError (text_msg ''ENOSPC'')))))"
  by code_simp

theorem evidence_never_touched_witness:
  "look (fst (ex_finalize 15 (Refuse (OSError (text_msg ''ENOSPC''))))) ''run.json'' = Some (Regular ''{}'')"
  by (rule evidence_never_touched [OF prod.collapse [symmetric]])
    (simp_all add: ex_dir_def look_def EVIDENCE_EXCLUDED_def)

theorem finalize_transaction_witness:
  "look (fst (ex_finalize 15 (Refuse (OSError (text_msg ''ENOSPC''))))) = look ex_dir"
proof -
  let ?d = "Refuse (OSError (text_msg ''ENOSPC''))"
  have fault: "one_fault (ex_script 15 ?d) (dw_tick ex_dir)" by (auto simp: one_fault_def ex_script_def)
  have "inj (\<lambda>s. replicate s (CHR ''x''))" by (simp add: inj_def)
  then have free: "free_names (ex_script 15 ?d) ex_dir"
    by (simp add: free_names_def ex_script_def ex_dir_def look_def EVIDENCE_EXCLUDED_def tmp_prefix_def)
  have names: "distinct_names ex_dir" by (simp add: distinct_names_def ex_dir_def)
  have "dom (look ex_dir) - set EVIDENCE_EXCLUDED = {''run.json''}"
    by (auto simp: ex_dir_def look_def EVIDENCE_EXCLUDED_def split: if_splits)
  then have "evidence_lines (\<lambda>_. ''ab'') (look ex_dir) = [''ab  run.json'']"
    by (simp add: evidence_lines_def hash_line_def)
  moreover have "utf8_valid (manifest_text (\<lambda>_. []) ex_labels ''passed'' [''ab  run.json''] None)" by code_simp
  ultimately have enc: "utf8_valid (manifest_text (\<lambda>_. []) ex_labels ''passed'' (evidence_lines (\<lambda>_. ''ab'') (look ex_dir)) None)"
    by simp
  have "look ex_dir ''MANIFEST.md'' \<noteq> None" by (simp add: ex_dir_def look_def)
  then show ?thesis
    using finalize_transaction [OF fault free names refl enc prod.collapse [symmetric], of "''/r''"] ex_refused by auto
qed


end
