(* ===== verification/Hil_Artifacts.thy ===== *)
theory Hil_Artifacts
  imports Py_IO Py_JsonDump Py_Regex
begin

text \<open>
  Firmware archives, \<open>scripts/hil/artifacts.py\<close>: the checks of an archive and its members, the Intel HEX and manifest
  contracts, the staging of the images and their revalidation before flashing.  What the operating system says of a path
  at the moment of a call is an \<open>os_view\<close>; a call that happens later has a view of its own.  The ZIP reader and SHA-256 are
  parameters.
\<close>

section \<open>Views of the system\<close>

datatype file_kind = S_IFLNK | S_IFREG | S_IFDIR | S_IFOTHER

record stat =
  st_kind :: file_kind
  st_perm :: nat
  st_size :: int
  st_dev :: int
  st_ino :: int

text \<open>\<open>ov_open\<close> is opening without following links and what is read from the descriptor: its \<open>fstat\<close> and the successive
  results of \<open>os.read\<close>, the end of the file after the last one.\<close>

record os_view =
  ov_lstat :: "string \<Rightarrow> stat result"
  ov_realpath :: "string \<Rightarrow> string"
  ov_open :: "string \<Rightarrow> (stat \<times> string result list) result"

abbreviation artifact_err :: "msg \<Rightarrow> 'a result" where
  "artifact_err m \<equiv> Inl (ArtifactError m)"

section \<open>Constants and records\<close>

definition MAX_ARCHIVE_BYTES :: int where "MAX_ARCHIVE_BYTES = 16 * 1024 * 1024"

definition MAX_MEMBER_BYTES :: int where "MAX_MEMBER_BYTES = 8 * 1024 * 1024"

definition MAX_TOTAL_MEMBER_BYTES :: int where "MAX_TOTAL_MEMBER_BYTES = 20 * 1024 * 1024"

definition EXPECTED_MODE :: int where "EXPECTED_MODE = 33188"

definition EXPECTED_COMPRESSION :: int where "EXPECTED_COMPRESSION = 8"

definition FIXED_TIMESTAMP :: "int list" where "FIXED_TIMESTAMP = [1980, 1, 1, 0, 0, 0]"

definition RECEIVER_MEMBERS :: "string list" where
  "RECEIVER_MEMBERS = [''FLASHING.md'', ''cpuapp.hex'', ''flpr.hex'', ''release-manifest.json'', ''SHA256SUMS'']"

definition SOURCE_MEMBERS :: "string list" where
  "SOURCE_MEMBERS = [''cpuapp.hex'', ''source-manifest.json'', ''SHA256SUMS'']"

datatype artifact_kind = Receiver | Source

fun kind_name :: "artifact_kind \<Rightarrow> string" where
  "kind_name Receiver = ''receiver''"
| "kind_name Source = ''source''"

record expected_image =
  ei_filename :: string
  ei_flash_order :: int
  ei_role :: string
  ei_sha256 :: string
  ei_size :: int

record artifact_image =
  im_role :: string
  im_filename :: string
  im_flash_order :: int
  im_sha256 :: string
  im_size :: int
  im_path :: string

record artifact_identity =
  id_kind :: artifact_kind
  id_archive_path :: string
  id_outer_sha256 :: string
  id_size :: int
  id_manifest :: pydict
  id_member_sha256 :: "(string \<times> string) list"

text \<open>Only \<open>resolve_artifacts\<close> knows the token, so the field says whether it made the set.\<close>

record artifact_set =
  as_receiver :: artifact_identity
  as_source :: artifact_identity
  as_receiver_images :: "artifact_image list"
  as_source_images :: "artifact_image list"
  as_staging_root :: string
  as_token :: bool

section \<open>Paths and bytes\<close>

definition is_inside :: "string \<Rightarrow> string \<Rightarrow> bool" where
  "is_inside path rt \<longleftrightarrow> path = rt \<or> startswith path (rt @ [slash])"

text \<open>\<open>(0|[1-9][0-9]*)\<close>, three times with dots between.\<close>

definition number_regex :: regex where
  "number_regex = Alt (lit [48]) (Seq (Ch (range_class [(49, 57)])) (Rep (Ch ascii_digit)))"

definition version_regex :: regex where
  "version_regex = seqs [number_regex, lit (points ''.''), number_regex, lit (points ''.''), number_regex]"

definition VERSION_RE :: regex where
  "VERSION_RE = seqs [bol, version_regex, eol]"

definition receiver_name_regex :: "regex \<Rightarrow> regex" where
  "receiver_name_regex version =
     seqs [lit (points ''le-audio-receiver-v''), Grp 1 version, lit (points ''-nrf54l15-xiao-factory.zip'')]"

definition validate_archive_path :: "os_view \<Rightarrow> string \<Rightarrow> pyval \<Rightarrow> artifact_kind option \<Rightarrow> (string \<times> stat) result" where
  "validate_archive_path os repo_root path kind =
     (case path of
        PStr p \<Rightarrow>
          if p = [] \<or> \<not> isabs p then artifact_err (text_msg ''artifact path must be absolute'')
          else (case ov_lstat os p of
              Inl exc \<Rightarrow> if is_OSError exc then artifact_err (exn_msg ''artifact cannot be read: %s'' exc) else Inl exc
            | Inr st \<Rightarrow>
                if st_kind st = S_IFLNK then artifact_err (str_msg ''artifact must not be a symlink: %s'' p)
                else if st_kind st \<noteq> S_IFREG then artifact_err (str_msg ''artifact is not a regular file: %s'' p)
                else if st_size st \<le> 0 then artifact_err (str_msg ''artifact is empty: %s'' p)
                else if st_size st > MAX_ARCHIVE_BYTES then artifact_err (str_msg ''artifact exceeds size limit: %s'' p)
                else
                  let canonical = ov_realpath os p; name = basename canonical in
                  if canonical \<noteq> p then artifact_err (str_msg ''artifact path must be canonical: %s'' p)
                  else if is_inside canonical repo_root then artifact_err (str_msg ''artifact must be outside repository: %s'' p)
                  else if \<not> endswith name ''.zip'' then artifact_err (str_msg ''artifact path must end in .zip: %s'' p)
                  else if kind = Some Receiver \<and> re_fullmatch (receiver_name_regex version_regex) (utf8_points name) = None
                  then artifact_err (str_msg ''receiver artifact filename mismatch: %s'' name)
                  else Inr (canonical, st))
      | _ \<Rightarrow> artifact_err (text_msg ''artifact path must be absolute''))"

fun read_chunks :: "string \<Rightarrow> int \<Rightarrow> string \<Rightarrow> string result list \<Rightarrow> string result" where
  "read_chunks label maximum data [] = Inr data"
| "read_chunks label maximum data (Inl e # cs) = Inl e"
| "read_chunks label maximum data (Inr chunk # cs) =
     (if chunk = [] then Inr data
      else if int (length (data @ chunk)) > maximum then artifact_err (str_msg ''%s exceeds size limit'' label)
      else read_chunks label maximum (data @ chunk) cs)"

definition read_file_no_follow_limited :: "os_view \<Rightarrow> string \<Rightarrow> string \<Rightarrow> int \<Rightarrow> (string \<times> stat) result" where
  "read_file_no_follow_limited os path label maximum =
     (case ov_open os path of
        Inl exc \<Rightarrow>
          if is_OSError exc then artifact_err (Fmt ''%s cannot be opened: %s'' [AV (PStr label), AX exc]) else Inl exc
      | Inr (st, chunks) \<Rightarrow>
          if st_kind st \<noteq> S_IFREG \<or> st_size st \<le> 0 then artifact_err (str_msg ''%s changed while opening'' label)
          else if st_size st > maximum then artifact_err (str_msg ''%s exceeds size limit'' label)
          else rbind (read_chunks label maximum [] chunks) (\<lambda>data.
            if int (length data) \<noteq> st_size st then artifact_err (str_msg ''%s changed while reading'' label)
            else Inr (data, st)))"

section \<open>Members of the archive\<close>

record zip_info =
  zi_filename :: string
  zi_flag_bits :: int
  zi_compress_type :: int
  zi_date_time :: "int list"
  zi_create_system :: int
  zi_external_attr :: int
  zi_extra :: string
  zi_comment :: string
  zi_file_size :: int
  zi_compress_size :: int
  zi_header_offset :: int

abbreviation backslash_char :: char where
  "backslash_char \<equiv> CHR 0x5C"

definition validate_member_name :: "string \<Rightarrow> unit result" where
  "validate_member_name name =
     (if name = [] \<or> name = ''.'' \<or> name = ''..'' then artifact_err (text_msg ''invalid archive member name'')
      else if slash \<in> set name \<or> backslash_char \<in> set name
      then artifact_err (str_msg ''archive member path is not a basename: %r'' name)
      else if contains name ''..'' then artifact_err (str_msg ''archive member traversal name: %r'' name)
      else Inr ())"

text \<open>\<open>ZipInfo.is_dir\<close> looks at the last character of the name.  The total is compared after every member.\<close>

definition check_zip_info :: "int \<Rightarrow> zip_info \<Rightarrow> int result" where
  "check_zip_info sofar info =
     (let name = zi_filename info; bad = (\<lambda>fmt. artifact_err (str_msg fmt name)) in
      rbind (validate_member_name name) (\<lambda>_.
        if endswith name [slash] then bad ''archive contains directory member: %s''
        else if odd (zi_flag_bits info) then bad ''archive contains encrypted member: %s''
        else if zi_flag_bits info \<noteq> 0 then bad ''archive member flags are unsupported: %s''
        else if zi_compress_type info \<noteq> EXPECTED_COMPRESSION then bad ''archive has unsupported compression: %s''
        else if zi_date_time info \<noteq> FIXED_TIMESTAMP then bad ''archive member timestamp mismatch: %s''
        else if zi_create_system info \<noteq> 3 \<or> zi_external_attr info div 65536 \<noteq> EXPECTED_MODE \<or> zi_external_attr info mod 65536 \<noteq> 0
        then bad ''archive member mode mismatch: %s''
        else if zi_extra info \<noteq> [] \<or> zi_comment info \<noteq> [] then bad ''archive member metadata must be empty: %s''
        else if zi_file_size info \<le> 0 \<or> zi_file_size info > MAX_MEMBER_BYTES then bad ''archive member size invalid: %s''
        else if zi_compress_size info \<le> 0 \<or> zi_compress_size info > MAX_MEMBER_BYTES
        then bad ''archive member compressed size invalid: %s''
        else if zi_header_offset info < 0 then bad ''archive member offset invalid: %s''
        else if sofar + zi_file_size info > MAX_TOTAL_MEMBER_BYTES
        then artifact_err (text_msg ''archive uncompressed data exceeds size limit'')
        else Inr (sofar + zi_file_size info)))"

definition validate_zip_infos :: "zip_info list \<Rightarrow> string list \<Rightarrow> unit result" where
  "validate_zip_infos infos expected =
     (if length infos \<noteq> length expected then artifact_err (text_msg ''archive member count mismatch'')
      else rbind (rfold check_zip_info 0 infos) (\<lambda>_.
        let names = map zi_filename infos in
        if \<not> distinct names then artifact_err (text_msg ''archive contains duplicate member names'')
        else if names \<noteq> expected then artifact_err (text_msg ''archive member set/order mismatch'')
        else Inr ()))"

section \<open>Documents\<close>

text \<open>\<open>except (UnicodeDecodeError, ValueError)\<close> also catches what \<open>int\<close> says of too many digits; \<open>json.loads\<close> keeps the last
  of several equal keys.\<close>

definition load_canonical_json :: "(pyfloat \<Rightarrow> string) \<Rightarrow> string \<Rightarrow> string \<Rightarrow> pydict result" where
  "load_canonical_json frepr raw label =
     (let invalid = (\<lambda>e. artifact_err (Fmt ''%s is not valid UTF-8 JSON: %s'' [AV (PStr label), AX e])) in
      if \<not> utf8_valid raw then invalid UnicodeDecodeError
      else (case json_loads dict_of_pairs raw of
          Inl e \<Rightarrow> invalid e
        | Inr (PDict d) \<Rightarrow>
            if raw \<noteq> json_indent frepr 0 (sort_keys (PDict d)) @ [CHR 0x0A]
            then artifact_err (str_msg ''%s is not canonical JSON'' label)
            else Inr d
        | Inr _ \<Rightarrow> artifact_err (str_msg ''%s must be a JSON object'' label)))"

section \<open>Intel HEX\<close>

definition hex_char_ok :: "char \<Rightarrow> bool" where
  "hex_char_ok c \<longleftrightarrow> byte_in 48 57 c \<or> byte_in 65 70 c \<or> byte_in 97 102 c"

definition hex_char_value :: "char \<Rightarrow> nat" where
  "hex_char_value c = (if byte_in 48 57 c then of_char c - 48 else if byte_in 65 70 c then of_char c - 55 else of_char c - 87)"

text \<open>\<open>bytes.fromhex\<close> of a text with an even number of hexadecimal digits.\<close>

fun from_hex :: "string \<Rightarrow> nat list" where
  "from_hex (a # b # cs) = (16 * hex_char_value a + hex_char_value b) # from_hex cs"
| "from_hex _ = []"

abbreviation hex_err :: "string \<Rightarrow> string \<Rightarrow> 'a result" where
  "hex_err label fmt \<equiv> artifact_err (str_msg fmt label)"

definition check_hex_record :: "string \<Rightarrow> nat \<Rightarrow> nat list \<Rightarrow> nat result" where
  "check_hex_record label eof_count record_bytes =
     (if length record_bytes < 5 then hex_err label ''%s record is too short''
      else
        let declared = record_bytes ! 0; address = record_bytes ! 1 * 256 + record_bytes ! 2; record_type = record_bytes ! 3 in
        if length (butlast (drop 4 record_bytes)) \<noteq> declared then hex_err label ''%s byte-count mismatch''
        else if sum_list record_bytes mod 256 \<noteq> 0 then hex_err label ''%s record checksum does not sum to zero''
        else if record_type = 1
        then (if declared \<noteq> 0 \<or> address \<noteq> 0 then hex_err label ''%s malformed EOF record'' else Inr (Suc eof_count))
        else if eof_count \<noteq> 0 then hex_err label ''%s record appears after EOF''
        else Inr eof_count)"

definition check_hex_line :: "string \<Rightarrow> nat \<Rightarrow> string \<Rightarrow> nat result" where
  "check_hex_line label eof_count raw_line =
     (let line = (if endswith raw_line [CHR 0x0D] then butlast raw_line else raw_line); body = tl line in
      if strip line = [] then hex_err label ''%s contains a blank record''
      else if \<not> startswith line '':'' then hex_err label (''%s record does not start with '' @ [CHR 0x27] @ '':'' @ [CHR 0x27])
      else if odd (length body) \<or> \<not> list_all hex_char_ok body then hex_err label ''%s record is not valid hexadecimal''
      else check_hex_record label eof_count (from_hex body))"

definition hex_lines :: "string \<Rightarrow> string list" where
  "hex_lines raw = (let lines = split_on (CHR 0x0A) raw in if lines \<noteq> [] \<and> last lines = [] then butlast lines else lines)"

definition validate_hex_bytes :: "string \<Rightarrow> string \<Rightarrow> unit result" where
  "validate_hex_bytes raw label =
     (if \<not> is_ascii raw then hex_err label ''%s is not ASCII text''
      else if hex_lines raw = [] then hex_err label ''%s contains no records''
      else rbind (rfold (check_hex_line label) 0 (hex_lines raw)) (\<lambda>eof_count.
        if eof_count \<noteq> 1 then hex_err label ''%s must contain exactly one EOF record'' else Inr ()))"

section \<open>Checksums and the image manifest\<close>

type_synonym members = "(string \<times> string) list"

definition member_bytes :: "members \<Rightarrow> string \<Rightarrow> string result" where
  "member_bytes data name = (case map_of data name of None \<Rightarrow> Inl (KeyError (PStr name)) | Some b \<Rightarrow> Inr b)"

definition parse_sums :: "(string \<Rightarrow> string) \<Rightarrow> string \<Rightarrow> string list \<Rightarrow> members \<Rightarrow> (string \<times> string) list result" where
  "parse_sums digest raw expected_names data =
     (if \<not> is_ascii raw then artifact_err (text_msg ''SHA256SUMS is not ASCII'')
      else
        rbind (rmap (\<lambda>name. rbind (member_bytes data name) (\<lambda>b. Inr (digest b @ ''  '' @ name))) (sort expected_names)) (\<lambda>lines.
          if raw \<noteq> join_sep [CHR 0x0A] lines @ [CHR 0x0A] then artifact_err (text_msg ''SHA256SUMS contract mismatch'')
          else rmap (\<lambda>name. rbind (member_bytes data name) (\<lambda>b. Inr (name, digest b))) expected_names))"

definition is_commit :: "pyval \<Rightarrow> bool" where
  "is_commit v = (case v of PStr s \<Rightarrow> length s = 40 \<and> list_all hex_digit s | _ \<Rightarrow> False)"

text \<open>\<open>str.isdigit\<close> holds of more characters than \<open>int\<close> reads, so that \<open>int (part)\<close> may raise; \<open>dig\<close> is its property of code
  points.\<close>

fun ncs_parts :: "ucd \<Rightarrow> (nat \<Rightarrow> bool) \<Rightarrow> string list \<Rightarrow> bool result" where
  "ncs_parts u dig [] = Inr True"
| "ncs_parts u dig (part # parts) =
     (if part = [] \<or> \<not> list_all dig (utf8_points part) then Inr False
      else if \<not> list_all (is_decimal u) (utf8_points part) then Inl (ValueError (str_msg ''invalid literal for int() with base 10: %r'' part))
      else rbind (int_of_points u (utf8_points part)) (\<lambda>i. if dec_of_int i \<noteq> part then Inr False else ncs_parts u dig parts))"

definition is_ncs :: "ucd \<Rightarrow> (nat \<Rightarrow> bool) \<Rightarrow> pyval \<Rightarrow> bool result" where
  "is_ncs u dig v =
     (case v of
        PStr (c # s) \<Rightarrow>
          if c \<noteq> CHR ''v'' then Inr False
          else (let parts = split_on (CHR ''.'') s in if length parts \<noteq> 3 then Inr False else ncs_parts u dig parts)
      | _ \<Rightarrow> Inr False)"

fun is_PInt :: "pyval \<Rightarrow> bool" where
  "is_PInt (PInt _) = True"
| "is_PInt _ = False"

definition RECEIVER_ROOT :: "string list" where
  "RECEIVER_ROOT = [''git_commit'', ''images'', ''ncs_version'', ''project'', ''schema_version'', ''target'', ''version'']"

definition SOURCE_ROOT :: "string list" where
  "SOURCE_ROOT = [''board'', ''firmware_id'', ''git_commit'', ''images'', ''ncs_version'', ''schema_version'']"

definition RECEIVER_TARGET :: pyval where
  "RECEIVER_TARGET = PDict [(''board'', PStr ''nrf54l15dk/nrf54l15/cpuapp''), (''id'', PStr ''nrf54l15-xiao'')]"

definition same_keys :: "pydict \<Rightarrow> string list \<Rightarrow> bool" where
  "same_keys d ks \<longleftrightarrow> set (dict_keys d) = set ks"

definition version_ok :: "pyval \<Rightarrow> bool" where
  "version_ok v = (case v of PStr s \<Rightarrow> re_fullmatch VERSION_RE (utf8_points s) \<noteq> None | _ \<Rightarrow> False)"

text \<open>\<open>not _is_commit (...) or not _is_ncs (...)\<close>: the second test runs only when the first holds.\<close>

definition provenance_ok :: "ucd \<Rightarrow> (nat \<Rightarrow> bool) \<Rightarrow> pydict \<Rightarrow> bool result" where
  "provenance_ok u dig d =
     (if is_commit (dict_get d ''git_commit'') then is_ncs u dig (dict_get d ''ncs_version'') else Inr False)"

definition check_receiver_root :: "ucd \<Rightarrow> (nat \<Rightarrow> bool) \<Rightarrow> pydict \<Rightarrow> unit result" where
  "check_receiver_root u dig d =
     (if \<not> same_keys d RECEIVER_ROOT then artifact_err (text_msg ''receiver manifest key set mismatch'')
      else if \<not> is_PInt (dict_get d ''schema_version'') \<or> dict_get d ''schema_version'' \<noteq> PInt 1 \<or> dict_get d ''project'' \<noteq> PStr ''le-audio-receiver''
      then artifact_err (text_msg ''receiver manifest schema/project mismatch'')
      else if \<not> version_ok (dict_get d ''version'') then artifact_err (text_msg ''receiver manifest version invalid'')
      else rbind (provenance_ok u dig d) (\<lambda>ok.
        if \<not> ok then artifact_err (text_msg ''receiver manifest provenance invalid'')
        else if \<not> py_eq (dict_get d ''target'') RECEIVER_TARGET then artifact_err (text_msg ''receiver manifest target mismatch'')
        else Inr ()))"

definition check_source_root :: "ucd \<Rightarrow> (nat \<Rightarrow> bool) \<Rightarrow> pydict \<Rightarrow> unit result" where
  "check_source_root u dig d =
     (if \<not> same_keys d SOURCE_ROOT then artifact_err (text_msg ''source manifest key set mismatch'')
      else if \<not> is_PInt (dict_get d ''schema_version'') \<or> dict_get d ''schema_version'' \<noteq> PInt 2
      then artifact_err (text_msg ''source manifest schema mismatch'')
      else if dict_get d ''board'' \<noteq> PStr ''nrf54l15dk/nrf54l15/cpuapp'' then artifact_err (text_msg ''source manifest board mismatch'')
      else if dict_get d ''firmware_id'' \<noteq> PStr ''le-audio-hil-source-rh1''
      then artifact_err (text_msg ''source manifest firmware id mismatch'')
      else rbind (provenance_ok u dig d) (\<lambda>ok.
        if \<not> ok then artifact_err (text_msg ''source manifest provenance invalid'')
        else if dict_get d ''ncs_version'' \<noteq> PStr ''v3.4.1''
        then artifact_err (text_msg ''source manifest NCS version mismatch (expected v3.4.1)'')
        else Inr ()))"

definition build_path :: "string \<Rightarrow> string option" where
  "build_path = map_of
     [(''cpuapp.hex'', ''nrf54l15/le-audio-receiver/zephyr/zephyr.hex''), (''flpr.hex'', ''nrf54l15/flpr/zephyr/zephyr.hex'')]"

definition IMAGE_KEYS :: "string list" where
  "IMAGE_KEYS = [''filename'', ''flash_order'', ''role'', ''sha256'', ''size'']"

definition image_fields :: "expected_image \<Rightarrow> pydict" where
  "image_fields e =
     [(''filename'', PStr (ei_filename e)), (''flash_order'', PInt (ei_flash_order e)), (''role'', PStr (ei_role e)),
      (''sha256'', PStr (ei_sha256 e)), (''size'', PInt (ei_size e))]"

definition check_image :: "artifact_kind \<Rightarrow> pyval \<times> expected_image \<Rightarrow> unit result" where
  "check_image kind re =
     (case re of
        (PDict r, e) \<Rightarrow>
          if \<not> same_keys r (IMAGE_KEYS @ (if kind = Receiver then [''original_build_path''] else []))
          then artifact_err (text_msg ''artifact manifest image key set mismatch'')
          else if \<not> isinstance_str (dict_get r ''filename'') \<or> \<not> is_PInt (dict_get r ''flash_order'') \<or> \<not> isinstance_str (dict_get r ''role'') \<or>
                  \<not> isinstance_str (dict_get r ''sha256'') \<or> \<not> is_PInt (dict_get r ''size'')
          then artifact_err (text_msg ''artifact manifest image field type mismatch'')
          else if \<exists>kv \<in> set (image_fields e). \<not> py_eq (dict_get r (fst kv)) (snd kv)
          then artifact_err (str_msg ''artifact manifest image mismatch: %s'' (ei_filename e))
          else if kind \<noteq> Receiver then Inr ()
          else (case build_path (ei_filename e) of
              None \<Rightarrow> Inl (KeyError (PStr (ei_filename e)))
            | Some p \<Rightarrow>
                if dict_get r ''original_build_path'' \<noteq> PStr p
                then artifact_err (text_msg ''receiver manifest original build path invalid'') else Inr ())
      | _ \<Rightarrow> artifact_err (text_msg ''artifact manifest image is not an object''))"

definition validate_image_manifest :: "ucd \<Rightarrow> (nat \<Rightarrow> bool) \<Rightarrow> artifact_kind \<Rightarrow> pydict \<Rightarrow> expected_image list \<Rightarrow> unit result" where
  "validate_image_manifest u dig kind d expected =
     rbind (case kind of Receiver \<Rightarrow> check_receiver_root u dig d | Source \<Rightarrow> check_source_root u dig d) (\<lambda>_.
       case dict_get d ''images'' of
         PList images \<Rightarrow>
           if length images \<noteq> length expected then artifact_err (text_msg ''artifact manifest images invalid'')
           else rall (check_image kind) (zip images expected)
       | _ \<Rightarrow> artifact_err (text_msg ''artifact manifest images invalid''))"

section \<open>One archive\<close>

text \<open>What \<open>zipfile\<close> says of the bytes.  Besides \<open>BadZipFile\<close> its calls may raise other exceptions.\<close>

record zip_file =
  zf_comment :: string
  zf_infos :: "zip_info list"
  zf_testzip :: "string option result"
  zf_read :: "zip_info \<Rightarrow> string result"

text \<open>The surroundings of one resolution: the SHA-256 digest, the ZIP reader, the printer of floats and the character database.\<close>

record artifact_env =
  ae_digest :: "string \<Rightarrow> string"
  ae_zip :: "string \<Rightarrow> zip_file result"
  ae_frepr :: "pyfloat \<Rightarrow> string"
  ae_ucd :: ucd
  ae_isdigit :: "nat \<Rightarrow> bool"
  ae_repo_root :: string

fun is_read_failure :: "exn \<Rightarrow> bool" where
  "is_read_failure (OSError _) = True"
| "is_read_failure (RuntimeError _) = True"
| "is_read_failure (BadZipFile _) = True"
| "is_read_failure _ = False"

definition read_member :: "zip_file \<Rightarrow> zip_info \<Rightarrow> (string \<times> string) result" where
  "read_member zf info =
     (case zf_read zf info of
        Inl exc \<Rightarrow> if is_read_failure exc then artifact_err (exn_msg ''archive member CRC/read failure: %s'' exc) else Inl exc
      | Inr payload \<Rightarrow>
          if int (length payload) \<noteq> zi_file_size info
          then artifact_err (str_msg ''archive member size changed: %s'' (zi_filename info))
          else Inr (zi_filename info, payload))"

definition read_members :: "zip_file \<Rightarrow> string list \<Rightarrow> members result" where
  "read_members zf expected =
     (if zf_comment zf \<noteq> [] then artifact_err (text_msg ''archive comment is not allowed'')
      else rbind (validate_zip_infos (zf_infos zf) expected) (\<lambda>_.
        rbind (zf_testzip zf) (\<lambda>bad.
          if bad \<noteq> None then artifact_err (text_msg ''archive member CRC/read failure'')
          else rmap (read_member zf) (zf_infos zf))))"

definition open_members :: "artifact_env \<Rightarrow> string \<Rightarrow> string list \<Rightarrow> members result" where
  "open_members env raw expected =
     (case rbind (ae_zip env raw) (\<lambda>zf. read_members zf expected) of
        Inl (BadZipFile m) \<Rightarrow> artifact_err (exn_msg ''invalid ZIP artifact: %s'' (BadZipFile m))
      | r \<Rightarrow> r)"

definition members_of :: "artifact_kind \<Rightarrow> string list" where
  "members_of kind = (case kind of Receiver \<Rightarrow> RECEIVER_MEMBERS | Source \<Rightarrow> SOURCE_MEMBERS)"

definition image_roles :: "artifact_kind \<Rightarrow> (string \<times> string \<times> int) list" where
  "image_roles kind =
     (case kind of
        Receiver \<Rightarrow> [(''cpuapp.hex'', ''cpuapp'', 0), (''flpr.hex'', ''flpr'', 1)]
      | Source \<Rightarrow> [(''cpuapp.hex'', ''cpuapp'', 0)])"

definition manifest_name :: "artifact_kind \<Rightarrow> string" where
  "manifest_name kind = (case kind of Receiver \<Rightarrow> ''release-manifest.json'' | Source \<Rightarrow> ''source-manifest.json'')"

definition validate_note :: "string \<Rightarrow> unit result" where
  "validate_note b = (if utf8_valid b then Inr () else artifact_err (text_msg ''FLASHING.md is not valid UTF-8''))"

definition expect_image :: "(string \<Rightarrow> string) \<Rightarrow> artifact_kind \<Rightarrow> members \<Rightarrow> string \<times> string \<times> int \<Rightarrow> expected_image result" where
  "expect_image digest kind data img =
     (case img of (filename, role, flash_order) \<Rightarrow>
        rbind (member_bytes data filename) (\<lambda>payload.
        rbind (validate_hex_bytes payload (kind_name kind @ '' '' @ role @ '' image'')) (\<lambda>_.
          Inr \<lparr>ei_filename = filename, ei_flash_order = flash_order, ei_role = role, ei_sha256 = digest payload,
               ei_size = int (length payload)\<rparr>)))"

definition filename_version :: "string \<Rightarrow> nat list result" where
  "filename_version name =
     (case re_fullmatch (receiver_name_regex (plus dot)) (utf8_points name) of
        None \<Rightarrow> artifact_err (text_msg ''receiver artifact filename mismatch'')
      | Some m \<Rightarrow> Inr (case group_of m 1 of None \<Rightarrow> [] | Some v \<Rightarrow> v))"

definition check_filename_version :: "artifact_kind \<Rightarrow> string \<Rightarrow> pydict \<Rightarrow> unit result" where
  "check_filename_version kind archive_path manifest =
     (if kind \<noteq> Receiver then Inr ()
      else rbind (filename_version (basename archive_path)) (\<lambda>version.
        case dict_get manifest ''version'' of
          PStr v \<Rightarrow>
            if utf8_points v \<noteq> version then artifact_err (text_msg ''receiver artifact filename/version mismatch'') else Inr ()
        | _ \<Rightarrow> artifact_err (text_msg ''receiver artifact filename/version mismatch'')))"

definition check_members ::
  "artifact_env \<Rightarrow> artifact_kind \<Rightarrow> string \<Rightarrow> members \<Rightarrow> (pydict \<times> expected_image list \<times> (string \<times> string) list) result" where
  "check_members env kind archive_path data =
     rbind (if kind = Receiver then rbind (member_bytes data ''FLASHING.md'') validate_note else Inr ()) (\<lambda>_.
     rbind (rbind (member_bytes data (manifest_name kind)) (\<lambda>b. load_canonical_json (ae_frepr env) b (manifest_name kind))) (\<lambda>manifest.
     rbind (rmap (expect_image (ae_digest env) kind data) (image_roles kind)) (\<lambda>expected.
     rbind (validate_image_manifest (ae_ucd env) (ae_isdigit env) kind manifest expected) (\<lambda>_.
     rbind (check_filename_version kind archive_path manifest) (\<lambda>_.
     rbind (rbind (member_bytes data ''SHA256SUMS'') (\<lambda>b.
         parse_sums (ae_digest env) b (filter (\<lambda>n. n \<noteq> ''SHA256SUMS'') (members_of kind)) data)) (\<lambda>sums_of.
       Inr (manifest, expected, sums_of)))))))"

type_synonym resolved = "artifact_identity \<times> members \<times> expected_image list"

definition resolve_one :: "artifact_env \<Rightarrow> os_view \<Rightarrow> pyval \<Rightarrow> artifact_kind \<Rightarrow> resolved result" where
  "resolve_one env os path kind =
     rbind (validate_archive_path os (ae_repo_root env) path (Some kind)) (\<lambda>(archive_path, pre_stat).
     rbind (read_file_no_follow_limited os archive_path (kind_name kind @ '' artifact'') MAX_ARCHIVE_BYTES) (\<lambda>(raw, opened_stat).
       if st_dev opened_stat \<noteq> st_dev pre_stat \<or> st_ino opened_stat \<noteq> st_ino pre_stat
       then artifact_err (str_msg ''%s artifact changed before read'' (kind_name kind))
       else if int (length raw) \<noteq> st_size pre_stat
       then artifact_err (str_msg ''%s artifact changed while reading'' (kind_name kind))
       else
         rbind (open_members env raw (members_of kind)) (\<lambda>data.
         rbind (check_members env kind archive_path data) (\<lambda>(manifest, expected, sums_of).
           Inr (\<lparr>id_kind = kind, id_archive_path = archive_path, id_outer_sha256 = ae_digest env raw, id_size = int (length raw),
                 id_manifest = manifest, id_member_sha256 = sums_of\<rparr>, data, expected)))))"

text \<open>The archive is read twice: for its hash and, in a later view, for its contract.  Mappings compare as maps.\<close>

definition same_map :: "('k \<times> 'v) list \<Rightarrow> ('k \<times> 'v) list \<Rightarrow> bool" where
  "same_map a b \<longleftrightarrow> (\<forall>k \<in> set (map fst a) \<union> set (map fst b). map_of a k = map_of b k)"

definition read_verified_archive :: "artifact_env \<Rightarrow> os_view \<Rightarrow> os_view \<Rightarrow> artifact_identity \<Rightarrow> string result" where
  "read_verified_archive env os os' identity =
     (let kind = id_kind identity; changed = (\<lambda>fmt. artifact_err (str_msg fmt (kind_name kind))) in
      rbind (validate_archive_path os (ae_repo_root env) (PStr (id_archive_path identity)) (Some kind)) (\<lambda>(path, pre_stat).
      rbind (read_file_no_follow_limited os path (kind_name kind @ '' artifact'') MAX_ARCHIVE_BYTES) (\<lambda>(raw, opened_stat).
        if st_dev opened_stat \<noteq> st_dev pre_stat \<or> st_ino opened_stat \<noteq> st_ino pre_stat \<or> int (length raw) \<noteq> st_size pre_stat
        then changed ''%s artifact changed before evidence copy''
        else if ae_digest env raw \<noteq> id_outer_sha256 identity \<or> int (length raw) \<noteq> id_size identity
        then changed ''%s artifact changed after validation''
        else rbind (resolve_one env os' (PStr path) kind) (\<lambda>(validated, _, _).
          if id_outer_sha256 validated \<noteq> id_outer_sha256 identity \<or> id_size validated \<noteq> id_size identity \<or>
             \<not> py_eq (PDict (id_manifest validated)) (PDict (id_manifest identity)) \<or>
             \<not> same_map (id_member_sha256 validated) (id_member_sha256 identity)
          then changed ''%s artifact contract changed after validation''
          else Inr raw))))"

section \<open>Staging\<close>

text \<open>The private staging directory: whether it is there, and its entries.\<close>

record staging =
  sg_there :: bool
  sg_world :: dir_world

text \<open>\<open>os.open (path, O_WRONLY | O_CREAT | O_EXCL)\<close>.\<close>

definition os_create :: "io_script \<Rightarrow> string \<Rightarrow> unit io" where
  "os_create sc name =
     plain_call sc (\<lambda>v. if look v name = None then (dir_put v name (Regular []), Inr ()) else (v, Inl EEXIST))"

definition write_staged :: "io_script \<Rightarrow> string \<Rightarrow> string \<Rightarrow> string \<Rightarrow> unit io" where
  "write_staged sc path name data =
     io_bind (os_create sc name) (\<lambda>_.
     io_bind (io_finally (io_bind (write_file sc name data) (\<lambda>_. other_call sc)) (other_call sc)) (\<lambda>_.
     io_bind (plain_call sc (\<lambda>v. (v, case look v name of None \<Rightarrow> Inl ENOENT | Some st \<Rightarrow> Inr st))) (\<lambda>st.
       if (case st of Regular b \<Rightarrow> length b \<noteq> length data | _ \<Rightarrow> True)
       then io_raise (ArtifactError (str_msg ''staged image validation failed: %s'' path))
       else io_catch (other_call sc) (\<lambda>exc.
         io_raise (if is_OSError exc then ArtifactError (exn_msg ''cannot protect staged image: %s'' exc) else exc)))))"

definition stage_image :: "io_script \<Rightarrow> string \<Rightarrow> string \<Rightarrow> members \<Rightarrow> expected_image \<Rightarrow> artifact_image io" where
  "stage_image sc root_dir pre data img =
     (let name = pre @ ei_filename img; path = path_join root_dir name in
      io_bind (io_lift (member_bytes data (ei_filename img))) (\<lambda>b.
      io_bind (write_staged sc path name b) (\<lambda>_.
        io_return \<lparr>im_role = ei_role img, im_filename = ei_filename img, im_flash_order = ei_flash_order img,
          im_sha256 = ei_sha256 img, im_size = ei_size img, im_path = path\<rparr>)))"

definition validate_staging_parent :: "(string \<Rightarrow> bool) \<Rightarrow> (string \<Rightarrow> bool) \<Rightarrow> (string \<Rightarrow> string) \<Rightarrow> string \<Rightarrow> string \<Rightarrow> pyval \<Rightarrow> string result" where
  "validate_staging_parent is_dir is_link realp gettempdir repo_root parent =
     (case (case parent of PNone \<Rightarrow> PStr gettempdir | v \<Rightarrow> v) of
        PStr p \<Rightarrow>
          if \<not> isabs p then artifact_err (text_msg ''staging parent must be an absolute path'')
          else if \<not> is_dir p \<or> is_link p then artifact_err (text_msg ''staging parent must be existing real directory'')
          else if realp p \<noteq> p then artifact_err (text_msg ''staging parent must be canonical'')
          else if is_inside p repo_root then artifact_err (text_msg ''staging parent must be outside repository'')
          else Inr p
      | _ \<Rightarrow> artifact_err (text_msg ''staging parent must be an absolute path''))"

text \<open>\<open>rmtree (ignore_errors=True)\<close>: a refused removal leaves the directory.\<close>

definition remove_staging :: "io_script \<Rightarrow> staging \<Rightarrow> staging" where
  "remove_staging sc sg =
     (case disturb sc (dw_tick (sg_world sg)) of
        Refuse _ \<Rightarrow> sg\<lparr>sg_world := tick (sg_world sg)\<rparr>
      | _ \<Rightarrow> \<lparr>sg_there = False, sg_world = \<lparr>dw_entries = [], dw_tick = Suc (dw_tick (sg_world sg))\<rparr>\<rparr>)"

definition stage_all ::
  "io_script \<Rightarrow> string \<Rightarrow> resolved \<Rightarrow> resolved \<Rightarrow> (artifact_image list \<times> artifact_image list) io" where
  "stage_all sc root_dir rec src =
     io_bind (io_map (stage_image sc root_dir ''receiver-'' (fst (snd rec))) (snd (snd rec))) (\<lambda>ri.
     io_bind (io_map (stage_image sc root_dir ''source-'' (fst (snd src))) (snd (snd src))) (\<lambda>si.
       io_return (ri, si)))"

definition make_staging :: "io_script \<Rightarrow> staging \<Rightarrow> staging \<times> unit result" where
  "make_staging sc sg =
     (let made = \<lparr>sg_there = True, sg_world = \<lparr>dw_entries = [], dw_tick = Suc (dw_tick (sg_world sg))\<rparr>\<rparr> in
      case disturb sc (dw_tick (sg_world sg)) of
        Calm \<Rightarrow> (made, Inr ())
      | Refuse e \<Rightarrow> (sg\<lparr>sg_world := tick (sg_world sg)\<rparr>, Inl e)
      | Late e \<Rightarrow> (made, Inl e))"

text \<open>\<open>mkdtemp\<close> and the following \<open>chmod\<close> are the calls at the first two ticks; both stand before the \<open>try\<close>.  \<open>root_dir\<close> is the
  path of the new directory.\<close>

definition stage_resolved :: "io_script \<Rightarrow> string \<Rightarrow> resolved \<Rightarrow> resolved \<Rightarrow> staging \<Rightarrow> staging \<times> artifact_set result" where
  "stage_resolved sc root_dir rec src sg =
     (case make_staging sc sg of
        (sg1, Inl e) \<Rightarrow> (sg1, Inl e)
      | (sg1, Inr _) \<Rightarrow>
          (case other_call sc (sg_world sg1) of
             (w2, Inl e) \<Rightarrow> (sg1\<lparr>sg_world := w2\<rparr>, Inl e)
           | (w2, Inr _) \<Rightarrow>
               (case stage_all sc root_dir rec src w2 of
                  (w3, Inl e) \<Rightarrow> (remove_staging sc (sg1\<lparr>sg_world := w3\<rparr>), Inl e)
                | (w3, Inr (ri, si)) \<Rightarrow>
                    (sg1\<lparr>sg_world := w3\<rparr>,
                     Inr \<lparr>as_receiver = fst rec, as_source = fst src, as_receiver_images = ri, as_source_images = si,
                          as_staging_root = root_dir, as_token = True\<rparr>))))"

definition resolve_artifacts ::
  "artifact_env \<Rightarrow> os_view \<Rightarrow> os_view \<Rightarrow> (pyval \<Rightarrow> string result) \<Rightarrow> (string \<Rightarrow> string) \<Rightarrow> io_script \<Rightarrow>
   pyval \<Rightarrow> pyval \<Rightarrow> pyval \<Rightarrow> staging \<Rightarrow> staging \<times> artifact_set result" where
  "resolve_artifacts env os1 os2 parent_of fresh_dir sc receiver_artifact source_artifact staging_parent sg =
     (case rbind (resolve_one env os1 receiver_artifact Receiver) (\<lambda>rec.
           rbind (resolve_one env os2 source_artifact Source) (\<lambda>src.
           rbind (parent_of staging_parent) (\<lambda>parent. Inr (rec, src, parent)))) of
        Inl e \<Rightarrow> (sg, Inl e)
      | Inr (rec, src, parent) \<Rightarrow> stage_resolved sc (fresh_dir parent) rec src sg)"

section \<open>Revalidation\<close>

definition identity_ok :: "artifact_env \<Rightarrow> artifact_kind \<Rightarrow> artifact_identity \<Rightarrow> unit result" where
  "identity_ok env kind identity =
     (let d = id_manifest identity in
      if id_kind identity \<noteq> kind then artifact_err (text_msg ''artifact identity kind mismatch'')
      else if length (utf8_points (id_outer_sha256 identity)) \<noteq> 64 \<or> id_size identity \<le> 0
      then artifact_err (text_msg ''artifact identity shape mismatch'')
      else rbind (provenance_ok (ae_ucd env) (ae_isdigit env) d) (\<lambda>ok.
        if \<not> ok then artifact_err (text_msg ''artifact identity provenance mismatch'')
        else if kind = Receiver
        then (if \<not> version_ok (dict_get d ''version'') then artifact_err (text_msg ''receiver artifact identity version missing'') else Inr ())
        else if \<not> py_eq (dict_get d ''schema_version'') (PInt 2) \<or> dict_get d ''board'' \<noteq> PStr ''nrf54l15dk/nrf54l15/cpuapp'' \<or>
                dict_get d ''ncs_version'' \<noteq> PStr ''v3.4.1'' \<or> dict_get d ''firmware_id'' \<noteq> PStr ''le-audio-hil-source-rh1''
        then artifact_err (text_msg ''source artifact identity mismatch'')
        else Inr ()))"

definition images_ok :: "artifact_kind \<Rightarrow> artifact_image list \<Rightarrow> unit result" where
  "images_ok kind images =
     (if length images \<noteq> length (image_roles kind) then artifact_err (text_msg ''artifact image tuple mismatch'')
      else rall (\<lambda>(i, filename, role, order).
        require (im_role i = role \<and> im_filename i = filename \<and> im_flash_order i = order \<and>
            length (utf8_points (im_sha256 i)) = 64 \<and> im_size i > 0)
          (ArtifactError (text_msg ''artifact image role/order mismatch''))) (zip images (image_roles kind)))"

definition validate_artifact_set_shape :: "artifact_env \<Rightarrow> (string \<Rightarrow> string) \<Rightarrow> artifact_set \<Rightarrow> unit result" where
  "validate_artifact_set_shape env realp arts =
     (if \<not> isabs (as_staging_root arts) \<or> is_inside (realp (as_staging_root arts)) (ae_repo_root env)
      then artifact_err (text_msg ''artifact staging root must be outside repository'')
      else
        rbind (identity_ok env Receiver (as_receiver arts)) (\<lambda>_.
        rbind (images_ok Receiver (as_receiver_images arts)) (\<lambda>_.
        rbind (identity_ok env Source (as_source arts)) (\<lambda>_.
          images_ok Source (as_source_images arts)))))"

definition validate_artifact_set :: "artifact_env \<Rightarrow> (string \<Rightarrow> string) \<Rightarrow> artifact_set \<Rightarrow> unit result" where
  "validate_artifact_set env realp arts =
     (if \<not> as_token arts then artifact_err (text_msg ''artifacts must be an ArtifactSet'')
      else validate_artifact_set_shape env realp arts)"

text \<open>Each archive is read in one view for its hash and in a later one for its contract.\<close>

definition revalidate_archive :: "artifact_env \<Rightarrow> os_view \<times> os_view \<Rightarrow> artifact_identity \<Rightarrow> unit result" where
  "revalidate_archive env views identity =
     (case views of (os, os') \<Rightarrow>
        let kind = id_kind identity; changed = (\<lambda>fmt. artifact_err (str_msg fmt (kind_name kind))) in
        rbind (validate_archive_path os (ae_repo_root env) (PStr (id_archive_path identity)) (Some kind)) (\<lambda>(path, _).
        rbind (read_file_no_follow_limited os path (kind_name kind @ '' artifact'') MAX_ARCHIVE_BYTES) (\<lambda>(raw, _).
          if ae_digest env raw \<noteq> id_outer_sha256 identity \<or> int (length raw) \<noteq> id_size identity
          then changed ''%s artifact changed after validation''
          else rbind (resolve_one env os' (PStr path) kind) (\<lambda>(validated, _, _).
            if id_outer_sha256 validated \<noteq> id_outer_sha256 identity \<or>
               \<not> py_eq (PDict (id_manifest validated)) (PDict (id_manifest identity)) \<or>
               \<not> same_map (id_member_sha256 validated) (id_member_sha256 identity)
            then changed ''%s artifact contract changed after validation''
            else Inr ()))))"

definition revalidate_image :: "artifact_env \<Rightarrow> os_view \<Rightarrow> artifact_image \<Rightarrow> unit result" where
  "revalidate_image env os img =
     (if \<not> isabs (im_path img) \<or> is_inside (ov_realpath os (im_path img)) (ae_repo_root env)
      then artifact_err (text_msg ''staged image path is unsafe'')
      else (case ov_lstat os (im_path img) of
          Inl exc \<Rightarrow> if is_OSError exc then artifact_err (exn_msg ''staged image missing: %s'' exc) else Inl exc
        | Inr st \<Rightarrow>
            if st_kind st \<noteq> S_IFREG \<or> st_size st \<noteq> im_size img \<or> st_perm st \<noteq> 256
            then artifact_err (str_msg ''staged image changed after validation: %s'' (im_filename img))
            else rbind (read_file_no_follow_limited os (im_path img) ''staged image'' MAX_MEMBER_BYTES) (\<lambda>(b, _).
              if ae_digest env b \<noteq> im_sha256 img then artifact_err (str_msg ''staged image hash drift: %s'' (im_filename img))
              else Inr ())))"

definition revalidate_artifact_set ::
  "artifact_env \<Rightarrow> (string \<Rightarrow> string) \<Rightarrow> (os_view \<times> os_view) \<Rightarrow> (os_view \<times> os_view) \<Rightarrow> os_view \<Rightarrow> artifact_set \<Rightarrow> unit result" where
  "revalidate_artifact_set env realp rviews sviews os arts =
     rbind (validate_artifact_set env realp arts) (\<lambda>_.
     rbind (revalidate_archive env rviews (as_receiver arts)) (\<lambda>_.
     rbind (revalidate_archive env sviews (as_source arts)) (\<lambda>_.
       rall (revalidate_image env os) (as_receiver_images arts @ as_source_images arts))))"

text \<open>\<open>is_dir\<close> and \<open>exists_link\<close> are \<open>os.path.isdir\<close> and \<open>os.path.lexists\<close>; the removal is the call at the current tick.\<close>

definition cleanup_artifacts ::
  "artifact_env \<Rightarrow> (string \<Rightarrow> string) \<Rightarrow> (string \<Rightarrow> bool) \<Rightarrow> io_script \<Rightarrow> artifact_set \<Rightarrow> staging \<Rightarrow> staging \<times> unit result" where
  "cleanup_artifacts env realp is_dir sc arts sg =
     (let rt = as_staging_root arts; invalid = artifact_err (text_msg ''invalid artifact staging root'') in
      if \<not> as_token arts then (sg, Inl (TypeError (text_msg ''artifacts must be an ArtifactSet'')))
      else if \<not> isabs rt \<or> is_inside (realp rt) (ae_repo_root env) then (sg, invalid)
      else if startswith (basename rt) ''hil-artifacts-'' \<and> is_dir (dirname rt)
      then (if \<not> sg_there sg then (sg, Inl ENOENT)
            else (case disturb sc (dw_tick (sg_world sg)) of
                Refuse e \<Rightarrow> (sg\<lparr>sg_world := tick (sg_world sg)\<rparr>, Inl e)
              | Calm \<Rightarrow> (\<lparr>sg_there = False, sg_world = \<lparr>dw_entries = [], dw_tick = Suc (dw_tick (sg_world sg))\<rparr>\<rparr>, Inr ())
              | Late e \<Rightarrow> (\<lparr>sg_there = False, sg_world = \<lparr>dw_entries = [], dw_tick = Suc (dw_tick (sg_world sg))\<rparr>\<rparr>, Inl e)))
      else if sg_there sg then (sg, invalid)
      else (sg, Inr ()))"

definition image_by_role :: "artifact_image list \<Rightarrow> string \<Rightarrow> artifact_image result" where
  "image_by_role images role =
     (case filter (\<lambda>i. im_role i = role) images of
        [i] \<Rightarrow> Inr i
      | _ \<Rightarrow> artifact_err (str_msg ''artifact image role mismatch: %s'' role))"

text \<open>\<open>ArtifactSet.evidence\<close>.\<close>

definition identity_evidence :: "artifact_identity \<Rightarrow> artifact_image list \<Rightarrow> pyval" where
  "identity_evidence identity images =
     PDict [(''kind'', PStr (kind_name (id_kind identity))), (''archive_filename'', PStr (basename (id_archive_path identity))),
            (''archive_sha256'', PStr (id_outer_sha256 identity)), (''archive_size'', PInt (id_size identity)),
            (''manifest'', PDict (id_manifest identity)),
            (''member_sha256'', PDict (map (\<lambda>(k, v). (k, PStr v)) (id_member_sha256 identity))),
            (''images'', PList (map (\<lambda>i. PDict [(''role'', PStr (im_role i)), (''filename'', PStr (im_filename i)),
               (''flash_order'', PInt (im_flash_order i)), (''sha256'', PStr (im_sha256 i)), (''size'', PInt (im_size i))]) images))]"

definition set_evidence :: "artifact_set \<Rightarrow> pydict" where
  "set_evidence arts =
     [(''receiver'', identity_evidence (as_receiver arts) (as_receiver_images arts)),
      (''source'', identity_evidence (as_source arts) (as_source_images arts))]"

section \<open>Well-formed images\<close>

text \<open>The format that a valid image has: records with the right byte count and checksum, the last one the end-of-file
  record and no other of its type, each on a line of its own in hexadecimal digits of either case after a colon, the line
  ending optionally with a carriage return.\<close>

definition data_record :: "nat list \<Rightarrow> bool" where
  "data_record r \<longleftrightarrow> 5 \<le> length r \<and> r ! 0 = length r - 5 \<and> sum_list r mod 256 = 0 \<and> r ! 3 \<noteq> 1"

definition eof_record :: "nat list" where
  "eof_record = [0, 0, 0, 1, 255]"

definition written_as :: "nat list \<Rightarrow> string \<Rightarrow> bool" where
  "written_as r line \<longleftrightarrow>
     (\<exists>body cr. line = '':'' @ body @ cr \<and> cr \<in> {[], [CHR 0x0D]} \<and> even (length body) \<and> list_all hex_char_ok body \<and> from_hex body = r)"

lemma hex_char_value_less: "hex_char_ok c \<Longrightarrow> hex_char_value c < 16"
  by (auto simp: hex_char_ok_def hex_char_value_def byte_in_def)

lemma from_hex_bytes: "list_all hex_char_ok s \<Longrightarrow> b \<in> set (from_hex s) \<Longrightarrow> b < 256"
proof (induction s rule: from_hex.induct)
  case (1 a c cs)
  then show ?case using hex_char_value_less [of a] hex_char_value_less [of c] by auto
qed simp_all

lemma check_hex_record_Inr:
  assumes "\<forall>b \<in> set r. b < 256"
  shows "check_hex_record label n r = Inr m \<longleftrightarrow>
    (data_record r \<and> n = 0 \<and> m = 0) \<or> (r = eof_record \<and> m = Suc n)"
proof (cases "5 \<le> length r")
  case False
  then show ?thesis by (auto simp: check_hex_record_def data_record_def eof_record_def)
next
  case True
  then obtain a b c d e rest where r: "r = a # b # c # d # e # rest"
    by (auto simp: numeral_eq_Suc Suc_le_length_iff)
  have len: "length (butlast (drop 4 r)) = length r - 5" using True by simp
  have nths: "r ! 0 = a" "r ! 1 = b" "r ! 2 = c" "r ! 3 = d" "r ! Suc 0 = b" by (simp_all add: r)
  have eof: "r = eof_record \<longleftrightarrow> a = 0 \<and> length r = 5 \<and> b * 256 + c = 0 \<and> d = 1 \<and> sum_list r mod 256 = 0" (is "_ \<longleftrightarrow> ?rhs")
  proof
    assume ?rhs
    then have "rest = []" "b = 0" "c = 0" "(1 + e) mod 256 = 0" using r by auto
    moreover have "e < 256" using assms r by simp
    then have "e = 255" using \<open>(1 + e) mod 256 = 0\<close> by presburger
    ultimately show "r = eof_record" using r \<open>?rhs\<close> by (simp add: eof_record_def)
  qed (use r in \<open>auto simp: eof_record_def\<close>)
  have "check_hex_record label n r = Inr m \<longleftrightarrow>
      length r - 5 = a \<and> sum_list r mod 256 = 0 \<and> (if d = 1 then a = 0 \<and> b * 256 + c = 0 \<and> m = Suc n else n = 0 \<and> m = n)"
    using True by (simp add: check_hex_record_def Let_def nths len) (auto split: if_splits)
  moreover have "data_record r \<longleftrightarrow> a = length r - 5 \<and> sum_list r mod 256 = 0 \<and> d \<noteq> 1" using True by (simp add: data_record_def nths)
  ultimately show ?thesis using True eof by (cases "d = 1") auto
qed

lemma endswith_last: "endswith s [c] \<longleftrightarrow> s \<noteq> [] \<and> last s = c"
  by (cases s rule: rev_cases) (auto simp: endswith_iff)

lemma hex_visible: "hex_char_ok c \<Longrightarrow> visible c" "visible (CHR '':'')" "hex_char_ok c \<Longrightarrow> c \<noteq> CHR 0x0D"
  by (auto simp: hex_char_ok_def visible_def byte_in_def)

lemma check_hex_line_Inr:
  "check_hex_line label n line = Inr m \<longleftrightarrow>
     (\<exists>r. written_as r line \<and> check_hex_record label n r = Inr m)"
proof -
  have shape: "check_hex_line label n ('':'' @ body @ cr) = check_hex_record label n (from_hex body)"
    if "cr \<in> {[], [CHR 0x0D]}" "even (length body)" "list_all hex_char_ok body" for body cr
  proof -
    have last: "last ('':'' @ body) \<noteq> CHR 0x0D" "visible (last ('':'' @ body))"
      using that(3) hex_visible by (cases body rule: rev_cases; auto)+
    have line: "(if endswith ('':'' @ body @ cr) [CHR 0x0D] then butlast ('':'' @ body @ cr) else '':'' @ body @ cr) = '':'' @ body"
      using that(1) last(1) by (auto simp: endswith_last butlast_append)
    have "strip ('':'' @ body) = '':'' @ body" using last(2) hex_visible(2) by (intro strip_visible) simp_all
    then show ?thesis using that by (simp only: check_hex_line_def line Let_def) (simp add: startswith_def)
  qed
  have "\<exists>r. written_as r line \<and> check_hex_record label n r = Inr m" if ok: "check_hex_line label n line = Inr m"
  proof -
    define l where "l = (if endswith line [CHR 0x0D] then butlast line else line)"
    have l: "startswith l '':''" "even (length (tl l))" "list_all hex_char_ok (tl l)" "check_hex_record label n (from_hex (tl l)) = Inr m"
      using ok unfolding check_hex_line_def l_def [symmetric] Let_def by (simp_all split: if_splits)
    obtain cr where cr: "line = l @ cr" "cr \<in> {[], [CHR 0x0D]}" 
      by (cases "endswith line [CHR 0x0D]") (auto simp: l_def endswith_last, metis append_butlast_last_id)
    have "l = '':'' @ tl l" using l(1) by (auto simp: startswith_iff)
    with l(2,3) cr have "written_as (from_hex (tl l)) line" unfolding written_as_def by (metis append.assoc)
    with l(4) show ?thesis by blast
  qed
  moreover have "check_hex_line label n line = Inr m" if "written_as r line" "check_hex_record label n r = Inr m" for r
    using that shape unfolding written_as_def by metis
  ultimately show ?thesis by blast
qed

lemma written_bytes: "written_as r line \<Longrightarrow> \<forall>b \<in> set r. b < 256"
  using from_hex_bytes by (auto simp: written_as_def)

text \<open>Once the end of file was read, no line may follow.\<close>

lemma check_lines_after_eof:
  "rfold (check_hex_line label) (Suc n) ls = Inr 1 \<longleftrightarrow> ls = [] \<and> n = 0"
proof (induction ls arbitrary: n)
  case (Cons l ls)
  have "m = Suc (Suc n)" if "check_hex_line label (Suc n) l = Inr m" for m
    using that written_bytes check_hex_record_Inr by (auto simp: check_hex_line_Inr)
  with Cons show ?case by auto
qed auto

lemma check_lines:
  "rfold (check_hex_line label) 0 ls = Inr 1 \<longleftrightarrow>
     (\<exists>body. list_all data_record body \<and> list_all2 written_as (body @ [eof_record]) ls)"
proof (induction ls)
  case (Cons l ls)
  have no_eof: "\<not> data_record eof_record" by (simp add: eof_record_def data_record_def)
  have step: "check_hex_line label 0 l = Inr m \<longleftrightarrow>
      (\<exists>r. written_as r l \<and> (data_record r \<and> m = 0 \<or> r = eof_record \<and> m = 1))" for m
    using written_bytes check_hex_record_Inr [of _ label 0 m] by (auto simp: check_hex_line_Inr)
  have "rfold (check_hex_line label) 0 (l # ls) = Inr 1 \<longleftrightarrow>
      (\<exists>r. written_as r l \<and> data_record r) \<and> rfold (check_hex_line label) 0 ls = Inr 1 \<or> written_as eof_record l \<and> ls = []"
    using check_lines_after_eof [of label 0] by (auto simp: step)
  also have "\<dots> \<longleftrightarrow> (\<exists>body. list_all data_record body \<and> list_all2 written_as (body @ [eof_record]) (l # ls))" (is "?a \<longleftrightarrow> ?b")
  proof
    assume ?a
    then show ?b unfolding Cons.IH
    proof (elim disjE conjE exE)
      fix r body
      assume "written_as r l" "data_record r" "list_all data_record body" "list_all2 written_as (body @ [eof_record]) ls"
      then show ?b by (intro exI [of _ "r # body"]) simp
    next
      assume "written_as eof_record l" "ls = []"
      then show ?b by (intro exI [of _ "[]"]) simp
    qed
  next
    assume ?b
    then obtain body where body: "list_all data_record body" "list_all2 written_as (body @ [eof_record]) (l # ls)" by blast
    then show ?a unfolding Cons.IH by (cases body) auto
  qed
  finally show ?case .
qed simp

section \<open>Properties of the images and of one archive\<close>

text \<open>C27: The Intel HEX validator accepts exactly the well-formed images: ASCII lines that spell records with the right byte
  count and a checksum of zero modulo 256, none of type 1 but the last, which is the end-of-file record
  \<open>:00000001FF\<close>.\<close>

theorem hex_image_exact:
  "validate_hex_bytes raw label = Inr () \<longleftrightarrow>
     is_ascii raw \<and>
     (\<exists>body. list_all data_record body \<and> list_all2 written_as (body @ [eof_record]) (hex_lines raw))"
proof -
  have "hex_lines raw \<noteq> []" if "list_all2 written_as (body @ [eof_record]) (hex_lines raw)" for body
    using that by (auto simp: list_all2_Nil2)
  then show ?thesis using check_lines [of label "hex_lines raw"] by (auto simp: validate_hex_bytes_def)
qed

lemma member_bytes_Inr: "member_bytes data n = Inr b \<longleftrightarrow> map_of data n = Some b"
  by (auto simp: member_bytes_def split: option.splits)

lemma expect_image_Inr:
  "expect_image digest kind data (filename, role, order) = Inr e \<longleftrightarrow>
     (\<exists>b. map_of data filename = Some b \<and> validate_hex_bytes b (kind_name kind @ '' '' @ role @ '' image'') = Inr () \<and>
       e = \<lparr>ei_filename = filename, ei_flash_order = order, ei_role = role, ei_sha256 = digest b, ei_size = int (length b)\<rparr>)"
  by (auto simp: expect_image_def member_bytes_Inr)

lemma read_members_Inr:
  assumes "read_members zf expected = Inr data"
  shows "map fst data = expected \<and> (\<forall>(n, b) \<in> set data. int (length b) \<le> MAX_MEMBER_BYTES \<and> b \<noteq> [])"
proof -
  have infos: "map zi_filename (zf_infos zf) = expected" and all: "\<exists>t. rfold check_zip_info 0 (zf_infos zf) = Inr t"
    and rd: "list_all2 (\<lambda>i p. read_member zf i = Inr p) (zf_infos zf) data"
    using assms by (auto simp: read_members_def validate_zip_infos_def Let_def rmap_eq_Inr split: if_splits)
  have ok: "0 < zi_file_size i \<and> zi_file_size i \<le> MAX_MEMBER_BYTES" if "i \<in> set is" "rfold check_zip_info t is = Inr t'" for i "is" t t'
    using that by (induction "is" arbitrary: t) (auto simp: check_zip_info_def Let_def split: if_splits)
  have "fst p = zi_filename i \<and> int (length (snd p)) = zi_file_size i" if "read_member zf i = Inr p" for i p
    using that by (auto simp: read_member_def split: sum.splits if_splits)
  with rd have f: "list_all2 (\<lambda>i p. fst p = zi_filename i \<and> int (length (snd p)) = zi_file_size i) (zf_infos zf) data"
    by (auto elim: list_all2_mono)
  then have "map fst data = map zi_filename (zf_infos zf)" by (induction rule: list_all2_induct) auto
  moreover have "int (length b) \<le> MAX_MEMBER_BYTES \<and> b \<noteq> []" if nb: "(n, b) \<in> set data" for n b
  proof -
    obtain k where k: "k < length data" "data ! k = (n, b)" using nb by (metis in_set_conv_nth)
    have "int (length b) = zi_file_size (zf_infos zf ! k)" using list_all2_nthD2 [OF f k(1)] k(2) by simp
    moreover have "zf_infos zf ! k \<in> set (zf_infos zf)" using k(1) list_all2_lengthD [OF f] by simp
    ultimately show ?thesis using all ok by fastforce
  qed
  ultimately show ?thesis using infos by auto
qed

lemma validate_archive_path_Inr:
  assumes "validate_archive_path os repo path kind = Inr (p, st)"
  shows "path = PStr p \<and> ov_realpath os p = p \<and> \<not> is_inside p repo \<and> ov_lstat os p = Inr st \<and> st_kind st = S_IFREG"
  using assms by (auto simp: validate_archive_path_def Let_def split: pyval.splits sum.splits if_splits)

lemma open_members_Inr:
  assumes "open_members env raw expected = Inr data"
  shows "map fst data = expected \<and> (\<forall>(n, b) \<in> set data. int (length b) \<le> MAX_MEMBER_BYTES \<and> b \<noteq> [])"
proof -
  have "rbind (ae_zip env raw) (\<lambda>zf. read_members zf expected) = Inr data"
    using assms by (auto simp: open_members_def split: sum.splits exn.splits)
  then obtain zf where "read_members zf expected = Inr data" by auto
  then show ?thesis by (rule read_members_Inr)
qed

lemma check_image_Inr:
  assumes "check_image kind (v, e) = Inr ()"
  shows "\<exists>r. v = PDict r \<and> (\<forall>kv \<in> set (image_fields e). dict_get r (fst kv) = snd kv)"
proof -
  obtain r where v: "v = PDict r" using assms by (cases v) (auto simp: check_image_def)
  have int: "w = PInt i" if "is_PInt w" "py_eq w (PInt i)" for w i using that by (cases w) auto
  have types: "is_PInt (dict_get r ''flash_order'')" "is_PInt (dict_get r ''size'')"
    and eqs: "\<forall>kv \<in> set (image_fields e). py_eq (dict_get r (fst kv)) (snd kv)"
    using assms by (auto simp: check_image_def v split: if_splits)
  from eqs have "\<forall>kv \<in> set (image_fields e). dict_get r (fst kv) = snd kv"
    using types int by (auto simp: image_fields_def)
  then show ?thesis using v by blast
qed

lemma image_manifest_Inr:
  assumes "validate_image_manifest u dig kind d expected = Inr ()"
  shows "\<exists>recs. dict_get d ''images'' = PList (map PDict recs) \<and>
    list_all2 (\<lambda>r e. \<forall>kv \<in> set (image_fields e). dict_get r (fst kv) = snd kv) recs expected"
proof -
  obtain images where images: "dict_get d ''images'' = PList images" "length images = length expected"
    "\<forall>p \<in> set (zip images expected). check_image kind p = Inr ()"
    using assms by (auto simp: validate_image_manifest_def split: pyval.splits if_splits)
  have "\<exists>r. images ! k = PDict r \<and> (\<forall>kv \<in> set (image_fields (expected ! k)). dict_get r (fst kv) = snd kv)" if "k < length images" for k
    using images(2,3) that check_image_Inr [of kind "images ! k" "expected ! k"] by (auto simp: set_zip)
  then obtain rec where rec: "\<And>k. k < length images \<Longrightarrow> images ! k = PDict (rec k) \<and>
      (\<forall>kv \<in> set (image_fields (expected ! k)). dict_get (rec k) (fst kv) = snd kv)" by metis
  define recs where "recs = map rec [0 ..< length images]"
  have "images = map PDict recs" using rec by (intro nth_equalityI) (auto simp: recs_def)
  moreover have "list_all2 (\<lambda>r e. \<forall>kv \<in> set (image_fields e). dict_get r (fst kv) = snd kv) recs expected"
    using rec images(2) by (simp add: list_all2_conv_all_nth recs_def)
  ultimately show ?thesis using images(1) by blast
qed

lemma resolve_one_parts:
  assumes "resolve_one env os path kind = Inr (identity, data, images)"
  shows "\<exists>p raw st. path = PStr p \<and> id_archive_path identity = p \<and> ov_realpath os p = p \<and> \<not> is_inside p (ae_repo_root env) \<and>
    read_file_no_follow_limited os p (kind_name kind @ '' artifact'') MAX_ARCHIVE_BYTES = Inr (raw, st) \<and>
    id_outer_sha256 identity = ae_digest env raw \<and> id_size identity = int (length raw) \<and>
    map fst data = members_of kind \<and>
    list_all2 (\<lambda>n kd. \<exists>b. map_of data n = Some b \<and> kd = (n, ae_digest env b))
      (filter (\<lambda>n. n \<noteq> ''SHA256SUMS'') (members_of kind)) (id_member_sha256 identity) \<and>
    list_all2 (\<lambda>(f, role, order) e. \<exists>b. map_of data f = Some b \<and> validate_hex_bytes b (kind_name kind @ '' '' @ role @ '' image'') = Inr () \<and>
        e = \<lparr>ei_filename = f, ei_flash_order = order, ei_role = role, ei_sha256 = ae_digest env b, ei_size = int (length b)\<rparr>)
      (image_roles kind) images \<and>
    (\<exists>recs. dict_get (id_manifest identity) ''images'' = PList (map PDict recs) \<and>
      list_all2 (\<lambda>r e. \<forall>kv \<in> set (image_fields e). dict_get r (fst kv) = snd kv) recs images)"
proof -
  obtain p pre raw st manifest sums_of where
    path: "validate_archive_path os (ae_repo_root env) path (Some kind) = Inr (p, pre)"
    and raw: "read_file_no_follow_limited os p (kind_name kind @ '' artifact'') MAX_ARCHIVE_BYTES = Inr (raw, st)"
    and data: "open_members env raw (members_of kind) = Inr data"
    and members: "check_members env kind p data = Inr (manifest, images, sums_of)"
    and identity: "identity = \<lparr>id_kind = kind, id_archive_path = p, id_outer_sha256 = ae_digest env raw, id_size = int (length raw),
      id_manifest = manifest, id_member_sha256 = sums_of\<rparr>"
    using assms by (auto simp: resolve_one_def split: prod.splits if_splits)
  obtain sums_raw where
    images: "rmap (expect_image (ae_digest env) kind data) (image_roles kind) = Inr images"
    and man: "validate_image_manifest (ae_ucd env) (ae_isdigit env) kind manifest images = Inr ()"
    and parsed: "parse_sums (ae_digest env) sums_raw (filter (\<lambda>n. n \<noteq> ''SHA256SUMS'') (members_of kind)) data = Inr sums_of"
    using members by (auto simp: check_members_def)
  have sums_of: "list_all2 (\<lambda>n kd. \<exists>b. map_of data n = Some b \<and> kd = (n, ae_digest env b))
      (filter (\<lambda>n. n \<noteq> ''SHA256SUMS'') (members_of kind)) sums_of"
    using parsed by (auto simp: parse_sums_def rmap_eq_Inr member_bytes_Inr split: if_splits elim!: list_all2_mono)
  have imgs: "list_all2 (\<lambda>(f, role, order) e. \<exists>b. map_of data f = Some b \<and> validate_hex_bytes b (kind_name kind @ '' '' @ role @ '' image'') = Inr () \<and>
        e = \<lparr>ei_filename = f, ei_flash_order = order, ei_role = role, ei_sha256 = ae_digest env b, ei_size = int (length b)\<rparr>)
      (image_roles kind) images"
    using images by (auto simp: rmap_eq_Inr expect_image_Inr elim!: list_all2_mono)
  show ?thesis
    using validate_archive_path_Inr [OF path] raw open_members_Inr [OF data] sums_of imgs image_manifest_Inr [OF man]
    unfolding identity by auto
qed

end
