(* ===== verification/Hil_Staging.thy ===== *)
theory Hil_Staging
  imports Hil_Artifacts
begin

text \<open>
  What resolving, staging and revalidating the firmware archives guarantees: the properties of \<open>resolve_one\<close>,
  \<open>resolve_artifacts\<close> and \<open>revalidate_artifact_set\<close>, with a pair of sample archives that fulfil every contract.
\<close>

section \<open>Staging\<close>

lemma settles_write_staged:
  assumes "one_fault sc (dw_tick w)" and "look w name = None"
  shows "settles sc w (write_staged sc path name b) (\<lambda>_ w'. look w' = (look w)(name \<mapsto> Regular b)) (\<lambda>_ _. True)"
  unfolding write_staged_def
proof (rule settles_bind [where Q = "\<lambda>_ w'. look w' = (look w)(name \<mapsto> Regular [])"])
  show "settles sc w (os_create sc name) (\<lambda>_ w'. look w' = (look w)(name \<mapsto> Regular [])) (\<lambda>_ _. True)"
    unfolding os_create_def using assms by (intro settles_call) auto
next
  fix x :: unit and w1
  assume w1: "look w1 = (look w)(name \<mapsto> Regular [])" "one_fault sc (dw_tick w1)"
  let ?Q = "\<lambda>_ w'. look w' = (look w)(name \<mapsto> Regular b)"
  let ?check = "\<lambda>st. if (case st of Regular c \<Rightarrow> length c \<noteq> length b | _ \<Rightarrow> True)
    then io_raise (ArtifactError (str_msg ''staged image validation failed: %s'' path))
    else io_catch (other_call sc) (\<lambda>exc.
      io_raise (if is_OSError exc then ArtifactError (exn_msg ''cannot protect staged image: %s'' exc) else exc))"
  have "but_for (look w) name w1" using w1(1) by (auto simp: but_for_def)
  then have "settles sc w1 (write_file sc name b) ?Q (\<lambda>_ _. True)"
    by (rule settles_weaken [OF settles_write [OF w1(2)]]) simp_all
  then have "settles sc w1 (io_bind (write_file sc name b) (\<lambda>_. other_call sc)) ?Q (\<lambda>_ _. True)"
    by (rule settles_bind) (auto intro!: settles_other)
  then have written: "settles sc w1 (io_finally (io_bind (write_file sc name b) (\<lambda>_. other_call sc)) (other_call sc)) ?Q (\<lambda>_ _. True)"
    by (rule settles_finally) (auto intro!: settles_other simp: close_calm)
  have "settles sc w2 (?check (Regular b)) ?Q (\<lambda>_ _. True)" if "look w2 = (look w)(name \<mapsto> Regular b)" "one_fault sc (dw_tick w2)" for w2
  proof -
    have "settles sc w2 (other_call sc) ?Q (\<lambda>_ _. True)" using that by (intro settles_other) simp_all
    then show ?thesis by (simp, rule settles_catch) (auto intro!: settles_raise)
  qed
  moreover have "settles sc w2 (plain_call sc (\<lambda>v. (v, case look v name of None \<Rightarrow> Inl ENOENT | Some st \<Rightarrow> Inr st)))
      (\<lambda>st w'. st = Regular b \<and> look w' = (look w)(name \<mapsto> Regular b)) (\<lambda>_ _. True)"
    if "look w2 = (look w)(name \<mapsto> Regular b)" "one_fault sc (dw_tick w2)" for w2
    using that by (intro settles_call) auto
  ultimately show "settles sc w1 (io_bind (io_finally (io_bind (write_file sc name b) (\<lambda>_. other_call sc)) (other_call sc)) (\<lambda>_.
      io_bind (plain_call sc (\<lambda>v. (v, case look v name of None \<Rightarrow> Inl ENOENT | Some st \<Rightarrow> Inr st))) ?check)) ?Q (\<lambda>_ _. True)"
    by (intro settles_bind [OF written] settles_bind [where Q = "\<lambda>st w'. st = Regular b \<and> look w' = (look w)(name \<mapsto> Regular b)"]) auto
qed

text \<open>What staging a list of images leaves.\<close>

definition staged_entries :: "string \<Rightarrow> members \<Rightarrow> expected_image list \<Rightarrow> (string \<times> entry) list" where
  "staged_entries pre data images = map (\<lambda>e. (pre @ ei_filename e, Regular (the (map_of data (ei_filename e))))) images"

definition staged_image :: "string \<Rightarrow> string \<Rightarrow> expected_image \<Rightarrow> artifact_image" where
  "staged_image root_dir pre e =
     \<lparr>im_role = ei_role e, im_filename = ei_filename e, im_flash_order = ei_flash_order e, im_sha256 = ei_sha256 e, im_size = ei_size e,
      im_path = path_join root_dir (pre @ ei_filename e)\<rparr>"

lemma settles_stage_images:
  assumes "one_fault sc (dw_tick w)" and "\<forall>e \<in> set images. map_of data (ei_filename e) \<noteq> None \<and> look w (pre @ ei_filename e) = None"
    and "distinct (map ei_filename images)"
  shows "settles sc w (io_map (stage_image sc root_dir pre data) images)
    (\<lambda>is w'. is = map (staged_image root_dir pre) images \<and> look w' = look w ++ map_of (staged_entries pre data images)) (\<lambda>_ _. True)"
  using assms
proof (induction images arbitrary: w)
  case Nil
  then show ?case by (auto intro!: settles_return simp: staged_entries_def)
next
  case (Cons e images)
  obtain b where b: "map_of data (ei_filename e) = Some b" using Cons.prems(2) by auto
  let ?n = "pre @ ei_filename e"
  have "settles sc w (write_staged sc (path_join root_dir ?n) ?n b) (\<lambda>_ w'. look w' = (look w)(?n \<mapsto> Regular b)) (\<lambda>_ _. True)"
    using Cons.prems by (intro settles_write_staged) simp_all
  then have one: "settles sc w (stage_image sc root_dir pre data e) (\<lambda>i w'. i = staged_image root_dir pre e \<and> look w' = (look w)(?n \<mapsto> Regular b)) (\<lambda>_ _. True)"
    unfolding stage_image_def Let_def member_bytes_def b
    by simp (rule settles_bind, assumption, auto intro!: settles_return simp: staged_image_def)
  have fresh: "?n \<notin> fst ` set (staged_entries pre data images)" using Cons.prems(3) by (auto simp: staged_entries_def)
  have rest: "settles sc w1 (io_bind (io_map (stage_image sc root_dir pre data) images) (\<lambda>ys. io_return (staged_image root_dir pre e # ys)))
      (\<lambda>is w'. is = map (staged_image root_dir pre) (e # images) \<and> look w' = look w ++ map_of (staged_entries pre data (e # images))) (\<lambda>_ _. True)"
    if w1: "look w1 = (look w)(?n \<mapsto> Regular b)" "one_fault sc (dw_tick w1)" for w1
  proof -
    have "\<forall>e' \<in> set images. map_of data (ei_filename e') \<noteq> None \<and> look w1 (pre @ ei_filename e') = None"
    proof
      fix e'
      assume e': "e' \<in> set images"
      then have "ei_filename e' \<in> set (map ei_filename images)" by simp
      then have "ei_filename e' \<noteq> ei_filename e" using Cons.prems(3) by auto
      then show "map_of data (ei_filename e') \<noteq> None \<and> look w1 (pre @ ei_filename e') = None"
        using Cons.prems(2) e' w1(1) by simp
    qed
    with Cons.IH [OF w1(2)] Cons.prems(3) have tail: "settles sc w1 (io_map (stage_image sc root_dir pre data) images)
      (\<lambda>is w'. is = map (staged_image root_dir pre) images \<and> look w' = look w1 ++ map_of (staged_entries pre data images)) (\<lambda>_ _. True)" by simp
    have "look w1 ++ map_of (staged_entries pre data images) = look w ++ map_of (staged_entries pre data (e # images))"
      using fresh b by (simp add: w1(1) staged_entries_def map_add_upd_left [symmetric] image_image dom_map_of_conv_image_fst)
    then show ?thesis by (intro settles_bind [OF tail]) (auto intro!: settles_return)
  qed
  show ?case unfolding io_map.simps by (rule settles_bind [OF one]) (use rest in auto)
qed

lemma image_roles_distinct: "distinct (map fst (image_roles kind))"
  by (cases kind) (simp_all add: image_roles_def)

lemma resolved_images:
  assumes "resolve_one env os path kind = Inr (identity, data, images)"
  shows "list_all (\<lambda>e. \<exists>b. map_of data (ei_filename e) = Some b \<and> validate_hex_bytes b (kind_name kind @ '' '' @ ei_role e @ '' image'') = Inr () \<and>
      ei_sha256 e = ae_digest env b \<and> ei_size e = int (length b)) images"
    and "map ei_filename images = map fst (image_roles kind)" and "distinct (map ei_filename images)"
proof -
  from resolve_one_parts [OF assms]
  have parts: "list_all2 (\<lambda>(f, role, order) e. \<exists>b. map_of data f = Some b \<and> validate_hex_bytes b (kind_name kind @ '' '' @ role @ '' image'') = Inr () \<and>
        e = \<lparr>ei_filename = f, ei_flash_order = order, ei_role = role, ei_sha256 = ae_digest env b, ei_size = int (length b)\<rparr>)
      (image_roles kind) images" by blast
  then show names: "map ei_filename images = map fst (image_roles kind)"
    by (induction rule: list_all2_induct) (auto split: prod.splits)
  show "distinct (map ei_filename images)" unfolding names by (rule image_roles_distinct)
  from parts show "list_all (\<lambda>e. \<exists>b. map_of data (ei_filename e) = Some b \<and> validate_hex_bytes b (kind_name kind @ '' '' @ ei_role e @ '' image'') = Inr () \<and>
      ei_sha256 e = ae_digest env b \<and> ei_size e = int (length b)) images"
    by (induction rule: list_all2_induct) (auto split: prod.splits)
qed

lemma receiver_source_apart: "(''receiver-'' @ a) \<noteq> (''source-'' @ b)"
  by simp

lemma settles_stage_all:
  assumes "one_fault sc (dw_tick w)" and "look w = Map.empty"
    and rec: "resolve_one env os1 ra Receiver = Inr (rid, rdata, rimgs)" and src: "resolve_one env os2 sa Source = Inr (sid, sdata, simgs)"
  shows "settles sc w (stage_all sc root_dir (rid, rdata, rimgs) (sid, sdata, simgs))
    (\<lambda>(ri, si) w'. ri = map (staged_image root_dir ''receiver-'') rimgs \<and> si = map (staged_image root_dir ''source-'') simgs \<and>
      look w' = map_of (staged_entries ''source-'' sdata simgs @ staged_entries ''receiver-'' rdata rimgs)) (\<lambda>_ _. True)"
proof -
  have "\<forall>e \<in> set rimgs. map_of rdata (ei_filename e) \<noteq> None \<and> look w (''receiver-'' @ ei_filename e) = None"
    using resolved_images(1) [OF rec] assms(2) by (auto simp: list_all_iff)
  note one = settles_stage_images [OF assms(1) this resolved_images(3) [OF rec]]
  have two: "settles sc w1 (io_map (stage_image sc root_dir ''source-'' sdata) simgs)
      (\<lambda>is w'. is = map (staged_image root_dir ''source-'') simgs \<and> look w' = look w1 ++ map_of (staged_entries ''source-'' sdata simgs)) (\<lambda>_ _. True)"
    if "look w1 = map_of (staged_entries ''receiver-'' rdata rimgs)" "one_fault sc (dw_tick w1)" for w1
  proof (rule settles_stage_images [OF that(2) _ resolved_images(3) [OF src]])
    have "look w1 (''source-'' @ f) = None" for f
      unfolding that(1) map_of_eq_None_iff by (auto simp: staged_entries_def)
    then show "\<forall>e \<in> set simgs. map_of sdata (ei_filename e) \<noteq> None \<and> look w1 (''source-'' @ ei_filename e) = None"
      using resolved_images(1) [OF src] by (auto simp: list_all_iff)
  qed
  show ?thesis unfolding stage_all_def fst_conv snd_conv
  proof (rule settles_bind [OF one], elim conjE, hypsubst)
    fix w1
    assume w1: "look w1 = look w ++ map_of (staged_entries ''receiver-'' rdata rimgs)" "one_fault sc (dw_tick w1)"
    have w1': "look w1 = map_of (staged_entries ''receiver-'' rdata rimgs)" using w1(1) by (simp add: assms(2))
    show "settles sc w1 (io_bind (io_map (stage_image sc root_dir ''source-'' sdata) simgs)
        (\<lambda>si. io_return (map (staged_image root_dir ''receiver-'') rimgs, si)))
      (\<lambda>(ri, si) w'. ri = map (staged_image root_dir ''receiver-'') rimgs \<and> si = map (staged_image root_dir ''source-'') simgs \<and>
        look w' = map_of (staged_entries ''source-'' sdata simgs @ staged_entries ''receiver-'' rdata rimgs)) (\<lambda>_ _. True)"
      by (rule settles_bind [OF two [OF w1' w1(2)]]) (auto intro!: settles_return simp: w1')
  qed
qed

text \<open>What a set made by \<open>resolve_artifacts\<close> is, and what the staging directory then holds.\<close>

definition staged_set :: "artifact_env \<Rightarrow> os_view \<Rightarrow> os_view \<Rightarrow> pyval \<Rightarrow> pyval \<Rightarrow> staging \<Rightarrow> artifact_set \<Rightarrow> bool" where
  "staged_set env os1 os2 ra sa sg arts \<longleftrightarrow>
     (\<exists>rdata rimgs sdata simgs.
        resolve_one env os1 ra Receiver = Inr (as_receiver arts, rdata, rimgs) \<and>
        resolve_one env os2 sa Source = Inr (as_source arts, sdata, simgs) \<and>
        as_receiver_images arts = map (staged_image (as_staging_root arts) ''receiver-'') rimgs \<and>
        as_source_images arts = map (staged_image (as_staging_root arts) ''source-'') simgs \<and>
        sg_there sg \<and> look (sg_world sg) = map_of (staged_entries ''source-'' sdata simgs @ staged_entries ''receiver-'' rdata rimgs))"

lemma resolve_artifacts_settled:
  assumes "one_fault sc (dw_tick (sg_world sg))" and "\<not> sg_there sg"
  shows "case resolve_artifacts env os1 os2 parent_of fresh_dir sc ra sa sp sg of
      (sg', Inr arts) \<Rightarrow> staged_set env os1 os2 ra sa sg' arts
    | (sg', Inl e) \<Rightarrow> sg_there sg' \<longrightarrow> disturb sc (Suc (dw_tick (sg_world sg))) \<noteq> Calm"
proof -
  consider (bad) e where "resolve_artifacts env os1 os2 parent_of fresh_dir sc ra sa sp sg = (sg, Inl e)"
    | (ok) rid rdata rimgs sid sdata simgs parent where
      "resolve_one env os1 ra Receiver = Inr (rid, rdata, rimgs)" "resolve_one env os2 sa Source = Inr (sid, sdata, simgs)"
      "resolve_artifacts env os1 os2 parent_of fresh_dir sc ra sa sp sg =
         stage_resolved sc (fresh_dir parent) (rid, rdata, rimgs) (sid, sdata, simgs) sg"
    unfolding resolve_artifacts_def
    by (cases "resolve_one env os1 ra Receiver"; cases "resolve_one env os2 sa Source"; cases "parent_of sp") auto
  then show ?thesis
  proof cases
    case bad
    with assms(2) show ?thesis by simp
  next
    case ok
    let ?w = "sg_world sg" and ?t = "dw_tick (sg_world sg)"
    let ?w1 = "\<lparr>dw_entries = [], dw_tick = Suc ?t\<rparr>" and ?w2 = "\<lparr>dw_entries = [], dw_tick = Suc (Suc ?t)\<rparr>"
    let ?stage = "stage_all sc (fresh_dir parent) (rid, rdata, rimgs) (sid, sdata, simgs)"
    from assms(1) show ?thesis
    proof (cases rule: one_fault_cases)
      case (fault e)
      then show ?thesis using assms(2) by (simp add: ok(3) stage_resolved_def make_staging_def)
    next
      case calm
      have made: "make_staging sc sg = (\<lparr>sg_there = True, sg_world = ?w1\<rparr>, Inr ())" using calm(1) by (simp add: make_staging_def)
      from calm(2) show ?thesis
      proof (cases rule: one_fault_cases)
        case (fault e)
        then show ?thesis by (simp add: ok(3) stage_resolved_def made other_call_def os_call_def)
      next
        case calm
        have chmod: "other_call sc ?w1 = (?w2, Inr ())"
          using calm(1) by (simp add: other_call_def os_call_def io_return_def tick_def)
        have "settles sc ?w2 ?stage (\<lambda>(ri, si) w'. ri = map (staged_image (fresh_dir parent) ''receiver-'') rimgs \<and>
            si = map (staged_image (fresh_dir parent) ''source-'') simgs \<and>
            look w' = map_of (staged_entries ''source-'' sdata simgs @ staged_entries ''receiver-'' rdata rimgs)) (\<lambda>_ _. True)"
          using calm(2) by (intro settles_stage_all [OF _ _ ok(1,2)]) (simp_all add: look_def)
        then show ?thesis
        proof (cases rule: settles_cases)
          case (done_well w' x)
          then show ?thesis using ok(1,2)
            by (cases x) (auto simp: ok(3) stage_resolved_def made chmod staged_set_def)
        next
          case (failed w' e)
          then show ?thesis by (simp add: ok(3) stage_resolved_def made chmod remove_staging_def calm_fromD)
        qed
      qed
    qed
  qed
qed

lemma revalidated_image:
  assumes "revalidate_image env os img = Inr ()"
  shows "\<exists>st b st'. ov_lstat os (im_path img) = Inr st \<and> st_kind st = S_IFREG \<and> st_perm st = 256 \<and> st_size st = im_size img \<and>
    read_file_no_follow_limited os (im_path img) ''staged image'' MAX_MEMBER_BYTES = Inr (b, st') \<and> ae_digest env b = im_sha256 img"
  using assms by (auto simp: revalidate_image_def split: if_splits sum.splits prod.splits)

lemma revalidated_archive:
  assumes "revalidate_archive env (os, os') identity = Inr ()"
  shows "\<exists>raw st raw' st'.
    read_file_no_follow_limited os (id_archive_path identity) (kind_name (id_kind identity) @ '' artifact'') MAX_ARCHIVE_BYTES = Inr (raw, st) \<and>
    ae_digest env raw = id_outer_sha256 identity \<and> int (length raw) = id_size identity \<and>
    read_file_no_follow_limited os' (id_archive_path identity) (kind_name (id_kind identity) @ '' artifact'') MAX_ARCHIVE_BYTES = Inr (raw', st') \<and>
    ae_digest env raw' = id_outer_sha256 identity"
proof -
  obtain p pre raw st v data imgs where
    path: "validate_archive_path os (ae_repo_root env) (PStr (id_archive_path identity)) (Some (id_kind identity)) = Inr (p, pre)"
    and raw: "read_file_no_follow_limited os p (kind_name (id_kind identity) @ '' artifact'') MAX_ARCHIVE_BYTES = Inr (raw, st)"
      "ae_digest env raw = id_outer_sha256 identity" "int (length raw) = id_size identity"
    and again: "resolve_one env os' (PStr p) (id_kind identity) = Inr (v, data, imgs)" "id_outer_sha256 v = id_outer_sha256 identity"
    using assms by (auto simp: revalidate_archive_def Let_def split: if_splits prod.splits)
  have "p = id_archive_path identity" using validate_archive_path_Inr [OF path] by simp
  with raw again(2) resolve_one_parts [OF again(1)] show ?thesis by auto
qed

text \<open>A staged file that may be flashed for an image of the given archive.\<close>

definition flashable :: "artifact_env \<Rightarrow> os_view \<Rightarrow> artifact_kind \<Rightarrow> members \<Rightarrow> artifact_image \<Rightarrow> bool" where
  "flashable env os kind data i \<longleftrightarrow>
     (\<exists>m st b st'. map_of data (im_filename i) = Some m \<and> validate_hex_bytes m (kind_name kind @ '' '' @ im_role i @ '' image'') = Inr () \<and>
        ov_lstat os (im_path i) = Inr st \<and> st_kind st = S_IFREG \<and> st_perm st = 256 \<and> st_size st = int (length m) \<and>
        read_file_no_follow_limited os (im_path i) ''staged image'' MAX_MEMBER_BYTES = Inr (b, st') \<and> ae_digest env b = ae_digest env m)"

lemma staged_flashable:
  assumes "resolve_one env os' path kind = Inr (identity, data, images)"
    and "\<forall>i \<in> set (map (staged_image root_dir pre) images). revalidate_image env os i = Inr ()"
  shows "list_all (flashable env os kind data) (map (staged_image root_dir pre) images)"
proof -
  have "flashable env os kind data (staged_image root_dir pre e)" if e: "e \<in> set images" for e
  proof -
    obtain m where "map_of data (ei_filename e) = Some m" "validate_hex_bytes m (kind_name kind @ '' '' @ ei_role e @ '' image'') = Inr ()"
      "ei_sha256 e = ae_digest env m" "ei_size e = int (length m)"
      using resolved_images(1) [OF assms(1)] e by (auto simp: list_all_iff)
    moreover have "revalidate_image env os (staged_image root_dir pre e) = Inr ()" using assms(2) e by simp
    ultimately show ?thesis
      using revalidated_image [of env os "staged_image root_dir pre e"] by (auto simp: flashable_def staged_image_def)
  qed
  then show ?thesis by (auto simp: list_all_iff)
qed

lemma resolve_one_kind: "resolve_one env os path kind = Inr (identity, data, images) \<Longrightarrow> id_kind identity = kind"
  by (auto simp: resolve_one_def split: prod.splits if_splits)

section \<open>Sample archives\<close>

text \<open>A receiver and a source archive that fulfil every contract.\<close>

definition sample_hex :: string where
  "sample_hex = '':00000001FF'' @ [CHR 0x0A]"

definition sample_digest :: "string \<Rightarrow> string" where
  "sample_digest b = replicate 63 (CHR ''0'') @ [if b = sample_hex then CHR ''1'' else CHR ''2'']"

definition sample_image :: "string \<times> string \<times> int \<Rightarrow> expected_image" where
  "sample_image img = (case img of (f, role, order) \<Rightarrow>
     \<lparr>ei_filename = f, ei_flash_order = order, ei_role = role, ei_sha256 = sample_digest sample_hex, ei_size = 12\<rparr>)"

definition sample_manifest :: "artifact_kind \<Rightarrow> pydict" where
  "sample_manifest kind =
     (let commit = PStr (replicate 40 (CHR ''a'')); board = PStr ''nrf54l15dk/nrf54l15/cpuapp'' in
      case kind of
        Receiver \<Rightarrow>
          [(''git_commit'', commit),
           (''images'', PList (map (\<lambda>e. PDict (let d = image_fields (sample_image e) in
              take 2 d @ [(''original_build_path'', PStr (the (build_path (fst e))))] @ drop 2 d)) (image_roles Receiver))),
           (''ncs_version'', PStr ''v3.4.1''), (''project'', PStr ''le-audio-receiver''), (''schema_version'', PInt 1),
           (''target'', RECEIVER_TARGET), (''version'', PStr ''1.0.0'')]
      | Source \<Rightarrow>
          [(''board'', board), (''firmware_id'', PStr ''le-audio-hil-source-rh1''), (''git_commit'', commit),
           (''images'', PList (map (\<lambda>e. PDict (image_fields (sample_image e))) (image_roles Source))),
           (''ncs_version'', PStr ''v3.4.1''), (''schema_version'', PInt 2)])"

definition sample_document :: "artifact_kind \<Rightarrow> string" where
  "sample_document kind = json_indent (\<lambda>_. []) 0 (PDict (sample_manifest kind)) @ [CHR 0x0A]"

definition sample_sums :: "artifact_kind \<Rightarrow> string" where
  "sample_sums kind = concat (map (\<lambda>n. sample_digest (if endswith n ''.hex'' then sample_hex else []) @ ''  '' @ n @ [CHR 0x0A])
     (sort (filter (\<lambda>n. n \<noteq> ''SHA256SUMS'') (members_of kind))))"

definition sample_members :: "artifact_kind \<Rightarrow> members" where
  "sample_members kind = map (\<lambda>n. (n,
     if endswith n ''.hex'' then sample_hex else if n = ''FLASHING.md'' then ''Flash both images.''
     else if n = ''SHA256SUMS'' then sample_sums kind else sample_document kind)) (members_of kind)"

definition sample_zip :: "artifact_kind \<Rightarrow> zip_file" where
  "sample_zip kind = \<lparr>zf_comment = [],
     zf_infos = map (\<lambda>(n, b). \<lparr>zi_filename = n, zi_flag_bits = 0, zi_compress_type = 8, zi_date_time = FIXED_TIMESTAMP,
       zi_create_system = 3, zi_external_attr = EXPECTED_MODE * 65536, zi_extra = [], zi_comment = [],
       zi_file_size = int (length b), zi_compress_size = int (length b), zi_header_offset = 0\<rparr>) (sample_members kind),
     zf_testzip = Inr None,
     zf_read = (\<lambda>i. case map_of (sample_members kind) (zi_filename i) of None \<Rightarrow> Inl (KeyError PNone) | Some b \<Rightarrow> Inr b)\<rparr>"

definition sample_env :: artifact_env where
  "sample_env = \<lparr>ae_digest = sample_digest,
     ae_zip = (\<lambda>raw. if raw = ''PK receiver'' then Inr (sample_zip Receiver)
       else if raw = ''PK source'' then Inr (sample_zip Source) else Inl (BadZipFile (text_msg ''File is not a zip file''))),
     ae_frepr = (\<lambda>_. []), ae_ucd = \<lparr>word_point = (\<lambda>c. False), decimal_value = (\<lambda>c. if 48 \<le> c \<and> c \<le> 57 then Some (c - 48) else None)\<rparr>,
     ae_isdigit = (\<lambda>c. 48 \<le> c \<and> c \<le> 57), ae_repo_root = ''/repo''\<rparr>"

definition sample_path :: "artifact_kind \<Rightarrow> string" where
  "sample_path kind = (case kind of
     Receiver \<Rightarrow> ''/out/le-audio-receiver-v1.0.0-nrf54l15-xiao-factory.zip'' | Source \<Rightarrow> ''/out/source.zip'')"

definition sample_raw :: "string \<Rightarrow> string" where
  "sample_raw p = (if p = sample_path Source then ''PK source'' else ''PK receiver'')"

definition sample_stat :: "string \<Rightarrow> stat" where
  "sample_stat b = \<lparr>st_kind = S_IFREG, st_perm = 256, st_size = int (length b), st_dev = 1, st_ino = 1\<rparr>"

definition sample_view :: "(string \<Rightarrow> string) \<Rightarrow> os_view" where
  "sample_view content = \<lparr>ov_lstat = (\<lambda>p. Inr (sample_stat (content p))), ov_realpath = (\<lambda>p. p),
     ov_open = (\<lambda>p. Inr (sample_stat (content p), [Inr (content p)]))\<rparr>"

abbreviation sample_hashes :: "artifact_kind \<Rightarrow> (string \<times> string) list" where
  "sample_hashes kind \<equiv> map (\<lambda>n. (n, sample_digest (if endswith n ''.hex'' then sample_hex else [])))
     (filter (\<lambda>n. n \<noteq> ''SHA256SUMS'') (members_of kind))"

abbreviation sample_info :: "string \<times> string \<Rightarrow> zip_info" where
  "sample_info nb \<equiv> (case nb of (n, b) \<Rightarrow> \<lparr>zi_filename = n, zi_flag_bits = 0, zi_compress_type = 8, zi_date_time = FIXED_TIMESTAMP,
     zi_create_system = 3, zi_external_attr = EXPECTED_MODE * 65536, zi_extra = [], zi_comment = [],
     zi_file_size = int (length b), zi_compress_size = int (length b), zi_header_offset = 0\<rparr>)"

text \<open>A run without any refused call.\<close>

definition sample_script :: io_script where
  "sample_script = \<lparr>disturb = (\<lambda>_. Calm), partial = (\<lambda>_. 0), suffix = (\<lambda>_. [])\<rparr>"

definition sample_staging :: staging where
  "sample_staging = \<lparr>sg_there = False, sg_world = \<lparr>dw_entries = [], dw_tick = 0\<rparr>\<rparr>"

definition sample_identity :: "artifact_kind \<Rightarrow> artifact_identity" where
  "sample_identity kind =
     \<lparr>id_kind = kind, id_archive_path = sample_path kind, id_outer_sha256 = sample_digest [],
      id_size = int (length (sample_raw (sample_path kind))), id_manifest = sample_manifest kind, id_member_sha256 = sample_hashes kind\<rparr>"

definition sample_set :: artifact_set where
  "sample_set =
     \<lparr>as_receiver = sample_identity Receiver, as_source = sample_identity Source,
      as_receiver_images = map (\<lambda>e. staged_image ''/tmp/hil-artifacts-1'' ''receiver-'' (sample_image e)) (image_roles Receiver),
      as_source_images = map (\<lambda>e. staged_image ''/tmp/hil-artifacts-1'' ''source-'' (sample_image e)) (image_roles Source),
      as_staging_root = ''/tmp/hil-artifacts-1'', as_token = True\<rparr>"

abbreviation sample_resolve :: "staging \<times> artifact_set result" where
  "sample_resolve \<equiv>
     resolve_artifacts sample_env (sample_view sample_raw) (sample_view sample_raw) (\<lambda>_. Inr ''/tmp'') (\<lambda>p. p @ ''/hil-artifacts-1'')
       sample_script (PStr (sample_path Receiver)) (PStr (sample_path Source)) PNone sample_staging"

abbreviation sample_revalidate :: "unit result" where
  "sample_revalidate \<equiv>
     revalidate_artifact_set sample_env (\<lambda>p. p) (sample_view sample_raw, sample_view sample_raw)
       (sample_view sample_raw, sample_view sample_raw) (sample_view (\<lambda>_. sample_hex)) sample_set"

lemma sample_plain: "plain_json (PDict (sample_manifest Receiver))" "plain_json (PDict (sample_manifest Source))"
  by code_simp+

lemma sample_sorted:
  "sort_keys (PDict (sample_manifest Receiver)) = PDict (sample_manifest Receiver)"
  "sort_keys (PDict (sample_manifest Source)) = PDict (sample_manifest Source)"
  by code_simp+

lemma sample_ascii: "is_ascii (sample_document kind)"
  unfolding sample_document_def using ascii_indent [OF sample_plain(1)] ascii_indent [OF sample_plain(2)]
  by (cases kind) (simp_all add: is_ascii_parts)

lemma sample_bound: "json_bound 0 (PDict (sample_manifest Receiver)) < 20000" "json_bound 0 (PDict (sample_manifest Source)) < 20000"
  by code_simp+

lemma sample_length: "0 < length (sample_document kind)" "length (sample_document kind) < 20002"
  using json_bound [OF sample_plain(1), of "\<lambda>_. []" 0] json_bound [OF sample_plain(2), of "\<lambda>_. []" 0] sample_bound
  by (cases kind; simp add: sample_document_def)+

lemma sample_loads: "load_canonical_json (\<lambda>_. []) (sample_document kind) label = Inr (sample_manifest kind)"
proof -
  have "plain_json (PDict (sample_manifest kind))" by (cases kind) (simp_all only: sample_plain)
  then have "json_loads dict_of_pairs (sample_document kind) = Inr (PDict (sample_manifest kind))"
    unfolding sample_document_def by (rule json_loads_indent [OF _ dict_of_pairs_distinct]) (simp_all add: json_space_def)
  moreover have "sort_keys (PDict (sample_manifest kind)) = PDict (sample_manifest kind)" using sample_sorted by (cases kind) simp_all
  ultimately show ?thesis
    using utf8_valid_ascii [OF sample_ascii [of kind]] by (simp add: load_canonical_json_def sample_document_def)
qed

lemma sample_name: "re_fullmatch (receiver_name_regex version_regex) (utf8_points (basename (sample_path Receiver))) \<noteq> None"
  by code_simp

lemma sample_version:
  "check_filename_version Receiver (sample_path Receiver) (sample_manifest Receiver) = Inr ()"
  "check_filename_version Source (sample_path Source) (sample_manifest Source) = Inr ()"
  by code_simp+

lemma sample_members:
  "sample_members Receiver =
     [(''FLASHING.md'', ''Flash both images.''), (''cpuapp.hex'', sample_hex), (''flpr.hex'', sample_hex),
      (''release-manifest.json'', sample_document Receiver), (''SHA256SUMS'', sample_sums Receiver)]"
  "sample_members Source =
     [(''cpuapp.hex'', sample_hex), (''source-manifest.json'', sample_document Source), (''SHA256SUMS'', sample_sums Source)]"
  by (simp_all add: sample_members_def members_of_def RECEIVER_MEMBERS_def SOURCE_MEMBERS_def endswith_iff)

lemma sample_digests:
  "sample_digest ''Flash both images.'' = sample_digest []" "sample_digest (sample_document kind) = sample_digest []"
  by (simp_all add: sample_digest_def sample_hex_def sample_document_def sample_manifest_def split: artifact_kind.split)

lemma sample_sums:
  "sort (filter (\<lambda>n. n \<noteq> ''SHA256SUMS'') (members_of Receiver)) = [''FLASHING.md'', ''cpuapp.hex'', ''flpr.hex'', ''release-manifest.json'']"
  "sort (filter (\<lambda>n. n \<noteq> ''SHA256SUMS'') (members_of Source)) = [''cpuapp.hex'', ''source-manifest.json'']"
  by code_simp+

lemma sample_sums_length: "0 < length (sample_sums kind)" "length (sample_sums kind) < 20000" "is_ascii (sample_sums kind)"
  by (cases kind; simp add: sample_sums_def sample_sums sample_digest_def endswith_iff is_ascii_parts is_ascii_def)+

lemma sample_images: "validate_hex_bytes sample_hex label = Inr ()"
  by code_simp

lemma sample_manifest_ok:
  "validate_image_manifest (ae_ucd sample_env) (ae_isdigit sample_env) Receiver (sample_manifest Receiver)
     (map sample_image (image_roles Receiver)) = Inr ()"
  "validate_image_manifest (ae_ucd sample_env) (ae_isdigit sample_env) Source (sample_manifest Source)
     (map sample_image (image_roles Source)) = Inr ()"
  by code_simp+

lemma sample_parsed:
  "parse_sums sample_digest (sample_sums kind) (filter (\<lambda>n. n \<noteq> ''SHA256SUMS'') (members_of kind)) (sample_members kind) =
     Inr (sample_hashes kind)"
proof (cases kind)
  case Receiver
  have "sample_sums Receiver = join_sep [CHR 0x0A] [sample_digest [] @ ''  FLASHING.md'', sample_digest sample_hex @ ''  cpuapp.hex'',
      sample_digest sample_hex @ ''  flpr.hex'', sample_digest [] @ ''  release-manifest.json''] @ [CHR 0x0A]"
    by (simp add: sample_sums_def sample_sums endswith_iff)
  with sample_sums_length(3) [of Receiver] show ?thesis unfolding Receiver
    by (simp add: parse_sums_def sample_sums sample_members sample_digests member_bytes_def)
       (simp add: members_of_def RECEIVER_MEMBERS_def endswith_iff sample_digests)
next
  case Source
  have "sample_sums Source = join_sep [CHR 0x0A] [sample_digest sample_hex @ ''  cpuapp.hex'', sample_digest [] @ ''  source-manifest.json''] @ [CHR 0x0A]"
    by (simp add: sample_sums_def sample_sums endswith_iff)
  with sample_sums_length(3) [of Source] show ?thesis unfolding Source
    by (simp add: parse_sums_def sample_sums sample_members sample_digests member_bytes_def)
       (simp add: members_of_def SOURCE_MEMBERS_def endswith_iff sample_digests)
qed

lemma sample_expected:
  "rmap (expect_image sample_digest kind (sample_members kind)) (image_roles kind) = Inr (map sample_image (image_roles kind))"
proof -
  have "length sample_hex = 12" by (simp add: sample_hex_def)
  then show ?thesis
    by (cases kind) (simp_all add: image_roles_def expect_image_def sample_members member_bytes_def sample_images sample_image_def)
qed

lemma sample_checked:
  "check_members sample_env kind (sample_path kind) (sample_members kind) =
     Inr (sample_manifest kind, map sample_image (image_roles kind), sample_hashes kind)"
proof -
  have env: "ae_frepr sample_env = (\<lambda>_. [])" "ae_digest sample_env = sample_digest" by (simp_all add: sample_env_def)
  have man: "member_bytes (sample_members kind) (manifest_name kind) = Inr (sample_document kind)"
    "member_bytes (sample_members kind) ''SHA256SUMS'' = Inr (sample_sums kind)"
    by (cases kind; simp add: manifest_name_def sample_members member_bytes_def)+
  have "check_filename_version kind (sample_path kind) (sample_manifest kind) = Inr ()"
    "validate_image_manifest (ae_ucd sample_env) (ae_isdigit sample_env) kind (sample_manifest kind) (map sample_image (image_roles kind)) = Inr ()"
    by (cases kind; simp only: sample_version sample_manifest_ok)+
  moreover have "(if kind = Receiver then rbind (member_bytes (sample_members kind) ''FLASHING.md'') validate_note else Inr ()) = Inr ()"
    by (cases kind) (simp_all add: sample_members member_bytes_def validate_note_def)
  ultimately show ?thesis
    unfolding check_members_def by (simp add: man env sample_loads sample_expected sample_parsed)
qed

lemma sample_info_ok:
  assumes "validate_member_name n = Inr ()" "\<not> endswith n [slash]" "b \<noteq> []" "length b < 20002" "t < 200000"
  shows "check_zip_info t (sample_info (n, b)) = Inr (t + int (length b))"
  using assms by (simp add: check_zip_info_def Let_def EXPECTED_COMPRESSION_def EXPECTED_MODE_def MAX_MEMBER_BYTES_def MAX_TOTAL_MEMBER_BYTES_def)

lemma sample_names:
  "list_all (\<lambda>n. validate_member_name n = Inr () \<and> \<not> endswith n [slash]) (members_of Receiver)"
  "list_all (\<lambda>n. validate_member_name n = Inr () \<and> \<not> endswith n [slash]) (members_of Source)"
  by code_simp+

lemma sample_infos:
  "list_all (\<lambda>(n, b). validate_member_name n = Inr () \<and> \<not> endswith n [slash] \<and> b \<noteq> [] \<and> length b < 20002) ms \<Longrightarrow>
   t + 20002 * int (length ms) < 200000 \<Longrightarrow> \<exists>t'. rfold check_zip_info t (map sample_info ms) = Inr t'"
proof (induction ms arbitrary: t)
  case (Cons m ms)
  obtain n b where m: "m = (n, b)" by fastforce
  from Cons.prems have ok: "validate_member_name n = Inr ()" "\<not> endswith n [slash]" "b \<noteq> []" "length b < 20002" "t < 200000"
    "t + int (length b) + 20002 * int (length ms) < 200000" by (simp_all add: m)
  show ?case using Cons.IH [OF _ ok(6)] Cons.prems(1) sample_info_ok [OF ok(1-5)] by (simp add: m)
qed simp

lemma sample_opened: "open_members sample_env (sample_raw (sample_path kind)) (members_of kind) = Inr (sample_members kind)"
proof -
  have zip: "ae_zip sample_env (sample_raw (sample_path kind)) = Inr (sample_zip kind)"
    by (cases kind) (simp_all add: sample_env_def sample_raw_def sample_path_def)
  have names: "map zi_filename (zf_infos (sample_zip kind)) = members_of kind" "distinct (members_of kind)"
    by (cases kind; simp add: sample_zip_def sample_members members_of_def RECEIVER_MEMBERS_def SOURCE_MEMBERS_def)+
  have "\<exists>t. rfold check_zip_info 0 (zf_infos (sample_zip kind)) = Inr t"
  proof -
    have "list_all (\<lambda>(n, b). validate_member_name n = Inr () \<and> \<not> endswith n [slash] \<and> b \<noteq> [] \<and> length b < 20002) (sample_members kind)"
      using sample_length [of kind] sample_sums_length [of kind] sample_names
      by (cases kind) (simp_all add: sample_members members_of_def RECEIVER_MEMBERS_def SOURCE_MEMBERS_def sample_hex_def)
    moreover have "length (sample_members kind) \<le> 5" by (cases kind) (simp_all add: sample_members)
    ultimately show ?thesis using sample_infos [of "sample_members kind" 0] by (simp add: sample_zip_def)
  qed
  then have "validate_zip_infos (zf_infos (sample_zip kind)) (members_of kind) = Inr ()"
    using names by (auto simp: validate_zip_infos_def Let_def dest: arg_cong [where f = length])
  moreover have "rmap (read_member (sample_zip kind)) (zf_infos (sample_zip kind)) = Inr (sample_members kind)"
    by (cases kind) (simp_all add: sample_zip_def sample_members read_member_def)
  moreover have "zf_comment (sample_zip kind) = []" "zf_testzip (sample_zip kind) = Inr None" by (simp_all add: sample_zip_def)
  ultimately show ?thesis by (simp add: open_members_def zip read_members_def)
qed

lemma sample_paths:
  "isabs (sample_path Receiver)" "isabs (sample_path Source)" "\<not> is_inside (sample_path Receiver) ''/repo''" "\<not> is_inside (sample_path Source) ''/repo''"
  "endswith (basename (sample_path Receiver)) ''.zip''" "endswith (basename (sample_path Source)) ''.zip''" "sample_path Receiver \<noteq> []" "sample_path Source \<noteq> []"
  by code_simp+

lemma sample_read:
  shows "validate_archive_path (sample_view sample_raw) (ae_repo_root sample_env) (PStr (sample_path kind)) (Some kind) =
      Inr (sample_path kind, sample_stat (sample_raw (sample_path kind)))"
    and "read_file_no_follow_limited (sample_view sample_raw) (sample_path kind) (kind_name kind @ '' artifact'') MAX_ARCHIVE_BYTES =
      Inr (sample_raw (sample_path kind), sample_stat (sample_raw (sample_path kind)))"
    and "ae_digest sample_env (sample_raw (sample_path kind)) = sample_digest []"
proof -
  let ?raw = "sample_raw (sample_path kind)"
  have raw: "0 < length ?raw" "length ?raw < 20" by (cases kind; simp add: sample_raw_def sample_path_def)+
  have env: "ae_repo_root sample_env = ''/repo''" by (simp add: sample_env_def)
  show "validate_archive_path (sample_view sample_raw) (ae_repo_root sample_env) (PStr (sample_path kind)) (Some kind) = Inr (sample_path kind, sample_stat ?raw)"
    using raw sample_name
    by (cases kind) (simp_all add: validate_archive_path_def sample_view_def sample_stat_def MAX_ARCHIVE_BYTES_def Let_def sample_paths env)
  show "read_file_no_follow_limited (sample_view sample_raw) (sample_path kind) (kind_name kind @ '' artifact'') MAX_ARCHIVE_BYTES
      = Inr (?raw, sample_stat ?raw)"
    using raw by (simp add: read_file_no_follow_limited_def sample_view_def sample_stat_def MAX_ARCHIVE_BYTES_def)
  show "ae_digest sample_env ?raw = sample_digest []"
    by (cases kind; simp add: sample_env_def sample_digest_def sample_hex_def sample_raw_def sample_path_def)+
qed

lemma sample_resolved:
  "resolve_one sample_env (sample_view sample_raw) (PStr (sample_path kind)) kind =
     Inr (sample_identity kind, sample_members kind, map sample_image (image_roles kind))"
  by (simp add: resolve_one_def sample_read sample_opened sample_checked sample_identity_def)
     (simp add: sample_stat_def)

lemma sample_script: "disturb sample_script t = Calm" "one_fault sample_script t"
  by (simp_all add: sample_script_def one_fault_def)

lemma sample_write:
  "look w name = None \<Longrightarrow> write_staged sample_script path name b w =
     (w\<lparr>dw_entries := AList.update name (Regular b) (dw_entries w), dw_tick := dw_tick w + 6\<rparr>, Inr ())"
  by (simp add: write_staged_def os_create_def write_file_def other_call_def io_bind_def io_finally_def io_return_def io_catch_def os_call_def
      sample_script tick_def dir_put_def look_def update_conv')

lemma sample_staged: "\<exists>sg. sample_resolve = (sg, Inr sample_set)"
  by (simp add: resolve_artifacts_def sample_resolved sample_staging_def)
     (simp add: stage_resolved_def make_staging_def sample_script other_call_def os_call_def io_return_def tick_def
      stage_all_def image_roles_def stage_image_def Let_def sample_image_def member_bytes_def sample_members io_bind_def io_lift_def sample_write look_def
      sample_set_def staged_image_def)

lemma sample_identity_ok:
  "identity_ok sample_env Receiver (sample_identity Receiver) = Inr ()" "identity_ok sample_env Source (sample_identity Source) = Inr ()"
  by code_simp+

lemma sample_images_ok:
  "images_ok Receiver (as_receiver_images sample_set) = Inr ()" "images_ok Source (as_source_images sample_set) = Inr ()"
  by code_simp+

lemma same_map_refl: "same_map a a"
  by (simp add: same_map_def)

lemma sample_same:
  "py_eq (PDict (sample_manifest Receiver)) (PDict (sample_manifest Receiver))"
  "py_eq (PDict (sample_manifest Source)) (PDict (sample_manifest Source))"
  by code_simp+

lemma sample_archive: "revalidate_archive sample_env (sample_view sample_raw, sample_view sample_raw) (sample_identity kind) = Inr ()"
proof -
  have "py_eq (PDict (sample_manifest kind)) (PDict (sample_manifest kind))" by (cases kind) (simp_all only: sample_same)
  then show ?thesis
    using sample_resolved [of kind] by (simp add: revalidate_archive_def sample_identity_def Let_def sample_read same_map_refl)
qed

lemma sample_image_ok: "list_all (\<lambda>i. revalidate_image sample_env (sample_view (\<lambda>_. sample_hex)) i = Inr ()) (as_receiver_images sample_set @ as_source_images sample_set)"
  by code_simp

lemma sample_root:
  "isabs (as_staging_root sample_set)" "\<not> is_inside (as_staging_root sample_set) (ae_repo_root sample_env)" "as_token sample_set"
  "as_receiver sample_set = sample_identity Receiver" "as_source sample_set = sample_identity Source"
  by (simp_all add: sample_set_def sample_env_def isabs_def is_inside_def startswith_iff)

lemma sample_revalidated: "sample_revalidate = Inr ()"
  using sample_image_ok sample_root sample_identity_ok sample_archive
  by (simp add: revalidate_artifact_set_def validate_artifact_set_def validate_artifact_set_shape_def sample_images_ok list_all_iff)

section \<open>Properties\<close>



text \<open>C28: Resolving stages both archives or leaves nothing behind.  When at most one call of the system is refused, a set
  that is returned has its directory, which holds exactly one file per image of the two archives, with the bytes of the
  member, and the recorded paths are those files; and after a failure there is no staging directory, unless the refused
  call was the \<open>chmod\<close> that follows \<open>mkdtemp\<close> outside the \<open>try\<close>.\<close>

theorem staging_exact:
  assumes "one_fault sc (dw_tick (sg_world sg))" and "\<not> sg_there sg"
  shows "case resolve_artifacts env os1 os2 parent_of fresh_dir sc receiver_artifact source_artifact staging_parent sg of
      (sg', Inr arts) \<Rightarrow> staged_set env os1 os2 receiver_artifact source_artifact sg' arts
    | (sg', Inl e) \<Rightarrow> sg_there sg' \<longrightarrow> disturb sc (Suc (dw_tick (sg_world sg))) \<noteq> Calm"
  using assms by (rule resolve_artifacts_settled)

theorem staging_exact_witness:
  "\<not> sg_there sample_staging \<and>
   (\<exists>sg. sample_resolve = (sg, Inr sample_set) \<and>
     staged_set sample_env (sample_view sample_raw) (sample_view sample_raw) (PStr (sample_path Receiver)) (PStr (sample_path Source)) sg sample_set)"
proof -
  have fresh: "\<not> sg_there sample_staging" by (simp add: sample_staging_def)
  obtain sg where "sample_resolve = (sg, Inr sample_set)" using sample_staged by blast
  then show ?thesis
    using fresh staging_exact [OF sample_script(2) fresh, where env = sample_env and ?os1.0 = "sample_view sample_raw" and ?os2.0 = "sample_view sample_raw"
      and parent_of = "\<lambda>_. Inr ''/tmp''" and fresh_dir = "\<lambda>p. p @ ''/hil-artifacts-1''" and receiver_artifact = "PStr (sample_path Receiver)"
      and source_artifact = "PStr (sample_path Source)" and staging_parent = PNone] by simp
qed

text \<open>C24: What is flashed is what was validated.  If the set that \<open>resolve_artifacts\<close> returned passes \<open>revalidate_artifact_set\<close>,
  then both archives still read with the hash taken at validation, and every staged image is a regular file of mode 0400
  whose bytes, read without following links, have the hash and the recorded size of the member of the validated archive,
  which is a valid Intel HEX image.\<close>

theorem flashed_is_validated:
  assumes made: "resolve_artifacts env os1 os2 parent_of fresh_dir sc receiver_artifact source_artifact staging_parent sg = (sg', Inr arts)"
    and calm: "one_fault sc (dw_tick (sg_world sg))" "\<not> sg_there sg"
    and valid: "revalidate_artifact_set env realp (rv, rv') (sv, sv') os arts = Inr ()"
  shows "\<exists>rdata rimgs sdata simgs.
    resolve_one env os1 receiver_artifact Receiver = Inr (as_receiver arts, rdata, rimgs) \<and>
    resolve_one env os2 source_artifact Source = Inr (as_source arts, sdata, simgs) \<and>
    (\<exists>raw st. read_file_no_follow_limited rv' (id_archive_path (as_receiver arts)) ''receiver artifact'' MAX_ARCHIVE_BYTES = Inr (raw, st) \<and>
       ae_digest env raw = id_outer_sha256 (as_receiver arts)) \<and>
    (\<exists>raw st. read_file_no_follow_limited sv' (id_archive_path (as_source arts)) ''source artifact'' MAX_ARCHIVE_BYTES = Inr (raw, st) \<and>
       ae_digest env raw = id_outer_sha256 (as_source arts)) \<and>
    list_all (flashable env os Receiver rdata) (as_receiver_images arts) \<and>
    list_all (flashable env os Source sdata) (as_source_images arts)"
proof -
  obtain rdata rimgs sdata simgs where
    rec: "resolve_one env os1 receiver_artifact Receiver = Inr (as_receiver arts, rdata, rimgs)"
    and src: "resolve_one env os2 source_artifact Source = Inr (as_source arts, sdata, simgs)"
    and ri: "as_receiver_images arts = map (staged_image (as_staging_root arts) ''receiver-'') rimgs"
    and si: "as_source_images arts = map (staged_image (as_staging_root arts) ''source-'') simgs"
    using resolve_artifacts_settled [OF calm, where env = env and ?os1.0 = os1 and ?os2.0 = os2 and parent_of = parent_of and fresh_dir = fresh_dir
      and ra = receiver_artifact and sa = source_artifact and sp = staging_parent]
    unfolding made staged_set_def by auto
  have archives: "revalidate_archive env (rv, rv') (as_receiver arts) = Inr ()" "revalidate_archive env (sv, sv') (as_source arts) = Inr ()"
    and images: "\<forall>i \<in> set (as_receiver_images arts) \<union> set (as_source_images arts). revalidate_image env os i = Inr ()"
    using valid by (auto simp: revalidate_artifact_set_def rall_eq_Inr)
  have kinds: "id_kind (as_receiver arts) = Receiver" "id_kind (as_source arts) = Source"
    using resolve_one_kind [OF rec] resolve_one_kind [OF src] by simp_all
  have "list_all (flashable env os Receiver rdata) (as_receiver_images arts)"
    unfolding ri by (rule staged_flashable [OF rec]) (use images ri in simp)
  moreover have "list_all (flashable env os Source sdata) (as_source_images arts)"
    unfolding si by (rule staged_flashable [OF src]) (use images si in simp)
  ultimately show ?thesis
    using rec src revalidated_archive [OF archives(1)] revalidated_archive [OF archives(2)] unfolding kinds by auto
qed

theorem flashed_is_validated_witness:
  "sample_revalidate = Inr () \<and>
   (\<exists>rdata rimgs. resolve_one sample_env (sample_view sample_raw) (PStr (sample_path Receiver)) Receiver = Inr (as_receiver sample_set, rdata, rimgs) \<and>
     list_all (flashable sample_env (sample_view (\<lambda>_. sample_hex)) Receiver rdata) (as_receiver_images sample_set))"
proof -
  have fresh: "\<not> sg_there sample_staging" by (simp add: sample_staging_def)
  obtain sg where made: "sample_resolve = (sg, Inr sample_set)" using sample_staged by blast
  show ?thesis
    using sample_revalidated flashed_is_validated [OF made sample_script(2) fresh sample_revalidated] by auto
qed

end
