(* ===== verification/Hil_Qualification.thy ===== *)
theory Hil_Qualification
  imports Hil_Model Py_Float Py_JsonDump
begin

text \<open>
  Capture qualifications, \<open>scripts/hil/qualification.py\<close>: the tables of metrics, the reader of an accepted qualification
  with the files it refers to, and the comparison of the metrics of a capture with the qualified limits.  SHA-256, the
  faults of reading a file and the year as \<open>strftime\<close> writes it are parameters.
\<close>

section \<open>Tables\<close>

definition ROOT_KEYS :: "string list" where
  "ROOT_KEYS =
     [''schema_version'', ''status'', ''capability'', ''fixture_id'', ''capture_identity'', ''fixture_metadata_sha256'',
      ''qualification_runs'', ''limits'', ''accepted_by'', ''accepted_at_utc'']"

definition RUN_KEYS :: "string list" where
  "RUN_KEYS =
     [''duration_seconds'', ''wav_path'', ''wav_sha256'', ''analyzer_result_path'', ''analyzer_result_sha256'', ''timestamp_utc'',
      ''outcome'']"

definition LIMIT_KEYS :: "string list" where
  "LIMIT_KEYS = [''min'', ''max'']"

definition MONO_LIMIT_METRICS :: "string list" where
  "MONO_LIMIT_METRICS =
     [''sample_rate_hz'', ''channel_count'', ''sample_width_bits'', ''frame_count'', ''duration_seconds'', ''scored_start_sample'',
      ''scored_end_sample'', ''scored_duration_seconds'', ''preamble_correlation'', ''preamble_unique_peak_margin'',
      ''expected_carrier_power'', ''unexpected_carrier_power'', ''envelope_correlation'', ''lag_samples'', ''lag_drift_samples'',
      ''peak_normalized'', ''full_scale_count'', ''clipping_count'', ''noise_floor'', ''dc_offset'', ''moving_rms_min'',
      ''low_energy_window_count'', ''longest_low_energy_run'', ''repeat_variation'']"

definition per_channel :: "string list \<Rightarrow> string list" where
  "per_channel names = concat (map (\<lambda>channel. map (\<lambda>name. channel @ ''_'' @ name) names) [''left'', ''right''])"

definition STEREO_CHANNEL_METRICS :: "string list" where
  "STEREO_CHANNEL_METRICS = per_channel
     [''expected_carrier_power'', ''unexpected_carrier_power'', ''envelope_correlation'', ''lag_samples'', ''lag_drift_samples'',
      ''peak_normalized'', ''full_scale_count'', ''clipping_count'', ''noise_floor'', ''dc_offset'', ''moving_rms_min'',
      ''low_energy_window_count'', ''longest_low_energy_run'', ''repeat_variation'', ''continuity'']"

definition STEREO_LIMIT_METRICS :: "string list" where
  "STEREO_LIMIT_METRICS =
     MONO_LIMIT_METRICS @ STEREO_CHANNEL_METRICS @
     [''channel_map_margin'', ''opposite_channel_leakage'', ''duplication_correlation'', ''level_mismatch'']"

definition EXACT_RANGE_METRICS :: "string list" where
  "EXACT_RANGE_METRICS =
     [''sample_rate_hz'', ''channel_count'', ''sample_width_bits'', ''frame_count'', ''duration_seconds'', ''scored_start_sample'',
      ''scored_end_sample'', ''scored_duration_seconds'']"

definition MINIMUM_METRICS :: "string list" where
  "MINIMUM_METRICS =
     [''preamble_correlation'', ''preamble_unique_peak_margin'', ''expected_carrier_power'', ''envelope_correlation'',
      ''moving_rms_min'', ''channel_map_margin''] @
     per_channel [''expected_carrier_power'', ''envelope_correlation'', ''moving_rms_min'']"

definition MAXIMUM_METRICS :: "string list" where
  "MAXIMUM_METRICS =
     filter (\<lambda>n. n \<notin> set EXACT_RANGE_METRICS \<and> n \<notin> set MINIMUM_METRICS) (MONO_LIMIT_METRICS @ STEREO_LIMIT_METRICS)"

abbreviation qual_err :: "msg \<Rightarrow> 'a result" where
  "qual_err m \<equiv> Inl (QualificationError m)"

section \<open>Records\<close>

text \<open>A limit that is absent is \<open>PNone\<close>.\<close>

record metric_limit =
  ml_minimum :: pyval
  ml_maximum :: pyval

definition limit_as_dict :: "metric_limit \<Rightarrow> pydict" where
  "limit_as_dict l =
     (if ml_minimum l \<noteq> PNone then [(''min'', ml_minimum l)] else []) @ (if ml_maximum l \<noteq> PNone then [(''max'', ml_maximum l)] else [])"

record qualification_run =
  qr_duration_seconds :: int
  qr_wav_path :: string
  qr_wav_sha256 :: string
  qr_analyzer_result_path :: string
  qr_analyzer_result_sha256 :: string
  qr_timestamp_utc :: string
  qr_outcome :: string

record capture_qualification =
  cq_path :: string
  cq_sha256 :: string
  cq_capability :: capture_capability
  cq_fixture_id :: string
  cq_capture_identity :: pydict
  cq_fixture_metadata_sha256 :: string
  cq_qualification_runs :: "qualification_run list"
  cq_limits :: "(string \<times> metric_limit) list"
  cq_accepted_by :: string
  cq_accepted_at_utc :: string

definition metric_names :: "capture_capability \<Rightarrow> string list result" where
  "metric_names capability =
     (case capability of
        CAP_MONO \<Rightarrow> Inr MONO_LIMIT_METRICS
      | CAP_STEREO \<Rightarrow> Inr STEREO_LIMIT_METRICS
      | CAP_NONE \<Rightarrow> qual_err (text_msg ''capture qualification requires mono or stereo capability''))"

definition capture_identity :: "capture_binding \<Rightarrow> pydict" where
  "capture_identity cb =
     [(''backend'', PStr (cb_backend cb)), (''device'', PStr (cb_device cb)), (''channels'', PInt (cb_channels cb)),
      (''sample_rate'', PInt (cb_sample_rate cb)), (''sample_format'', PStr (cb_sample_format cb)),
      (''udev'', PDict (map (\<lambda>(k, v). (k, PStr v)) (cb_udev cb))),
      (''mixer'', PDict
         [(''control'', PStr (cm_control (cb_mixer cb))), (''volume'', PStr (cm_volume (cb_mixer cb))),
          (''capture_switch'', PStr (cm_capture_switch (cb_mixer cb))), (''agc_control'', PStr (cm_agc_control (cb_mixer cb))),
          (''agc'', PStr (cm_agc (cb_mixer cb)))])]"

section \<open>Files\<close>

text \<open>The surroundings: the root of the repository, the digest, the error that opening a path meets, the printer of floats
  and \<open>strftime ("%Y")\<close>.\<close>

record qual_env =
  qe_repo_root :: string
  qe_digest :: "string \<Rightarrow> string"
  qe_fault :: "string \<Rightarrow> exn option"
  qe_frepr :: "pyfloat \<Rightarrow> string"
  qe_year :: "nat \<Rightarrow> string"

definition canonical_path :: "qual_env \<Rightarrow> fsys \<Rightarrow> pyval \<Rightarrow> string \<Rightarrow> string result" where
  "canonical_path env fs path label =
     (case path of
        PStr p \<Rightarrow>
          if p = [] \<or> \<not> isabs p then qual_err (in_msg ''%s must be an absolute path'' label)
          else if islink fs p then qual_err (in_msg2 ''%s must not be a symlink: %s'' label p)
          else
            (let canonical = realpath fs p; repo = realpath fs (qe_repo_root env) in
             if canonical \<noteq> normpath p then qual_err (in_msg2 ''%s must be canonical: %s'' label p)
             else if canonical = repo \<or> startswith canonical (repo @ [slash])
             then qual_err (in_msg2 ''%s must be outside repository: %s'' label p)
             else
               (case resolve_all fs (comps canonical) of (q, ok) \<Rightarrow>
                  (case (if ok then node_at fs q else None) of
                     None \<Rightarrow> qual_err (Fmt ''cannot inspect %s %s: %s'' [AV (PStr label), AV (PStr p), AX ENOENT])
                   | Some (File _) \<Rightarrow> Inr canonical
                   | Some _ \<Rightarrow> qual_err (in_msg2 ''%s must be a regular file: %s'' label p))))
      | _ \<Rightarrow> qual_err (in_msg ''%s must be an absolute path'' label))"

definition read_regular :: "qual_env \<Rightarrow> fsys \<Rightarrow> pyval \<Rightarrow> string \<Rightarrow> (string \<times> string) result" where
  "read_regular env fs path label =
     rbind (canonical_path env fs path label) (\<lambda>canonical.
       case read_bytes (qe_fault env canonical) fs canonical of
         Inr payload \<Rightarrow> Inr (canonical, payload)
       | Inl exc \<Rightarrow>
           if is_OSError exc then qual_err (Fmt ''cannot read %s %s: %s'' [AV (PStr label), AV path, AX exc]) else Inl exc)"

section \<open>Fields\<close>

definition require_text :: "pydict \<Rightarrow> string \<Rightarrow> string \<Rightarrow> string result" where
  "require_text obj key loc =
     (case dict_get obj key of
        PStr s \<Rightarrow> if s = [] then qual_err (in_msg2 ''%s must be nonempty text in %s'' key loc) else Inr s
      | _ \<Rightarrow> qual_err (in_msg2 ''%s must be nonempty text in %s'' key loc))"

definition require_exact_keys :: "pyval \<Rightarrow> string list \<Rightarrow> string \<Rightarrow> pydict result" where
  "require_exact_keys v allowed loc =
     (case v of
        PDict obj \<Rightarrow>
          let unknown = filter (\<lambda>k. k \<notin> set allowed) (dict_keys obj); missing = filter (\<lambda>k. k \<notin> set (dict_keys obj)) allowed in
          if unknown \<noteq> [] then qual_err (in_msg2 ''unknown key %r in %s'' (hd (sort unknown)) loc)
          else if missing \<noteq> [] then qual_err (in_msg2 ''missing key %r in %s'' (hd (sort missing)) loc)
          else Inr obj
      | _ \<Rightarrow> qual_err (in_msg ''%s must be an object'' loc))"

text \<open>\<open>math.isfinite\<close> converts an integer to a double first, which may overflow.\<close>

definition is_number :: "pyval \<Rightarrow> bool result" where
  "is_number v =
     (case v of
        PInt i \<Rightarrow> rbind (float_of_int i) (\<lambda>_. Inr True)
      | PFloat (Fin _) \<Rightarrow> Inr True
      | _ \<Rightarrow> Inr False)"

definition utc_shape :: "string \<Rightarrow> bool" where
  "utc_shape s \<longleftrightarrow> list_all2 (\<lambda>p c. if p = CHR ''9'' then is_digit c else c = p) ''9999-99-99T99:99:99Z'' s"

definition days_in_month :: "nat \<Rightarrow> nat \<Rightarrow> nat" where
  "days_in_month year month =
     (if month = 2 then (if year mod 4 = 0 \<and> (year mod 100 \<noteq> 0 \<or> year mod 400 = 0) then 29 else 28)
      else if month \<in> {4, 6, 9, 11} then 30 else 31)"

text \<open>\<open>datetime.strptime\<close> on a text of that shape, and \<open>strftime\<close> back: only the year may be written differently.\<close>

definition utc_number :: "string \<Rightarrow> nat \<Rightarrow> nat \<Rightarrow> nat" where
  "utc_number s from len = nat_of_dec (take len (drop from s))"

definition utc_valid :: "string \<Rightarrow> bool" where
  "utc_valid s \<longleftrightarrow>
     (let year = utc_number s 0 4; month = utc_number s 5 2; day = utc_number s 8 2 in
      1 \<le> year \<and> 1 \<le> month \<and> month \<le> 12 \<and> 1 \<le> day \<and> day \<le> days_in_month year month \<and>
      utc_number s 11 2 < 24 \<and> utc_number s 14 2 < 60 \<and> utc_number s 17 2 < 60)"

definition canonical_utc :: "qual_env \<Rightarrow> pyval \<Rightarrow> string \<Rightarrow> string result" where
  "canonical_utc env v loc =
     (case v of
        PStr s \<Rightarrow>
          if \<not> utc_shape s then qual_err (in_msg ''%s must be canonical UTC YYYY-MM-DDTHH:MM:SSZ'' loc)
          else if \<not> utc_valid s then qual_err (in_msg ''%s is not a valid UTC timestamp'' loc)
          else if qe_year env (utc_number s 0 4) @ drop 4 s \<noteq> s then qual_err (in_msg ''%s must be canonical UTC'' loc)
          else Inr s
      | _ \<Rightarrow> qual_err (in_msg ''%s must be canonical UTC YYYY-MM-DDTHH:MM:SSZ'' loc))"

definition sha256_shape :: "string \<Rightarrow> bool" where
  "sha256_shape s \<longleftrightarrow> length s = 64 \<and> list_all hex_digit s"

definition require_sha256 :: "pyval \<Rightarrow> string \<Rightarrow> string result" where
  "require_sha256 v loc =
     (case v of
        PStr s \<Rightarrow> if sha256_shape s then Inr s else qual_err (in_msg ''%s must be a lowercase SHA-256'' loc)
      | _ \<Rightarrow> qual_err (in_msg ''%s must be a lowercase SHA-256'' loc))"

section \<open>Runs and limits\<close>

text \<open>A file and the hash recorded for it.\<close>

definition hashed_file :: "qual_env \<Rightarrow> fsys \<Rightarrow> pydict \<Rightarrow> string \<Rightarrow> string \<Rightarrow> string \<Rightarrow> string \<Rightarrow> (string \<times> string \<times> string) result" where
  "hashed_file env fs item loc path_key sha_key mismatch =
     rbind (read_regular env fs (dict_get item path_key) (loc @ ''.'' @ path_key)) (\<lambda>(path, payload).
     rbind (require_sha256 (dict_get item sha_key) (loc @ ''.'' @ sha_key)) (\<lambda>sha.
       if qe_digest env payload \<noteq> sha then qual_err (in_msg mismatch loc) else Inr (path, payload, sha)))"

definition analyzer_passed :: "string \<Rightarrow> string \<Rightarrow> unit result" where
  "analyzer_passed payload loc =
     (let invalid = qual_err (in_msg ''%s analyzer result is invalid JSON'' loc);
          failed = qual_err (in_msg ''%s analyzer result is not passed'' loc) in
      if \<not> utf8_valid payload then invalid
      else (case json_loads dict_of_pairs payload of
          Inl _ \<Rightarrow> invalid
        | Inr (PDict d) \<Rightarrow> if dict_get d ''outcome'' \<noteq> PStr ''passed'' then failed else Inr ()
        | Inr _ \<Rightarrow> failed))"

definition parse_run :: "qual_env \<Rightarrow> fsys \<Rightarrow> nat \<times> pyval \<Rightarrow> qualification_run result" where
  "parse_run env fs indexed =
     (case indexed of (index, v) \<Rightarrow>
      let loc = ''qualification_runs['' @ dec_of_nat index @ '']'' in
      rbind (require_exact_keys v RUN_KEYS loc) (\<lambda>item.
        if dict_get item ''duration_seconds'' \<noteq> PInt 130 then qual_err (in_msg ''%s duration_seconds must be exactly 130'' loc)
        else
          rbind (hashed_file env fs item loc ''wav_path'' ''wav_sha256'' ''%s WAV SHA-256 mismatch'') (\<lambda>(wav_path, _, wav_sha).
          rbind (hashed_file env fs item loc ''analyzer_result_path'' ''analyzer_result_sha256'' ''%s analyzer result SHA-256 mismatch'')
            (\<lambda>(analyzer_path, analyzer_payload, analyzer_sha).
          rbind (analyzer_passed analyzer_payload loc) (\<lambda>_.
          rbind (canonical_utc env (dict_get item ''timestamp_utc'') (loc @ ''.timestamp_utc'')) (\<lambda>timestamp.
            if dict_get item ''outcome'' \<noteq> PStr ''passed'' then qual_err (in_msg ''%s outcome must be passed'' loc)
            else Inr \<lparr>qr_duration_seconds = 130, qr_wav_path = wav_path, qr_wav_sha256 = wav_sha,
              qr_analyzer_result_path = analyzer_path, qr_analyzer_result_sha256 = analyzer_sha, qr_timestamp_utc = timestamp,
              qr_outcome = ''passed''\<rparr>))))))"

text \<open>One side of a limit: absent, or a finite number.\<close>

definition check_bound :: "pydict \<Rightarrow> string \<Rightarrow> string \<Rightarrow> string \<Rightarrow> unit result" where
  "check_bound item key loc fmt =
     (if dict_get item key = PNone then Inr ()
      else rbind (is_number (dict_get item key)) (\<lambda>ok. if ok then Inr () else qual_err (in_msg fmt loc)))"

definition parse_limit :: "string \<Rightarrow> pyval \<Rightarrow> metric_limit result" where
  "parse_limit name v =
     (let loc = ''limits.'' @ name in
      case v of
        PDict item \<Rightarrow>
          let unknown = filter (\<lambda>k. k \<notin> set LIMIT_KEYS) (dict_keys item);
              minimum = dict_get item ''min''; maximum = dict_get item ''max'';
              has_min = (minimum \<noteq> PNone); has_max = (maximum \<noteq> PNone) in
          if unknown \<noteq> [] then qual_err (in_msg2 ''unknown key %r in %s'' (hd (sort unknown)) loc)
          else if item = [] then qual_err (in_msg ''%s needs min and/or max'' loc)
          else
            rbind (check_bound item ''min'' loc ''%s min must be a finite JSON number'') (\<lambda>_.
            rbind (check_bound item ''max'' loc ''%s max must be a finite JSON number'') (\<lambda>_.
              if \<not> has_min \<and> ''min'' \<in> set (dict_keys item) then qual_err (in_msg ''%s min must not be null'' loc)
              else if \<not> has_max \<and> ''max'' \<in> set (dict_keys item) then qual_err (in_msg ''%s max must not be null'' loc)
              else
                rbind (if has_min \<and> has_max then py_lt maximum minimum else Inr False) (\<lambda>crossed.
                  if crossed then qual_err (in_msg ''%s min exceeds max'' loc)
                  else if name \<in> set EXACT_RANGE_METRICS \<and> (\<not> has_min \<or> \<not> has_max)
                  then qual_err (in_msg ''%s requires explicit min and max'' loc)
                  else if name \<in> set MINIMUM_METRICS \<and> (\<not> has_min \<or> has_max)
                  then qual_err (in_msg ''%s requires explicit min only'' loc)
                  else if name \<in> set MAXIMUM_METRICS \<and> (\<not> has_max \<or> has_min)
                  then qual_err (in_msg ''%s requires explicit max only'' loc)
                  else Inr \<lparr>ml_minimum = minimum, ml_maximum = maximum\<rparr>)))
      | _ \<Rightarrow> qual_err (in_msg ''%s must be an object'' loc))"

section \<open>The qualification\<close>

definition canonical_text :: "qual_env \<Rightarrow> pydict \<Rightarrow> string" where
  "canonical_text env obj = json_dumps (qe_frepr env) '','' '':'' (sort_keys (PDict obj)) @ [CHR 0x0A]"

definition parse_document :: "qual_env \<Rightarrow> string \<Rightarrow> pydict result" where
  "parse_document env payload =
     (let invalid = (\<lambda>e. qual_err (exn_msg ''invalid qualification JSON: %s'' e)) in
      if \<not> utf8_valid payload then invalid UnicodeDecodeError
      else (case json_loads_with False (reject_dup_loop []) payload of
          Inl (DuplicateKeyError k) \<Rightarrow> qual_err (in_msg ''duplicate key %r in qualification'' k)
        | Inl e \<Rightarrow> invalid e
        | Inr (PDict obj) \<Rightarrow>
            if payload \<noteq> canonical_text env obj
            then qual_err (text_msg ''qualification JSON must use canonical sorted encoding'')
            else require_exact_keys (PDict obj) ROOT_KEYS ''qualification''
        | Inr _ \<Rightarrow> qual_err (text_msg ''qualification must contain an object'')))"

definition check_identity :: "logical_fixture \<Rightarrow> capture_binding \<Rightarrow> pydict \<Rightarrow> string result" where
  "check_identity fixture cb obj =
     (if \<not> py_eq (dict_get obj ''schema_version'') (PInt 1) \<or> isinstance_bool (dict_get obj ''schema_version'')
      then qual_err (text_msg ''qualification schema_version must be 1'')
      else if dict_get obj ''status'' \<noteq> PStr ''accepted'' then qual_err (text_msg ''qualification status must be accepted'')
      else if dict_get obj ''capability'' \<noteq> PStr (capability_value (lf_capture_capability fixture))
      then qual_err (text_msg ''qualification capability does not match fixture'')
      else if dict_get obj ''fixture_id'' \<noteq> PStr (lf_fixture_id fixture)
      then qual_err (text_msg ''qualification fixture_id does not match fixture'')
      else if \<not> py_eq (dict_get obj ''capture_identity'') (PDict (capture_identity cb))
      then qual_err (text_msg ''qualification capture_identity does not match binding'')
      else
        rbind (require_sha256 (dict_get obj ''fixture_metadata_sha256'') ''qualification.fixture_metadata_sha256'') (\<lambda>sha.
          if sha \<noteq> cf_sha256 (cb_fixture_metadata cb) then qual_err (text_msg ''qualification fixture metadata SHA-256 drift'')
          else Inr sha))"

definition parse_runs :: "qual_env \<Rightarrow> fsys \<Rightarrow> pyval \<Rightarrow> qualification_run list result" where
  "parse_runs env fs v =
     (case v of
        PList raw_runs \<Rightarrow>
          if length raw_runs < 2 then qual_err (text_msg ''qualification needs at least two qualification runs'')
          else rmap (parse_run env fs) (enumerate 0 raw_runs)
      | _ \<Rightarrow> qual_err (text_msg ''qualification needs at least two qualification runs''))"

definition parse_limits :: "capture_capability \<Rightarrow> pyval \<Rightarrow> (string \<times> metric_limit) list result" where
  "parse_limits capability v =
     (case v of
        PDict limits \<Rightarrow>
          rbind (metric_names capability) (\<lambda>names.
            let missing = filter (\<lambda>n. n \<notin> set (dict_keys limits)) names; unknown = filter (\<lambda>n. n \<notin> set names) (dict_keys limits) in
            if missing \<noteq> [] then qual_err (in_msg ''qualification limits missing metric %r'' (hd (sort missing)))
            else if unknown \<noteq> [] then qual_err (in_msg ''qualification limits unknown metric %r'' (hd (sort unknown)))
            else rmap (\<lambda>name. rbind (parse_limit name (dict_get limits name)) (\<lambda>l. Inr (name, l))) names)
      | _ \<Rightarrow> qual_err (text_msg ''qualification limits must be an object''))"

definition load_qualification ::
  "qual_env \<Rightarrow> fsys \<Rightarrow> pyval \<Rightarrow> logical_fixture \<Rightarrow> physical_binding \<Rightarrow> capture_qualification result" where
  "load_qualification env fs path fixture binding =
     (if lf_capture_capability fixture = CAP_NONE then qual_err (text_msg ''none capture capability cannot use qualification'')
      else (case map_of (pbd_roles binding) ''capture'' of
          Some (CaptureRole cb) \<Rightarrow>
            rbind (read_regular env fs path ''qualification'') (\<lambda>(canonical, payload).
            rbind (parse_document env payload) (\<lambda>obj.
            rbind (check_identity fixture cb obj) (\<lambda>metadata_sha.
            rbind (parse_runs env fs (dict_get obj ''qualification_runs'')) (\<lambda>runs.
            rbind (parse_limits (lf_capture_capability fixture) (dict_get obj ''limits'')) (\<lambda>limits.
            rbind (require_text obj ''accepted_by'' ''qualification'') (\<lambda>accepted_by.
            rbind (canonical_utc env (dict_get obj ''accepted_at_utc'') ''qualification.accepted_at_utc'') (\<lambda>accepted_at.
              Inr \<lparr>cq_path = canonical, cq_sha256 = qe_digest env payload, cq_capability = lf_capture_capability fixture,
                cq_fixture_id = lf_fixture_id fixture, cq_capture_identity = capture_identity cb,
                cq_fixture_metadata_sha256 = metadata_sha, cq_qualification_runs = runs, cq_limits = limits,
                cq_accepted_by = accepted_by, cq_accepted_at_utc = accepted_at\<rparr>)))))))
        | _ \<Rightarrow> qual_err (text_msg ''validated capture binding is required'')))"

definition validate_current_qualification ::
  "qual_env \<Rightarrow> fsys \<Rightarrow> capture_qualification \<Rightarrow> logical_fixture \<Rightarrow> physical_binding \<Rightarrow> capture_qualification result" where
  "validate_current_qualification env fs qualification fixture binding =
     rbind (load_qualification env fs (PStr (cq_path qualification)) fixture binding) (\<lambda>current.
       if cq_sha256 current \<noteq> cq_sha256 qualification then qual_err (text_msg ''qualification file changed after validation'')
       else Inr current)"

section \<open>Evaluation\<close>

record metric_result =
  mr_value :: pyval
  mr_limit :: pydict
  mr_pass :: bool

text \<open>A value is compared with a bound only while it still passes.\<close>

definition evaluate_metric :: "pydict \<Rightarrow> metric_limit \<Rightarrow> string \<Rightarrow> metric_result result" where
  "evaluate_metric metrics limit name =
     (let value = dict_get metrics name in
      rbind (is_number value) (\<lambda>number.
      rbind (if number \<and> ml_minimum limit \<noteq> PNone then py_lt value (ml_minimum limit) else Inr False) (\<lambda>low.
      rbind (if number \<and> \<not> low \<and> ml_maximum limit \<noteq> PNone then py_lt (ml_maximum limit) value else Inr False) (\<lambda>high.
        Inr \<lparr>mr_value = value, mr_limit = limit_as_dict limit, mr_pass = number \<and> \<not> low \<and> \<not> high\<rparr>))))"

definition evaluate_limits :: "pydict \<Rightarrow> capture_qualification \<Rightarrow> ((string \<times> metric_result) list \<times> bool) result" where
  "evaluate_limits metrics qualification =
     rbind (metric_names (cq_capability qualification)) (\<lambda>names.
     rbind (rmap (\<lambda>name.
         case map_of (cq_limits qualification) name of
           None \<Rightarrow> Inl (KeyError (PStr name))
         | Some limit \<Rightarrow> rbind (evaluate_metric metrics limit name) (\<lambda>r. Inr (name, r))) names) (\<lambda>results.
       Inr (results, list_all (\<lambda>(_, r). mr_pass r) results)))"

section \<open>What a loaded qualification is\<close>

text \<open>The rational that a finite number denotes; booleans do not count.\<close>

fun bound_of :: "pyval \<Rightarrow> rat option" where
  "bound_of (PInt i) = Some (of_int i)"
| "bound_of (PFloat (Fin q)) = Some q"
| "bound_of _ = None"

text \<open>The shape of a limit by the class of its metric.\<close>

definition limit_ok :: "string \<Rightarrow> metric_limit \<Rightarrow> bool" where
  "limit_ok name l \<longleftrightarrow>
     (if name \<in> set EXACT_RANGE_METRICS
      then (\<exists>a b. bound_of (ml_minimum l) = Some a \<and> bound_of (ml_maximum l) = Some b \<and> a \<le> b)
      else if name \<in> set MINIMUM_METRICS then bound_of (ml_minimum l) \<noteq> None \<and> ml_maximum l = PNone
      else bound_of (ml_maximum l) \<noteq> None \<and> ml_minimum l = PNone)"

definition utc_ok :: "string \<Rightarrow> bool" where
  "utc_ok s \<longleftrightarrow> utc_shape s \<and> utc_valid s"

text \<open>A readable regular file outside the repository, with its contents.\<close>

definition outside_file :: "qual_env \<Rightarrow> fsys \<Rightarrow> string \<Rightarrow> string \<Rightarrow> bool" where
  "outside_file env fs path contents \<longleftrightarrow>
     read_bytes None fs path = Inr contents \<and> realpath fs (qe_repo_root env) \<noteq> path \<and>
     \<not> startswith path (realpath fs (qe_repo_root env) @ [slash])"

definition run_verified :: "qual_env \<Rightarrow> fsys \<Rightarrow> qualification_run \<Rightarrow> bool" where
  "run_verified env fs r \<longleftrightarrow>
     qr_duration_seconds r = 130 \<and> qr_outcome r = ''passed'' \<and> utc_ok (qr_timestamp_utc r) \<and>
     (\<exists>wav. outside_file env fs (qr_wav_path r) wav \<and> qe_digest env wav = qr_wav_sha256 r) \<and>
     (\<exists>res d. outside_file env fs (qr_analyzer_result_path r) res \<and> qe_digest env res = qr_analyzer_result_sha256 r \<and>
        json_loads dict_of_pairs res = Inr (PDict d) \<and> dict_get d ''outcome'' = PStr ''passed'')"

lemma read_regular_Inr:
  assumes "read_regular env fs path label = Inr (p, payload)"
  shows "outside_file env fs p payload"
proof -
  obtain q where q: "canonical_path env fs path label = Inr q"
    and r: "(case read_bytes (qe_fault env q) fs q of
         Inr payload \<Rightarrow> Inr (q, payload)
       | Inl exc \<Rightarrow>
           if is_OSError exc then qual_err (Fmt ''cannot read %s %s: %s'' [AV (PStr label), AV path, AX exc]) else Inl exc) = Inr (p, payload)"
    using assms by (auto simp: read_regular_def)
  have "p = q" and "read_bytes (qe_fault env q) fs q = Inr payload" using r by (auto split: sum.splits if_splits)
  then have "read_bytes None fs p = Inr payload" by (cases "qe_fault env q") (auto simp: read_bytes_def)
  then show ?thesis
    using q \<open>p = q\<close>
    by (auto simp: canonical_path_def outside_file_def Let_def split: pyval.splits if_splits prod.splits option.splits node.splits)
qed

lemma require_sha256_Inr: "require_sha256 v loc = Inr s \<longleftrightarrow> v = PStr s \<and> sha256_shape s"
  by (auto simp: require_sha256_def split: pyval.splits if_splits)

lemma canonical_utc_Inr: "canonical_utc env v loc = Inr s \<Longrightarrow> v = PStr s \<and> utc_ok s"
  by (auto simp: canonical_utc_def utc_ok_def split: pyval.splits if_splits)

lemma hashed_file_Inr:
  assumes "hashed_file env fs item loc pk sk mismatch = Inr (p, payload, sha)"
  shows "outside_file env fs p payload \<and> qe_digest env payload = sha"
  using assms by (auto simp: hashed_file_def split: prod.splits if_splits dest: read_regular_Inr)

lemma analyzer_passed_Inr:
  assumes "analyzer_passed payload loc = Inr ()"
  shows "\<exists>d. json_loads dict_of_pairs payload = Inr (PDict d) \<and> dict_get d ''outcome'' = PStr ''passed''"
  using assms by (auto simp: analyzer_passed_def Let_def split: if_splits sum.splits pyval.splits)

lemma parse_run_Inr:
  assumes "parse_run env fs (i, v) = Inr r"
  shows "run_verified env fs r"
proof -
  let ?loc = "''qualification_runs['' @ dec_of_nat i @ '']''"
  obtain item wp wb ws ap ab as t where
    wav: "hashed_file env fs item ?loc ''wav_path'' ''wav_sha256'' ''%s WAV SHA-256 mismatch'' = Inr (wp, wb, ws)"
    and res: "hashed_file env fs item ?loc ''analyzer_result_path'' ''analyzer_result_sha256'' ''%s analyzer result SHA-256 mismatch'' = Inr (ap, ab, as)"
    and passed: "analyzer_passed ab ?loc = Inr ()"
    and t: "canonical_utc env (dict_get item ''timestamp_utc'') (?loc @ ''.timestamp_utc'') = Inr t"
    and r: "r = \<lparr>qr_duration_seconds = 130, qr_wav_path = wp, qr_wav_sha256 = ws,
              qr_analyzer_result_path = ap, qr_analyzer_result_sha256 = as, qr_timestamp_utc = t, qr_outcome = ''passed''\<rparr>"
    using assms unfolding parse_run_def prod.case Let_def by (auto split: prod.splits if_splits)
  show ?thesis
    using hashed_file_Inr [OF wav] hashed_file_Inr [OF res] analyzer_passed_Inr [OF passed] canonical_utc_Inr [OF t]
    by (auto simp: run_verified_def r)
qed

lemma is_number_bound: "is_number v = Inr True \<Longrightarrow> bound_of v \<noteq> None"
  by (auto simp: is_number_def split: pyval.splits pyfloat.splits)

lemma bound_to_num: "bound_of v = Some q \<Longrightarrow> to_num v = Some (Fin q)"
  by (cases v rule: bound_of.cases) auto

lemma bound_lt: "bound_of v = Some a \<Longrightarrow> bound_of w = Some b \<Longrightarrow> py_lt v w = Inr (a < b)"
  by (simp add: py_lt_def bound_to_num)

lemma check_bound_Inr:
  "check_bound item key loc fmt = Inr () \<Longrightarrow> dict_get item key \<noteq> PNone \<Longrightarrow> bound_of (dict_get item key) \<noteq> None"
  by (auto simp: check_bound_def dest: is_number_bound split: if_splits)

text \<open>Every metric is in one of the three classes.\<close>

lemma metric_classes:
  "list_all (\<lambda>n. n \<in> set EXACT_RANGE_METRICS \<or> n \<in> set MINIMUM_METRICS \<or> n \<in> set MAXIMUM_METRICS) (MONO_LIMIT_METRICS @ STEREO_LIMIT_METRICS)"
  by (auto simp: list_all_iff MAXIMUM_METRICS_def)

lemma exact_not_minimum: "list_all (\<lambda>n. n \<notin> set MINIMUM_METRICS) EXACT_RANGE_METRICS"
  by code_simp

lemma parse_limit_Inr:
  assumes "parse_limit name v = Inr l" and "name \<in> set (MONO_LIMIT_METRICS @ STEREO_LIMIT_METRICS)"
  shows "limit_ok name l"
proof -
  obtain item where v: "v = PDict item" using assms(1) by (cases v) (auto simp: parse_limit_def)
  let ?min = "dict_get item ''min''" and ?max = "dict_get item ''max''" and ?loc = "''limits.'' @ name"
  obtain crossed where
    bounds: "check_bound item ''min'' ?loc ''%s min must be a finite JSON number'' = Inr ()"
      "check_bound item ''max'' ?loc ''%s max must be a finite JSON number'' = Inr ()"
    and crossed: "(if ?min \<noteq> PNone \<and> ?max \<noteq> PNone then py_lt ?max ?min else Inr False) = Inr crossed" "\<not> crossed"
    and exact: "name \<in> set EXACT_RANGE_METRICS \<Longrightarrow> ?min \<noteq> PNone \<and> ?max \<noteq> PNone"
    and minimum: "name \<in> set MINIMUM_METRICS \<Longrightarrow> ?min \<noteq> PNone \<and> ?max = PNone"
    and maximum: "name \<in> set MAXIMUM_METRICS \<Longrightarrow> ?max \<noteq> PNone \<and> ?min = PNone"
    and l: "l = \<lparr>ml_minimum = ?min, ml_maximum = ?max\<rparr>"
    using assms(1) unfolding v parse_limit_def Let_def pyval.case by (auto split: if_splits)
  have num: "bound_of ?min \<noteq> None" if "?min \<noteq> PNone" using check_bound_Inr [OF bounds(1) that] .
  have num': "bound_of ?max \<noteq> None" if "?max \<noteq> PNone" using check_bound_Inr [OF bounds(2) that] .
  consider (e) "name \<in> set EXACT_RANGE_METRICS" | (m) "name \<notin> set EXACT_RANGE_METRICS" "name \<in> set MINIMUM_METRICS"
    | (x) "name \<notin> set EXACT_RANGE_METRICS" "name \<notin> set MINIMUM_METRICS" "name \<in> set MAXIMUM_METRICS"
    using metric_classes assms(2) by (auto simp: list_all_iff)
  then show ?thesis
  proof cases
    case e
    then obtain a b where ab: "bound_of ?min = Some a" "bound_of ?max = Some b" using exact num num' by blast
    with crossed exact [OF e] have "a \<le> b" by (simp add: bound_lt not_less)
    with e ab show ?thesis by (simp add: limit_ok_def l)
  next
    case m
    then show ?thesis using minimum num by (simp add: limit_ok_def l)
  next
    case x
    then show ?thesis using maximum num' by (simp add: limit_ok_def l)
  qed
qed

lemma parse_limits_Inr:
  assumes "parse_limits cap v = Inr limits"
  shows "metric_names cap = Inr (map fst limits)" and "\<forall>(n, l) \<in> set limits. limit_ok n l"
proof -
  obtain d names where v: "v = PDict d" and names: "metric_names cap = Inr names"
    and map: "rmap (\<lambda>name. rbind (parse_limit name (dict_get d name)) (\<lambda>l. Inr (name, l))) names = Inr limits"
    using assms by (cases v) (auto simp: parse_limits_def Let_def split: if_splits)
  have two: "list_all2 (\<lambda>n p. fst p = n \<and> parse_limit n (dict_get d n) = Inr (snd p)) names limits"
    using map by (auto simp: rmap_eq_Inr elim!: list_all2_mono)
  then have fst: "map fst limits = names" by (induction rule: list_all2_induct) auto
  then show "metric_names cap = Inr (map fst limits)" using names by simp
  have sub: "set names \<subseteq> set (MONO_LIMIT_METRICS @ STEREO_LIMIT_METRICS)"
    using names by (cases cap) (auto simp: metric_names_def)
  have "\<exists>v. parse_limit n v = Inr l" if "(n, l) \<in> set limits" for n l
    using two that by (induction rule: list_all2_induct) auto
  moreover have "n \<in> set names" if "(n, l) \<in> set limits" for n l using fst that by force
  ultimately show "\<forall>(n, l) \<in> set limits. limit_ok n l" using sub parse_limit_Inr by blast
qed

lemma parse_runs_Inr:
  assumes "parse_runs env fs v = Inr runs"
  shows "2 \<le> length runs" and "list_all (run_verified env fs) runs"
proof -
  obtain raw where raw: "2 \<le> length raw" "rmap (parse_run env fs) (enumerate 0 raw) = Inr runs"
    using assms by (cases v) (auto simp: parse_runs_def not_less split: if_splits)
  then have two: "list_all2 (\<lambda>p r. parse_run env fs p = Inr r) (enumerate 0 raw) runs" by (simp add: rmap_eq_Inr)
  show "2 \<le> length runs" using raw(1) list_all2_lengthD [OF two] by simp
  from two show "list_all (run_verified env fs) runs"
    by (induction rule: list_all2_induct) (auto dest: parse_run_Inr)
qed

lemma parse_document_Inr:
  assumes "parse_document env payload = Inr obj"
  shows "payload = canonical_text env obj \<and> set (dict_keys obj) = set ROOT_KEYS"
  using assms
  by (auto simp: parse_document_def require_exact_keys_def Let_def filter_empty_conv split: if_splits sum.splits exn.splits pyval.splits)

section \<open>Evaluation decides the limits\<close>

text \<open>A value in_limits a limit.\<close>

definition in_limits :: "metric_limit \<Rightarrow> pyval \<Rightarrow> bool" where
  "in_limits l v \<longleftrightarrow>
     (\<exists>x. bound_of v = Some x \<and> (\<forall>a. bound_of (ml_minimum l) = Some a \<longrightarrow> a \<le> x) \<and> (\<forall>b. bound_of (ml_maximum l) = Some b \<longrightarrow> x \<le> b))"

text \<open>The conversion of an integer to a double does not overflow.\<close>

definition fits_double :: "pyval \<Rightarrow> bool" where
  "fits_double v \<longleftrightarrow> (case v of PInt i \<Rightarrow> (\<exists>f. float_of_int i = Inr f) | _ \<Rightarrow> True)"

lemma is_number_total: "fits_double v \<Longrightarrow> is_number v = Inr (bound_of v \<noteq> None)"
  by (auto simp: fits_double_def is_number_def split: pyval.splits pyfloat.splits)

lemma limit_sides:
  assumes "limit_ok n l"
  shows "ml_minimum l = PNone \<or> bound_of (ml_minimum l) \<noteq> None" "ml_maximum l = PNone \<or> bound_of (ml_maximum l) \<noteq> None"
  using assms by (auto simp: limit_ok_def split: if_splits)

lemma evaluate_metric_exact:
  assumes "limit_ok n l" and "fits_double (dict_get metrics n)"
  shows "evaluate_metric metrics l n =
    Inr \<lparr>mr_value = dict_get metrics n, mr_limit = limit_as_dict l, mr_pass = in_limits l (dict_get metrics n)\<rparr>"
proof -
  let ?v = "dict_get metrics n"
  note number = is_number_total [OF assms(2)]
  show ?thesis
  proof (cases "bound_of ?v")
    case None
    then show ?thesis by (simp add: evaluate_metric_def Let_def number in_limits_def)
  next
    case (Some x)
    define low where "low \<longleftrightarrow> (\<exists>a. bound_of (ml_minimum l) = Some a \<and> x < a)"
    define high where "high \<longleftrightarrow> (\<exists>b. bound_of (ml_maximum l) = Some b \<and> b < x)"
    have l: "(if ml_minimum l \<noteq> PNone then py_lt ?v (ml_minimum l) else Inr False) = Inr low"
      using limit_sides(1) [OF assms(1)] Some by (auto simp: low_def bound_lt)
    have h: "(if ml_maximum l \<noteq> PNone then py_lt (ml_maximum l) ?v else Inr False) = Inr high"
      using limit_sides(2) [OF assms(1)] Some by (auto simp: high_def bound_lt)
    have "in_limits l ?v \<longleftrightarrow> \<not> low \<and> \<not> high" using Some by (auto simp: in_limits_def low_def high_def not_less)
    then show ?thesis
      using l h Some by (cases "ml_minimum l = PNone"; cases "ml_maximum l = PNone"; cases low) (auto simp: evaluate_metric_def Let_def number)
  qed
qed

lemma rmap_values: "(\<And>x. x \<in> set xs \<Longrightarrow> f x = Inr (g x)) \<Longrightarrow> rmap f xs = Inr (map g xs)"
  by (induction xs) auto

lemma metric_names_distinct: "distinct MONO_LIMIT_METRICS" "distinct STEREO_LIMIT_METRICS"
  by code_simp+

lemma loaded_limits:
  assumes "load_qualification env fs path fixture binding = Inr q"
  shows "metric_names (cq_capability q) = Inr (map fst (cq_limits q))" and "\<forall>(n, l) \<in> set (cq_limits q). limit_ok n l"
    and "distinct (map fst (cq_limits q))"
proof -
  obtain v where v: "parse_limits (cq_capability q) v = Inr (cq_limits q)"
    using assms by (auto simp: load_qualification_def split: if_splits option.splits role_binding.splits prod.splits)
  from parse_limits_Inr [OF v]
  show names: "metric_names (cq_capability q) = Inr (map fst (cq_limits q))" and "\<forall>(n, l) \<in> set (cq_limits q). limit_ok n l" by auto
  from names show "distinct (map fst (cq_limits q))"
    using metric_names_distinct by (cases "cq_capability q") (auto simp: metric_names_def)
qed

section \<open>Errors\<close>

text \<open>The exceptions of the reader: its own, the overflow of \<open>math.isfinite\<close>, and a fault of opening that is no
  \<open>OSError\<close>.\<close>

definition expected_error :: "qual_env \<Rightarrow> exn \<Rightarrow> bool" where
  "expected_error env e \<longleftrightarrow> (\<exists>m. e = QualificationError m) \<or> e = overflow_error \<or> (\<exists>p. qe_fault env p = Some e \<and> \<not> is_OSError e)"

lemma expected_own [simp]: "expected_error env (QualificationError m)" "expected_error env overflow_error"
  by (simp_all add: expected_error_def)

lemma raises_is_number: "raises (expected_error env) (is_number v)"
  by (auto simp: raises_def is_number_def float_of_int_def split: pyval.splits pyfloat.splits)

lemma raises_canonical_path: "raises (expected_error env) (canonical_path env fs path label)"
  by (cases path) (auto simp: canonical_path_def Let_def raises_def split: if_splits prod.splits option.splits node.splits)

lemma raises_read_regular: "raises (expected_error env) (read_regular env fs path label)"
proof -
  have fault: "is_OSError e \<or> qe_fault env p = Some e" if "read_bytes (qe_fault env p) fs p = Inl e" for p e
    using that by (auto simp: read_bytes_def split: option.splits prod.splits if_splits node.splits)
  have "raises (expected_error env) (case read_bytes (qe_fault env p) fs p of Inr payload \<Rightarrow> Inr (p, payload)
      | Inl exc \<Rightarrow> if is_OSError exc then qual_err (Fmt ''cannot read %s %s: %s'' [AV (PStr label), AV path, AX exc]) else Inl exc)" for p
    using fault by (auto simp: raises_def expected_error_def split: sum.splits if_splits)
  then show ?thesis unfolding read_regular_def by (intro raises_rbind raises_canonical_path)
qed

lemma raises_fields:
  "raises (expected_error env) (require_sha256 v loc)" "raises (expected_error env) (canonical_utc env v loc)"
  "raises (expected_error env) (require_text obj key loc)" "raises (expected_error env) (require_exact_keys v ks loc)"
  "raises (expected_error env) (analyzer_passed payload loc)" "raises (expected_error env) (metric_names cap)"
  by (auto simp: raises_def require_sha256_def canonical_utc_def require_text_def require_exact_keys_def analyzer_passed_def metric_names_def Let_def
      split: pyval.splits if_splits sum.splits capture_capability.splits)

lemma raises_hashed_file: "raises (expected_error env) (hashed_file env fs item loc pk sk mismatch)"
  unfolding hashed_file_def
  by (intro raises_rbind raises_read_regular) (auto intro!: raises_rbind raises_if raises_Inr raises_Inl raises_fields split: prod.splits)

lemma raises_parse_run: "raises (expected_error env) (parse_run env fs p)"
  unfolding parse_run_def Let_def
  by (auto intro!: raises_rbind raises_if raises_Inr raises_Inl raises_fields raises_hashed_file split: prod.splits)

lemma raises_check_bound: "raises (expected_error env) (check_bound item key loc fmt)"
  unfolding check_bound_def by (intro raises_if raises_rbind raises_is_number raises_Inr raises_Inl) simp_all

lemma raises_parse_limit: "raises (expected_error env) (parse_limit name v)"
proof (cases v)
  case (PDict item)
  have lt: "raises (expected_error env) (if has_min \<and> has_max then py_lt (dict_get item ''max'') (dict_get item ''min'') else Inr False)"
    if b: "check_bound item ''min'' loc f = Inr ()" "check_bound item ''max'' loc g = Inr ()"
      "has_min \<longleftrightarrow> dict_get item ''min'' \<noteq> PNone" "has_max \<longleftrightarrow> dict_get item ''max'' \<noteq> PNone" for loc f g has_min has_max
  proof (cases "has_min \<and> has_max")
    case True
    then obtain a b where "bound_of (dict_get item ''max'') = Some b" "bound_of (dict_get item ''min'') = Some a"
      using check_bound_Inr [OF b(1)] check_bound_Inr [OF b(2)] b(3,4) by blast
    then show ?thesis using True by (simp add: bound_lt raises_Inr)
  qed (auto intro: raises_Inr)
  show ?thesis unfolding PDict parse_limit_def Let_def pyval.case
    by (intro raises_if raises_rbind raises_check_bound raises_Inr raises_Inl lt expected_own) simp_all
qed (simp_all add: parse_limit_def raises_def)

lemma raises_parse_document: "raises (expected_error env) (parse_document env payload)"
  unfolding parse_document_def Let_def
  by (auto intro!: raises_if raises_Inl raises_fields split: sum.splits exn.splits pyval.splits)

lemma raises_check_identity: "raises (expected_error env) (check_identity fixture cb obj)"
  unfolding check_identity_def by (intro raises_if raises_rbind raises_fields raises_Inr raises_Inl expected_own)

lemma raises_parse_runs: "raises (expected_error env) (parse_runs env fs v)"
  unfolding parse_runs_def by (cases v) (auto intro!: raises_if raises_rmap raises_parse_run raises_Inl)

lemma raises_parse_limits: "raises (expected_error env) (parse_limits cap v)"
  unfolding parse_limits_def Let_def
  by (cases v) (auto intro!: raises_if raises_rmap raises_rbind raises_fields raises_parse_limit raises_Inl raises_Inr)

lemma raises_load: "raises (expected_error env) (load_qualification env fs path fixture binding)"
  unfolding load_qualification_def
  by (auto intro!: raises_if raises_rbind raises_read_regular raises_parse_document raises_check_identity raises_parse_runs raises_parse_limits
      raises_fields raises_Inr raises_Inl split: option.splits role_binding.splits prod.splits)

text \<open>The smallest integer that no double is near.\<close>

lemma bit_length_power: "bit_length (2 ^ n) = Suc n"
  by (induction n) (simp_all add: bit_length.simps)

lemma float_of_huge: "float_of_int (2 ^ 1024) = Inl overflow_error"
proof -
  define n :: nat where "n = 2 ^ 1024"
  have n: "nat \<bar>2 ^ 1024 :: int\<bar> = n" "\<not> (2 ^ 1024 :: int) < 0" by (simp_all add: n_def)
  have k: "int (bit_length n) - int (bit_length 1) = 1024" unfolding n_def bit_length_power by (simp add: bit_length.simps)
  have "double_of_frac False n 1 = Inf True"
    unfolding double_of_frac_def k Let_def by (simp add: n_def round_half_even_def Let_def)
  then show ?thesis by (simp only: float_of_int_def n if_False) simp
qed

section \<open>A sample qualification\<close>

text \<open>A mono fixture with its binding, two runs that share their files, and the limit 5 for every metric.\<close>

definition mono_fixture :: logical_fixture where
  "mono_fixture = example_fixture\<lparr>lf_capture_capability := CAP_MONO\<rparr>"

definition mono_capture :: capture_binding where
  "mono_capture = \<lparr>cb_backend = ''alsa'', cb_device = ''hw:USB,0'', cb_channels = 1, cb_sample_rate = 48000, cb_sample_format = ''S16_LE'',
     cb_udev = [(''ID_PATH'', ''pci-0'')],
     cb_mixer = \<lparr>cm_control = ''Mic'', cm_volume = ''0'', cm_capture_switch = ''on'', cm_agc_control = ''AGC'', cm_agc = ''off''\<rparr>,
     cb_fixture_metadata = \<lparr>cf_path = ''/lab/meta.json'', cf_sha256 = replicate 64 (CHR ''a''), cf_values = []\<rparr>\<rparr>"

definition mono_binding :: physical_binding where
  "mono_binding = \<lparr>pbd_schema_version = 1, pbd_fixture_id = ''lab-1'', pbd_roles = [(''capture'', CaptureRole mono_capture)]\<rparr>"

definition lab_env :: qual_env where
  "lab_env = \<lparr>qe_repo_root = ''/repo'', qe_digest = (\<lambda>_. replicate 64 (CHR ''a'')), qe_fault = (\<lambda>_. None), qe_frepr = (\<lambda>_. []),
     qe_year = dec_of_nat\<rparr>"

definition qual_run :: pyval where
  "qual_run =
     (let sha = PStr (replicate 64 (CHR ''a'')) in
      PDict [(''analyzer_result_path'', PStr ''/lab/r.json''), (''analyzer_result_sha256'', sha), (''duration_seconds'', PInt 130),
             (''outcome'', PStr ''passed''), (''timestamp_utc'', PStr ''2024-02-29T23:59:59Z''), (''wav_path'', PStr ''/lab/w.wav''),
             (''wav_sha256'', sha)])"

definition qual_limit :: "string \<Rightarrow> pyval" where
  "qual_limit n =
     PDict (if n \<in> set EXACT_RANGE_METRICS then [(''max'', PInt 5), (''min'', PInt 5)]
            else if n \<in> set MINIMUM_METRICS then [(''min'', PInt 5)] else [(''max'', PInt 5)])"

definition sorted_identity :: pydict where
  "sorted_identity =
     [(''backend'', PStr ''alsa''), (''channels'', PInt 1), (''device'', PStr ''hw:USB,0''),
      (''mixer'', PDict [(''agc'', PStr ''off''), (''agc_control'', PStr ''AGC''), (''capture_switch'', PStr ''on''), (''control'', PStr ''Mic''),
         (''volume'', PStr ''0'')]),
      (''sample_format'', PStr ''S16_LE''), (''sample_rate'', PInt 48000), (''udev'', PDict [(''ID_PATH'', PStr ''pci-0'')])]"

definition mono_sorted :: "string list" where
  "mono_sorted =
     [''channel_count'', ''clipping_count'', ''dc_offset'', ''duration_seconds'', ''envelope_correlation'', ''expected_carrier_power'',
      ''frame_count'', ''full_scale_count'', ''lag_drift_samples'', ''lag_samples'', ''longest_low_energy_run'', ''low_energy_window_count'',
      ''moving_rms_min'', ''noise_floor'', ''peak_normalized'', ''preamble_correlation'', ''preamble_unique_peak_margin'', ''repeat_variation'',
      ''sample_rate_hz'', ''sample_width_bits'', ''scored_duration_seconds'', ''scored_end_sample'', ''scored_start_sample'',
      ''unexpected_carrier_power'']"

definition qual_doc :: pydict where
  "qual_doc =
     [(''accepted_at_utc'', PStr ''2024-03-01T00:00:00Z''), (''accepted_by'', PStr ''lab''), (''capability'', PStr ''mono''),
      (''capture_identity'', PDict sorted_identity), (''fixture_id'', PStr ''lab-1''),
      (''fixture_metadata_sha256'', PStr (replicate 64 (CHR ''a''))),
      (''limits'', PDict (map (\<lambda>n. (n, qual_limit n)) mono_sorted)),
      (''qualification_runs'', PList [qual_run, qual_run]), (''schema_version'', PInt 1), (''status'', PStr ''accepted'')]"

definition analyzer_doc :: pydict where
  "analyzer_doc = [(''outcome'', PStr ''passed'')]"

definition analyzer_text :: string where
  "analyzer_text = json_dumps (\<lambda>_. []) '','' '':'' (PDict analyzer_doc)"

definition lab_files :: "string \<Rightarrow> string \<Rightarrow> fsys" where
  "lab_files doc res =
     [([''lab''], Dir), ([''lab'', ''q.json''], File doc), ([''lab'', ''r.json''], File res), ([''lab'', ''w.wav''], File ''RIFF'')]"

abbreviation qual_fs :: fsys where
  "qual_fs \<equiv> lab_files (canonical_text lab_env qual_doc) analyzer_text"

lemma mono_sorted: "sorted mono_sorted" "distinct mono_sorted"
  by code_simp+

lemma mono_sorted_ascii: "list_all is_ascii mono_sorted"
  by (simp add: mono_sorted_def is_ascii_def)

lemma qual_limit_plain: "plain_json (qual_limit n)" "keys_sorted (qual_limit n)"
proof -
  have "plain_json (PDict [(''max'', PInt 5), (''min'', PInt 5)])" "plain_json (PDict [(''min'', PInt 5)])" "plain_json (PDict [(''max'', PInt 5)])"
    "keys_sorted (PDict [(''max'', PInt 5), (''min'', PInt 5)])"
    by code_simp+
  then show "plain_json (qual_limit n)" "keys_sorted (qual_limit n)"
    unfolding qual_limit_def by (simp_all split: if_splits)
qed

lemma qual_limits_plain:
  "plain_json (PDict (map (\<lambda>n. (n, qual_limit n)) mono_sorted))" "keys_sorted (PDict (map (\<lambda>n. (n, qual_limit n)) mono_sorted))"
  using mono_sorted mono_sorted_ascii
  by (auto simp: dict_keys_def comp_def list_all_iff qual_limit_plain simp del: plain_json.simps(3))

lemma sorted_identity:
  "plain_json (PDict sorted_identity)" "keys_sorted (PDict sorted_identity)" "py_eq (PDict sorted_identity) (PDict (capture_identity mono_capture))"
  by (simp add: sorted_identity_def dict_keys_def is_ascii_def plain_json_small_int del: plain_json.simps(3)) code_simp+

lemma qual_run_plain: "plain_json qual_run" "keys_sorted qual_run"
  by code_simp+

lemma qual_doc_keys: "sorted (map fst qual_doc)" "distinct (map fst qual_doc)"
  unfolding qual_doc_def list.map fst_conv by code_simp+

lemma qual_doc_plain: "plain_json (PDict qual_doc)"
  unfolding plain_json.simps(7) [of qual_doc] dict_keys_def
  using qual_doc_keys(2) qual_limits_plain(1) sorted_identity(1) qual_run_plain(1)
  by (simp add: qual_doc_def is_ascii_def plain_json_small_int del: plain_json.simps(3,7))

lemma qual_doc_sorted: "sort_keys (PDict qual_doc) = PDict qual_doc"
proof (rule sort_keys_id)
  show "keys_sorted (PDict qual_doc)"
    unfolding keys_sorted.simps
    using qual_doc_keys(1) qual_limits_plain(2) sorted_identity(2) qual_run_plain(2)
    by (simp add: qual_doc_def del: keys_sorted.simps(2))
qed

lemma separators_compact: "separators '','' '':''"
  by (simp add: separators_def)

lemma qual_document_parses: "parse_document lab_env (canonical_text lab_env qual_doc) = Inr qual_doc"
proof -
  have hook: "reject_dup_loop [] d = Inr d" if "distinct (dict_keys d)" for d using that reject_dup_loop_distinct [of "[]" d] by (simp add: dict_keys_def)
  have "json_loads_with False (reject_dup_loop []) (canonical_text lab_env qual_doc) = Inr (PDict qual_doc)"
    unfolding canonical_text_def qual_doc_sorted
    by (rule json_loads_dumps_blanks [OF qual_doc_plain separators_compact hook]) (simp_all add: json_space_def)
  moreover have "list_all printable (json_dumps (qe_frepr lab_env) '','' '':'' (PDict qual_doc))"
    by (rule printable_dumps [OF qual_doc_plain]) (simp_all add: printable_def)
  then have "utf8_valid (canonical_text lab_env qual_doc)"
    unfolding canonical_text_def qual_doc_sorted by (intro utf8_valid_ascii) (simp add: is_ascii_parts ascii_printable)
  moreover have "require_exact_keys (PDict qual_doc) ROOT_KEYS ''qualification'' = Inr qual_doc" by code_simp
  ultimately show ?thesis by (simp add: parse_document_def)
qed

lemma qual_files:
  "read_regular lab_env (lab_files doc res) (PStr ''/lab/q.json'') label = Inr (''/lab/q.json'', doc)"
  "read_regular lab_env (lab_files doc res) (PStr ''/lab/r.json'') label = Inr (''/lab/r.json'', res)"
  "read_regular lab_env (lab_files doc res) (PStr ''/lab/w.wav'') label = Inr (''/lab/w.wav'', ''RIFF'')"
  by code_simp+

lemma analyzer_text_passes: "analyzer_passed analyzer_text loc = Inr ()"
  unfolding analyzer_text_def
proof -
  let ?text = "json_dumps (\<lambda>_. []) '','' '':'' (PDict analyzer_doc)"
  have plain: "plain_json (PDict analyzer_doc)" by code_simp
  have "json_loads dict_of_pairs ?text = Inr (PDict analyzer_doc)"
    by (rule json_loads_dumps [OF plain separators_compact dict_of_pairs_distinct])
  moreover have "list_all printable ?text" by (rule printable_dumps [OF plain]) (simp_all add: printable_def)
  then have "utf8_valid ?text" by (intro utf8_valid_ascii ascii_printable)
  moreover have "dict_get analyzer_doc ''outcome'' = PStr ''passed''" by (simp add: analyzer_doc_def dict_get_def)
  ultimately show "analyzer_passed ?text loc = Inr ()" by (simp add: analyzer_passed_def del: json_dumps.simps)
qed

lemma qual_times:
  "canonical_utc lab_env (PStr ''2024-02-29T23:59:59Z'') loc = Inr ''2024-02-29T23:59:59Z''"
  "canonical_utc lab_env (PStr ''2024-03-01T00:00:00Z'') loc = Inr ''2024-03-01T00:00:00Z''"
proof -
  have shape: "utc_shape ''2024-02-29T23:59:59Z''" "utc_shape ''2024-03-01T00:00:00Z''" by code_simp+
  have chars: "char_of (50 :: nat) = CHR ''2''" "char_of (48 :: nat) = CHR ''0''" "char_of (52 :: nat) = CHR ''4''" by code_simp+
  have year: "dec_of_nat 2024 = ''2024''" by (simp add: dec_of_nat.simps digit_char_def chars)
  show "canonical_utc lab_env (PStr ''2024-02-29T23:59:59Z'') loc = Inr ''2024-02-29T23:59:59Z''"
    "canonical_utc lab_env (PStr ''2024-03-01T00:00:00Z'') loc = Inr ''2024-03-01T00:00:00Z''"
    unfolding canonical_utc_def pyval.case using shape year
    by (simp_all add: utc_valid_def utc_number_def nat_of_dec_def digit_value_def days_in_month_def lab_env_def Let_def)
qed

lemma qual_sha: "require_sha256 (PStr (replicate 64 (CHR ''a''))) loc = Inr (replicate 64 (CHR ''a''))"
  by (simp add: require_sha256_def sha256_shape_def list_all_iff hex_digit_def byte_in_def)

lemma qual_digest: "qe_digest lab_env b = replicate 64 (CHR ''a'')"
  by (simp add: lab_env_def)

lemma qual_run_keys: "require_exact_keys qual_run RUN_KEYS loc = Inr (case qual_run of PDict d \<Rightarrow> d)"
  by (simp add: require_exact_keys_def qual_run_def Let_def RUN_KEYS_def dict_keys_def)

lemma qual_run_parses: "\<exists>r. parse_run lab_env qual_fs (i, qual_run) = Inr r"
  unfolding parse_run_def prod.case Let_def qual_run_keys
  by (simp add: qual_run_def Let_def dict_get_def hashed_file_def qual_files qual_sha qual_digest analyzer_text_passes qual_times)

lemma number_5: "is_number (PInt 5) = Inr True"
  using float_of_int_exact [of 5] by (simp add: is_number_def)

definition limit_5 :: "string \<Rightarrow> metric_limit" where
  "limit_5 n = \<lparr>ml_minimum = if n \<in> set EXACT_RANGE_METRICS \<or> n \<in> set MINIMUM_METRICS then PInt 5 else PNone,
     ml_maximum = if n \<in> set MINIMUM_METRICS then PNone else PInt 5\<rparr>"

lemma qual_limit_parses: "parse_limit n (qual_limit n) = Inr (limit_5 n)"
proof -
  have keys: "filter (\<lambda>k. k \<notin> set LIMIT_KEYS) (dict_keys [(''max'', v), (''min'', w)]) = []"
    "filter (\<lambda>k. k \<notin> set LIMIT_KEYS) (dict_keys [(''max'', v)]) = []" "filter (\<lambda>k. k \<notin> set LIMIT_KEYS) (dict_keys [(''min'', v)]) = []"
    for v w by (simp_all add: LIMIT_KEYS_def dict_keys_def)
  have max: "n \<in> set MAXIMUM_METRICS \<Longrightarrow> n \<notin> set EXACT_RANGE_METRICS \<and> n \<notin> set MINIMUM_METRICS" by (auto simp: MAXIMUM_METRICS_def)
  have exact: "n \<in> set EXACT_RANGE_METRICS \<Longrightarrow> n \<notin> set MINIMUM_METRICS" using exact_not_minimum by (simp add: list_all_iff)
  consider "n \<in> set EXACT_RANGE_METRICS" | "n \<notin> set EXACT_RANGE_METRICS" "n \<in> set MINIMUM_METRICS"
    | "n \<notin> set EXACT_RANGE_METRICS" "n \<notin> set MINIMUM_METRICS" by blast
  then show ?thesis
    by cases (use max exact in \<open>auto simp: qual_limit_def parse_limit_def Let_def keys check_bound_def number_5 dict_get_def limit_5_def
      dict_keys_def py_lt_def LIMIT_KEYS_def\<close>)
qed

lemma mono_sorted_same: "list_all (\<lambda>n. n \<in> set MONO_LIMIT_METRICS) mono_sorted" "list_all (\<lambda>n. n \<in> set mono_sorted) MONO_LIMIT_METRICS"
  by code_simp+

lemma qual_limits_parse:
  "parse_limits CAP_MONO (PDict (map (\<lambda>n. (n, qual_limit n)) mono_sorted)) = Inr (map (\<lambda>n. (n, limit_5 n)) MONO_LIMIT_METRICS)"
proof -
  have keys: "dict_keys (map (\<lambda>n. (n, qual_limit n)) mono_sorted) = mono_sorted" by (simp add: dict_keys_def comp_def)
  have same: "filter (\<lambda>n. n \<notin> set mono_sorted) MONO_LIMIT_METRICS = []" "filter (\<lambda>n. n \<notin> set MONO_LIMIT_METRICS) mono_sorted = []"
    using mono_sorted_same by (auto simp: filter_empty_conv list_all_iff)
  have "rmap (\<lambda>name. rbind (parse_limit name (dict_get (map (\<lambda>n. (n, qual_limit n)) mono_sorted) name)) (\<lambda>l. Inr (name, l))) MONO_LIMIT_METRICS =
      Inr (map (\<lambda>n. (n, limit_5 n)) MONO_LIMIT_METRICS)"
  proof (rule rmap_values)
    fix n
    assume "n \<in> set MONO_LIMIT_METRICS"
    then have "n \<in> set mono_sorted" using mono_sorted_same(2) by (simp add: list_all_iff)
    then have "dict_get (map (\<lambda>n. (n, qual_limit n)) mono_sorted) n = qual_limit n"
      by (simp add: dict_get_def map_of_map_restrict restrict_map_def)
    then show "rbind (parse_limit n (dict_get (map (\<lambda>n. (n, qual_limit n)) mono_sorted) n)) (\<lambda>l. Inr (n, l)) = Inr (n, limit_5 n)"
      by (simp add: qual_limit_parses)
  qed
  then show ?thesis by (simp add: parse_limits_def metric_names_def keys same)
qed

lemma qual_identity: "check_identity mono_fixture mono_capture qual_doc = Inr (replicate 64 (CHR ''a''))"
proof -
  have fields: "dict_get qual_doc ''schema_version'' = PInt 1" "dict_get qual_doc ''status'' = PStr ''accepted''"
    "dict_get qual_doc ''capability'' = PStr ''mono''" "dict_get qual_doc ''fixture_id'' = PStr ''lab-1''"
    "dict_get qual_doc ''capture_identity'' = PDict sorted_identity"
    "dict_get qual_doc ''fixture_metadata_sha256'' = PStr (replicate 64 (CHR ''a''))"
    by (simp_all add: qual_doc_def dict_get_def)
  show ?thesis
    unfolding check_identity_def fields using sorted_identity(3)
    by (simp add: qual_sha mono_fixture_def example_fixture_def) (simp add: mono_capture_def)
qed

lemma qual_loads:
  "\<exists>q. load_qualification lab_env qual_fs (PStr ''/lab/q.json'') mono_fixture mono_binding = Inr q \<and>
     cq_limits q = map (\<lambda>n. (n, limit_5 n)) MONO_LIMIT_METRICS \<and> cq_fixture_id q = ''lab-1''"
proof -
  have fields: "dict_get qual_doc ''qualification_runs'' = PList [qual_run, qual_run]"
    "dict_get qual_doc ''limits'' = PDict (map (\<lambda>n. (n, qual_limit n)) mono_sorted)"
    "dict_get qual_doc ''accepted_by'' = PStr ''lab''" "dict_get qual_doc ''accepted_at_utc'' = PStr ''2024-03-01T00:00:00Z''"
    by (simp_all add: qual_doc_def dict_get_def)
  have caps: "lf_capture_capability mono_fixture = CAP_MONO" "lf_fixture_id mono_fixture = ''lab-1''"
    "map_of (pbd_roles mono_binding) ''capture'' = Some (CaptureRole mono_capture)"
    by (simp_all add: mono_fixture_def mono_binding_def example_fixture_def)
  obtain r0 r1 where "parse_run lab_env qual_fs (0, qual_run) = Inr r0" "parse_run lab_env qual_fs (1, qual_run) = Inr r1"
    using qual_run_parses by blast
  then have runs: "parse_runs lab_env qual_fs (PList [qual_run, qual_run]) = Inr [r0, r1]" by (simp add: parse_runs_def)
  show ?thesis
    unfolding load_qualification_def caps
    by (simp add: qual_files qual_document_parses qual_identity fields runs qual_limits_parse qual_times require_text_def caps)
qed

section \<open>Properties\<close>



text \<open>C30: The limits are decided exactly.  For a qualification that loaded, every metric of the capability gets a result, in
  the order of the table, and passes precisely when it is a finite number, not below its qualified minimum and not above its
  qualified maximum; the overall verdict is the conjunction.  Metrics that are missing, boolean or not finite fail.  The
  only requirement is that integer metrics are within the range of doubles.\<close>

theorem limits_decide:
  assumes loaded: "load_qualification env fs path fixture binding = Inr q" and fits: "\<forall>n. fits_double (dict_get metrics n)"
  shows "\<exists>results. evaluate_limits metrics q = Inr (results, \<forall>(n, l) \<in> set (cq_limits q). in_limits l (dict_get metrics n)) \<and>
    results = map (\<lambda>(n, l). (n, \<lparr>mr_value = dict_get metrics n, mr_limit = limit_as_dict l, mr_pass = in_limits l (dict_get metrics n)\<rparr>)) (cq_limits q)"
proof -
  note names = loaded_limits(1) [OF loaded] and ok = loaded_limits(2) [OF loaded] and dist = loaded_limits(3) [OF loaded]
  let ?r = "\<lambda>n l. \<lparr>mr_value = dict_get metrics n, mr_limit = limit_as_dict l, mr_pass = in_limits l (dict_get metrics n)\<rparr>"
  let ?g = "\<lambda>n. (n, ?r n (the (map_of (cq_limits q) n)))"
  have "rmap (\<lambda>name. case map_of (cq_limits q) name of None \<Rightarrow> Inl (KeyError (PStr name))
      | Some limit \<Rightarrow> rbind (evaluate_metric metrics limit name) (\<lambda>r. Inr (name, r))) (map fst (cq_limits q)) = Inr (map ?g (map fst (cq_limits q)))"
  proof (rule rmap_values)
    fix n
    assume "n \<in> set (map fst (cq_limits q))"
    then obtain l where l: "(n, l) \<in> set (cq_limits q)" "map_of (cq_limits q) n = Some l" using dist by (auto simp: map_of_eq_Some_iff)
    then have "evaluate_metric metrics l n = Inr (?r n l)" using ok fits by (intro evaluate_metric_exact) auto
    then show "(case map_of (cq_limits q) n of None \<Rightarrow> Inl (KeyError (PStr n))
      | Some limit \<Rightarrow> rbind (evaluate_metric metrics limit n) (\<lambda>r. Inr (n, r))) = Inr (?g n)" using l(2) by simp
  qed
  moreover have "map ?g (map fst (cq_limits q)) = map (\<lambda>(n, l). (n, ?r n l)) (cq_limits q)"
    using dist by (auto simp: map_of_eq_Some_iff)
  ultimately show ?thesis
    by (auto simp: evaluate_limits_def names list_all_iff split: prod.splits)
qed

theorem limits_decide_witness:
  "\<exists>q results. load_qualification lab_env qual_fs (PStr ''/lab/q.json'') mono_fixture mono_binding = Inr q \<and>
     evaluate_limits (map (\<lambda>n. (n, PInt 5)) MONO_LIMIT_METRICS) q = Inr (results, True) \<and> length results = 24"
proof -
  let ?m = "map (\<lambda>n. (n, PInt 5)) MONO_LIMIT_METRICS"
  obtain q where q: "load_qualification lab_env qual_fs (PStr ''/lab/q.json'') mono_fixture mono_binding = Inr q"
    "cq_limits q = map (\<lambda>n. (n, limit_5 n)) MONO_LIMIT_METRICS" using qual_loads by blast
  have val_at: "dict_get ?m n = (if n \<in> set MONO_LIMIT_METRICS then PInt 5 else PNone)" for n
    by (simp add: dict_get_def map_of_map_restrict restrict_map_def)
  have "\<forall>n. fits_double (dict_get ?m n)"
    using float_of_int_exact [of 5] by (simp add: val_at fits_double_def)
  from limits_decide [OF q(1) this] obtain results where
    "evaluate_limits ?m q = Inr (results, \<forall>(n, l) \<in> set (cq_limits q). in_limits l (dict_get ?m n))" "length results = length (cq_limits q)" by auto
  moreover have "\<forall>(n, l) \<in> set (cq_limits q). in_limits l (dict_get ?m n)" by (auto simp: q(2) val_at in_limits_def limit_5_def)
  moreover have "length (cq_limits q) = 24" by (simp add: q(2) MONO_LIMIT_METRICS_def)
  ultimately show ?thesis using q(1) by auto
qed

text \<open>The reader fails closed: whatever the document and the files are, it returns a qualification or raises
  \<open>QualificationError\<close>, but for the \<open>OverflowError\<close> of a limit beyond the range of doubles and faults of opening that are no
  \<open>OSError\<close>.\<close>

theorem qualification_fails_closed:
  assumes "load_qualification env fs path fixture binding = Inl e"
  shows "expected_error env e"
  using raises_load assms by (rule raisesD)

theorem qualification_fails_closed_witness:
  "\<exists>e. load_qualification lab_env [] (PStr ''/lab/q.json'') mono_fixture mono_binding = Inl e \<and> expected_error lab_env e"
proof -
  have "canonical_path lab_env [] (PStr ''/lab/q.json'') ''qualification'' =
      Inl (QualificationError (Fmt ''cannot inspect %s %s: %s'' [AV (PStr ''qualification''), AV (PStr ''/lab/q.json''), AX ENOENT]))"
    by code_simp
  then obtain e where "load_qualification lab_env [] (PStr ''/lab/q.json'') mono_fixture mono_binding = Inl e"
    by (simp add: load_qualification_def read_regular_def mono_fixture_def mono_binding_def)
  with qualification_fails_closed show ?thesis by blast
qed

text \<open>An integer limit of 1024 bits, which JSON allows, makes the reader raise \<open>OverflowError\<close> and not
  \<open>QualificationError\<close>: \<open>math.isfinite\<close> converts it to a double first.\<close>

theorem huge_limit_overflows:
  "parse_limit ''noise_floor'' (PDict [(''max'', PInt (2 ^ 1024))]) = Inl overflow_error"
proof -
  have keys: "filter (\<lambda>k. k \<notin> set LIMIT_KEYS) (dict_keys [(''max'', v)]) = []"
    "dict_get [(''max'', v)] ''min'' = PNone" "dict_get [(''max'', v)] ''max'' = v" for v
    by (simp_all add: LIMIT_KEYS_def dict_keys_def dict_get_def)
  show ?thesis
    unfolding parse_limit_def Let_def pyval.case keys check_bound_def is_number_def float_of_huge by simp
qed

end
