(* ===== verification/Hil_Discovery.thy ===== *)
theory Hil_Discovery
  imports Hil_Model Hil_IsoText "HOL-Library.AList"
begin

text \<open>
  Identity discovery, \<open>scripts/hil/discovery.py\<close>: the probe table, udev properties, the read-only OpenOCD fingerprint and
  their correlation to one board per role.  Every external command goes through \<open>de_run\<close>, whose answers are arbitrary and
  may differ from call to call; the state keeps the commands issued so far and the raw evidence.  The sysfs tree is a file
  system that does not change during one resolution.  A dictionary of strings is an association list that \<open>AList.update\<close>
  writes as Python does, an existing key in its place.
\<close>

section \<open>Constants and records\<close>

definition NRF_PROBES_HEADER :: "string list" where
  "NRF_PROBES_HEADER = [''SERIAL'', ''PROBE'', ''TARGET'', ''DPIDR'', ''PART'', ''VARIANT'', ''NOTE'']"

definition space_class :: regex where
  "space_class = Ch is_space"

fun header_columns :: "nat \<Rightarrow> string list \<Rightarrow> regex list" where
  "header_columns n [] = []"
| "header_columns n [w] = [Grp n (lit (points w))]"
| "header_columns n (w # ws) = Grp n (lit (points w)) # space_class # plus space_class # header_columns (Suc n) ws"

definition NRF_PROBES_HEADER_RE :: regex where
  "NRF_PROBES_HEADER_RE = seqs (bol # Rep space_class # header_columns 1 NRF_PROBES_HEADER @ [Rep space_class, eol])"

definition RECEIVER_TARGET_NAME :: string where "RECEIVER_TARGET_NAME = ''nRF54L15''"

definition RECEIVER_PART :: string where "RECEIVER_PART = ''0x00054b15''"

definition RECEIVER_DPIDR :: string where "RECEIVER_DPIDR = ''0x6ba02477''"

definition NIX_NRF_PROBES :: "string list" where "NIX_NRF_PROBES = [''nix-nrf'', ''probes'']"

definition probe_serial_char :: "char \<Rightarrow> bool" where
  "probe_serial_char c \<longleftrightarrow> card_char c \<or> c = CHR '':''"

text \<open>\<open>PROBE_SERIAL_RE.fullmatch\<close> and \<open>RAW_HEX_RE.fullmatch\<close>.\<close>

definition probe_serial_ok :: "string \<Rightarrow> bool" where
  "probe_serial_ok s \<longleftrightarrow> s \<noteq> [] \<and> list_all probe_serial_char s"

definition raw_hex_ok :: "string \<Rightarrow> bool" where
  "raw_hex_ok s \<longleftrightarrow> take 2 s = ''0x'' \<and> length s = 10 \<and> list_all hex_digit (drop 2 s)"

definition NRF54L15_PART_ADDR :: string where "NRF54L15_PART_ADDR = ''0x00FFC31C''"

definition NRF54L15_VARIANT_ADDR :: string where "NRF54L15_VARIANT_ADDR = ''0x00FFC320''"

definition OPENOCD_FAILURE_RE :: "ucd \<Rightarrow> regex" where
  "OPENOCD_FAILURE_RE u =
     Alt (seqs [word_boundary u, Alt (lit_ci (points ''warning'')) (lit_ci (points ''error'')), word_boundary u])
       (Alt (lit_ci (points ''recovery''))
         (seqs [lit_ci (points ''verify''), plus space_class,
            Alt (seqs [lit_ci (points ''fail''), opt (lit_ci (points ''ure''))]) (lit_ci (points ''ed''))]))"

abbreviation dquote :: char where "dquote \<equiv> CHR 0x22"

definition CMSIS_DAP_FINGERPRINT_TCL :: string where
  "CMSIS_DAP_FINGERPRINT_TCL = CHR 0x0A # concat (map (\<lambda>l. l @ [CHR 0x0A])
     [''proc fwc_scan {} {'',
      ''    set dpidr '' @ [dquote, dquote],
      ''    catch {set dpidr [format 0x%08x [chip.dap dpreg 0]]}'',
      ''    puts '' @ [dquote] @ ''FWC|dpidr|$dpidr'' @ [dquote],
      ''    for {set i 0} {$i < 4} {incr i} {'',
      ''        set idr '' @ [dquote, dquote],
      ''        catch {set idr [format 0x%08x [chip.dap apreg $i 0xfc]]}'',
      ''        puts '' @ [dquote] @ ''FWC|ap$i|$idr'' @ [dquote],
      ''    }'',
      ''    chip.dap apcsw 0x01000000 0x01000000'',
      ''    set part '' @ [dquote, dquote],
      ''    catch {set part [format 0x%08x [chip.cpu read_memory '' @ NRF54L15_PART_ADDR @ '' 32 1]]}'',
      ''    set variant '' @ [dquote, dquote],
      ''    catch {set variant [format 0x%08x [chip.cpu read_memory '' @ NRF54L15_VARIANT_ADDR @ '' 32 1]]}'',
      ''    puts '' @ [dquote] @ ''FWC|part|$part'' @ [dquote],
      ''    puts '' @ [dquote] @ ''FWC|variant|$variant'' @ [dquote],
      ''}''])"

abbreviation disc_err :: "msg \<Rightarrow> 'a result" where
  "disc_err m \<equiv> Inl (HilDiscoveryError m)"

type_synonym sdict = "(string \<times> string) list"

definition str_values :: "sdict \<Rightarrow> pyval" where
  "str_values d = PDict (map (\<lambda>(k, v). (k, PStr v)) d)"

definition str_list :: "string list \<Rightarrow> pyval" where
  "str_list xs = PList (map PStr xs)"

text \<open>\<open>d[k]\<close>.\<close>

definition item :: "(string \<times> 'a) list \<Rightarrow> string \<Rightarrow> 'a result" where
  "item d k = (case map_of d k of None \<Rightarrow> Inl (KeyError (PStr k)) | Some v \<Rightarrow> Inr v)"

text \<open>\<open>d.get (k, "")\<close>.\<close>

definition text_item :: "sdict \<Rightarrow> string \<Rightarrow> string" where
  "text_item d k = (case map_of d k of None \<Rightarrow> [] | Some v \<Rightarrow> v)"

record probe_identity =
  pi_role :: string
  pi_backend :: string
  pi_family :: string
  pi_serial :: string
  pi_product :: string
  pi_target :: string
  pi_dpidr :: string
  pi_ap_idrs :: sdict
  pi_part :: string
  pi_variant :: string
  pi_variant_raw :: string

record serial_identity =
  si_role :: string
  si_path :: string
  si_baud :: int
  si_properties :: sdict
  si_usb_parent :: "string option"
  si_dtr :: bool
  si_rts :: bool

record role_identity =
  ri_role :: string
  ri_probe :: probe_identity
  ri_serial :: serial_identity

record fixture_resolution =
  fr_roles :: "(string \<times> role_identity) list"
  fr_raw :: pydict

record capture_resolution =
  cr_device :: string
  cr_card_index :: int
  cr_card_id :: string
  cr_sound_path :: string
  cr_properties :: sdict

section \<open>Commands and evidence\<close>

record proc =
  pr_returncode :: int
  pr_stdout :: "string option"
  pr_stderr :: "string option"

text \<open>\<open>proc.stdout or ""\<close>.\<close>

definition out_text :: "proc \<Rightarrow> string" where
  "out_text p = (case pr_stdout p of None \<Rightarrow> [] | Some s \<Rightarrow> s)"

definition err_text :: "proc \<Rightarrow> string" where
  "err_text p = (case pr_stderr p of None \<Rightarrow> [] | Some s \<Rightarrow> s)"

record disc_env =
  de_run :: "nat \<Rightarrow> string list \<Rightarrow> int \<Rightarrow> proc result"
  de_fs :: fsys
  de_fault :: "string \<Rightarrow> exn option"
  de_ucd :: ucd
  de_isdigit :: "nat \<Rightarrow> bool"

record disc_state =
  ds_calls :: "string list list"
  ds_raw :: pydict

type_synonym 'a dact = "disc_state \<Rightarrow> disc_state \<times> 'a result"

definition dbind :: "'a dact \<Rightarrow> ('a \<Rightarrow> 'b dact) \<Rightarrow> 'b dact" where
  "dbind m f s = (case m s of (t, Inl e) \<Rightarrow> (t, Inl e) | (t, Inr x) \<Rightarrow> f x t)"

definition dlift :: "'a result \<Rightarrow> 'a dact" where
  "dlift r s = (s, r)"

abbreviation dreturn :: "'a \<Rightarrow> 'a dact" where "dreturn x \<equiv> dlift (Inr x)"

abbreviation draise :: "msg \<Rightarrow> 'a dact" where "draise m \<equiv> dlift (disc_err m)"

definition run_cmd :: "disc_env \<Rightarrow> string list \<Rightarrow> int \<Rightarrow> proc dact" where
  "run_cmd env argv timeout s = (s\<lparr>ds_calls := ds_calls s @ [argv]\<rparr>, de_run env (length (ds_calls s)) argv timeout)"

text \<open>\<open>raw[key] = v\<close>.\<close>

definition record_raw :: "string \<Rightarrow> pyval \<Rightarrow> unit dact" where
  "record_raw key v s = (s\<lparr>ds_raw := dict_set (ds_raw s) key v\<rparr>, Inr ())"

text \<open>\<open>raw.setdefault (key, {})[name] = v\<close>.\<close>

definition record_raw_item :: "string \<Rightarrow> string \<Rightarrow> pyval \<Rightarrow> unit dact" where
  "record_raw_item key name v s =
     (let inner = (case map_of (ds_raw s) key of Some (PDict d) \<Rightarrow> d | _ \<Rightarrow> []) in
      (s\<lparr>ds_raw := dict_set (ds_raw s) key (PDict (dict_set inner name v))\<rparr>, Inr ()))"

fun dmap :: "('a \<Rightarrow> 'b dact) \<Rightarrow> 'a list \<Rightarrow> 'b list dact" where
  "dmap f [] = dreturn []"
| "dmap f (x # xs) = dbind (f x) (\<lambda>y. dbind (dmap f xs) (\<lambda>ys. dreturn (y # ys)))"

text \<open>\<open>os.listdir\<close>.\<close>

definition listdir :: "exn option \<Rightarrow> fsys \<Rightarrow> string \<Rightarrow> string list result" where
  "listdir fault fs p =
     (case fault of
        Some e \<Rightarrow> Inl e
      | None \<Rightarrow>
        (case resolve_all fs (comps p) of (q, ok) \<Rightarrow>
          if \<not> ok \<or> node_at fs q = None then Inl ENOENT
          else if node_at fs q \<noteq> Some Dir then Inl (OSError (text_msg ''ENOTDIR''))
          else Inr (remdups (map last (filter (\<lambda>k. k \<noteq> [] \<and> butlast k = q) (map fst fs))))))"

section \<open>The probe table\<close>

text \<open>\<open>s.index (w, pos)\<close> on code points.\<close>

fun find_at :: "nat list \<Rightarrow> nat list \<Rightarrow> nat option" where
  "find_at w [] = (if w = [] then Some 0 else None)"
| "find_at w (c # s) = (if take (length w) (c # s) = w then Some 0 else map_option Suc (find_at w s))"

definition index_from :: "nat list \<Rightarrow> nat list \<Rightarrow> nat \<Rightarrow> nat result" where
  "index_from s w pos =
     (case find_at w (drop pos s) of None \<Rightarrow> Inl (ValueError (text_msg ''substring not found'')) | Some k \<Rightarrow> Inr (pos + k))"

fun column_starts :: "nat list \<Rightarrow> nat list list \<Rightarrow> nat \<Rightarrow> nat list result" where
  "column_starts header [] pos = Inr []"
| "column_starts header (w # ws) pos =
     rbind (index_from header w pos) (\<lambda>idx. rbind (column_starts header ws (idx + length w)) (\<lambda>rest. Inr (idx # rest)))"

fun row_cells :: "nat list \<Rightarrow> nat list \<Rightarrow> string list" where
  "row_cells line [] = []"
| "row_cells line [a] = [strip (text_of (drop a line))]"
| "row_cells line (a # b # rest) = strip (text_of (take (b - a) (drop a line))) # row_cells line (b # rest)"

definition parse_row :: "string list \<Rightarrow> nat list \<Rightarrow> string \<Rightarrow> sdict result" where
  "parse_row header starts line =
     (let l = utf8_points line in
      if length l < starts ! 5 then disc_err (text_msg ''truncated nrf-probes row'')
      else Inr (zip header (row_cells l starts)))"

definition header_words :: "mstate \<Rightarrow> string list" where
  "header_words m = map (\<lambda>n. case group_of m n of None \<Rightarrow> [] | Some w \<Rightarrow> text_of w) [1 ..< 8]"

definition parse_nrf_probes_table :: "string \<Rightarrow> sdict list result" where
  "parse_nrf_probes_table stdout =
     (case filter (\<lambda>ln. strip ln \<noteq> []) (splitlines stdout) of
        [] \<Rightarrow> disc_err (text_msg ''nrf-probes produced no output'')
      | first # rows \<Rightarrow>
          (case re_match NRF_PROBES_HEADER_RE (utf8_points first) of
             None \<Rightarrow> disc_err (text_msg ''malformed nrf-probes header'')
           | Some m \<Rightarrow>
               (let header = header_words m in
                if header \<noteq> NRF_PROBES_HEADER then disc_err (text_msg ''unknown nrf-probes table columns'')
                else rbind (column_starts (utf8_points first) (map utf8_points header) 0) (\<lambda>starts.
                  rmap (parse_row header starts) rows))))"

section \<open>udev properties\<close>

definition udev_argv :: "string \<Rightarrow> string list" where
  "udev_argv node = [''udevadm'', ''info'', ''--query=property'', ''--path'', node]"

definition udev_line :: "sdict \<Rightarrow> string \<Rightarrow> sdict" where
  "udev_line props line =
     (if CHR ''='' \<notin> set line then props
      else (let key = takeWhile (\<lambda>c. c \<noteq> CHR ''='') line; v = tl (dropWhile (\<lambda>c. c \<noteq> CHR ''='') line) in
        if key \<noteq> [] then AList.update key v props else props))"

definition udev_properties :: "disc_env \<Rightarrow> string \<Rightarrow> sdict option dact" where
  "udev_properties env node =
     dbind (run_cmd env (udev_argv node) 10) (\<lambda>p.
       dreturn (if pr_returncode p \<noteq> 0 then None else Some (foldl udev_line [] (splitlines (out_text p)))))"

definition match_udev :: "sdict option \<Rightarrow> udev_identity \<Rightarrow> bool" where
  "match_udev props configured =
     (case props of
        None \<Rightarrow> False
      | Some d \<Rightarrow> list_all (\<lambda>(key, v). map_of d key = Some v) configured)"

lemma dirname_shorter:
  assumes "dirname p \<noteq> p"
  shows "length (dirname p) < length p"
proof -
  let ?d = "dropWhile (\<lambda>c. c \<noteq> slash) (rev p)"
  have p: "rev p = takeWhile (\<lambda>c. c \<noteq> slash) (rev p) @ ?d" by simp
  show ?thesis
  proof (cases "list_all (\<lambda>c. c = slash) (rev ?d)")
    case True
    then have d: "dirname p = rev ?d" by (simp add: dirname_def Let_def)
    have "takeWhile (\<lambda>c. c \<noteq> slash) (rev p) \<noteq> []"
    proof
      assume "takeWhile (\<lambda>c. c \<noteq> slash) (rev p) = []"
      with p have "?d = rev p" by simp
      with d assms show False by simp
    qed
    then have "length ?d < length (rev p)" using arg_cong [OF p, of length] by (simp del: takeWhile_dropWhile_id)
    with d show ?thesis by simp
  next
    case False
    then have d: "dirname p = rev (dropWhile (\<lambda>c. c = slash) ?d)" by (simp add: dirname_def Let_def)
    from False have "?d \<noteq> []" by (metis list.pred_inject(1) rev.simps(1))
    then obtain a r where r: "?d = a # r" by (cases ?d) auto
    then have "a = slash" using hd_dropWhile [of "\<lambda>c. c \<noteq> slash" "rev p"] by simp
    then have "length (dirname p) \<le> length r" using d r length_dropWhile_le [of "\<lambda>c. c = slash" r] by simp
    moreover have "length ?d \<le> length (rev p)" by (rule length_dropWhile_le)
    ultimately show ?thesis using r by simp
  qed
qed

function usb_ancestor :: "fsys \<Rightarrow> string \<Rightarrow> string option" where
  "usb_ancestor fs candidate =
     (if isfile fs (path_join candidate ''idVendor'') then Some candidate
      else if dirname candidate = candidate then None
      else usb_ancestor fs (dirname candidate))"
  by pat_completeness auto
termination
  by (relation "measure (\<lambda>(_, p). length p)") (auto intro: dirname_shorter)

declare usb_ancestor.simps [simp del]

definition usb_parent :: "fsys \<Rightarrow> string \<Rightarrow> sdict \<Rightarrow> string option" where
  "usb_parent fs sysfs_root props =
     (let devpath = text_item props ''DEVPATH'' in
      if devpath = [] then None
      else usb_ancestor fs (normpath (path_join sysfs_root (dropWhile (\<lambda>c. c = slash) devpath))))"

section \<open>The fingerprint\<close>

definition openocd_failures :: "ucd \<Rightarrow> proc \<Rightarrow> string \<times> string list" where
  "openocd_failures u p =
     (let raw_out = out_text p @ [CHR 0x0A] @ err_text p;
          failures = filter (\<lambda>ln. re_search (OPENOCD_FAILURE_RE u) (utf8_points ln) \<noteq> None) (splitlines raw_out) in
      (raw_out, failures @ (if pr_returncode p \<noteq> 0 then [''OpenOCD exited with status '' @ dec_of_int (pr_returncode p)] else [])))"

definition MARKERS :: "string list" where
  "MARKERS = [''dpidr'', ''ap0'', ''ap1'', ''ap2'', ''ap3'', ''part'', ''variant'']"

definition marker_line :: "sdict \<times> string list \<Rightarrow> string \<Rightarrow> sdict \<times> string list" where
  "marker_line acc line =
     (case acc of (markers, failures) \<Rightarrow>
      if \<not> startswith line ''FWC'' then (markers, failures)
      else
        (let malformed = (markers, failures @ [''malformed CMSIS-DAP marker: '' @ line]) in
         case split_on (CHR ''|'') line of
           [tag, key, v] \<Rightarrow>
             if tag \<noteq> ''FWC'' \<or> key \<notin> set MARKERS then malformed
             else if key \<in> set (map fst markers) \<or> \<not> raw_hex_ok v then malformed
             else (markers @ [(key, v)], failures)
         | _ \<Rightarrow> malformed))"

definition parse_cmsis_dap_markers :: "string \<Rightarrow> sdict \<times> string list" where
  "parse_cmsis_dap_markers stdout =
     (case foldl marker_line ([], []) (splitlines stdout) of (markers, failures) \<Rightarrow>
      (markers, failures @ map (\<lambda>key. ''CMSIS-DAP marker missing: '' @ key) (filter (\<lambda>key. key \<notin> set (map fst markers)) MARKERS)))"

definition fingerprint_argv :: "string \<Rightarrow> string list" where
  "fingerprint_argv serial =
     [''openocd'', ''-f'', ''interface/cmsis-dap.cfg'', ''-c'', ''adapter serial '' @ serial, ''-c'', ''transport select swd'',
      ''-c'', ''adapter speed 1000'', ''-c'', ''gdb port disabled'', ''-c'', ''tcl port disabled'', ''-c'', ''telnet port disabled'',
      ''-c'', ''swd newdap chip cpu'', ''-c'', ''dap create chip.dap -chain-position chip.cpu'',
      ''-c'', ''target create chip.cpu cortex_m -dap chip.dap'', ''-c'', CMSIS_DAP_FINGERPRINT_TCL, ''-c'', ''init'',
      ''-c'', ''fwc_scan'', ''-c'', ''shutdown'']"

record fingerprint =
  fp_argv :: "string list"
  fp_output :: string
  fp_markers :: sdict
  fp_failures :: "string list"
  fp_status :: int

definition fingerprint_cmsis_dap :: "disc_env \<Rightarrow> string \<Rightarrow> fingerprint dact" where
  "fingerprint_cmsis_dap env serial =
     dbind (run_cmd env (fingerprint_argv serial) 60) (\<lambda>p.
       case openocd_failures (de_ucd env) p of (raw_out, failures) \<Rightarrow>
       case parse_cmsis_dap_markers (out_text p) of (markers, marker_failures) \<Rightarrow>
         dreturn \<lparr>fp_argv = fingerprint_argv serial, fp_output = raw_out, fp_markers = markers,
           fp_failures = failures @ marker_failures, fp_status = pr_returncode p\<rparr>)"

definition AP_KEYS :: "string list" where "AP_KEYS = [''ap0'', ''ap1'', ''ap2'', ''ap3'']"

definition ap_idr_map :: "sdict \<Rightarrow> string \<Rightarrow> sdict result" where
  "ap_idr_map markers label =
     rmap (\<lambda>key. if raw_hex_ok (text_item markers key) then Inr (key, text_item markers key)
       else disc_err (in_msg2 ''%s %s missing or malformed'' label key)) AP_KEYS"

text \<open>The four bytes that eight hexadecimal digits denote.\<close>

fun hex_bytes :: "string \<Rightarrow> nat list" where
  "hex_bytes (a # b # s) = (the (hex_value a) * 16 + the (hex_value b)) # hex_bytes s"
| "hex_bytes _ = []"

text \<open>Among ASCII characters \<open>isprintable\<close> holds from the space to the tilde.\<close>

definition variant_display :: "string \<Rightarrow> string result" where
  "variant_display raw_variant =
     (let bytes = hex_bytes (drop 2 raw_variant) in
      if \<not> raw_hex_ok raw_variant then disc_err (text_msg ''CMSIS-DAP VARIANT marker malformed'')
      else if \<not> list_all (\<lambda>b. b < 128) bytes then disc_err (text_msg ''CMSIS-DAP VARIANT marker is not ASCII'')
      else if \<not> list_all (\<lambda>b. 32 \<le> b \<and> b \<le> 126) bytes then disc_err (text_msg ''CMSIS-DAP VARIANT marker is not printable'')
      else Inr (map char_of bytes))"

section \<open>Resolution\<close>

definition record_probe_output :: "string \<Rightarrow> string list \<Rightarrow> proc \<Rightarrow> unit dact" where
  "record_probe_output key argv p =
     record_raw key (PDict [(''argv'', str_list argv), (''stdout'', PStr (out_text p)), (''stderr'', PStr (err_text p)),
       (''status'', PInt (pr_returncode p))])"

definition require_cmsis_table_row :: "sdict \<Rightarrow> string \<Rightarrow> string \<Rightarrow> (string \<times> string) result" where
  "require_cmsis_table_row row role serial =
     (let product = text_item row ''PROBE''; variant = text_item row ''VARIANT'' in
      if map_of row ''SERIAL'' \<noteq> Some serial then disc_err (in_msg ''%s probe serial mismatch in probe table'' role)
      else if product = [] \<or> product = ''-'' then disc_err (in_msg ''%s probe product missing'' role)
      else if text_item row ''TARGET'' \<noteq> RECEIVER_TARGET_NAME
      then disc_err (Fmt ''%s target drift: expected %r, got %r'' [AV (PStr role), AV (PStr RECEIVER_TARGET_NAME), AV (PStr (text_item row ''TARGET''))])
      else if text_item row ''DPIDR'' \<noteq> RECEIVER_DPIDR
      then disc_err (Fmt ''%s DPIDR drift: expected %s, got %r'' [AV (PStr role), AV (PStr RECEIVER_DPIDR), AV (PStr (text_item row ''DPIDR''))])
      else if text_item row ''PART'' \<noteq> RECEIVER_PART
      then disc_err (Fmt ''%s PART drift: expected %s, got %r'' [AV (PStr role), AV (PStr RECEIVER_PART), AV (PStr (text_item row ''PART''))])
      else if variant = [] \<or> variant = ''-'' then disc_err (in_msg ''%s VARIANT missing'' role)
      else Inr (product, variant))"

definition agree_with_table :: "string \<Rightarrow> sdict \<Rightarrow> sdict \<Rightarrow> string \<times> string \<Rightarrow> unit result" where
  "agree_with_table role markers row keys =
     (case keys of (key, table_key) \<Rightarrow>
      rbind (item markers key) (\<lambda>m. rbind (item row table_key) (\<lambda>r.
        if m \<noteq> r then disc_err (in_msg2 ''%s CMSIS-DAP %s disagrees with probe table'' role table_key) else Inr ())))"

definition cmsis_identity :: "string \<Rightarrow> string \<Rightarrow> string \<Rightarrow> string \<Rightarrow> sdict \<Rightarrow> sdict \<Rightarrow> probe_identity result" where
  "cmsis_identity role serial product table_variant row markers =
     rbind (rall (agree_with_table role markers row) [(''dpidr'', ''DPIDR''), (''part'', ''PART'')]) (\<lambda>_.
     rbind (item markers ''variant'') (\<lambda>variant_raw.
     rbind (variant_display variant_raw) (\<lambda>variant.
       if variant \<noteq> table_variant then disc_err (in_msg ''%s CMSIS-DAP VARIANT disagrees with probe table'' role)
       else
         rbind (item row ''TARGET'') (\<lambda>target.
         rbind (item markers ''dpidr'') (\<lambda>dpidr.
         rbind (ap_idr_map markers (role @ '' CMSIS-DAP'')) (\<lambda>ap_idrs.
         rbind (item markers ''part'') (\<lambda>part.
           Inr \<lparr>pi_role = role, pi_backend = ''nrf-probes'', pi_family = ''nrf54l'', pi_serial = serial, pi_product = product,
             pi_target = target, pi_dpidr = dpidr, pi_ap_idrs = ap_idrs, pi_part = part, pi_variant = variant,
             pi_variant_raw = variant_raw\<rparr>)))))))"

definition resolve_cmsis_probe :: "disc_env \<Rightarrow> string \<Rightarrow> string \<Rightarrow> sdict \<Rightarrow> probe_identity dact" where
  "resolve_cmsis_probe env role serial row =
     dbind (dlift (require_cmsis_table_row row role serial)) (\<lambda>(product, table_variant).
     dbind (fingerprint_cmsis_dap env serial) (\<lambda>fp.
     dbind (record_raw (role @ ''-cmsis-dap-fingerprint'') (PDict [(''argv'', str_list (fp_argv fp)), (''output'', PStr (fp_output fp)),
       (''status'', PInt (fp_status fp)), (''markers'', str_values (fp_markers fp)), (''failure_lines'', str_list (fp_failures fp))])) (\<lambda>_.
       if fp_failures fp \<noteq> [] then draise (in_msg ''%s CMSIS-DAP fingerprint OpenOCD failure'' role)
       else dlift (cmsis_identity role serial product table_variant row (fp_markers fp)))))"

definition zephyr_role :: "physical_binding \<Rightarrow> string \<Rightarrow> physical_role_binding result" where
  "zephyr_role binding role =
     rbind (item (pbd_roles binding) role) (\<lambda>r.
       case r of ZephyrBinding z \<Rightarrow> Inr z | CaptureRole _ \<Rightarrow> Inl (OtherException (text_msg ''AttributeError'')))"

definition probe_tty :: "disc_env \<Rightarrow> string \<Rightarrow> string \<Rightarrow> udev_identity \<Rightarrow> string \<Rightarrow> string \<Rightarrow> (string \<times> sdict) option dact" where
  "probe_tty env tty_dir role configured serial name =
     (let node = path_join tty_dir name in
      if \<not> isdir (de_fs env) node then dreturn None
      else
        dbind (udev_properties env node) (\<lambda>props.
        dbind (record_raw_item (role @ ''-udev'') name (case props of None \<Rightarrow> PNone | Some d \<Rightarrow> str_values d)) (\<lambda>_.
          dreturn
            (case props of
               Some d \<Rightarrow>
                 if match_udev props configured \<and> text_item d ''ID_SERIAL_SHORT'' \<noteq> [] \<and> text_item d ''ID_SERIAL_SHORT'' = serial
                 then Some (name, d) else None
             | None \<Rightarrow> None))))"

definition resolve_serial :: "disc_env \<Rightarrow> string \<Rightarrow> string \<Rightarrow> physical_binding \<Rightarrow> probe_identity \<Rightarrow> serial_identity dact" where
  "resolve_serial env sysfs_root role_name binding probe =
     dbind (dlift (zephyr_role binding role_name)) (\<lambda>role.
       let configured = sb_udev (prb_serial role); tty_dir = path_join (path_join sysfs_root ''class'') ''tty'' in
       if \<not> isdir (de_fs env) tty_dir then draise (in_msg ''tty class directory not found: %s'' tty_dir)
       else
         dbind (dlift (listdir (de_fault env tty_dir) (de_fs env) tty_dir)) (\<lambda>names.
         dbind (dmap (probe_tty env tty_dir role_name configured (pi_serial probe)) (sort names)) (\<lambda>found.
           case List.map_filter id found of
             [(name, props)] \<Rightarrow>
               dreturn \<lparr>si_role = role_name, si_path = path_join ''/dev'' name, si_baud = sb_baud (prb_serial role),
                 si_properties = props, si_usb_parent = usb_parent (de_fs env) sysfs_root props,
                 si_dtr = sb_dtr (prb_serial role), si_rts = sb_rts (prb_serial role)\<rparr>
           | matched \<Rightarrow>
               draise (Fmt ''%s serial ambiguity: exactly one tty must match udev keys and probe serial %s, found %d''
                 [AV (PStr role_name), AV (PStr (pi_serial probe)), AV (PInt (int (length matched)))]))))"

definition resolved_roles :: "disc_env \<Rightarrow> string \<Rightarrow> physical_binding \<Rightarrow> probe_identity \<Rightarrow> probe_identity \<Rightarrow> (string \<times> role_identity) list dact" where
  "resolved_roles env sysfs_root binding receiver_probe source_probe =
     dbind (resolve_serial env sysfs_root ''receiver'' binding receiver_probe) (\<lambda>receiver_serial.
     dbind (resolve_serial env sysfs_root ''source'' binding source_probe) (\<lambda>source_serial.
       if si_path receiver_serial = si_path source_serial then draise (text_msg ''receiver and source share the same tty'')
       else if si_usb_parent receiver_serial \<noteq> None \<and> si_usb_parent receiver_serial = si_usb_parent source_serial
       then draise (text_msg ''receiver and source share the same USB parent'')
       else dreturn
         [(''receiver'', \<lparr>ri_role = ''receiver'', ri_probe = receiver_probe, ri_serial = receiver_serial\<rparr>),
          (''source'', \<lparr>ri_role = ''source'', ri_probe = source_probe, ri_serial = source_serial\<rparr>)]))"

definition explicit_serial :: "physical_binding \<Rightarrow> pydict \<Rightarrow> string \<Rightarrow> string result" where
  "explicit_serial binding explicit role =
     (let unsafe = disc_err (in_msg ''explicit %s probe serial is unsafe'' role) in
      case dict_get explicit role of
        PStr serial \<Rightarrow>
          if \<not> probe_serial_ok serial then unsafe
          else rbind (zephyr_role binding role) (\<lambda>z.
            if pb_backend (prb_probe z) \<noteq> ''nrf-probes'' \<or> pb_family (prb_probe z) \<noteq> ''nrf54l''
            then disc_err (text_msg ''explicit probe serials require nRF54L15 CMSIS-DAP roles'')
            else Inr serial)
      | _ \<Rightarrow> unsafe)"

definition validate_explicit_probe_serials :: "physical_binding \<Rightarrow> pyval \<Rightarrow> (string \<times> string) result" where
  "validate_explicit_probe_serials binding explicit =
     (let incomplete = disc_err (text_msg ''explicit probe serials must contain receiver and source'') in
      case explicit of
        PNone \<Rightarrow> disc_err (text_msg ''CMSIS-DAP fixture requires explicit probe serials'')
      | PDict d \<Rightarrow>
          if set (dict_keys d) \<noteq> {''receiver'', ''source''} then incomplete
          else
            rbind (explicit_serial binding d ''receiver'') (\<lambda>receiver.
            rbind (explicit_serial binding d ''source'') (\<lambda>source.
              if receiver = source then disc_err (text_msg ''receiver and source probe serials must be distinct'')
              else if set (map fst (pbd_roles binding)) \<notin> {{''receiver'', ''source''}, {''receiver'', ''source'', ''capture''}}
              then disc_err (text_msg ''explicit probe serials require receiver/source with optional capture'')
              else Inr (receiver, source)))
      | _ \<Rightarrow> incomplete)"

definition probes_argv :: "string \<Rightarrow> string \<Rightarrow> string list" where
  "probes_argv receiver source = NIX_NRF_PROBES @ [receiver, source]"

definition resolve_role_probe :: "disc_env \<Rightarrow> sdict list \<Rightarrow> string \<Rightarrow> string \<Rightarrow> probe_identity dact" where
  "resolve_role_probe env rows role serial =
     (case filter (\<lambda>row. map_of row ''SERIAL'' = Some serial) rows of
        [row] \<Rightarrow> dbind (record_raw (role @ ''-probe'') (str_values row)) (\<lambda>_. resolve_cmsis_probe env role serial row)
      | _ \<Rightarrow> draise (in_msg ''explicit %s probe table row mismatch'' role))"

definition usb_parent_of :: "(string \<times> role_identity) list \<Rightarrow> string \<Rightarrow> string option" where
  "usb_parent_of roles role = (case map_of roles role of None \<Rightarrow> None | Some r \<Rightarrow> si_usb_parent (ri_serial r))"

definition resolve_probed_pair :: "disc_env \<Rightarrow> string \<Rightarrow> physical_binding \<Rightarrow> string \<Rightarrow> string \<Rightarrow> proc \<Rightarrow> fixture_resolution dact" where
  "resolve_probed_pair env sysfs_root binding receiver source p =
     (if pr_returncode p \<noteq> 0 then draise (val_msg ''nix-nrf probes failed with status %d'' (PInt (pr_returncode p)))
      else
        dbind (dlift (parse_nrf_probes_table (out_text p))) (\<lambda>rows.
          if length rows \<noteq> 2 then draise (text_msg ''explicit probe table must contain exactly two rows'')
          else
            dbind (resolve_role_probe env rows ''receiver'' receiver) (\<lambda>receiver_probe.
            dbind (resolve_role_probe env rows ''source'' source) (\<lambda>source_probe.
            dbind (resolved_roles env sysfs_root binding receiver_probe source_probe) (\<lambda>roles.
              if usb_parent_of roles ''receiver'' = None \<or> usb_parent_of roles ''source'' = None \<or>
                 usb_parent_of roles ''receiver'' = usb_parent_of roles ''source''
              then draise (text_msg ''explicit receiver and source need distinct USB parents'')
              else (\<lambda>s. (s, Inr \<lparr>fr_roles = roles, fr_raw = ds_raw s\<rparr>)))))))"

definition resolve_explicit_pair :: "disc_env \<Rightarrow> string \<Rightarrow> physical_binding \<Rightarrow> string \<times> string \<Rightarrow> fixture_resolution dact" where
  "resolve_explicit_pair env sysfs_root binding serials =
     (case serials of (receiver, source) \<Rightarrow>
      dbind (run_cmd env (probes_argv receiver source) 90) (\<lambda>p.
      dbind (record_probe_output ''nrf-probes'' (probes_argv receiver source) p) (\<lambda>_.
        resolve_probed_pair env sysfs_root binding receiver source p)))"

definition resolve_fixture_impl :: "disc_env \<Rightarrow> string \<Rightarrow> physical_binding \<Rightarrow> pyval \<Rightarrow> fixture_resolution dact" where
  "resolve_fixture_impl env sysfs_root binding explicit =
     dbind (dlift (validate_explicit_probe_serials binding explicit)) (resolve_explicit_pair env sysfs_root binding)"

text \<open>An exception leaves \<open>resolve_fixture\<close> together with its attribute \<open>raw\<close>.\<close>

fun is_HilDiscoveryError :: "exn \<Rightarrow> bool" where
  "is_HilDiscoveryError (HilDiscoveryError _) = True"
| "is_HilDiscoveryError _ = False"

definition resolve_fixture :: "disc_env \<Rightarrow> string \<Rightarrow> physical_binding \<Rightarrow> pyval \<Rightarrow> disc_state \<times> (exn \<times> pydict + fixture_resolution)" where
  "resolve_fixture env sysfs_root binding explicit =
     (case resolve_fixture_impl env sysfs_root binding explicit \<lparr>ds_calls = [], ds_raw = []\<rparr> of
        (s, Inr r) \<Rightarrow> (s, Inr r)
      | (s, Inl exc) \<Rightarrow>
          (s, Inl (if is_HilDiscoveryError exc then (exc, ds_raw s)
                   else if is_Exception exc then (HilDiscoveryError (exn_msg ''identity discovery failed: %s'' exc), ds_raw s)
                   else (exc, []))))"

section \<open>The capture card\<close>

definition card_number :: "ucd \<Rightarrow> string \<Rightarrow> int result option" where
  "card_number u name =
     (let ds = drop 4 name in
      if take 4 name = ''card'' \<and> ds \<noteq> [] \<and> list_all is_digit ds then Some (int_of_points u (points ds)) else None)"

definition probe_card :: "disc_env \<Rightarrow> string \<Rightarrow> udev_identity \<Rightarrow> string \<Rightarrow> (int \<times> string \<times> sdict) option dact" where
  "probe_card env sound_dir configured name =
     (case card_number (de_ucd env) name of
        None \<Rightarrow> dreturn None
      | Some number \<Rightarrow>
          let node = path_join sound_dir name in
          if \<not> isdir (de_fs env) node then dreturn None
          else
            dbind (udev_properties env node) (\<lambda>props.
              if match_udev props configured
              then dbind (dlift number) (\<lambda>n. dreturn (map_option (\<lambda>d. (n, node, d)) props))
              else dreturn None))"

definition read_card_id :: "disc_env \<Rightarrow> string \<Rightarrow> string result" where
  "read_card_id env path =
     (case read_bytes (de_fault env path) (de_fs env) path of
        Inl exc \<Rightarrow>
          if is_OSError exc then disc_err (Fmt ''cannot read resolved capture card ID %s: %s'' [AV (PStr path), AX exc]) else Inl exc
      | Inr b \<Rightarrow>
          if \<not> utf8_valid b then Inl UnicodeDecodeError
          else if strip (universal_newlines b) = [] then disc_err (in_msg ''resolved capture card ID is empty: %s'' path)
          else Inr (strip (universal_newlines b)))"

definition check_card :: "disc_env \<Rightarrow> string \<Rightarrow> int \<Rightarrow> string \<Rightarrow> unit result" where
  "check_card env configured_card card_index card_id =
     (let ps = utf8_points configured_card in
      if ps \<noteq> [] \<and> list_all (de_isdigit env) ps then
        (if \<not> list_all (is_decimal (de_ucd env)) ps then Inl (ValueError (str_msg ''invalid literal for int() with base 10: %r'' configured_card))
         else rbind (int_of_points (de_ucd env) ps) (\<lambda>n.
           if n \<noteq> card_index
           then disc_err (Fmt ''capture direct endpoint card %s does not match resolved card%d'' [AV (PStr configured_card), AV (PInt card_index)])
           else Inr ()))
      else if configured_card \<noteq> card_id
      then disc_err (in_msg2 ''capture direct endpoint card %s does not match resolved card ID %s'' configured_card card_id)
      else Inr ())"

definition resolve_capture_binding :: "disc_env \<Rightarrow> string \<Rightarrow> capture_binding \<Rightarrow> capture_resolution dact" where
  "resolve_capture_binding env sysfs_root binding =
     (let sound_dir = path_join (path_join sysfs_root ''class'') ''sound'' in
      if \<not> isdir (de_fs env) sound_dir then draise (in_msg ''sound class directory not found: %s'' sound_dir)
      else
        dbind (dlift (listdir (de_fault env sound_dir) (de_fs env) sound_dir)) (\<lambda>names.
        dbind (dmap (probe_card env sound_dir (cb_udev binding)) (sort names)) (\<lambda>found.
          case List.map_filter id found of
            [(card_index, sound_path, properties)] \<Rightarrow>
              (let configured_card = hd (split_on (CHR '','') (text_of (drop 3 (utf8_points (cb_device binding))))) in
               dbind (dlift (read_card_id env (path_join sound_path ''id''))) (\<lambda>card_id.
               dbind (dlift (check_card env configured_card card_index card_id)) (\<lambda>_.
                 dreturn \<lparr>cr_device = cb_device binding, cr_card_index = card_index, cr_card_id = card_id,
                   cr_sound_path = sound_path, cr_properties = properties\<rparr>)))
          | matched \<Rightarrow>
              draise (val_msg ''capture sound-card ambiguity: exactly one card must match capture udev map, found %d''
                (PInt (int (length matched)))))))"

section \<open>Relations between the states of a resolution\<close>

lemma dbind_run: "dbind m f s = (case snd (m s) of Inl e \<Rightarrow> (fst (m s), Inl e) | Inr x \<Rightarrow> f x (fst (m s)))"
  by (simp add: dbind_def split: prod.splits sum.splits)

lemma dbind_Inr: "dbind m f s = (t, Inr y) \<longleftrightarrow> (\<exists>u x. m s = (u, Inr x) \<and> f x u = (t, Inr y))"
  by (simp add: dbind_def split: prod.splits sum.splits)

lemma dlift_Inr [simp]: "dlift r s = (t, Inr y) \<longleftrightarrow> t = s \<and> r = Inr y"
  by (auto simp: dlift_def)

definition ROLE_KEYS :: "string list" where
  "ROLE_KEYS = [''receiver-probe'', ''receiver-cmsis-dap-fingerprint'', ''receiver-udev'', ''source-probe'', ''source-cmsis-dap-fingerprint'',
     ''source-udev'']"

text \<open>A relation that holds across every step whose commands satisfy \<open>ok\<close> and whose evidence keys satisfy \<open>key\<close> holds
  across every operation built of such steps.\<close>

locale disc_rel =
  fixes R :: "disc_state \<Rightarrow> disc_state \<Rightarrow> bool" and ok :: "string list \<Rightarrow> bool" and key :: "string \<Rightarrow> bool"
  assumes refl: "R s s"
    and trans: "R s t \<Longrightarrow> R t u \<Longrightarrow> R s u"
    and call: "ok argv \<Longrightarrow> R s (s\<lparr>ds_calls := ds_calls s @ [argv]\<rparr>)"
    and raw: "key k \<Longrightarrow> R s (s\<lparr>ds_raw := dict_set (ds_raw s) k v\<rparr>)"
begin

definition steps :: "'a dact \<Rightarrow> bool" where
  "steps m \<longleftrightarrow> (\<forall>s. R s (fst (m s)))"

lemma steps_lift: "steps (dlift r)"
  by (simp add: steps_def dlift_def refl)

lemma steps_bind: "steps m \<Longrightarrow> (\<And>x. steps (f x)) \<Longrightarrow> steps (dbind m f)"
  unfolding steps_def by (auto simp: dbind_run split: sum.splits intro: trans)

lemma steps_run: "ok argv \<Longrightarrow> steps (run_cmd env argv timeout)"
  by (simp add: steps_def run_cmd_def call)

lemma steps_record: "key k \<Longrightarrow> steps (record_raw k v)"
  by (simp add: steps_def record_raw_def raw)

lemma steps_record_item: "key k \<Longrightarrow> steps (record_raw_item k n v)"
  by (simp add: steps_def record_raw_item_def Let_def raw)

lemma steps_if: "(c \<Longrightarrow> steps a) \<Longrightarrow> (\<not> c \<Longrightarrow> steps b) \<Longrightarrow> steps (if c then a else b)"
  by simp

lemma steps_map: "(\<And>x. x \<in> set xs \<Longrightarrow> steps (f x)) \<Longrightarrow> steps (dmap f xs)"
  by (induction xs) (auto intro!: steps_bind steps_lift)

lemmas steps_intros = steps_lift steps_bind steps_run steps_record steps_record_item steps_if steps_map

lemma steps_udev: "(\<And>node. ok (udev_argv node)) \<Longrightarrow> steps (udev_properties env node)"
  unfolding udev_properties_def by (intro steps_intros) simp

lemma steps_fingerprint: "ok (fingerprint_argv serial) \<Longrightarrow> steps (fingerprint_cmsis_dap env serial)"
  unfolding fingerprint_cmsis_dap_def by (intro steps_intros) (auto intro!: steps_intros split: prod.splits)

lemma steps_role_probe:
  assumes "ok (fingerprint_argv serial)" and "key (role @ ''-probe'')" and "key (role @ ''-cmsis-dap-fingerprint'')"
  shows "steps (resolve_role_probe env rows role serial)"
proof -
  have "steps (resolve_cmsis_probe env role serial row)" for row
    unfolding resolve_cmsis_probe_def
    using assms by (auto intro!: steps_intros steps_fingerprint split: prod.splits)
  then show ?thesis
    unfolding resolve_role_probe_def using assms(2) by (auto intro!: steps_intros split: list.splits)
qed

lemma steps_probe_tty:
  assumes "\<And>node. ok (udev_argv node)" and "key (role @ ''-udev'')"
  shows "steps (probe_tty env dir role configured serial name)"
  unfolding probe_tty_def Let_def using assms by (auto intro!: steps_intros steps_udev)

lemma steps_serial:
  assumes "\<And>node. ok (udev_argv node)" and "key (role @ ''-udev'')"
  shows "steps (resolve_serial env sysfs_root role binding probe)"
  unfolding resolve_serial_def Let_def using assms
  by (intro steps_intros steps_probe_tty) (auto intro!: steps_intros split: list.splits)

lemma steps_roles:
  assumes "\<And>node. ok (udev_argv node)" and "key ''receiver-udev''" and "key ''source-udev''"
  shows "steps (resolved_roles env sysfs_root binding p q)"
  unfolding resolved_roles_def using assms by (intro steps_intros steps_serial) auto

lemma steps_probed_pair:
  assumes "\<And>node. ok (udev_argv node)" and "ok (fingerprint_argv receiver)" and "ok (fingerprint_argv source)"
    and "list_all key ROLE_KEYS"
  shows "steps (resolve_probed_pair env sysfs_root binding receiver source p)"
proof -
  have "steps (\<lambda>s. (s, r s))" for r :: "disc_state \<Rightarrow> 'a result" by (simp add: steps_def refl)
  then show ?thesis
    unfolding resolve_probed_pair_def using assms
    by (intro steps_intros steps_role_probe steps_roles) (simp_all add: ROLE_KEYS_def)
qed

lemma steps_pair:
  assumes "\<And>node. ok (udev_argv node)" and "ok (probes_argv receiver source)"
    and "ok (fingerprint_argv receiver)" and "ok (fingerprint_argv source)" and "\<And>k. key k"
  shows "steps (resolve_explicit_pair env sysfs_root binding (receiver, source))"
  unfolding resolve_explicit_pair_def prod.case record_probe_output_def
  using assms by (intro steps_intros steps_probed_pair) (simp_all add: ROLE_KEYS_def)

lemma steps_capture:
  assumes "\<And>node. ok (udev_argv node)"
  shows "steps (resolve_capture_binding env sysfs_root binding)"
proof -
  have "steps (probe_card env dir configured name)" for dir configured name
    unfolding probe_card_def Let_def using assms
    by (auto intro!: steps_intros steps_udev split: option.splits)
  then show ?thesis
    unfolding resolve_capture_binding_def Let_def
    by (intro steps_intros) (auto intro!: steps_intros split: list.splits prod.splits)
qed

lemma stepsD: "steps m \<Longrightarrow> m s = (t, r) \<Longrightarrow> R s t"
  unfolding steps_def by (metis fst_conv)

end

definition issued :: "(string list \<Rightarrow> bool) \<Rightarrow> disc_state \<Rightarrow> disc_state \<Rightarrow> bool" where
  "issued P s t \<longleftrightarrow> (\<exists>cs. ds_calls t = ds_calls s @ cs \<and> list_all P cs)"

interpretation issue: disc_rel "issued P" P "\<lambda>_. True" for P
proof
  show "issued P s u" if "issued P s t" "issued P t u" for s t u
    using that unfolding issued_def by (metis append.assoc list_all_append)
qed (auto simp: issued_def)

definition same_item :: "string \<Rightarrow> disc_state \<Rightarrow> disc_state \<Rightarrow> bool" where
  "same_item k s t \<longleftrightarrow> map_of (ds_raw t) k = map_of (ds_raw s) k"

interpretation keeps: disc_rel "same_item k" "\<lambda>_. True" "\<lambda>k'. k' \<noteq> k" for k
  by unfold_locales (auto simp: same_item_def)

section \<open>What a resolution has verified\<close>

definition probe_verified :: "string \<Rightarrow> string \<Rightarrow> probe_identity \<Rightarrow> bool" where
  "probe_verified role serial p \<longleftrightarrow>
     pi_role p = role \<and> pi_backend p = ''nrf-probes'' \<and> pi_family p = ''nrf54l'' \<and> pi_serial p = serial \<and>
     pi_product p \<notin> {[], ''-''} \<and> pi_target p = RECEIVER_TARGET_NAME \<and> pi_dpidr p = RECEIVER_DPIDR \<and> pi_part p = RECEIVER_PART \<and>
     map fst (pi_ap_idrs p) = AP_KEYS \<and> list_all (\<lambda>(_, v). raw_hex_ok v) (pi_ap_idrs p) \<and>
     variant_display (pi_variant_raw p) = Inr (pi_variant p)"

lemma table_row_Inr:
  assumes "require_cmsis_table_row row role serial = Inr (product, variant)"
  shows "product \<notin> {[], ''-''}" "map_of row ''TARGET'' = Some RECEIVER_TARGET_NAME" "map_of row ''DPIDR'' = Some RECEIVER_DPIDR"
    "map_of row ''PART'' = Some RECEIVER_PART" "map_of row ''SERIAL'' = Some serial"
  using assms
  by (auto simp: require_cmsis_table_row_def Let_def text_item_def RECEIVER_TARGET_NAME_def RECEIVER_DPIDR_def RECEIVER_PART_def
      split: if_splits option.splits)

lemma item_Inr [simp]: "item d k = Inr v \<longleftrightarrow> map_of d k = Some v"
  by (simp add: item_def split: option.splits)

lemma ap_idr_map_Inr:
  assumes "ap_idr_map markers label = Inr d"
  shows "map fst d = AP_KEYS" "list_all (\<lambda>(_, v). raw_hex_ok v) d"
  using assms by (auto simp: ap_idr_map_def AP_KEYS_def split: if_splits)

lemma cmsis_identity_Inr:
  assumes "cmsis_identity role serial product variant row markers = Inr p"
    and "require_cmsis_table_row row role serial = Inr (product, variant)"
  shows "probe_verified role serial p"
proof -
  note row = table_row_Inr [OF assms(2)]
  from assms(1) row obtain ap variant_raw where
    p: "p = \<lparr>pi_role = role, pi_backend = ''nrf-probes'', pi_family = ''nrf54l'', pi_serial = serial, pi_product = product,
             pi_target = RECEIVER_TARGET_NAME, pi_dpidr = RECEIVER_DPIDR, pi_ap_idrs = ap, pi_part = RECEIVER_PART, pi_variant = variant,
             pi_variant_raw = variant_raw\<rparr>" "ap_idr_map markers (role @ '' CMSIS-DAP'') = Inr ap"
      "variant_display variant_raw = Inr variant"
    by (auto simp: cmsis_identity_def agree_with_table_def split: if_splits)
  then show ?thesis using row ap_idr_map_Inr [OF p(2)] by (simp add: probe_verified_def)
qed

lemma role_probe_Inr:
  assumes "resolve_role_probe env rows role serial s = (t, Inr p)"
  shows "probe_verified role serial p"
  using assms cmsis_identity_Inr
  by (auto simp: resolve_role_probe_def resolve_cmsis_probe_def dbind_Inr split: list.splits if_splits prod.splits)


definition tty_match :: "udev_identity \<Rightarrow> string \<Rightarrow> sdict \<Rightarrow> bool" where
  "tty_match configured serial d \<longleftrightarrow>
     match_udev (Some d) configured \<and> text_item d ''ID_SERIAL_SHORT'' \<noteq> [] \<and> text_item d ''ID_SERIAL_SHORT'' = serial"

text \<open>The udev answers that the evidence keeps for one role.\<close>

definition udev_answers :: "string \<Rightarrow> pydict \<Rightarrow> pydict" where
  "udev_answers role raw = (case map_of raw (role @ ''-udev'') of Some (PDict d) \<Rightarrow> d | _ \<Rightarrow> [])"

lemma str_values_inject [simp]: "str_values a = str_values b \<longleftrightarrow> a = b"
proof -
  have "inj (\<lambda>(k :: string, v). (k, PStr v))" by (auto simp: inj_def)
  then show ?thesis by (simp add: str_values_def inj_map_eq_map)
qed

lemma str_values_not_None [simp]: "str_values d \<noteq> PNone" "PNone \<noteq> str_values d"
  by (simp_all add: str_values_def)

lemma probe_tty_Inr:
  assumes "probe_tty env dir role configured serial n s = (t, Inr f)"
  shows "\<exists>a. map_of (udev_answers role (ds_raw t)) = (if isdir (de_fs env) (path_join dir n) then (map_of (udev_answers role (ds_raw s)))(n \<mapsto> a)
      else map_of (udev_answers role (ds_raw s))) \<and>
    (\<forall>m d. f = Some (m, d) \<longleftrightarrow> m = n \<and> isdir (de_fs env) (path_join dir n) \<and> a = str_values d \<and> tty_match configured serial d)"
proof (cases "isdir (de_fs env) (path_join dir n)")
  case False
  with assms show ?thesis by (auto simp: probe_tty_def)
next
  case True
  then obtain u props where u: "udev_properties env (path_join dir n) s = (u, Inr props)"
    and t: "t = fst (record_raw_item (role @ ''-udev'') n (case props of None \<Rightarrow> PNone | Some d \<Rightarrow> str_values d) u)"
    and f: "f = (case props of Some d \<Rightarrow> if tty_match configured serial d then Some (n, d) else None | None \<Rightarrow> None)"
    using assms by (auto simp: probe_tty_def dbind_Inr Let_def tty_match_def split: option.splits)
  have "same_item (role @ ''-udev'') s u"
    by (rule keeps.stepsD [OF keeps.steps_udev u]) simp
  then have "udev_answers role (ds_raw u) = udev_answers role (ds_raw s)" by (simp add: udev_answers_def same_item_def)
  moreover have "udev_answers role (ds_raw t) = dict_set (udev_answers role (ds_raw u)) n (case props of None \<Rightarrow> PNone | Some d \<Rightarrow> str_values d)"
    by (simp add: t record_raw_item_def Let_def udev_answers_def)
  ultimately show ?thesis using True
    by (intro exI [of _ "case props of None \<Rightarrow> PNone | Some d \<Rightarrow> str_values d"]) (auto simp: f split: option.splits)
qed

lemma probe_ttys_Inr:
  assumes "dmap (probe_tty env dir role configured serial) ns s = (t, Inr found)" and "distinct ns"
    and "\<forall>n \<in> set ns. map_of (udev_answers role (ds_raw s)) n = None"
  shows "\<forall>n. n \<notin> set ns \<longrightarrow> map_of (udev_answers role (ds_raw t)) n = map_of (udev_answers role (ds_raw s)) n" (is ?keep)
    and "\<forall>n d. Some (n, d) \<in> set found \<longleftrightarrow>
      n \<in> set ns \<and> isdir (de_fs env) (path_join dir n) \<and> map_of (udev_answers role (ds_raw t)) n = Some (str_values d) \<and> tty_match configured serial d" (is ?found)
    and "\<forall>n \<in> set ns. \<not> isdir (de_fs env) (path_join dir n) \<longrightarrow> map_of (udev_answers role (ds_raw t)) n = None" (is ?skip)
proof -
  have "?keep \<and> ?found \<and> ?skip"
    using assms
  proof (induction ns arbitrary: s found)
    case (Cons n ns)
    then obtain u f fs where u: "probe_tty env dir role configured serial n s = (u, Inr f)"
      and fs: "dmap (probe_tty env dir role configured serial) ns u = (t, Inr fs)" and found: "found = f # fs"
      by (auto simp: dbind_Inr)
    from probe_tty_Inr [OF u] obtain a where
      a: "map_of (udev_answers role (ds_raw u)) = (if isdir (de_fs env) (path_join dir n) then (map_of (udev_answers role (ds_raw s)))(n \<mapsto> a)
        else map_of (udev_answers role (ds_raw s)))"
      and f: "\<And>m d. f = Some (m, d) \<longleftrightarrow> m = n \<and> isdir (de_fs env) (path_join dir n) \<and> a = str_values d \<and> tty_match configured serial d" by blast
    have fresh: "\<forall>m \<in> set ns. map_of (udev_answers role (ds_raw u)) m = None" using a Cons.prems(2,3) by auto
    have ih: "\<forall>m. m \<notin> set ns \<longrightarrow> map_of (udev_answers role (ds_raw t)) m = map_of (udev_answers role (ds_raw u)) m"
      "\<And>m d. Some (m, d) \<in> set fs \<longleftrightarrow>
        m \<in> set ns \<and> isdir (de_fs env) (path_join dir m) \<and> map_of (udev_answers role (ds_raw t)) m = Some (str_values d) \<and> tty_match configured serial d"
      "\<forall>m \<in> set ns. \<not> isdir (de_fs env) (path_join dir m) \<longrightarrow> map_of (udev_answers role (ds_raw t)) m = None"
      using Cons.IH [OF fs _ fresh] Cons.prems(2) by auto
    have n: "map_of (udev_answers role (ds_raw t)) n = (if isdir (de_fs env) (path_join dir n) then Some a else None)"
      using ih(1) a Cons.prems(2,3) by auto
    have "Some (m, d) \<in> set found \<longleftrightarrow> m \<in> set (n # ns) \<and> isdir (de_fs env) (path_join dir m) \<and>
        map_of (udev_answers role (ds_raw t)) m = Some (str_values d) \<and> tty_match configured serial d" for m d
    proof (cases "m = n")
      case True
      then have "m \<notin> set ns" using Cons.prems(2) by simp
      with True f [of m d] ih(2) [of m d] n show ?thesis by (auto simp: found)
    next
      case False
      with f [of m d] ih(2) [of m d] show ?thesis by (auto simp: found)
    qed
    moreover have "\<forall>m. m \<notin> set (n # ns) \<longrightarrow> map_of (udev_answers role (ds_raw t)) m = map_of (udev_answers role (ds_raw s)) m"
      using ih(1) a by auto
    moreover have "\<forall>m \<in> set (n # ns). \<not> isdir (de_fs env) (path_join dir m) \<longrightarrow> map_of (udev_answers role (ds_raw t)) m = None"
      using ih(3) n by auto
    ultimately show ?case by blast
  qed simp
  then show ?keep ?found ?skip by blast+
qed

definition tty_verified :: "disc_env \<Rightarrow> string \<Rightarrow> physical_binding \<Rightarrow> string \<Rightarrow> string \<Rightarrow> pydict \<Rightarrow> serial_identity \<Rightarrow> bool" where
  "tty_verified env sysfs_root binding role serial raw si \<longleftrightarrow>
     (\<exists>z name. map_of (pbd_roles binding) role = Some (ZephyrBinding z) \<and> si_role si = role \<and> si_path si = path_join ''/dev'' name \<and>
       isdir (de_fs env) (path_join (path_join (path_join sysfs_root ''class'') ''tty'') name) \<and>
       si_baud si = sb_baud (prb_serial z) \<and> si_dtr si = sb_dtr (prb_serial z) \<and> si_rts si = sb_rts (prb_serial z) \<and>
       si_usb_parent si = usb_parent (de_fs env) sysfs_root (si_properties si) \<and>
       (\<forall>n d. map_of (udev_answers role raw) n = Some (str_values d) \<and> tty_match (sb_udev (prb_serial z)) serial d \<longleftrightarrow>
          n = name \<and> d = si_properties si))"

lemma zephyr_role_Inr [simp]: "zephyr_role binding role = Inr z \<longleftrightarrow> map_of (pbd_roles binding) role = Some (ZephyrBinding z)"
  by (cases "map_of (pbd_roles binding) role") (auto simp: zephyr_role_def item_def split: role_binding.splits)

lemma listdir_distinct: "listdir fault fs p = Inr ns \<Longrightarrow> distinct ns"
  by (auto simp: listdir_def split: option.splits prod.splits if_splits)

lemma map_filter_id: "x \<in> set (List.map_filter id xs) \<longleftrightarrow> Some x \<in> set xs"
  by (force simp: List.map_filter_def image_iff)

lemma serial_Inr:
  assumes "resolve_serial env sysfs_root role binding probe s = (t, Inr si)" and "map_of (ds_raw s) (role @ ''-udev'') = None"
  shows "tty_verified env sysfs_root binding role (pi_serial probe) (ds_raw t) si"
proof -
  let ?dir = "path_join (path_join sysfs_root ''class'') ''tty''"
  from assms(1) obtain z ns found name props where
    z: "map_of (pbd_roles binding) role = Some (ZephyrBinding z)"
    and ns: "listdir (de_fault env ?dir) (de_fs env) ?dir = Inr ns"
    and found: "dmap (probe_tty env ?dir role (sb_udev (prb_serial z)) (pi_serial probe)) (sort ns) s = (t, Inr found)"
    and one: "List.map_filter id found = [(name, props)]"
    and si: "si = \<lparr>si_role = role, si_path = path_join ''/dev'' name, si_baud = sb_baud (prb_serial z),
                 si_properties = props, si_usb_parent = usb_parent (de_fs env) sysfs_root props,
                 si_dtr = sb_dtr (prb_serial z), si_rts = sb_rts (prb_serial z)\<rparr>"
    by (clarsimp simp: resolve_serial_def dbind_Inr Let_def split: if_splits) (auto split: list.splits)
  have empty: "udev_answers role (ds_raw s) = []" using assms(2) by (simp add: udev_answers_def)
  have dist: "distinct (sort ns)" using listdir_distinct [OF ns] by simp
  note all = probe_ttys_Inr [OF found dist, unfolded empty, simplified]
  have "Some (n, d) \<in> set found \<longleftrightarrow> n = name \<and> d = props" for n d
    using map_filter_id [of "(n, d)" found] one by auto
  then have iff: "n = name \<and> d = props \<longleftrightarrow> n \<in> set ns \<and> isdir (de_fs env) (path_join ?dir n) \<and>
      map_of (udev_answers role (ds_raw t)) n = Some (str_values d) \<and> tty_match (sb_udev (prb_serial z)) (pi_serial probe) d" for n d
    using all(2) by metis
  moreover have "n \<in> set ns \<and> isdir (de_fs env) (path_join ?dir n)" if "map_of (udev_answers role (ds_raw t)) n = Some v" for n v
    using all(1,3) that by (metis option.distinct(1))
  ultimately have only: "map_of (udev_answers role (ds_raw t)) n = Some (str_values d) \<and> tty_match (sb_udev (prb_serial z)) (pi_serial probe) d \<longleftrightarrow>
      n = name \<and> d = props" for n d by blast
  have "isdir (de_fs env) (path_join ?dir name)" using iff [of name props] by blast
  then show ?thesis using z only unfolding tty_verified_def by (intro exI [of _ z] exI [of _ name]) (simp add: si)
qed

lemma tty_verified_cong:
  "map_of raw (role @ ''-udev'') = map_of raw' (role @ ''-udev'') \<Longrightarrow>
   tty_verified env sysfs_root binding role serial raw si \<longleftrightarrow> tty_verified env sysfs_root binding role serial raw' si"
  by (simp add: tty_verified_def udev_answers_def)

lemma roles_Inr:
  assumes "resolved_roles env sysfs_root binding p q s = (t, Inr roles)"
    and "map_of (ds_raw s) ''receiver-udev'' = None" and "map_of (ds_raw s) ''source-udev'' = None"
  shows "\<exists>a b. roles = [(''receiver'', \<lparr>ri_role = ''receiver'', ri_probe = p, ri_serial = a\<rparr>),
        (''source'', \<lparr>ri_role = ''source'', ri_probe = q, ri_serial = b\<rparr>)] \<and> si_path a \<noteq> si_path b \<and>
      tty_verified env sysfs_root binding ''receiver'' (pi_serial p) (ds_raw t) a \<and> tty_verified env sysfs_root binding ''source'' (pi_serial q) (ds_raw t) b"
proof -
  from assms(1) obtain u a b where a: "resolve_serial env sysfs_root ''receiver'' binding p s = (u, Inr a)"
    and b: "resolve_serial env sysfs_root ''source'' binding q u = (t, Inr b)" and "si_path a \<noteq> si_path b"
    and roles: "roles = [(''receiver'', \<lparr>ri_role = ''receiver'', ri_probe = p, ri_serial = a\<rparr>),
        (''source'', \<lparr>ri_role = ''source'', ri_probe = q, ri_serial = b\<rparr>)]"
    by (auto simp: resolved_roles_def dbind_Inr split: if_splits)
  have "same_item ''source-udev'' s u" by (rule keeps.stepsD [OF keeps.steps_serial a]) simp_all
  with assms(3) have "tty_verified env sysfs_root binding ''source'' (pi_serial q) (ds_raw t) b"
    by (intro serial_Inr [OF b]) (simp add: same_item_def)
  moreover have "same_item ''receiver-udev'' u t" by (rule keeps.stepsD [OF keeps.steps_serial b]) simp_all
  then have "tty_verified env sysfs_root binding ''receiver'' (pi_serial p) (ds_raw t) a"
    using serial_Inr [OF a] assms(2) tty_verified_cong [of "ds_raw u" "''receiver''" "ds_raw t"] by (simp add: same_item_def)
  ultimately show ?thesis using roles \<open>si_path a \<noteq> si_path b\<close> by blast
qed

lemma explicit_serial_Inr:
  "explicit_serial binding d role = Inr serial \<Longrightarrow> dict_get d role = PStr serial \<and> probe_serial_ok serial"
  by (auto simp: explicit_serial_def Let_def split: pyval.splits if_splits)

lemma explicit_Inr:
  assumes "validate_explicit_probe_serials binding explicit = Inr (receiver, source)"
  shows "\<exists>d. explicit = PDict d \<and> dict_get d ''receiver'' = PStr receiver \<and> dict_get d ''source'' = PStr source \<and>
    receiver \<noteq> source \<and> probe_serial_ok receiver \<and> probe_serial_ok source"
  using assms explicit_serial_Inr
  by (auto simp: validate_explicit_probe_serials_def Let_def split: pyval.splits if_splits)

text \<open>The evidence of the probe table is recorded before anything can fail, and nothing writes it again.\<close>

lemma pair_evidence:
  assumes "resolve_explicit_pair env sysfs_root binding (receiver, source) s = (t, r)"
    and "de_run env (length (ds_calls s)) (probes_argv receiver source) 90 = Inr p"
  shows "map_of (ds_raw t) ''nrf-probes'' =
    Some (PDict [(''argv'', str_list (probes_argv receiver source)), (''stdout'', PStr (out_text p)), (''stderr'', PStr (err_text p)),
       (''status'', PInt (pr_returncode p))])"
proof -
  from assms obtain u where "resolve_probed_pair env sysfs_root binding receiver source p u = (t, r)"
    and u: "map_of (ds_raw u) ''nrf-probes'' = Some (PDict [(''argv'', str_list (probes_argv receiver source)), (''stdout'', PStr (out_text p)),
      (''stderr'', PStr (err_text p)), (''status'', PInt (pr_returncode p))])"
    by (auto simp: resolve_explicit_pair_def dbind_run run_cmd_def record_probe_output_def record_raw_def)
  moreover have "keeps.steps ''nrf-probes'' (resolve_probed_pair env sysfs_root binding receiver source p)"
    by (rule keeps.steps_probed_pair) (simp_all add: ROLE_KEYS_def)
  ultimately show ?thesis using keeps.stepsD by (fastforce simp: same_item_def)
qed


definition board_verified :: "disc_env \<Rightarrow> string \<Rightarrow> physical_binding \<Rightarrow> string \<Rightarrow> string \<Rightarrow> pydict \<Rightarrow> role_identity \<Rightarrow> bool" where
  "board_verified env sysfs_root binding role serial raw r \<longleftrightarrow>
     ri_role r = role \<and> probe_verified role serial (ri_probe r) \<and> tty_verified env sysfs_root binding role serial raw (ri_serial r) \<and>
     si_usb_parent (ri_serial r) \<noteq> None"

lemma role_probe_keeps:
  assumes "resolve_role_probe env rows role serial s = (t, r)" and "role \<in> {''receiver'', ''source''}" and "k \<in> {''receiver-udev'', ''source-udev''}"
  shows "map_of (ds_raw t) k = map_of (ds_raw s) k"
proof -
  have "keeps.steps k (resolve_role_probe env rows role serial)"
    by (rule keeps.steps_role_probe) (use assms in auto)
  from keeps.stepsD [OF this assms(1)] show ?thesis by (simp add: same_item_def)
qed

lemma pair_Inr:
  assumes "resolve_explicit_pair env sysfs_root binding (receiver, source) \<lparr>ds_calls = [], ds_raw = []\<rparr> = (t, Inr r)"
  shows "\<exists>a b. fr_roles r = [(''receiver'', a), (''source'', b)] \<and> fr_raw r = ds_raw t \<and>
    board_verified env sysfs_root binding ''receiver'' receiver (fr_raw r) a \<and> board_verified env sysfs_root binding ''source'' source (fr_raw r) b \<and>
    si_path (ri_serial a) \<noteq> si_path (ri_serial b) \<and> si_usb_parent (ri_serial a) \<noteq> si_usb_parent (ri_serial b)"
proof -
  from assms obtain proc v where
    probed: "resolve_probed_pair env sysfs_root binding receiver source proc
      \<lparr>ds_calls = [probes_argv receiver source], ds_raw = [(''nrf-probes'', v)]\<rparr> = (t, Inr r)"
    by (auto simp: resolve_explicit_pair_def dbind_Inr run_cmd_def record_probe_output_def record_raw_def)
  let ?st = "\<lparr>ds_calls = [probes_argv receiver source], ds_raw = [(''nrf-probes'', v)]\<rparr>"
  from probed obtain rows p q roles u1 u2 where
    p: "resolve_role_probe env rows ''receiver'' receiver ?st = (u1, Inr p)"
    and q: "resolve_role_probe env rows ''source'' source u1 = (u2, Inr q)"
    and roles: "resolved_roles env sysfs_root binding p q u2 = (t, Inr roles)"
    and r: "r = \<lparr>fr_roles = roles, fr_raw = ds_raw t\<rparr>"
    and parents: "usb_parent_of roles ''receiver'' \<noteq> None" "usb_parent_of roles ''source'' \<noteq> None"
      "usb_parent_of roles ''receiver'' \<noteq> usb_parent_of roles ''source''"
    by (clarsimp simp: resolve_probed_pair_def dbind_Inr split: if_splits)
  have "map_of (ds_raw u2) k = None" if "k \<in> {''receiver-udev'', ''source-udev''}" for k
    using role_probe_keeps [OF p _ that] role_probe_keeps [OF q _ that] that by auto
  from roles_Inr [OF roles this this] obtain a b where
    ab: "roles = [(''receiver'', \<lparr>ri_role = ''receiver'', ri_probe = p, ri_serial = a\<rparr>),
      (''source'', \<lparr>ri_role = ''source'', ri_probe = q, ri_serial = b\<rparr>)]" "si_path a \<noteq> si_path b"
    "tty_verified env sysfs_root binding ''receiver'' (pi_serial p) (ds_raw t) a" "tty_verified env sysfs_root binding ''source'' (pi_serial q) (ds_raw t) b"
    by auto
  have pq: "probe_verified ''receiver'' receiver p" "probe_verified ''source'' source q"
    using role_probe_Inr [OF p] role_probe_Inr [OF q] by simp_all
  then have "pi_serial p = receiver" "pi_serial q = source" by (simp_all add: probe_verified_def)
  with ab pq parents show ?thesis by (auto simp: r board_verified_def usb_parent_of_def)
qed

lemma resolve_fixture_Inr:
  "resolve_fixture env sysfs_root binding explicit = (s, Inr r) \<longleftrightarrow>
   resolve_fixture_impl env sysfs_root binding explicit \<lparr>ds_calls = [], ds_raw = []\<rparr> = (s, Inr r)"
  by (auto simp: resolve_fixture_def split: prod.splits sum.splits)

text \<open>What discovery may run: the probe listing and the fixed fingerprint script for the two named probes, whose serials
  have no character that the shell of OpenOCD treats specially, and udev queries.\<close>

definition read_only_command :: "pyval \<Rightarrow> string list \<Rightarrow> bool" where
  "read_only_command explicit argv \<longleftrightarrow>
     (\<exists>d receiver source. explicit = PDict d \<and> dict_get d ''receiver'' = PStr receiver \<and> dict_get d ''source'' = PStr source \<and>
        probe_serial_ok receiver \<and> probe_serial_ok source \<and>
        argv \<in> {probes_argv receiver source, fingerprint_argv receiver, fingerprint_argv source}) \<or>
     (\<exists>node. argv = udev_argv node)"

lemma impl_read_only:
  "issued (read_only_command explicit) s (fst (resolve_fixture_impl env sysfs_root binding explicit s))"
proof (cases "validate_explicit_probe_serials binding explicit")
  case (Inl e)
  then show ?thesis by (simp add: resolve_fixture_impl_def dbind_run dlift_def issued_def)
next
  case (Inr serials)
  obtain receiver source where rs: "serials = (receiver, source)" by fastforce
  have "issue.steps (read_only_command explicit) (resolve_explicit_pair env sysfs_root binding serials)"
    unfolding rs using explicit_Inr [OF Inr [unfolded rs]]
    by (intro issue.steps_pair) (auto simp: read_only_command_def)
  then show ?thesis using Inr by (simp add: resolve_fixture_impl_def dbind_run dlift_def issue.steps_def)
qed

end
