(* ===== verification/Hil_Boards.thy ===== *)
theory Hil_Boards
  imports Hil_Discovery
begin

text \<open>
  What identity discovery guarantees: the printed probe table and its way through the parser, a bench with two boards on
  which a resolution succeeds, and the properties of \<open>Hil_Discovery\<close>.
\<close>

section \<open>The printed probe table\<close>

text \<open>The table as the probe tool prints it: every column but the last is padded to a common width.\<close>

abbreviation blanks :: "nat \<Rightarrow> string" where
  "blanks k \<equiv> replicate k (CHR 0x20)"

fun table_line :: "nat list \<Rightarrow> string list \<Rightarrow> string" where
  "table_line (w # ws) (c # cs) = c @ blanks (w - length c) @ table_line ws cs"
| "table_line [] (c # cs) = c"
| "table_line ws [] = []"

definition probe_table :: "nat list \<Rightarrow> string list list \<Rightarrow> string" where
  "probe_table ws rows = concat (map (\<lambda>l. l @ [CHR 0x0A]) (map (table_line ws) (NRF_PROBES_HEADER # rows)))"

definition cell_ok :: "string \<Rightarrow> bool" where
  "cell_ok c \<longleftrightarrow> list_all plain_char c \<and> (c = [] \<or> visible (hd c) \<and> visible (last c))"

definition row_ok :: "nat list \<Rightarrow> string list \<Rightarrow> bool" where
  "row_ok ws cells \<longleftrightarrow> length cells = Suc (length ws) \<and> list_all cell_ok cells \<and> hd cells \<noteq> [] \<and> list_all2 (\<lambda>c w. length c \<le> w) (butlast cells) ws"

definition widths_ok :: "nat list \<Rightarrow> bool" where
  "widths_ok ws \<longleftrightarrow> list_all2 (\<lambda>h w. length h + 2 \<le> w) (butlast NRF_PROBES_HEADER) ws"

fun offsets :: "nat \<Rightarrow> nat list \<Rightarrow> nat list" where
  "offsets p [] = [p]"
| "offsets p (w # ws) = p # offsets (p + w) ws"

lemma text_of_points: "list_all plain_char s \<Longrightarrow> text_of (points s) = s"
  by (induction s) (auto simp: text_of_def points_def utf8_encode_def plain_char_def)

lemma of_char_space: "of_char c = (32 :: nat) \<longleftrightarrow> c = CHR 0x20"
  using of_char_eq_iff [of c "CHR 0x20", where ?'a = nat] by simp

lemma length_points [simp]: "length (points s) = length s"
  by (simp add: points_def)

lemma find_at_spaces: "w \<noteq> [] \<Longrightarrow> hd w \<noteq> 32 \<Longrightarrow> find_at w (replicate k 32 @ w @ r) = Some k"
proof (induction k)
  case 0
  then show ?case by (cases w) simp_all
next
  case (Suc k)
  then show ?case by (cases w) auto
qed

lemma column_starts_line:
  assumes "list_all2 (\<lambda>h w. length h \<le> w) (butlast hs) ws" and "length hs = Suc (length ws)"
    and "\<forall>h \<in> set hs. h \<noteq> [] \<and> hd h \<noteq> CHR 0x20" and "drop p header = points (blanks k @ table_line ws hs)"
  shows "column_starts header (map points hs) p = Inr (offsets (p + k) ws)"
  using assms
proof (induction ws arbitrary: hs p k rule: list.induct)
  case Nil
  then obtain h where h: "hs = [h]" by (cases hs) auto
  have "find_at (points h) (replicate k 32 @ points h @ []) = Some k"
    using Nil.prems h by (intro find_at_spaces) (auto simp: points_def hd_map of_char_space)
  then show ?case using Nil.prems by (simp add: h index_from_def points_def)
next
  case (Cons w ws)
  obtain h hs' where h: "hs = h # hs'" "hs' \<noteq> []" using Cons.prems(2) by (cases hs; cases "tl hs") simp_all
  have fits: "length h \<le> w" "list_all2 (\<lambda>h w. length h \<le> w) (butlast hs') ws" using Cons.prems(1) h by auto
  let ?rest = "points (blanks (w - length h) @ table_line ws hs')"
  have d: "drop p header = replicate k 32 @ points h @ ?rest" using Cons.prems(4) h(1) by (simp add: points_def)
  have "find_at (points h) (replicate k 32 @ points h @ ?rest) = Some k"
    using Cons.prems(3) h by (intro find_at_spaces) (auto simp: points_def hd_map of_char_space)
  then have idx: "index_from header (points h) p = Inr (p + k)" by (simp add: index_from_def d)
  have "drop (p + k + length h) header = ?rest"
  proof -
    have "drop (p + k + length h) header = drop (k + length h) (drop p header)" by (simp add: ac_simps)
    also have "\<dots> = ?rest" by (simp add: d points_def)
    finally show ?thesis .
  qed
  then have "column_starts header (map points hs') (p + k + length h) = Inr (offsets (p + k + length h + (w - length h)) ws)"
    using Cons.prems(2,3) h fits(2) by (intro Cons.IH) auto
  then show ?case using fits(1) idx by (simp add: h(1) add.assoc)
qed

lemma rstrip_spaces:
  assumes "c = [] \<or> visible (last c)"
  shows "rstrip (c @ blanks k) = c"
proof (induction k)
  case 0
  show ?case
  proof (cases "c = []")
    case False
    have no: "ws_width (drop (length c - j) c) \<noteq> j" if "1 \<le> j" "j \<le> length c" for j
    proof -
      have "drop (length c - j) c \<noteq> []" and "length (drop (length c - j) c) = j" using that False by auto
      with ws_width_last [of "drop (length c - j) c"] assms False show ?thesis by (auto simp: last_drop)
    qed
    show ?thesis using no [of 1] no [of 2] no [of 3] by (subst rstrip.simps) (auto simp: Let_def)
  qed (simp add: rstrip.simps)
next
  case (Suc k)
  have "blanks (Suc k) = blanks k @ [CHR 0x20]" by (simp add: replicate_append_same)
  then have s: "c @ blanks (Suc k) = (c @ blanks k) @ [CHR 0x20]" by simp
  have "ws_width [CHR 0x20] = 1" by (simp add: ws_width_def match_width_def space_seqs_def)
  then have "rstrip ((c @ blanks k) @ [CHR 0x20]) = rstrip (c @ blanks k)" by (subst rstrip.simps) (simp add: Let_def)
  with Suc s show ?case by simp
qed

lemma strip_padded:
  assumes "cell_ok c"
  shows "strip (c @ blanks k) = c"
proof (cases "c = []")
  case False
  then have "lstrip (c @ blanks k) = c @ blanks k"
    using assms ws_width_hd [of "c @ blanks k"] by (subst lstrip.simps) (simp add: cell_ok_def)
  then show ?thesis using assms rstrip_spaces [of c k] by (auto simp: strip_def cell_ok_def)
next
  case True
  have "lstrip (blanks k) = []"
  proof (induction k)
    case (Suc k)
    have "ws_width (CHR 0x20 # blanks k) = 1" by (simp add: ws_width_def match_width_def space_seqs_def)
    with Suc show ?case by (subst lstrip.simps) simp
  qed (simp add: lstrip.simps [of "[]"] ws_width_le [of "[]", simplified])
  then show ?thesis using True rstrip_spaces [of "[]" 0] by (simp add: strip_def)
qed

lemma row_cells_line:
  assumes "list_all2 (\<lambda>c w. length c \<le> w) (butlast cells) ws" and "length cells = Suc (length ws)" and "list_all cell_ok cells"
    and "drop p line = points (table_line ws cells)"
  shows "row_cells line (offsets p ws) = cells"
  using assms
proof (induction ws arbitrary: cells p rule: list.induct)
  case Nil
  then obtain c where c: "cells = [c]" by (cases cells) auto
  then show ?case using Nil.prems strip_padded [of c 0] text_of_points [of c] by (simp add: cell_ok_def)
next
  case (Cons w ws)
  obtain c cs where c: "cells = c # cs" "cs \<noteq> []" using Cons.prems(2) by (cases cells; cases "tl cells") simp_all
  have fits: "length c \<le> w" "list_all2 (\<lambda>c w. length c \<le> w) (butlast cs) ws" using Cons.prems(1) c by auto
  have d: "drop p line = points (c @ blanks (w - length c)) @ points (table_line ws cs)" using Cons.prems(4) c(1) by (simp add: points_def)
  have len: "length (points (c @ blanks (w - length c))) = w" using fits(1) by (simp add: points_def)
  have "list_all plain_char (c @ blanks (w - length c))" using Cons.prems(3) c(1) by (auto simp: cell_ok_def list_all_iff plain_char_def)
  then have "strip (text_of (points (c @ blanks (w - length c)))) = c"
    using text_of_points strip_padded [of c] Cons.prems(3) c(1) by (simp del: points_append)
  moreover have "take w (drop p line) = points (c @ blanks (w - length c))" using d len by simp
  moreover have "drop (p + w) line = points (table_line ws cs)" using d len by (metis add.commute append_eq_conv_conj drop_drop)
  then have "row_cells line (offsets (p + w) ws) = cs" using Cons.prems(2,3) c fits(2) by (intro Cons.IH) auto
  ultimately show ?case by (cases ws) (simp_all add: c(1))
qed


lemma run_plus_stuck:
  assumes "ahead s = w @ v" and "w \<noteq> []" and "list_all p w" and "v = [] \<or> \<not> p (hd v)" and "stuck_on p k"
  shows "concat (map (run k) (run (plus (Ch p)) s)) = run k (read w s)"
proof -
  obtain m where m: "length w = Suc m" using assms(2) by (cases w) auto
  have shorter: "run k (read (take (Suc j) w) s) = []" if "j < m" for j
  proof -
    have "ahead (read (take (Suc j) w) s) = drop (Suc j) w @ v" using assms(1) that m by simp
    moreover have "drop (Suc j) w \<noteq> []" using that m by simp
    moreover from this have "p (hd (drop (Suc j) w))" using assms(3) by (metis hd_in_set in_set_dropD list_all_iff)
    ultimately show ?thesis using assms(5) by (simp add: stuck_on_def)
  qed
  have "run (plus (Ch p)) s = read w s # map (\<lambda>j. read (take (Suc j) w) s) (rev [0 ..< m])"
    using run_plus_class [OF assms(1-4)] m by simp
  then show ?thesis using shorter by simp
qed

lemma space_points_list:
  "space_points = [9, 10, 11, 12, 13, 28, 29, 30, 31, 32, 133, 160, 5760, 8192, 8193, 8194, 8195, 8196, 8197, 8198, 8199, 8200, 8201,
     8202, 8232, 8233, 8239, 8287, 12288]"
  by (simp add: space_points_def space_seqs_def)

lemma is_space_32: "is_space 32"
  by (simp add: is_space_def space_points_list)

lemma visible_not_space: "visible c \<Longrightarrow> \<not> is_space (of_char c)"
  by (auto simp: is_space_def space_points_list visible_def)

lemma header_columns_Cons: "\<exists>r. header_columns n (h # hs) = Grp n (lit (points h)) # r"
  by (cases hs) auto

lemma stuck_columns:
  assumes "h \<noteq> []" and "\<not> is_space (of_char (hd h))"
  shows "stuck_on is_space (seqs (header_columns n (h # hs) @ rs))"
proof -
  obtain r where r: "header_columns n (h # hs) = Grp n (lit (points h)) # r" using header_columns_Cons by blast
  have "take (length (points h)) (ahead t) \<noteq> points h" if "ahead t \<noteq> []" "is_space (hd (ahead t))" for t
    using that assms by (cases "ahead t"; cases h) (auto simp: points_def)
  then show ?thesis by (simp add: r stuck_on_def run_lit del: lit.simps) blast
qed

lemma run_group_lit: "ahead s = w @ v \<Longrightarrow> run (seqs (Grp n (lit w) # rs)) s = run (seqs rs) (take_group n w s)"
  by (simp add: run_lit close_group_def take_group_def del: lit.simps)

lemma run_columns:
  assumes "list_all2 (\<lambda>h w. length h + 2 \<le> w) (butlast hs) ws" and "length hs = Suc (length ws)"
    and "\<forall>h \<in> set hs. h \<noteq> [] \<and> \<not> is_space (of_char (hd h))" and "ahead s = points (table_line ws hs)"
  shows "\<exists>m. run (seqs (header_columns n hs @ [Rep space_class, eol])) s = [m] \<and>
    groups m = rev (zip [n ..< n + length hs] (map points hs)) @ groups s"
  using assms
proof (induction ws arbitrary: hs n s rule: list.induct)
  case Nil
  then obtain h where h: "hs = [h]" by (cases hs) auto
  have "ahead s = points h @ []" using Nil.prems(4) h by simp
  then have "run (seqs (header_columns n hs @ [Rep space_class, eol])) s = run (seqs [Rep space_class, eol]) (take_group n (points h) s)"
    by (simp only: h header_columns.simps append_Cons append_Nil run_group_lit)
  moreover have "ahead (take_group n (points h) s) = []" using Nil.prems(4) h by simp
  ultimately show ?case by (simp add: h space_class_def eol_def)
next
  case (Cons w ws)
  obtain h g hs' where h: "hs = h # g # hs'" using Cons.prems(2) by (cases hs; cases "tl hs") simp_all
  have fits: "length h + 2 \<le> w" "list_all2 (\<lambda>h w. length h + 2 \<le> w) (butlast (g # hs')) ws" using Cons.prems(1) h by auto
  then obtain k where k: "w - length h = Suc (Suc k)" by (metis Suc_le_eq add_2_eq_Suc' add_le_imp_le_diff add.commute le_Suc_ex plus_nat.simps(2))
  let ?rest = "points (table_line ws (g # hs'))" and ?K = "seqs (header_columns (Suc n) (g # hs') @ [Rep space_class, eol])"
  have s: "ahead s = points h @ 32 # replicate (Suc k) 32 @ ?rest" using Cons.prems(4) by (simp add: h k points_def)
  let ?t = "read [32] (take_group n (points h) s)"
  have g: "g \<noteq> []" "\<not> is_space (of_char (hd g))" using Cons.prems(3) h by auto
  then have rest_hd: "\<not> is_space (hd ?rest)" by (cases ws; cases g) (simp_all add: points_def)
  have "run (seqs (header_columns n hs @ [Rep space_class, eol])) s =
      run (seqs (space_class # plus space_class # header_columns (Suc n) (g # hs') @ [Rep space_class, eol])) (take_group n (points h) s)"
    using run_group_lit [OF s] by (simp only: h header_columns.simps append_Cons)
  also have "\<dots> = concat (map (run ?K) (run (plus (Ch is_space)) ?t))"
    using s is_space_32 by (simp add: space_class_def step_char_def advance_read points_def)
  also have "\<dots> = run ?K (read (replicate (Suc k) 32) ?t)"
  proof (rule run_plus_stuck)
    show "ahead ?t = replicate (Suc k) 32 @ ?rest" using s by simp
  qed (use rest_hd stuck_columns [OF g] is_space_32 in \<open>auto simp: list_all_iff\<close>)
  finally have run: "run (seqs (header_columns n hs @ [Rep space_class, eol])) s = run ?K (read (replicate (Suc k) 32) ?t)" .
  have "ahead (read (replicate (Suc k) 32) ?t) = ?rest" using s by simp
  then have "\<exists>m. run ?K (read (replicate (Suc k) 32) ?t) = [m] \<and>
      groups m = rev (zip [Suc n ..< Suc n + length (g # hs')] (map points (g # hs'))) @ groups (read (replicate (Suc k) 32) ?t)"
    using Cons.prems(2,3) h by (intro Cons.IH [OF fits(2)]) simp_all
  then obtain m where "run ?K (read (replicate (Suc k) 32) ?t) = [m]"
      "groups m = rev (zip [Suc n ..< Suc n + length (g # hs')] (map points (g # hs'))) @ groups (read (replicate (Suc k) 32) ?t)" by blast
  moreover have "[n ..< n + length hs] = n # [Suc n ..< Suc n + length (g # hs')]" using upt_conv_Cons [of n "n + length hs"] h by (simp del: upt_Suc)
  ultimately show ?case using run by (simp add: h del: upt_Suc)
qed


lemma header_visible: "\<forall>h \<in> set NRF_PROBES_HEADER. h \<noteq> [] \<and> visible (hd h) \<and> cell_ok h"
  by (auto simp: NRF_PROBES_HEADER_def visible_def cell_ok_def plain_char_def)

lemma header_matches:
  assumes "widths_ok ws"
  shows "\<exists>m. re_match NRF_PROBES_HEADER_RE (points (table_line ws NRF_PROBES_HEADER)) = Some m \<and> header_words m = NRF_PROBES_HEADER"
proof -
  let ?s = "start (points (table_line ws NRF_PROBES_HEADER))"
  have hs: "\<forall>h \<in> set NRF_PROBES_HEADER. h \<noteq> [] \<and> \<not> is_space (of_char (hd h))" using header_visible visible_not_space by blast
  have len: "length NRF_PROBES_HEADER = Suc (length ws)"
    using assms [unfolded widths_ok_def, THEN list_all2_lengthD] by (simp add: NRF_PROBES_HEADER_def)
  obtain m where m: "run (seqs (header_columns 1 NRF_PROBES_HEADER @ [Rep space_class, eol])) ?s = [m]"
      "groups m = rev (zip [1 ..< 1 + length NRF_PROBES_HEADER] (map points NRF_PROBES_HEADER)) @ groups ?s"
    using run_columns [OF assms [unfolded widths_ok_def] len hs, of ?s 1] by (auto simp: start_def)
  have ahead: "ahead ?s = [] @ ahead ?s" "ahead ?s = [] \<or> \<not> is_space (hd (ahead ?s))"
    using visible_not_space by (cases ws; auto simp: start_def NRF_PROBES_HEADER_def points_def is_space_def space_points_list)+
  have "repeat (step_char is_space) (length (ahead ?s)) ?s = [?s]"
    using repeat_class [of ?s "[]" "ahead ?s" is_space "length (ahead ?s)"] ahead by simp
  then have "run NRF_PROBES_HEADER_RE ?s = [m]"
    using m(1) unfolding NRF_PROBES_HEADER_RE_def append_Cons
    by (simp add: bol_def space_class_def run_Ch start_def)
  moreover have "header_words m = NRF_PROBES_HEADER"
    using m(2) text_of_points
    by (simp add: header_words_def group_of_def start_def NRF_PROBES_HEADER_def upt_rec plain_char_def)
  ultimately show ?thesis by (simp add: re_match_def)
qed

lemma rstrip_not_Nil: "s \<noteq> [] \<Longrightarrow> visible (hd s) \<Longrightarrow> rstrip s \<noteq> []"
proof (induction s rule: length_induct)
  case (1 s)
  have "ws_width s = 0" using 1(2,3) ws_width_hd by blast
  then have step: "rstrip (take (length s - k) s) \<noteq> []"
    if "1 \<le> k" "k \<le> length s" "ws_width (drop (length s - k) s) = k" for k
    using that 1 by (cases "k = length s") auto
  show ?case
    unfolding rstrip.simps [of s] Let_def using step [of 1, OF order_refl] step [of 2, OF one_le_numeral] step [of 3, OF one_le_numeral] 1(2)
    by (simp only: split: if_split) blast
qed

lemma table_line_facts:
  assumes "list_all cell_ok cells" and "length cells = Suc (length ws)" and "list_all2 (\<lambda>c w. length c \<le> w) (butlast cells) ws"
  shows "list_all plain_char (table_line ws cells)" and "sum_list ws \<le> length (table_line ws cells)"
proof -
  have "list_all plain_char (table_line ws cells) \<and> sum_list ws \<le> length (table_line ws cells)"
    using assms
  proof (induction ws arbitrary: cells rule: list.induct)
    case Nil
    then show ?case by (cases cells) (auto simp: cell_ok_def)
  next
    case (Cons w ws)
    obtain c cs where c: "cells = c # cs" "cs \<noteq> []" using Cons.prems(2) by (cases cells; cases "tl cells") simp_all
    with Cons.IH [of cs] Cons.prems show ?case by (auto simp: cell_ok_def plain_char_def list_all_iff)
  qed
  then show "list_all plain_char (table_line ws cells)" "sum_list ws \<le> length (table_line ws cells)" by blast+
qed

lemma strip_line:
  assumes "length cells = Suc (length ws)" and "hd cells \<noteq> []" and "visible (hd (hd cells))"
  shows "strip (table_line ws cells) \<noteq> []"
proof -
  obtain c cs where c: "cells = c # cs" using assms(1) by (cases cells) auto
  then have l: "table_line ws cells \<noteq> []" "visible (hd (table_line ws cells))" using assms by (cases ws; auto)+
  then have "lstrip (table_line ws cells) = table_line ws cells" using ws_width_hd by (subst lstrip.simps) simp
  with rstrip_not_Nil [OF l] show ?thesis by (simp add: strip_def)
qed

lemma offsets_nth: "i \<le> length ws \<Longrightarrow> offsets p ws ! i = p + sum_list (take i ws)"
  by (induction p ws arbitrary: i rule: offsets.induct) (auto simp: nth_Cons split: nat.splits)

lemma parse_row_line:
  assumes "length ws = 6" and "row_ok ws cells"
  shows "parse_row header (offsets 0 ws) (table_line ws cells) = Inr (zip header cells)"
proof -
  have cells: "list_all cell_ok cells" "length cells = Suc (length ws)" "list_all2 (\<lambda>c w. length c \<le> w) (butlast cells) ws"
    using assms(2) by (simp_all add: row_ok_def)
  note facts = table_line_facts [OF cells]
  have "sum_list ws = sum_list (take 5 ws) + sum_list (drop 5 ws)" by (metis append_take_drop_id sum_list_append)
  then have "offsets 0 ws ! 5 \<le> sum_list ws" using assms(1) by (simp add: offsets_nth)
  moreover have "row_cells (points (table_line ws cells)) (offsets 0 ws) = cells"
    by (rule row_cells_line [OF cells(3,2,1)]) simp
  ultimately show ?thesis using facts by (simp add: parse_row_def Let_def plain_points_of)
qed

lemma probe_table_parses:
  assumes "widths_ok ws" and "list_all (row_ok ws) rows"
  shows "parse_nrf_probes_table (probe_table ws rows) = Inr (map (zip NRF_PROBES_HEADER) rows)"
proof -
  let ?H = "table_line ws NRF_PROBES_HEADER"
  have six: "length ws = 6" using assms(1) [unfolded widths_ok_def, THEN list_all2_lengthD] by (simp add: NRF_PROBES_HEADER_def)
  have fit: "list_all2 (\<lambda>h w. length h \<le> w) (butlast NRF_PROBES_HEADER) ws"
    using assms(1) unfolding widths_ok_def by (rule list_all2_mono) simp
  have head: "list_all cell_ok NRF_PROBES_HEADER" "length NRF_PROBES_HEADER = Suc (length ws)"
    using header_visible six by (auto simp: list_all_iff NRF_PROBES_HEADER_def)
  have plain: "list_all (list_all plain_char) (map (table_line ws) (NRF_PROBES_HEADER # rows))"
    using table_line_facts(1) [OF head fit] table_line_facts(1) assms(2) by (auto simp: list_all_iff row_ok_def)
  have "visible (hd (hd cells))" if "cells \<in> set rows" for cells
  proof -
    have "row_ok ws cells" using that assms(2) by (simp add: list_all_iff)
    moreover from this have "hd cells \<in> set cells" by (intro hd_in_set) (auto simp: row_ok_def)
    ultimately show ?thesis by (auto simp: row_ok_def list_all_iff cell_ok_def)
  qed
  then have "strip l \<noteq> []" if "l \<in> set (map (table_line ws) (NRF_PROBES_HEADER # rows))" for l
    using that strip_line [OF head(2)] strip_line header_visible assms(2)
    by (auto simp: list_all_iff row_ok_def NRF_PROBES_HEADER_def)
  then have lines: "filter (\<lambda>ln. strip ln \<noteq> []) (splitlines (probe_table ws rows)) = ?H # map (table_line ws) rows"
    using splitlines_plain [OF plain] by (simp add: probe_table_def filter_id_conv)
  obtain m where m: "re_match NRF_PROBES_HEADER_RE (points ?H) = Some m" "header_words m = NRF_PROBES_HEADER"
    using header_matches [OF assms(1)] by blast
  have H: "utf8_points ?H = points ?H" using plain by (simp add: plain_points_of)
  have words: "map utf8_points NRF_PROBES_HEADER = map points NRF_PROBES_HEADER"
    using header_visible by (auto simp: plain_points_of cell_ok_def)
  have "column_starts (points ?H) (map points NRF_PROBES_HEADER) 0 = Inr (offsets (0 + 0) ws)"
    using header_visible head(2) by (intro column_starts_line [OF fit]) (auto simp: visible_def)
  moreover have "rmap (parse_row NRF_PROBES_HEADER (offsets 0 ws)) (map (table_line ws) rows) = Inr (map (zip NRF_PROBES_HEADER) rows)"
    using assms(2) parse_row_line [OF six] by (induction rows) auto
  ultimately show ?thesis unfolding parse_nrf_probes_table_def lines by (simp add: H m words)
qed

section \<open>A bench with two boards\<close>

text \<open>Lines in which no failure word can start.\<close>

definition danger :: "nat \<Rightarrow> nat \<Rightarrow> bool" where
  "danger c d \<longleftrightarrow> list_ex (\<lambda>(x, y). ignore_case x c \<and> ignore_case y d) [(119, 97), (101, 114), (114, 101), (118, 101)]"

fun quiet :: "nat list \<Rightarrow> bool" where
  "quiet (c # d # s) \<longleftrightarrow> \<not> danger c d \<and> quiet (d # s)"
| "quiet _ \<longleftrightarrow> True"

lemma quiet_inside: "quiet (w @ c # d # s) \<Longrightarrow> \<not> danger c d"
  by (induction w rule: quiet.induct) (auto elim: quiet.elims)

lemma matches_lit_ci: "matches (lit_ci (x # y # w)) s t \<Longrightarrow> \<exists>c d r. ahead s = c # d # r \<and> ignore_case x c \<and> ignore_case y d"
  by (auto simp: advance_def)

lemma openocd_quiet:
  assumes "quiet t"
  shows "re_search (OPENOCD_FAILURE_RE u) t = None"
proof -
  have "\<exists>c d r. ahead s = c # d # r \<and> danger c d" if m: "matches (OPENOCD_FAILURE_RE u) s m" for s m
  proof -
    have w: "points ''warning'' = 119 # 97 # points ''rning''" "points ''error'' = 101 # 114 # points ''ror''"
      "points ''recovery'' = 114 # 101 # points ''covery''" "points ''verify'' = 118 # 101 # points ''rify''" by (simp_all add: points_def)
    from m consider m' where "matches (lit_ci (points ''warning'')) s m'" | m' where "matches (lit_ci (points ''error'')) s m'"
      | m' where "matches (lit_ci (points ''recovery'')) s m'" | m' where "matches (lit_ci (points ''verify'')) s m'"
      unfolding OPENOCD_FAILURE_RE_def word_boundary_def seqs.simps matches_simps by blast
    then show ?thesis unfolding w by cases (drule matches_lit_ci, force simp: danger_def)+
  qed
  then show ?thesis using assms quiet_inside unfolding re_search_None
    by (metis (no_types, lifting) mstate.select_convs(2))
qed

definition lines_text :: "string list \<Rightarrow> string" where
  "lines_text ls = concat (map (\<lambda>l. l @ [CHR 0x0A]) ls)"

definition lab_rows :: "string list list" where
  "lab_rows = map (\<lambda>serial. [serial, ''XIAO'', ''nRF54L15'', ''0x6ba02477'', ''0x00054b15'', ''AAB0'', []]) [''A1'', ''B2'']"

definition lab_fwc :: "string list" where
  "lab_fwc = [''FWC|dpidr|0x6ba02477'', ''FWC|ap0|0x84770001'', ''FWC|ap1|0x84770001'', ''FWC|ap2|0x32880000'', ''FWC|ap3|0x00000000'',
     ''FWC|part|0x00054b15'', ''FWC|variant|0x41414230'']"

definition lab_props :: "string \<Rightarrow> string \<Rightarrow> sdict" where
  "lab_props serial dev =
     [(''DEVPATH'', ''/devices/'' @ dev), (''ID_BUS'', ''usb''), (''ID_VENDOR_ID'', ''2886''), (''ID_MODEL_ID'', ''0066''),
      (''ID_SERIAL_SHORT'', serial), (''ID_USB_INTERFACE_NUM'', ''02''), (''ID_USB_DRIVER'', ''cdc_acm''), (''ID_PATH'', ''pci-0'')]"

definition ok_proc :: "string \<Rightarrow> proc" where
  "ok_proc out = \<lparr>pr_returncode = 0, pr_stdout = Some out, pr_stderr = None\<rparr>"

definition lab_run :: "nat \<Rightarrow> string list \<Rightarrow> int \<Rightarrow> proc result" where
  "lab_run n argv timeout =
     Inr (ok_proc
       (if hd argv = ''nix-nrf'' then probe_table [8, 7, 10, 12, 12, 9] lab_rows
        else if hd argv = ''openocd'' then lines_text lab_fwc
        else lines_text (map (\<lambda>(k, v). k @ ''='' @ v) (if last argv = ''/sys/class/tty/ttyACM0'' then lab_props ''A1'' ''a'' else lab_props ''B2'' ''b''))))"

definition lab_sysfs :: fsys where
  "lab_sysfs = map (\<lambda>p. (p, Dir)) [[''sys''], [''sys'', ''class''], [''sys'', ''class'', ''tty''], [''sys'', ''class'', ''tty'', ''ttyACM0''],
       [''sys'', ''class'', ''tty'', ''ttyACM1''], [''sys'', ''devices''], [''sys'', ''devices'', ''a''], [''sys'', ''devices'', ''b'']] @
     [([''sys'', ''devices'', ''a'', ''idVendor''], File ''2886''), ([''sys'', ''devices'', ''b'', ''idVendor''], File ''2886'')]"

definition lab_disc :: disc_env where
  "lab_disc = \<lparr>de_run = lab_run, de_fs = lab_sysfs, de_fault = (\<lambda>_. None), de_ucd = ascii_ucd, de_isdigit = ascii_digit\<rparr>"

definition lab_role :: role_binding where
  "lab_role = ZephyrBinding \<lparr>prb_probe = \<lparr>pb_backend = ''nrf-probes'', pb_family = ''nrf54l'', pb_udev = None\<rparr>,
     prb_serial = \<lparr>sb_baud = 115200, sb_dtr = True, sb_rts = False, sb_udev = [(''ID_VENDOR_ID'', ''2886''), (''ID_MODEL_ID'', ''0066''), (''ID_PATH'', ''pci-0'')]\<rparr>\<rparr>"

definition lab_boards :: physical_binding where
  "lab_boards = \<lparr>pbd_schema_version = 1, pbd_fixture_id = ''lab-1'', pbd_roles = [(''receiver'', lab_role), (''source'', lab_role)]\<rparr>"

definition lab_serials :: pyval where
  "lab_serials = PDict [(''receiver'', PStr ''A1''), (''source'', PStr ''B2'')]"

definition lab_probe :: "string \<Rightarrow> string \<Rightarrow> probe_identity" where
  "lab_probe role serial =
     \<lparr>pi_role = role, pi_backend = ''nrf-probes'', pi_family = ''nrf54l'', pi_serial = serial, pi_product = ''XIAO'',
      pi_target = ''nRF54L15'', pi_dpidr = ''0x6ba02477'',
      pi_ap_idrs = [(''ap0'', ''0x84770001''), (''ap1'', ''0x84770001''), (''ap2'', ''0x32880000''), (''ap3'', ''0x00000000'')],
      pi_part = ''0x00054b15'', pi_variant = ''AAB0'', pi_variant_raw = ''0x41414230''\<rparr>"

definition lab_serial :: "string \<Rightarrow> string \<Rightarrow> string \<Rightarrow> string \<Rightarrow> serial_identity" where
  "lab_serial role name serial dev =
     \<lparr>si_role = role, si_path = ''/dev/'' @ name, si_baud = 115200, si_properties = lab_props serial dev,
      si_usb_parent = Some (''/sys/devices/'' @ dev), si_dtr = True, si_rts = False\<rparr>"

definition lab_identities :: "(string \<times> role_identity) list" where
  "lab_identities =
     [(''receiver'', \<lparr>ri_role = ''receiver'', ri_probe = lab_probe ''receiver'' ''A1'', ri_serial = lab_serial ''receiver'' ''ttyACM0'' ''A1'' ''a''\<rparr>),
      (''source'', \<lparr>ri_role = ''source'', ri_probe = lab_probe ''source'' ''B2'', ri_serial = lab_serial ''source'' ''ttyACM1'' ''B2'' ''b''\<rparr>)]"

lemma lab_table: "parse_nrf_probes_table (probe_table [8, 7, 10, 12, 12, 9] lab_rows) = Inr (map (zip NRF_PROBES_HEADER) lab_rows)"
  by (rule probe_table_parses)
    (simp_all add: widths_ok_def row_ok_def lab_rows_def cell_ok_def plain_char_def visible_def NRF_PROBES_HEADER_def)

lemma fwc_lines: "list_all (list_all plain_char) lab_fwc" "list_all (\<lambda>l. quiet (utf8_points l)) lab_fwc"
  by (simp_all add: lab_fwc_def plain_char_def danger_def ignore_case_def)

lemma fwc_split: "splitlines (lines_text lab_fwc) = lab_fwc"
  unfolding lines_text_def by (rule splitlines_plain [OF fwc_lines(1)])

lemma fwc_markers:
  "parse_cmsis_dap_markers (lines_text lab_fwc) =
    ([(''dpidr'', ''0x6ba02477''), (''ap0'', ''0x84770001''), (''ap1'', ''0x84770001''), (''ap2'', ''0x32880000''), (''ap3'', ''0x00000000''),
      (''part'', ''0x00054b15''), (''variant'', ''0x41414230'')], [])"
  unfolding parse_cmsis_dap_markers_def fwc_split by code_simp


lemma fwc_clean: "snd (openocd_failures ascii_ucd (ok_proc (lines_text lab_fwc))) = []"
proof -
  have "splitlines (lines_text lab_fwc @ [CHR 0x0A]) = lab_fwc @ [[]]"
    using splitlines_plain [of "lab_fwc @ [[]]"] fwc_lines(1) by (simp add: lines_text_def)
  moreover have "filter (\<lambda>l. re_search (OPENOCD_FAILURE_RE ascii_ucd) (utf8_points l) \<noteq> None) (lab_fwc @ [[]]) = []"
    using fwc_lines(2) by (auto simp: list_all_iff filter_empty_conv openocd_quiet)
  ultimately show ?thesis
    by (simp add: openocd_failures_def ok_proc_def out_text_def err_text_def Let_def del: filter_append)
qed

lemma lab_fingerprint:
  "\<exists>t out. fingerprint_cmsis_dap lab_disc serial s = (t, Inr \<lparr>fp_argv = fingerprint_argv serial, fp_output = out,
     fp_markers = [(''dpidr'', ''0x6ba02477''), (''ap0'', ''0x84770001''), (''ap1'', ''0x84770001''), (''ap2'', ''0x32880000''),
       (''ap3'', ''0x00000000''), (''part'', ''0x00054b15''), (''variant'', ''0x41414230'')], fp_failures = [], fp_status = 0\<rparr>)"
proof -
  have run: "lab_run n (fingerprint_argv serial) 60 = Inr (ok_proc (lines_text lab_fwc))" for n
    by (simp add: lab_run_def fingerprint_argv_def)
  obtain out where out: "openocd_failures ascii_ucd (ok_proc (lines_text lab_fwc)) = (out, [])"
    using fwc_clean by (metis prod.collapse)
  have outs: "out_text (ok_proc (lines_text lab_fwc)) = lines_text lab_fwc" "pr_returncode (ok_proc (lines_text lab_fwc)) = 0"
    by (simp_all add: out_text_def ok_proc_def)
  show ?thesis
    by (simp add: fingerprint_cmsis_dap_def dbind_run run_cmd_def dlift_def lab_disc_def run out outs fwc_markers)
qed

lemma lab_role_probe:
  assumes "serial \<in> {''A1'', ''B2''}"
  shows "\<exists>t. resolve_role_probe lab_disc (map (zip NRF_PROBES_HEADER) lab_rows) role serial s = (t, Inr (lab_probe role serial))"
proof -
  let ?row = "zip NRF_PROBES_HEADER [serial, ''XIAO'', ''nRF54L15'', ''0x6ba02477'', ''0x00054b15'', ''AAB0'', []]"
  have row: "filter (\<lambda>row. map_of row ''SERIAL'' = Some serial) (map (zip NRF_PROBES_HEADER) lab_rows) = [?row]"
    using assms by (auto simp: lab_rows_def NRF_PROBES_HEADER_def)
  have ok: "require_cmsis_table_row ?row role serial = Inr (''XIAO'', ''AAB0'')"
    by (simp add: require_cmsis_table_row_def text_item_def NRF_PROBES_HEADER_def RECEIVER_TARGET_NAME_def RECEIVER_DPIDR_def RECEIVER_PART_def)
  have hex: "raw_hex_ok v" if "v \<in> {''0x84770001'', ''0x32880000'', ''0x00000000'', ''0x41414230''}" for v
    using that by (auto simp: raw_hex_ok_def hex_digit_def byte_in_def)
  have variant: "variant_display ''0x41414230'' = Inr ''AAB0''" by code_simp
  have ident: "cmsis_identity role serial ''XIAO'' ''AAB0'' ?row [(''dpidr'', ''0x6ba02477''), (''ap0'', ''0x84770001''), (''ap1'', ''0x84770001''), (''ap2'', ''0x32880000''),
       (''ap3'', ''0x00000000''), (''part'', ''0x00054b15''), (''variant'', ''0x41414230'')] = Inr (lab_probe role serial)"
    by (simp add: cmsis_identity_def agree_with_table_def item_def variant NRF_PROBES_HEADER_def ap_idr_map_def AP_KEYS_def text_item_def hex
        lab_probe_def)
  obtain t out where fp: "fingerprint_cmsis_dap lab_disc serial (fst (record_raw (role @ ''-probe'') (str_values ?row) s)) =
      (t, Inr \<lparr>fp_argv = fingerprint_argv serial, fp_output = out,
     fp_markers = [(''dpidr'', ''0x6ba02477''), (''ap0'', ''0x84770001''), (''ap1'', ''0x84770001''), (''ap2'', ''0x32880000''),
       (''ap3'', ''0x00000000''), (''part'', ''0x00054b15''), (''variant'', ''0x41414230'')], fp_failures = [], fp_status = 0\<rparr>)"
    using lab_fingerprint by blast
  show ?thesis
    unfolding resolve_role_probe_def row list.case resolve_cmsis_probe_def
    using fp by (simp add: dbind_run dlift_def ok ident record_raw_def)
qed

lemma lab_udev:
  assumes "dev \<in> {''a'', ''b''}" and "serial \<in> {''A1'', ''B2''}"
  shows "foldl udev_line [] (splitlines (lines_text (map (\<lambda>(k, v). k @ ''='' @ v) (lab_props serial dev)))) = lab_props serial dev"
proof -
  have "list_all (list_all plain_char) (map (\<lambda>(k, v). k @ ''='' @ v) (lab_props serial dev))"
    using assms by (auto simp: lab_props_def plain_char_def)
  from splitlines_plain [OF this] show ?thesis
    unfolding lines_text_def by (simp only:) (simp add: lab_props_def udev_line_def)
qed

lemma lab_dirs:
  "isdir lab_sysfs ''/sys/class/tty''" "isdir lab_sysfs ''/sys/class/tty/ttyACM0''" "isdir lab_sysfs ''/sys/class/tty/ttyACM1''"
  "listdir None lab_sysfs ''/sys/class/tty'' = Inr [''ttyACM0'', ''ttyACM1'']"
  "sort [''ttyACM0'', ''ttyACM1''] = [''ttyACM0'', ''ttyACM1'']"
  "usb_parent lab_sysfs ''/sys'' (lab_props ''A1'' ''a'') = Some ''/sys/devices/a''"
  "usb_parent lab_sysfs ''/sys'' (lab_props ''B2'' ''b'') = Some ''/sys/devices/b''"
  by code_simp+


lemma lab_tty:
  assumes "serial \<in> {''A1'', ''B2''}"
  shows "\<exists>t. probe_tty lab_disc ''/sys/class/tty'' role [(''ID_VENDOR_ID'', ''2886''), (''ID_MODEL_ID'', ''0066''), (''ID_PATH'', ''pci-0'')] serial ''ttyACM0'' s =
      (t, Inr (if serial = ''A1'' then Some (''ttyACM0'', lab_props ''A1'' ''a'') else None))"
    and "\<exists>t. probe_tty lab_disc ''/sys/class/tty'' role [(''ID_VENDOR_ID'', ''2886''), (''ID_MODEL_ID'', ''0066''), (''ID_PATH'', ''pci-0'')] serial ''ttyACM1'' s =
      (t, Inr (if serial = ''B2'' then Some (''ttyACM1'', lab_props ''B2'' ''b'') else None))"
proof -
  have join: "path_join ''/sys/class/tty'' ''ttyACM0'' = ''/sys/class/tty/ttyACM0''" "path_join ''/sys/class/tty'' ''ttyACM1'' = ''/sys/class/tty/ttyACM1''"
    by code_simp+
  have udev: "\<exists>t. udev_properties lab_disc ''/sys/class/tty/ttyACM0'' s = (t, Inr (Some (lab_props ''A1'' ''a'')))"
    "\<exists>t. udev_properties lab_disc ''/sys/class/tty/ttyACM1'' s = (t, Inr (Some (lab_props ''B2'' ''b'')))" for s
    using lab_udev [of "''a''" "''A1''"] lab_udev [of "''b''" "''B2''"]
    by (simp_all add: udev_properties_def dbind_run run_cmd_def dlift_def lab_disc_def lab_run_def udev_argv_def ok_proc_def out_text_def)
  have fits: "match_udev (Some (lab_props x y)) [(''ID_VENDOR_ID'', ''2886''), (''ID_MODEL_ID'', ''0066''), (''ID_PATH'', ''pci-0'')]"
    "text_item (lab_props x y) ''ID_SERIAL_SHORT'' = x" for x y
    by (simp_all add: match_udev_def lab_props_def text_item_def)
  show "\<exists>t. probe_tty lab_disc ''/sys/class/tty'' role [(''ID_VENDOR_ID'', ''2886''), (''ID_MODEL_ID'', ''0066''), (''ID_PATH'', ''pci-0'')] serial ''ttyACM0'' s =
      (t, Inr (if serial = ''A1'' then Some (''ttyACM0'', lab_props ''A1'' ''a'') else None))"
    using udev(1) [of s] lab_dirs(2)
    by (auto simp: probe_tty_def join dbind_run dlift_def record_raw_item_def Let_def fits lab_disc_def)
  show "\<exists>t. probe_tty lab_disc ''/sys/class/tty'' role [(''ID_VENDOR_ID'', ''2886''), (''ID_MODEL_ID'', ''0066''), (''ID_PATH'', ''pci-0'')] serial ''ttyACM1'' s =
      (t, Inr (if serial = ''B2'' then Some (''ttyACM1'', lab_props ''B2'' ''b'') else None))"
    using udev(2) [of s] lab_dirs(3)
    by (auto simp: probe_tty_def join dbind_run dlift_def record_raw_item_def Let_def fits lab_disc_def)
qed

lemma lab_serial_resolves:
  assumes "(role, name, serial, dev) \<in> {(''receiver'', ''ttyACM0'', ''A1'', ''a''), (''source'', ''ttyACM1'', ''B2'', ''b'')}"
  shows "\<exists>t. resolve_serial lab_disc ''/sys'' role lab_boards (lab_probe role serial) s = (t, Inr (lab_serial role name serial dev))"
proof -
  let ?conf = "[(''ID_VENDOR_ID'', ''2886''), (''ID_MODEL_ID'', ''0066''), (''ID_PATH'', ''pci-0'')]"
  have serial: "serial \<in> {''A1'', ''B2''}" using assms by auto
  have dir: "path_join (path_join ''/sys'' ''class'') ''tty'' = ''/sys/class/tty''" "path_join ''/dev'' ''ttyACM0'' = ''/dev/ttyACM0''"
    "path_join ''/dev'' ''ttyACM1'' = ''/dev/ttyACM1''" by code_simp+
  obtain t1 where t1: "probe_tty lab_disc ''/sys/class/tty'' role ?conf serial ''ttyACM0'' s =
      (t1, Inr (if serial = ''A1'' then Some (''ttyACM0'', lab_props ''A1'' ''a'') else None))" using lab_tty(1) [OF serial] by blast
  obtain t2 where t2: "probe_tty lab_disc ''/sys/class/tty'' role ?conf serial ''ttyACM1'' t1 =
      (t2, Inr (if serial = ''B2'' then Some (''ttyACM1'', lab_props ''B2'' ''b'') else None))" using lab_tty(2) [OF serial] by blast
  have found: "dmap (probe_tty lab_disc ''/sys/class/tty'' role ?conf serial) [''ttyACM0'', ''ttyACM1''] s =
      (t2, Inr [if serial = ''A1'' then Some (''ttyACM0'', lab_props ''A1'' ''a'') else None,
        if serial = ''B2'' then Some (''ttyACM1'', lab_props ''B2'' ''b'') else None])"
    by (simp add: dbind_run dlift_def t1 t2)
  have role: "zephyr_role lab_boards role = Inr (case lab_role of ZephyrBinding z \<Rightarrow> z)"
    using assms by (auto simp: zephyr_role_def item_def lab_boards_def lab_role_def)
  have env: "de_fs lab_disc = lab_sysfs" "de_fault lab_disc p = None" for p by (simp_all add: lab_disc_def)
  have pi: "pi_serial (lab_probe role serial) = serial" by (simp add: lab_probe_def)
  show ?thesis
    unfolding resolve_serial_def Let_def dir role
    using assms found lab_dirs
    by (auto simp: dbind_run dlift_def role env pi lab_role_def lab_serial_def dir List.map_filter_def)
qed

lemma lab_explicit: "validate_explicit_probe_serials lab_boards lab_serials = Inr (''A1'', ''B2'')"
  by code_simp

lemma lab_resolves: "\<exists>s r. resolve_fixture lab_disc ''/sys'' lab_boards lab_serials = (s, Inr r) \<and> fr_roles r = lab_identities"
proof -
  have run: "de_run lab_disc n (probes_argv ''A1'' ''B2'') 90 = Inr (ok_proc (probe_table [8, 7, 10, 12, 12, 9] lab_rows))" for n
    by (simp add: lab_disc_def lab_run_def probes_argv_def NIX_NRF_PROBES_def)
  have out: "out_text (ok_proc x) = x" "pr_returncode (ok_proc x) = 0" for x by (simp_all add: out_text_def ok_proc_def)
  have two: "length lab_rows = 2" by (simp add: lab_rows_def)
  have roles: "\<exists>t. resolved_roles lab_disc ''/sys'' lab_boards (lab_probe ''receiver'' ''A1'') (lab_probe ''source'' ''B2'') s = (t, Inr lab_identities)" for s
  proof -
    obtain t1 where t1: "resolve_serial lab_disc ''/sys'' ''receiver'' lab_boards (lab_probe ''receiver'' ''A1'') s =
        (t1, Inr (lab_serial ''receiver'' ''ttyACM0'' ''A1'' ''a''))" using lab_serial_resolves by blast
    obtain t2 where t2: "resolve_serial lab_disc ''/sys'' ''source'' lab_boards (lab_probe ''source'' ''B2'') t1 =
        (t2, Inr (lab_serial ''source'' ''ttyACM1'' ''B2'' ''b''))" using lab_serial_resolves by blast
    have "si_path (lab_serial x n y z) = ''/dev/'' @ n" "si_usb_parent (lab_serial x n y z) = Some (''/sys/devices/'' @ z)" for x n y z
      by (simp_all add: lab_serial_def)
    then show ?thesis by (simp add: resolved_roles_def dbind_run dlift_def t1 t2 lab_identities_def)
  qed
  have parents: "usb_parent_of lab_identities ''receiver'' = Some ''/sys/devices/a''" "usb_parent_of lab_identities ''source'' = Some ''/sys/devices/b''"
    by (simp_all add: usb_parent_of_def lab_identities_def lab_serial_def)
  have "\<exists>t. resolve_probed_pair lab_disc ''/sys'' lab_boards ''A1'' ''B2'' (ok_proc (probe_table [8, 7, 10, 12, 12, 9] lab_rows)) s =
      (t, Inr \<lparr>fr_roles = lab_identities, fr_raw = ds_raw t\<rparr>)" for s
  proof -
    obtain t1 where t1: "resolve_role_probe lab_disc (map (zip NRF_PROBES_HEADER) lab_rows) ''receiver'' ''A1'' s =
        (t1, Inr (lab_probe ''receiver'' ''A1''))" using lab_role_probe by blast
    obtain t2 where t2: "resolve_role_probe lab_disc (map (zip NRF_PROBES_HEADER) lab_rows) ''source'' ''B2'' t1 =
        (t2, Inr (lab_probe ''source'' ''B2''))" using lab_role_probe by blast
    obtain t3 where t3: "resolved_roles lab_disc ''/sys'' lab_boards (lab_probe ''receiver'' ''A1'') (lab_probe ''source'' ''B2'') t2 = (t3, Inr lab_identities)"
      using roles by blast
    show ?thesis unfolding resolve_probed_pair_def out lab_table
      by (simp add: dbind_run dlift_def two t1 t2 t3 parents)
  qed
  then show ?thesis
    by (simp add: resolve_fixture_Inr resolve_fixture_impl_def resolve_explicit_pair_def dbind_run dlift_def lab_explicit run_cmd_def run record_probe_output_def
        record_raw_def) (metis fixture_resolution.select_convs(1))
qed

section \<open>Properties\<close>

text \<open>C23: Discovery never mutates the target: whatever the answers are and however the resolution ends, every command that
  was issued is the probe listing, the fixed fingerprint script or a udev query, and the serial numbers in them come from
  the caller and contain only letters, digits and \<open>_ . : -\<close>.\<close>

theorem discovery_read_only:
  "list_all (read_only_command explicit) (ds_calls (fst (resolve_fixture env sysfs_root binding explicit))) \<and>
   list_all (\<lambda>argv. \<exists>node. argv = udev_argv node) (ds_calls (fst (resolve_capture_binding env sysfs_root capture \<lparr>ds_calls = [], ds_raw = []\<rparr>)))"
proof -
  have "fst (resolve_fixture env sysfs_root binding explicit) = fst (resolve_fixture_impl env sysfs_root binding explicit \<lparr>ds_calls = [], ds_raw = []\<rparr>)"
    by (simp add: resolve_fixture_def split: prod.splits sum.splits)
  moreover have "issue.steps (\<lambda>argv. \<exists>node. argv = udev_argv node) (resolve_capture_binding env sysfs_root capture)"
    by (rule issue.steps_capture) blast
  then have "issued (\<lambda>argv. \<exists>node. argv = udev_argv node) \<lparr>ds_calls = [], ds_raw = []\<rparr>
      (fst (resolve_capture_binding env sysfs_root capture \<lparr>ds_calls = [], ds_raw = []\<rparr>))" by (simp add: issue.steps_def)
  ultimately show ?thesis
    using impl_read_only [of explicit "\<lparr>ds_calls = [], ds_raw = []\<rparr>" env sysfs_root binding] by (auto simp: issued_def)
qed



text \<open>C32: Failures are uniform and keep their evidence: an exception that leaves the resolution is \<open>HilDiscoveryError\<close>, it
  carries all evidence recorded so far, and once the probe listing has answered, its command, both outputs and its status
  are in it.\<close>

theorem discovery_failure_evidence:
  assumes "resolve_fixture env sysfs_root binding explicit = (s, Inl (e, raw))" and "is_Exception e"
  shows "is_HilDiscoveryError e \<and> raw = ds_raw s \<and>
    (\<forall>receiver source p. validate_explicit_probe_serials binding explicit = Inr (receiver, source) \<and>
      de_run env 0 (probes_argv receiver source) 90 = Inr p \<longrightarrow>
      map_of raw ''nrf-probes'' = Some (PDict [(''argv'', str_list (probes_argv receiver source)), (''stdout'', PStr (out_text p)),
        (''stderr'', PStr (err_text p)), (''status'', PInt (pr_returncode p))]))"
proof -
  from assms obtain e0 where
    e0: "resolve_fixture_impl env sysfs_root binding explicit \<lparr>ds_calls = [], ds_raw = []\<rparr> = (s, Inl e0)"
    and e: "is_HilDiscoveryError e" "raw = ds_raw s"
    by (auto simp: resolve_fixture_def split: prod.splits sum.splits if_splits)
  have "map_of raw ''nrf-probes'' = Some (PDict [(''argv'', str_list (probes_argv receiver source)), (''stdout'', PStr (out_text p)),
      (''stderr'', PStr (err_text p)), (''status'', PInt (pr_returncode p))])"
    if "validate_explicit_probe_serials binding explicit = Inr (receiver, source)" "de_run env 0 (probes_argv receiver source) 90 = Inr p"
    for receiver source p
  proof -
    have "resolve_explicit_pair env sysfs_root binding (receiver, source) \<lparr>ds_calls = [], ds_raw = []\<rparr> = (s, Inl e0)"
      using e0 that(1) by (simp add: resolve_fixture_impl_def dbind_run dlift_def)
    from pair_evidence [OF this] that(2) e(2) show ?thesis by simp
  qed
  with e show ?thesis by blast
qed

theorem discovery_failure_evidence_witness:
  "\<exists>s e raw. resolve_fixture (lab_disc\<lparr>de_run := \<lambda>_ _ _. Inr \<lparr>pr_returncode = 1, pr_stdout = None, pr_stderr = Some ''busy''\<rparr>\<rparr>) ''/sys''
       lab_boards lab_serials = (s, Inl (e, raw)) \<and>
     map_of raw ''nrf-probes'' = Some (PDict [(''argv'', str_list (probes_argv ''A1'' ''B2'')), (''stdout'', PStr []),
       (''stderr'', PStr ''busy''), (''status'', PInt 1)])"
proof -
  let ?p = "\<lparr>pr_returncode = 1, pr_stdout = None, pr_stderr = Some ''busy''\<rparr>"
  let ?env = "lab_disc\<lparr>de_run := \<lambda>_ _ _. Inr ?p\<rparr>"
  obtain s e raw where r: "resolve_fixture ?env ''/sys'' lab_boards lab_serials = (s, Inl (e, raw))" "is_Exception e"
    by (simp add: resolve_fixture_def resolve_fixture_impl_def resolve_explicit_pair_def resolve_probed_pair_def dbind_run dlift_def lab_explicit
        run_cmd_def record_probe_output_def record_raw_def)
  have "de_run ?env 0 (probes_argv ''A1'' ''B2'') 90 = Inr ?p" by simp
  with discovery_failure_evidence [OF r] lab_explicit
  have "map_of raw ''nrf-probes'' = Some (PDict [(''argv'', str_list (probes_argv ''A1'' ''B2'')), (''stdout'', PStr (out_text ?p)),
       (''stderr'', PStr (err_text ?p)), (''status'', PInt (pr_returncode ?p))])" by blast
  with r show ?thesis by (auto simp: out_text_def err_text_def)
qed

text \<open>The probe table is read as it is printed: for all column widths that leave two blanks after each heading, and all
  rows of printable cells that fit them, the parser returns every cell under its heading, in order.\<close>

theorem probe_table_round_trip:
  assumes "widths_ok ws" and "list_all (row_ok ws) rows"
  shows "parse_nrf_probes_table (probe_table ws rows) = Inr (map (zip NRF_PROBES_HEADER) rows)"
  using assms by (rule probe_table_parses)

theorem probe_table_round_trip_witness:
  "parse_nrf_probes_table (probe_table [8, 7, 10, 12, 12, 9] lab_rows) = Inr (map (zip NRF_PROBES_HEADER) lab_rows)"
  by (rule probe_table_round_trip)
    (simp_all add: widths_ok_def row_ok_def lab_rows_def cell_ok_def plain_char_def visible_def NRF_PROBES_HEADER_def)

end
