(* ===== verification/Hil_Session.thy ===== *)
theory Hil_Session
  imports Hil_Boards Hil_Artifacts Hil_Lifecycle Hil_Qualification
begin

text \<open>
  Fixture sessions, \<open>scripts/hil/session.py\<close>: one immutable manifest that binds the two boards, the logical fixture and the
  physical binding; its creation, loading and the revalidation before target actions.  Loading sees the system through
  an \<open>os_view\<close>, in which \<open>lstat\<close> and \<open>open\<close> may disagree as they do when a file is replaced in between; every reading of the
  two input files has an answer of its own.  Creation works on an explicit file system whose files have attributes.
\<close>

section \<open>Constants and records\<close>

definition SESSION_SCHEMA_VERSION :: int where "SESSION_SCHEMA_VERSION = 1"

definition DEFAULT_SESSION_ROOT :: string where "DEFAULT_SESSION_ROOT = ''/tmp/opencode/hil-sessions''"

definition SESSION_FILENAME :: string where "SESSION_FILENAME = ''devices.json''"

text \<open>\<open>RFC3339_UTC_RE.fullmatch\<close>: an optional fraction and one of two zones after the seconds.\<close>

definition rfc3339_utc :: "string \<Rightarrow> bool" where
  "rfc3339_utc s \<longleftrightarrow>
     (let rest = drop 19 s; zone = (if take 1 rest = ''.'' then dropWhile is_digit (tl rest) else rest) in
      list_all2 (\<lambda>p c. if p = CHR ''9'' then is_digit c else c = p) ''9999-99-99T99:99:99'' (take 19 s) \<and>
      (take 1 rest = ''.'' \<longrightarrow> takeWhile is_digit (tl rest) \<noteq> []) \<and> zone \<in> {''Z'', ''+00:00''})"

definition tty_path_ok :: "string \<Rightarrow> bool" where
  "tty_path_ok s \<longleftrightarrow> take 11 s = ''/dev/ttyACM'' \<and> drop 11 s \<noteq> [] \<and> list_all is_digit (drop 11 s)"

definition STABLE_UDEV_KEYS :: "string list" where
  "STABLE_UDEV_KEYS = [''ID_BUS'', ''ID_VENDOR_ID'', ''ID_MODEL_ID'', ''ID_SERIAL_SHORT'', ''ID_USB_INTERFACE_NUM'', ''ID_USB_DRIVER'', ''ID_PATH'']"

definition EXPECTED_XIAO_UDEV :: sdict where
  "EXPECTED_XIAO_UDEV =
     [(''ID_BUS'', ''usb''), (''ID_VENDOR_ID'', ''2886''), (''ID_MODEL_ID'', ''0066''), (''ID_USB_INTERFACE_NUM'', ''02''), (''ID_USB_DRIVER'', ''cdc_acm'')]"

abbreviation session_err :: "msg \<Rightarrow> 'a result" where
  "session_err m \<equiv> Inl (HilSessionError m)"

record session_role =
  sr_expected_firmware :: pydict
  sr_probe :: probe_identity
  sr_serial :: serial_identity

record session_manifest =
  sm_path :: string
  sm_raw_bytes :: string
  sm_sha256 :: string
  sm_device :: int
  sm_inode :: int
  sm_mode :: nat
  sm_session_id :: string
  sm_created_at_utc :: string
  sm_fixture_id :: string
  sm_fixture_sha256 :: string
  sm_binding_sha256 :: string
  sm_fixture_bytes :: string
  sm_binding_bytes :: string
  sm_roles :: "(string \<times> session_role) list"

record sess_env =
  se_digest :: "string \<Rightarrow> string"
  se_meta_fs :: fsys
  se_repo_root :: string
  se_frepr :: "pyfloat \<Rightarrow> string"

section \<open>Fields\<close>

definition parse_json_bytes :: "string \<Rightarrow> string \<Rightarrow> pydict result" where
  "parse_json_bytes raw label =
     (if \<not> utf8_valid raw then session_err (in_msg ''%s is not valid UTF-8'' label)
      else (case json_loads_with False (reject_dup_loop []) raw of
          Inl (DuplicateKeyError k) \<Rightarrow> session_err (in_msg2 ''duplicate key %r in %s'' k label)
        | Inl exc \<Rightarrow> session_err (Fmt ''invalid JSON in %s: %s'' [AV (PStr label), AX exc])
        | Inr (PDict obj) \<Rightarrow> Inr obj
        | Inr _ \<Rightarrow> session_err (in_msg ''%s must contain a JSON object'' label)))"

definition session_exact_keys :: "pyval \<Rightarrow> string list \<Rightarrow> string \<Rightarrow> pydict result" where
  "session_exact_keys v keys label =
     (case v of
        PDict d \<Rightarrow>
          let unknown = filter (\<lambda>k. k \<notin> set keys) (dict_keys d); missing = filter (\<lambda>k. k \<notin> set (dict_keys d)) keys in
          if unknown \<noteq> [] then session_err (in_msg2 ''unknown key %r in %s'' (hd (sort unknown)) label)
          else if missing \<noteq> [] then session_err (in_msg2 ''missing key %r in %s'' (hd (sort missing)) label)
          else Inr d
      | _ \<Rightarrow> session_err (in_msg ''%s must be an object'' label))"

definition require_string :: "pyval \<Rightarrow> string \<Rightarrow> string result" where
  "require_string v label =
     (case v of
        PStr s \<Rightarrow> if s = [] \<or> CHR 0x00 \<in> set s then session_err (in_msg ''%s must be a nonempty string'' label) else Inr s
      | _ \<Rightarrow> session_err (in_msg ''%s must be a nonempty string'' label))"

definition session_sha256 :: "pyval \<Rightarrow> string \<Rightarrow> string result" where
  "session_sha256 v label =
     rbind (require_string v label) (\<lambda>s.
       if sha256_shape s then Inr s else session_err (in_msg ''%s must be 64 lowercase hexadecimal characters'' label))"

definition require_session_id :: "pyval \<Rightarrow> string result" where
  "require_session_id v =
     (case v of
        PStr s \<Rightarrow> if safe_id s then Inr s else session_err (text_msg ''session ID must match [A-Za-z0-9][A-Za-z0-9._-]{0,63}'')
      | _ \<Rightarrow> session_err (text_msg ''session ID must match [A-Za-z0-9][A-Za-z0-9._-]{0,63}''))"

definition require_probe_serial :: "pyval \<Rightarrow> string \<Rightarrow> string result" where
  "require_probe_serial v label =
     (case v of
        PStr s \<Rightarrow> if probe_serial_ok s then Inr s else session_err (in_msg ''%s must match [A-Za-z0-9_.:-]+'' label)
      | _ \<Rightarrow> session_err (in_msg ''%s must match [A-Za-z0-9_.:-]+'' label))"

definition require_utc :: "pyval \<Rightarrow> string result" where
  "require_utc v =
     rbind (require_string v ''created_at_utc'') (\<lambda>s.
       if rfc3339_utc s \<and> utc_valid s then Inr s else session_err (text_msg ''created_at_utc must be RFC3339 UTC''))"

definition session_variant_display :: "string \<Rightarrow> string result" where
  "session_variant_display raw =
     (let bytes = hex_bytes (drop 2 raw) in
      if \<not> raw_hex_ok raw then session_err (text_msg ''probe variant_raw must be raw hexadecimal'')
      else if \<not> list_all (\<lambda>b. b < 128) bytes then session_err (text_msg ''probe variant_raw must decode as ASCII'')
      else if \<not> list_all (\<lambda>b. 32 \<le> b \<and> b \<le> 126) bytes then session_err (text_msg ''probe variant_raw must decode as printable ASCII'')
      else Inr (map char_of bytes))"

definition expected_firmware_of :: "string \<Rightarrow> pydict" where
  "expected_firmware_of role =
     (if role = ''receiver'' then [(''role'', PStr ''receiver''), (''boot_contract'', PStr ''le-audio-receiver-v1'')]
      else [(''role'', PStr ''source''), (''firmware_id'', PStr ''le-audio-hil-source-rh1''), (''protocol_version'', PInt 1)])"

section \<open>The manifest document\<close>

text \<open>A dictionary whose values are known to be strings.\<close>

fun str_value :: "pyval \<Rightarrow> string" where
  "str_value (PStr s) = s"
| "str_value _ = []"

definition str_dict :: "pydict \<Rightarrow> sdict" where
  "str_dict d = map (\<lambda>(k, v). (k, str_value v)) d"

definition check_firmware :: "string \<Rightarrow> pydict \<Rightarrow> unit result" where
  "check_firmware role fw =
     (let version = dict_get fw ''protocol_version'' in
      if role = ''source'' \<and> (\<not> isinstance_int version \<or> isinstance_bool version)
      then session_err (text_msg ''source expected_firmware protocol_version must be an integer'')
      else if \<not> py_eq (PDict fw) (PDict (expected_firmware_of role)) then session_err (in_msg ''%s expected_firmware mismatch'' role)
      else Inr ())"

definition PROBE_FIELDS :: "string list" where
  "PROBE_FIELDS = [''backend'', ''family'', ''serial'', ''product'', ''target'', ''dpidr'', ''ap_idrs'', ''part'', ''variant'', ''variant_raw'']"

definition PROBE_CONSTANTS :: sdict where
  "PROBE_CONSTANTS =
     [(''backend'', ''nrf-probes''), (''family'', ''nrf54l''), (''target'', RECEIVER_TARGET_NAME), (''dpidr'', RECEIVER_DPIDR), (''part'', RECEIVER_PART)]"

definition parse_probe_identity :: "string \<Rightarrow> pyval \<Rightarrow> probe_identity result" where
  "parse_probe_identity role v =
     rbind (session_exact_keys v PROBE_FIELDS (role @ '' probe'')) (\<lambda>probe.
     rbind (require_probe_serial (dict_get probe ''serial'') (role @ '' probe serial'')) (\<lambda>serial_number.
     rbind (require_string (dict_get probe ''product'') (role @ '' probe product'')) (\<lambda>product.
     rbind (rall (\<lambda>(key, expected). if dict_get probe key \<noteq> PStr expected then session_err (in_msg2 ''%s probe %s mismatch'' role key) else Inr ())
       PROBE_CONSTANTS) (\<lambda>_.
     rbind (session_exact_keys (dict_get probe ''ap_idrs'') AP_KEYS (role @ '' probe ap_idrs'')) (\<lambda>ap_idrs.
     rbind (rall (\<lambda>key. case dict_get ap_idrs key of
         PStr s \<Rightarrow> if raw_hex_ok s then Inr () else session_err (in_msg2 ''%s probe %s must be raw hexadecimal'' role key)
       | _ \<Rightarrow> session_err (in_msg2 ''%s probe %s must be raw hexadecimal'' role key)) AP_KEYS) (\<lambda>_.
     rbind (require_string (dict_get probe ''variant'') (role @ '' probe variant'')) (\<lambda>variant.
     rbind (require_string (dict_get probe ''variant_raw'') (role @ '' probe variant_raw'')) (\<lambda>variant_raw.
     rbind (session_variant_display variant_raw) (\<lambda>display.
       if display \<noteq> variant then session_err (in_msg ''%s probe variant disagrees with variant_raw'' role)
       else Inr \<lparr>pi_role = role, pi_backend = str_value (dict_get probe ''backend''), pi_family = str_value (dict_get probe ''family''),
         pi_serial = serial_number, pi_product = product, pi_target = str_value (dict_get probe ''target''),
         pi_dpidr = str_value (dict_get probe ''dpidr''), pi_ap_idrs = str_dict ap_idrs, pi_part = str_value (dict_get probe ''part''),
         pi_variant = variant, pi_variant_raw = variant_raw\<rparr>)))))))))"

definition SERIAL_FIELDS :: "string list" where
  "SERIAL_FIELDS = [''path_observed'', ''usb_parent_observed'', ''stable_udev'', ''baud'', ''dtr'', ''rts'']"

definition parse_stable_udev :: "string \<Rightarrow> string \<Rightarrow> pyval \<Rightarrow> pydict result" where
  "parse_stable_udev role serial_number v =
     rbind (session_exact_keys v STABLE_UDEV_KEYS (role @ '' serial stable_udev'')) (\<lambda>stable_udev.
     rbind (rall (\<lambda>key. rbind (require_string (dict_get stable_udev key) (role @ '' serial stable_udev.'' @ key)) (\<lambda>_. Inr ())) STABLE_UDEV_KEYS) (\<lambda>_.
     rbind (rall (\<lambda>(key, expected). if dict_get stable_udev key \<noteq> PStr expected
         then session_err (in_msg2 ''%s serial stable_udev.%s mismatch'' role key) else Inr ()) EXPECTED_XIAO_UDEV) (\<lambda>_.
       if dict_get stable_udev ''ID_SERIAL_SHORT'' \<noteq> PStr serial_number
       then session_err (in_msg ''%s serial probe correlation mismatch'' role)
       else Inr stable_udev)))"

definition parse_serial_identity :: "string \<Rightarrow> string \<Rightarrow> pyval \<Rightarrow> serial_identity result" where
  "parse_serial_identity role serial_number v =
     rbind (session_exact_keys v SERIAL_FIELDS (role @ '' serial'')) (\<lambda>serial.
     rbind (require_string (dict_get serial ''path_observed'') (role @ '' serial path_observed'')) (\<lambda>path_observed.
       if \<not> tty_path_ok path_observed \<or> normpath path_observed \<noteq> path_observed
       then session_err (in_msg ''%s serial path_observed must be canonical /dev/tty path'' role)
       else
     rbind (require_string (dict_get serial ''usb_parent_observed'') (role @ '' serial usb_parent_observed'')) (\<lambda>usb_parent.
       if \<not> startswith usb_parent [slash] \<or> normpath usb_parent \<noteq> usb_parent
       then session_err (in_msg ''%s serial usb_parent_observed must be canonical absolute path'' role)
       else
     rbind (parse_stable_udev role serial_number (dict_get serial ''stable_udev'')) (\<lambda>stable_udev.
       if dict_get serial ''baud'' \<noteq> PInt 115200 then session_err (in_msg ''%s serial baud must be 115200'' role)
       else if \<not> is_True (dict_get serial ''dtr'') \<or> \<not> is_False (dict_get serial ''rts'')
       then session_err (in_msg ''%s serial DTR/RTS contract mismatch'' role)
       else Inr \<lparr>si_role = role, si_path = path_observed, si_baud = 115200, si_properties = str_dict stable_udev,
         si_usb_parent = Some usb_parent, si_dtr = True, si_rts = False\<rparr>))))"

definition parse_session_role :: "string \<Rightarrow> pyval \<Rightarrow> session_role result" where
  "parse_session_role role v =
     rbind (session_exact_keys v [''expected_firmware'', ''probe'', ''serial''] (role @ '' role'')) (\<lambda>d.
     rbind (session_exact_keys (dict_get d ''expected_firmware'') (dict_keys (expected_firmware_of role)) (role @ '' expected_firmware'')) (\<lambda>fw.
     rbind (check_firmware role fw) (\<lambda>_.
     rbind (parse_probe_identity role (dict_get d ''probe'')) (\<lambda>probe.
     rbind (parse_serial_identity role (pi_serial probe) (dict_get d ''serial'')) (\<lambda>serial.
       Inr \<lparr>sr_expected_firmware = fw, sr_probe = probe, sr_serial = serial\<rparr>)))))"

record parsed_manifest =
  pm_session_id :: string
  pm_created_at_utc :: string
  pm_fixture_id :: string
  pm_fixture_sha256 :: string
  pm_binding_sha256 :: string
  pm_roles :: "(string \<times> session_role) list"

definition MANIFEST_KEYS :: "string list" where
  "MANIFEST_KEYS = [''schema_version'', ''session_id'', ''created_at_utc'', ''fixture'', ''binding'', ''roles'']"

definition distinct_boards :: "session_role \<Rightarrow> session_role \<Rightarrow> unit result" where
  "distinct_boards receiver source =
     (if pi_serial (sr_probe receiver) = pi_serial (sr_probe source)
      then session_err (text_msg ''receiver and source probe serials must be distinct'')
      else if si_path (sr_serial receiver) = si_path (sr_serial source)
      then session_err (text_msg ''receiver and source observed tty paths must be distinct'')
      else if si_usb_parent (sr_serial receiver) = si_usb_parent (sr_serial source)
      then session_err (text_msg ''receiver and source observed USB parents must be distinct'')
      else Inr ())"

definition parse_manifest :: "string \<Rightarrow> string \<Rightarrow> parsed_manifest result" where
  "parse_manifest raw path =
     rbind (parse_json_bytes raw path) (\<lambda>doc.
     rbind (session_exact_keys (PDict doc) MANIFEST_KEYS path) (\<lambda>obj.
       if dict_get obj ''schema_version'' \<noteq> PInt SESSION_SCHEMA_VERSION
       then session_err (val_msg ''schema_version must be %d'' (PInt SESSION_SCHEMA_VERSION))
       else
     rbind (require_session_id (dict_get obj ''session_id'')) (\<lambda>session_id.
     rbind (require_utc (dict_get obj ''created_at_utc'')) (\<lambda>created_at_utc.
     rbind (session_exact_keys (dict_get obj ''fixture'') [''fixture_id'', ''sha256''] ''fixture'') (\<lambda>fixture.
     rbind (require_string (dict_get fixture ''fixture_id'') ''fixture fixture_id'') (\<lambda>fixture_id.
     rbind (session_sha256 (dict_get fixture ''sha256'') ''fixture sha256'') (\<lambda>fixture_sha256.
     rbind (session_exact_keys (dict_get obj ''binding'') [''sha256''] ''binding'') (\<lambda>binding.
     rbind (session_sha256 (dict_get binding ''sha256'') ''binding sha256'') (\<lambda>binding_sha256.
     rbind (session_exact_keys (dict_get obj ''roles'') [''receiver'', ''source''] ''roles'') (\<lambda>roles.
     rbind (parse_session_role ''receiver'' (dict_get roles ''receiver'')) (\<lambda>receiver.
     rbind (parse_session_role ''source'' (dict_get roles ''source'')) (\<lambda>source.
     rbind (distinct_boards receiver source) (\<lambda>_.
       Inr \<lparr>pm_session_id = session_id, pm_created_at_utc = created_at_utc, pm_fixture_id = fixture_id, pm_fixture_sha256 = fixture_sha256,
         pm_binding_sha256 = binding_sha256, pm_roles = [(''receiver'', receiver), (''source'', source)]\<rparr>)))))))))))))"

section \<open>The input files\<close>

definition read_input :: "(string \<Rightarrow> string result) \<Rightarrow> string \<Rightarrow> string \<Rightarrow> string result" where
  "read_input rd path label =
     (case rd path of
        Inl exc \<Rightarrow>
          if is_OSError exc then session_err (Fmt ''cannot read %s %s: %s'' [AV (PStr label), AV (PStr path), AX exc]) else Inl exc
      | Inr b \<Rightarrow> Inr b)"

text \<open>\<open>except model.HilSchemaError\<close>.\<close>

definition as_session_error :: "'a result \<Rightarrow> 'a result" where
  "as_session_error r = (case r of Inl (HilSchemaError m) \<Rightarrow> session_err (Fmt ''%s'' [AM m]) | _ \<Rightarrow> r)"

definition check_xiao_role :: "logical_fixture \<Rightarrow> physical_binding \<Rightarrow> string \<times> string list \<Rightarrow> unit result" where
  "check_xiao_role fixture binding expected =
     (case expected of (role, images) \<Rightarrow>
      rbind (item (lf_roles fixture) role) (\<lambda>logical.
        if lr_board logical \<noteq> Some NRF54L15_CPUAPP_BOARD \<or> lr_images logical \<noteq> images
        then session_err (in_msg ''session %s logical board/image contract mismatch'' role)
        else
          rbind (zephyr_role binding role) (\<lambda>physical.
            if pb_backend (prb_probe physical) \<noteq> ''nrf-probes'' \<or> pb_family (prb_probe physical) \<noteq> ''nrf54l''
            then session_err (in_msg ''session %s probe contract mismatch'' role)
            else Inr ())))"

definition XIAO_IMAGES :: "(string \<times> string list) list" where
  "XIAO_IMAGES = [(''receiver'', [''cpuapp'', ''flpr'']), (''source'', [''cpuapp''])]"

definition load_xiao_pair ::
  "sess_env \<Rightarrow> (string \<Rightarrow> string result) \<Rightarrow> string \<Rightarrow> string \<Rightarrow> (logical_fixture \<times> physical_binding \<times> string \<times> string) result" where
  "load_xiao_pair env rd fixture_path binding_path =
     rbind (read_input rd fixture_path ''fixture'') (\<lambda>fixture_bytes.
     rbind (read_input rd binding_path ''binding'') (\<lambda>binding_bytes.
     rbind (as_session_error (parse_logical_fixture_bytes (Bytes fixture_bytes) fixture_path)) (\<lambda>fixture.
     rbind (as_session_error (parse_physical_binding_bytes (se_digest env) (se_meta_fs env) (se_repo_root env) (Bytes binding_bytes) binding_path fixture)) (\<lambda>binding.
       let expected_roles = {''receiver'', ''source''} \<union> (if lf_capture_capability fixture \<noteq> CAP_NONE then {''capture''} else {}) in
       if set (map fst (lf_roles fixture)) \<noteq> expected_roles \<or> set (map fst (pbd_roles binding)) \<noteq> expected_roles
       then session_err (text_msg ''session fixture role set mismatch'')
       else rbind (rall (check_xiao_role fixture binding) XIAO_IMAGES) (\<lambda>_.
         Inr (fixture, binding, fixture_bytes, binding_bytes))))))"

definition assert_input_bytes_unchanged :: "(string \<Rightarrow> string result) \<Rightarrow> string \<Rightarrow> string \<Rightarrow> string \<Rightarrow> string \<Rightarrow> unit result" where
  "assert_input_bytes_unchanged rd fixture_path binding_path fixture_bytes binding_bytes =
     rbind (read_input rd fixture_path ''fixture'') (\<lambda>current_fixture_bytes.
     rbind (read_input rd binding_path ''binding'') (\<lambda>current_binding_bytes.
       if current_fixture_bytes \<noteq> fixture_bytes then session_err (text_msg ''fixture bytes changed during session creation'')
       else if current_binding_bytes \<noteq> binding_bytes then session_err (text_msg ''binding bytes changed during session creation'')
       else Inr ()))"

section \<open>Reading the manifest file\<close>

definition view_islink :: "os_view \<Rightarrow> string \<Rightarrow> bool" where
  "view_islink os p = (case ov_lstat os p of Inr st \<Rightarrow> st_kind st = S_IFLNK | Inl _ \<Rightarrow> False)"

definition canonical_manifest_path :: "os_view \<Rightarrow> pyval \<Rightarrow> string option \<Rightarrow> (string \<times> string) result" where
  "canonical_manifest_path os path expected_session_id =
     (case path of
        PStr p \<Rightarrow>
          if p = [] \<or> CHR 0x00 \<in> set p \<or> \<not> isabs p then session_err (text_msg ''session manifest must be an absolute path'')
          else if normpath p \<noteq> p then session_err (in_msg ''session manifest must be canonical: %s'' p)
          else if basename p \<noteq> SESSION_FILENAME then session_err (in_msg ''session manifest basename must be %s'' SESSION_FILENAME)
          else
            rbind (require_session_id (PStr (basename (dirname p)))) (\<lambda>session_id.
              if expected_session_id \<noteq> None \<and> Some session_id \<noteq> expected_session_id
              then session_err (text_msg ''session manifest parent changed'')
              else if view_islink os p \<or> view_islink os (dirname p) then session_err (text_msg ''session manifest must not be a symlink'')
              else if ov_realpath os p \<noteq> p then session_err (in_msg ''session manifest must be canonical: %s'' p)
              else Inr (p, session_id))
      | _ \<Rightarrow> session_err (text_msg ''session manifest must be an absolute path''))"

fun read_all_chunks :: "string \<Rightarrow> string result list \<Rightarrow> string result" where
  "read_all_chunks path [] = Inr []"
| "read_all_chunks path (Inl exc # cs) =
     (if is_OSError exc then session_err (Fmt ''cannot read session manifest %s: %s'' [AV (PStr path), AX exc]) else Inl exc)"
| "read_all_chunks path (Inr b # cs) =
     (if b = [] then Inr [] else rbind (read_all_chunks path cs) (\<lambda>rest. Inr (b @ rest)))"

record manifest_state =
  ms_device :: int
  ms_inode :: int
  ms_mode :: nat
  ms_session_id :: string

definition read_manifest_file :: "os_view \<Rightarrow> pyval \<Rightarrow> string option \<Rightarrow> (string \<times> string \<times> manifest_state) result" where
  "read_manifest_file os path expected_session_id =
     rbind (canonical_manifest_path os path expected_session_id) (\<lambda>(canonical, session_id).
       case ov_lstat os canonical of
         Inl exc \<Rightarrow>
           if is_OSError exc then session_err (Fmt ''cannot inspect session manifest %s: %s'' [AV path, AX exc]) else Inl exc
       | Inr before_st \<Rightarrow>
           if st_kind before_st \<noteq> S_IFREG then session_err (text_msg ''session manifest must be a regular non-symlink file'')
           else
             (case ov_open os canonical of
                Inl exc \<Rightarrow>
                  if is_OSError exc then session_err (Fmt ''cannot open session manifest %s: %s'' [AV path, AX exc]) else Inl exc
              | Inr (opened, chunks) \<Rightarrow>
                  if st_kind opened \<noteq> S_IFREG then session_err (text_msg ''session manifest must be a regular file'')
                  else
                    rbind (read_all_chunks canonical chunks) (\<lambda>raw.
                      if st_dev before_st \<noteq> st_dev opened \<or> st_ino before_st \<noteq> st_ino opened
                      then session_err (text_msg ''session manifest replacement detected'')
                      else if st_perm opened \<noteq> 256 then session_err (text_msg ''session manifest must have mode 0400'')
                      else Inr (canonical, raw, \<lparr>ms_device = st_dev opened, ms_inode = st_ino opened, ms_mode = st_perm opened,
                        ms_session_id = session_id\<rparr>))))"

definition load_session :: "sess_env \<Rightarrow> os_view \<Rightarrow> (string \<Rightarrow> string result) \<Rightarrow> pyval \<Rightarrow> string \<Rightarrow> string \<Rightarrow> session_manifest result" where
  "load_session env os rd manifest_path fixture_path binding_path =
     rbind (read_manifest_file os manifest_path None) (\<lambda>(path, raw, state).
     rbind (parse_manifest raw path) (\<lambda>parsed.
       if ms_session_id state \<noteq> pm_session_id parsed then session_err (text_msg ''session manifest parent/session ID mismatch'')
       else
     rbind (load_xiao_pair env rd fixture_path binding_path) (\<lambda>(fixture, binding, fixture_bytes, binding_bytes).
       if pm_fixture_id parsed \<noteq> lf_fixture_id fixture then session_err (text_msg ''session manifest fixture ID mismatch'')
       else if pm_fixture_sha256 parsed \<noteq> se_digest env fixture_bytes then session_err (text_msg ''session manifest fixture bytes changed'')
       else if pm_binding_sha256 parsed \<noteq> se_digest env binding_bytes then session_err (text_msg ''session manifest binding bytes changed'')
       else Inr \<lparr>sm_path = path, sm_raw_bytes = raw, sm_sha256 = se_digest env raw, sm_device = ms_device state, sm_inode = ms_inode state,
         sm_mode = ms_mode state, sm_session_id = pm_session_id parsed, sm_created_at_utc = pm_created_at_utc parsed,
         sm_fixture_id = pm_fixture_id parsed, sm_fixture_sha256 = pm_fixture_sha256 parsed, sm_binding_sha256 = pm_binding_sha256 parsed,
         sm_fixture_bytes = fixture_bytes, sm_binding_bytes = binding_bytes, sm_roles = pm_roles parsed\<rparr>)))"

definition assert_unchanged :: "sess_env \<Rightarrow> os_view \<Rightarrow> session_manifest \<Rightarrow> unit result" where
  "assert_unchanged env os m =
     rbind (read_manifest_file os (PStr (sm_path m)) (Some (sm_session_id m))) (\<lambda>(path, raw, state).
       if path \<noteq> sm_path m then session_err (text_msg ''session manifest path changed'')
       else if ms_device state \<noteq> sm_device m \<or> ms_inode state \<noteq> sm_inode m then session_err (text_msg ''session manifest replacement detected'')
       else if ms_mode state \<noteq> sm_mode m \<or> ms_mode state \<noteq> 256 then session_err (text_msg ''session manifest permission changed'')
       else if raw \<noteq> sm_raw_bytes m \<or> se_digest env raw \<noteq> sm_sha256 m then session_err (text_msg ''session manifest bytes changed'')
       else Inr ())"

section \<open>Writing the manifest\<close>

definition stable_udev :: "sdict \<Rightarrow> string \<Rightarrow> sdict result" where
  "stable_udev properties role =
     rmap (\<lambda>key. case map_of properties key of
         Some v \<Rightarrow> if v = [] then session_err (in_msg2 ''%s tty missing stable udev %s'' role key) else Inr (key, v)
       | None \<Rightarrow> session_err (in_msg2 ''%s tty missing stable udev %s'' role key)) STABLE_UDEV_KEYS"

definition role_payload :: "string \<Rightarrow> role_identity \<Rightarrow> pydict result" where
  "role_payload role identity =
     (let probe = ri_probe identity; serial = ri_serial identity in
      if pi_backend probe \<noteq> ''nrf-probes'' \<or> pi_family probe \<noteq> ''nrf54l'' \<or> pi_target probe \<noteq> RECEIVER_TARGET_NAME \<or>
         pi_dpidr probe \<noteq> RECEIVER_DPIDR \<or> pi_part probe \<noteq> RECEIVER_PART
      then session_err (in_msg ''%s resolved probe contract mismatch'' role)
      else if set (map fst (pi_ap_idrs probe)) \<noteq> set AP_KEYS then session_err (in_msg ''%s resolved AP IDR map mismatch'' role)
      else
        (case si_usb_parent serial of
           None \<Rightarrow> session_err (in_msg ''%s resolved USB parent missing'' role)
         | Some parent \<Rightarrow>
             if parent = [] then session_err (in_msg ''%s resolved USB parent missing'' role)
             else rbind (stable_udev (si_properties serial) role) (\<lambda>stable.
               Inr [(''expected_firmware'', PDict (expected_firmware_of role)),
                    (''probe'', PDict [(''backend'', PStr (pi_backend probe)), (''family'', PStr (pi_family probe)), (''serial'', PStr (pi_serial probe)),
                       (''product'', PStr (pi_product probe)), (''target'', PStr (pi_target probe)), (''dpidr'', PStr (pi_dpidr probe)),
                       (''ap_idrs'', str_values (pi_ap_idrs probe)), (''part'', PStr (pi_part probe)), (''variant'', PStr (pi_variant probe)),
                       (''variant_raw'', PStr (pi_variant_raw probe))]),
                    (''serial'', PDict [(''path_observed'', PStr (si_path serial)), (''usb_parent_observed'', PStr parent),
                       (''stable_udev'', str_values stable), (''baud'', PInt (si_baud serial)), (''dtr'', PBool (si_dtr serial)),
                       (''rts'', PBool (si_rts serial))])])))"

text \<open>What \<open>utc_now\<close> yields: text, a \<open>datetime\<close> that is or is not UTC with its ISO format, or something else.\<close>

datatype utc_value = UtcText string | UtcDatetime bool string | UtcOther

definition utc_string :: "utc_value \<Rightarrow> string result" where
  "utc_string v =
     (case v of
        UtcText s \<Rightarrow> require_utc (PStr s)
      | UtcDatetime utc stamp \<Rightarrow> if utc then require_utc (PStr stamp) else session_err (text_msg ''utc_now must be a UTC datetime'')
      | UtcOther \<Rightarrow> session_err (text_msg ''utc_now must be RFC3339 UTC text or datetime''))"

definition manifest_payload :: "string \<Rightarrow> string \<Rightarrow> string \<Rightarrow> string \<Rightarrow> string \<Rightarrow> pydict \<Rightarrow> pydict \<Rightarrow> pydict" where
  "manifest_payload session_id created_at_utc fixture_id fixture_sha256 binding_sha256 receiver source =
     [(''schema_version'', PInt SESSION_SCHEMA_VERSION), (''session_id'', PStr session_id), (''created_at_utc'', PStr created_at_utc),
      (''fixture'', PDict [(''fixture_id'', PStr fixture_id), (''sha256'', PStr fixture_sha256)]),
      (''binding'', PDict [(''sha256'', PStr binding_sha256)]),
      (''roles'', PDict [(''receiver'', PDict receiver), (''source'', PDict source)])]"

definition serialize_manifest_payload :: "sess_env \<Rightarrow> pydict \<Rightarrow> string" where
  "serialize_manifest_payload env payload = json_dumps (se_frepr env) '','' '':'' (sort_keys (PDict payload)) @ [CHR 0x0A]"


section \<open>Creating a session\<close>

record file_attr =
  fa_perm :: nat
  fa_dev :: int
  fa_ino :: int

record sess_world =
  sw_fs :: fsys
  sw_attr :: "path \<Rightarrow> file_attr"

text \<open>The outcomes of the calls: the error a call site meets, the attributes of a new file, and the successive results of
  \<open>os.write\<close> on it, where \<open>Inr n\<close> stands for \<open>n + 1\<close> bytes, or all that are left, and after the last one all the rest goes out.\<close>

record create_env =
  ce_fault :: "string \<Rightarrow> exn option"
  ce_new :: "path \<Rightarrow> file_attr"
  ce_writes :: "(exn + nat) list"

type_synonym 'a wact = "sess_world \<Rightarrow> sess_world \<times> 'a result"

definition wbind :: "'a wact \<Rightarrow> ('a \<Rightarrow> 'b wact) \<Rightarrow> 'b wact" where
  "wbind m f w = (case m w of (v, Inl e) \<Rightarrow> (v, Inl e) | (v, Inr x) \<Rightarrow> f x v)"

definition wlift :: "'a result \<Rightarrow> 'a wact" where
  "wlift r w = (w, r)"

abbreviation wraise :: "msg \<Rightarrow> 'a wact" where "wraise m \<equiv> wlift (session_err m)"

definition wfs :: "(fsys \<Rightarrow> 'a) \<Rightarrow> 'a wact" where
  "wfs f w = (w, Inr (f (sw_fs w)))"

text \<open>\<open>except OSError\<close>.\<close>

definition wcatch :: "(exn \<Rightarrow> msg) \<Rightarrow> 'a wact \<Rightarrow> 'a wact" where
  "wcatch f m w = (case m w of (v, Inl e) \<Rightarrow> (v, Inl (if is_OSError e then HilSessionError (f e) else e)) | r \<Rightarrow> r)"

definition wcall :: "create_env \<Rightarrow> string \<Rightarrow> unit wact" where
  "wcall ce site = wlift (case ce_fault ce site of Some e \<Rightarrow> Inl e | None \<Rightarrow> Inr ())"

definition wmkdir :: "create_env \<Rightarrow> string \<Rightarrow> string \<Rightarrow> unit wact" where
  "wmkdir ce site p w = (case mkdir (ce_fault ce site) (sw_fs w) p of (fs, r) \<Rightarrow> (w\<lparr>sw_fs := fs\<rparr>, r))"

fun common_path :: "path \<Rightarrow> path \<Rightarrow> path" where
  "common_path (x # xs) (y # ys) = (if x = y then x # common_path xs ys else [])"
| "common_path _ _ = []"

definition default_root_dir :: "create_env \<Rightarrow> string \<Rightarrow> string wact" where
  "default_root_dir ce p =
     wbind (wfs (\<lambda>fs. (islink fs ''/tmp/opencode'' \<or> \<not> isdir fs ''/tmp/opencode'', realpath fs ''/tmp/opencode'' \<noteq> ''/tmp/opencode''))) (\<lambda>(bad, moved).
       if bad then wraise (text_msg ''default session parent must be existing canonical /tmp/opencode'')
       else if moved then wraise (text_msg ''default session parent must be canonical /tmp/opencode'')
       else
         wbind (wfs (\<lambda>fs. (lexists fs p, islink fs p \<or> \<not> isdir fs p))) (\<lambda>(exists, bad).
           if exists then (if bad then wraise (text_msg ''session root must be a non-symlink directory'') else wlift (Inr p))
           else
             wbind (wcatch (\<lambda>e. exn_msg ''cannot create default session root: %s'' e)
                 (wbind (wmkdir ce ''root mkdir'' p) (\<lambda>_. wcall ce ''root chmod''))) (\<lambda>_. wlift (Inr p))))"

definition canonical_root :: "sess_env \<Rightarrow> create_env \<Rightarrow> pyval \<Rightarrow> string wact" where
  "canonical_root env ce path =
     (case path of
        PStr p \<Rightarrow>
          if p = [] \<or> CHR 0x00 \<in> set p \<or> \<not> isabs p then wraise (text_msg ''session root must be an absolute path'')
          else if normpath p \<noteq> p then wraise (in_msg ''session root must be canonical: %s'' p)
          else if p = DEFAULT_SESSION_ROOT then default_root_dir ce p
          else
            wbind (wfs (\<lambda>fs. (islink fs p \<or> \<not> isdir fs p, realpath fs p, realpath fs (se_repo_root env)))) (\<lambda>(bad, canonical, repo).
              let common_root = path_text (common_path (comps canonical) (comps repo)) in
              if bad then wraise (text_msg ''custom session root must be existing non-symlink directory'')
              else if canonical \<noteq> p then wraise (in_msg ''custom session root must be canonical: %s'' p)
              else if canonical = [slash] then wraise (text_msg ''custom session root must not be /'')
              else if common_root = canonical \<or> common_root = repo
              then wraise (text_msg ''custom session root must be external to repository'')
              else wlift (Inr canonical))
      | _ \<Rightarrow> wraise (text_msg ''session root must be an absolute path''))"

definition create_session_dir :: "create_env \<Rightarrow> string \<Rightarrow> string \<Rightarrow> string wact" where
  "create_session_dir ce base session_id =
     (let path = path_join base session_id in
      wbind (wfs (\<lambda>fs. (lexists fs path, realpath fs path \<noteq> path))) (\<lambda>(exists, moved).
        if exists then wraise (in_msg ''session path already exists: %s'' path)
        else if moved then wraise (in_msg ''session path must not traverse a symlink: %s'' path)
        else
          wbind (wcatch (\<lambda>e. Fmt ''cannot create session directory %s: %s'' [AV (PStr path), AX e])
              (wbind (wmkdir ce ''mkdir'' path) (\<lambda>_. wcall ce ''chmod''))) (\<lambda>_. wlift (Inr path))))"

definition fsync_directory :: "create_env \<Rightarrow> unit wact" where
  "fsync_directory ce =
     wbind (wcatch (\<lambda>e. exn_msg ''cannot open session directory for fsync: %s'' e) (wcall ce ''dir open'')) (\<lambda>_.
       wcatch (\<lambda>e. exn_msg ''cannot fsync session directory: %s'' e) (wcall ce ''dir fsync''))"

fun write_loop :: "(exn + nat) list \<Rightarrow> string \<Rightarrow> string \<times> unit result" where
  "write_loop rs [] = ([], Inr ())"
| "write_loop [] data = (data, Inr ())"
| "write_loop (Inl e # rs) data = ([], Inl e)"
| "write_loop (Inr n # rs) data = (case write_loop rs (drop (Suc n) data) of (sent, r) \<Rightarrow> (take (Suc n) data @ sent, r))"

definition wopen :: "create_env \<Rightarrow> string \<Rightarrow> path wact" where
  "wopen ce p w =
     (case open_excl (ce_fault ce ''open'') (sw_fs w) p of
        (fs, Inl e) \<Rightarrow> (w, Inl e)
      | (fs, Inr k) \<Rightarrow> (w\<lparr>sw_fs := fs, sw_attr := (sw_attr w)(k := ce_new ce k)\<rparr>, Inr k))"

definition wwrite :: "create_env \<Rightarrow> path \<Rightarrow> string \<Rightarrow> unit wact" where
  "wwrite ce k data w =
     (case write_loop (ce_writes ce) data of (sent, r) \<Rightarrow> (w\<lparr>sw_fs := fs_put (sw_fs w) k (File sent)\<rparr>, r))"

definition wfchmod :: "create_env \<Rightarrow> path \<Rightarrow> nat \<Rightarrow> unit wact" where
  "wfchmod ce k perm w =
     (case ce_fault ce ''fchmod'' of
        Some e \<Rightarrow> (w, Inl e)
      | None \<Rightarrow> (w\<lparr>sw_attr := (sw_attr w)(k := (sw_attr w k)\<lparr>fa_perm := perm\<rparr>)\<rparr>, Inr ()))"

text \<open>The closing of the descriptor in the \<open>finally\<close> clause is not observable.\<close>

definition create_manifest_file :: "create_env \<Rightarrow> string \<Rightarrow> string \<Rightarrow> string wact" where
  "create_manifest_file ce session_dir data =
     (let path = path_join session_dir SESSION_FILENAME in
      wbind (wcatch (\<lambda>e. Fmt ''cannot create session manifest %s: %s'' [AV (PStr path), AX e]) (wopen ce path)) (\<lambda>k.
      wbind (wcatch (\<lambda>e. Fmt ''cannot write session manifest %s: %s'' [AV (PStr path), AX e])
          (wbind (wwrite ce k data) (\<lambda>_. wbind (wcall ce ''fsync'') (\<lambda>_. wbind (wfchmod ce k 256) (\<lambda>_. wcall ce ''fsync again''))))) (\<lambda>_.
      wbind (fsync_directory ce) (\<lambda>_. wlift (Inr path)))))"

text \<open>What the system says of the paths of this world.\<close>

definition node_stat :: "sess_world \<Rightarrow> path \<Rightarrow> node \<Rightarrow> stat" where
  "node_stat w k n =
     \<lparr>st_kind = (case n of Dir \<Rightarrow> S_IFDIR | File _ \<Rightarrow> S_IFREG | Link _ \<Rightarrow> S_IFLNK), st_perm = fa_perm (sw_attr w k),
      st_size = (case n of File b \<Rightarrow> int (length b) | _ \<Rightarrow> 0), st_dev = fa_dev (sw_attr w k), st_ino = fa_ino (sw_attr w k)\<rparr>"

definition view_of :: "sess_world \<Rightarrow> os_view" where
  "view_of w =
     \<lparr>ov_lstat = (\<lambda>p. case lstat (sw_fs w) p of Some (k, Some n) \<Rightarrow> Inr (node_stat w k n) | _ \<Rightarrow> Inl ENOENT),
      ov_realpath = realpath (sw_fs w),
      ov_open = (\<lambda>p. case lstat (sw_fs w) p of
          Some (k, Some (File b)) \<Rightarrow> Inr (node_stat w k (File b), [Inr b])
        | Some (k, Some Dir) \<Rightarrow> Inr (node_stat w k Dir, [Inl EISDIR])
        | Some (k, Some (Link _)) \<Rightarrow> Inl (OSError (text_msg ''ELOOP''))
        | _ \<Rightarrow> Inl ENOENT)\<rparr>"

text \<open>The bytes of the manifest that a resolution gives.\<close>

definition manifest_bytes :: "sess_env \<Rightarrow> string \<Rightarrow> string \<Rightarrow> logical_fixture \<Rightarrow> string \<Rightarrow> string \<Rightarrow> fixture_resolution \<Rightarrow> string result" where
  "manifest_bytes env session_id created_at_utc fixture fixture_bytes binding_bytes resolution =
     rbind (item (fr_roles resolution) ''receiver'') (\<lambda>receiver.
     rbind (role_payload ''receiver'' receiver) (\<lambda>receiver_payload.
     rbind (item (fr_roles resolution) ''source'') (\<lambda>source.
     rbind (role_payload ''source'' source) (\<lambda>source_payload.
       let data = serialize_manifest_payload env (manifest_payload session_id created_at_utc (lf_fixture_id fixture)
             (se_digest env fixture_bytes) (se_digest env binding_bytes) receiver_payload source_payload) in
       rbind (parse_manifest data ''generated session manifest'') (\<lambda>_. Inr data)))))"

text \<open>\<open>rd i\<close> is the \<open>i\<close>-th reading of an input file.\<close>

definition create_session ::
  "sess_env \<Rightarrow> create_env \<Rightarrow> disc_env \<Rightarrow> (nat \<Rightarrow> string \<Rightarrow> string result) \<Rightarrow> string \<Rightarrow> string \<Rightarrow> pyval \<Rightarrow> pyval \<Rightarrow> pyval \<Rightarrow> pyval \<Rightarrow>
   string \<Rightarrow> utc_value \<Rightarrow> session_manifest wact" where
  "create_session env ce denv rd fixture_path binding_path session_id_arg receiver_arg source_arg session_root sysfs_root utc_now =
     wbind (wlift (load_xiao_pair env (rd 0) fixture_path binding_path)) (\<lambda>(fixture, binding, fixture_bytes, binding_bytes).
     wbind (wlift (require_session_id session_id_arg)) (\<lambda>session_id.
     wbind (wlift (require_probe_serial receiver_arg ''receiver probe serial'')) (\<lambda>receiver_probe.
     wbind (wlift (require_probe_serial source_arg ''source probe serial'')) (\<lambda>source_probe.
       if receiver_probe = source_probe then wraise (text_msg ''receiver and source probe serials must be distinct'')
       else
     wbind (wlift (case snd (resolve_fixture denv sysfs_root binding (PDict [(''receiver'', PStr receiver_probe), (''source'', PStr source_probe)])) of
         Inl (exc, raw) \<Rightarrow> Inl exc | Inr resolution \<Rightarrow> Inr resolution)) (\<lambda>resolution.
     wbind (wlift (utc_string utc_now)) (\<lambda>created_at_utc.
     wbind (wlift (manifest_bytes env session_id created_at_utc fixture fixture_bytes binding_bytes resolution)) (\<lambda>data.
     wbind (wlift (assert_input_bytes_unchanged (rd 1) fixture_path binding_path fixture_bytes binding_bytes)) (\<lambda>_.
     wbind (canonical_root env ce session_root) (\<lambda>base.
     wbind (wlift (assert_input_bytes_unchanged (rd 2) fixture_path binding_path fixture_bytes binding_bytes)) (\<lambda>_.
     wbind (create_session_dir ce base session_id) (\<lambda>session_dir.
     wbind (create_manifest_file ce session_dir data) (\<lambda>manifest_path.
       (\<lambda>w. (w, load_session env (view_of w) (rd 3) (PStr manifest_path) fixture_path binding_path))))))))))))))"

section \<open>Revalidation\<close>

text \<open>\<open>==\<close> of bindings: dictionaries compare without their order.\<close>

definition udev_eq :: "udev_identity \<Rightarrow> udev_identity \<Rightarrow> bool" where
  "udev_eq a b \<longleftrightarrow> set a = set b"

fun role_binding_eq :: "role_binding \<Rightarrow> role_binding \<Rightarrow> bool" where
  "role_binding_eq (ZephyrBinding a) (ZephyrBinding b) \<longleftrightarrow>
     pb_backend (prb_probe a) = pb_backend (prb_probe b) \<and> pb_family (prb_probe a) = pb_family (prb_probe b) \<and>
     rel_option udev_eq (pb_udev (prb_probe a)) (pb_udev (prb_probe b)) \<and>
     sb_baud (prb_serial a) = sb_baud (prb_serial b) \<and> sb_dtr (prb_serial a) = sb_dtr (prb_serial b) \<and>
     sb_rts (prb_serial a) = sb_rts (prb_serial b) \<and> udev_eq (sb_udev (prb_serial a)) (sb_udev (prb_serial b))"
| "role_binding_eq (CaptureRole a) (CaptureRole b) \<longleftrightarrow>
     cb_backend a = cb_backend b \<and> cb_device a = cb_device b \<and> cb_channels a = cb_channels b \<and> cb_sample_rate a = cb_sample_rate b \<and>
     cb_sample_format a = cb_sample_format b \<and> udev_eq (cb_udev a) (cb_udev b) \<and> cb_mixer a = cb_mixer b \<and>
     cf_path (cb_fixture_metadata a) = cf_path (cb_fixture_metadata b) \<and> cf_sha256 (cb_fixture_metadata a) = cf_sha256 (cb_fixture_metadata b) \<and>
     py_eq (PDict (cf_values (cb_fixture_metadata a))) (PDict (cf_values (cb_fixture_metadata b)))"
| "role_binding_eq _ _ \<longleftrightarrow> False"

definition binding_eq :: "physical_binding \<Rightarrow> physical_binding \<Rightarrow> bool" where
  "binding_eq a b \<longleftrightarrow>
     pbd_schema_version a = pbd_schema_version b \<and> pbd_fixture_id a = pbd_fixture_id b \<and>
     set (map fst (pbd_roles a)) = set (map fst (pbd_roles b)) \<and>
     list_all (\<lambda>(name, r). case map_of (pbd_roles b) name of None \<Rightarrow> False | Some r' \<Rightarrow> role_binding_eq r r') (pbd_roles a)"

definition PROBE_COMPARED :: "(string \<times> (probe_identity \<Rightarrow> string)) list" where
  "PROBE_COMPARED =
     [(''backend'', pi_backend), (''family'', pi_family), (''serial'', pi_serial), (''product'', pi_product), (''target'', pi_target),
      (''dpidr'', pi_dpidr), (''part'', pi_part), (''variant'', pi_variant), (''variant_raw'', pi_variant_raw)]"

definition compare_role :: "session_role \<Rightarrow> role_identity \<Rightarrow> string \<Rightarrow> unit result" where
  "compare_role expected current role =
     (let expected_serial = sr_serial expected; current_serial = ri_serial current in
      rbind (rall (\<lambda>(name, field). if field (ri_probe current) \<noteq> field (sr_probe expected) then session_err (in_msg2 ''%s probe %s drift'' role name) else Inr ())
        PROBE_COMPARED) (\<lambda>_.
        if set (pi_ap_idrs (ri_probe current)) \<noteq> set (pi_ap_idrs (sr_probe expected)) then session_err (in_msg ''%s probe AP IDR drift'' role)
        else if si_usb_parent current_serial \<noteq> si_usb_parent expected_serial then session_err (in_msg ''%s USB parent drift'' role)
        else if si_baud current_serial \<noteq> si_baud expected_serial \<or> si_dtr current_serial \<noteq> si_dtr expected_serial \<or>
          si_rts current_serial \<noteq> si_rts expected_serial
        then session_err (in_msg ''%s serial configuration drift'' role)
        else
          rbind (stable_udev (si_properties current_serial) role) (\<lambda>stable.
            if set stable \<noteq> set (si_properties expected_serial) then session_err (in_msg ''%s stable udev drift'' role) else Inr ())))"

definition compare_roles :: "session_manifest \<Rightarrow> fixture_resolution \<Rightarrow> string \<Rightarrow> unit result" where
  "compare_roles m resolution role =
     rbind (item (sm_roles m) role) (\<lambda>expected. rbind (item (fr_roles resolution) role) (\<lambda>current. compare_role expected current role))"

definition revalidate_session ::
  "sess_env \<Rightarrow> disc_env \<Rightarrow> os_view \<Rightarrow> (string \<Rightarrow> string result) \<Rightarrow> session_manifest \<Rightarrow> string \<Rightarrow> string \<Rightarrow> physical_binding \<Rightarrow> string \<Rightarrow>
   fixture_resolution result" where
  "revalidate_session env denv os rd m fixture_path binding_path binding sysfs_root =
     rbind (assert_unchanged env os m) (\<lambda>_.
     rbind (load_xiao_pair env rd fixture_path binding_path) (\<lambda>(fixture, parsed_binding, fixture_bytes, binding_bytes).
       if \<not> binding_eq binding parsed_binding then session_err (text_msg ''binding does not match binding path'')
       else if lf_fixture_id fixture \<noteq> sm_fixture_id m \<or> fixture_bytes \<noteq> sm_fixture_bytes m \<or> se_digest env fixture_bytes \<noteq> sm_fixture_sha256 m
       then session_err (text_msg ''fixture bytes changed before session revalidation'')
       else if binding_bytes \<noteq> sm_binding_bytes m \<or> se_digest env binding_bytes \<noteq> sm_binding_sha256 m
       then session_err (text_msg ''binding bytes changed before session revalidation'')
       else
     rbind (item (sm_roles m) ''receiver'') (\<lambda>receiver.
     rbind (item (sm_roles m) ''source'') (\<lambda>source.
     rbind (case snd (resolve_fixture denv sysfs_root binding
           (PDict [(''receiver'', PStr (pi_serial (sr_probe receiver))), (''source'', PStr (pi_serial (sr_probe source)))])) of
         Inl (exc, raw) \<Rightarrow> Inl exc | Inr resolution \<Rightarrow> Inr resolution) (\<lambda>resolution.
       if set (map fst (fr_roles resolution)) \<noteq> {''receiver'', ''source''} then session_err (text_msg ''revalidated role set mismatch'')
       else rbind (rall (compare_roles m resolution) [''receiver'', ''source'']) (\<lambda>_. Inr resolution))))))"

end
