(* ===== verification/Hil_Manifest.thy ===== *)
theory Hil_Manifest
  imports Hil_Session
begin

text \<open>
  What the functions of \<open>scripts/hil/session.py\<close> promise: a manifest that parses is complete, a session that loads is the one its
  path names, the written form of a manifest is read back unchanged, and a revalidated session is still bound to the same boards
  and files.  The bench at the end is a session of the two boards of the discovery example.
\<close>

section \<open>What a loaded session is\<close>

lemma session_exact_keys_Inr: "session_exact_keys v keys label = Inr d \<longleftrightarrow> v = PDict d \<and> set (dict_keys d) = set keys"
  by (cases v) (auto simp: session_exact_keys_def Let_def filter_empty_conv)

lemma require_string_Inr: "require_string v label = Inr s \<longleftrightarrow> v = PStr s \<and> s \<noteq> [] \<and> CHR 0x00 \<notin> set s"
  by (cases v) (auto simp: require_string_def)

lemma if_err_Inr: "(if c then Inl e else Inr x) = Inr y \<longleftrightarrow> \<not> c \<and> x = y"
  by simp

lemma case_prod_Inr: "(case x of (a, b) \<Rightarrow> f a b) = Inr y \<longleftrightarrow> (case x of (a, b) \<Rightarrow> f a b = Inr y)"
  by (cases x) simp

lemma session_sha256_Inr: "session_sha256 v label = Inr s \<longleftrightarrow> v = PStr s \<and> s \<noteq> [] \<and> CHR 0x00 \<notin> set s \<and> sha256_shape s"
  unfolding session_sha256_def rbind_eq_Inr require_string_Inr by (auto split: if_splits)

lemma require_session_id_Inr: "require_session_id v = Inr s \<longleftrightarrow> v = PStr s \<and> safe_id s"
  by (cases v) (auto simp: require_session_id_def)

lemma require_probe_serial_Inr: "require_probe_serial v label = Inr s \<longleftrightarrow> v = PStr s \<and> probe_serial_ok s"
  by (cases v) (auto simp: require_probe_serial_def)

lemma require_utc_Inr: "require_utc v = Inr s \<longleftrightarrow> v = PStr s \<and> s \<noteq> [] \<and> CHR 0x00 \<notin> set s \<and> rfc3339_utc s \<and> utc_valid s"
  by (auto simp: require_utc_def require_string_Inr)

lemmas field_Inr = session_exact_keys_Inr require_string_Inr session_sha256_Inr require_session_id_Inr require_probe_serial_Inr require_utc_Inr

text \<open>An identity that a manifest may record for a role.\<close>

definition recorded_probe :: "string \<Rightarrow> probe_identity \<Rightarrow> bool" where
  "recorded_probe role p \<longleftrightarrow>
     pi_role p = role \<and> pi_backend p = ''nrf-probes'' \<and> pi_family p = ''nrf54l'' \<and> probe_serial_ok (pi_serial p) \<and> pi_product p \<noteq> [] \<and>
     pi_target p = RECEIVER_TARGET_NAME \<and> pi_dpidr p = RECEIVER_DPIDR \<and> pi_part p = RECEIVER_PART \<and>
     set (map fst (pi_ap_idrs p)) = set AP_KEYS \<and> variant_display (pi_variant_raw p) = Inr (pi_variant p)"

definition recorded_serial :: "string \<Rightarrow> string \<Rightarrow> serial_identity \<Rightarrow> bool" where
  "recorded_serial role serial s \<longleftrightarrow>
     si_role s = role \<and> tty_path_ok (si_path s) \<and> (\<exists>p. si_usb_parent s = Some p \<and> isabs p \<and> normpath p = p) \<and>
     set (map fst (si_properties s)) = set STABLE_UDEV_KEYS \<and> map_of (si_properties s) ''ID_SERIAL_SHORT'' = Some serial \<and>
     list_all (\<lambda>(k, v). map_of (si_properties s) k = Some v) EXPECTED_XIAO_UDEV \<and> si_baud s = 115200 \<and> si_dtr s \<and> \<not> si_rts s"

definition recorded_role :: "string \<Rightarrow> session_role \<Rightarrow> bool" where
  "recorded_role role r \<longleftrightarrow>
     py_eq (PDict (sr_expected_firmware r)) (PDict (expected_firmware_of role)) \<and> recorded_probe role (sr_probe r) \<and>
     recorded_serial role (pi_serial (sr_probe r)) (sr_serial r)"

lemma map_of_str_dict: "map_of (str_dict d) k = map_option str_value (map_of d k)"
  by (induction d) (auto simp: str_dict_def)

lemma fst_str_dict: "set (map fst (str_dict d)) = set (dict_keys d)"
  by (force simp: str_dict_def dict_keys_def)

lemma dict_get_Some: "dict_get d k = PStr s \<Longrightarrow> map_of d k = Some (PStr s)"
  by (simp add: dict_get_def split: option.splits)

lemma session_variant_Inr: "session_variant_display raw = Inr v \<longleftrightarrow> variant_display raw = Inr v"
  by (auto simp: session_variant_display_def variant_display_def Let_def)

lemma parse_probe_identity_Inr:
  assumes "parse_probe_identity role v = Inr p"
  shows "recorded_probe role p"
proof -
  from assms obtain probe ap display where
    fixed: "\<forall>(key, expected) \<in> set PROBE_CONSTANTS. dict_get probe key = PStr expected"
    and ap: "set (dict_keys ap) = set AP_KEYS"
    and serial: "probe_serial_ok (pi_serial p)" and product: "pi_product p \<noteq> []"
    and variant: "session_variant_display (pi_variant_raw p) = Inr (pi_variant p)"
    and p: "pi_role p = role" "pi_backend p = str_value (dict_get probe ''backend'')" "pi_family p = str_value (dict_get probe ''family'')"
      "pi_target p = str_value (dict_get probe ''target'')" "pi_dpidr p = str_value (dict_get probe ''dpidr'')"
      "pi_part p = str_value (dict_get probe ''part'')" "pi_ap_idrs p = str_dict ap"
    by (auto simp: parse_probe_identity_def field_Inr if_err_Inr case_prod_Inr split: if_splits)
  have "dict_get probe ''backend'' = PStr ''nrf-probes''" "dict_get probe ''family'' = PStr ''nrf54l''"
    "dict_get probe ''target'' = PStr RECEIVER_TARGET_NAME" "dict_get probe ''dpidr'' = PStr RECEIVER_DPIDR" "dict_get probe ''part'' = PStr RECEIVER_PART"
    using fixed by (simp_all add: PROBE_CONSTANTS_def)
  then show ?thesis using p serial product variant ap fst_str_dict [of ap] by (simp add: recorded_probe_def session_variant_Inr)
qed

lemma parse_stable_udev_Inr:
  assumes "parse_stable_udev role serial v = Inr d"
  shows "set (map fst (str_dict d)) = set STABLE_UDEV_KEYS" and "map_of (str_dict d) ''ID_SERIAL_SHORT'' = Some serial"
    and "list_all (\<lambda>(k, v). map_of (str_dict d) k = Some v) EXPECTED_XIAO_UDEV"
proof -
  from assms have keys: "set (dict_keys d) = set STABLE_UDEV_KEYS" and short: "dict_get d ''ID_SERIAL_SHORT'' = PStr serial"
    and exp: "\<forall>(key, expected) \<in> set EXPECTED_XIAO_UDEV. dict_get d key = PStr expected"
    by (auto simp: parse_stable_udev_def field_Inr if_err_Inr case_prod_Inr split: if_splits)
  show "set (map fst (str_dict d)) = set STABLE_UDEV_KEYS" using keys fst_str_dict [of d] by simp
  show "map_of (str_dict d) ''ID_SERIAL_SHORT'' = Some serial" using dict_get_Some [OF short] by (simp add: map_of_str_dict)
  have "map_of (str_dict d) k = Some v" if "(k, v) \<in> set EXPECTED_XIAO_UDEV" for k v
  proof -
    have "dict_get d k = PStr v" using exp that by auto
    from dict_get_Some [OF this] show ?thesis by (simp add: map_of_str_dict)
  qed
  then show "list_all (\<lambda>(k, v). map_of (str_dict d) k = Some v) EXPECTED_XIAO_UDEV" by (auto simp: list_all_iff)
qed

lemma parse_serial_identity_Inr:
  assumes "parse_serial_identity role serial v = Inr s"
  shows "recorded_serial role serial s"
proof -
  from assms obtain d path_observed parent where udev: "\<exists>w. parse_stable_udev role serial w = Inr d"
    and path: "tty_path_ok path_observed" and parent: "startswith parent [slash]" "normpath parent = parent"
    and s: "s = \<lparr>si_role = role, si_path = path_observed, si_baud = 115200, si_properties = str_dict d,
         si_usb_parent = Some parent, si_dtr = True, si_rts = False\<rparr>"
    by (auto simp: parse_serial_identity_def field_Inr split: if_splits)
  from udev obtain w where "parse_stable_udev role serial w = Inr d" by blast
  from parse_stable_udev_Inr [OF this] path parent show ?thesis by (simp add: s recorded_serial_def isabs_def)
qed

lemma parse_session_role_Inr:
  assumes "parse_session_role role v = Inr r"
  shows "recorded_role role r"
proof -
  from assms obtain fw vp vs where "check_firmware role fw = Inr ()" "parse_probe_identity role vp = Inr (sr_probe r)"
    "parse_serial_identity role (pi_serial (sr_probe r)) vs = Inr (sr_serial r)" "sr_expected_firmware r = fw"
    unfolding parse_session_role_def by fastforce
  then show ?thesis using parse_probe_identity_Inr parse_serial_identity_Inr
    by (auto simp: recorded_role_def check_firmware_def Let_def split: if_splits)
qed

definition manifest_wf :: "parsed_manifest \<Rightarrow> bool" where
  "manifest_wf pm \<longleftrightarrow>
     safe_id (pm_session_id pm) \<and> rfc3339_utc (pm_created_at_utc pm) \<and> utc_valid (pm_created_at_utc pm) \<and> pm_fixture_id pm \<noteq> [] \<and>
     sha256_shape (pm_fixture_sha256 pm) \<and> sha256_shape (pm_binding_sha256 pm) \<and>
     (\<exists>a b. pm_roles pm = [(''receiver'', a), (''source'', b)] \<and> recorded_role ''receiver'' a \<and> recorded_role ''source'' b \<and>
       pi_serial (sr_probe a) \<noteq> pi_serial (sr_probe b) \<and> si_path (sr_serial a) \<noteq> si_path (sr_serial b) \<and>
       si_usb_parent (sr_serial a) \<noteq> si_usb_parent (sr_serial b))"

lemma distinct_boards_Inr:
  "distinct_boards a b = Inr u \<longleftrightarrow> pi_serial (sr_probe a) \<noteq> pi_serial (sr_probe b) \<and> si_path (sr_serial a) \<noteq> si_path (sr_serial b) \<and>
     si_usb_parent (sr_serial a) \<noteq> si_usb_parent (sr_serial b)"
  by (simp add: distinct_boards_def)

lemma parse_manifest_wf:
  assumes "parse_manifest raw path = Inr pm"
  shows "manifest_wf pm"
proof -
  from assms obtain va vb a b where a: "parse_session_role ''receiver'' va = Inr a" and b: "parse_session_role ''source'' vb = Inr b"
    and "distinct_boards a b = Inr ()" and "pm_roles pm = [(''receiver'', a), (''source'', b)]" and "safe_id (pm_session_id pm)"
    and "rfc3339_utc (pm_created_at_utc pm)" "utc_valid (pm_created_at_utc pm)" "pm_fixture_id pm \<noteq> []"
      "sha256_shape (pm_fixture_sha256 pm)" "sha256_shape (pm_binding_sha256 pm)"
    by (clarsimp simp: parse_manifest_def field_Inr split: if_splits)
  then show ?thesis unfolding manifest_wf_def using parse_session_role_Inr [OF a] parse_session_role_Inr [OF b] distinct_boards_Inr by blast
qed

lemma read_manifest_Inr:
  assumes "read_manifest_file os path expected = Inr (p, raw, state)"
  shows "path = PStr p" "isabs p" "normpath p = p" "basename p = SESSION_FILENAME" "basename (dirname p) = ms_session_id state"
    "ov_realpath os p = p" "expected = None \<or> expected = Some (ms_session_id state)" "ms_mode state = 256"
    "\<exists>st opened chunks. ov_lstat os p = Inr st \<and> ov_open os p = Inr (opened, chunks) \<and> st_kind st = S_IFREG \<and> st_kind opened = S_IFREG \<and>
       st_dev st = ms_device state \<and> st_ino st = ms_inode state \<and> st_dev opened = ms_device state \<and> st_ino opened = ms_inode state \<and>
       st_perm opened = 256 \<and> read_all_chunks p chunks = Inr raw"
  using assms
  by (auto simp: read_manifest_file_def canonical_manifest_path_def field_Inr
      split: pyval.splits if_splits sum.splits prod.splits option.splits)

lemma read_input_Inr: "read_input rd path label = Inr b \<longleftrightarrow> rd path = Inr b"
  by (auto simp: read_input_def split: sum.splits if_splits)

lemma load_xiao_pair_bytes:
  assumes "load_xiao_pair env rd fixture_path binding_path = Inr (fixture, binding, fb, bb)"
  shows "rd fixture_path = Inr fb" "rd binding_path = Inr bb"
  using assms by (auto simp: load_xiao_pair_def read_input_Inr Let_def split: if_splits)

text \<open>C20: A session that loads is the one its path names and one that was never exchanged.  The manifest's path is absolute,
  canonical and ends in \<open>devices.json\<close> below a directory with the name of the session; the file that was inspected and the one that was
  opened are the same regular file with mode 0400; the recorded bytes and digest are those of that file, and they parse to a manifest
  whose two roles are complete and belong to different boards.  The fixture and the binding were read, are
  the XIAO pair, and have the digests that the manifest records.\<close>

theorem session_load_sound:
  assumes "load_session env os rd manifest_path fixture_path binding_path = Inr m"
  shows "manifest_path = PStr (sm_path m) \<and> isabs (sm_path m) \<and> normpath (sm_path m) = sm_path m \<and> ov_realpath os (sm_path m) = sm_path m \<and>
      basename (sm_path m) = SESSION_FILENAME \<and> basename (dirname (sm_path m)) = sm_session_id m \<and>
    (\<exists>st opened chunks. ov_lstat os (sm_path m) = Inr st \<and> ov_open os (sm_path m) = Inr (opened, chunks) \<and>
      st_kind st = S_IFREG \<and> st_kind opened = S_IFREG \<and> st_dev st = sm_device m \<and> st_ino st = sm_inode m \<and>
      st_dev opened = sm_device m \<and> st_ino opened = sm_inode m \<and> st_perm opened = 256 \<and> sm_mode m = 256 \<and>
      read_all_chunks (sm_path m) chunks = Inr (sm_raw_bytes m)) \<and>
    sm_sha256 m = se_digest env (sm_raw_bytes m) \<and>
      (\<exists>pm. parse_manifest (sm_raw_bytes m) (sm_path m) = Inr pm \<and> manifest_wf pm \<and> pm_session_id pm = sm_session_id m \<and>
        pm_roles pm = sm_roles m \<and> pm_fixture_sha256 pm = se_digest env (sm_fixture_bytes m) \<and> pm_binding_sha256 pm = se_digest env (sm_binding_bytes m)) \<and>
    rd fixture_path = Inr (sm_fixture_bytes m) \<and> rd binding_path = Inr (sm_binding_bytes m) \<and>
      (\<exists>fixture binding. load_xiao_pair env rd fixture_path binding_path = Inr (fixture, binding, sm_fixture_bytes m, sm_binding_bytes m) \<and>
        lf_fixture_id fixture = sm_fixture_id m)"
proof -
  from assms obtain path raw state pm fixture binding fb bb where
    mf: "read_manifest_file os manifest_path None = Inr (path, raw, state)"
    and parsed: "parse_manifest raw path = Inr pm" and pair: "load_xiao_pair env rd fixture_path binding_path = Inr (fixture, binding, fb, bb)"
    and m: "sm_path m = path" "sm_raw_bytes m = raw" "sm_sha256 m = se_digest env raw" "sm_device m = ms_device state" "sm_inode m = ms_inode state"
      "sm_mode m = ms_mode state" "sm_session_id m = pm_session_id pm" "ms_session_id state = pm_session_id pm" "sm_fixture_id m = pm_fixture_id pm"
      "pm_fixture_id pm = lf_fixture_id fixture" "pm_fixture_sha256 pm = se_digest env fb" "pm_binding_sha256 pm = se_digest env bb"
      "sm_fixture_bytes m = fb" "sm_binding_bytes m = bb" "sm_roles m = pm_roles pm"
    by (auto simp: load_session_def case_prod_Inr split: if_splits)
  note f = read_manifest_Inr [OF mf]
  show ?thesis using f(1-6,8,9) parsed parse_manifest_wf [OF parsed] pair load_xiao_pair_bytes [OF pair] by (simp add: m)
qed

lemma distinct_sort_fst: "distinct (map fst d) \<Longrightarrow> distinct (map fst (sort_key fst d))"
  by (simp add: distinct_map inj_on_def) 

lemma map_of_sort_fst: "distinct (map fst d) \<Longrightarrow> map_of (sort_key fst d) = map_of d"
  by (subst map_of_inject_set) (simp_all add: distinct_sort_fst)

lemma sort_keys_PStr: "sort_keys v = PStr s \<longleftrightarrow> v = PStr s"
  by (cases v) auto

definition sorted_dict :: "pydict \<Rightarrow> pydict" where
  "sorted_dict d = sort_key fst (map (\<lambda>kv. (fst kv, sort_keys (snd kv))) d)"

lemma sort_keys_dict: "sort_keys (PDict d) = PDict (sorted_dict d)"
  by (simp add: sorted_dict_def)

lemma fst_sorted: "map fst (map (\<lambda>kv. (fst kv, sort_keys (snd kv))) d) = map fst d"
  by simp

lemma sorted_dict_set: "set (sorted_dict d) = (\<lambda>kv. (fst kv, sort_keys (snd kv))) ` set d"
  by (simp add: sorted_dict_def)

lemma sorted_dict_distinct: "distinct (dict_keys d) \<Longrightarrow> distinct (dict_keys (sorted_dict d))"
  unfolding dict_keys_def sorted_dict_def by (rule distinct_sort_fst) (simp add: comp_def)

lemma dict_get_sorted:
  assumes "distinct (dict_keys d)"
  shows "dict_get (sorted_dict d) k = sort_keys (dict_get d k)"
proof -
  have "map_of (sorted_dict d) = map_of (map (\<lambda>kv. (fst kv, sort_keys (snd kv))) d)"
    unfolding sorted_dict_def using assms by (intro map_of_sort_fst) (simp add: dict_keys_def comp_def)
  moreover have "map_of (map (\<lambda>kv. (fst kv, sort_keys (snd kv))) d) k = map_option sort_keys (map_of d k)" by (induction d) auto
  ultimately show ?thesis by (simp add: dict_get_def split: option.splits)
qed

lemma plain_json_sorted: "plain_json v \<Longrightarrow> plain_json (sort_keys v)"
proof (induction v rule: sort_keys.induct)
  case (2 d)
  have "distinct (dict_keys (sorted_dict d))" using 2(2) by (simp add: sorted_dict_distinct)
  with 2 show ?case unfolding sort_keys_dict plain_json.simps sorted_dict_set by auto
qed auto

lemma sorted_strings: "set (str_dict (sorted_dict (map (\<lambda>(k, v). (k, PStr v)) d))) = set d"
  by (force simp: str_dict_def sorted_dict_set)

text \<open>The bytes that were written are read back as the sorted payload.\<close>

lemma serialized_parses:
  assumes "plain_json (PDict payload)"
  shows "parse_json_bytes (serialize_manifest_payload env payload) label = Inr (sorted_dict payload)"
proof -
  have hook: "reject_dup_loop [] d = Inr d" if "distinct (dict_keys d)" for d using that reject_dup_loop_distinct [of "[]" d] by (simp add: dict_keys_def)
  have plain: "plain_json (PDict (sorted_dict payload))" using plain_json_sorted [OF assms] by (simp only: sort_keys_dict)
  have "json_loads_with False (reject_dup_loop []) (serialize_manifest_payload env payload) = Inr (PDict (sorted_dict payload))"
    unfolding serialize_manifest_payload_def sort_keys_dict
    by (rule json_loads_dumps_blanks [OF plain separators_compact hook]) (simp_all add: json_space_def)
  moreover have "list_all printable (json_dumps (se_frepr env) '','' '':'' (PDict (sorted_dict payload)))"
    by (rule printable_dumps [OF plain]) (simp_all add: printable_def)
  then have "utf8_valid (serialize_manifest_payload env payload)"
    unfolding serialize_manifest_payload_def sort_keys_dict by (intro utf8_valid_ascii) (simp add: is_ascii_parts ascii_printable)
  ultimately show ?thesis by (simp add: parse_json_bytes_def)
qed


text \<open>Every field of a parsed identity is the one in the document.\<close>

lemma probe_fields:
  assumes "parse_probe_identity role v = Inr q"
  shows "\<exists>d ap. v = PDict d \<and> dict_get d ''ap_idrs'' = PDict ap \<and> pi_ap_idrs q = str_dict ap \<and>
    list_all (\<lambda>(name, field). dict_get d name = PStr (field q)) PROBE_COMPARED"
proof -
  from assms obtain d ap where d: "v = PDict d" and ap: "dict_get d ''ap_idrs'' = PDict ap" "pi_ap_idrs q = str_dict ap"
    and fixed: "\<forall>(key, expected) \<in> set PROBE_CONSTANTS. dict_get d key = PStr expected"
    and f: "dict_get d ''serial'' = PStr (pi_serial q)" "dict_get d ''product'' = PStr (pi_product q)" "dict_get d ''variant'' = PStr (pi_variant q)"
      "dict_get d ''variant_raw'' = PStr (pi_variant_raw q)"
      "pi_backend q = str_value (dict_get d ''backend'')" "pi_family q = str_value (dict_get d ''family'')"
      "pi_target q = str_value (dict_get d ''target'')" "pi_dpidr q = str_value (dict_get d ''dpidr'')" "pi_part q = str_value (dict_get d ''part'')"
    by (auto simp: parse_probe_identity_def field_Inr if_err_Inr case_prod_Inr split: if_splits)
  have "list_all (\<lambda>(name, field). dict_get d name = PStr (field q)) PROBE_COMPARED"
    using f fixed by (simp add: PROBE_COMPARED_def PROBE_CONSTANTS_def)
  with d ap show ?thesis by blast
qed

lemma udev_field: "parse_stable_udev role serial v = Inr u \<Longrightarrow> v = PDict u"
  by (auto simp: parse_stable_udev_def field_Inr if_err_Inr case_prod_Inr split: if_splits)

lemma serial_fields:
  assumes "parse_serial_identity role serial v = Inr q"
  shows "\<exists>d u. v = PDict d \<and> dict_get d ''stable_udev'' = PDict u \<and> si_properties q = str_dict u \<and> dict_get d ''path_observed'' = PStr (si_path q) \<and>
    dict_get d ''usb_parent_observed'' = PStr (the (si_usb_parent q)) \<and> si_usb_parent q \<noteq> None \<and> dict_get d ''baud'' = PInt (si_baud q) \<and>
    dict_get d ''dtr'' = PBool (si_dtr q) \<and> dict_get d ''rts'' = PBool (si_rts q)"
proof -
  from assms obtain d u where "v = PDict d" "parse_stable_udev role serial (dict_get d ''stable_udev'') = Inr u" "si_properties q = str_dict u"
    "dict_get d ''path_observed'' = PStr (si_path q)" "dict_get d ''usb_parent_observed'' = PStr (the (si_usb_parent q))"
    "si_usb_parent q \<noteq> None" "dict_get d ''baud'' = PInt (si_baud q)" "dict_get d ''dtr'' = PBool (si_dtr q)" "dict_get d ''rts'' = PBool (si_rts q)"
    by (clarsimp simp: parse_serial_identity_def field_Inr split: if_splits)
  with udev_field show ?thesis by blast
qed

lemma dict_get_Cons: "dict_get ((k, v) # d) x = (if x = k then v else dict_get d x)"
  by (simp add: dict_get_def)

lemma sort_str_values: "sort_keys (str_values d) = PDict (sorted_dict (map (\<lambda>(k, v). (k, PStr v)) d))"
  by (simp only: str_values_def sort_keys_dict)

lemma written_get:
  assumes "distinct (dict_keys d)"
  shows "dict_get d k = PStr s \<Longrightarrow> dict_get (sorted_dict d) k = PStr s" "dict_get d k = PInt i \<Longrightarrow> dict_get (sorted_dict d) k = PInt i"
    "dict_get d k = PBool b \<Longrightarrow> dict_get (sorted_dict d) k = PBool b" "dict_get d k = PDict e \<Longrightarrow> dict_get (sorted_dict d) k = PDict (sorted_dict e)"
  by (simp_all add: dict_get_sorted [OF assms] sort_keys_dict del: sort_keys.simps(2))

lemma role_fields:
  assumes "parse_session_role role v = Inr r"
  shows "\<exists>d. v = PDict d \<and> parse_probe_identity role (dict_get d ''probe'') = Inr (sr_probe r) \<and>
    parse_serial_identity role (pi_serial (sr_probe r)) (dict_get d ''serial'') = Inr (sr_serial r)"
  using assms by (fastforce simp: parse_session_role_def field_Inr)

text \<open>An identity that was written and read back shows no drift against itself.\<close>

lemma written_role:
  assumes written: "role_payload role identity = Inr rp" and parsed: "parse_session_role role (PDict (sorted_dict rp)) = Inr r"
  shows "compare_role r identity role = Inr () \<and> si_path (sr_serial r) = si_path (ri_serial identity)"
proof -
  from written obtain stable parent where stable: "stable_udev (si_properties (ri_serial identity)) role = Inr stable"
    and parent: "si_usb_parent (ri_serial identity) = Some parent"
    and rp: "rp = [(''expected_firmware'', PDict (expected_firmware_of role)),
       (''probe'', PDict [(''backend'', PStr (pi_backend (ri_probe identity))), (''family'', PStr (pi_family (ri_probe identity))),
          (''serial'', PStr (pi_serial (ri_probe identity))), (''product'', PStr (pi_product (ri_probe identity))),
          (''target'', PStr (pi_target (ri_probe identity))), (''dpidr'', PStr (pi_dpidr (ri_probe identity))),
          (''ap_idrs'', str_values (pi_ap_idrs (ri_probe identity))), (''part'', PStr (pi_part (ri_probe identity))),
          (''variant'', PStr (pi_variant (ri_probe identity))), (''variant_raw'', PStr (pi_variant_raw (ri_probe identity)))]),
       (''serial'', PDict [(''path_observed'', PStr (si_path (ri_serial identity))), (''usb_parent_observed'', PStr parent),
          (''stable_udev'', str_values stable), (''baud'', PInt (si_baud (ri_serial identity))), (''dtr'', PBool (si_dtr (ri_serial identity))),
          (''rts'', PBool (si_rts (ri_serial identity)))])]" (is "rp = [_, (_, PDict ?P), (_, PDict ?S)]")
    by (auto simp: role_payload_def Let_def split: if_splits option.splits)
  have keys: "distinct (dict_keys rp)" "distinct (dict_keys ?P)" "distinct (dict_keys ?S)" by (simp_all add: rp dict_keys_def)
  have "dict_get (sorted_dict rp) ''probe'' = PDict (sorted_dict ?P)" "dict_get (sorted_dict rp) ''serial'' = PDict (sorted_dict ?S)"
    by (rule written_get(4) [OF keys(1)]; simp add: rp dict_get_def)+
  with role_fields [OF parsed] have p: "parse_probe_identity role (PDict (sorted_dict ?P)) = Inr (sr_probe r)"
    and s: "parse_serial_identity role (pi_serial (sr_probe r)) (PDict (sorted_dict ?S)) = Inr (sr_serial r)" by auto
  have P: "dict_get (sorted_dict ?P) k = sort_keys (dict_get ?P k)" and S: "dict_get (sorted_dict ?S) k = sort_keys (dict_get ?S k)" for k
    by (rule dict_get_sorted; fact keys)+
  from probe_fields [OF p] have probe: "list_all (\<lambda>(name, field). field (ri_probe identity) = field (sr_probe r)) PROBE_COMPARED"
    and ap: "set (pi_ap_idrs (sr_probe r)) = set (pi_ap_idrs (ri_probe identity))"
    by (auto simp: P PROBE_COMPARED_def dict_get_Cons sort_str_values sorted_strings)
  from serial_fields [OF s] parent have "si_path (sr_serial r) = si_path (ri_serial identity)" "si_usb_parent (sr_serial r) = si_usb_parent (ri_serial identity)"
    "si_baud (sr_serial r) = si_baud (ri_serial identity)" "si_dtr (sr_serial r) = si_dtr (ri_serial identity)"
    "si_rts (sr_serial r) = si_rts (ri_serial identity)" "set (si_properties (sr_serial r)) = set stable"
    by (auto simp: S dict_get_Cons sort_str_values sorted_strings)
  moreover have "rall (\<lambda>(name, field). if field (ri_probe identity) \<noteq> field (sr_probe r) then session_err (in_msg2 ''%s probe %s drift'' role name) else Inr ())
    PROBE_COMPARED = Inr ()" using probe by (auto simp: list_all_iff)
  ultimately show ?thesis using ap stable by (simp add: compare_role_def Let_def)
qed


lemma manifest_fields:
  assumes "parse_manifest raw path = Inr pm" and doc: "parse_json_bytes raw path = Inr doc"
  shows "\<exists>fx bd rl a b. dict_get doc ''session_id'' = PStr (pm_session_id pm) \<and> dict_get doc ''created_at_utc'' = PStr (pm_created_at_utc pm) \<and>
    dict_get doc ''fixture'' = PDict fx \<and> dict_get fx ''fixture_id'' = PStr (pm_fixture_id pm) \<and> dict_get fx ''sha256'' = PStr (pm_fixture_sha256 pm) \<and>
    dict_get doc ''binding'' = PDict bd \<and> dict_get bd ''sha256'' = PStr (pm_binding_sha256 pm) \<and> dict_get doc ''roles'' = PDict rl \<and>
    parse_session_role ''receiver'' (dict_get rl ''receiver'') = Inr a \<and> parse_session_role ''source'' (dict_get rl ''source'') = Inr b \<and>
    pm_roles pm = [(''receiver'', a), (''source'', b)]"
  using assms by (clarsimp simp: parse_manifest_def field_Inr split: if_splits)

lemma parse_manifest_label:
  assumes "parse_manifest raw label = Inr pm" and "parse_json_bytes raw label = Inr doc" and "parse_json_bytes raw path = Inr doc"
  shows "parse_manifest raw path = Inr pm"
proof -
  have "session_exact_keys (PDict doc) MANIFEST_KEYS label = Inr doc"
    using assms(1,2) by (clarsimp simp: parse_manifest_def session_exact_keys_Inr)
  moreover from this have "session_exact_keys (PDict doc) MANIFEST_KEYS path = Inr doc" by (simp add: session_exact_keys_Inr)
  ultimately show ?thesis using assms by (simp add: parse_manifest_def)
qed

lemma written_manifest:
  assumes parsed: "parse_manifest (serialize_manifest_payload env (manifest_payload sid ts fid fsha bsha ra rb)) label = Inr pm"
    and plain: "plain_json (PDict (manifest_payload sid ts fid fsha bsha ra rb))"
    and ra: "role_payload ''receiver'' a = Inr ra" and rb: "role_payload ''source'' b = Inr rb"
  shows "pm_session_id pm = sid \<and> pm_created_at_utc pm = ts \<and> pm_fixture_id pm = fid \<and> pm_fixture_sha256 pm = fsha \<and> pm_binding_sha256 pm = bsha \<and>
    (\<exists>r s. pm_roles pm = [(''receiver'', r), (''source'', s)] \<and> compare_role r a ''receiver'' = Inr () \<and> compare_role s b ''source'' = Inr () \<and>
      si_path (sr_serial r) = si_path (ri_serial a) \<and> si_path (sr_serial s) = si_path (ri_serial b))"
proof -
  let ?p = "manifest_payload sid ts fid fsha bsha ra rb"
  have keys: "distinct (dict_keys ?p)" using plain by simp
  have p: "dict_get (sorted_dict ?p) k = sort_keys (dict_get ?p k)" for k by (rule dict_get_sorted [OF keys])
  have inner: "dict_get (sorted_dict [(''fixture_id'', PStr fid), (''sha256'', PStr fsha)]) k = sort_keys (dict_get [(''fixture_id'', PStr fid), (''sha256'', PStr fsha)] k)"
    "dict_get (sorted_dict [(''sha256'', PStr bsha)]) k = sort_keys (dict_get [(''sha256'', PStr bsha)] k)"
    "dict_get (sorted_dict [(''receiver'', PDict ra), (''source'', PDict rb)]) k = sort_keys (dict_get [(''receiver'', PDict ra), (''source'', PDict rb)] k)" for k
    by (rule dict_get_sorted, simp add: dict_keys_def)+
  obtain fx bd rl r s where g: "dict_get (sorted_dict ?p) ''session_id'' = PStr (pm_session_id pm)"
    "dict_get (sorted_dict ?p) ''created_at_utc'' = PStr (pm_created_at_utc pm)"
    "dict_get (sorted_dict ?p) ''fixture'' = PDict fx" "dict_get fx ''fixture_id'' = PStr (pm_fixture_id pm)" "dict_get fx ''sha256'' = PStr (pm_fixture_sha256 pm)"
    "dict_get (sorted_dict ?p) ''binding'' = PDict bd" "dict_get bd ''sha256'' = PStr (pm_binding_sha256 pm)" "dict_get (sorted_dict ?p) ''roles'' = PDict rl"
    and roles: "parse_session_role ''receiver'' (dict_get rl ''receiver'') = Inr r" "parse_session_role ''source'' (dict_get rl ''source'') = Inr s"
      "pm_roles pm = [(''receiver'', r), (''source'', s)]"
    using manifest_fields [OF parsed serialized_parses [OF plain]] by blast
  have f: "fx = sorted_dict [(''fixture_id'', PStr fid), (''sha256'', PStr fsha)]" "bd = sorted_dict [(''sha256'', PStr bsha)]"
    "rl = sorted_dict [(''receiver'', PDict ra), (''source'', PDict rb)]"
    using g(3,6,8) unfolding p by (simp_all add: manifest_payload_def dict_get_Cons sort_keys_dict del: sort_keys.simps(2))
  have "pm_session_id pm = sid" "pm_created_at_utc pm = ts" "pm_fixture_id pm = fid" "pm_fixture_sha256 pm = fsha" "pm_binding_sha256 pm = bsha"
    using g(1,2,4,5,7) unfolding f p inner by (simp_all add: manifest_payload_def dict_get_Cons)
  moreover have "parse_session_role ''receiver'' (PDict (sorted_dict ra)) = Inr r" "parse_session_role ''source'' (PDict (sorted_dict rb)) = Inr s"
    using roles(1,2) unfolding f inner by (simp_all add: dict_get_Cons sort_keys_dict del: sort_keys.simps(2))
  note written_role [OF ra this(1)] written_role [OF rb this(2)]
  ultimately show ?thesis using roles(3) by blast
qed

text \<open>C21: A session that is created can be loaded, and what it records is what was resolved: the bytes that are written for a
  resolution parse back, under any path, to the same session, time, fixture and digests, and neither role shows any drift
  against the board it was written from.\<close>

theorem manifest_round_trip:
  assumes "manifest_bytes env sid ts fixture fixture_bytes binding_bytes resolution = Inr data"
    and "fr_roles resolution = [(''receiver'', a), (''source'', b)]"
    and "role_payload ''receiver'' a = Inr ra" and "role_payload ''source'' b = Inr rb"
    and "plain_json (PDict (manifest_payload sid ts (lf_fixture_id fixture) (se_digest env fixture_bytes) (se_digest env binding_bytes) ra rb))"
  shows "\<exists>pm r s. parse_manifest data path = Inr pm \<and> pm_session_id pm = sid \<and> pm_created_at_utc pm = ts \<and> pm_fixture_id pm = lf_fixture_id fixture \<and>
    pm_fixture_sha256 pm = se_digest env fixture_bytes \<and> pm_binding_sha256 pm = se_digest env binding_bytes \<and>
    pm_roles pm = [(''receiver'', r), (''source'', s)] \<and> compare_role r a ''receiver'' = Inr () \<and> compare_role s b ''source'' = Inr () \<and>
    si_path (sr_serial r) = si_path (ri_serial a) \<and> si_path (sr_serial s) = si_path (ri_serial b)"
proof -
  let ?data = "serialize_manifest_payload env (manifest_payload sid ts (lf_fixture_id fixture) (se_digest env fixture_bytes) (se_digest env binding_bytes) ra rb)"
  from assms(1-4) obtain pm where data: "data = ?data" and pm: "parse_manifest ?data ''generated session manifest'' = Inr pm"
    by (auto simp: manifest_bytes_def item_def Let_def)
  have "parse_manifest ?data path = Inr pm"
    by (rule parse_manifest_label [OF pm serialized_parses serialized_parses]) (rule assms(5))+
  with written_manifest [OF pm assms(5,3,4)] show ?thesis unfolding data by blast
qed

text \<open>A board that is the recorded one: everything but the name of its terminal is the same.\<close>

definition same_board :: "session_role \<Rightarrow> role_identity \<Rightarrow> bool" where
  "same_board expected current \<longleftrightarrow>
     list_all (\<lambda>(name, field). field (ri_probe current) = field (sr_probe expected)) PROBE_COMPARED \<and>
     set (pi_ap_idrs (ri_probe current)) = set (pi_ap_idrs (sr_probe expected)) \<and>
     si_usb_parent (ri_serial current) = si_usb_parent (sr_serial expected) \<and> si_baud (ri_serial current) = si_baud (sr_serial expected) \<and>
     si_dtr (ri_serial current) = si_dtr (sr_serial expected) \<and> si_rts (ri_serial current) = si_rts (sr_serial expected) \<and>
     set (si_properties (sr_serial expected)) = set (map (\<lambda>k. (k, the (map_of (si_properties (ri_serial current)) k))) STABLE_UDEV_KEYS) \<and>
     list_all (\<lambda>k. map_of (si_properties (ri_serial current)) k \<noteq> None) STABLE_UDEV_KEYS"

lemma rmap_picks:
  "rmap (\<lambda>k. case f k of Some v \<Rightarrow> if v = [] then Inl (e k) else Inr (k, v) | None \<Rightarrow> Inl (e k)) ks = Inr xs \<Longrightarrow>
    xs = map (\<lambda>k. (k, the (f k))) ks \<and> list_all (\<lambda>k. f k \<noteq> None) ks"
  by (induction ks arbitrary: xs) (auto split: option.splits if_splits)

lemma stable_udev_Inr:
  assumes "stable_udev props role = Inr xs"
  shows "xs = map (\<lambda>k. (k, the (map_of props k))) STABLE_UDEV_KEYS \<and> list_all (\<lambda>k. map_of props k \<noteq> None) STABLE_UDEV_KEYS"
  using rmap_picks [OF assms [unfolded stable_udev_def]] .

lemma compare_role_Inr: "compare_role expected current role = Inr () \<Longrightarrow> same_board expected current"
  unfolding compare_role_def Let_def same_board_def
  by (auto dest!: stable_udev_Inr simp: list_all_iff split: if_splits)

lemma assert_unchanged_Inr:
  assumes "assert_unchanged env os m = Inr ()"
  shows "ov_realpath os (sm_path m) = sm_path m \<and> (\<exists>st opened chunks. ov_lstat os (sm_path m) = Inr st \<and> ov_open os (sm_path m) = Inr (opened, chunks) \<and>
    st_kind st = S_IFREG \<and> st_kind opened = S_IFREG \<and> st_dev st = sm_device m \<and> st_ino st = sm_inode m \<and>
    st_dev opened = sm_device m \<and> st_ino opened = sm_inode m \<and> st_perm opened = 256 \<and> read_all_chunks (sm_path m) chunks = Inr (sm_raw_bytes m))"
proof -
  from assms obtain raw state where mf: "read_manifest_file os (PStr (sm_path m)) (Some (sm_session_id m)) = Inr (sm_path m, raw, state)"
    and "ms_device state = sm_device m" "ms_inode state = sm_inode m" "raw = sm_raw_bytes m"
    by (auto simp: assert_unchanged_def case_prod_Inr split: if_splits)
  with read_manifest_Inr(6,9) [OF mf] show ?thesis by simp
qed

lemma resolved_Inr: "(case v of Inl (exc, raw) \<Rightarrow> Inl exc | Inr resolution \<Rightarrow> Inr resolution) = Inr r \<longleftrightarrow> v = Inr r"
  by (auto split: sum.splits prod.splits)

lemma resolve_pair_Inr:
  assumes "snd (resolve_fixture env sysfs_root binding (PDict [(''receiver'', PStr x), (''source'', PStr y)])) = Inr r"
  shows "\<exists>a b. fr_roles r = [(''receiver'', a), (''source'', b)] \<and> board_verified env sysfs_root binding ''receiver'' x (fr_raw r) a \<and>
    board_verified env sysfs_root binding ''source'' y (fr_raw r) b"
proof -
  from assms obtain s receiver source where
    v: "validate_explicit_probe_serials binding (PDict [(''receiver'', PStr x), (''source'', PStr y)]) = Inr (receiver, source)"
    and pair: "resolve_explicit_pair env sysfs_root binding (receiver, source) \<lparr>ds_calls = [], ds_raw = []\<rparr> = (s, Inr r)"
    by (cases "resolve_fixture env sysfs_root binding (PDict [(''receiver'', PStr x), (''source'', PStr y)])")
      (auto simp: resolve_fixture_Inr resolve_fixture_impl_def dbind_Inr)
  have "receiver = x" "source = y" using explicit_Inr [OF v] by (auto simp: dict_get_Cons)
  with pair_Inr [OF pair] show ?thesis by blast
qed

text \<open>C18: Revalidation admits no drift: when it succeeds, the manifest is still the same file with the same bytes, the fixture and the
  binding have the bytes the session was made from, both recorded boards were found and verified again, and each is the
  recorded board in its probe, target identity, USB parent, serial configuration and stable udev properties.  Only the name of the
  terminal may be another.\<close>

theorem revalidation_no_drift:
  assumes "revalidate_session env denv os rd m fixture_path binding_path binding sysfs_root = Inr r"
  shows "ov_realpath os (sm_path m) = sm_path m \<and>
    (\<exists>st opened chunks. ov_lstat os (sm_path m) = Inr st \<and> ov_open os (sm_path m) = Inr (opened, chunks) \<and>
      st_kind st = S_IFREG \<and> st_kind opened = S_IFREG \<and> st_dev st = sm_device m \<and> st_ino st = sm_inode m \<and>
      st_dev opened = sm_device m \<and> st_ino opened = sm_inode m \<and> st_perm opened = 256 \<and> read_all_chunks (sm_path m) chunks = Inr (sm_raw_bytes m)) \<and>
    rd fixture_path = Inr (sm_fixture_bytes m) \<and> rd binding_path = Inr (sm_binding_bytes m) \<and>
    (\<exists>ra rb a b. map_of (sm_roles m) ''receiver'' = Some ra \<and> map_of (sm_roles m) ''source'' = Some rb \<and>
      fr_roles r = [(''receiver'', a), (''source'', b)] \<and> same_board ra a \<and> same_board rb b \<and>
      board_verified denv sysfs_root binding ''receiver'' (pi_serial (sr_probe ra)) (fr_raw r) a \<and>
      board_verified denv sysfs_root binding ''source'' (pi_serial (sr_probe rb)) (fr_raw r) b)"
proof -
  from assms obtain fixture parsed ra rb where unchanged: "assert_unchanged env os m = Inr ()"
    and pair: "load_xiao_pair env rd fixture_path binding_path = Inr (fixture, parsed, sm_fixture_bytes m, sm_binding_bytes m)"
    and roles: "map_of (sm_roles m) ''receiver'' = Some ra" "map_of (sm_roles m) ''source'' = Some rb"
    and res: "snd (resolve_fixture denv sysfs_root binding (PDict [(''receiver'', PStr (pi_serial (sr_probe ra))), (''source'', PStr (pi_serial (sr_probe rb)))])) = Inr r"
    and compared: "compare_roles m r ''receiver'' = Inr ()" "compare_roles m r ''source'' = Inr ()"
    by (clarsimp simp: revalidate_session_def case_prod_Inr resolved_Inr split: if_splits)
  from resolve_pair_Inr [OF res] obtain a b where fr: "fr_roles r = [(''receiver'', a), (''source'', b)]"
    and verified: "board_verified denv sysfs_root binding ''receiver'' (pi_serial (sr_probe ra)) (fr_raw r) a"
      "board_verified denv sysfs_root binding ''source'' (pi_serial (sr_probe rb)) (fr_raw r) b" by blast
  have "same_board ra a" "same_board rb b"
    using compared by (auto simp: compare_roles_def item_def roles fr intro: compare_role_Inr)
  with assert_unchanged_Inr [OF unchanged] load_xiao_pair_bytes [OF pair] roles fr verified show ?thesis by blast
qed

section \<open>A session of the lab bench\<close>

definition bench_fixture :: logical_fixture where
  "bench_fixture = \<lparr>lf_schema_version = 1, lf_fixture_id = ''lab-1'', lf_capture_capability = CAP_NONE,
     lf_roles =
       [(''receiver'', \<lparr>lr_kind = ZEPHYR_KIND, lr_board = Some NRF54L15_CPUAPP_BOARD, lr_images = [''cpuapp'', ''flpr''], lr_channels = None\<rparr>),
        (''source'', \<lparr>lr_kind = ZEPHYR_KIND, lr_board = Some NRF54L15_CPUAPP_BOARD, lr_images = [''cpuapp''], lr_channels = None\<rparr>)]\<rparr>"

definition bench_role :: pyval where
  "bench_role =
     PDict [(''probe'', PDict [(''backend'', PStr ''nrf-probes''), (''family'', PStr ''nrf54l'')]),
            (''serial'', PDict [(''baud'', PInt 115200), (''dtr'', PBool True), (''rts'', PBool False),
               (''udev'', PDict [(''ID_VENDOR_ID'', PStr ''2886''), (''ID_MODEL_ID'', PStr ''0066''), (''ID_PATH'', PStr ''pci-0'')])])]"

definition bench_binding :: pydict where
  "bench_binding = [(''schema_version'', PInt 1), (''fixture_id'', PStr ''lab-1''), (''roles'', PDict [(''receiver'', bench_role), (''source'', bench_role)])]"

definition fixture_text :: string where "fixture_text = written (fixture_dict bench_fixture)"

definition binding_text :: string where "binding_text = written bench_binding"

definition bench_digest :: "string \<Rightarrow> string" where
  "bench_digest b = replicate 64 CHR ''0''"

definition bench_env :: sess_env where
  "bench_env = \<lparr>se_digest = bench_digest, se_meta_fs = [], se_repo_root = ''/repo'', se_frepr = (\<lambda>_. [])\<rparr>"

definition bench_files :: "string \<Rightarrow> string result" where
  "bench_files p = (if p = ''f.json'' then Inr fixture_text else if p = ''b.json'' then Inr binding_text else Inl ENOENT)"

lemma bench_fixture_parses: "parse_logical_fixture_bytes (Bytes fixture_text) ''f.json'' = Inr bench_fixture"
  unfolding fixture_text_def
proof (rule fixture_dict_parses)
  show "wf_fixture bench_fixture"
    by (auto simp: wf_fixture_def bench_fixture_def SCHEMA_VERSION_def expected_roles_def wf_zephyr_role_def NRF54L15_CPUAPP_BOARD_def)
  show "plain_json (PDict (fixture_dict bench_fixture))" by code_simp
qed (simp_all add: separators_def printable_def)

definition bench_board :: physical_role_binding where
  "bench_board = (case lab_role of ZephyrBinding z \<Rightarrow> z)"

lemma bench_role_parses:
  "parse_binding_role ''receiver'' bench_role ''b.json''
      \<lparr>lr_kind = ZEPHYR_KIND, lr_board = Some NRF54L15_CPUAPP_BOARD, lr_images = [''cpuapp'', ''flpr''], lr_channels = None\<rparr> = Inr bench_board"
  "parse_binding_role ''source'' bench_role ''b.json''
      \<lparr>lr_kind = ZEPHYR_KIND, lr_board = Some NRF54L15_CPUAPP_BOARD, lr_images = [''cpuapp''], lr_channels = None\<rparr> = Inr bench_board"
  by code_simp+

lemma bench_binding_parses:
  "parse_physical_binding_bytes digest fs repo (Bytes binding_text) ''b.json'' bench_fixture = Inr lab_boards"
proof -
  have "plain_json (PDict bench_binding)"
    by (simp add: bench_binding_def bench_role_def dict_keys_def is_ascii_def plain_json_small_int del: plain_json.simps(3))
  note doc = written_example [OF this, of "''b.json''"]
  have sorted: "sort [''receiver'', ''source''] = [''receiver'', ''source'']" by (simp add: less_char_def)
  have "lab_role = ZephyrBinding bench_board" by (simp add: bench_board_def lab_role_def)
  then show ?thesis using doc [folded binding_text_def] sorted bench_role_parses
    by (simp add: parse_physical_binding_bytes_def bench_binding_def reject_unknown_def BINDING_ROOT_KEYS_def
        dict_keys_def dict_get_def schema_is_int.simps SCHEMA_VERSION_def bench_fixture_def lab_boards_def
        parse_one_binding_def Let_def insert_commute del: decode_utf8.simps json_dumps.simps sort_key_simps)
qed

lemma bench_pair: "load_xiao_pair bench_env bench_files ''f.json'' ''b.json'' = Inr (bench_fixture, lab_boards, fixture_text, binding_text)"
proof -
  have "rall (check_xiao_role bench_fixture lab_boards) XIAO_IMAGES = Inr ()" by code_simp
  moreover have "set (map fst (lf_roles bench_fixture)) = {''receiver'', ''source''}" "set (map fst (pbd_roles lab_boards)) = {''receiver'', ''source''}"
    "lf_capture_capability bench_fixture = CAP_NONE" by (simp_all add: bench_fixture_def lab_boards_def)
  ultimately show ?thesis
    by (simp add: load_xiao_pair_def read_input_def bench_files_def bench_fixture_parses bench_binding_parses as_session_error_def
        del: json_dumps.simps)
qed

text \<open>The manifest of the two boards.\<close>

definition bench_payload :: "string \<Rightarrow> role_identity \<Rightarrow> pydict" where
  "bench_payload role r = (case role_payload role r of Inr d \<Rightarrow> d | Inl _ \<Rightarrow> [])"

definition bench_document :: pydict where
  "bench_document = manifest_payload ''s1'' ''2026-01-02T03:04:05Z'' ''lab-1'' (bench_digest fixture_text) (bench_digest binding_text)
     (bench_payload ''receiver'' (snd (lab_identities ! 0))) (bench_payload ''source'' (snd (lab_identities ! 1)))"

abbreviation bench_manifest :: string where "bench_manifest \<equiv> serialize_manifest_payload bench_env bench_document"

lemma bench_payloads:
  "role_payload ''receiver'' (snd (lab_identities ! 0)) = Inr (bench_payload ''receiver'' (snd (lab_identities ! 0)))"
  "role_payload ''source'' (snd (lab_identities ! 1)) = Inr (bench_payload ''source'' (snd (lab_identities ! 1)))"
  by code_simp+

lemma digits_ascii: "is_ascii (bench_digest x)"
  by (simp add: bench_digest_def is_ascii_def)

lemma bench_payload_plain:
  assumes "(role, r) \<in> set lab_identities"
  shows "plain_json (PDict (bench_payload role r))"
  using assms
  by (auto simp: bench_payload_def lab_identities_def role_payload_def lab_probe_def lab_serial_def lab_props_def stable_udev_def STABLE_UDEV_KEYS_def AP_KEYS_def
      RECEIVER_TARGET_NAME_def RECEIVER_DPIDR_def RECEIVER_PART_def expected_firmware_of_def str_values_def dict_keys_def is_ascii_def plain_json_small_int
      simp del: plain_json.simps(3))

lemma manifest_payload_plain:
  assumes "plain_json (PDict ra)" and "plain_json (PDict rb)" and "is_ascii sid" and "is_ascii ts" and "is_ascii fid" and "is_ascii fsha" and "is_ascii bsha"
  shows "plain_json (PDict (manifest_payload sid ts fid fsha bsha ra rb))"
  using assms by (simp add: manifest_payload_def dict_keys_def SESSION_SCHEMA_VERSION_def plain_json_small_int del: plain_json.simps(3)) (simp add: is_ascii_def)

lemma bench_document_plain: "plain_json (PDict bench_document)"
  unfolding bench_document_def
proof (rule manifest_payload_plain)
  show "plain_json (PDict (bench_payload ''receiver'' (snd (lab_identities ! 0))))" "plain_json (PDict (bench_payload ''source'' (snd (lab_identities ! 1))))"
    by (rule bench_payload_plain; simp add: lab_identities_def)+
qed (simp_all add: digits_ascii, simp_all add: is_ascii_def)

lemma sorted_dict_keys: "set (dict_keys (sorted_dict d)) = set (dict_keys d)"
  by (force simp: dict_keys_def sorted_dict_set)

lemma sorted_exact_keys: "set (dict_keys d) = set keys \<Longrightarrow> session_exact_keys (PDict (sorted_dict d)) keys label = Inr (sorted_dict d)"
  by (simp add: session_exact_keys_Inr sorted_dict_keys)

text \<open>A payload with valid fields and roles is accepted.\<close>

lemma payload_parses:
  assumes plain: "plain_json (PDict (manifest_payload sid ts fid fsha bsha ra rb))"
    and sid: "safe_id sid" and ts: "require_utc (PStr ts) = Inr ts" and fid: "require_string (PStr fid) ''fixture fixture_id'' = Inr fid"
    and shas: "session_sha256 (PStr fsha) ''fixture sha256'' = Inr fsha" "session_sha256 (PStr bsha) ''binding sha256'' = Inr bsha"
    and roles: "parse_session_role ''receiver'' (PDict (sorted_dict ra)) = Inr a" "parse_session_role ''source'' (PDict (sorted_dict rb)) = Inr b"
      "distinct_boards a b = Inr ()"
  shows "parse_manifest (serialize_manifest_payload env (manifest_payload sid ts fid fsha bsha ra rb)) path =
    Inr \<lparr>pm_session_id = sid, pm_created_at_utc = ts, pm_fixture_id = fid, pm_fixture_sha256 = fsha, pm_binding_sha256 = bsha,
      pm_roles = [(''receiver'', a), (''source'', b)]\<rparr>"
proof -
  let ?p = "manifest_payload sid ts fid fsha bsha ra rb"
  let ?fx = "[(''fixture_id'', PStr fid), (''sha256'', PStr fsha)]" and ?bd = "[(''sha256'', PStr bsha)]"
  let ?rl = "[(''receiver'', PDict ra), (''source'', PDict rb)]"
  note doc = serialized_parses [OF plain, of env path]
  have keys: "distinct (dict_keys ?p)" using plain by simp
  have g: "dict_get (sorted_dict ?p) ''schema_version'' = PInt SESSION_SCHEMA_VERSION" "dict_get (sorted_dict ?p) ''session_id'' = PStr sid"
    "dict_get (sorted_dict ?p) ''created_at_utc'' = PStr ts" "dict_get (sorted_dict ?p) ''fixture'' = PDict (sorted_dict ?fx)"
    "dict_get (sorted_dict ?p) ''binding'' = PDict (sorted_dict ?bd)" "dict_get (sorted_dict ?p) ''roles'' = PDict (sorted_dict ?rl)"
    by (rule written_get [OF keys], simp add: manifest_payload_def dict_get_Cons)+
  have inner: "dict_get (sorted_dict ?fx) ''fixture_id'' = PStr fid" "dict_get (sorted_dict ?fx) ''sha256'' = PStr fsha"
    "dict_get (sorted_dict ?bd) ''sha256'' = PStr bsha" "dict_get (sorted_dict ?rl) ''receiver'' = PDict (sorted_dict ra)"
    "dict_get (sorted_dict ?rl) ''source'' = PDict (sorted_dict rb)"
    by (rule written_get, simp add: dict_keys_def, simp add: dict_get_Cons)+
  have exact: "session_exact_keys (PDict (sorted_dict ?p)) MANIFEST_KEYS path = Inr (sorted_dict ?p)"
    "session_exact_keys (PDict (sorted_dict ?fx)) [''fixture_id'', ''sha256''] ''fixture'' = Inr (sorted_dict ?fx)"
    "session_exact_keys (PDict (sorted_dict ?bd)) [''sha256''] ''binding'' = Inr (sorted_dict ?bd)"
    "session_exact_keys (PDict (sorted_dict ?rl)) [''receiver'', ''source''] ''roles'' = Inr (sorted_dict ?rl)"
    by (rule sorted_exact_keys, simp add: manifest_payload_def MANIFEST_KEYS_def dict_keys_def)+
  have "require_session_id (PStr sid) = Inr sid" using sid by (simp add: require_session_id_def)
  with doc g inner exact ts fid shas roles show ?thesis by (simp add: parse_manifest_def)
qed

definition bench_recorded :: "string \<Rightarrow> nat \<Rightarrow> session_role" where
  "bench_recorded role i = projr (parse_session_role role (PDict (sorted_dict (bench_payload role (snd (lab_identities ! i))))))"

lemma bench_roles_parse:
  "parse_session_role ''receiver'' (PDict (sorted_dict (bench_payload ''receiver'' (snd (lab_identities ! 0))))) = Inr (bench_recorded ''receiver'' 0)"
  "parse_session_role ''source'' (PDict (sorted_dict (bench_payload ''source'' (snd (lab_identities ! 1))))) = Inr (bench_recorded ''source'' 1)"
  "distinct_boards (bench_recorded ''receiver'' 0) (bench_recorded ''source'' 1) = Inr ()"
  by code_simp+

definition bench_parsed :: parsed_manifest where
  "bench_parsed = \<lparr>pm_session_id = ''s1'', pm_created_at_utc = ''2026-01-02T03:04:05Z'', pm_fixture_id = ''lab-1'',
     pm_fixture_sha256 = bench_digest fixture_text, pm_binding_sha256 = bench_digest binding_text,
     pm_roles = [(''receiver'', bench_recorded ''receiver'' 0), (''source'', bench_recorded ''source'' 1)]\<rparr>"

lemma bench_sha: "session_sha256 (PStr (bench_digest x)) label = Inr (bench_digest x)"
  by (simp add: session_sha256_Inr bench_digest_def sha256_shape_def list_all_iff hex_digit_def byte_in_def)

lemma bench_utc: "require_utc (PStr ''2026-01-02T03:04:05Z'') = Inr ''2026-01-02T03:04:05Z''"
  by code_simp

lemma bench_manifest_parses: "parse_manifest bench_manifest path = Inr bench_parsed"
  unfolding bench_document_def bench_parsed_def
proof (rule payload_parses)
  show "safe_id ''s1''" by code_simp
  show "require_string (PStr ''lab-1'') ''fixture fixture_id'' = Inr ''lab-1''" by (simp add: require_string_Inr)
qed (use bench_document_plain in \<open>simp_all only: bench_document_def bench_utc bench_sha bench_roles_parse\<close>)

text \<open>The manifest below the session root, and the session that is loaded from it.\<close>

definition bench_stat :: stat where
  "bench_stat = \<lparr>st_kind = S_IFREG, st_perm = 256, st_size = 1, st_dev = 7, st_ino = 11\<rparr>"

definition bench_view :: os_view where
  "bench_view =
     \<lparr>ov_lstat = (\<lambda>p. if p = ''/s/s1/devices.json'' then Inr bench_stat else Inl ENOENT), ov_realpath = (\<lambda>p. p),
      ov_open = (\<lambda>p. if p = ''/s/s1/devices.json'' then Inr (bench_stat, [Inr bench_manifest]) else Inl ENOENT)\<rparr>"

definition bench_session :: session_manifest where
  "bench_session =
     \<lparr>sm_path = ''/s/s1/devices.json'', sm_raw_bytes = bench_manifest, sm_sha256 = bench_digest bench_manifest, sm_device = 7, sm_inode = 11, sm_mode = 256,
      sm_session_id = ''s1'', sm_created_at_utc = ''2026-01-02T03:04:05Z'', sm_fixture_id = ''lab-1'', sm_fixture_sha256 = bench_digest fixture_text,
      sm_binding_sha256 = bench_digest binding_text, sm_fixture_bytes = fixture_text, sm_binding_bytes = binding_text, sm_roles = pm_roles bench_parsed\<rparr>"

lemma bench_read:
  assumes "expected = None \<or> expected = Some ''s1''"
  shows "read_manifest_file bench_view (PStr ''/s/s1/devices.json'') expected =
    Inr (''/s/s1/devices.json'', bench_manifest, \<lparr>ms_device = 7, ms_inode = 11, ms_mode = 256, ms_session_id = ''s1''\<rparr>)"
proof -
  have path: "isabs ''/s/s1/devices.json''" "normpath ''/s/s1/devices.json'' = ''/s/s1/devices.json''" "basename ''/s/s1/devices.json'' = SESSION_FILENAME"
    "basename (dirname ''/s/s1/devices.json'') = ''s1''" "require_session_id (PStr ''s1'') = Inr ''s1''" "dirname ''/s/s1/devices.json'' = ''/s/s1''"
    by code_simp+
  have links: "\<not> view_islink bench_view ''/s/s1/devices.json''" "\<not> view_islink bench_view ''/s/s1''" "ov_realpath bench_view p = p" for p
    by (simp_all add: view_islink_def bench_view_def bench_stat_def)
  have "canonical_manifest_path bench_view (PStr ''/s/s1/devices.json'') expected = Inr (''/s/s1/devices.json'', ''s1'')"
    using assms path links by (auto simp: canonical_manifest_path_def)
  moreover have "ov_lstat bench_view ''/s/s1/devices.json'' = Inr bench_stat" "ov_open bench_view ''/s/s1/devices.json'' = Inr (bench_stat, [Inr bench_manifest])"
    by (simp_all add: bench_view_def)
  moreover have "bench_manifest \<noteq> []" by (simp add: serialize_manifest_payload_def)
  ultimately show ?thesis by (simp add: read_manifest_file_def) (simp add: bench_stat_def)
qed

lemma bench_loads: "load_session bench_env bench_view bench_files (PStr ''/s/s1/devices.json'') ''f.json'' ''b.json'' = Inr bench_session"
  by (simp add: load_session_def bench_read bench_manifest_parses bench_pair bench_parsed_def bench_session_def)
    (simp add: bench_env_def bench_fixture_def)

lemma bench_manifest_bytes:
  assumes "fr_roles r = lab_identities"
  shows "manifest_bytes bench_env ''s1'' ''2026-01-02T03:04:05Z'' bench_fixture fixture_text binding_text r = Inr bench_manifest"
proof -
  have items: "item lab_identities ''receiver'' = Inr (snd (lab_identities ! 0))" "item lab_identities ''source'' = Inr (snd (lab_identities ! 1))"
    by (simp_all add: item_def lab_identities_def)
  have env: "se_digest bench_env = bench_digest" "lf_fixture_id bench_fixture = ''lab-1''" by (simp_all add: bench_env_def bench_fixture_def)
  show ?thesis
    unfolding manifest_bytes_def assms items bench_payloads rbind.simps Let_def env bench_document_def [symmetric] bench_manifest_parses ..
qed

theorem session_load_sound_witness:
  "load_session bench_env bench_view bench_files (PStr ''/s/s1/devices.json'') ''f.json'' ''b.json'' = Inr bench_session \<and>
   sm_session_id bench_session = ''s1'' \<and> basename (dirname (sm_path bench_session)) = sm_session_id bench_session"
  using session_load_sound [OF bench_loads] bench_loads by (simp add: bench_session_def)

theorem manifest_round_trip_witness:
  "\<exists>data pm r s. manifest_bytes bench_env ''s1'' ''2026-01-02T03:04:05Z'' bench_fixture fixture_text binding_text \<lparr>fr_roles = lab_identities, fr_raw = []\<rparr> = Inr data \<and>
    parse_manifest data ''/s/s1/devices.json'' = Inr pm \<and> pm_session_id pm = ''s1'' \<and> pm_roles pm = [(''receiver'', r), (''source'', s)] \<and>
    compare_role r (snd (lab_identities ! 0)) ''receiver'' = Inr () \<and> compare_role s (snd (lab_identities ! 1)) ''source'' = Inr ()"
proof -
  have bytes: "manifest_bytes bench_env ''s1'' ''2026-01-02T03:04:05Z'' bench_fixture fixture_text binding_text \<lparr>fr_roles = lab_identities, fr_raw = []\<rparr> = Inr bench_manifest"
    by (rule bench_manifest_bytes) simp
  have roles: "fr_roles \<lparr>fr_roles = lab_identities, fr_raw = []\<rparr> = [(''receiver'', snd (lab_identities ! 0)), (''source'', snd (lab_identities ! 1))]"
    by (simp add: lab_identities_def)
  have plain: "plain_json (PDict (manifest_payload ''s1'' ''2026-01-02T03:04:05Z'' (lf_fixture_id bench_fixture) (se_digest bench_env fixture_text)
      (se_digest bench_env binding_text) (bench_payload ''receiver'' (snd (lab_identities ! 0))) (bench_payload ''source'' (snd (lab_identities ! 1)))))"
    using bench_document_plain unfolding bench_document_def bench_env_def bench_fixture_def by (simp del: plain_json.simps)
  from manifest_round_trip [OF bytes roles bench_payloads plain] bytes show ?thesis by blast
qed

theorem revalidation_no_drift_witness:
  "\<exists>r a b. revalidate_session bench_env lab_disc bench_view bench_files bench_session ''f.json'' ''b.json'' lab_boards ''/sys'' = Inr r \<and>
    fr_roles r = [(''receiver'', a), (''source'', b)] \<and> same_board (bench_recorded ''receiver'' 0) a \<and> same_board (bench_recorded ''source'' 1) b"
proof -
  obtain s r where res: "resolve_fixture lab_disc ''/sys'' lab_boards lab_serials = (s, Inr r)" and ids: "fr_roles r = lab_identities"
    using lab_resolves by blast
  have unchanged: "assert_unchanged bench_env bench_view bench_session = Inr ()"
    by (simp add: assert_unchanged_def bench_session_def bench_read) (simp add: bench_env_def)
  have boards: "binding_eq lab_boards lab_boards" by code_simp
  have serials: "pi_serial (sr_probe (bench_recorded ''receiver'' 0)) = ''A1''" "pi_serial (sr_probe (bench_recorded ''source'' 1)) = ''B2''" by code_simp+
  have compared: "compare_role (bench_recorded ''receiver'' 0) (snd (lab_identities ! 0)) ''receiver'' = Inr ()"
    "compare_role (bench_recorded ''source'' 1) (snd (lab_identities ! 1)) ''source'' = Inr ()"
    using written_role [OF bench_payloads(1) bench_roles_parse(1)] written_role [OF bench_payloads(2) bench_roles_parse(2)] by blast+
  have roles: "map_of (sm_roles bench_session) ''receiver'' = Some (bench_recorded ''receiver'' 0)"
    "map_of (sm_roles bench_session) ''source'' = Some (bench_recorded ''source'' 1)" by (simp_all add: bench_session_def bench_parsed_def)
  have same: "compare_roles bench_session r role = Inr ()" if "role \<in> {''receiver'', ''source''}" for role
    using that roles compared by (auto simp: compare_roles_def item_def ids lab_identities_def)
  have sess: "sm_fixture_id bench_session = lf_fixture_id bench_fixture" "sm_fixture_bytes bench_session = fixture_text" "sm_binding_bytes bench_session = binding_text"
    "sm_fixture_sha256 bench_session = se_digest bench_env fixture_text" "sm_binding_sha256 bench_session = se_digest bench_env binding_text"
    by (simp_all add: bench_session_def bench_env_def bench_fixture_def)
  have set: "set (map fst (fr_roles r)) = {''receiver'', ''source''}" by (simp add: ids lab_identities_def)
  have resolved: "snd (resolve_fixture lab_disc ''/sys'' lab_boards (PDict [(''receiver'', PStr ''A1''), (''source'', PStr ''B2'')])) = Inr r"
    using res by (simp add: lab_serials_def)
  have ok: "revalidate_session bench_env lab_disc bench_view bench_files bench_session ''f.json'' ''b.json'' lab_boards ''/sys'' = Inr r"
    using boards set same unfolding revalidate_session_def unchanged bench_pair rbind.simps prod.case sess
    by (simp add: item_def roles serials resolved del: One_nat_def set_map)
  from revalidation_no_drift [OF ok] ok roles show ?thesis by auto
qed

end
