(* ===== verification/Hil_Creation.thy ===== *)
theory Hil_Creation
  imports Hil_Manifest
begin

text \<open>
  The creation of a session, \<open>create_session\<close> of \<open>scripts/hil/session.py\<close>: every step of it only adds to the file system, and
  a successful one leaves a new manifest with the bytes of the resolution.
\<close>

section \<open>Worlds that only grow\<close>

definition world_kept :: "sess_world \<Rightarrow> sess_world \<Rightarrow> bool" where
  "world_kept w w' \<longleftrightarrow> (\<forall>k n. node_at (sw_fs w) k = Some n \<longrightarrow> node_at (sw_fs w') k = Some n \<and> sw_attr w' k = sw_attr w k)"

definition grows :: "'a wact \<Rightarrow> bool" where
  "grows m \<longleftrightarrow> (\<forall>w w' r. m w = (w', r) \<longrightarrow> world_kept w w')"

lemma world_kept_refl [simp]: "world_kept w w"
  by (simp add: world_kept_def)

lemma world_kept_trans: "world_kept u v \<Longrightarrow> world_kept v w \<Longrightarrow> world_kept u w"
  by (simp add: world_kept_def)

lemma growsD: "grows m \<Longrightarrow> m w = (w', r) \<Longrightarrow> world_kept w w'"
  by (auto simp: grows_def)

lemma wbind_Inr: "wbind m f w = (w', Inr y) \<longleftrightarrow> (\<exists>x v. m w = (v, Inr x) \<and> f x v = (w', Inr y))"
  by (auto simp: wbind_def split: prod.splits sum.splits)

lemma wlift_Inr: "wlift r w = (w', Inr x) \<longleftrightarrow> w' = w \<and> r = Inr x"
  by (auto simp: wlift_def)

lemma wfs_Inr: "wfs f w = (w', r) \<longleftrightarrow> w' = w \<and> r = Inr (f (sw_fs w))"
  by (auto simp: wfs_def)

lemma wcatch_Inr: "wcatch f m w = (w', Inr x) \<longleftrightarrow> m w = (w', Inr x)"
  by (auto simp: wcatch_def split: prod.splits sum.splits)

lemma wcall_run: "wcall ce site w = (w', r) \<longleftrightarrow> w' = w \<and> r = (case ce_fault ce site of Some e \<Rightarrow> Inl e | None \<Rightarrow> Inr ())"
  by (auto simp: wcall_def wlift_def)

lemmas w_Inr = wbind_Inr wlift_Inr wfs_Inr wcatch_Inr wcall_run

named_theorems grows_intros

lemma grows_wlift [grows_intros]: "grows (wlift r)"
  by (simp add: grows_def wlift_def)

lemma grows_wfs [grows_intros]: "grows (wfs f)"
  by (simp add: grows_def wfs_def)

lemma grows_wcall [grows_intros]: "grows (wcall ce site)"
  by (simp add: grows_def wcall_run)

lemma grows_wbind [grows_intros]:
  assumes "grows m" and "\<And>x. grows (f x)"
  shows "grows (wbind m f)"
  unfolding grows_def
proof (intro allI impI)
  fix w w' r assume run: "wbind m f w = (w', r)"
  show "world_kept w w'"
    using run growsD [OF assms(1)] growsD [OF assms(2)]
    by (auto simp: wbind_def split: prod.splits sum.splits) (metis world_kept_trans)
qed

lemma grows_wcatch [grows_intros]: "grows m \<Longrightarrow> grows (wcatch f m)"
  by (auto simp: grows_def wcatch_def split: prod.splits sum.splits)

lemma grows_if [grows_intros]: "(c \<Longrightarrow> grows a) \<Longrightarrow> (\<not> c \<Longrightarrow> grows b) \<Longrightarrow> grows (if c then a else b)"
  by simp

lemma lstat_missing:
  assumes "lstat fs p = Some (k, None)"
  shows "k \<noteq> [] \<and> node_at fs k = None"
  using assms by (auto simp: lstat_def Let_def node_at_def split: if_splits prod.splits)

lemma grows_wmkdir [grows_intros]: "grows (wmkdir ce site p)"
  unfolding grows_def
  by (auto simp: wmkdir_def mkdir_def world_kept_def dest!: lstat_missing split: option.splits prod.splits)

text \<open>Writing the new file touches nothing else.\<close>

lemma write_loop_Inr: "write_loop rs data = (sent, Inr u) \<Longrightarrow> sent = data"
proof (induction rs data arbitrary: sent rule: write_loop.induct)
  case (4 n rs c data)
  then show ?case by (auto split: prod.splits)
qed auto

lemma manifest_file_run:
  assumes "create_manifest_file ce dir data w = (w', r)"
  shows "(w' = w \<and> (\<forall>x. r \<noteq> Inr x)) \<or> (\<exists>k n. lstat (sw_fs w) (path_join dir SESSION_FILENAME) = Some (k, None) \<and>
      sw_fs w' = fs_put (fs_put (sw_fs w) k (File [])) k n \<and> (\<forall>k'. k' \<noteq> k \<longrightarrow> sw_attr w' k' = sw_attr w k') \<and>
      (\<forall>path. r = Inr path \<longrightarrow> n = File data \<and> fa_perm (sw_attr w' k) = 256 \<and> path = path_join dir SESSION_FILENAME))"
  using assms
  by (auto simp: create_manifest_file_def Let_def wbind_def wcatch_def wopen_def open_excl_def wwrite_def wfchmod_def wcall_def wlift_def fsync_directory_def
      dest!: write_loop_Inr split: prod.splits sum.splits option.splits if_splits)

lemma grows_manifest_file [grows_intros]: "grows (create_manifest_file ce dir data)"
  unfolding grows_def
proof (intro allI impI)
  fix w w' r assume "create_manifest_file ce dir data w = (w', r)"
  from manifest_file_run [OF this] show "world_kept w w'"
    by (auto simp: world_kept_def dest!: lstat_missing) (metis option.distinct(1))
qed

lemma grows_canonical_root [grows_intros]: "grows (canonical_root env ce path)"
  unfolding canonical_root_def default_root_dir_def Let_def
  by (cases path) (auto intro!: grows_intros split: prod.splits)

lemma grows_session_dir [grows_intros]: "grows (create_session_dir ce base sid)"
  unfolding create_session_dir_def Let_def by (auto intro!: grows_intros split: prod.splits)

lemma grows_result [grows_intros]: "grows (\<lambda>w. (w, f w))"
  by (simp add: grows_def)

lemma grows_create: "grows (create_session env ce denv rd fp bp sid ra sa base sysfs now)"
  unfolding create_session_def by (auto intro!: grows_intros split: prod.splits)

section \<open>A new node that is no link\<close>

lemma resolve_plain_put:
  assumes "k \<noteq> []" and "node_at fs k = None" and "\<forall>t. n \<noteq> Link t"
  shows "resolve m (fs_put fs k n) busy cur cs = resolve m fs busy cur cs"
  using assms
proof (induction m fs busy cur cs rule: resolve.induct)
  case (2 m fs busy cur x rest)
  then show ?case by (auto simp: resolve.simps(2) split: option.splits node.splits prod.splits bool.splits)
qed (simp add: resolve.simps)

lemma links_plain_put:
  assumes "k \<noteq> []" and "node_at fs k = None" and "\<forall>t. n \<noteq> Link t"
  shows "links (fs_put fs k n) = links fs"
proof -
  have "k \<notin> fst ` set fs" using assms(1,2) by (simp add: node_at_def map_of_eq_None_iff)
  then have "filter (\<lambda>(k', _). k' \<noteq> k) fs = fs" by (force intro: filter_True)
  with assms(3) show ?thesis by (cases n) (simp_all add: links_def fs_put_def)
qed

lemma lstat_new:
  assumes "lstat fs p = Some (k, None)" and "\<forall>t. n \<noteq> Link t"
  shows "lstat (fs_put fs k n) p = Some (k, Some n)"
proof -
  from lstat_missing [OF assms(1)] have k: "k \<noteq> []" "node_at fs k = None" by auto
  have "resolve_all (fs_put fs k n) cs = resolve_all fs cs" for cs
    unfolding resolve_all_def links_plain_put [OF k assms(2)] resolve_plain_put [OF k assms(2)] ..
  with assms(1) k show ?thesis by (auto simp: lstat_def Let_def split: if_splits prod.splits)
qed

lemma fs_put_put: "fs_put (fs_put fs k a) k b = fs_put fs k b"
  by (simp add: fs_put_def filter_id_conv)

lemma load_session_file:
  assumes "load_session env os rd manifest_path fixture_path binding_path = Inr m"
  shows "manifest_path = PStr (sm_path m)"
    and "\<exists>opened chunks. ov_open os (sm_path m) = Inr (opened, chunks) \<and> read_all_chunks (sm_path m) chunks = Inr (sm_raw_bytes m)"
proof -
  from assms obtain state where mf: "read_manifest_file os manifest_path None = Inr (sm_path m, sm_raw_bytes m, state)"
    by (auto simp: load_session_def case_prod_Inr split: if_splits)
  show "manifest_path = PStr (sm_path m)" using read_manifest_Inr(1) [OF mf] .
  show "\<exists>opened chunks. ov_open os (sm_path m) = Inr (opened, chunks) \<and> read_all_chunks (sm_path m) chunks = Inr (sm_raw_bytes m)"
    using read_manifest_Inr(9) [OF mf] by blast
qed

lemma view_of_file:
  assumes "lstat (sw_fs w) p = Some (k, Some (File data))" and "load_session env (view_of w) rd (PStr p) fixture_path binding_path = Inr m"
  shows "sm_path m = p \<and> sm_raw_bytes m = data"
  using load_session_file [OF assms(2)] assms(1) by (auto simp: view_of_def split: if_splits)

lemma manifest_file_Inr:
  assumes "create_manifest_file ce dir data w = (w', Inr path)"
  shows "\<exists>k. node_at (sw_fs w) k = None \<and> lstat (sw_fs w') path = Some (k, Some (File data)) \<and> fa_perm (sw_attr w' k) = 256"
proof -
  from manifest_file_run [OF assms] obtain k where k: "lstat (sw_fs w) path = Some (k, None)"
    "sw_fs w' = fs_put (fs_put (sw_fs w) k (File [])) k (File data)" "fa_perm (sw_attr w' k) = 256" by auto
  with lstat_missing [OF k(1)] lstat_new [OF k(1), of "File data"] show ?thesis by (auto simp: fs_put_put)
qed

lemma input_bytes_Inr: "assert_input_bytes_unchanged rd fp bp fb bb = Inr u \<longleftrightarrow> rd fp = Inr fb \<and> rd bp = Inr bb"
  by (auto simp: assert_input_bytes_unchanged_def read_input_Inr)

text \<open>C19: Creating a session only ever adds: however it ends, every file and directory that was there is still there with its contents and
  attributes, so no earlier session is touched.  When it succeeds, the manifest is a new file with mode 0400, it holds exactly the
  bytes for the two boards that were resolved, and the fixture and the binding had the same bytes before and after.\<close>

theorem session_creation_adds_only:
  assumes "create_session env ce denv rd fixture_path binding_path session_id_arg receiver_arg source_arg session_root sysfs_root utc_now w = (w', res)"
  shows "(\<forall>k n. node_at (sw_fs w) k = Some n \<longrightarrow> node_at (sw_fs w') k = Some n \<and> sw_attr w' k = sw_attr w k) \<and>
    (\<forall>m. res = Inr m \<longrightarrow> (\<exists>k sid x y fixture binding fb bb resolution ts.
      session_id_arg = PStr sid \<and> safe_id sid \<and> receiver_arg = PStr x \<and> source_arg = PStr y \<and> x \<noteq> y \<and>
      node_at (sw_fs w) k = None \<and> lstat (sw_fs w') (sm_path m) = Some (k, Some (File (sm_raw_bytes m))) \<and> fa_perm (sw_attr w' k) = 256 \<and>
      (\<forall>i \<in> {0, 1, 2}. rd i fixture_path = Inr fb \<and> rd i binding_path = Inr bb) \<and>
      snd (resolve_fixture denv sysfs_root binding (PDict [(''receiver'', PStr x), (''source'', PStr y)])) = Inr resolution \<and>
      manifest_bytes env sid ts fixture fb bb resolution = Inr (sm_raw_bytes m)))"
proof (intro conjI)
  have kept: "world_kept w w'" by (rule growsD [OF grows_create assms])
  then show "\<forall>k n. node_at (sw_fs w) k = Some n \<longrightarrow> node_at (sw_fs w') k = Some n \<and> sw_attr w' k = sw_attr w k" by (simp add: world_kept_def)
  show "\<forall>m. res = Inr m \<longrightarrow> (\<exists>k sid x y fixture binding fb bb resolution ts.
      session_id_arg = PStr sid \<and> safe_id sid \<and> receiver_arg = PStr x \<and> source_arg = PStr y \<and> x \<noteq> y \<and>
      node_at (sw_fs w) k = None \<and> lstat (sw_fs w') (sm_path m) = Some (k, Some (File (sm_raw_bytes m))) \<and> fa_perm (sw_attr w' k) = 256 \<and>
      (\<forall>i \<in> {0, 1, 2}. rd i fixture_path = Inr fb \<and> rd i binding_path = Inr bb) \<and>
      snd (resolve_fixture denv sysfs_root binding (PDict [(''receiver'', PStr x), (''source'', PStr y)])) = Inr resolution \<and>
      manifest_bytes env sid ts fixture fb bb resolution = Inr (sm_raw_bytes m))"
  proof (intro allI impI)
    fix m assume "res = Inr m"
    with assms obtain fixture binding fb bb sid x y resolution ts data base dir path w1 w2 where
      pair: "load_xiao_pair env (rd 0) fixture_path binding_path = Inr (fixture, binding, fb, bb)"
      and args: "require_session_id session_id_arg = Inr sid" "require_probe_serial receiver_arg ''receiver probe serial'' = Inr x"
        "require_probe_serial source_arg ''source probe serial'' = Inr y" "x \<noteq> y"
      and res: "snd (resolve_fixture denv sysfs_root binding (PDict [(''receiver'', PStr x), (''source'', PStr y)])) = Inr resolution"
      and data: "manifest_bytes env sid ts fixture fb bb resolution = Inr data"
      and same: "assert_input_bytes_unchanged (rd 1) fixture_path binding_path fb bb = Inr ()"
        "assert_input_bytes_unchanged (rd 2) fixture_path binding_path fb bb = Inr ()"
      and base: "canonical_root env ce session_root w = (w1, Inr base)" and dir: "create_session_dir ce base sid w1 = (w2, Inr dir)"
      and mf: "create_manifest_file ce dir data w2 = (w', Inr path)"
      and load: "load_session env (view_of w') (rd 3) (PStr path) fixture_path binding_path = Inr m"
      by (clarsimp simp: create_session_def w_Inr resolved_Inr split: if_splits prod.splits)
    have "world_kept w w2" using growsD [OF grows_canonical_root base] growsD [OF grows_session_dir dir] by (rule world_kept_trans)
    moreover from manifest_file_Inr [OF mf] obtain k where k: "node_at (sw_fs w2) k = None" "lstat (sw_fs w') path = Some (k, Some (File data))"
      "fa_perm (sw_attr w' k) = 256" by blast
    ultimately have "node_at (sw_fs w) k = None" by (metis option.exhaust option.distinct(1) world_kept_def)
    moreover from view_of_file [OF k(2) load] have "sm_path m = path" "sm_raw_bytes m = data" by simp_all
    moreover have "\<forall>i \<in> {0, 1, 2}. rd i fixture_path = Inr fb \<and> rd i binding_path = Inr bb"
      using same load_xiao_pair_bytes [OF pair] by (simp add: input_bytes_Inr)
    ultimately show "\<exists>k sid x y fixture binding fb bb resolution ts.
      session_id_arg = PStr sid \<and> safe_id sid \<and> receiver_arg = PStr x \<and> source_arg = PStr y \<and> x \<noteq> y \<and>
      node_at (sw_fs w) k = None \<and> lstat (sw_fs w') (sm_path m) = Some (k, Some (File (sm_raw_bytes m))) \<and> fa_perm (sw_attr w' k) = 256 \<and>
      (\<forall>i \<in> {0, 1, 2}. rd i fixture_path = Inr fb \<and> rd i binding_path = Inr bb) \<and>
      snd (resolve_fixture denv sysfs_root binding (PDict [(''receiver'', PStr x), (''source'', PStr y)])) = Inr resolution \<and>
      manifest_bytes env sid ts fixture fb bb resolution = Inr (sm_raw_bytes m)"
      using args res data k unfolding field_Inr by blast
  qed
qed

text \<open>The session of the bench is created below \<open>/s\<close>.\<close>

definition bench_world :: sess_world where
  "bench_world = \<lparr>sw_fs = [([''s''], Dir), ([''repo''], Dir)], sw_attr = (\<lambda>_. \<lparr>fa_perm = 448, fa_dev = 7, fa_ino = 3\<rparr>)\<rparr>"

definition bench_calls :: create_env where
  "bench_calls = \<lparr>ce_fault = (\<lambda>_. None), ce_new = (\<lambda>_. \<lparr>fa_perm = 384, fa_dev = 7, fa_ino = 11\<rparr>), ce_writes = [Inr 9]\<rparr>"

definition bench_tree :: "(path \<times> node) list \<Rightarrow> fsys" where
  "bench_tree new = new @ [([''s''], Dir), ([''repo''], Dir)]"

lemma bench_paths:
  "\<not> islink (bench_tree []) ''/s''" "isdir (bench_tree []) ''/s''" "realpath (bench_tree []) ''/s'' = ''/s''" "realpath (bench_tree []) ''/repo'' = ''/repo''"
  "path_join ''/s'' ''s1'' = ''/s/s1''" "lstat (bench_tree []) ''/s/s1'' = Some ([''s'', ''s1''], None)" "realpath (bench_tree []) ''/s/s1'' = ''/s/s1''"
  "path_join ''/s/s1'' SESSION_FILENAME = ''/s/s1/devices.json''"
  "lstat (bench_tree [([''s'', ''s1''], Dir)]) ''/s/s1/devices.json'' = Some ([''s'', ''s1'', ''devices.json''], None)"
  "path_text (common_path (comps ''/s'') (comps ''/repo'')) = ''/''" "normpath ''/s'' = ''/s''" "isabs ''/s''"
  by code_simp+

lemma bench_final:
  "lstat (bench_tree [([''s'', ''s1'', ''devices.json''], File b), ([''s'', ''s1''], Dir)]) ''/s/s1/devices.json'' =
     Some ([''s'', ''s1'', ''devices.json''], Some (File b))"
  "lstat (bench_tree [([''s'', ''s1'', ''devices.json''], File b), ([''s'', ''s1''], Dir)]) ''/s/s1'' = Some ([''s'', ''s1''], Some Dir)"
  "realpath (bench_tree [([''s'', ''s1'', ''devices.json''], File b), ([''s'', ''s1''], Dir)]) ''/s/s1/devices.json'' = ''/s/s1/devices.json''"
  by code_simp+

definition bench_created :: sess_world where
  "bench_created =
     \<lparr>sw_fs = bench_tree [([''s'', ''s1'', ''devices.json''], File bench_manifest), ([''s'', ''s1''], Dir)],
      sw_attr = (sw_attr bench_world)([''s'', ''s1'', ''devices.json''] := \<lparr>fa_perm = 256, fa_dev = 7, fa_ino = 11\<rparr>)\<rparr>"

lemma bench_root: "canonical_root bench_env bench_calls (PStr ''/s'') bench_world = (bench_world, Inr ''/s'')"
proof -
  have "''/s'' \<noteq> DEFAULT_SESSION_ROOT" "sw_fs bench_world = bench_tree []" "se_repo_root bench_env = ''/repo''"
    by (simp_all add: DEFAULT_SESSION_ROOT_def bench_world_def bench_tree_def bench_env_def)
  with bench_paths(1-4,10-12) show ?thesis by (simp add: canonical_root_def wbind_def wfs_def wlift_def Let_def)
qed

lemma bench_dir:
  "create_session_dir bench_calls ''/s'' ''s1'' bench_world = (bench_world\<lparr>sw_fs := bench_tree [([''s'', ''s1''], Dir)]\<rparr>, Inr ''/s/s1'')"
proof -
  have w: "sw_fs bench_world = bench_tree []" "fs_put (bench_tree []) [''s'', ''s1''] Dir = bench_tree [([''s'', ''s1''], Dir)]"
    by (simp_all add: bench_world_def bench_tree_def fs_put_def)
  have "ce_fault bench_calls x = None" for x by (simp add: bench_calls_def)
  with bench_paths(5-7) show ?thesis
    by (simp add: create_session_dir_def wbind_def wfs_def wcatch_def wmkdir_def mkdir_def wcall_def wlift_def Let_def lexists_def w)
qed

lemma write_loop_rest: "write_loop [] data = (data, Inr ())"
  by (cases data) simp_all

lemma bench_write: "write_loop [Inr 9] bench_manifest = (bench_manifest, Inr ())"
  using write_loop_rest by (cases bench_manifest) (simp_all add: write_loop_rest)

lemma bench_file:
  "create_manifest_file bench_calls ''/s/s1'' bench_manifest (bench_world\<lparr>sw_fs := bench_tree [([''s'', ''s1''], Dir)]\<rparr>) =
    (bench_created, Inr ''/s/s1/devices.json'')"
proof -
  have put: "fs_put (fs_put (bench_tree [([''s'', ''s1''], Dir)]) [''s'', ''s1'', ''devices.json''] (File [])) [''s'', ''s1'', ''devices.json''] (File b) =
    bench_tree [([''s'', ''s1'', ''devices.json''], File b), ([''s'', ''s1''], Dir)]" for b
    by (simp add: bench_tree_def fs_put_def)
  have calls: "ce_fault bench_calls x = None" "ce_new bench_calls k = \<lparr>fa_perm = 384, fa_dev = 7, fa_ino = 11\<rparr>" "ce_writes bench_calls = [Inr 9]" for x k
    by (simp_all add: bench_calls_def)
  show ?thesis
    by (simp add: create_manifest_file_def Let_def bench_paths(8,9) wbind_def wcatch_def wopen_def open_excl_def wwrite_def wfchmod_def wcall_def wlift_def
        fsync_directory_def calls bench_write put bench_created_def)
qed

lemma bench_reload: "\<exists>m. load_session bench_env (view_of bench_created) bench_files (PStr ''/s/s1/devices.json'') ''f.json'' ''b.json'' = Inr m"
proof -
  have path: "isabs ''/s/s1/devices.json''" "normpath ''/s/s1/devices.json'' = ''/s/s1/devices.json''" "basename ''/s/s1/devices.json'' = SESSION_FILENAME"
    "basename (dirname ''/s/s1/devices.json'') = ''s1''" "require_session_id (PStr ''s1'') = Inr ''s1''" "dirname ''/s/s1/devices.json'' = ''/s/s1''"
    by code_simp+
  have fs: "sw_fs bench_created = bench_tree [([''s'', ''s1'', ''devices.json''], File bench_manifest), ([''s'', ''s1''], Dir)]"
    "sw_attr bench_created [''s'', ''s1'', ''devices.json''] = \<lparr>fa_perm = 256, fa_dev = 7, fa_ino = 11\<rparr>" by (simp_all add: bench_created_def)
  have view: "\<not> view_islink (view_of bench_created) ''/s/s1/devices.json''" "\<not> view_islink (view_of bench_created) ''/s/s1''"
    "ov_realpath (view_of bench_created) ''/s/s1/devices.json'' = ''/s/s1/devices.json''"
    "ov_lstat (view_of bench_created) ''/s/s1/devices.json'' = Inr (node_stat bench_created [''s'', ''s1'', ''devices.json''] (File bench_manifest))"
    "ov_open (view_of bench_created) ''/s/s1/devices.json'' =
       Inr (node_stat bench_created [''s'', ''s1'', ''devices.json''] (File bench_manifest), [Inr bench_manifest])"
    by (simp_all add: view_islink_def view_of_def fs bench_final node_stat_def)
  have "canonical_manifest_path (view_of bench_created) (PStr ''/s/s1/devices.json'') None = Inr (''/s/s1/devices.json'', ''s1'')"
    using path view by (simp add: canonical_manifest_path_def)
  moreover have "bench_manifest \<noteq> []" by (simp add: serialize_manifest_payload_def)
  ultimately have "read_manifest_file (view_of bench_created) (PStr ''/s/s1/devices.json'') None =
      Inr (''/s/s1/devices.json'', bench_manifest, \<lparr>ms_device = 7, ms_inode = 11, ms_mode = 256, ms_session_id = ''s1''\<rparr>)"
    by (simp add: read_manifest_file_def view) (simp add: node_stat_def fs)
  then show ?thesis
    by (simp add: load_session_def bench_manifest_parses bench_pair bench_parsed_def) (simp add: bench_env_def bench_fixture_def)
qed

theorem session_creation_adds_only_witness:
  "\<exists>w' m k. create_session bench_env bench_calls lab_disc (\<lambda>_. bench_files) ''f.json'' ''b.json'' (PStr ''s1'') (PStr ''A1'') (PStr ''B2'') (PStr ''/s'') ''/sys''
      (UtcText ''2026-01-02T03:04:05Z'') bench_world = (w', Inr m) \<and>
    node_at (sw_fs bench_world) k = None \<and> lstat (sw_fs w') (sm_path m) = Some (k, Some (File (sm_raw_bytes m))) \<and>
    node_at (sw_fs w') [''repo''] = Some Dir"
proof -
  obtain s r where res: "resolve_fixture lab_disc ''/sys'' lab_boards lab_serials = (s, Inr r)" and ids: "fr_roles r = lab_identities"
    using lab_resolves by blast
  have resolved: "snd (resolve_fixture lab_disc ''/sys'' lab_boards (PDict [(''receiver'', PStr ''A1''), (''source'', PStr ''B2'')])) = Inr r"
    using res by (simp add: lab_serials_def)
  have args: "require_session_id (PStr ''s1'') = Inr ''s1''" "require_probe_serial (PStr ''A1'') x = Inr ''A1''" "require_probe_serial (PStr ''B2'') x = Inr ''B2''"
    "utc_string (UtcText ''2026-01-02T03:04:05Z'') = Inr ''2026-01-02T03:04:05Z''" for x
    using bench_utc by (simp_all add: utc_string_def require_session_id_Inr require_probe_serial_Inr) code_simp+
  have inputs: "assert_input_bytes_unchanged bench_files ''f.json'' ''b.json'' fixture_text binding_text = Inr ()"
    by (simp add: input_bytes_Inr bench_files_def)
  obtain m where m: "load_session bench_env (view_of bench_created) bench_files (PStr ''/s/s1/devices.json'') ''f.json'' ''b.json'' = Inr m"
    using bench_reload by blast
  have run: "create_session bench_env bench_calls lab_disc (\<lambda>_. bench_files) ''f.json'' ''b.json'' (PStr ''s1'') (PStr ''A1'') (PStr ''B2'') (PStr ''/s'') ''/sys''
      (UtcText ''2026-01-02T03:04:05Z'') bench_world = (bench_created, Inr m)"
    using m by (simp add: create_session_def wbind_def wlift_def bench_pair args resolved bench_manifest_bytes [OF ids] inputs bench_root bench_dir bench_file)
  have "node_at (sw_fs bench_world) [''repo''] = Some Dir" by (simp add: bench_world_def node_at_def)
  with session_creation_adds_only [OF run] run show ?thesis by blast
qed

end
