(* ===== verification/Spec2Isabelle.thy ===== *)
theory Spec2Isabelle
  imports Hil_SourceRun Hil_Matrix Hil_Receiver Hil_IsoText Flpr_Status Hil_Evidence Hil_Staging Hil_Qualification Hil_Creation
begin

text \<open>
  \<^bold>\<open>Verification of the system HIL runner.\<close>

  The repository builds an LE Audio receiver and tests it on hardware: a source board streams a known signal, the
  receiver board decodes it, and the Python program under \<open>src/scripts/hil\<close> drives both over serial consoles, collects
  evidence and decides the verdict of each row of a fixed test matrix.  This development models that program's decision
  logic: what it accepts as evidence, what it refuses, what it cleans up and in which order.

  \<^bold>\<open>Parts and theories.\<close>

  \<^item> \<open>Prelude\<close>, \<open>Py_Text\<close>, \<open>Py_Json\<close>, \<open>Py_OS\<close>, \<open>Py_Float\<close>, \<open>Py_Regex\<close>: the Python the scripts rely on.  Dynamic values,
    exceptions as the left side of a sum, and results; text as UTF-8 bytes; \<open>json.loads\<close> and \<open>json.dumps\<close>; a file system
    with links; doubles as the rationals they denote with correct rounding; a backtracking pattern matcher with its
    declarative meaning (\<open>run_matches\<close>).  The Unicode character database, SHA-256, clocks, process ids and random tokens
    are parameters.
  \<^item> \<open>Hil_Protocol\<close> (\<open>hil/protocol.py\<close>): the parser of one \<open>HIL1\<close> console record and the run tracker, a state machine over
    the records of one run.  The lemmas show that the tracker admits exactly initial pieces of the canonical life cycle,
    plus an abort, that a refused record changes nothing, that a complete run is accepted, and that records survive
    printing and parsing.
  \<^item> \<open>Hil_Rows\<close> (\<open>hil/rows.py\<close>): row specifications, their derived counters and the schedule of the two passes.
  \<^item> \<open>Hil_Lifecycle\<close> (\<open>hil/lifecycle.py\<close>): the cleanup stack, the fixture lock and the run directories, over an explicit
    file system.  Mutual exclusion holds for every interleaving of the clients' calls.
  \<^item> \<open>Hil_Model\<close> (\<open>hil/model.py\<close>): the readers of the logical fixture and the physical binding, complete with their
    error behaviour.
  \<^item> \<open>Hil_SourceClient\<close>, \<open>Hil_SourceRun\<close> (\<open>hil/source_client.py\<close>): the client of the source board: numbered commands,
    waiting loops with deadlines, the drive through the states of a run, and the bounded stop in the cleanup.  The console
    is an environment that delivers lines, clock readings and cancel flags.  Two locales carry the invariants through all
    operations (\<open>listener_rel\<close>, \<open>client_rel\<close>, interpreted for the quiet, the growing and the fresh relation), a third one
    (\<open>wait_loop\<close>) the end of the four waiting loops.
  \<^item> \<open>Hil_Matrix\<close> (\<open>hil/matrix.py\<close>): the coordinator that runs the rows of the schedule, one fresh runner each, stops at
    the first row that does not pass and reports; it uses the rows, the run directories and the lock.
  \<^item> \<open>Hil_Console\<close>, \<open>Flpr_Status\<close> (\<open>hil/receiver.py\<close>, \<open>flpr_status.py\<close>, \<open>strip_vt100\<close> of \<open>hil/serial_io.py\<close>): from the
    receiver's console text to dictionaries, and the warning scan of the raw log with the exemption of the hang row.
  \<^item> \<open>Hil_Receiver\<close> (\<open>hil/receiver.py\<close>): from those dictionaries to the verdict on a stream, a link-quality snapshot and the
    offload plane.  \<open>healthy_evidence\<close> and \<open>recovery_evidence\<close> are the specifications that the validators implement.
  \<^item> \<open>Hil_IsoText\<close>: what the firmware prints of the link quality is what \<open>parse_iso_link_quality\<close> reads.
  \<^item> \<open>Py_IO\<close>, \<open>Py_JsonDump\<close>: a directory on which every call of the system may be refused, leave part of a write, or be
    followed by an interrupt, with invariants under every such script (locale \<open>dir_invariant\<close>) and a calculus for
    computations with at most one refused call (\<open>settles\<close>); indented and sorted JSON with its round trip.
  \<^item> \<open>Hil_Evidence\<close> (\<open>hil/evidence.py\<close>): hashing and the two metadata files of a run, committed together or rolled back,
    the JUnit and JSON writers and the record of the environment.
  \<^item> \<open>Hil_Artifacts\<close>, \<open>Hil_Staging\<close> (\<open>hil/artifacts.py\<close>): the contracts of the two firmware archives (members, Intel
    HEX, checksums, manifest), their staging and the revalidation before flashing.
  \<^item> \<open>Hil_Qualification\<close> (\<open>hil/qualification.py\<close>): the reader of the accepted capture qualification, bound to its bytes,
    its runs and the capture it was made with, and the evaluation of measured metrics against its limits.
  \<^item> \<open>Hil_Discovery\<close>, \<open>Hil_Boards\<close> (\<open>hil/discovery.py\<close>): the probe table, the fingerprint of a board, the udev queries and the
    correlation of probes, terminals and sound cards.  Commands are answered by the environment; the state is the list of the commands
    and the evidence so far.  The locale \<open>disc_rel\<close> carries a relation on that state through all operations and is interpreted twice, for
    the commands that were issued and for the evidence that stays.
  \<^item> \<open>Hil_Session\<close>, \<open>Hil_Manifest\<close>, \<open>Hil_Creation\<close> (\<open>hil/session.py\<close>): the session manifest that binds the two boards, the fixture
    and the binding; its creation on an explicit file system, its loading, and the revalidation before target actions.
  \<^item> this theory: properties that join the console parsers and the validators.

  \<^bold>\<open>Reading the model.\<close>  Definitions keep the names of the functions they translate, without the leading underscore.  A
  method takes its object as a record and returns it updated.  A \<open>raise\<close> is \<open>Inl\<close> of the exception with its message, a
  format string and its arguments.  A validator returns its list of complaints, as the code does.

  \<^bold>\<open>Bounds and fuel.\<close>  The JSON scanner has fuel for every byte of its text (\<open>json_fuel_enough\<close>); link resolution has fuel
  for every link on the path; a repetition of the matcher runs at most once per remaining code point; the waiting loops
  of the source client spend one unit per console reading and \<open>waits_end\<close> shows which readings end them.  The transport
  limits are exact for counts below \<open>2 ^ 40\<close>, far above any row.

  \<^bold>\<open>Not modelled.\<close>  The threads and queues of the serial console, the row runner that drives the boards
  (\<open>hil/runner.py\<close>), the capture and its signal analysis, the HCI and SDC trace parsers of \<open>hil/receiver.py\<close>, the command
  line, and the scripts outside \<open>hil\<close> that control simulators, virtual machines and D-Bus.  They are input, output and process
  control, or numerical work on sample arrays.

  \<^bold>\<open>Plan.\<close>  What could follow: the trace parsers of \<open>hil/receiver.py\<close> on the pattern matcher, the verdict of one row in
  \<open>hil/runner.py\<close> on top of the source client, the sessions and the validators, the stage-1 log parser and the gates that use
  \<open>Flpr_Status\<close>.
\<close>

section \<open>Console transcripts and the verdict\<close>

text \<open>For each line of the status block a field that the validators ask for and that no other line sets.\<close>

definition evidence_key :: "string \<Rightarrow> string" where
  "evidence_key title =
     (if title = ''Counters'' then ''busy'' else if title = ''Recovery'' then ''recovery_attempts''
      else if title = ''Probation'' then ''probation_active'' else ''fault_crc'')"

lemma evidence_key_ok:
  "list_all (\<lambda>(title, labels, keys). title \<noteq> ''Runtime'' \<longrightarrow>
     evidence_key title \<in> set (ACTIVE_COUNTERS @ OFFLOAD_FAULT_FIELDS) \<and>
     dict_get empty_status (evidence_key title) = PInt (- 1) \<and>
     evidence_key title \<notin> {''state'', ''epoch'', ''gen'', ''hb_dedup''} \<and>
     list_all (\<lambda>(t, ls, ks). evidence_key title \<in> set ks \<longrightarrow> t = title \<and> ls = labels) STATUS_LINES) STATUS_LINES"
  by code_simp

lemma absent_line:
  assumes "parse_offload_status u transcript = Inr d" and "(title, labels, keys) \<in> set STATUS_LINES" and "title \<noteq> ''Runtime''"
    and "re_search (RE_STATUS_LINE u title labels) (utf8_points transcript) = None"
  shows "evidence_key title \<in> set (ACTIVE_COUNTERS @ OFFLOAD_FAULT_FIELDS)" and "absent (dict_get d (evidence_key title))"
proof -
  note key = evidence_key_ok [unfolded list_all_iff, rule_format, OF assms(2), unfolded prod.case, rule_format, OF assms(3)]
  from key show "evidence_key title \<in> set (ACTIVE_COUNTERS @ OFFLOAD_FAULT_FIELDS)" by blast
  have "\<forall>(t, ls, ks) \<in> set STATUS_LINES.
      evidence_key title \<in> set ks \<longrightarrow> re_search (RE_STATUS_LINE u t ls) (utf8_points transcript) = None"
    using key assms(4) by (fastforce simp: list_all_iff)
  with parse_offload_frame [OF assms(1)] key have "dict_get d (evidence_key title) = PInt (- 1)" by metis
  then show "absent (dict_get d (evidence_key title))" by (simp add: absent_def)
qed

text \<open>C11: From console text to verdict: when one of the Counters, Recovery, Probation or Faults lines is not in a
  \<open>flpr offload\<close> transcript, the snapshot parsed from it can pass neither as the live nor as the stopped evidence of any row,
  whatever the rest of the evidence is.\<close>

theorem transcript_without_line_fails:
  assumes "parse_offload_status u transcript = Inr d" and "(title, labels, keys) \<in> set STATUS_LINES" and "title \<noteq> ''Runtime''"
    and "re_search (RE_STATUS_LINE u title labels) (utf8_points transcript) = None"
  shows "validate_receiver_lifecycle_blocks faults (PDict d) other handshake profile recovery pending disabled \<noteq> Inr [] \<and>
    validate_receiver_lifecycle_blocks faults other (PDict d) handshake profile recovery pending disabled \<noteq> Inr []"
proof -
  note ab = absent_line [OF assms]
  have "required_absent faults (PDict d) other handshake (evidence_key title)"
    "required_absent faults other (PDict d) handshake (evidence_key title)"
    using ab by (auto simp: required_absent_def)
  then show ?thesis by (blast dest: required_absent_fails)
qed

lemma ex_empty_transcript: "parse_offload_status ascii_ucd [] = Inr empty_status"
  by code_simp

theorem transcript_without_line_fails_witness:
  "validate_receiver_lifecycle_blocks (PDict ex_faults) (PDict empty_status) (PDict (ex_offload ''STOPPED'' 62 60 1))
     (PDict ex_handshake) ''48_4_1'' (PDict ex_recovery) False False \<noteq> Inr [] \<and>
   validate_receiver_lifecycle_blocks (PDict ex_faults) (PDict (ex_offload ''STOPPED'' 62 60 1)) (PDict empty_status)
     (PDict ex_handshake) ''48_4_1'' (PDict ex_recovery) False False \<noteq> Inr []"
  by (rule transcript_without_line_fails [OF ex_empty_transcript, of "''Counters''"
        "[''submit'', ''success'', ''fallback'', ''busy'']" "[''submit'', ''success'', ''fallback'', ''busy'']"])
    (simp add: STATUS_LINES_def, simp, code_simp)

end
